(* ===== verification/Js_Prelude.thy ===== *)
theory Js_Prelude
  imports Main "HOL-Library.Multiset"
begin

text \<open>
  What every component of the development shares: the pieces of JavaScript the backend's
  TypeScript uses. Strings are lists of code units (\<open>string\<close>, code units below 256: the code
  compares, trims and measures strings, and its own patterns are ASCII); \<open>undefined\<close> and
  \<open>null\<close> are \<open>None\<close> where the code treats both alike; a thrown exception is \<open>Inl\<close>; a
  \<open>Map\<close> is a list of key/value pairs in insertion order (iteration order matters: the caches
  evict \<open>keys().next()\<close>); \<open>Array.prototype.sort\<close> is a stable sort by a comparator.
\<close>

named_theorems jsmap_simps \<open>lookup and key-set equations of insertion-ordered maps\<close>
named_theorems inv_intros \<open>preservation lemmas of the component invariants\<close>

subsection \<open>Strings\<close>

definition is_ws :: "char \<Rightarrow> bool" where
  "is_ws c = (of_char c \<in> {9, 10, 11, 12, 13, 32, 160 :: nat})"

text \<open>\<open>String.prototype.trim\<close>: white space and line terminators off both ends.\<close>

definition js_trim :: "string \<Rightarrow> string" where
  "js_trim s = rev (dropWhile is_ws (rev (dropWhile is_ws s)))"

lemma js_trim_Nil [simp]: "js_trim [] = []"
  by (simp add: js_trim_def)

lemma dropWhile_not_hd: "dropWhile P xs = y # ys \<Longrightarrow> \<not> P y"
  by (metis hd_dropWhile list.distinct(1) list.sel(1))

lemma dropWhile_id: "(xs = [] \<or> \<not> P (hd xs)) \<Longrightarrow> dropWhile P xs = xs"
  by (cases xs) auto

lemma dropWhile_twice: "dropWhile P (dropWhile P xs) = dropWhile P xs"
  by (induction xs) auto

lemma rev_dropWhile_prefix: "\<exists>zs. xs = rev (dropWhile P (rev xs)) @ zs"
  by (metis rev_append rev_rev_ident takeWhile_dropWhile_id)

lemma js_trim_idem [simp]: "js_trim (js_trim s) = js_trim s"
proof -
  let ?a = "dropWhile is_ws s"
  let ?b = "rev (dropWhile is_ws (rev ?a))"
  obtain zs where zs: "?a = ?b @ zs" using rev_dropWhile_prefix by blast
  have hd_b: "?b = [] \<or> \<not> is_ws (hd ?b)"
  proof (cases "?b = []")
    case False
    then have "hd ?a = hd ?b" using zs by (metis hd_append2)
    moreover have "?a \<noteq> []" using False zs by (metis append_is_Nil_conv)
    ultimately show ?thesis using hd_dropWhile by metis
  qed simp
  have "dropWhile is_ws ?b = ?b" using hd_b by (intro dropWhile_id)
  then show ?thesis by (simp add: js_trim_def dropWhile_twice)
qed

lemma js_trim_no_ws:
  assumes "list_all (\<lambda>c. \<not> is_ws c) s"
  shows "js_trim s = s"
proof -
  have "dropWhile is_ws t = t" if "set t \<subseteq> set s" for t
    using assms that by (cases t) (auto simp: list_all_iff)
  then show ?thesis by (simp add: js_trim_def)
qed

text \<open>Code-unit order, as \<open>a < b\<close> on strings compares.\<close>

fun str_lt :: "string \<Rightarrow> string \<Rightarrow> bool" where
  "str_lt [] [] = False"
| "str_lt [] (_ # _) = True"
| "str_lt (_ # _) [] = False"
| "str_lt (a # as) (b # bs) =
     (if a = b then str_lt as bs else of_char a < (of_char b :: nat))"

lemma str_lt_irrefl [simp]: "\<not> str_lt s s"
  by (induction s) auto

lemma of_char_nat_inj: "(of_char a :: nat) = of_char b \<longleftrightarrow> a = b"
  by simp

lemma str_lt_total: "s \<noteq> t \<Longrightarrow> str_lt s t \<or> str_lt t s"
proof (induction s t rule: str_lt.induct)
  case (4 a as b bs)
  then show ?case
    using of_char_nat_inj [of a b] by (cases "a = b") (auto simp del: of_char_eq_iff)
qed auto

lemma str_lt_asym: "str_lt s t \<Longrightarrow> \<not> str_lt t s"
  by (induction s t rule: str_lt.induct) (auto split: if_splits)

lemma str_lt_trans: "str_lt s t \<Longrightarrow> str_lt t u \<Longrightarrow> str_lt s u"
proof (induction s t arbitrary: u rule: str_lt.induct)
  case (4 a as b bs)
  then show ?case by (cases u) (auto split: if_splits)
qed (auto elim: str_lt.elims)

lemma str_not_lt_trans: "\<not> str_lt a b \<Longrightarrow> \<not> str_lt b c \<Longrightarrow> \<not> str_lt a c"
  by (metis str_lt_total str_lt_trans)

text \<open>\<open>s.split(c)\<close> for a single character.\<close>

fun split_on :: "char \<Rightarrow> string \<Rightarrow> string list" where
  "split_on c [] = [[]]"
| "split_on c (x # xs) =
     (if x = c then [] # split_on c xs
      else case split_on c xs of p # ps \<Rightarrow> (x # p) # ps | [] \<Rightarrow> [[x]])"

lemma split_on_none: "c \<notin> set s \<Longrightarrow> split_on c s = [s]"
  by (induction s) auto

lemma split_on_append: "c \<notin> set s \<Longrightarrow> split_on c (s @ c # t) = s # split_on c t"
  by (induction s) auto

text \<open>\<open>xs.join(sep)\<close>\<close>

fun join :: "string \<Rightarrow> string list \<Rightarrow> string" where
  "join sep [] = []"
| "join sep [s] = s"
| "join sep (s # t # ts) = s @ sep @ join sep (t # ts)"

lemma split_on_not_Nil [simp]: "split_on c s \<noteq> []"
  by (cases s) (auto split: list.split)

lemma join_split: "join [c] (split_on c s) = s"
proof (induction s)
  case (Cons x s)
  obtain p ps where sp: "split_on c s = p # ps" by (cases "split_on c s") auto
  then show ?case using Cons by (cases ps) auto
qed simp

text \<open>\<open>toLowerCase\<close> on the letters among the code units below 256.\<close>

definition lower_char :: "char \<Rightarrow> char" where
  "lower_char c = (let n = of_char c :: nat in
     if 65 \<le> n \<and> n \<le> 90 \<or> 192 \<le> n \<and> n \<le> 222 \<and> n \<noteq> 215 then char_of (n + 32) else c)"

definition js_lower :: "string \<Rightarrow> string" where
  "js_lower s = map lower_char s"

definition is_digit :: "char \<Rightarrow> bool" where
  "is_digit c = (let n = of_char c :: nat in 48 \<le> n \<and> n \<le> 57)"

definition is_hex :: "char \<Rightarrow> bool" where
  "is_hex c = (let n = of_char c :: nat in
     (48 \<le> n \<and> n \<le> 57) \<or> (65 \<le> n \<and> n \<le> 70) \<or> (97 \<le> n \<and> n \<le> 102))"

definition is_alpha :: "char \<Rightarrow> bool" where
  "is_alpha c = (let n = of_char c :: nat in (65 \<le> n \<and> n \<le> 90) \<or> (97 \<le> n \<and> n \<le> 122))"

definition is_alnum :: "char \<Rightarrow> bool" where
  "is_alnum c = (is_digit c \<or> is_alpha c)"

text \<open>A JavaScript string is truthy when it is not empty; so is an optional one when present.\<close>

definition truthy :: "string option \<Rightarrow> bool" where
  "truthy s = (case s of None \<Rightarrow> False | Some t \<Rightarrow> t \<noteq> [])"

lemma truthy_Some [simp]: "truthy (Some t) \<longleftrightarrow> t \<noteq> []"
  by (simp add: truthy_def)

lemma truthy_None [simp]: "\<not> truthy None"
  by (simp add: truthy_def)

lemma truthy_iff: "truthy s \<longleftrightarrow> (\<exists>t. s = Some t \<and> t \<noteq> [])"
  by (cases s) auto

text \<open>A value of type \<open>unknown\<close> that the code inspects with \<open>typeof v === 'string'\<close> only.\<close>

datatype unk = UUndef | UStr string | UOther

text \<open>The members of \<open>new Set(xs)\<close>, in the order of their first occurrence.\<close>

definition js_set :: "'a list \<Rightarrow> 'a list" where
  "js_set xs = rev (remdups (rev xs))"

lemma set_js_set [simp]: "set (js_set xs) = set xs"
  by (simp add: js_set_def)

lemma distinct_js_set [simp]: "distinct (js_set xs)"
  by (simp add: js_set_def)

subsection \<open>Maps with insertion order\<close>

type_synonym ('k, 'v) jsmap = "('k \<times> 'v) list"

abbreviation mget :: "('k, 'v) jsmap \<Rightarrow> 'k \<Rightarrow> 'v option" where
  "mget m k \<equiv> map_of m k"

abbreviation mhas :: "('k, 'v) jsmap \<Rightarrow> 'k \<Rightarrow> bool" where
  "mhas m k \<equiv> map_of m k \<noteq> None"

definition mdelete :: "'k \<Rightarrow> ('k, 'v) jsmap \<Rightarrow> ('k, 'v) jsmap" where
  "mdelete k m = filter (\<lambda>p. fst p \<noteq> k) m"

text \<open>\<open>Map.prototype.set\<close> overwrites in place when the key is present and appends otherwise.\<close>

fun mset_kv :: "'k \<Rightarrow> 'v \<Rightarrow> ('k, 'v) jsmap \<Rightarrow> ('k, 'v) jsmap" where
  "mset_kv k v [] = [(k, v)]"
| "mset_kv k v ((k', v') # m) = (if k' = k then (k, v) # m else (k', v') # mset_kv k v m)"

definition mwf :: "('k, 'v) jsmap \<Rightarrow> bool" where
  "mwf m = distinct (map fst m)"

lemma mwf_Nil [simp]: "mwf []"
  by (simp add: mwf_def)

lemma mget_mset_kv [simp]: "mget (mset_kv k v m) k' = (if k' = k then Some v else mget m k')"
  by (induction m) auto

lemma mget_mdelete [simp]: "mget (mdelete k m) k' = (if k' = k then None else mget m k')"
  by (induction m) (auto simp: mdelete_def)

lemma keys_mset_kv [jsmap_simps]: "fst ` set (mset_kv k v m) = insert k (fst ` set m)"
proof (induction m)
  case (Cons p m)
  then show ?case by (cases p) (simp add: insert_commute)
qed simp

lemma keys_mdelete [jsmap_simps]: "fst ` set (mdelete k m) = fst ` set m - {k}"
  by (auto simp: mdelete_def)

lemma mhas_keys: "mhas m k \<longleftrightarrow> k \<in> fst ` set m"
  by (simp add: map_of_eq_None_iff)

lemma mwf_mset_kv [simp, intro]: "mwf m \<Longrightarrow> mwf (mset_kv k v m)"
proof (induction m)
  case (Cons p m)
  then show ?case
    using keys_mset_kv [of k v m] by (cases p) (auto simp: mwf_def)
qed (simp add: mwf_def)

lemma mwf_mdelete [simp, intro]: "mwf m \<Longrightarrow> mwf (mdelete k m)"
  by (auto simp: mwf_def mdelete_def intro: distinct_map_filter)

lemma mset_kv_fresh: "mget m k = None \<Longrightarrow> mset_kv k v m = m @ [(k, v)]"
  by (induction m) (auto split: if_splits)

lemma mdelete_fresh: "mget m k = None \<Longrightarrow> mdelete k m = m"
  unfolding mdelete_def map_of_eq_None_iff by (rule filter_True) force

lemma mset_kv_twice: "mset_kv k v (mset_kv k u m) = mset_kv k v m"
  by (induction m) auto

lemma length_mset_kv: "length (mset_kv k v m) = (if mhas m k then length m else Suc (length m))"
  by (induction m) auto

lemma length_mdelete_le: "length (mdelete k m) \<le> length m"
  by (simp add: mdelete_def)

lemma length_mdelete_has: "mget m k = Some v \<Longrightarrow> length (mdelete k m) < length m"
  unfolding mdelete_def by (rule length_filter_less [of "(k, v)"]) (auto dest: map_of_SomeD)

lemma mget_values: "mwf m \<Longrightarrow> (k, v) \<in> set m \<longleftrightarrow> mget m k = Some v"
  by (simp add: mwf_def map_of_eq_Some_iff)

lemma map_of_SomeD_set: "mget m k = Some v \<Longrightarrow> (k, v) \<in> set m"
  by (rule map_of_SomeD)

lemma mdelete_hd: "mwf ((k, v) # m) \<Longrightarrow> mdelete k ((k, v) # m) = m"
  using mdelete_fresh [where m = m and k = k]
  by (simp add: mwf_def mdelete_def map_of_eq_None_iff)

lemma length_mdelete_mwf: "mwf m \<Longrightarrow> mget m k = Some v \<Longrightarrow> Suc (length (mdelete k m)) = length m"
proof (induction m)
  case (Cons p m)
  obtain k' v' where p: "p = (k', v')" by fastforce
  show ?case
  proof (cases "k' = k")
    case True
    then show ?thesis using Cons.prems mdelete_hd [of k v' m] by (simp add: p)
  next
    case False
    then show ?thesis using Cons by (simp add: p mwf_def mdelete_def)
  qed
qed simp

lemma mwf_filter [simp, intro]: "mwf m \<Longrightarrow> mwf (filter P m)"
  by (simp add: mwf_def distinct_map_filter)

lemma mget_filter:
  assumes "mwf m"
  shows "mget (filter P m) k = (case mget m k of Some v \<Rightarrow> if P (k, v) then Some v else None | None \<Rightarrow> None)"
proof (cases "mget m k")
  case None
  then have "mget (filter P m) k = None" by (auto simp: map_of_eq_None_iff)
  then show ?thesis using None by simp
next
  case (Some v)
  then have "(k, w) \<in> set m \<longleftrightarrow> w = v" for w using mget_values [OF assms, of k w] by auto
  then show ?thesis using Some mget_values [OF mwf_filter [OF assms, of P], of k]
    by (cases "P (k, v)") (auto simp: map_of_eq_None_iff)
qed

lemma mset_kv_append_del: "mset_kv k v (mdelete k m) = mdelete k m @ [(k, v)]"
  by (rule mset_kv_fresh) simp

subsection \<open>Stable sorting by a comparator\<close>

text \<open>
  \<open>xs.sort(cmp)\<close>: \<open>cmp a b < 0\<close> puts \<open>a\<close> first, and elements that compare equal keep their
  order (the language requires a stable sort). Insertion from the right is stable.
\<close>

fun insert_by :: "('a \<Rightarrow> 'a \<Rightarrow> int) \<Rightarrow> 'a \<Rightarrow> 'a list \<Rightarrow> 'a list" where
  "insert_by cmp x [] = [x]"
| "insert_by cmp x (y # ys) = (if cmp x y \<le> 0 then x # y # ys else y # insert_by cmp x ys)"

fun sort_by :: "('a \<Rightarrow> 'a \<Rightarrow> int) \<Rightarrow> 'a list \<Rightarrow> 'a list" where
  "sort_by cmp [] = []"
| "sort_by cmp (x # xs) = insert_by cmp x (sort_by cmp xs)"

lemma mset_insert_by [simp]: "mset (insert_by cmp x xs) = add_mset x (mset xs)"
  by (induction xs) auto

lemma mset_sort_by [simp]: "mset (sort_by cmp xs) = mset xs"
  by (induction xs) auto

lemma set_sort_by [simp]: "set (sort_by cmp xs) = set xs"
  using mset_sort_by [of cmp xs] by (metis set_mset_mset)

lemma set_insert_by [simp]: "set (insert_by cmp x xs) = insert x (set xs)"
  by (induction xs) auto

lemma length_sort_by [simp]: "length (sort_by cmp xs) = length xs"
  using mset_sort_by [of cmp xs] by (metis size_mset)

lemma distinct_sort_by [simp]: "distinct (sort_by cmp xs) = distinct xs"
  using mset_sort_by [of cmp xs] by (rule mset_eq_imp_distinct_iff)

text \<open>What a comparator has to satisfy for the result to be ordered by it.\<close>

locale comparator =
  fixes cmp :: "'a \<Rightarrow> 'a \<Rightarrow> int"
  assumes cmp_antisym: "cmp a b \<le> 0 \<or> cmp b a \<le> 0"
    and cmp_trans: "cmp a b \<le> 0 \<Longrightarrow> cmp b c \<le> 0 \<Longrightarrow> cmp a c \<le> 0"
begin

lemma sorted_insert_by:
  "sorted_wrt (\<lambda>a b. cmp a b \<le> 0) xs \<Longrightarrow> sorted_wrt (\<lambda>a b. cmp a b \<le> 0) (insert_by cmp x xs)"
proof (induction xs)
  case (Cons y ys)
  show ?case
  proof (cases "cmp x y \<le> 0")
    case True
    then show ?thesis using Cons.prems cmp_trans [of x y] by auto
  next
    case False
    then have "cmp y x \<le> 0" using cmp_antisym [of x y] by simp
    then show ?thesis using False Cons by auto
  qed
qed simp

lemma sorted_sort_by: "sorted_wrt (\<lambda>a b. cmp a b \<le> 0) (sort_by cmp xs)"
  by (induction xs) (auto intro: sorted_insert_by)

lemma sort_by_sorted_id: "sorted_wrt (\<lambda>a b. cmp a b \<le> 0) xs \<Longrightarrow> sort_by cmp xs = xs"
proof (induction xs)
  case (Cons x xs)
  then show ?case by (cases xs) auto
qed simp

lemma filter_insert_by:
  assumes "sorted_wrt (\<lambda>a b. cmp a b \<le> 0) ys"
  shows "filter P (insert_by cmp x ys) = (if P x then insert_by cmp x (filter P ys) else filter P ys)"
  using assms
proof (induction ys)
  case (Cons y ys)
  show ?case
  proof (cases "cmp x y \<le> 0")
    case True
    have "insert_by cmp x (filter P (y # ys)) = x # filter P (y # ys)"
    proof (cases "filter P (y # ys)")
      case (Cons z zs)
      then have "z \<in> set (y # ys)" by (metis filter_is_subset list.set_intros(1) subsetD)
      then have "cmp x z \<le> 0" using True Cons.prems cmp_trans [of x y z] \<open>sorted_wrt _ (y # ys)\<close> by auto
      then show ?thesis using Cons by simp
    qed simp
    then show ?thesis using True by simp
  qed (use Cons in auto)
qed simp

text \<open>A stable sort commutes with a filter.\<close>

lemma sort_by_filter: "sort_by cmp (filter P xs) = filter P (sort_by cmp xs)"
  by (induction xs) (simp_all add: filter_insert_by sorted_sort_by)

lemma sort_by_hd_least:
  assumes "sort_by cmp xs = y # ys" and "x \<in> set xs"
  shows "cmp y x \<le> 0"
proof -
  have srt: "sorted_wrt (\<lambda>a b. cmp a b \<le> 0) (y # ys)"
    using sorted_sort_by [of xs] assms(1) by simp
  have "x \<in> set (y # ys)" using assms set_sort_by [of cmp xs] by simp
  then show ?thesis using srt cmp_antisym [of y y] by auto
qed

end

text \<open>Comparators whose strict part is the complement of the converse; keyset pages rest on it.\<close>

locale strict_comparator = comparator +
  assumes cmp_strict: "cmp a b < 0 \<longleftrightarrow> \<not> cmp b a \<le> 0"
begin

lemma filter_after:
  assumes "sorted_wrt (\<lambda>a b. cmp a b < 0) ys" and "i < length ys"
  shows "filter (\<lambda>r. cmp (ys ! i) r < 0) ys = drop (Suc i) ys"
proof -
  let ?P = "\<lambda>r. cmp (ys ! i) r < 0"
  have split: "ys = take i ys @ ys ! i # drop (Suc i) ys" by (rule id_take_nth_drop [OF assms(2)])
  have before: "\<not> ?P r" if "r \<in> set (take i ys)" for r
    using assms(1) that cmp_strict [of r "ys ! i"] unfolding split [symmetric]
    by (subst (asm) split) (auto simp: sorted_wrt_append)
  have after: "?P r" if "r \<in> set (drop (Suc i) ys)" for r
    using assms(1) that by (subst (asm) split) (auto simp: sorted_wrt_append)
  have "\<not> ?P (ys ! i)" using cmp_strict [of "ys ! i" "ys ! i"] by auto
  then have "filter ?P (take i ys @ ys ! i # drop (Suc i) ys) = drop (Suc i) ys"
    using before after by (simp add: filter_empty_conv)
  then show ?thesis using split by metis
qed

lemma sorted_strict:
  assumes "\<And>a b. a \<in> set xs \<Longrightarrow> b \<in> set xs \<Longrightarrow> cmp a b = 0 \<Longrightarrow> a = b" and "distinct xs"
  shows "sorted_wrt (\<lambda>a b. cmp a b < 0) (sort_by cmp xs)"
proof -
  let ?ys = "sort_by cmp xs"
  have "cmp (?ys ! i) (?ys ! j) < 0" if "i < j" and "j < length ?ys" for i j
  proof -
    have "cmp (?ys ! i) (?ys ! j) \<le> 0" using sorted_sort_by that by (simp add: sorted_wrt_iff_nth_less)
    moreover have "?ys ! i \<noteq> ?ys ! j"
      using that assms(2) distinct_sort_by [of cmp xs] by (simp add: nth_eq_iff_index_eq)
    moreover have "?ys ! i \<in> set xs" "?ys ! j \<in> set xs"
      using that nth_mem [of i ?ys] nth_mem [of j ?ys] by simp_all
    ultimately show ?thesis using assms(1) [of "?ys ! i" "?ys ! j"] by linarith
  qed
  then show ?thesis by (simp add: sorted_wrt_iff_nth_less)
qed

lemma strict_sorted_unique:
  assumes "sorted_wrt (\<lambda>a b. cmp a b < 0) xs" and "sorted_wrt (\<lambda>a b. cmp a b < 0) ys" and "set xs = set ys"
  shows "xs = ys"
  using assms
proof (induction xs arbitrary: ys)
  case (Cons x xs)
  then obtain y ys' where ys: "ys = y # ys'" by (cases ys) auto
  have irrefl: "\<not> cmp a a < 0" for a using cmp_strict [of a a] by auto
  have "x = y"
  proof (rule ccontr)
    assume "x \<noteq> y"
    then have "x \<in> set ys'" "y \<in> set xs" using Cons.prems(3) ys by auto
    then show False using Cons.prems(1,2) ys cmp_strict [of x y] by auto
  qed
  moreover have "x \<notin> set xs" "y \<notin> set ys'" using Cons.prems(1,2) ys irrefl by auto
  ultimately have "set xs = set ys'" using Cons.prems(3) ys by auto
  then show ?case using Cons.IH [of ys'] Cons.prems(1,2) ys \<open>x = y\<close> by simp
qed simp

lemma sort_by_perm:
  assumes "\<And>a b. a \<in> set xs \<Longrightarrow> b \<in> set xs \<Longrightarrow> cmp a b = 0 \<Longrightarrow> a = b" and "distinct xs" and "mset xs = mset ys"
  shows "sort_by cmp xs = sort_by cmp ys"
proof (rule strict_sorted_unique)
  have "set ys = set xs" "distinct ys" using assms(2,3) mset_eq_setD mset_eq_imp_distinct_iff by metis+
  then show "sorted_wrt (\<lambda>a b. cmp a b < 0) (sort_by cmp ys)" "set (sort_by cmp xs) = set (sort_by cmp ys)"
    using assms(1) sorted_strict [of ys] by simp_all
  show "sorted_wrt (\<lambda>a b. cmp a b < 0) (sort_by cmp xs)" by (rule sorted_strict [OF assms(1,2)])
qed

end

subsection \<open>Slices and searches\<close>

text \<open>\<open>xs.slice(i, j)\<close> for non-negative \<open>i\<close> and \<open>j\<close>.\<close>

definition slice :: "nat \<Rightarrow> nat \<Rightarrow> 'a list \<Rightarrow> 'a list" where
  "slice i j xs = take (j - i) (drop i xs)"

lemma slice_0 [simp]: "slice 0 n xs = take n xs"
  by (simp add: slice_def)

lemma set_slice: "set (slice i j xs) \<subseteq> set xs"
  unfolding slice_def by (meson in_set_dropD in_set_takeD subsetI)

lemma length_slice_le: "length (slice i j xs) \<le> j - i"
  by (simp add: slice_def)

lemma find_Some_iff_ex: "(\<exists>x. List.find P xs = Some x) \<longleftrightarrow> (\<exists>x \<in> set xs. P x)"
  by (induction xs) auto

lemma find_SomeD: "List.find P xs = Some x \<Longrightarrow> x \<in> set xs \<and> P x"
  by (induction xs) (auto split: if_splits)

lemma find_None_D: "List.find P xs = None \<Longrightarrow> x \<in> set xs \<Longrightarrow> \<not> P x"
  by (simp add: find_None_iff)

subsection \<open>Results\<close>

type_synonym ('e, 'a) result = "'e + 'a"

definition rbind :: "('e, 'a) result \<Rightarrow> ('a \<Rightarrow> ('e, 'b) result) \<Rightarrow> ('e, 'b) result" where
  "rbind r f = (case r of Inl e \<Rightarrow> Inl e | Inr a \<Rightarrow> f a)"

lemma rbind_simps [simp]: "rbind (Inl e) f = Inl e" "rbind (Inr a) f = f a"
  by (simp_all add: rbind_def)

lemma rbind_Inr_iff: "rbind r f = Inr b \<longleftrightarrow> (\<exists>a. r = Inr a \<and> f a = Inr b)"
  by (cases r) auto

text \<open>A guard that throws \<open>e\<close> when its condition holds.\<close>

text \<open>\<open>xs.map(f)\<close> where \<open>f\<close> may throw: the first error ends it.\<close>

fun rmap :: "('a \<Rightarrow> ('e, 'b) result) \<Rightarrow> 'a list \<Rightarrow> ('e, 'b list) result" where
  "rmap f [] = Inr []"
| "rmap f (x # xs) = (case f x of Inl e \<Rightarrow> Inl e
     | Inr y \<Rightarrow> (case rmap f xs of Inl e \<Rightarrow> Inl e | Inr ys \<Rightarrow> Inr (y # ys)))"

lemma rmap_cong [fundef_cong]: "xs = ys \<Longrightarrow> (\<And>x. x \<in> set ys \<Longrightarrow> f x = g x) \<Longrightarrow> rmap f xs = rmap g ys"
  by (induction xs arbitrary: ys) (auto split: sum.splits)

lemma rmap_Inr_iff: "rmap f xs = Inr ys \<longleftrightarrow> list_all2 (\<lambda>x y. f x = Inr y) xs ys"
proof (induction xs arbitrary: ys)
  case (Cons x xs)
  show ?case
  proof (cases "f x")
    case (Inr y)
    show ?thesis
    proof (cases "rmap f xs")
      case (Inl e)
      then show ?thesis using Cons.IH \<open>f x = Inr y\<close> by (cases ys) auto
    next
      case (Inr zs)
      then have "list_all2 (\<lambda>x y. f x = Inr y) xs zs' \<longleftrightarrow> zs' = zs" for zs' using Cons.IH [of zs'] by auto
      then show ?thesis using Inr \<open>f x = Inr y\<close> by (cases ys) auto
    qed
  qed (cases ys; simp)
qed auto

lemma rmap_InlD: "rmap f xs = Inl e \<Longrightarrow> \<exists>x\<in>set xs. f x = Inl e"
  by (induction xs) (auto split: sum.splits)

lemma rmap_InrD: "rmap f xs = Inr ys \<Longrightarrow> x \<in> set xs \<Longrightarrow> \<exists>y. f x = Inr y"
  by (induction xs arbitrary: ys) (auto split: sum.splits)

definition throw_if :: "bool \<Rightarrow> 'e \<Rightarrow> ('e, unit) result" where
  "throw_if b e = (if b then Inl e else Inr ())"

lemma throw_if_simps [simp]:
  "throw_if True e = Inl e" "throw_if False e = Inr ()"
  "throw_if b e = Inr u \<longleftrightarrow> \<not> b"
  "throw_if b e = Inl e' \<longleftrightarrow> b \<and> e' = e"
  by (auto simp: throw_if_def)

end
