(* ===== verification/Assets.thy ===== *)
theory Assets
  imports Js_Prelude
begin

text \<open>
  Canonical Stellar asset resolution, \<open>backend/src/utils/asset-helpers.ts\<close>: a payment's asset is
  decided by Horizon's asset type, an invoice's by its code and issuer, and two assets match
  only when both are native or both are credit assets of one code and one issuer.
\<close>

definition NATIVE_ASSET_CODE :: string where
  "NATIVE_ASSET_CODE = ''XLM''"

datatype asset_identity = Native | Credit string string | Unpinned string

record asset_fields =
  assetType :: "string option"
  assetCode :: "string option"
  assetIssuer :: "string option"

definition or_empty :: "string option \<Rightarrow> string" where
  "or_empty s = (case s of None \<Rightarrow> [] | Some t \<Rightarrow> t)"

lemma or_empty_simps [simp]: "or_empty None = []" "or_empty (Some t) = t"
  by (simp_all add: or_empty_def)

definition resolvePaymentAsset :: "asset_fields \<Rightarrow> asset_identity" where
  "resolvePaymentAsset f =
     (if assetType f = Some ''native'' then Native
      else let code = js_trim (or_empty (assetCode f)); issuer = js_trim (or_empty (assetIssuer f))
           in if issuer = [] then Unpinned code else Credit code issuer)"

definition resolveInvoiceAsset :: "string option \<Rightarrow> string option \<Rightarrow> asset_identity" where
  "resolveInvoiceAsset acode aissuer =
     (let code = js_trim (or_empty acode); issuer = js_trim (or_empty aissuer)
      in if code = NATIVE_ASSET_CODE \<and> issuer = [] then Native
         else if issuer = [] then Unpinned code
         else Credit code issuer)"

fun is_unpinned :: "asset_identity \<Rightarrow> bool" where
  "is_unpinned (Unpinned _) = True"
| "is_unpinned _ = False"

definition assetsMatch :: "asset_identity \<Rightarrow> asset_identity \<Rightarrow> bool" where
  "assetsMatch invoice payment =
     (if is_unpinned invoice \<or> is_unpinned payment then False
      else if invoice = Native \<or> payment = Native then invoice = Native \<and> payment = Native
      else (case (invoice, payment) of
              (Credit c i, Credit c' i') \<Rightarrow> c = c' \<and> i = i' | _ \<Rightarrow> False))"

fun formatAssetIdentity :: "asset_identity \<Rightarrow> string" where
  "formatAssetIdentity Native = NATIVE_ASSET_CODE"
| "formatAssetIdentity (Unpinned code) = code @ '':<no issuer>''"
| "formatAssetIdentity (Credit code issuer) = code @ '':'' @ issuer"

definition requiresIssuer :: "string option \<Rightarrow> bool" where
  "requiresIssuer acode = (let code = js_trim (or_empty acode) in
     code \<noteq> [] \<and> code \<noteq> NATIVE_ASSET_CODE)"

text \<open>Matching is equality of pinned identities.\<close>

lemma assetsMatch_iff: "assetsMatch a b \<longleftrightarrow> a = b \<and> \<not> is_unpinned a"
  by (cases a; cases b) (auto simp: assetsMatch_def)

lemma resolvePaymentAsset_Native:
  "resolvePaymentAsset f = Native \<longleftrightarrow> assetType f = Some ''native''"
  by (simp add: resolvePaymentAsset_def Let_def)

lemma resolveInvoiceAsset_Native:
  "resolveInvoiceAsset c i = Native \<longleftrightarrow>
     js_trim (or_empty c) = ''XLM'' \<and> js_trim (or_empty i) = []"
  by (simp add: resolveInvoiceAsset_def NATIVE_ASSET_CODE_def Let_def)

lemma resolveInvoiceAsset_unpinned:
  "is_unpinned (resolveInvoiceAsset c i) \<longleftrightarrow>
     js_trim (or_empty i) = [] \<and> js_trim (or_empty c) \<noteq> ''XLM''"
  by (auto simp: resolveInvoiceAsset_def NATIVE_ASSET_CODE_def Let_def)

lemma resolveInvoiceAsset_Credit:
  "resolveInvoiceAsset c i = Credit c' i' \<Longrightarrow>
     c' = js_trim (or_empty c) \<and> i' = js_trim (or_empty i) \<and> i' \<noteq> []"
  by (auto simp: resolveInvoiceAsset_def Let_def split: if_splits)

lemma resolvePaymentAsset_Credit:
  "resolvePaymentAsset f = Credit c' i' \<Longrightarrow>
     assetType f \<noteq> Some ''native'' \<and> c' = js_trim (or_empty (assetCode f)) \<and>
     i' = js_trim (or_empty (assetIssuer f))"
  by (auto simp: resolvePaymentAsset_def Let_def split: if_splits)

text \<open>
  A credit asset settles an invoice only when the invoice pins the same code and issuer, and
  the native asset only when the invoice is for \<open>XLM\<close> without an issuer.
\<close>

lemma assetsMatch_resolved:
  "assetsMatch (resolveInvoiceAsset c i) (resolvePaymentAsset f) \<longleftrightarrow>
     (if assetType f = Some ''native''
      then js_trim (or_empty c) = ''XLM'' \<and> js_trim (or_empty i) = []
      else js_trim (or_empty i) \<noteq> [] \<and> js_trim (or_empty c) = js_trim (or_empty (assetCode f)) \<and>
           js_trim (or_empty i) = js_trim (or_empty (assetIssuer f)))"
  by (auto simp: assetsMatch_iff resolveInvoiceAsset_def resolvePaymentAsset_def Let_def
      NATIVE_ASSET_CODE_def)

end
