(* ===== verification/Js_Number.thy ===== *)
theory Js_Number
  imports Js_Prelude "HOL-Library.Log_Nat"
begin

text \<open>
  JavaScript numbers: IEEE binary64 values, a finite one given by the rational it stands for
  (both zeros are \<open>Num 0\<close>: nothing the code does tells them apart). Every arithmetic result
  is the exact rational rounded to nearest, ties to even, with 53 significant bits, subnormals
  and overflow included, so the rounding drift the payment code has to live with is in the
  model. \<open>Number(s)\<close> parses the numeric-literal grammar of the language.
\<close>

datatype jsnum = NaN | Infinity | NegInfinity | Num rat

subsection \<open>Rounding to binary64\<close>

definition round_even :: "rat \<Rightarrow> int" where
  "round_even x = (let f = \<lfloor>x\<rfloor>; d = x - of_int f in
     if d < 1 / 2 then f else if d > 1 / 2 then f + 1 else if even f then f else f + 1)"

lemma round_even_error: "\<bar>of_int (round_even x) - x\<bar> \<le> 1 / 2"
proof -
  have "of_int \<lfloor>x\<rfloor> \<le> x" and "x < of_int \<lfloor>x\<rfloor> + 1" by linarith+
  then show ?thesis unfolding round_even_def Let_def abs_le_iff
    by (simp split: if_split) linarith
qed

lemma round_even_of_int [simp]: "round_even (of_int n) = n"
  by (simp add: round_even_def)

definition ilog2 :: "rat \<Rightarrow> int" where
  "ilog2 x = (let (p, q) = quotient_of x;
                  k = int (floorlog 2 (nat p)) - int (floorlog 2 (nat q))
              in if 2 powi k \<le> x then k else k - 1)"

lemma floorlog2_bounds:
  assumes "0 < n"
  shows "2 ^ (floorlog 2 n - 1) \<le> n" and "n < 2 ^ floorlog 2 n"
  using floorlog_bounds [of n 2] assms by auto

lemma floorlog2_pos: "0 < n \<Longrightarrow> 0 < floorlog 2 n"
  by (simp add: floorlog_def)

lemma powi_diff_nat: "(2::rat) powi (int a - int b) = 2 ^ a / 2 ^ b"
  by (simp add: power_int_diff)

lemma ilog2_bounds:
  assumes "0 < x"
  shows "2 powi (ilog2 x) \<le> x" and "x < 2 powi (ilog2 x + 1)"
proof -
  obtain p q where pq: "quotient_of x = (p, q)" by fastforce
  have q0: "0 < q" using pq by (rule quotient_of_denom_pos)
  have x: "x = of_int p / of_int q" using pq by (rule quotient_of_div)
  have p0: "0 < p" using assms q0 x by (simp add: zero_less_divide_iff)
  define a where "a = floorlog 2 (nat p)"
  define b where "b = floorlog 2 (nat q)"
  have a: "2 ^ (a - 1) \<le> nat p" "nat p < 2 ^ a" "0 < a"
    unfolding a_def using floorlog2_bounds [of "nat p"] floorlog2_pos [of "nat p"] p0 by auto
  have b: "2 ^ (b - 1) \<le> nat q" "nat q < 2 ^ b" "0 < b"
    unfolding b_def using floorlog2_bounds [of "nat q"] floorlog2_pos [of "nat q"] q0 by auto
  have pi: "(of_int p :: rat) = of_nat (nat p)" "(of_int q :: rat) = of_nat (nat q)"
    using p0 q0 by simp_all
  have pr: "2 ^ (a - 1) \<le> (of_int p :: rat)" "(of_int p :: rat) < 2 ^ a"
    unfolding pi using a by (metis of_nat_le_iff of_nat_less_iff of_nat_power of_nat_numeral)+
  have qr: "2 ^ (b - 1) \<le> (of_int q :: rat)" "(of_int q :: rat) < 2 ^ b"
    unfolding pi using b by (metis of_nat_le_iff of_nat_less_iff of_nat_power of_nat_numeral)+
  have p2: "(2::rat) ^ a = 2 * 2 ^ (a - 1)" "(2::rat) ^ b = 2 * 2 ^ (b - 1)"
    using a(3) b(3) by (simp_all flip: power_Suc)
  have up: "x < 2 powi (int a - int b + 1)"
  proof -
    have "x < 2 ^ a / 2 ^ (b - 1)"
      unfolding x by (rule frac_less) (use pr qr q0 p0 in auto)
    also have "\<dots> = 2 powi (int a - int b + 1)"
      using b(3) by (simp add: power_int_diff power_int_add p2)
    finally show ?thesis .
  qed
  have lo: "2 powi (int a - int b - 1) \<le> x"
  proof -
    have "2 ^ (a - 1) / 2 ^ b \<le> x"
      unfolding x by (rule frac_le) (use pr qr q0 p0 in auto)
    then show ?thesis
      using a(3) by (simp add: power_int_diff power_int_add p2)
  qed
  show "2 powi (ilog2 x) \<le> x" and "x < 2 powi (ilog2 x + 1)"
    using up lo by (auto simp: ilog2_def pq a_def b_def Let_def)
qed

lemma powi_2_less: "(2::rat) powi a < 2 powi b \<Longrightarrow> a < b"
  by (metis not_less one_le_numeral power_int_increasing)

lemma ilog2_unique:
  assumes "2 powi k \<le> x" and "x < 2 powi (k + 1)"
  shows "ilog2 x = k"
proof -
  have x0: "0 < x" using assms(1) by (rule less_le_trans [rotated]) simp
  note b = ilog2_bounds [OF x0]
  have "ilog2 x < k + 1" using b(1) assms(2) by (intro powi_2_less) linarith
  moreover have "k < ilog2 x + 1" using b(2) assms(1) by (intro powi_2_less) linarith
  ultimately show ?thesis by simp
qed

definition ulp_exp :: "rat \<Rightarrow> int" where
  "ulp_exp x = max (ilog2 \<bar>x\<bar> - 52) (- 1074)"

definition round_double :: "rat \<Rightarrow> rat" where
  "round_double x = (if x = 0 then 0
     else of_int (round_even (x / 2 powi ulp_exp x)) * 2 powi ulp_exp x)"

definition to_double :: "rat \<Rightarrow> jsnum" where
  "to_double x = (let y = round_double x in
     if y \<ge> 2 ^ 1024 then Infinity else if y \<le> - (2 ^ 1024) then NegInfinity else Num y)"

text \<open>In the normal range the relative error is at most \<open>2\<close> to the \<open>-53\<close>.\<close>

lemma round_double_ulp: "\<bar>round_double x - x\<bar> \<le> 2 powi (ulp_exp x) / 2"
proof (cases "x = 0")
  case False
  let ?u = "2 powi (ulp_exp x) :: rat"
  have u: "0 < ?u" by simp
  have "\<bar>of_int (round_even (x / ?u)) - x / ?u\<bar> * ?u \<le> 1 / 2 * ?u"
    using round_even_error u by (intro mult_right_mono) auto
  moreover have "\<bar>of_int (round_even (x / ?u)) - x / ?u\<bar> * ?u
      = \<bar>(of_int (round_even (x / ?u)) - x / ?u) * ?u\<bar>"
    using u by (simp add: abs_mult)
  moreover have "(of_int (round_even (x / ?u)) - x / ?u) * ?u = round_double x - x"
    using False u by (simp add: round_double_def left_diff_distrib)
  ultimately show ?thesis by simp
qed (simp add: round_double_def ulp_exp_def)

lemma round_double_error:
  assumes "2 powi (-1022) \<le> \<bar>x\<bar> \<or> x = 0"
  shows "\<bar>round_double x - x\<bar> \<le> \<bar>x\<bar> / 2 ^ 53"
proof (cases "x = 0")
  case False
  then have ax: "0 < \<bar>x\<bar>" by simp
  note lb = ilog2_bounds [OF ax]
  have "(2::rat) powi (-1022) < 2 powi (ilog2 \<bar>x\<bar> + 1)"
    using assms False lb(2) by simp
  then have "-1022 < ilog2 \<bar>x\<bar> + 1"
    by (metis not_less one_le_numeral power_int_increasing)
  then have u: "ulp_exp x = ilog2 \<bar>x\<bar> - 52" by (simp add: ulp_exp_def)
  have "(2::rat) powi (ulp_exp x) / 2 = 2 powi (ilog2 \<bar>x\<bar>) / 2 ^ 53"
    unfolding u by (simp add: power_int_diff)
  also have "\<dots> \<le> \<bar>x\<bar> / 2 ^ 53" using lb(1) by (intro divide_right_mono) auto
  finally show ?thesis using round_double_ulp [of x] by simp
qed (simp add: round_double_def)

lemma round_double_nonneg: "0 \<le> x \<Longrightarrow> 0 \<le> round_double x"
proof (cases "x = 0")
  case False
  assume "0 \<le> x"
  then have "0 \<le> x / 2 powi ulp_exp x" by simp
  then have "-1 < round_even (x / 2 powi ulp_exp x)" using round_even_error [of "x / 2 powi ulp_exp x"] by linarith
  then show ?thesis using False by (simp add: round_double_def)
qed (simp add: round_double_def)

text \<open>Integers of magnitude up to \<open>2\<close> to the \<open>53\<close> are values of the format.\<close>

lemma round_double_int:
  assumes "\<bar>n\<bar> \<le> 2 ^ 53"
  shows "round_double (of_int n) = of_int n"
proof (cases "n = 0")
  case False
  let ?x = "\<bar>of_int n\<bar> :: rat"
  have x0: "0 < ?x" using False by simp
  have x1: "(1::rat) \<le> ?x" using False by (simp flip: of_int_abs)
  have x2: "?x \<le> 2 powi 53" using assms by (simp flip: of_int_abs)
  have "(2::rat) powi (ilog2 ?x) \<le> 2 powi 53" using ilog2_bounds(1) [OF x0] x2 by linarith
  then have e53: "ilog2 ?x \<le> 53"
    by (metis not_less one_less_numeral_iff power_int_strict_increasing semiring_norm(76) linorder_not_le)
  have "(2::rat) powi 0 < 2 powi (ilog2 ?x + 1)" using ilog2_bounds(2) [OF x0] x1 by simp
  then have e0: "0 \<le> ilog2 ?x"
    by (metis not_less one_le_numeral power_int_increasing zle_add1_eq_le)
  show ?thesis
  proof (cases "ilog2 ?x \<le> 52")
    case True
    define k where "k = nat (- (ilog2 ?x - 52))"
    have u: "ulp_exp (of_int n) = - int k" using True e0 by (simp add: ulp_exp_def k_def)
    have "of_int n / 2 powi (- int k) = (of_int (n * 2 ^ k) :: rat)"
      by (simp add: power_int_minus divide_inverse)
    then show ?thesis
      using \<open>n \<noteq> 0\<close> round_even_of_int [of "n * 2 ^ k"]
      by (simp add: round_double_def u power_int_minus divide_inverse)
  next
    case False
    then have "ilog2 ?x = 53" using e53 by simp
    then have "?x = 2 powi 53" using ilog2_bounds(1) [OF x0] x2 by simp
    then have "n = 2 ^ 53 \<or> n = - (2 ^ 53)"
      by (simp flip: of_int_abs) (metis abs_eq_iff' abs_if of_int_abs of_int_eq_iff of_int_numeral of_int_power)
    moreover have u: "ulp_exp (of_int n) = 1"
      using \<open>ilog2 ?x = 53\<close> by (simp add: ulp_exp_def)
    ultimately obtain m where m: "n = 2 * m" by (auto intro: that [of "2 ^ 52"] that [of "- (2 ^ 52)"])
    have "of_int n / 2 powi 1 = (of_int m :: rat)" by (simp add: m)
    then show ?thesis using \<open>n \<noteq> 0\<close> u by (simp add: round_double_def m)
  qed
qed (simp add: round_double_def)

text \<open>The operations of \<open>number\<close> the code uses.\<close>

fun is_finite :: "jsnum \<Rightarrow> bool" where
  "is_finite (Num _) = True"
| "is_finite _ = False"

fun js_mul :: "jsnum \<Rightarrow> jsnum \<Rightarrow> jsnum" where
  "js_mul (Num a) (Num b) = to_double (a * b)"
| "js_mul NaN _ = NaN"
| "js_mul _ NaN = NaN"
| "js_mul Infinity (Num b) = (if b = 0 then NaN else if b > 0 then Infinity else NegInfinity)"
| "js_mul NegInfinity (Num b) = (if b = 0 then NaN else if b > 0 then NegInfinity else Infinity)"
| "js_mul (Num a) Infinity = (if a = 0 then NaN else if a > 0 then Infinity else NegInfinity)"
| "js_mul (Num a) NegInfinity = (if a = 0 then NaN else if a > 0 then NegInfinity else Infinity)"
| "js_mul Infinity Infinity = Infinity"
| "js_mul NegInfinity NegInfinity = Infinity"
| "js_mul _ _ = NegInfinity"

fun js_add :: "jsnum \<Rightarrow> jsnum \<Rightarrow> jsnum" where
  "js_add (Num a) (Num b) = to_double (a + b)"
| "js_add NaN _ = NaN"
| "js_add _ NaN = NaN"
| "js_add Infinity NegInfinity = NaN"
| "js_add NegInfinity Infinity = NaN"
| "js_add Infinity _ = Infinity"
| "js_add NegInfinity _ = NegInfinity"
| "js_add _ Infinity = Infinity"
| "js_add _ NegInfinity = NegInfinity"

text \<open>
  \<open>Math.round\<close>: the integer nearest, halves upwards. The result is a value of the format (an
  argument of magnitude \<open>2 ^ 52\<close> or more is an integer already), so no rounding follows.
\<close>

fun js_round :: "jsnum \<Rightarrow> jsnum" where
  "js_round (Num a) = Num (of_int \<lfloor>a + 1 / 2\<rfloor>)"
| "js_round x = x"

definition rat_is_int :: "rat \<Rightarrow> bool" where
  "rat_is_int a = (of_int \<lfloor>a\<rfloor> = a)"

fun is_integer :: "jsnum \<Rightarrow> bool" where
  "is_integer (Num a) = rat_is_int a"
| "is_integer _ = False"

fun is_safe_integer :: "jsnum \<Rightarrow> bool" where
  "is_safe_integer (Num a) = (rat_is_int a \<and> \<bar>a\<bar> \<le> 2 ^ 53 - 1)"
| "is_safe_integer _ = False"

lemma rat_is_int_of_int [simp]: "rat_is_int (of_int n)"
  by (simp add: rat_is_int_def)

lemma rat_is_int_numeral [simp]: "rat_is_int (numeral n)" "rat_is_int 0" "rat_is_int 1"
  by (simp_all add: rat_is_int_def)

text \<open>The time value of \<open>new Date(x)\<close>: truncated, invalid outside the range of dates.\<close>

definition time_clip :: "rat \<Rightarrow> int option" where
  "time_clip x = (if \<bar>x\<bar> > 8640000000000000 then None else Some (if 0 \<le> x then \<lfloor>x\<rfloor> else \<lceil>x\<rceil>))"

subsection \<open>Number of a string\<close>

definition digit_val :: "char \<Rightarrow> nat" where
  "digit_val c = of_char c - 48"

definition digits_val :: "string \<Rightarrow> nat" where
  "digits_val s = foldl (\<lambda>n c. 10 * n + digit_val c) 0 s"

text \<open>\<open>StrUnsignedDecimalLiteral\<close> without \<open>Infinity\<close>: digits, a fraction, an exponent.\<close>

definition exponent_part :: "string \<Rightarrow> int option" where
  "exponent_part s = (case s of [] \<Rightarrow> Some 0
     | c # r \<Rightarrow>
        if c = CHR ''e'' \<or> c = CHR ''E'' then
          (let (neg, d) = (case r of
               CHR ''-'' # d \<Rightarrow> (True, d) | CHR ''+'' # d \<Rightarrow> (False, d) | _ \<Rightarrow> (False, r))
           in if d \<noteq> [] \<and> list_all is_digit d
              then Some (if neg then - int (digits_val d) else int (digits_val d)) else None)
        else None)"

definition unsigned_decimal :: "string \<Rightarrow> rat option" where
  "unsigned_decimal s =
     (let ip = takeWhile is_digit s; r = dropWhile is_digit s;
          (fp, r') = (case r of
              CHR ''.'' # t \<Rightarrow> (takeWhile is_digit t, dropWhile is_digit t) | _ \<Rightarrow> ([], r))
      in if ip = [] \<and> fp = [] then None
         else map_option (\<lambda>e. of_nat (digits_val (ip @ fp)) / 10 ^ length fp * 10 powi e)
                (exponent_part r'))"

definition decimal_value :: "string \<Rightarrow> rat option" where
  "decimal_value s = (case s of
       CHR ''-'' # t \<Rightarrow> map_option uminus (unsigned_decimal t)
     | CHR ''+'' # t \<Rightarrow> unsigned_decimal t
     | _ \<Rightarrow> unsigned_decimal s)"

definition radix_digit :: "nat \<Rightarrow> char \<Rightarrow> nat option" where
  "radix_digit b c = (let n = of_char c :: nat;
       v = (if 48 \<le> n \<and> n \<le> 57 then n - 48 else if 97 \<le> n \<and> n \<le> 102 then n - 87
            else if 65 \<le> n \<and> n \<le> 70 then n - 55 else 99)
     in if v < b then Some v else None)"

fun radix_val :: "nat \<Rightarrow> nat \<Rightarrow> string \<Rightarrow> nat option" where
  "radix_val b acc [] = Some acc"
| "radix_val b acc (c # s) =
     (case radix_digit b c of None \<Rightarrow> None | Some d \<Rightarrow> radix_val b (b * acc + d) s)"

definition prefixed_integer :: "string \<Rightarrow> nat option" where
  "prefixed_integer s = (case s of
       CHR ''0'' # x # d # ds \<Rightarrow>
         (if x = CHR ''x'' \<or> x = CHR ''X'' then radix_val 16 0 (d # ds)
          else if x = CHR ''o'' \<or> x = CHR ''O'' then radix_val 8 0 (d # ds)
          else if x = CHR ''b'' \<or> x = CHR ''B'' then radix_val 2 0 (d # ds)
          else None)
     | _ \<Rightarrow> None)"

text \<open>\<open>Number(s)\<close> for a string \<open>s\<close>.\<close>

definition js_number :: "string \<Rightarrow> jsnum" where
  "js_number s0 = (let s = js_trim s0 in
     if s = [] then Num 0
     else if s = ''Infinity'' \<or> s = ''+Infinity'' then Infinity
     else if s = ''-Infinity'' then NegInfinity
     else (case decimal_value s of Some q \<Rightarrow> to_double q
           | None \<Rightarrow> (case prefixed_integer s of Some n \<Rightarrow> to_double (of_nat n) | None \<Rightarrow> NaN)))"

lemma js_number_decimal:
  assumes "decimal_value (js_trim s) = Some q"
  shows "js_number s = to_double q"
proof -
  have "decimal_value [] = None" "decimal_value ''Infinity'' = None"
    "decimal_value ''+Infinity'' = None" "decimal_value ''-Infinity'' = None"
    by (simp_all add: decimal_value_def unsigned_decimal_def is_digit_def)
  then show ?thesis using assms by (auto simp: js_number_def Let_def)
qed

text \<open>
  An amount of \<open>n\<close> stroops below \<open>2 ^ 51\<close> (225 million lumens), read as a decimal fraction
  with rounding, scaled by \<open>10 ^ 7\<close> with rounding and rounded to an integer, is \<open>n\<close> again.
\<close>

lemma to_double_Num: "\<bar>round_double x\<bar> < 2 ^ 1024 \<Longrightarrow> to_double x = Num (round_double x)"
  by (auto simp: to_double_def Let_def abs_less_iff)

lemma pow_bound_small: "(x::rat) \<le> 2 ^ 60 \<Longrightarrow> x < 2 ^ 1024"
  by (rule le_less_trans [of _ "2 ^ 60"], assumption, rule power_strict_increasing) auto

lemma normal_small: "1 / 10 ^ 7 \<le> (x::rat) \<Longrightarrow> 2 powi (-1022) \<le> x"
proof -
  have "(2::rat) powi (-1022) \<le> 2 powi (-24)" by (rule power_int_increasing) auto
  also have "\<dots> \<le> 1 / 10 ^ 7" by (simp add: power_int_minus)
  finally show "1 / 10 ^ 7 \<le> x \<Longrightarrow> 2 powi (-1022) \<le> x" by simp
qed

lemma stroops_exact:
  assumes "n < 2 ^ 51"
  obtains y z where "to_double (of_nat n / 10 ^ 7) = Num y"
    and "to_double (y * 10 ^ 7) = Num z" and "\<lfloor>z + 1 / 2\<rfloor> = int n"
proof (cases "n = 0")
  case True
  then show ?thesis
    by (intro that [of 0 0]) (simp_all add: to_double_def round_double_def floor_eq_iff)
next
  case False
  define x :: rat where "x = of_nat n / 10 ^ 7"
  define y where "y = round_double x"
  define w where "w = y * 10 ^ 7"
  define z where "z = round_double w"
  have nb: "(of_nat n :: rat) \<le> 2 ^ 51 - 1"
  proof -
    have "n \<le> 2 ^ 51 - 1" using assms by simp
    then have "(of_nat n :: rat) \<le> of_nat (2 ^ 51 - 1)" by (simp only: of_nat_le_iff)
    then show ?thesis by simp
  qed
  have n1: "(1::rat) \<le> of_nat n" using False by simp
  have x7: "x * 10 ^ 7 = of_nat n" by (simp add: x_def)
  have x0: "0 < x" using n1 by (simp add: x_def)
  have x1: "1 / 10 ^ 7 \<le> x" unfolding x_def using n1 by (intro divide_right_mono) auto
  have ey: "\<bar>y - x\<bar> \<le> x / 2 ^ 53"
    using round_double_error [of x] normal_small [OF x1] x0 unfolding y_def by simp
  have "\<bar>w - of_nat n\<bar> = \<bar>(y - x) * 10 ^ 7\<bar>"
    unfolding w_def x7 [symmetric] by (simp only: left_diff_distrib)
  also have "\<dots> = \<bar>y - x\<bar> * 10 ^ 7" by (simp only: abs_mult) simp
  also have "\<dots> \<le> x / 2 ^ 53 * 10 ^ 7" using ey by (intro mult_right_mono) auto
  also have "\<dots> = of_nat n / 2 ^ 53" unfolding x7 [symmetric] by simp
  finally have ew: "\<bar>w - of_nat n\<bar> \<le> of_nat n / 2 ^ 53" .
  have n53: "(of_nat n :: rat) / 2 ^ 53 \<le> of_nat n / 2" by (simp add: field_simps)
  have wl: "of_nat n / 2 \<le> w" and wu: "w \<le> of_nat n + of_nat n / 2 ^ 53"
    using ew [unfolded abs_le_iff] n53 by linarith+
  have w0: "0 < w" using wl n1 by linarith
  have w1: "1 / 10 ^ 7 \<le> w"
  proof -
    have "(1::rat) / 10 ^ 7 \<le> 1 / 2" by simp
    then show ?thesis using wl n1 by linarith
  qed
  have ez: "\<bar>z - w\<bar> \<le> w / 2 ^ 53"
    using round_double_error [of w] normal_small [OF w1] w0 unfolding z_def by simp
  have "\<bar>z - of_nat n\<bar> \<le> w / 2 ^ 53 + of_nat n / 2 ^ 53"
    using ez ew by linarith
  also have "\<dots> \<le> (of_nat n + of_nat n / 2 ^ 53) / 2 ^ 53 + of_nat n / 2 ^ 53"
    using wu by (intro add_right_mono divide_right_mono) simp_all
  also have "\<dots> < 1 / 2" using nb by (simp add: field_simps)
  finally have zn: "\<bar>z - of_nat n\<bar> < 1 / 2" .
  have fl: "\<lfloor>z + 1 / 2\<rfloor> = int n"
    using zn [unfolded abs_less_iff]
    by (intro floor_unique) (unfold of_int_of_nat_eq, linarith+)
  have yb: "\<bar>y\<bar> < 2 ^ 1024"
  proof (rule pow_bound_small)
    have "x \<le> of_nat n" by (simp add: x_def field_simps)
    moreover have "x / 2 ^ 53 \<le> x" using x0 by (simp add: field_simps)
    ultimately have "\<bar>y\<bar> \<le> 2 * 2 ^ 51" using ey [unfolded abs_le_iff] nb x0 by linarith
    then show "\<bar>y\<bar> \<le> 2 ^ 60" by simp
  qed
  have zb: "\<bar>z\<bar> < 2 ^ 1024"
  proof (rule pow_bound_small)
    have "\<bar>z\<bar> \<le> 2 * 2 ^ 51" using zn [unfolded abs_less_iff] nb n1 by linarith
    then show "\<bar>z\<bar> \<le> 2 ^ 60" by simp
  qed
  show ?thesis
  proof (rule that [OF _ _ fl])
    show "to_double (of_nat n / 10 ^ 7) = Num y"
      using yb to_double_Num [of x] by (simp add: y_def x_def)
    show "to_double (y * 10 ^ 7) = Num z"
      using zb to_double_Num [of w] by (simp add: z_def w_def)
  qed
qed

end
