(* ===== verification/Amounts.thy ===== *)
theory Amounts
  imports Js_Number
begin

text \<open>
  Amount comparison in stroops, \<open>backend/src/utils/verify-amount-tolerance.ts\<close>. The invoice's
  amount is a string or a number, the observed one whatever Horizon's JSON holds. A number is
  turned into a string and back by the code; the language guarantees that this gives the same
  number (\<open>NaN\<close> and the infinities included), so the model keeps the number.
\<close>

datatype amount_value = AStr string | ANum jsnum | AOther

definition STROOP_SCALE :: rat where
  "STROOP_SCALE = 10 ^ 7"

definition parse_amount :: "amount_value \<Rightarrow> jsnum option" where
  "parse_amount v = (case v of
       AStr s \<Rightarrow> if js_trim s = [] then None else Some (js_number s)
     | ANum n \<Rightarrow> Some n
     | AOther \<Rightarrow> None)"

definition to_stroops :: "jsnum \<Rightarrow> jsnum" where
  "to_stroops n = js_round (js_mul n (Num STROOP_SCALE))"

fun num_delta :: "jsnum \<Rightarrow> jsnum \<Rightarrow> jsnum" where
  "num_delta (Num a) (Num b) = to_double \<bar>a - b\<bar>"
| "num_delta _ _ = NaN"

fun num_le :: "jsnum \<Rightarrow> jsnum \<Rightarrow> bool" where
  "num_le (Num a) (Num b) = (a \<le> b)"
| "num_le NegInfinity b = (b \<noteq> NaN)"
| "num_le a Infinity = (a \<noteq> NaN)"
| "num_le _ _ = False"

text \<open>\<open>expected\<close> is a string or a number; \<open>AOther\<close> cannot occur there by its type.\<close>

definition amountsMatch_stroops :: "amount_value \<Rightarrow> amount_value \<Rightarrow> jsnum \<Rightarrow> bool" where
  "amountsMatch_stroops expected actual tol =
     (if \<not> is_integer tol \<or> \<not> num_le (Num 0) tol then False
      else case (parse_amount expected, parse_amount actual) of
          (Some e, Some a) \<Rightarrow>
            (if \<not> is_finite e \<or> \<not> is_finite a then False
             else let es = to_stroops e; as = to_stroops a in
               if \<not> is_safe_integer es \<or> \<not> is_safe_integer as then False
               else num_le (num_delta es as) tol)
        | _ \<Rightarrow> False)"

text \<open>
  \<open>denotes v n\<close>: the value stands for exactly \<open>n\<close> stroops, as a decimal literal of that value
  or as the number nearest to it (what a JSON number or a parsed literal holds).
\<close>

definition denotes :: "amount_value \<Rightarrow> nat \<Rightarrow> bool" where
  "denotes v n = (case v of
       AStr s \<Rightarrow> decimal_value (js_trim s) = Some (of_nat n / 10 ^ 7)
     | ANum x \<Rightarrow> x = to_double (of_nat n / 10 ^ 7)
     | AOther \<Rightarrow> False)"

lemma denotes_parse:
  assumes "denotes v n" and "n < 2 ^ 51"
  obtains y where "parse_amount v = Some (Num y)" and "to_stroops (Num y) = Num (of_nat n)"
proof -
  obtain y z where y: "to_double (of_nat n / 10 ^ 7) = Num y"
    and z: "to_double (y * 10 ^ 7) = Num z" "\<lfloor>z + 1 / 2\<rfloor> = int n"
    using stroops_exact [OF assms(2)] .
  have "parse_amount v = Some (Num y)"
  proof (cases v)
    case (AStr s)
    then have d: "decimal_value (js_trim s) = Some (of_nat n / 10 ^ 7)"
      using assms(1) by (simp add: denotes_def)
    then have "js_trim s \<noteq> []"
      by (auto simp: decimal_value_def unsigned_decimal_def)
    then show ?thesis using AStr d y js_number_decimal [OF d] by (simp add: parse_amount_def)
  qed (use assms(1) y in \<open>simp_all add: denotes_def parse_amount_def\<close>)
  moreover have "to_stroops (Num y) = Num (of_nat n)"
    using z by (simp add: to_stroops_def STROOP_SCALE_def)
  ultimately show ?thesis by (rule that)
qed

lemma safe_of_nat: "n < 2 ^ 53 \<Longrightarrow> is_safe_integer (Num (of_nat n))"
proof -
  assume "n < 2 ^ 53"
  then have "(of_nat n :: rat) \<le> of_nat (2 ^ 53 - 1)" by (simp only: of_nat_le_iff)
  then show ?thesis using rat_is_int_of_int [of "int n"] by simp
qed

lemma num_delta_of_nat:
  assumes "n < 2 ^ 53" and "m < 2 ^ 53"
  shows "num_delta (Num (of_nat n)) (Num (of_nat m)) = Num (of_int \<bar>int n - int m\<bar>)"
proof -
  let ?d = "\<bar>int n - int m\<bar>"
  have d: "\<bar>?d\<bar> \<le> 2 ^ 53" using assms by simp
  have "\<bar>of_nat n - of_nat m\<bar> = (of_int ?d :: rat)" by simp
  moreover have r: "round_double (of_int ?d) = of_int ?d" by (rule round_double_int [OF d])
  moreover have "\<bar>of_int ?d :: rat\<bar> \<le> 2 ^ 60"
  proof -
    have "?d \<le> 2 ^ 60" using d by simp
    then have "(of_int ?d :: rat) \<le> of_int (2 ^ 60)" by (simp only: of_int_le_iff)
    then show ?thesis by simp
  qed
  ultimately show ?thesis
    using to_double_Num [of "of_int ?d"] pow_bound_small [of "\<bar>of_int ?d\<bar>"] by simp
qed

lemma amountsMatch_denotes:
  assumes "denotes e n" and "denotes a m" and "n < 2 ^ 51" and "m < 2 ^ 51"
  shows "amountsMatch_stroops e a (Num (of_nat t)) \<longleftrightarrow> \<bar>int n - int m\<bar> \<le> int t"
proof -
  obtain x where x: "parse_amount e = Some (Num x)" "to_stroops (Num x) = Num (of_nat n)"
    using denotes_parse [OF assms(1,3)] .
  obtain y where y: "parse_amount a = Some (Num y)" "to_stroops (Num y) = Num (of_nat m)"
    using denotes_parse [OF assms(2,4)] .
  have n: "n < 2 ^ 53" and m: "m < 2 ^ 53" using assms(3,4) by simp_all
  have "rat_is_int (of_nat t)" using rat_is_int_of_int [of "int t"] by simp
  moreover have "num_le (Num (of_int \<bar>int n - int m\<bar>)) (Num (of_nat t))
      \<longleftrightarrow> \<bar>int n - int m\<bar> \<le> int t"
    by (metis num_le.simps(1) of_int_le_iff of_int_of_nat_eq)
  ultimately show ?thesis
    using x y safe_of_nat [OF n] safe_of_nat [OF m] num_delta_of_nat [OF n m]
    by (simp add: amountsMatch_stroops_def Let_def)
qed

text \<open>
  C38: below \<open>2 ^ 51\<close> stroops (225,179,981 lumens) the floating-point comparison is exact. Two
  amounts that denote \<open>n\<close> and \<open>m\<close> stroops, in whatever notation, match with a tolerance \<open>t\<close> that is a
  safe integer exactly when they differ by at most \<open>t\<close> stroops; neither the decimal-to-binary conversion
  nor the scaling by \<open>10 ^ 7\<close> can make a short payment pass or a full one fail. A tolerance that is
  negative or not a whole number matches nothing.
\<close>
theorem amountsMatch_exact:
  assumes "denotes e n" and "denotes a m" and "n < 2 ^ 51" and "m < 2 ^ 51"
  shows "(\<forall>t < 2 ^ 53. amountsMatch_stroops e a (Num (of_nat t)) \<longleftrightarrow> \<bar>int n - int m\<bar> \<le> int t) \<and>
    (\<forall>tol. \<not> is_integer tol \<or> \<not> num_le (Num 0) tol \<longrightarrow> \<not> amountsMatch_stroops e a tol)"
  using amountsMatch_denotes [OF assms] by (simp add: amountsMatch_stroops_def)

text \<open>
  A tolerance that is not a safe integer is used all the same: the code asks only that it is an integer, while its comment promises that nothing
  matches then.
\<close>
lemma unsafe_tolerance_matches:
  assumes "denotes e n" and "denotes a m" and "n < 2 ^ 51" and "m < 2 ^ 51"
  shows "amountsMatch_stroops e a (Num (2 ^ 53))"
  using amountsMatch_denotes [OF assms, of "2 ^ 53"] assms(3,4) by simp

text \<open>Witness of C38: 1.5 lumens as a JSON number against \<open>1.5000001\<close> on the ledger.\<close>
theorem amountsMatch_exact_witness:
  "denotes (AStr '' 1.5'') 15000000 \<and> denotes (AStr ''1.5000001'') 15000001 \<and>
   \<not> amountsMatch_stroops (AStr '' 1.5'') (AStr ''1.5000001'') (Num (of_nat 0)) \<and>
   amountsMatch_stroops (AStr '' 1.5'') (AStr ''1.5000001'') (Num (of_nat 1))"
proof -
  have e: "denotes (AStr '' 1.5'') 15000000"
    by (simp add: denotes_def js_trim_def is_ws_def decimal_value_def unsigned_decimal_def
        is_digit_def exponent_part_def digits_val_def digit_val_def)
  have a: "denotes (AStr ''1.5000001'') 15000001"
    by (simp add: denotes_def js_trim_def is_ws_def decimal_value_def unsigned_decimal_def
        is_digit_def exponent_part_def digits_val_def digit_val_def)
  show ?thesis
    using conjunct1 [OF amountsMatch_exact [OF e a], THEN spec, of 0] conjunct1 [OF amountsMatch_exact [OF e a], THEN spec, of 1] e a by simp
qed

text \<open>
  An amount of at least \<open>2 ^ 53\<close> stroops is never matched. The comparison rejects scaled
  values that are not safe integers, so an invoice for a billion lumens (the largest amount
  the creation schema accepts) cannot be settled by any payment, not even by its own amount.
\<close>
lemma amountsMatch_max_amount_unsettleable:
  "\<not> amountsMatch_stroops (ANum (Num 1000000000)) actual tol"
proof -
  have mul: "js_mul (Num 1000000000) (Num STROOP_SCALE) = Num (10 ^ 16)"
  proof -
    have "ilog2 (10 ^ 16 :: rat) = 53"
      by (rule ilog2_unique) simp_all
    then show ?thesis
      by (simp add: STROOP_SCALE_def to_double_def round_double_def ulp_exp_def round_even_def)
  qed
  then have "\<not> is_safe_integer (to_stroops (Num 1000000000))"
    by (simp add: to_stroops_def)
  then show ?thesis
    by (auto simp: amountsMatch_stroops_def parse_amount_def Let_def split: option.splits amount_value.splits)
qed

end
