(* ===== verification/Feature_Flags.thy ===== *)
theory Feature_Flags
  imports Js_Prelude
begin

text \<open>
  Feature flags, \<open>backend/src/config/feature-flags.ts\<close>: a flag is read from the environment on
  every check, an unknown or missing value gives the safe default, and the process-local
  overrides (a map only the audited admin configuration writes) come first.
\<close>

datatype feature_flag = PaymentAmountTolerance

record flag_definition =
  flag_env :: string
  safeDefault :: bool

fun FEATURE_FLAGS :: "feature_flag \<Rightarrow> flag_definition" where
  "FEATURE_FLAGS PaymentAmountTolerance =
     \<lparr>flag_env = ''FEATURE_PAYMENT_AMOUNT_TOLERANCE'', safeDefault = False\<rparr>"

type_synonym environment = "string \<Rightarrow> string option"
type_synonym overrides = "feature_flag \<Rightarrow> bool option"

definition ON :: "string list" where
  "ON = [''true'', ''1'', ''on'']"

definition OFF :: "string list" where
  "OFF = [''false'', ''0'', ''off'']"

definition featureFlagOverrides_set :: "feature_flag \<Rightarrow> bool option \<Rightarrow> overrides \<Rightarrow> overrides" where
  "featureFlagOverrides_set flag v ov = ov(flag := v)"

definition environmentFeatureValue :: "feature_flag \<Rightarrow> environment \<Rightarrow> bool" where
  "environmentFeatureValue flag env =
     (let d = FEATURE_FLAGS flag;
          raw = map_option (\<lambda>v. js_lower (js_trim v)) (env (flag_env d))
      in if truthy raw \<and> the raw \<in> set ON then True
         else if truthy raw \<and> the raw \<in> set OFF then False
         else safeDefault d)"

definition isFeatureEnabled :: "overrides \<Rightarrow> environment \<Rightarrow> feature_flag \<Rightarrow> bool" where
  "isFeatureEnabled ov env flag =
     (case ov flag of Some b \<Rightarrow> b | None \<Rightarrow> environmentFeatureValue flag env)"

definition featureFlagSnapshot :: "overrides \<Rightarrow> environment \<Rightarrow> (feature_flag \<times> bool) list" where
  "featureFlagSnapshot ov env =
     map (\<lambda>f. (f, isFeatureEnabled ov env f)) [PaymentAmountTolerance]"

lemma isFeatureEnabled_override [simp]:
  "isFeatureEnabled (featureFlagOverrides_set f (Some b) ov) env f = b"
  by (simp add: isFeatureEnabled_def featureFlagOverrides_set_def)

text \<open>Without an override, tolerance is on only for an explicit on-value in the environment.\<close>

lemma tolerance_needs_opt_in:
  assumes "ov PaymentAmountTolerance = None"
  shows "isFeatureEnabled ov env PaymentAmountTolerance \<longleftrightarrow>
    (\<exists>v. env ''FEATURE_PAYMENT_AMOUNT_TOLERANCE'' = Some v \<and> js_lower (js_trim v) \<in> set ON)"
  using assms
  by (cases "env ''FEATURE_PAYMENT_AMOUNT_TOLERANCE''")
    (auto simp: isFeatureEnabled_def environmentFeatureValue_def Let_def ON_def)

end
