(* ===== verification/Content_Safety.thy ===== *)
theory Content_Safety
  imports Js_Prelude
begin

text \<open>
  Untrusted text, \<open>backend/src/security/content-safety.ts\<close>: \<open>sanitizePlainText\<close> removes control
  characters, comments and tags until nothing changes, then collapses white space;
  \<open>escapeHtml\<close> replaces the seven special characters. On code units below 256 Unicode
  normalisation and the bidirectional-control pattern change nothing, so they have no
  counterpart here. Proved: the loop ends, and no tag start is left in the result.
\<close>

definition is_control :: "char \<Rightarrow> bool" where
  "is_control c = (let n = of_char c :: nat in
     n \<le> 8 \<or> n = 11 \<or> n = 12 \<or> (14 \<le> n \<and> n \<le> 31) \<or> (127 \<le> n \<and> n \<le> 159))"

definition tag_start :: "char \<Rightarrow> bool" where
  "tag_start c = (is_alpha c \<or> c = CHR ''/'' \<or> c = CHR ''!'' \<or> c = CHR ''?'')"

subsection \<open>The replacements\<close>

text \<open>The rest of the text after a comment's body: past the first \<open>-->\<close>, or nothing.\<close>

fun drop_comment :: "string \<Rightarrow> string" where
  "drop_comment [] = []"
| "drop_comment (c # s) =
     (if take 3 (c # s) = ''-->'' then drop 2 s else drop_comment s)"

lemma length_drop_comment: "length (drop_comment s) \<le> length s"
  by (induction s) auto

lemma length_drop_comment_drop: "length (drop_comment (drop n s)) \<le> length s"
  using length_drop_comment [of "drop n s"] by simp

function strip_comments :: "string \<Rightarrow> string" where
  "strip_comments [] = []"
| "strip_comments (c # s) =
     (if take 4 (c # s) = ''<!--'' then strip_comments (drop_comment (drop 3 s))
      else c # strip_comments s)"
  by pat_completeness auto
termination
proof (relation "measure length")
  fix c s
  show "(drop_comment (drop 3 s), c # s) \<in> measure length"
    using length_drop_comment_drop [of 3 s] by simp
qed auto

definition drop_tag :: "string \<Rightarrow> string" where
  "drop_tag s = drop 1 (dropWhile (\<lambda>c. c \<noteq> CHR ''>'') s)"

lemma length_drop_tag: "length (drop_tag s) \<le> length s"
  unfolding drop_tag_def by (metis diff_le_self le_trans length_drop length_dropWhile_le)

lemma length_drop_tag_tl: "length (drop_tag (tl s)) \<le> length s"
  using length_drop_tag [of "tl s"] by simp

function strip_tags :: "string \<Rightarrow> string" where
  "strip_tags [] = []"
| "strip_tags (c # s) =
     (if c = CHR ''<'' \<and> s \<noteq> [] \<and> tag_start (hd s) then strip_tags (drop_tag (tl s))
      else c # strip_tags s)"
  by pat_completeness auto
termination
proof (relation "measure length")
  fix c and s :: string
  show "(drop_tag (tl s), c # s) \<in> measure length"
    using length_drop_tag_tl [of s] by simp
qed auto

text \<open>\<open>.replace(/P+/g, r)\<close> for a class \<open>P\<close> of characters.\<close>

function squeeze :: "(char \<Rightarrow> bool) \<Rightarrow> char \<Rightarrow> string \<Rightarrow> string" where
  "squeeze P r [] = []"
| "squeeze P r (c # s) =
     (if P c then r # squeeze P r (dropWhile P s) else c # squeeze P r s)"
  by pat_completeness auto
termination
  by (relation "measure (\<lambda>(P, r, s). length s)") (auto simp: length_dropWhile_le le_imp_less_Suc)

abbreviation LF :: char where "LF \<equiv> CHR 0x0A"
abbreviation CR :: char where "CR \<equiv> CHR 0x0D"

fun crlf_to_lf :: "string \<Rightarrow> string" where
  "crlf_to_lf [] = []"
| "crlf_to_lf (c # s) =
     (if c = CR then LF # crlf_to_lf (if s \<noteq> [] \<and> hd s = LF then tl s else s)
      else c # crlf_to_lf s)"

text \<open>\<open>.replace(/\n{3,}/g, '\n\n')\<close>: a run of line feeds is cut to two.\<close>

function cap_newlines :: "string \<Rightarrow> string" where
  "cap_newlines [] = []"
| "cap_newlines (c # s) =
     (if c = LF then take 2 (c # takeWhile (\<lambda>d. d = LF) s) @ cap_newlines (dropWhile (\<lambda>d. d = LF) s)
      else c # cap_newlines s)"
  by pat_completeness auto
termination
  by (relation "measure length") (auto simp: length_dropWhile_le le_imp_less_Suc)

definition strip_markup :: "string \<Rightarrow> string" where
  "strip_markup s = strip_tags (strip_comments s)"

lemma length_strip_comments: "length (strip_comments s) \<le> length s"
proof (induction s rule: strip_comments.induct)
  case (2 c s)
  then show ?case using length_drop_comment_drop [of 3 s] by (auto intro: le_trans)
qed simp

lemma length_strip_tags: "length (strip_tags s) \<le> length s"
proof (induction s rule: strip_tags.induct)
  case (2 c s)
  then show ?case using length_drop_tag_tl [of s] by (auto intro: le_trans)
qed simp

lemma length_strip_markup: "length (strip_markup s) \<le> length s"
  unfolding strip_markup_def using length_strip_comments length_strip_tags by (metis le_trans)

text \<open>A replacement that keeps the length removed nothing.\<close>

lemma strip_comments_same: "length (strip_comments s) = length s \<Longrightarrow> strip_comments s = s"
proof (induction s rule: strip_comments.induct)
  case (2 c s)
  have "length (strip_comments (drop_comment (drop 3 s))) \<le> length s"
    using length_strip_comments length_drop_comment_drop by (rule le_trans)
  then show ?case using 2 by (auto split: if_splits)
qed simp

lemma strip_tags_same: "length (strip_tags s) = length s \<Longrightarrow> strip_tags s = s"
proof (induction s rule: strip_tags.induct)
  case (2 c s)
  have "length (strip_tags (drop_tag (tl s))) \<le> length s"
    using length_strip_tags length_drop_tag_tl by (rule le_trans)
  then show ?case using 2 by (auto split: if_splits)
qed simp

lemma strip_markup_shrinks: "strip_markup s \<noteq> s \<Longrightarrow> length (strip_markup s) < length s"
proof (rule ccontr)
  assume ne: "strip_markup s \<noteq> s" and "\<not> length (strip_markup s) < length s"
  then have "length (strip_tags (strip_comments s)) = length s"
    using length_strip_markup [of s] by (simp add: strip_markup_def)
  then have "length (strip_comments s) = length s"
    using length_strip_tags [of "strip_comments s"] length_strip_comments [of s] by simp
  then have "strip_comments s = s" by (rule strip_comments_same)
  then have "strip_tags s = s"
    using strip_tags_same [of s] \<open>length (strip_tags (strip_comments s)) = length s\<close> by simp
  then show False using ne \<open>strip_comments s = s\<close> by (simp add: strip_markup_def)
qed

function strip_loop :: "string \<Rightarrow> string" where
  "strip_loop text = (let t = strip_markup text in if t = text then text else strip_loop t)"
  by pat_completeness auto
termination
  by (relation "measure length") (auto intro: strip_markup_shrinks)

declare strip_loop.simps [simp del]

definition sanitizePlainText :: "unk \<Rightarrow> bool \<Rightarrow> string" where
  "sanitizePlainText input multiline = (case input of
       UStr s \<Rightarrow>
         (let text = strip_loop (filter (\<lambda>c. \<not> is_control c) s)
          in js_trim (if multiline
               then cap_newlines (squeeze (\<lambda>c. c = CHR '' '' \<or> c = CHR 0x09) (CHR '' '') (crlf_to_lf text))
               else squeeze is_ws (CHR '' '') text))
     | _ \<Rightarrow> [])"

fun HTML_ESCAPE_MAP :: "char \<Rightarrow> string" where
  "HTML_ESCAPE_MAP c =
     (if c = CHR ''&'' then ''&amp;'' else if c = CHR ''<'' then ''&lt;''
      else if c = CHR ''>'' then ''&gt;'' else if c = CHR 0x22 then ''&quot;''
      else if c = CHR 0x27 then ''&#039;'' else if c = CHR 0x60 then ''&#096;''
      else if c = CHR ''/'' then ''&#x2F;'' else [c])"

definition escapeHtml :: "string \<Rightarrow> string" where
  "escapeHtml s = concat (map HTML_ESCAPE_MAP s)"

subsection \<open>No tag survives\<close>

text \<open>A place where the tag pattern can match: \<open><\<close> followed by a tag-start character.\<close>

fun has_tag :: "string \<Rightarrow> bool" where
  "has_tag [] = False"
| "has_tag (c # s) = ((c = CHR ''<'' \<and> s \<noteq> [] \<and> tag_start (hd s)) \<or> has_tag s)"

lemma has_tag_append1: "has_tag s \<Longrightarrow> has_tag (s @ t)"
  by (induction s) auto

lemma has_tag_append2: "has_tag t \<Longrightarrow> has_tag (s @ t)"
  by (induction s) auto

lemma has_tag_dropWhile: "has_tag (dropWhile P s) \<Longrightarrow> has_tag s"
  by (metis has_tag_append2 takeWhile_dropWhile_id)

lemma has_tag_trim: "has_tag (js_trim s) \<Longrightarrow> has_tag s"
proof -
  assume "has_tag (js_trim s)"
  moreover obtain zs where "dropWhile is_ws s = js_trim s @ zs"
    unfolding js_trim_def using rev_dropWhile_prefix by blast
  ultimately show "has_tag s" by (metis has_tag_append1 has_tag_dropWhile)
qed

lemma strip_tags_fix_no_tag: "strip_tags s = s \<Longrightarrow> \<not> has_tag s"
proof (induction s)
  case (Cons c s)
  have "length (strip_tags (drop_tag (tl s))) \<le> length s"
    using length_strip_tags length_drop_tag_tl by (rule le_trans)
  then have "\<not> (c = CHR ''<'' \<and> s \<noteq> [] \<and> tag_start (hd s))"
    using Cons.prems by (auto dest: arg_cong [where f = length])
  then show ?case using Cons by (auto split: if_splits)
qed simp

lemma strip_loop_fix: "strip_markup (strip_loop s) = strip_loop s"
proof (induction s rule: strip_loop.induct)
  case (1 s)
  then show ?case
    by (cases "strip_markup s = s") (simp_all add: strip_loop.simps [of s] Let_def)
qed

lemma strip_loop_no_tag: "\<not> has_tag (strip_loop s)"
proof -
  let ?t = "strip_loop s"
  have fix_eq: "strip_tags (strip_comments ?t) = ?t"
    using strip_loop_fix [of s] by (simp add: strip_markup_def)
  then have "length (strip_comments ?t) = length ?t"
    using length_strip_tags [of "strip_comments ?t"] length_strip_comments [of ?t] by simp
  then have "strip_comments ?t = ?t" by (rule strip_comments_same)
  then show ?thesis using fix_eq strip_tags_fix_no_tag by simp
qed

text \<open>Replacing white space puts no tag-start character behind a \<open><\<close>.\<close>

lemma hd_squeeze:
  "s \<noteq> [] \<Longrightarrow> squeeze P r s \<noteq> [] \<and> hd (squeeze P r s) = (if P (hd s) then r else hd s)"
  by (cases s) auto

lemma squeeze_no_tag:
  "r \<noteq> CHR ''<'' \<Longrightarrow> \<not> tag_start r \<Longrightarrow> \<not> has_tag s \<Longrightarrow> \<not> has_tag (squeeze P r s)"
proof (induction P r s rule: squeeze.induct)
  case (2 P r c s)
  have "\<not> has_tag (dropWhile P s)" using "2.prems" has_tag_dropWhile has_tag.simps(2) by blast
  moreover have "squeeze P r s \<noteq> [] \<longrightarrow> s \<noteq> []" by auto
  ultimately show ?case using 2 hd_squeeze [of s P r] by (auto split: if_splits)
qed simp

lemma hd_crlf: "s \<noteq> [] \<Longrightarrow>
  crlf_to_lf s \<noteq> [] \<and> hd (crlf_to_lf s) = (if hd s = CR then LF else hd s)"
  by (cases s) auto

lemma not_tag_start_ws [simp]:
  "\<not> tag_start LF" "\<not> tag_start CR" "\<not> tag_start (CHR '' '')"
  by (simp_all add: tag_start_def is_alpha_def)

lemma has_tag_tl: "has_tag (tl s) \<Longrightarrow> has_tag s"
  by (cases s) auto

lemma crlf_no_tag: "\<not> has_tag s \<Longrightarrow> \<not> has_tag (crlf_to_lf s)"
proof (induction s rule: crlf_to_lf.induct)
  case (2 c s)
  have "\<not> has_tag (tl s)" using "2.prems" has_tag_tl has_tag.simps(2) by blast
  moreover have "crlf_to_lf s \<noteq> [] \<longrightarrow> s \<noteq> []" by auto
  ultimately show ?case using 2 hd_crlf [of s] by (auto split: if_splits)
qed simp

lemma hd_cap: "s \<noteq> [] \<Longrightarrow> cap_newlines s \<noteq> [] \<and> hd (cap_newlines s) = hd s"
  by (cases s) auto

lemma has_tag_LFs: "\<forall>c \<in> set t. c = LF \<Longrightarrow> has_tag (t @ s) = has_tag s"
  by (induction t) auto

lemma run_LF:
  assumes "d \<in> set (take n (c # takeWhile (\<lambda>d. d = LF) s))" and "c = LF"
  shows "d = LF"
proof -
  have "d \<in> set (c # takeWhile (\<lambda>d. d = LF) s)" using assms(1) by (rule in_set_takeD)
  then consider "d = c" | "d \<in> set (takeWhile (\<lambda>d. d = LF) s)" by (rule set_ConsD [THEN disjE])
  then show ?thesis by cases (use assms(2) in \<open>auto dest: set_takeWhileD\<close>)
qed

lemma cap_newlines_no_tag: "\<not> has_tag s \<Longrightarrow> \<not> has_tag (cap_newlines s)"
proof (induction s rule: cap_newlines.induct)
  case (2 c s)
  have s: "\<not> has_tag s" using "2.prems" by simp
  show ?case
  proof (cases "c = LF")
    case True
    let ?run = "take 2 (c # takeWhile (\<lambda>d. d = LF) s)"
    let ?rest = "dropWhile (\<lambda>d. d = LF) s"
    have "\<not> has_tag ?rest" using s has_tag_dropWhile by blast
    then have "\<not> has_tag (cap_newlines ?rest)" using "2.IH"(1) True by simp
    moreover have "\<forall>d \<in> set ?run. d = LF" using run_LF [OF _ True] by blast
    ultimately have "\<not> has_tag (?run @ cap_newlines ?rest)" by (simp only: has_tag_LFs not_False_eq_True)
    then show ?thesis using True by simp
  next
    case False
    then have "\<not> has_tag (cap_newlines s)" using "2.IH"(2) s by simp
    then show ?thesis using False "2.prems" hd_cap [of s] by (cases "s = []") auto
  qed
qed simp

lemma sanitized_no_tag: "\<not> has_tag (sanitizePlainText input multiline)"
proof (cases input)
  case (UStr s)
  let ?t = "strip_loop (filter (\<lambda>c. \<not> is_control c) s)"
  have t: "\<not> has_tag ?t" by (rule strip_loop_no_tag)
  have "\<not> has_tag (squeeze is_ws (CHR '' '') ?t)" using t by (intro squeeze_no_tag) simp_all
  moreover have "\<not> has_tag (cap_newlines
      (squeeze (\<lambda>c. c = CHR '' '' \<or> c = CHR 0x09) (CHR '' '') (crlf_to_lf ?t)))"
    using t by (intro cap_newlines_no_tag squeeze_no_tag crlf_no_tag) simp_all
  ultimately show ?thesis
    unfolding sanitizePlainText_def UStr using has_tag_trim
    by (cases multiline) (auto simp: Let_def simp del: squeeze.simps)
qed (simp_all add: sanitizePlainText_def)

text \<open>
  Text that has been through \<open>sanitizePlainText\<close> holds no place where a tag can start,
  whatever the input nests, in both the single-line and the multi-line mode. The stripping
  loop is a total function: it ends on every input, because a pass that changes the text
  makes it shorter.
\<close>
lemma sanitizePlainText_no_tag: "\<not> has_tag (sanitizePlainText input multiline)"
  by (rule sanitized_no_tag)

lemma length_squeeze: "length (squeeze P r s) \<le> length s"
proof (induction P r s rule: squeeze.induct)
  case (2 P r c s)
  then show ?case using length_dropWhile_le [of P s] by (auto intro: le_trans)
qed simp

lemma escapeHtml_safe:
  "c \<in> set (escapeHtml s) \<Longrightarrow>
     c \<notin> {CHR ''<'', CHR ''>'', CHR 0x22, CHR 0x27, CHR 0x60, CHR ''/''}"
  by (auto simp: escapeHtml_def split: if_splits)

end
