(* ===== verification/Payment_Verification.thy ===== *)
theory Payment_Verification
  imports Assets Amounts Feature_Flags Content_Safety
begin

text \<open>
  Canonical payment verification, \<open>backend/src/services/payment-verification.ts\<close>: the codes and
  messages, the checks of the request (transaction hash, payer information, payable status) and
  \<open>verifyHorizonPayment\<close>, which every verify path goes through. The Stellar SDK's muxed-account
  encoding is a parameter (\<open>vc_muxed\<close>: account and id to address, \<open>None\<close> when the SDK throws);
  the feature-flag overrides and the environment are the module state it reads. Proved: which
  inputs are accepted, that the first failing check of the documented order decides the code,
  and what an accepted payment guarantees about amount, asset, memo and destination.
\<close>

subsection \<open>Codes, messages and results\<close>

datatype verification_code =
    MISSING_TX_HASH | INVALID_TX_HASH | INVALID_PAYER_NAME | INVALID_PAYER_EMAIL
  | PAYER_INFO_TOO_LONG | INVOICE_ALREADY_PAID | INVOICE_EXPIRED | INVOICE_NOT_PENDING
  | TRANSACTION_NOT_FOUND | NO_PAYMENT_OPERATION | MEMO_MISMATCH | DESTINATION_MISMATCH
  | AMOUNT_MISMATCH | ASSET_MISMATCH | NETWORK_MISMATCH

fun VERIFICATION_MESSAGES :: "verification_code \<Rightarrow> string" where
  "VERIFICATION_MESSAGES MISSING_TX_HASH = ''Transaction hash is required''"
| "VERIFICATION_MESSAGES INVALID_TX_HASH = ''Transaction hash must be 64 hexadecimal characters''"
| "VERIFICATION_MESSAGES INVALID_PAYER_NAME = ''Payer name must be text''"
| "VERIFICATION_MESSAGES INVALID_PAYER_EMAIL = ''Payer email is invalid''"
| "VERIFICATION_MESSAGES PAYER_INFO_TOO_LONG = ''Payer information is too long''"
| "VERIFICATION_MESSAGES INVOICE_ALREADY_PAID = ''Invoice has already been paid''"
| "VERIFICATION_MESSAGES INVOICE_EXPIRED = ''Invoice has expired and can no longer accept payment''"
| "VERIFICATION_MESSAGES INVOICE_NOT_PENDING = ''Invoice is not pending''"
| "VERIFICATION_MESSAGES TRANSACTION_NOT_FOUND = ''Transaction not found on Stellar''"
| "VERIFICATION_MESSAGES NO_PAYMENT_OPERATION = ''No payment operation found in transaction''"
| "VERIFICATION_MESSAGES MEMO_MISMATCH = ''Memo mismatch''"
| "VERIFICATION_MESSAGES DESTINATION_MISMATCH = ''Payment destination mismatch''"
| "VERIFICATION_MESSAGES AMOUNT_MISMATCH = ''Amount mismatch''"
| "VERIFICATION_MESSAGES ASSET_MISMATCH = ''Asset mismatch''"
| "VERIFICATION_MESSAGES NETWORK_MISMATCH = ''Transaction is on a different Stellar network''"

record verification_failure =
  vf_code :: verification_code
  vf_error :: string

type_synonym 'a verification_result = "(verification_failure, 'a) result"

definition failure :: "verification_code \<Rightarrow> 'a verification_result" where
  "failure code = Inl \<lparr>vf_code = code, vf_error = VERIFICATION_MESSAGES code\<rparr>"

lemma failure_simps [simp]:
  "failure c \<noteq> Inr v" "Inr v \<noteq> failure c" "failure c = failure d \<longleftrightarrow> c = d"
  by (auto simp: failure_def)

subsection \<open>The request\<close>

definition MAX_PAYER_FIELD_LENGTH :: nat where
  "MAX_PAYER_FIELD_LENGTH = 255"

definition email_local_char :: "char \<Rightarrow> bool" where
  "email_local_char c = (is_alnum c \<or> c \<in> {CHR ''.'', CHR ''_'', CHR ''+'', CHR ''-''})"

definition label_char :: "char \<Rightarrow> bool" where
  "label_char c = (is_alnum c \<or> c = CHR ''-'')"

text \<open>
  The pattern: one at-sign, a local part of its characters, a domain of at least two labels,
  the last one two or more letters.
\<close>

definition PAYER_EMAIL_PATTERN :: "string \<Rightarrow> bool" where
  "PAYER_EMAIL_PATTERN s = (case split_on (CHR ''@'') s of
       [lp, dm] \<Rightarrow>
         lp \<noteq> [] \<and> list_all email_local_char lp \<and>
         (let labels = split_on (CHR ''.'') dm in
            2 \<le> length labels \<and> list_all (\<lambda>l. l \<noteq> [] \<and> list_all label_char l) (butlast labels) \<and>
            2 \<le> length (last labels) \<and> list_all is_alpha (last labels))
     | _ \<Rightarrow> False)"

definition TX_HASH_PATTERN :: "string \<Rightarrow> bool" where
  "TX_HASH_PATTERN s = (length s = 64 \<and> list_all is_hex s)"

definition isValidTxHash :: "unk \<Rightarrow> bool" where
  "isValidTxHash h = (case h of UStr s \<Rightarrow> TX_HASH_PATTERN (js_trim s) | _ \<Rightarrow> False)"

definition checkTxHash :: "unk \<Rightarrow> string verification_result" where
  "checkTxHash h = (case h of
       UStr s \<Rightarrow>
         (if js_trim s = [] then failure MISSING_TX_HASH
          else if \<not> isValidTxHash (UStr (js_trim s)) then failure INVALID_TX_HASH
          else Inr (js_trim s))
     | _ \<Rightarrow> failure MISSING_TX_HASH)"

record payer_info =
  payerName :: "string option"
  payerEmail :: "string option"

definition or_undefined :: "string \<Rightarrow> string option" where
  "or_undefined s = (if s = [] then None else Some s)"

definition opt_length :: "string option \<Rightarrow> nat" where
  "opt_length s = (case s of None \<Rightarrow> 0 | Some t \<Rightarrow> length t)"

definition checkPayerInfo :: "unk \<Rightarrow> unk \<Rightarrow> payer_info verification_result" where
  "checkPayerInfo pname pemail =
     (if pname = UOther then failure INVALID_PAYER_NAME
      else if pemail = UOther then failure INVALID_PAYER_EMAIL
      else let n = (if pname = UUndef then None
                    else or_undefined (sanitizePlainText pname False));
               e = (case pemail of UStr s \<Rightarrow> or_undefined (js_trim s) | _ \<Rightarrow> None)
           in if truthy e \<and> \<not> PAYER_EMAIL_PATTERN (the e) then failure INVALID_PAYER_EMAIL
              else if opt_length n > MAX_PAYER_FIELD_LENGTH \<or> opt_length e > MAX_PAYER_FIELD_LENGTH
              then failure PAYER_INFO_TOO_LONG
              else Inr \<lparr>payerName = n, payerEmail = e\<rparr>)"

definition checkInvoiceIsPayable :: "string \<Rightarrow> unit verification_result" where
  "checkInvoiceIsPayable status =
     (if status = ''PAID'' then failure INVOICE_ALREADY_PAID
      else if status = ''EXPIRED'' then failure INVOICE_EXPIRED
      else if status \<noteq> ''PENDING'' then failure INVOICE_NOT_PENDING
      else Inr ())"

subsection \<open>The Horizon side\<close>

record expected_payment =
  ep_memo :: "string option"
  ep_amount :: amount_value
  ep_destination :: string
  ep_assetCode :: string
  ep_assetIssuer :: "string option"
  ep_network :: "string option"

datatype horizon_transaction =
  HorizonTx (tx_memo: "string option") (tx_envelope_type: "string option")
    (tx_inner: "horizon_transaction option")

record horizon_operation =
  op_type :: string
  op_from :: "string option"
  op_to :: "string option"
  op_amount :: amount_value
  op_asset_type :: "string option"
  op_asset_code :: "string option"
  op_asset_issuer :: "string option"
  op_to_muxed_id :: "string option"

record verified_payment =
  vp_txHash :: string
  vp_from :: string
  vp_to :: string
  vp_amount :: amount_value
  vp_assetCode :: string
  vp_assetIssuer :: "string option"
  vp_memo :: string

record verify_payment_input =
  vi_txHash :: unk
  vi_expected :: expected_payment
  vi_transaction :: "horizon_transaction option"
  vi_operations :: "horizon_operation list"
  vi_network :: "string option"

record verify_context =
  vc_overrides :: overrides
  vc_env :: environment
  vc_muxed :: "string \<Rightarrow> string \<Rightarrow> string option"

definition normalizeMemo :: "string option \<Rightarrow> string" where
  "normalizeMemo memo = or_empty memo"

definition assetCodeOf :: "horizon_operation \<Rightarrow> string" where
  "assetCodeOf opn =
     (if op_asset_type opn = Some ''native'' then ''XLM'' else or_empty (op_asset_code opn))"

definition starts_with :: "char \<Rightarrow> string \<Rightarrow> bool" where
  "starts_with c s = (s \<noteq> [] \<and> hd s = c)"

definition normalizeDestination ::
  "(string \<Rightarrow> string \<Rightarrow> string option) \<Rightarrow> string option \<Rightarrow> string option \<Rightarrow> string" where
  "normalizeDestination muxed dest muxedId = (case dest of
       None \<Rightarrow> []
     | Some d \<Rightarrow>
         (let normalized = js_trim d in
          if starts_with (CHR ''M'') normalized then normalized
          else (case muxedId of
              None \<Rightarrow> normalized
            | Some m \<Rightarrow>
                if js_trim m = [] then normalized
                else if starts_with (CHR ''G'') normalized then
                  (case muxed normalized m of
                     Some a \<Rightarrow> a | None \<Rightarrow> normalized @ '':'' @ js_trim m)
                else normalized @ '':'' @ js_trim m)))"

definition transactionForVerification ::
  "horizon_transaction option \<Rightarrow> horizon_transaction option" where
  "transactionForVerification tx = (case tx of
       None \<Rightarrow> None
     | Some t \<Rightarrow> if tx_envelope_type t = Some ''fee_bump''
                then (case tx_inner t of Some i \<Rightarrow> Some i | None \<Rightarrow> Some t) else Some t)"

definition amountsMatch :: "verify_context \<Rightarrow> amount_value \<Rightarrow> amount_value \<Rightarrow> bool" where
  "amountsMatch ctx actual expected =
     (let toleranceStroops =
            (if isFeatureEnabled (vc_overrides ctx) (vc_env ctx) PaymentAmountTolerance then 1 else 0)
      in amountsMatch_stroops expected actual (Num toleranceStroops))"

definition op_asset_fields :: "horizon_operation \<Rightarrow> asset_fields" where
  "op_asset_fields opn = \<lparr>assetType = op_asset_type opn, assetCode = op_asset_code opn,
     assetIssuer = op_asset_issuer opn\<rparr>"

definition dest_ok :: "verify_context \<Rightarrow> expected_payment \<Rightarrow> horizon_operation \<Rightarrow> bool" where
  "dest_ok ctx ex opn =
     (normalizeDestination (vc_muxed ctx) (op_to opn) (op_to_muxed_id opn) =
      normalizeDestination (vc_muxed ctx) (Some (ep_destination ex)) None)"

definition tx_memo_of :: "horizon_transaction option \<Rightarrow> string" where
  "tx_memo_of tx = normalizeMemo (Option.bind tx tx_memo)"

text \<open>The value built for an accepted operation, and the search for one among the payments.\<close>

definition verified_payment_of :: "string \<Rightarrow> string \<Rightarrow> horizon_operation \<Rightarrow> verified_payment" where
  "verified_payment_of hash memo opn =
     \<lparr>vp_txHash = hash,
      vp_from = or_empty (op_from opn),
      vp_to = or_empty (op_to opn),
      vp_amount = (if op_amount opn = AOther then AStr [] else op_amount opn),
      vp_assetCode = assetCodeOf opn,
      vp_assetIssuer = (if op_asset_type opn = Some ''native'' then None else op_asset_issuer opn),
      vp_memo = memo\<rparr>"

definition settlement_search ::
  "verify_context \<Rightarrow> expected_payment \<Rightarrow> string \<Rightarrow> string \<Rightarrow> horizon_operation list \<Rightarrow>
   verified_payment verification_result" where
  "settlement_search ctx ex hash memo paymentOps =
     (case List.find (dest_ok ctx ex) paymentOps of
        None \<Rightarrow> failure DESTINATION_MISMATCH
      | Some destinationMatch \<Rightarrow>
     (case List.find (\<lambda>opn. dest_ok ctx ex opn \<and> amountsMatch ctx (op_amount opn) (ep_amount ex))
             paymentOps of
        None \<Rightarrow> failure AMOUNT_MISMATCH
      | Some amountMatch \<Rightarrow>
     let invoiceAsset = resolveInvoiceAsset (Some (ep_assetCode ex)) (ep_assetIssuer ex)
     in (case List.find (\<lambda>opn. dest_ok ctx ex opn \<and> amountsMatch ctx (op_amount opn) (ep_amount ex) \<and>
                assetsMatch invoiceAsset (resolvePaymentAsset (op_asset_fields opn))) paymentOps of
        None \<Rightarrow> failure ASSET_MISMATCH
      | Some paymentOp \<Rightarrow>
          let paidAsset = resolvePaymentAsset (op_asset_fields paymentOp)
          in if \<not> assetsMatch invoiceAsset paidAsset then failure ASSET_MISMATCH
             else Inr (verified_payment_of hash memo paymentOp))))"

definition verifyHorizonPayment ::
  "verify_context \<Rightarrow> verify_payment_input \<Rightarrow> verified_payment verification_result" where
  "verifyHorizonPayment ctx input =
     rbind (checkTxHash (vi_txHash input)) (\<lambda>hash.
     let ex = vi_expected input;
         network = vi_network input;
         transaction = transactionForVerification (vi_transaction input);
         paymentOps = filter (\<lambda>opn. op_type opn = ''payment'') (vi_operations input)
     in if truthy (ep_network ex) \<and> truthy network \<and> ep_network ex \<noteq> network
        then failure NETWORK_MISMATCH
        else if paymentOps = [] then failure NO_PAYMENT_OPERATION
        else if tx_memo_of transaction \<noteq> normalizeMemo (ep_memo ex) then failure MEMO_MISMATCH
        else settlement_search ctx ex hash (tx_memo_of transaction) paymentOps)"

subsection \<open>The documented contract\<close>

text \<open>
  The README states the contract as an ordered list of checks. Each entry pairs what the check
  requires with the code reported when it is the first one that fails.
\<close>

definition pays_asset :: "expected_payment \<Rightarrow> horizon_operation \<Rightarrow> bool" where
  "pays_asset ex opn = assetsMatch (resolveInvoiceAsset (Some (ep_assetCode ex)) (ep_assetIssuer ex))
     (resolvePaymentAsset (op_asset_fields opn))"

definition settles :: "verify_context \<Rightarrow> expected_payment \<Rightarrow> horizon_operation \<Rightarrow> bool" where
  "settles ctx ex opn =
     (op_type opn = ''payment'' \<and> dest_ok ctx ex opn \<and>
      amountsMatch ctx (op_amount opn) (ep_amount ex) \<and> pays_asset ex opn)"

definition network_ok :: "verify_payment_input \<Rightarrow> bool" where
  "network_ok input = (\<not> (truthy (ep_network (vi_expected input)) \<and> truthy (vi_network input) \<and>
     ep_network (vi_expected input) \<noteq> vi_network input))"

definition memo_ok :: "verify_payment_input \<Rightarrow> bool" where
  "memo_ok input = (tx_memo_of (transactionForVerification (vi_transaction input)) =
     normalizeMemo (ep_memo (vi_expected input)))"

definition hash_present :: "unk \<Rightarrow> bool" where
  "hash_present h = (case h of UStr s \<Rightarrow> js_trim s \<noteq> [] | _ \<Rightarrow> False)"

definition verification_checks ::
  "verify_context \<Rightarrow> verify_payment_input \<Rightarrow> (bool \<times> verification_code) list" where
  "verification_checks ctx input =
     (let ex = vi_expected input;
          pays = filter (\<lambda>opn. op_type opn = ''payment'') (vi_operations input)
      in [(hash_present (vi_txHash input), MISSING_TX_HASH),
          (isValidTxHash (vi_txHash input), INVALID_TX_HASH),
          (network_ok input, NETWORK_MISMATCH),
          (pays \<noteq> [], NO_PAYMENT_OPERATION),
          (memo_ok input, MEMO_MISMATCH),
          (list_ex (dest_ok ctx ex) pays, DESTINATION_MISMATCH),
          (list_ex (\<lambda>opn. dest_ok ctx ex opn \<and> amountsMatch ctx (op_amount opn) (ep_amount ex)) pays,
             AMOUNT_MISMATCH),
          (list_ex (settles ctx ex) pays, ASSET_MISMATCH)])"

fun first_failed :: "(bool \<times> 'c) list \<Rightarrow> 'c option" where
  "first_failed [] = None"
| "first_failed ((ok, c) # cs) = (if ok then first_failed cs else Some c)"

fun verdict :: "'a verification_result \<Rightarrow> verification_code option" where
  "verdict (Inl f) = Some (vf_code f)"
| "verdict (Inr _) = None"

lemma verdict_failure [simp]: "verdict (failure c) = Some c"
  by (simp add: failure_def)

lemma find_list_ex: "(List.find P xs = None) = (\<not> list_ex P xs)"
  by (induction xs) auto

lemma verdict_find:
  "verdict (case List.find P xs of None \<Rightarrow> failure c | Some x \<Rightarrow> Inr (f x)) =
     (if list_ex P xs then None else Some c)"
  using find_list_ex [of P xs] by (cases "List.find P xs") simp_all

lemma checkTxHash_cases:
  "checkTxHash h = (if \<not> hash_present h then failure MISSING_TX_HASH
     else if \<not> isValidTxHash h then failure INVALID_TX_HASH
     else Inr (case h of UStr s \<Rightarrow> js_trim s | _ \<Rightarrow> []))"
  by (cases h) (auto simp: checkTxHash_def hash_present_def isValidTxHash_def)

lemma verified_payment_of_simps [simp]:
  "vp_txHash (verified_payment_of h m opn) = h"
  "vp_memo (verified_payment_of h m opn) = m"
  "vp_from (verified_payment_of h m opn) = or_empty (op_from opn)"
  by (simp_all add: verified_payment_of_def)

lemma settles_in_pays:
  "list_ex (settles ctx ex) (filter (\<lambda>opn. op_type opn = ''payment'') ops) =
   list_ex (\<lambda>opn. dest_ok ctx ex opn \<and> amountsMatch ctx (op_amount opn) (ep_amount ex) \<and>
      pays_asset ex opn) (filter (\<lambda>opn. op_type opn = ''payment'') ops)"
  by (auto simp: list_ex_iff settles_def)

text \<open>
  The second asset comparison of the source (after the search) never fails: the search has
  already tested it.
\<close>

lemma settlement_search_eq:
  "settlement_search ctx ex hash memo ops =
     (if \<not> list_ex (dest_ok ctx ex) ops then failure DESTINATION_MISMATCH
      else if \<not> list_ex (\<lambda>opn. dest_ok ctx ex opn \<and> amountsMatch ctx (op_amount opn) (ep_amount ex)) ops
      then failure AMOUNT_MISMATCH
      else (case List.find (\<lambda>opn. dest_ok ctx ex opn \<and> amountsMatch ctx (op_amount opn) (ep_amount ex) \<and>
               pays_asset ex opn) ops of
              None \<Rightarrow> failure ASSET_MISMATCH | Some opn \<Rightarrow> Inr (verified_payment_of hash memo opn)))"
  unfolding settlement_search_def pays_asset_def find_list_ex [symmetric] Let_def
  by (auto split: option.split dest!: find_SomeD)

lemma verifyHorizonPayment_eq:
  "verifyHorizonPayment ctx input =
     (if \<not> hash_present (vi_txHash input) then failure MISSING_TX_HASH
      else if \<not> isValidTxHash (vi_txHash input) then failure INVALID_TX_HASH
      else if \<not> network_ok input then failure NETWORK_MISMATCH
      else if filter (\<lambda>opn. op_type opn = ''payment'') (vi_operations input) = []
      then failure NO_PAYMENT_OPERATION
      else if \<not> memo_ok input then failure MEMO_MISMATCH
      else settlement_search ctx (vi_expected input)
             (case vi_txHash input of UStr s \<Rightarrow> js_trim s | _ \<Rightarrow> [])
             (normalizeMemo (ep_memo (vi_expected input)))
             (filter (\<lambda>opn. op_type opn = ''payment'') (vi_operations input)))"
  unfolding verifyHorizonPayment_def checkTxHash_cases network_ok_def memo_ok_def Let_def
  by (simp add: rbind_def failure_def)

text \<open>
  C2: \<open>verifyHorizonPayment\<close> reports exactly the first check of the documented order that fails
  (hash present, hash well formed, network, a payment operation, memo, destination, amount,
  asset), and accepts when none does: every verify path gives the same first code.
\<close>
theorem verifyHorizonPayment_first_failure:
  "verdict (verifyHorizonPayment ctx input) = first_failed (verification_checks ctx input)"
  unfolding verifyHorizonPayment_eq settlement_search_eq verification_checks_def Let_def
    first_failed.simps settles_in_pays
  by (simp add: verdict_find)

text \<open>What acceptance means, spelled out over the input.\<close>

lemma verify_InrE:
  assumes "verifyHorizonPayment ctx input = Inr v"
  obtains opn where "opn \<in> set (vi_operations input)" and "settles ctx (vi_expected input) opn"
    and "isValidTxHash (vi_txHash input)" and "network_ok input" and "memo_ok input"
    and "v = verified_payment_of (case vi_txHash input of UStr s \<Rightarrow> js_trim s | _ \<Rightarrow> [])
               (normalizeMemo (ep_memo (vi_expected input))) opn"
proof -
  have g: "isValidTxHash (vi_txHash input)" "network_ok input" "memo_ok input"
    using assms unfolding verifyHorizonPayment_eq by (auto split: if_splits)
  then have "settlement_search ctx (vi_expected input)
      (case vi_txHash input of UStr s \<Rightarrow> js_trim s | _ \<Rightarrow> [])
      (normalizeMemo (ep_memo (vi_expected input)))
      (filter (\<lambda>opn. op_type opn = ''payment'') (vi_operations input)) = Inr v"
    using assms unfolding verifyHorizonPayment_eq by (simp split: if_splits)
  then obtain opn where
    f: "List.find (\<lambda>opn. dest_ok ctx (vi_expected input) opn \<and>
          amountsMatch ctx (op_amount opn) (ep_amount (vi_expected input)) \<and>
          pays_asset (vi_expected input) opn)
          (filter (\<lambda>opn. op_type opn = ''payment'') (vi_operations input)) = Some opn"
    and v: "v = verified_payment_of (case vi_txHash input of UStr s \<Rightarrow> js_trim s | _ \<Rightarrow> [])
               (normalizeMemo (ep_memo (vi_expected input))) opn"
    unfolding settlement_search_eq by (auto split: if_splits option.splits)
  have "opn \<in> set (vi_operations input)" "settles ctx (vi_expected input) opn"
    using find_SomeD [OF f] by (auto simp: settles_def)
  then show ?thesis using g v by (rule that)
qed

text \<open>The tolerance in force, in stroops.\<close>

definition tolerance :: "verify_context \<Rightarrow> nat" where
  "tolerance ctx = (if isFeatureEnabled (vc_overrides ctx) (vc_env ctx) PaymentAmountTolerance then 1 else 0)"

lemma amountsMatch_tolerance:
  assumes "denotes e n" and "denotes a m" and "n < 2 ^ 51" and "m < 2 ^ 51"
  shows "amountsMatch ctx a e \<longleftrightarrow> \<bar>int n - int m\<bar> \<le> int (tolerance ctx)"
  using amountsMatch_denotes [OF assms, of 0] amountsMatch_denotes [OF assms, of 1]
  by (cases "isFeatureEnabled (vc_overrides ctx) (vc_env ctx) PaymentAmountTolerance")
    (auto simp: amountsMatch_def tolerance_def)

text \<open>
  C1: what an accepted payment guarantees, for amounts of whole stroops below \<open>2 ^ 51\<close> (225,179,981 lumens). Some \<open>payment\<close>
  operation of the transaction went to the invoice's exact (muxed) address, its memo is the
  invoice's, it paid the invoice's amount to the stroop, or to within one stroop when the flag for the tolerance of
  payment amounts is on, and it paid the invoice's asset: the
  native asset for an unpinned \<open>XLM\<close> invoice, otherwise a credit asset of the same code and
  of the same, non-empty issuer. A credit asset that calls itself \<open>XLM\<close> settles nothing.
\<close>
theorem verified_payment_guarantee:
  assumes "verifyHorizonPayment ctx input = Inr v" and "denotes (ep_amount (vi_expected input)) n" and "n < 2 ^ 51"
  shows "\<exists>opn \<in> set (vi_operations input).
     op_type opn = ''payment'' \<and> dest_ok ctx (vi_expected input) opn \<and>
     vp_memo v = normalizeMemo (ep_memo (vi_expected input)) \<and>
     vp_from v = or_empty (op_from opn) \<and>
     (\<forall>m < 2 ^ 51. denotes (op_amount opn) m \<longrightarrow>
        \<bar>int n - int m\<bar> \<le> (if isFeatureEnabled (vc_overrides ctx) (vc_env ctx) PaymentAmountTolerance then 1 else 0)) \<and>
     (if op_asset_type opn = Some ''native''
      then js_trim (ep_assetCode (vi_expected input)) = ''XLM'' \<and>
           js_trim (or_empty (ep_assetIssuer (vi_expected input))) = []
      else js_trim (or_empty (ep_assetIssuer (vi_expected input))) \<noteq> [] \<and>
           js_trim (ep_assetCode (vi_expected input)) = js_trim (or_empty (op_asset_code opn)) \<and>
           js_trim (or_empty (ep_assetIssuer (vi_expected input))) =
             js_trim (or_empty (op_asset_issuer opn)))"
proof -
  obtain opn where o: "opn \<in> set (vi_operations input)" "settles ctx (vi_expected input) opn"
    and v: "vp_memo v = normalizeMemo (ep_memo (vi_expected input))"
      "vp_from v = or_empty (op_from opn)"
    using verify_InrE [OF assms(1)] by (metis verified_payment_of_simps)
  have "\<forall>m < 2 ^ 51. denotes (op_amount opn) m \<longrightarrow>
      \<bar>int n - int m\<bar> \<le> (if isFeatureEnabled (vc_overrides ctx) (vc_env ctx) PaymentAmountTolerance then 1 else 0)"
    using o(2) amountsMatch_tolerance [OF assms(2) _ assms(3), where ctx = ctx] by (auto simp: settles_def tolerance_def)
  then show ?thesis
    using o v assetsMatch_resolved [of "Some (ep_assetCode (vi_expected input))"
        "ep_assetIssuer (vi_expected input)" "op_asset_fields opn"]
    by (intro bexI [of _ opn]) (auto simp: settles_def pays_asset_def op_asset_fields_def)
qed

text \<open>A ten-lumen invoice and the payment that settles it.\<close>

definition example_context :: verify_context where
  "example_context = \<lparr>vc_overrides = (\<lambda>_. None), vc_env = (\<lambda>_. None), vc_muxed = (\<lambda>_ _. None)\<rparr>"

definition example_operation :: horizon_operation where
  "example_operation = \<lparr>op_type = ''payment'', op_from = Some ''GPAYER'', op_to = Some ''GSELLER'',
     op_amount = AStr ''10.0000000'', op_asset_type = Some ''native'', op_asset_code = None,
     op_asset_issuer = None, op_to_muxed_id = None\<rparr>"

definition example_input :: verify_payment_input where
  "example_input = \<lparr>vi_txHash = UStr (replicate 64 (CHR ''a'')),
     vi_expected = \<lparr>ep_memo = Some ''INV-1'', ep_amount = AStr ''10'', ep_destination = ''GSELLER'',
       ep_assetCode = ''XLM'', ep_assetIssuer = None, ep_network = Some ''TESTNET''\<rparr>,
     vi_transaction = Some (HorizonTx (Some ''INV-1'') None None),
     vi_operations = [example_operation], vi_network = Some ''TESTNET''\<rparr>"

lemma example_denotes:
  "denotes (AStr ''10'') 100000000" "denotes (AStr ''10.0000000'') 100000000"
  by (simp_all add: denotes_def js_trim_def is_ws_def decimal_value_def unsigned_decimal_def
      is_digit_def exponent_part_def digits_val_def digit_val_def)

lemma example_flag_off:
  "\<not> isFeatureEnabled (vc_overrides example_context) (vc_env example_context) PaymentAmountTolerance"
  by (simp add: example_context_def isFeatureEnabled_def environmentFeatureValue_def)

lemma example_amount: "amountsMatch example_context (AStr ''10.0000000'') (AStr ''10'')"
  using amountsMatch_tolerance [OF example_denotes] by simp

lemma example_accepted: "\<exists>v. verifyHorizonPayment example_context example_input = Inr v"
proof -
  have t: "js_trim (replicate 64 (CHR ''a'')) = replicate 64 (CHR ''a'')"
    by (rule js_trim_no_ws) (simp add: is_ws_def list_all_iff)
  have "hash_present (vi_txHash example_input)" "isValidTxHash (vi_txHash example_input)"
    unfolding example_input_def hash_present_def isValidTxHash_def TX_HASH_PATTERN_def
    by (simp_all add: t is_hex_def list_all_iff)
  moreover have "network_ok example_input" "memo_ok example_input"
    by (simp_all add: example_input_def network_ok_def memo_ok_def tx_memo_of_def normalizeMemo_def
        transactionForVerification_def)
  moreover have "dest_ok example_context (vi_expected example_input) example_operation"
    by (simp add: dest_ok_def example_operation_def example_input_def)
  moreover have "pays_asset (vi_expected example_input) example_operation"
    by (simp add: pays_asset_def assetsMatch_resolved example_operation_def example_input_def
        op_asset_fields_def js_trim_def is_ws_def)
  ultimately show ?thesis
    using example_amount
    by (simp add: verifyHorizonPayment_eq settlement_search_eq example_input_def example_operation_def)
qed

text \<open>Witness of C1.\<close>
theorem verified_payment_guarantee_witness:
  "\<exists>opn \<in> set (vi_operations example_input).
     op_type opn = ''payment'' \<and> dest_ok example_context (vi_expected example_input) opn \<and>
     (\<forall>m < 2 ^ 51. denotes (op_amount opn) m \<longrightarrow> m = 100000000)"
proof -
  obtain v where v: "verifyHorizonPayment example_context example_input = Inr v"
    using example_accepted by blast
  have d: "denotes (ep_amount (vi_expected example_input)) 100000000"
    using example_denotes by (simp add: example_input_def)
  show ?thesis
    using verified_payment_guarantee [OF v d] example_flag_off by auto
qed

subsection \<open>Payer information and status\<close>

text \<open>
  Payer information that is accepted is bounded and clean: a name of 1 to 255 characters in
  which no markup tag can start, an email of at most 255 characters that matches the pattern;
  and a name that is not text is always refused.
\<close>
lemma checkPayerInfo_clean:
  assumes "checkPayerInfo pname pemail = Inr p"
  shows "pname \<noteq> UOther \<and> pemail \<noteq> UOther \<and>
    (case payerName p of None \<Rightarrow> True | Some n \<Rightarrow> n \<noteq> [] \<and> length n \<le> 255 \<and> \<not> has_tag n) \<and>
    (case payerEmail p of None \<Rightarrow> True
      | Some e \<Rightarrow> PAYER_EMAIL_PATTERN e \<and> length e \<le> 255)"
proof -
  have "\<not> has_tag (sanitizePlainText pname False)" by (rule sanitized_no_tag)
  then show ?thesis
    using assms
    by (auto simp: checkPayerInfo_def Let_def or_undefined_def opt_length_def
        MAX_PAYER_FIELD_LENGTH_def not_less split: if_splits unk.splits)
qed

text \<open>A name with markup in it and an ordinary address.\<close>
lemma checkPayerInfo_clean_witness:
  "\<exists>p. checkPayerInfo (UStr ''<b>Ann'') (UStr '' a@b.co '') = Inr p \<and>
     payerName p = Some ''Ann'' \<and> payerEmail p = Some ''a@b.co'' \<and> length ''a@b.co'' \<le> 255"
proof -
  have n: "sanitizePlainText (UStr ''<b>Ann'') False = ''Ann''"
    by (simp add: sanitizePlainText_def strip_loop.simps strip_markup_def drop_tag_def is_control_def
        tag_start_def is_alpha_def is_ws_def js_trim_def Let_def)
  have e: "js_trim '' a@b.co '' = ''a@b.co''"
    by (simp add: js_trim_def is_ws_def)
  have "PAYER_EMAIL_PATTERN ''a@b.co''"
    by (simp add: PAYER_EMAIL_PATTERN_def email_local_char_def label_char_def is_alnum_def
        is_alpha_def is_digit_def Let_def)
  then have p: "checkPayerInfo (UStr ''<b>Ann'') (UStr '' a@b.co '') =
      Inr \<lparr>payerName = Some ''Ann'', payerEmail = Some ''a@b.co''\<rparr>"
    by (simp add: checkPayerInfo_def n e Let_def or_undefined_def opt_length_def
        MAX_PAYER_FIELD_LENGTH_def)
  show ?thesis using p checkPayerInfo_clean [OF p] by simp
qed

end
