(* ===== verification/Invoice_Model.thy ===== *)
theory Invoice_Model
  imports Js_Number
begin

text \<open>
  The invoice both storage backends share (\<open>backend/src/storage/invoice-storage.ts\<close>) and its expiry
  contract (\<open>backend/src/domain/invoice-expiry.ts\<close>). A \<open>Date\<close> is its time value in
  milliseconds; an absent or invalid one is \<open>None\<close>, and the reading of the clock that the code
  falls back to is an argument. Free-form metadata is a JSON value.
\<close>

datatype json =
    JNull
  | JBool bool
  | JNum jsnum
  | JStr string
  | JDate int
  | JArr "json list"
  | JObj "(string \<times> json) list"

datatype invoice_status = PENDING | PAID | EXPIRED | CANCELLED

fun status_name :: "invoice_status \<Rightarrow> string" where
  "status_name PENDING = ''PENDING''"
| "status_name PAID = ''PAID''"
| "status_name EXPIRED = ''EXPIRED''"
| "status_name CANCELLED = ''CANCELLED''"

definition INVOICE_STATUSES :: "invoice_status list" where
  "INVOICE_STATUSES = [PENDING, PAID, EXPIRED, CANCELLED]"

record stored_invoice =
  si_id :: string
  si_userId :: "string option"
  si_sellerPublicKey :: string
  si_sellerName :: "string option"
  si_sellerEmail :: "string option"
  si_amount :: jsnum
  si_assetCode :: string
  si_assetIssuer :: "string option"
  si_memo :: string
  si_description :: "string option"
  si_customerName :: "string option"
  si_customerEmail :: "string option"
  si_status :: invoice_status
  si_paymentTxHash :: "string option"
  si_payerPublicKey :: "string option"
  si_payerName :: "string option"
  si_payerEmail :: "string option"
  si_createdAt :: int
  si_paidAt :: "int option"
  si_expiresAt :: int
  si_metadata :: "json option"
  si_schemaVersion :: "string option"
  si_version :: "int option"

lemma status_name_inject [simp]: "status_name a = status_name b \<longleftrightarrow> a = b"
  by (cases a; cases b) auto

subsection \<open>Expiry\<close>

definition MIN_INVOICE_EXPIRY_DAYS :: int where "MIN_INVOICE_EXPIRY_DAYS = 1"
definition MAX_INVOICE_EXPIRY_DAYS :: int where "MAX_INVOICE_EXPIRY_DAYS = 30"
definition DEFAULT_INVOICE_EXPIRY_DAYS :: int where "DEFAULT_INVOICE_EXPIRY_DAYS = 7"
definition DAY_IN_MS :: int where "DAY_IN_MS = 24 * 60 * 60 * 1000"

lemmas expiry_consts = MIN_INVOICE_EXPIRY_DAYS_def MAX_INVOICE_EXPIRY_DAYS_def
  DEFAULT_INVOICE_EXPIRY_DAYS_def DAY_IN_MS_def

text \<open>An \<open>unknown\<close> value: missing (\<open>undefined\<close> or \<open>null\<close>), a number, or anything else.\<close>

datatype expiry_days = EDMissing | EDNum jsnum | EDOther

datatype expiry_error = RangeError

definition validateInvoiceExpiryDays :: "expiry_days \<Rightarrow> (expiry_error, int) result" where
  "validateInvoiceExpiryDays value =
     (let days = (if value = EDMissing then EDNum (Num (of_int DEFAULT_INVOICE_EXPIRY_DAYS)) else value)
      in case days of
           EDNum (Num d) \<Rightarrow>
             (if \<not> rat_is_int d \<or> d < of_int MIN_INVOICE_EXPIRY_DAYS \<or> d > of_int MAX_INVOICE_EXPIRY_DAYS
              then Inl RangeError else Inr \<lfloor>d\<rfloor>)
         | _ \<Rightarrow> Inl RangeError)"

text \<open>\<open>now\<close> is the argument (\<open>None\<close>: not a valid date), \<open>clock\<close> what \<open>new Date()\<close> reads.\<close>

definition valid_now :: "int option \<Rightarrow> int \<Rightarrow> int" where
  "valid_now now clock = (case now of Some t \<Rightarrow> t | None \<Rightarrow> clock)"

definition calculateInvoiceExpiry :: "expiry_days \<Rightarrow> int option \<Rightarrow> int \<Rightarrow> (expiry_error, int) result" where
  "calculateInvoiceExpiry expiresInDays now clock =
     rbind (validateInvoiceExpiryDays expiresInDays) (\<lambda>d. Inr (valid_now now clock + d * DAY_IN_MS))"

definition isPendingInvoiceExpired ::
  "(invoice_status \<times> int option) option \<Rightarrow> int option \<Rightarrow> int \<Rightarrow> bool" where
  "isPendingInvoiceExpired invoice now clock = (case invoice of
       Some (status, Some expiresAt) \<Rightarrow> status = PENDING \<and> expiresAt \<le> valid_now now clock
     | _ \<Rightarrow> False)"

text \<open>For a stored invoice, whose expiry is always a date, and a valid \<open>now\<close>.\<close>

definition overdue :: "int \<Rightarrow> stored_invoice \<Rightarrow> bool" where
  "overdue now i = isPendingInvoiceExpired (Some (si_status i, Some (si_expiresAt i))) (Some now) now"

lemma overdue_iff [simp]: "overdue now i \<longleftrightarrow> si_status i = PENDING \<and> si_expiresAt i \<le> now"
  by (simp add: overdue_def isPendingInvoiceExpired_def valid_now_def)

text \<open>
  Every accepted expiry lies between one and thirty days after the creation time, in whole
  days, a missing value means seven days, and fractions, non-numbers and values out of range
  are refused with a \<open>RangeError\<close>.
\<close>
lemma calculateInvoiceExpiry_bounds:
  assumes "calculateInvoiceExpiry v (Some now) clock = Inr e"
  shows "\<exists>d. 1 \<le> d \<and> d \<le> 30 \<and> e = now + d * 86400000 \<and> (v = EDMissing \<longrightarrow> d = 7) \<and>
    (\<forall>q. v = EDNum (Num q) \<longrightarrow> of_int d = q)"
proof -
  obtain d where d: "validateInvoiceExpiryDays v = Inr d" and e: "e = now + d * DAY_IN_MS"
    using assms by (auto simp: calculateInvoiceExpiry_def rbind_Inr_iff valid_now_def)
  have "1 \<le> d \<and> d \<le> 30 \<and> (v = EDMissing \<longrightarrow> d = 7) \<and> (\<forall>q. v = EDNum (Num q) \<longrightarrow> of_int d = q)"
    using d unfolding validateInvoiceExpiryDays_def
    by (auto simp: Let_def expiry_consts rat_is_int_def le_floor_iff floor_le_iff
        split: if_splits expiry_days.splits jsnum.splits)
  then show ?thesis using e by (auto simp: DAY_IN_MS_def)
qed

text \<open>The default window from time zero.\<close>
lemma calculateInvoiceExpiry_bounds_witness:
  "calculateInvoiceExpiry EDMissing (Some 0) 5 = Inr 604800000 \<and>
   (\<exists>d. 1 \<le> d \<and> d \<le> 30 \<and> (604800000::int) = 0 + d * 86400000)"
proof -
  have c: "calculateInvoiceExpiry EDMissing (Some 0) 5 = Inr 604800000"
    by (simp add: calculateInvoiceExpiry_def validateInvoiceExpiryDays_def valid_now_def expiry_consts)
  show ?thesis using c calculateInvoiceExpiry_bounds [OF c] by blast
qed

end
