(* ===== verification/Invoice_Stats.thy ===== *)
theory Invoice_Stats
  imports Invoice_Model
begin

text \<open>
  Dashboard statistics, \<open>backend/src/storage/invoice-stats.ts\<close>, over the fields of the stored
  invoice. The revenue map is built with \<open>defineProperty\<close>, so every asset code is an ordinary
  key; its sums are floating-point sums in storage order.
\<close>

datatype stats_error = SellerRequired | InvalidStatsFields

record invoice_stats =
  total_invoices :: nat
  paid_invoices :: nat
  pending_invoices :: nat
  actionable_invoices :: nat
  expired_invoices :: nat
  revenue_by_asset :: "(string, jsnum) jsmap"

definition stats_fields_ok :: "stored_invoice \<Rightarrow> bool" where
  "stats_fields_ok i =
     (js_trim (si_sellerPublicKey i) \<noteq> [] \<and> js_trim (si_assetCode i) \<noteq> [] \<and>
      (case si_amount i of Num q \<Rightarrow> 0 \<le> q | _ \<Rightarrow> False))"

definition validateStatsInput :: "stored_invoice list \<Rightarrow> string \<Rightarrow> (stats_error, unit) result" where
  "validateStatsInput allInvoices sellerPublicKey =
     rbind (throw_if (js_trim sellerPublicKey = []) SellerRequired) (\<lambda>_.
       throw_if (\<not> list_all stats_fields_ok allInvoices) InvalidStatsFields)"

fun add_revenue :: "(string, jsnum) jsmap \<Rightarrow> stored_invoice \<Rightarrow> (string, jsnum) jsmap" where
  "add_revenue m i =
     (let currentRevenue = (case mget m (si_assetCode i) of Some r \<Rightarrow> r | None \<Rightarrow> Num 0)
      in mset_kv (si_assetCode i) (js_add currentRevenue (si_amount i)) m)"

definition count_status :: "invoice_status \<Rightarrow> stored_invoice list \<Rightarrow> nat" where
  "count_status st xs = length (filter (\<lambda>i. si_status i = st) xs)"

definition calculateInvoiceStats ::
  "stored_invoice list \<Rightarrow> string \<Rightarrow> (stats_error, invoice_stats) result" where
  "calculateInvoiceStats allInvoices sellerPublicKey =
     rbind (validateStatsInput allInvoices sellerPublicKey) (\<lambda>_.
       let invoices = filter (\<lambda>i. si_sellerPublicKey i = sellerPublicKey) allInvoices;
           revenueByAsset = foldl add_revenue [] (filter (\<lambda>i. si_status i = PAID) invoices);
           pendingInvoices = count_status PENDING invoices
       in Inr \<lparr>total_invoices = length invoices,
               paid_invoices = count_status PAID invoices,
               pending_invoices = pendingInvoices,
               actionable_invoices = pendingInvoices,
               expired_invoices = count_status EXPIRED invoices,
               revenue_by_asset = revenueByAsset\<rparr>)"

text \<open>The invoices that pay into one asset's revenue, in storage order.\<close>

definition paid_in :: "string \<Rightarrow> string \<Rightarrow> stored_invoice list \<Rightarrow> stored_invoice list" where
  "paid_in seller code xs =
     filter (\<lambda>i. si_sellerPublicKey i = seller \<and> si_status i = PAID \<and> si_assetCode i = code) xs"

lemma revenue_fold:
  "mget (foldl add_revenue m xs) code =
     (let ps = filter (\<lambda>i. si_assetCode i = code) xs
      in if ps = [] then mget m code
         else Some (foldl (\<lambda>r i. js_add r (si_amount i))
                (case mget m code of Some r \<Rightarrow> r | None \<Rightarrow> Num 0) ps))"
  by (induction xs arbitrary: m) (auto simp: Let_def)

lemma count_status_sum:
  "count_status PENDING xs + count_status PAID xs + count_status EXPIRED xs
     + count_status CANCELLED xs = length xs"
proof (induction xs)
  case (Cons i xs)
  then show ?case by (cases "si_status i") (simp_all add: count_status_def)
qed (simp add: count_status_def)

text \<open>
  Statistics are scoped to one seller and add up. The counters partition the seller's
  invoices (the cancelled ones are the remainder), and each asset's revenue is the sum, in
  storage order and with the rounding of the sums, of exactly the seller's paid invoices in
  that asset; invoices of other sellers and unpaid ones contribute nothing.
\<close>
lemma calculateInvoiceStats_scoped:
  assumes "calculateInvoiceStats xs seller = Inr st"
  shows "total_invoices st = length (filter (\<lambda>i. si_sellerPublicKey i = seller) xs) \<and>
    total_invoices st = pending_invoices st + paid_invoices st + expired_invoices st
      + count_status CANCELLED (filter (\<lambda>i. si_sellerPublicKey i = seller) xs) \<and>
    mget (revenue_by_asset st) code =
      (if paid_in seller code xs = [] then None
       else Some (foldl (\<lambda>r i. js_add r (si_amount i)) (Num 0) (paid_in seller code xs)))"
proof -
  let ?mine = "filter (\<lambda>i. si_sellerPublicKey i = seller) xs"
  have st: "st = \<lparr>total_invoices = length ?mine, paid_invoices = count_status PAID ?mine,
      pending_invoices = count_status PENDING ?mine, actionable_invoices = count_status PENDING ?mine,
      expired_invoices = count_status EXPIRED ?mine,
      revenue_by_asset = foldl add_revenue [] (filter (\<lambda>i. si_status i = PAID) ?mine)\<rparr>"
    using assms by (auto simp: calculateInvoiceStats_def rbind_Inr_iff Let_def)
  show ?thesis
    using count_status_sum [of ?mine] unfolding st by (simp add: revenue_fold Let_def paid_in_def)
qed

text \<open>An invoice to build examples from.\<close>

definition blank_invoice :: stored_invoice where
  "blank_invoice = \<lparr>si_id = ''i1'', si_userId = None, si_sellerPublicKey = ''GS'', si_sellerName = None,
     si_sellerEmail = None, si_amount = Num 5, si_assetCode = ''XLM'', si_assetIssuer = None,
     si_memo = ''INV-1'', si_description = None, si_customerName = None, si_customerEmail = None,
     si_status = PENDING, si_paymentTxHash = None, si_payerPublicKey = None, si_payerName = None,
     si_payerEmail = None, si_createdAt = 0, si_paidAt = None, si_expiresAt = 100,
     si_metadata = None, si_schemaVersion = None, si_version = Some 1\<rparr>"

text \<open>One paid and one pending invoice of the seller, one of somebody else.\<close>
lemma calculateInvoiceStats_scoped_witness:
  "\<exists>st. calculateInvoiceStats
      [blank_invoice\<lparr>si_status := PAID\<rparr>, blank_invoice, blank_invoice\<lparr>si_sellerPublicKey := ''GX''\<rparr>]
      ''GS'' = Inr st \<and> total_invoices st = 2 \<and>
      total_invoices st = pending_invoices st + paid_invoices st + expired_invoices st"
proof -
  let ?xs = "[blank_invoice\<lparr>si_status := PAID\<rparr>, blank_invoice, blank_invoice\<lparr>si_sellerPublicKey := ''GX''\<rparr>]"
  obtain st where st: "calculateInvoiceStats ?xs ''GS'' = Inr st"
    by (simp add: calculateInvoiceStats_def validateStatsInput_def stats_fields_ok_def blank_invoice_def
        js_trim_def is_ws_def Let_def)
  show ?thesis
    using st calculateInvoiceStats_scoped [OF st, of "''XLM''"]
    by (intro exI [of _ st]) (simp add: blank_invoice_def count_status_def)
qed

end
