(* ===== verification/Optimistic_Lock.thy ===== *)
theory Optimistic_Lock
  imports Js_Number
begin

text \<open>
  Optimistic concurrency, \<open>backend/src/concurrency/optimistic-lock.ts\<close>: a write may name the
  version it expects; a version that is not a non-negative safe integer is refused, a stale one
  is a conflict, and a client that names none passes.
\<close>

datatype version_error =
    ConflictError jsnum jsnum  \<comment> \<open>current and attempted version\<close>
  | InvalidVersionError bool jsnum  \<comment> \<open>whether it is the expected one, and its value\<close>

definition assertVersion :: "bool \<Rightarrow> jsnum \<Rightarrow> (version_error, unit) result" where
  "assertVersion is_expected v =
     throw_if (\<not> is_safe_integer v \<or> (case v of Num q \<Rightarrow> q < 0 | _ \<Rightarrow> False))
       (InvalidVersionError is_expected v)"

definition checkVersion :: "jsnum option \<Rightarrow> jsnum \<Rightarrow> (version_error, unit) result" where
  "checkVersion expected actual =
     rbind (assertVersion False actual) (\<lambda>_.
       case expected of
         None \<Rightarrow> Inr ()
       | Some e \<Rightarrow> rbind (assertVersion True e) (\<lambda>_. throw_if (e \<noteq> actual) (ConflictError actual e)))"

lemma checkVersion_SomeD: "checkVersion (Some e) a = Inr u \<Longrightarrow> e = a"
  by (auto simp: checkVersion_def rbind_Inr_iff)

lemma checkVersion_match:
  "checkVersion expected actual = Inr () \<longleftrightarrow>
     is_safe_integer actual \<and> (\<exists>q. actual = Num q \<and> 0 \<le> q) \<and>
     (expected = None \<or> expected = Some actual)"
  by (cases actual)
    (auto simp: checkVersion_def assertVersion_def throw_if_def rbind_def split: option.splits)

end
