(* ===== verification/Memory_Storage.thy ===== *)
theory Memory_Storage
  imports Invoice_Stats Optimistic_Lock
begin

text \<open>
  The in-memory invoice table, \<open>backend/src/storage/memory-storage.ts\<close>. Invoices are objects that
  the table, the service's cache and callers share, and the expiry sweep mutates them in place,
  so the model has a heap of invoice objects and the table maps ids to references. Every
  reading of a clock is an argument (\<open>new Date()\<close> and the injected \<open>now()\<close> alike), as is the
  random id. An exception is \<open>Inl\<close>, paired with the state it leaves behind.
\<close>

subsection \<open>State\<close>

type_synonym ref = nat

record memory_storage =
  ms_heap :: "ref \<Rightarrow> stored_invoice"
  ms_next :: ref
  ms_invoices :: "(string, ref) jsmap"
  ms_invoicesByMemo :: "(string, string) jsmap"
  ms_writtenAt :: "(string, int) jsmap"
  ms_maxEntries :: nat
  ms_staleAfterMs :: int
  ms_evictions :: nat
  ms_invalidations :: nat
  ms_staleReads :: nat

datatype storage_error =
    DuplicateId string
  | DuplicateMemo string
  | DuplicateTxHash string
  | VersionError version_error
  | StatsError stats_error

definition DEFAULT_MAX_ENTRIES :: nat where "DEFAULT_MAX_ENTRIES = 10000"

definition MemoryStorage_new :: "nat option \<Rightarrow> int option \<Rightarrow> memory_storage" where
  "MemoryStorage_new maxEntries staleAfterMs =
     \<lparr>ms_heap = (\<lambda>_. blank_invoice), ms_next = 0, ms_invoices = [], ms_invoicesByMemo = [],
      ms_writtenAt = [],
      ms_maxEntries = max 1 (case maxEntries of Some n \<Rightarrow> n | None \<Rightarrow> DEFAULT_MAX_ENTRIES),
      ms_staleAfterMs = max 0 (case staleAfterMs of Some n \<Rightarrow> n | None \<Rightarrow> 0),
      ms_evictions = 0, ms_invalidations = 0, ms_staleReads = 0\<rparr>"

definition alloc :: "stored_invoice \<Rightarrow> memory_storage \<Rightarrow> ref \<times> memory_storage" where
  "alloc i s = (ms_next s, s\<lparr>ms_heap := (ms_heap s)(ms_next s := i), ms_next := Suc (ms_next s)\<rparr>)"

subsection \<open>Private operations\<close>

definition removeEntry :: "string \<Rightarrow> stored_invoice \<Rightarrow> memory_storage \<Rightarrow> memory_storage" where
  "removeEntry iid invoice s =
     s\<lparr>ms_invoices := mdelete iid (ms_invoices s),
       ms_invoicesByMemo := (if mget (ms_invoicesByMemo s) (si_memo invoice) = Some iid
          then mdelete (si_memo invoice) (ms_invoicesByMemo s) else ms_invoicesByMemo s),
       ms_writtenAt := mdelete iid (ms_writtenAt s)\<rparr>"

function evictIfFull :: "memory_storage \<Rightarrow> memory_storage" where
  "evictIfFull s =
     (if length (ms_invoices s) \<ge> ms_maxEntries s then
        (case ms_invoices s of
           [] \<Rightarrow> s
         | (oldestId, r) # _ \<Rightarrow>
             evictIfFull ((removeEntry oldestId (ms_heap s r) s)\<lparr>ms_evictions := Suc (ms_evictions s)\<rparr>))
      else s)"
  by pat_completeness auto
termination
  by (relation "measure (\<lambda>s. length (ms_invoices s))")
    (auto simp: removeEntry_def mdelete_def less_Suc_eq_le)

declare evictIfFull.simps [simp del]

definition setEntry :: "ref \<Rightarrow> int \<Rightarrow> memory_storage \<Rightarrow> memory_storage" where
  "setEntry r clock s0 =
     (let invoice = ms_heap s0 r;
          s = (if mget (ms_invoices s0) (si_id invoice) = None then evictIfFull s0
               else s0\<lparr>ms_invoices := mdelete (si_id invoice) (ms_invoices s0)\<rparr>)
      in s\<lparr>ms_invoices := mset_kv (si_id invoice) r (ms_invoices s),
           ms_invoicesByMemo := mset_kv (si_memo invoice) (si_id invoice) (ms_invoicesByMemo s),
           ms_writtenAt := mset_kv (si_id invoice) clock (ms_writtenAt s)\<rparr>)"

definition isStale :: "string \<Rightarrow> int \<Rightarrow> memory_storage \<Rightarrow> bool" where
  "isStale iid clock s =
     (if ms_staleAfterMs s \<le> 0 then False
      else (case mget (ms_writtenAt s) iid of
              None \<Rightarrow> False | Some written \<Rightarrow> clock - written > ms_staleAfterMs s))"

definition readEntry :: "string \<Rightarrow> int \<Rightarrow> memory_storage \<Rightarrow> ref option \<times> memory_storage" where
  "readEntry iid clock s =
     (case mget (ms_invoices s) iid of
        None \<Rightarrow> (None, s)
      | Some r \<Rightarrow> (Some r, if isStale iid clock s then s\<lparr>ms_staleReads := Suc (ms_staleReads s)\<rparr> else s))"

subsection \<open>Expiry sweep\<close>

fun expire_refs :: "int \<Rightarrow> ref list \<Rightarrow> (ref \<Rightarrow> stored_invoice) \<Rightarrow> nat \<times> (ref \<Rightarrow> stored_invoice)" where
  "expire_refs now [] h = (0, h)"
| "expire_refs now (r # rs) h =
     (if overdue now (h r)
      then let (n, h') = expire_refs now rs (h(r := (h r)\<lparr>si_status := EXPIRED\<rparr>)) in (Suc n, h')
      else expire_refs now rs h)"

definition markExpiredInvoices :: "int \<Rightarrow> memory_storage \<Rightarrow> nat \<times> memory_storage" where
  "markExpiredInvoices now s =
     (let (n, h) = expire_refs now (map snd (ms_invoices s)) (ms_heap s) in (n, s\<lparr>ms_heap := h\<rparr>))"

abbreviation sweep :: "int \<Rightarrow> memory_storage \<Rightarrow> memory_storage" where
  "sweep now s \<equiv> snd (markExpiredInvoices now s)"

subsection \<open>Public operations\<close>

record create_data =
  cd_id :: "string option"
  cd_sellerPublicKey :: string
  cd_sellerName :: "string option"
  cd_sellerEmail :: "string option"
  cd_amount :: jsnum
  cd_assetCode :: "string option"
  cd_assetIssuer :: "string option"
  cd_memo :: string
  cd_description :: "string option"
  cd_customerName :: "string option"
  cd_customerEmail :: "string option"
  cd_expiresAt :: "int option"
  cd_metadata :: "json option"

definition or_else :: "string option \<Rightarrow> string \<Rightarrow> string" where
  "or_else s d = (if truthy s then the s else d)"

definition new_invoice :: "create_data \<Rightarrow> string \<Rightarrow> int \<Rightarrow> int \<Rightarrow> stored_invoice" where
  "new_invoice data iid created later =
     \<lparr>si_id = iid, si_userId = None, si_sellerPublicKey = cd_sellerPublicKey data,
      si_sellerName = cd_sellerName data, si_sellerEmail = cd_sellerEmail data,
      si_amount = cd_amount data, si_assetCode = or_else (cd_assetCode data) ''XLM'',
      si_assetIssuer = cd_assetIssuer data, si_memo = cd_memo data,
      si_description = cd_description data, si_customerName = cd_customerName data,
      si_customerEmail = cd_customerEmail data, si_status = PENDING, si_paymentTxHash = None,
      si_payerPublicKey = None, si_payerName = None, si_payerEmail = None, si_createdAt = created,
      si_paidAt = None,
      si_expiresAt = (case cd_expiresAt data of Some e \<Rightarrow> e | None \<Rightarrow> later + 7 * 24 * 60 * 60 * 1000),
      si_metadata = cd_metadata data, si_schemaVersion = None, si_version = Some 1\<rparr>"

definition ms_createInvoice ::
  "create_data \<Rightarrow> string \<Rightarrow> int \<Rightarrow> int \<Rightarrow> int \<Rightarrow> memory_storage \<Rightarrow>
   (storage_error, ref) result \<times> memory_storage" where
  "ms_createInvoice data uuid created later clock s =
     (let iid = or_else (cd_id data) uuid in
      if mget (ms_invoices s) iid \<noteq> None then (Inl (DuplicateId iid), s)
      else if cd_memo data \<noteq> [] \<and> mget (ms_invoicesByMemo s) (cd_memo data) \<noteq> None
      then (Inl (DuplicateMemo (cd_memo data)), s)
      else let (r, s') = alloc (new_invoice data iid created later) s
           in (Inr r, setEntry r clock s'))"

definition ms_getInvoiceById :: "string \<Rightarrow> int \<Rightarrow> int \<Rightarrow> memory_storage \<Rightarrow> ref option \<times> memory_storage" where
  "ms_getInvoiceById iid now clock s = readEntry iid clock (sweep now s)"

definition ms_getInvoiceByMemo :: "string \<Rightarrow> int \<Rightarrow> int \<Rightarrow> memory_storage \<Rightarrow> ref option \<times> memory_storage" where
  "ms_getInvoiceByMemo memo now clock s =
     (let s' = sweep now s in
      case mget (ms_invoicesByMemo s') memo of
        Some iid \<Rightarrow> if iid \<noteq> [] then readEntry iid clock s' else (None, s')
      | None \<Rightarrow> (None, s'))"

definition version_of :: "stored_invoice \<Rightarrow> int" where
  "version_of i = (case si_version i of Some v \<Rightarrow> v | None \<Rightarrow> 1)"

text \<open>
  \<open>updates\<close> is the function that spreads the given fields over an invoice; the memo it sets
  differs from the old one exactly when the code's test on \<open>updates.memo\<close> holds.
\<close>

definition ms_updateInvoice ::
  "string \<Rightarrow> (stored_invoice \<Rightarrow> stored_invoice) \<Rightarrow> jsnum option \<Rightarrow> int \<Rightarrow> memory_storage \<Rightarrow>
   (storage_error, ref option) result \<times> memory_storage" where
  "ms_updateInvoice iid updates expectedVersion clock s =
     (case mget (ms_invoices s) iid of
        None \<Rightarrow> (Inr None, s)
      | Some r0 \<Rightarrow>
          let invoice = ms_heap s r0 in
          (case checkVersion expectedVersion (Num (of_int (version_of invoice))) of
             Inl e \<Rightarrow> (Inl (VersionError e), s)
           | Inr _ \<Rightarrow>
               let updated = (updates invoice)\<lparr>si_version := Some (version_of invoice + 1)\<rparr> in
               if si_memo updated \<noteq> si_memo invoice then
                 (if mget (ms_invoicesByMemo s) (si_memo updated) \<noteq> None
                  then (Inl (DuplicateMemo (si_memo updated)), s)
                  else let (r, s') = alloc updated
                             (s\<lparr>ms_invoicesByMemo := mdelete (si_memo invoice) (ms_invoicesByMemo s)\<rparr>)
                       in (Inr (Some r), setEntry r clock s'))
               else let (r, s') = alloc updated s in (Inr (Some r), setEntry r clock s')))"

record times =
  t_sweep :: int  \<comment> \<open>\<open>new Date()\<close> of the expiry sweep\<close>
  t_check :: int  \<comment> \<open>\<open>now\<close> of the expiry guard\<close>
  t_stamp :: int  \<comment> \<open>\<open>new Date()\<close> recorded in the invoice\<close>
  t_clock :: int  \<comment> \<open>the injected clock\<close>

definition paid_fields ::
  "string \<Rightarrow> string \<Rightarrow> (string option \<times> string option) option \<Rightarrow> int \<Rightarrow> stored_invoice \<Rightarrow> stored_invoice" where
  "paid_fields txHash payer info paidAt i =
     i\<lparr>si_status := PAID, si_paymentTxHash := Some txHash, si_payerPublicKey := Some payer,
       si_payerName := Option.bind info fst, si_payerEmail := Option.bind info snd,
       si_paidAt := Some paidAt\<rparr>"

definition tx_hash_taken :: "string \<Rightarrow> string \<Rightarrow> memory_storage \<Rightarrow> bool" where
  "tx_hash_taken iid txHash s =
     list_ex (\<lambda>r. si_id (ms_heap s r) \<noteq> iid \<and> truthy (si_paymentTxHash (ms_heap s r)) \<and>
       si_paymentTxHash (ms_heap s r) = Some txHash) (map snd (ms_invoices s))"

definition ms_markAsPaid ::
  "string \<Rightarrow> string \<Rightarrow> string \<Rightarrow> (string option \<times> string option) option \<Rightarrow> jsnum option \<Rightarrow> times \<Rightarrow>
   memory_storage \<Rightarrow> (storage_error, ref option) result \<times> memory_storage" where
  "ms_markAsPaid iid txHash payer info expectedVersion t s0 =
     (let s = sweep (t_sweep t) s0 in
      case mget (ms_invoices s) iid of
        None \<Rightarrow> (Inr None, s)
      | Some r \<Rightarrow>
          let invoice = ms_heap s r in
          if si_status invoice \<noteq> PENDING then (Inr None, s)
          else if si_expiresAt invoice \<le> t_check t then (Inr None, s)
          else if tx_hash_taken iid txHash s then (Inl (DuplicateTxHash txHash), s)
          else ms_updateInvoice iid (paid_fields txHash payer info (t_stamp t)) expectedVersion
                 (t_clock t) s)"

definition cmp_newest :: "stored_invoice \<Rightarrow> stored_invoice \<Rightarrow> int" where
  "cmp_newest a b =
     (if si_createdAt b - si_createdAt a \<noteq> 0 then si_createdAt b - si_createdAt a
      else if str_lt (si_id a) (si_id b) then 1 else if str_lt (si_id b) (si_id a) then -1 else 0)"

definition ms_getAllInvoices :: "string option \<Rightarrow> int \<Rightarrow> memory_storage \<Rightarrow> stored_invoice list \<times> memory_storage" where
  "ms_getAllInvoices status now s =
     (let s' = sweep now s;
          all_invoices = map (ms_heap s' \<circ> snd) (ms_invoices s');
          invoices = (if truthy status then filter (\<lambda>i. Some (status_name (si_status i)) = status) all_invoices
                      else all_invoices)
      in (sort_by cmp_newest invoices, s'))"

definition ms_getStats :: "string \<Rightarrow> int \<Rightarrow> memory_storage \<Rightarrow>
    (storage_error, invoice_stats) result \<times> memory_storage" where
  "ms_getStats seller now s =
     (let s' = sweep now s in
      (map_sum StatsError (\<lambda>st. st) (calculateInvoiceStats (map (ms_heap s' \<circ> snd) (ms_invoices s')) seller), s'))"

definition cmp_overdue :: "stored_invoice \<Rightarrow> stored_invoice \<Rightarrow> int" where
  "cmp_overdue a b =
     (if si_expiresAt a - si_expiresAt b \<noteq> 0 then si_expiresAt a - si_expiresAt b
      else if str_lt (si_id a) (si_id b) then -1 else if str_lt (si_id b) (si_id a) then 1 else 0)"

definition ms_findOverduePending :: "int \<Rightarrow> memory_storage \<Rightarrow> stored_invoice list" where
  "ms_findOverduePending cutoff s =
     sort_by cmp_overdue (filter (overdue cutoff) (map (ms_heap s \<circ> snd) (ms_invoices s)))"

definition ms_invalidate :: "string \<Rightarrow> memory_storage \<Rightarrow> bool \<times> memory_storage" where
  "ms_invalidate iid s = (case mget (ms_invoices s) iid of
       None \<Rightarrow> (False, s)
     | Some r \<Rightarrow> (True, (removeEntry iid (ms_heap s r) s)\<lparr>ms_invalidations := Suc (ms_invalidations s)\<rparr>))"

definition ms_clear :: "memory_storage \<Rightarrow> memory_storage" where
  "ms_clear s = s\<lparr>ms_invoices := [], ms_invoicesByMemo := [], ms_writtenAt := []\<rparr>"

definition ms_invalidateAll :: "memory_storage \<Rightarrow> nat \<times> memory_storage" where
  "ms_invalidateAll s = (length (ms_invoices s),
     (ms_clear s)\<lparr>ms_invalidations := ms_invalidations s + length (ms_invoices s)\<rparr>)"

record cache_stats =
  cs_size :: nat
  cs_maxEntries :: nat
  cs_evictions :: nat
  cs_invalidations :: nat
  cs_staleReads :: nat

definition ms_getCacheStats :: "memory_storage \<Rightarrow> cache_stats" where
  "ms_getCacheStats s = \<lparr>cs_size = length (ms_invoices s), cs_maxEntries = ms_maxEntries s,
     cs_evictions = ms_evictions s, cs_invalidations = ms_invalidations s,
     cs_staleReads = ms_staleReads s\<rparr>"

end
