(* ===== verification/Storage_Lemmas.thy ===== *)
theory Storage_Lemmas
  imports Memory_Storage
begin

text \<open>
  What the in-memory invoice table guarantees: its well-formedness (the three maps agree, ids and
  memos are unique), its bound, the abstract map \<open>view\<close> it implements and the effect of
  every operation on it, the lifecycle of a stored invoice and that a transaction hash settles
  at most one of them.
\<close>

definition view :: "memory_storage \<Rightarrow> string \<Rightarrow> stored_invoice option" where
  "view s iid = map_option (ms_heap s) (mget (ms_invoices s) iid)"

text \<open>Agreement of the maps for all ids but \<open>i\<close>, whose entry is about to be written with memo \<open>m\<close>.\<close>

definition swf_but :: "string \<Rightarrow> string \<Rightarrow> memory_storage \<Rightarrow> bool" where
  "swf_but i m s \<longleftrightarrow>
     mwf (ms_invoices s) \<and> mwf (ms_invoicesByMemo s) \<and> mwf (ms_writtenAt s) \<and> 1 \<le> ms_maxEntries s \<and>
     (\<forall>j r. j \<noteq> i \<longrightarrow> mget (ms_invoices s) j = Some r \<longrightarrow> r < ms_next s \<and> si_id (ms_heap s r) = j) \<and>
     (\<forall>m' j. mget (ms_invoicesByMemo s) m' = Some j \<longrightarrow>
        (j = i \<and> m' = m) \<or> (j \<noteq> i \<and> (\<exists>r. mget (ms_invoices s) j = Some r \<and> si_memo (ms_heap s r) = m'))) \<and>
     (\<forall>j r. j \<noteq> i \<longrightarrow> mget (ms_invoices s) j = Some r \<longrightarrow> si_memo (ms_heap s r) \<noteq> [] \<longrightarrow>
        mget (ms_invoicesByMemo s) (si_memo (ms_heap s r)) = Some j) \<and>
     (\<forall>j. j \<noteq> i \<longrightarrow> (mget (ms_writtenAt s) j = None) = (mget (ms_invoices s) j = None))"

definition swf :: "memory_storage \<Rightarrow> bool" where
  "swf s \<longleftrightarrow>
     mwf (ms_invoices s) \<and> mwf (ms_invoicesByMemo s) \<and> mwf (ms_writtenAt s) \<and> 1 \<le> ms_maxEntries s \<and>
     (\<forall>j r. mget (ms_invoices s) j = Some r \<longrightarrow> r < ms_next s \<and> si_id (ms_heap s r) = j) \<and>
     (\<forall>m' j. mget (ms_invoicesByMemo s) m' = Some j \<longrightarrow>
        (\<exists>r. mget (ms_invoices s) j = Some r \<and> si_memo (ms_heap s r) = m')) \<and>
     (\<forall>j r. mget (ms_invoices s) j = Some r \<longrightarrow> si_memo (ms_heap s r) \<noteq> [] \<longrightarrow>
        mget (ms_invoicesByMemo s) (si_memo (ms_heap s r)) = Some j) \<and>
     (\<forall>j. (mget (ms_writtenAt s) j = None) = (mget (ms_invoices s) j = None))"

definition bounded :: "memory_storage \<Rightarrow> bool" where
  "bounded s \<longleftrightarrow> length (ms_invoices s) \<le> ms_maxEntries s"

lemma swf_refD: "swf s \<Longrightarrow> mget (ms_invoices s) j = Some r \<Longrightarrow> r < ms_next s \<and> si_id (ms_heap s r) = j"
  unfolding swf_def by blast

lemma swf_viewD: "swf s \<Longrightarrow> view s j = Some i \<Longrightarrow> si_id i = j"
  by (auto simp: view_def dest: swf_refD)

lemma swf_new [simp]: "swf (MemoryStorage_new n k)" "bounded (MemoryStorage_new n k)"
  by (simp_all add: swf_def bounded_def MemoryStorage_new_def)

subsection \<open>Removing and evicting\<close>

lemma view_removeEntry: "view (removeEntry i v s) = (view s)(i := None)"
  by (auto simp: view_def removeEntry_def)

lemma swf_removeEntry:
  assumes s: "swf s" and r: "mget (ms_invoices s) i = Some r"
  shows "swf (removeEntry i (ms_heap s r) s)"
proof -
  let ?m = "si_memo (ms_heap s r)"
  let ?del = "mget (ms_invoicesByMemo s) ?m = Some i"
  have c: "\<exists>r'. mget (mdelete i (ms_invoices s)) j = Some r' \<and> si_memo (ms_heap s r') = m'"
    if g: "mget (ms_invoicesByMemo s) m' = Some j" and "?del \<longrightarrow> m' \<noteq> ?m" for m' j
  proof -
    obtain r' where r': "mget (ms_invoices s) j = Some r'" "si_memo (ms_heap s r') = m'"
      using s g unfolding swf_def by blast
    then have "j \<noteq> i" using r that by auto
    then show ?thesis using r' by simp
  qed
  have d: "mget (ms_invoicesByMemo s) (si_memo (ms_heap s r')) = Some j"
    if "mget (ms_invoices s) j = Some r'" and "si_memo (ms_heap s r') \<noteq> []" for j r'
    using that s unfolding swf_def by blast
  have d': "si_memo (ms_heap s r') \<noteq> ?m"
    if "?del" and "j \<noteq> i" and "mget (ms_invoices s) j = Some r'" and "si_memo (ms_heap s r') \<noteq> []" for j r'
    using d [OF that(3,4)] that(1,2) by auto
  let ?t = "removeEntry i (ms_heap s r) s"
  have "mwf (ms_invoices ?t)" "mwf (ms_invoicesByMemo ?t)" "mwf (ms_writtenAt ?t)" "1 \<le> ms_maxEntries ?t"
    using s by (auto simp: removeEntry_def swf_def)
  moreover have "r' < ms_next ?t \<and> si_id (ms_heap ?t r') = j"
    if "mget (ms_invoices ?t) j = Some r'" for j r'
    using that swf_refD [OF s, of j r'] by (simp add: removeEntry_def split: if_splits)
  moreover have "\<exists>r'. mget (ms_invoices ?t) j = Some r' \<and> si_memo (ms_heap ?t r') = m'"
    if "mget (ms_invoicesByMemo ?t) m' = Some j" for m' j
    using that c [of m' j] by (simp add: removeEntry_def split: if_splits)
  moreover have "mget (ms_invoicesByMemo ?t) (si_memo (ms_heap ?t r')) = Some j"
    if "mget (ms_invoices ?t) j = Some r'" and "si_memo (ms_heap ?t r') \<noteq> []" for j r'
    using that d [of j r'] d' [of j r'] by (auto simp: removeEntry_def split: if_splits)
  moreover have "(mget (ms_writtenAt ?t) j = None) = (mget (ms_invoices ?t) j = None)" for j
    using s by (simp add: removeEntry_def swf_def)
  ultimately show ?thesis unfolding swf_def by blast
qed

lemma swf_counters [simp]:
  "swf (s\<lparr>ms_evictions := n\<rparr>) = swf s" "swf (s\<lparr>ms_invalidations := n\<rparr>) = swf s"
  "swf (s\<lparr>ms_staleReads := n\<rparr>) = swf s"
  "view (s\<lparr>ms_evictions := n\<rparr>) = view s" "view (s\<lparr>ms_invalidations := n\<rparr>) = view s"
  "view (s\<lparr>ms_staleReads := n\<rparr>) = view s"
  by (simp_all add: swf_def view_def fun_eq_iff)

lemma removeEntry_frame [simp]:
  "ms_heap (removeEntry i v s) = ms_heap s" "ms_next (removeEntry i v s) = ms_next s"
  "ms_maxEntries (removeEntry i v s) = ms_maxEntries s"
  "ms_invoices (removeEntry i v s) = mdelete i (ms_invoices s)"
  by (simp_all add: removeEntry_def)

text \<open>Eviction removes oldest entries until there is room, and changes nothing else.\<close>

lemma evictIfFull_spec:
  assumes "swf s"
  shows "swf (evictIfFull s) \<and> length (ms_invoices (evictIfFull s)) < ms_maxEntries s \<and>
    ms_heap (evictIfFull s) = ms_heap s \<and> ms_next (evictIfFull s) = ms_next s \<and>
    ms_maxEntries (evictIfFull s) = ms_maxEntries s \<and>
    (\<exists>gone. ms_invoices s = gone @ ms_invoices (evictIfFull s))"
  using assms
proof (induction s rule: evictIfFull.induct)
  case (1 s)
  show ?case
  proof (cases "length (ms_invoices s) \<ge> ms_maxEntries s")
    case False
    then show ?thesis using "1.prems" by (simp add: evictIfFull.simps [of s])
  next
    case True
    have "1 \<le> ms_maxEntries s" using "1.prems" by (simp add: swf_def)
    then obtain i r rest where e: "ms_invoices s = (i, r) # rest"
      using True by (cases "ms_invoices s") auto
    let ?t = "(removeEntry i (ms_heap s r) s)\<lparr>ms_evictions := Suc (ms_evictions s)\<rparr>"
    have "mdelete i (ms_invoices s) = rest"
      using "1.prems" e mdelete_hd [of i r rest] by (simp add: swf_def)
    then have t: "ms_invoices ?t = rest" by simp
    have "swf ?t" using swf_removeEntry [OF "1.prems", of i r] e by simp
    note ih = "1.IH" [OF True e refl this]
    have "evictIfFull s = evictIfFull ?t"
      using True e by (simp add: evictIfFull.simps [of s])
    then show ?thesis using ih t e by (auto intro: exI [of _ "(i, r) # _"])
  qed
qed

lemma view_evict_le:
  assumes "swf s" and "view (evictIfFull s) j = Some i"
  shows "view s j = Some i"
proof -
  obtain gone where g: "ms_invoices s = gone @ ms_invoices (evictIfFull s)"
    and h: "ms_heap (evictIfFull s) = ms_heap s"
    using evictIfFull_spec [OF assms(1)] by blast
  have w: "mwf (ms_invoices s)" using assms(1) by (simp add: swf_def)
  obtain r where "(j, r) \<in> set (ms_invoices (evictIfFull s))" and "i = ms_heap s r"
    using assms(2) h by (auto simp: view_def dest: map_of_SomeD)
  then have "(j, r) \<in> set (ms_invoices s)" using g by (metis Un_iff set_append)
  then show ?thesis using mget_values [OF w] \<open>i = ms_heap s r\<close> by (simp add: view_def)
qed

subsection \<open>Writing an entry\<close>

definition put_entry :: "ref \<Rightarrow> int \<Rightarrow> memory_storage \<Rightarrow> memory_storage" where
  "put_entry r clock s =
     (let invoice = ms_heap s r in
      s\<lparr>ms_invoices := mset_kv (si_id invoice) r (ms_invoices s),
        ms_invoicesByMemo := mset_kv (si_memo invoice) (si_id invoice) (ms_invoicesByMemo s),
        ms_writtenAt := mset_kv (si_id invoice) clock (ms_writtenAt s)\<rparr>)"

lemma put_entry_simps:
  "ms_invoices (put_entry r clock s) = mset_kv (si_id (ms_heap s r)) r (ms_invoices s)"
  "ms_invoicesByMemo (put_entry r clock s) =
     mset_kv (si_memo (ms_heap s r)) (si_id (ms_heap s r)) (ms_invoicesByMemo s)"
  "ms_writtenAt (put_entry r clock s) = mset_kv (si_id (ms_heap s r)) clock (ms_writtenAt s)"
  "ms_heap (put_entry r clock s) = ms_heap s" "ms_next (put_entry r clock s) = ms_next s"
  "ms_maxEntries (put_entry r clock s) = ms_maxEntries s"
  by (simp_all add: put_entry_def Let_def)

lemma swf_put_entry:
  assumes but: "swf_but (si_id (ms_heap s r)) (si_memo (ms_heap s r)) s" and r: "r < ms_next s"
    and free: "si_memo (ms_heap s r) = [] \<or> mget (ms_invoicesByMemo s) (si_memo (ms_heap s r)) = None \<or>
         mget (ms_invoicesByMemo s) (si_memo (ms_heap s r)) = Some (si_id (ms_heap s r))"
  shows "swf (put_entry r clock s)"
proof -
  let ?i = "si_id (ms_heap s r)"
  let ?m = "si_memo (ms_heap s r)"
  let ?s = "put_entry r clock s"
  have "r' < ms_next ?s \<and> si_id (ms_heap ?s r') = j" if "mget (ms_invoices ?s) j = Some r'" for j r'
    using that but r unfolding swf_but_def put_entry_simps by (cases "j = ?i") auto
  moreover have "\<exists>r'. mget (ms_invoices ?s) j = Some r' \<and> si_memo (ms_heap ?s r') = m'"
    if "mget (ms_invoicesByMemo ?s) m' = Some j" for m' j
  proof (cases "m' = ?m")
    case True
    then show ?thesis using that by (simp add: put_entry_simps)
  next
    case False
    then have "mget (ms_invoicesByMemo s) m' = Some j" using that by (simp add: put_entry_simps)
    then have "j \<noteq> ?i \<and> (\<exists>r. mget (ms_invoices s) j = Some r \<and> si_memo (ms_heap s r) = m')"
      using but False unfolding swf_but_def by blast
    then show ?thesis by (simp add: put_entry_simps)
  qed
  moreover have "mget (ms_invoicesByMemo ?s) (si_memo (ms_heap ?s r')) = Some j"
    if g: "mget (ms_invoices ?s) j = Some r'" and ne: "si_memo (ms_heap ?s r') \<noteq> []" for j r'
  proof (cases "j = ?i")
    case True
    then show ?thesis using g by (simp add: put_entry_simps)
  next
    case False
    then have g': "mget (ms_invoices s) j = Some r'" using g by (simp add: put_entry_simps)
    then have k: "mget (ms_invoicesByMemo s) (si_memo (ms_heap s r')) = Some j"
      using but False ne unfolding swf_but_def put_entry_simps by blast
    then have "si_memo (ms_heap s r') \<noteq> ?m" using free ne False by (auto simp: put_entry_simps)
    then show ?thesis using k by (simp add: put_entry_simps)
  qed
  moreover have "(mget (ms_writtenAt ?s) j = None) = (mget (ms_invoices ?s) j = None)" for j
    using but unfolding swf_but_def put_entry_simps by (cases "j = ?i") auto
  moreover have "mwf (ms_invoices ?s)" "mwf (ms_invoicesByMemo ?s)" "mwf (ms_writtenAt ?s)"
    "1 \<le> ms_maxEntries ?s"
    using but unfolding swf_but_def put_entry_simps by auto
  ultimately show ?thesis unfolding swf_def by blast
qed

lemma view_put_entry: "view (put_entry r clock s) = (view s)(si_id (ms_heap s r) := Some (ms_heap s r))"
  by (auto simp: view_def put_entry_def Let_def)

lemma swf_imp_but: "swf s \<Longrightarrow> mget (ms_invoices s) i = None \<Longrightarrow> swf_but i m s"
  unfolding swf_def swf_but_def by (simp, metis option.distinct(1))

lemma swf_heap_cong:
  assumes "swf s" and "ms_next s \<le> n"
    and "\<And>j r. mget (ms_invoices s) j = Some r \<Longrightarrow> si_id (h r) = si_id (ms_heap s r) \<and> si_memo (h r) = si_memo (ms_heap s r)"
  shows "swf (s\<lparr>ms_heap := h, ms_next := n\<rparr>)"
proof -
  have "r < n \<and> si_id (h r) = j" if "mget (ms_invoices s) j = Some r" for j r
    using swf_refD [OF assms(1) that] assms(2,3) that by fastforce
  moreover have "\<exists>r. mget (ms_invoices s) j = Some r \<and> si_memo (h r) = m"
    if "mget (ms_invoicesByMemo s) m = Some j" for m j
    using assms(1,3) that unfolding swf_def by fastforce
  moreover have "mget (ms_invoicesByMemo s) (si_memo (h r)) = Some j"
    if "mget (ms_invoices s) j = Some r" and "si_memo (h r) \<noteq> []" for j r
    using assms(1,3) that unfolding swf_def by fastforce
  ultimately show ?thesis using assms(1) unfolding swf_def by simp
qed

lemma swf_alloc: "swf s \<Longrightarrow> swf (snd (alloc i s))"
  unfolding alloc_def snd_conv by (rule swf_heap_cong) (auto dest: swf_refD)

lemma view_alloc: "swf s \<Longrightarrow> view (snd (alloc i s)) = view s"
  by (rule ext) (auto simp: view_def alloc_def dest: swf_refD split: option.split intro!: map_option_cong)

lemma alloc_simps [simp]:
  "ms_heap (snd (alloc i s)) (fst (alloc i s)) = i" "fst (alloc i s) = ms_next s"
  "ms_next (snd (alloc i s)) = Suc (ms_next s)"
  "ms_invoices (snd (alloc i s)) = ms_invoices s"
  "ms_invoicesByMemo (snd (alloc i s)) = ms_invoicesByMemo s"
  "ms_writtenAt (snd (alloc i s)) = ms_writtenAt s"
  "ms_maxEntries (snd (alloc i s)) = ms_maxEntries s"
  by (simp_all add: alloc_def)

text \<open>\<open>setEntry\<close> on a new id makes room first; on a present id it replaces the entry.\<close>

lemma setEntry_fresh:
  "mget (ms_invoices s) (si_id (ms_heap s r)) = None \<Longrightarrow> swf s \<Longrightarrow>
     setEntry r clock s = put_entry r clock (evictIfFull s)"
  using evictIfFull_spec [of s] by (simp add: setEntry_def put_entry_def Let_def)

lemma setEntry_present:
  "mget (ms_invoices s) (si_id (ms_heap s r)) \<noteq> None \<Longrightarrow>
     setEntry r clock s = put_entry r clock (s\<lparr>ms_invoices := mdelete (si_id (ms_heap s r)) (ms_invoices s)\<rparr>)"
  by (auto simp: setEntry_def put_entry_def Let_def)

lemma evict_lookup_le:
  assumes "swf s" and "mget (ms_invoices s) i = None"
  shows "mget (ms_invoices (evictIfFull s)) i = None"
proof -
  obtain gone where "ms_invoices s = gone @ ms_invoices (evictIfFull s)"
    using evictIfFull_spec [OF assms(1)] by blast
  then show ?thesis
    using assms(2) by (metis Un_iff image_Un map_of_eq_None_iff set_append)
qed

lemma swf_memoD:
  "swf s \<Longrightarrow> mget (ms_invoicesByMemo s) m = Some j \<Longrightarrow> \<exists>i. view s j = Some i \<and> si_memo i = m"
  unfolding swf_def view_def by fastforce

lemma swf_memo_index:
  "swf s \<Longrightarrow> mget (ms_invoices s) j = Some r \<Longrightarrow> si_memo (ms_heap s r) \<noteq> [] \<Longrightarrow>
     mget (ms_invoicesByMemo s) (si_memo (ms_heap s r)) = Some j"
  unfolding swf_def by blast

lemma evict_memo_le:
  assumes s: "swf s" and none: "mget (ms_invoicesByMemo s) m = None" and m: "m \<noteq> []"
  shows "mget (ms_invoicesByMemo (evictIfFull s)) m = None"
proof (rule ccontr)
  have e: "swf (evictIfFull s)" using evictIfFull_spec [OF s] by blast
  assume "mget (ms_invoicesByMemo (evictIfFull s)) m \<noteq> None"
  then obtain j i where "view (evictIfFull s) j = Some i" and i: "si_memo i = m"
    using swf_memoD [OF e] by blast
  then have "view s j = Some i" by (intro view_evict_le [OF s])
  then obtain r where r: "mget (ms_invoices s) j = Some r" "i = ms_heap s r"
    by (auto simp: view_def)
  then have "mget (ms_invoicesByMemo s) m = Some j"
    using s i m unfolding swf_def by blast
  then show False using none by simp
qed

lemma setEntry_new:
  assumes s: "swf s" and r: "r < ms_next s"
    and i: "mget (ms_invoices s) (si_id (ms_heap s r)) = None"
    and m: "si_memo (ms_heap s r) = [] \<or> mget (ms_invoicesByMemo s) (si_memo (ms_heap s r)) = None"
  shows "swf (setEntry r clock s) \<and> bounded (setEntry r clock s) \<and>
    view (setEntry r clock s) = (view (evictIfFull s))(si_id (ms_heap s r) := Some (ms_heap s r))"
proof -
  let ?e = "evictIfFull s"
  have es: "swf ?e" and len: "length (ms_invoices ?e) < ms_maxEntries s"
    and h: "ms_heap ?e = ms_heap s" and n: "ms_next ?e = ms_next s"
    and mx: "ms_maxEntries ?e = ms_maxEntries s"
    using evictIfFull_spec [OF s] by blast+
  have i': "mget (ms_invoices ?e) (si_id (ms_heap s r)) = None" by (rule evict_lookup_le [OF s i])
  have but: "swf_but (si_id (ms_heap s r)) (si_memo (ms_heap s r)) ?e"
    by (rule swf_imp_but [OF es i'])
  have "si_memo (ms_heap s r) = [] \<or> mget (ms_invoicesByMemo ?e) (si_memo (ms_heap s r)) = None"
    using m evict_memo_le [OF s, of "si_memo (ms_heap s r)"] by metis
  then have free: "si_memo (ms_heap s r) = [] \<or> mget (ms_invoicesByMemo ?e) (si_memo (ms_heap s r)) = None \<or>
      mget (ms_invoicesByMemo ?e) (si_memo (ms_heap s r)) = Some (si_id (ms_heap s r))"
    by blast
  have "swf (put_entry r clock ?e)"
    by (rule swf_put_entry [of ?e r clock, unfolded h n, OF but r free])
  moreover have "bounded (put_entry r clock ?e)"
    using len i' by (simp add: bounded_def put_entry_simps h mx length_mset_kv)
  ultimately show ?thesis
    using setEntry_fresh [OF i s] by (simp add: view_put_entry h)
qed

lemma swf_but_delete:
  assumes "swf s"
    and "\<And>m' j. mget mm m' = Some j \<Longrightarrow> mget (ms_invoicesByMemo s) m' = Some j \<and> (j = i \<longrightarrow> m' = m)"
    and "\<And>j r. j \<noteq> i \<Longrightarrow> mget (ms_invoices s) j = Some r \<Longrightarrow> si_memo (ms_heap s r) \<noteq> [] \<Longrightarrow>
           mget mm (si_memo (ms_heap s r)) = Some j"
    and "mwf mm"
  shows "swf_but i m (s\<lparr>ms_invoices := mdelete i (ms_invoices s), ms_invoicesByMemo := mm\<rparr>)"
proof -
  have "\<exists>r. mget (ms_invoices s) j = Some r \<and> si_memo (ms_heap s r) = m'"
    if "mget mm m' = Some j" for m' j
    using assms(1,2) that unfolding swf_def by blast
  then show ?thesis
    using assms unfolding swf_def swf_but_def by (auto split: if_splits)
qed

lemma setEntry_replace:
  assumes s: "swf s" and r0: "mget (ms_invoices s) i = Some r0"
    and u: "si_id u = i" "si_memo u = si_memo (ms_heap s r0)"
  shows "swf (setEntry (ms_next s) clock (snd (alloc u s))) \<and>
    view (setEntry (ms_next s) clock (snd (alloc u s))) = (view s)(i := Some u) \<and>
    length (ms_invoices (setEntry (ms_next s) clock (snd (alloc u s)))) = length (ms_invoices s) \<and>
    ms_maxEntries (setEntry (ms_next s) clock (snd (alloc u s))) = ms_maxEntries s"
proof -
  define t where "t = snd (alloc u s)"
  have hu: "ms_heap t (ms_next s) = u" and tn: "ms_next t = Suc (ms_next s)"
    and ti: "ms_invoices t = ms_invoices s" and tm: "ms_maxEntries t = ms_maxEntries s"
    by (simp_all add: t_def alloc_def)
  have st: "swf t" unfolding t_def by (rule swf_alloc [OF s])
  have r0t: "mget (ms_invoices t) i = Some r0" "ms_heap t r0 = ms_heap s r0"
    using r0 swf_refD [OF s r0] by (auto simp: t_def alloc_def)
  let ?d = "t\<lparr>ms_invoices := mdelete i (ms_invoices t), ms_invoicesByMemo := ms_invoicesByMemo t\<rparr>"
  have eq: "setEntry (ms_next s) clock t = put_entry (ms_next s) clock ?d"
    using setEntry_present [of t "ms_next s" clock] r0t by (simp add: hu u(1))
  have hd: "ms_heap ?d (ms_next s) = u" using hu by simp
  have "swf_but i (si_memo u) ?d"
  proof (rule swf_but_delete [OF st])
    fix m' j assume g: "mget (ms_invoicesByMemo t) m' = Some j"
    then obtain v where "view t j = Some v" "si_memo v = m'" using swf_memoD [OF st] by blast
    then show "mget (ms_invoicesByMemo t) m' = Some j \<and> (j = i \<longrightarrow> m' = si_memo u)"
      using g r0t u by (auto simp: view_def)
  qed (use st in \<open>auto simp: swf_def\<close>)
  moreover have "si_memo u = [] \<or> mget (ms_invoicesByMemo t) (si_memo u) = Some i"
    using swf_memo_index [OF st r0t(1)] r0t(2) u(2) by metis
  ultimately have w: "swf (put_entry (ms_next s) clock ?d)"
    by (intro swf_put_entry) (auto simp: hu u(1) tn)
  have "view t = view s" unfolding t_def by (rule view_alloc [OF s])
  then have "view (put_entry (ms_next s) clock ?d) = (view s)(i := Some u)"
    unfolding view_put_entry hd u(1) by (auto simp: view_def fun_eq_iff)
  moreover have "length (ms_invoices (put_entry (ms_next s) clock ?d)) = length (ms_invoices s)"
  proof -
    have "mwf (ms_invoices s)" using s by (simp add: swf_def)
    then show ?thesis
      using length_mdelete_mwf [OF _ r0] by (simp add: put_entry_simps hd u(1) hu ti length_mset_kv)
  qed
  ultimately show ?thesis using w eq tm unfolding t_def by (simp add: put_entry_simps)
qed

subsection \<open>The expiry sweep\<close>

definition expire :: "int \<Rightarrow> stored_invoice \<Rightarrow> stored_invoice" where
  "expire now i = (if overdue now i then i\<lparr>si_status := EXPIRED\<rparr> else i)"

lemma expire_refs_Cons:
  "expire_refs now (r # rs) h =
     (let e = expire_refs now rs (h(r := expire now (h r))) in
      ((if overdue now (h r) then Suc (fst e) else fst e), snd e))"
  by (simp add: expire_def case_prod_beta Let_def del: overdue_iff)

lemma expire_idem [simp]: "expire now (expire now i) = expire now i"
  by (simp add: expire_def)

lemma expire_refs_heap:
  "snd (expire_refs now rs h) r = (if r \<in> set rs then expire now (h r) else h r)"
  by (induction rs arbitrary: h) (auto simp: expire_refs_Cons Let_def simp del: expire_refs.simps(2))

lemma expire_refs_count:
  "distinct rs \<Longrightarrow> fst (expire_refs now rs h) = length (filter (\<lambda>r. overdue now (h r)) rs)"
proof (induction rs arbitrary: h)
  case (Cons r rs)
  have "filter (\<lambda>q. overdue now ((h(r := x)) q)) rs = filter (\<lambda>q. overdue now (h q)) rs" for x
    using Cons.prems by (intro filter_cong) auto
  then show ?case
    using Cons by (simp add: expire_refs_Cons Let_def del: overdue_iff expire_refs.simps(2))
qed simp

lemma markExpiredInvoices_eq:
  "markExpiredInvoices now s =
     (fst (expire_refs now (map snd (ms_invoices s)) (ms_heap s)),
      s\<lparr>ms_heap := snd (expire_refs now (map snd (ms_invoices s)) (ms_heap s))\<rparr>)"
  by (simp add: markExpiredInvoices_def case_prod_beta Let_def)

lemma sweep_frame [simp]:
  "ms_invoices (sweep now s) = ms_invoices s" "ms_invoicesByMemo (sweep now s) = ms_invoicesByMemo s"
  "ms_writtenAt (sweep now s) = ms_writtenAt s" "ms_next (sweep now s) = ms_next s"
  "ms_maxEntries (sweep now s) = ms_maxEntries s" "bounded (sweep now s) = bounded s"
  by (simp_all add: markExpiredInvoices_eq bounded_def)

lemma sweep_heap:
  "ms_heap (sweep now s) r = (if r \<in> snd ` set (ms_invoices s) then expire now (ms_heap s r) else ms_heap s r)"
  using expire_refs_heap [of now "map snd (ms_invoices s)" "ms_heap s" r]
  by (simp add: markExpiredInvoices_eq)

lemma view_sweep: "view (sweep now s) j = map_option (expire now) (view s j)"
  by (cases "mget (ms_invoices s) j")
    (auto simp: view_def sweep_heap dest: map_of_SomeD intro: rev_image_eqI)

lemma expire_same [simp]:
  "si_id (expire now i) = si_id i" "si_memo (expire now i) = si_memo i"
  "si_paymentTxHash (expire now i) = si_paymentTxHash i" "si_version (expire now i) = si_version i"
  by (simp_all add: expire_def)

lemma swf_sweep: "swf s \<Longrightarrow> swf (sweep now s)"
proof -
  assume s: "swf s"
  have "sweep now s = s\<lparr>ms_heap := ms_heap (sweep now s), ms_next := ms_next s\<rparr>"
    by (simp add: markExpiredInvoices_eq)
  moreover have "swf (s\<lparr>ms_heap := ms_heap (sweep now s), ms_next := ms_next s\<rparr>)"
    by (rule swf_heap_cong [OF s]) (auto simp: sweep_heap)
  ultimately show ?thesis by metis
qed

lemma readEntry_frame [simp]: "view (snd (readEntry i c s)) = view s" "swf (snd (readEntry i c s)) = swf s"
  "bounded (snd (readEntry i c s)) = bounded s"
  by (auto simp: readEntry_def bounded_def split: option.split)

subsection \<open>Updates\<close>

definition keeps_identity :: "(stored_invoice \<Rightarrow> stored_invoice) \<Rightarrow> bool" where
  "keeps_identity f \<longleftrightarrow> (\<forall>i. si_id (f i) = si_id i \<and> si_memo (f i) = si_memo i)"

lemma keeps_identity_paid [simp]: "keeps_identity (paid_fields tx p info t)"
  by (simp add: keeps_identity_def paid_fields_def)

lemma keeps_identity_cancel [simp]: "keeps_identity (\<lambda>i. i\<lparr>si_status := CANCELLED\<rparr>)"
  by (simp add: keeps_identity_def)

definition bumped :: "(stored_invoice \<Rightarrow> stored_invoice) \<Rightarrow> stored_invoice \<Rightarrow> stored_invoice" where
  "bumped f i = (f i)\<lparr>si_version := Some (version_of i + 1)\<rparr>"

text \<open>An update either refuses and leaves the state alone, or replaces one invoice by its new version.\<close>

lemma ms_updateInvoice_cases:
  assumes s: "swf s" and f: "keeps_identity f"
  obtains (refused) res where "ms_updateInvoice iid f v clock s = (res, s)"
      and "(\<exists>e. res = Inl e) \<or> (res = Inr None \<and> view s iid = None)"
  | (updated) r s' i where "ms_updateInvoice iid f v clock s = (Inr (Some r), s')"
      and "view s iid = Some i" and "checkVersion v (Num (of_int (version_of i))) = Inr ()"
      and "swf s'" and "bounded s' = bounded s" and "view s' = (view s)(iid \<mapsto> bumped f i)"
      and "ms_heap s' r = bumped f i" and "mget (ms_invoices s') iid = Some r"
proof (cases "mget (ms_invoices s) iid")
  case None
  then show ?thesis by (intro refused [of "Inr None"]) (auto simp: ms_updateInvoice_def view_def)
next
  case (Some r0)
  let ?i = "ms_heap s r0"
  show ?thesis
  proof (cases "checkVersion v (Num (of_int (version_of ?i)))")
    case (Inl e)
    then show ?thesis
      using Some by (intro refused [of "Inl (VersionError e)"]) (auto simp: ms_updateInvoice_def)
  next
    case (Inr u)
    let ?u = "bumped f ?i"
    let ?s' = "setEntry (ms_next s) clock (snd (alloc ?u s))"
    have u: "si_id ?u = iid" "si_memo ?u = si_memo ?i"
      using f swf_refD [OF s Some] by (simp_all add: bumped_def keeps_identity_def)
    note rep = setEntry_replace [OF s Some u, of clock]
    have res: "ms_updateInvoice iid f v clock s = (Inr (Some (ms_next s)), ?s')"
      using Some Inr u by (simp add: ms_updateInvoice_def bumped_def [symmetric] split: prod.split)
        (metis alloc_simps(2) fst_conv snd_conv)
    have pres: "mget (ms_invoices (snd (alloc ?u s))) (si_id (ms_heap (snd (alloc ?u s)) (ms_next s))) \<noteq> None"
      using Some u by (simp add: alloc_def)
    have hp: "ms_heap ?s' (ms_next s) = ?u" "mget (ms_invoices ?s') iid = Some (ms_next s)"
      unfolding setEntry_present [OF pres] using u by (simp_all add: put_entry_simps alloc_def)
    show ?thesis
      by (rule updated [OF res, of ?i]) (use rep Some Inr hp in \<open>auto simp: view_def bounded_def\<close>)
  qed
qed

subsection \<open>The operations on the abstract map\<close>

text \<open>
  The table implements a finite map from ids to invoices: \<open>view\<close>. The specifications below
  say on that map what the operations do; a full table forgets its oldest entries on a
  creation, everything else is exact.
\<close>

definition swept :: "int \<Rightarrow> (string \<rightharpoonup> stored_invoice) \<Rightarrow> (string \<rightharpoonup> stored_invoice)" where
  "swept now m = map_option (expire now) \<circ> m"

lemma view_swept: "view (sweep now s) = swept now (view s)"
  by (simp add: fun_eq_iff view_sweep swept_def)

definition settles :: "string \<Rightarrow> stored_invoice \<Rightarrow> bool" where
  "settles h i \<longleftrightarrow> h \<noteq> [] \<and> si_paymentTxHash i = Some h"

definition pay_spec ::
  "string \<Rightarrow> string \<Rightarrow> (stored_invoice \<Rightarrow> stored_invoice) \<Rightarrow> jsnum option \<Rightarrow> int \<Rightarrow>
   (string \<rightharpoonup> stored_invoice) \<Rightarrow> (storage_error, stored_invoice option) result \<times> (string \<rightharpoonup> stored_invoice)" where
  "pay_spec iid txHash paid expectedVersion check m =
     (case m iid of
        None \<Rightarrow> (Inr None, m)
      | Some i \<Rightarrow>
          if si_status i \<noteq> PENDING \<or> si_expiresAt i \<le> check then (Inr None, m)
          else if \<exists>j k. j \<noteq> iid \<and> m j = Some k \<and> settles txHash k then (Inl (DuplicateTxHash txHash), m)
          else (case checkVersion expectedVersion (Num (of_int (version_of i))) of
                  Inl e \<Rightarrow> (Inl (VersionError e), m)
                | Inr _ \<Rightarrow> (Inr (Some (bumped paid i)), m(iid \<mapsto> bumped paid i))))"

lemma tx_hash_taken_iff:
  assumes "swf s"
  shows "tx_hash_taken iid h s \<longleftrightarrow> (\<exists>j k. j \<noteq> iid \<and> view s j = Some k \<and> settles h k)"
proof -
  have w: "mwf (ms_invoices s)" using assms by (simp add: swf_def)
  have "tx_hash_taken iid h s \<longleftrightarrow>
      (\<exists>j r. (j, r) \<in> set (ms_invoices s) \<and> si_id (ms_heap s r) \<noteq> iid \<and> settles h (ms_heap s r))"
    unfolding tx_hash_taken_def list_ex_iff settles_def truthy_iff set_map Bex_def by fastforce
  also have "\<dots> \<longleftrightarrow> (\<exists>j r. mget (ms_invoices s) j = Some r \<and> j \<noteq> iid \<and> settles h (ms_heap s r))"
    using mget_values [OF w] swf_refD [OF assms] by metis
  finally show ?thesis by (auto simp: view_def)
qed

lemma ms_updateInvoice_Some:
  assumes s: "swf s" and f: "keeps_identity f" and i: "view s iid = Some i"
    and c: "checkVersion v (Num (of_int (version_of i))) = Inr ()"
  obtains r s' where "ms_updateInvoice iid f v clock s = (Inr (Some r), s')"
    and "swf s'" and "bounded s' = bounded s" and "view s' = (view s)(iid \<mapsto> bumped f i)"
    and "ms_heap s' r = bumped f i" and "mget (ms_invoices s') iid = Some r"
proof (rule ms_updateInvoice_cases [OF s f, of iid v clock])
  fix res
  assume "ms_updateInvoice iid f v clock s = (res, s)"
    and "(\<exists>e. res = Inl e) \<or> (res = Inr None \<and> view s iid = None)"
  moreover from i obtain r0 where "mget (ms_invoices s) iid = Some r0" "i = ms_heap s r0"
    by (auto simp: view_def)
  moreover have "si_memo (bumped f i) = si_memo i" using f by (simp add: bumped_def keeps_identity_def)
  ultimately have False
    using c by (auto simp: ms_updateInvoice_def bumped_def [symmetric] alloc_def)
  then show thesis ..
next
  fix r s' i'
  assume "ms_updateInvoice iid f v clock s = (Inr (Some r), s')" "view s iid = Some i'" "swf s'"
    "bounded s' = bounded s" "view s' = (view s)(iid \<mapsto> bumped f i')" "ms_heap s' r = bumped f i'"
    "mget (ms_invoices s') iid = Some r"
  then show thesis using that i by simp
qed

lemma ms_updateInvoice_conflict:
  "view s iid = Some i \<Longrightarrow> checkVersion v (Num (of_int (version_of i))) = Inl e \<Longrightarrow>
     ms_updateInvoice iid f v clock s = (Inl (VersionError e), s)"
  by (auto simp: ms_updateInvoice_def view_def)

definition abs_result :: "memory_storage \<Rightarrow> ('e, ref option) result \<Rightarrow> ('e, stored_invoice option) result" where
  "abs_result s = map_sum (\<lambda>e. e) (map_option (ms_heap s))"

lemma abs_result_simps [simp]:
  "abs_result s (Inl e) = Inl e" "abs_result s (Inr x) = Inr (map_option (ms_heap s) x)"
  by (simp_all add: abs_result_def)

text \<open>Everything \<open>markAsPaid\<close> does, on every branch.\<close>

lemma ms_markAsPaid_spec:
  fixes iid txHash payer info v t s
  defines "run \<equiv> ms_markAsPaid iid txHash payer info v t s"
  assumes s: "swf s"
  shows "swf (snd run) \<and> bounded (snd run) = bounded s \<and>
    (abs_result (snd run) (fst run), view (snd run)) =
      pay_spec iid txHash (paid_fields txHash payer info (t_stamp t)) v (t_check t) (swept (t_sweep t) (view s))"
proof -
  let ?s = "sweep (t_sweep t) s" and ?p = "paid_fields txHash payer info (t_stamp t)"
  have w: "swf ?s" by (rule swf_sweep [OF s])
  note tx = tx_hash_taken_iff [OF w, of iid txHash]
  show ?thesis
  proof (cases "mget (ms_invoices s) iid")
    case None
    then have "view ?s iid = None" by (simp add: view_def)
    then show ?thesis
      using None w by (simp add: run_def ms_markAsPaid_def pay_spec_def view_swept [symmetric])
  next
    case (Some r)
    let ?i = "ms_heap ?s r"
    have v: "view ?s iid = Some ?i" using Some by (simp add: view_def)
    let ?skip = "si_status ?i \<noteq> PENDING \<or> si_expiresAt ?i \<le> t_check t \<or> tx_hash_taken iid txHash ?s"
    show ?thesis
    proof (cases ?skip)
      case True
      then show ?thesis
        using Some w v tx
        by (auto simp: run_def ms_markAsPaid_def pay_spec_def view_swept [symmetric] Let_def)
    next
      case False
      then have r: "run = ms_updateInvoice iid ?p v (t_clock t) ?s"
        using Some by (simp add: run_def ms_markAsPaid_def Let_def)
      show ?thesis
      proof (cases "checkVersion v (Num (of_int (version_of ?i)))")
        case (Inl e)
        then show ?thesis
          using False tx v w ms_updateInvoice_conflict [OF v Inl]
          by (simp add: r pay_spec_def view_swept [symmetric])
      next
        case (Inr u)
        then have c: "checkVersion v (Num (of_int (version_of ?i))) = Inr ()" by simp
        obtain q s' where q: "ms_updateInvoice iid ?p v (t_clock t) ?s = (Inr (Some q), s')" "swf s'"
            "bounded s' = bounded ?s" "view s' = (view ?s)(iid \<mapsto> bumped ?p ?i)" "ms_heap s' q = bumped ?p ?i"
          using ms_updateInvoice_Some [OF w keeps_identity_paid v c, of txHash payer info "t_stamp t" "t_clock t"]
          by metis
        then show ?thesis
          using False tx v c by (simp add: r pay_spec_def view_swept [symmetric])
      qed
    qed
  qed
qed

lemma ms_createInvoice_refused:
  "ms_createInvoice data uuid created later clock s = (Inl e, s') \<Longrightarrow> s' = s"
  by (auto simp: ms_createInvoice_def Let_def alloc_def split: if_splits)

lemma ms_createInvoice_spec:
  assumes s: "swf s" and run: "ms_createInvoice data uuid created later clock s = (Inr r, s')"
  defines "iid \<equiv> or_else (cd_id data) uuid"
  shows "swf s' \<and> bounded s' \<and> view s iid = None \<and>
    ms_heap s' r = new_invoice data iid created later \<and> mget (ms_invoices s') iid = Some r \<and>
    (\<exists>kept. kept \<subseteq>\<^sub>m view s \<and> view s' = kept(iid \<mapsto> new_invoice data iid created later))"
proof -
  let ?i = "new_invoice data iid created later"
  define t where "t = snd (alloc ?i s)"
  have ok: "mget (ms_invoices s) iid = None" "cd_memo data = [] \<or> mget (ms_invoicesByMemo s) (cd_memo data) = None"
    and r: "r = ms_next s" and s': "s' = setEntry (ms_next s) clock t"
    using run by (auto simp: ms_createInvoice_def iid_def t_def alloc_def Let_def split: if_splits)
  have t: "swf t" "view t = view s" "ms_heap t r = ?i" "r < ms_next t"
      "ms_invoices t = ms_invoices s" "ms_invoicesByMemo t = ms_invoicesByMemo s"
    using swf_alloc [OF s] view_alloc [OF s] by (simp_all add: t_def r alloc_def)
  have i: "si_id ?i = iid" "si_memo ?i = cd_memo data" by (simp_all add: new_invoice_def)
  note new = setEntry_new [OF t(1,4), unfolded t i, OF ok, of clock]
  have "view (evictIfFull t) \<subseteq>\<^sub>m view s"
    using view_evict_le [OF t(1)] t(2) by (auto simp: map_le_def dom_def)
  moreover have "ms_heap s' r = ?i" "mget (ms_invoices s') iid = Some r"
    using setEntry_fresh [of t r clock] t i ok evictIfFull_spec [OF t(1)]
    by (simp_all add: s' r put_entry_simps)
  ultimately show ?thesis using new ok(1) t s' r by (auto simp: view_def [of s])
qed

lemma ms_getInvoiceById_spec:
  assumes "swf s"
  shows "swf (snd (ms_getInvoiceById iid now clock s))"
    and "bounded (snd (ms_getInvoiceById iid now clock s)) = bounded s"
    and "view (snd (ms_getInvoiceById iid now clock s)) = swept now (view s)"
    and "map_option (ms_heap (snd (ms_getInvoiceById iid now clock s)))
           (fst (ms_getInvoiceById iid now clock s)) = swept now (view s) iid"
    and "fst (ms_getInvoiceById iid now clock s) = mget (ms_invoices s) iid"
  using swf_sweep [OF assms]
  by (simp_all add: ms_getInvoiceById_def view_swept)
    (auto simp: readEntry_def view_def swept_def sweep_heap dest: map_of_SomeD intro: rev_image_eqI split: option.split)

lemma ms_invalidate_spec:
  assumes "swf s"
  shows "swf (snd (ms_invalidate iid s)) \<and> view (snd (ms_invalidate iid s)) = (view s)(iid := None) \<and>
    (bounded s \<longrightarrow> bounded (snd (ms_invalidate iid s)))"
  using assms swf_removeEntry [OF assms] length_mdelete_le [of iid "ms_invoices s"]
  by (auto simp: ms_invalidate_def view_removeEntry bounded_def view_def [of s iid] split: option.split)

lemma ms_clear_spec: "swf s \<Longrightarrow> swf (ms_clear s) \<and> bounded (ms_clear s) \<and> view (ms_clear s) = Map.empty"
  by (auto simp: swf_def ms_clear_def bounded_def view_def)

end
