(* ===== verification/Invoice_Lifecycle.thy ===== *)
theory Invoice_Lifecycle
  imports Storage_Lemmas
begin

text \<open>
  What may happen to a stored invoice: it keeps its terms, leaves PENDING at most once, and a
  transaction hash settles at most one stored invoice. The relations are stated on the abstract
  map of the table, and every operation of the table is shown to respect them.
\<close>

definition same_terms :: "stored_invoice \<Rightarrow> stored_invoice \<Rightarrow> bool" where
  "same_terms i i' \<longleftrightarrow>
     si_id i' = si_id i \<and> si_sellerPublicKey i' = si_sellerPublicKey i \<and> si_amount i' = si_amount i \<and>
     si_assetCode i' = si_assetCode i \<and> si_assetIssuer i' = si_assetIssuer i \<and> si_memo i' = si_memo i \<and>
     si_createdAt i' = si_createdAt i \<and> si_expiresAt i' = si_expiresAt i"

definition lifecycle :: "stored_invoice \<Rightarrow> stored_invoice \<Rightarrow> bool" where
  "lifecycle i i' \<longleftrightarrow> i' = i \<or>
     (si_status i = PENDING \<and> same_terms i i' \<and>
      ((si_status i' = EXPIRED \<and> i' = i\<lparr>si_status := EXPIRED\<rparr>) \<or>
       (si_status i' = CANCELLED \<and> si_paymentTxHash i' = si_paymentTxHash i \<and>
          si_version i' = Some (version_of i + 1)) \<or>
       (si_status i' = PAID \<and> si_paymentTxHash i' \<noteq> None \<and> si_paidAt i' \<noteq> None \<and>
          si_version i' = Some (version_of i + 1))))"

lemma lifecycle_refl [simp]: "lifecycle i i"
  by (simp add: lifecycle_def)

lemma lifecycle_trans: "lifecycle i j \<Longrightarrow> lifecycle j k \<Longrightarrow> lifecycle i k"
  unfolding lifecycle_def by (elim disjE conjE) auto

lemma lifecycle_expire [simp]: "lifecycle i (expire now i)"
  by (simp add: lifecycle_def expire_def same_terms_def)

lemma lifecycle_paid: "si_status i = PENDING \<Longrightarrow> lifecycle i (bumped (paid_fields tx p info t) i)"
  by (simp add: lifecycle_def bumped_def paid_fields_def same_terms_def)

abbreviation cancelled :: "stored_invoice \<Rightarrow> stored_invoice" where
  "cancelled i \<equiv> i\<lparr>si_status := CANCELLED\<rparr>"

lemma lifecycle_cancelled: "si_status i = PENDING \<Longrightarrow> lifecycle i (bumped cancelled i)"
  by (simp add: lifecycle_def bumped_def same_terms_def)

subsection \<open>Evolution of the table\<close>

type_synonym table = "string \<Rightarrow> stored_invoice option"

definition evolves :: "table \<Rightarrow> table \<Rightarrow> bool" where
  "evolves m m' \<longleftrightarrow> (\<forall>j i'. m' j = Some i' \<longrightarrow> (\<exists>i. m j = Some i \<and> lifecycle i i'))"

definition tx_unique :: "table \<Rightarrow> bool" where
  "tx_unique m \<longleftrightarrow> (\<forall>j k a b h. m j = Some a \<longrightarrow> m k = Some b \<longrightarrow> settles h a \<longrightarrow> settles h b \<longrightarrow> j = k)"

lemma evolves_refl [simp]: "evolves m m"
  by (auto simp: evolves_def)

lemma evolves_trans: "evolves m n \<Longrightarrow> evolves n p \<Longrightarrow> evolves m p"
  unfolding evolves_def using lifecycle_trans by meson

lemma evolves_le: "n \<subseteq>\<^sub>m m \<Longrightarrow> evolves m n"
  unfolding evolves_def map_le_def by (metis domI lifecycle_refl)

lemma evolves_swept [simp]: "evolves m (swept t m)"
  by (auto simp: evolves_def swept_def)

lemma evolves_upd: "m j = Some i \<Longrightarrow> lifecycle i i' \<Longrightarrow> evolves m (m(j \<mapsto> i'))"
  by (auto simp: evolves_def)

lemma tx_unique_le: "tx_unique m \<Longrightarrow> n \<subseteq>\<^sub>m m \<Longrightarrow> tx_unique n"
  unfolding tx_unique_def map_le_def by (metis domI)

lemma settles_expire [simp]: "settles h (expire t i) = settles h i"
  by (simp add: settles_def)

lemma tx_unique_swept: "tx_unique m \<Longrightarrow> tx_unique (swept t m)"
  unfolding tx_unique_def swept_def o_def by (auto split: option.splits)

lemma tx_unique_upd:
  assumes "tx_unique m" and "\<And>h k b. settles h i' \<Longrightarrow> k \<noteq> j \<Longrightarrow> m k = Some b \<Longrightarrow> \<not> settles h b"
  shows "tx_unique (m(j \<mapsto> i'))"
  using assms unfolding tx_unique_def by (metis fun_upd_apply option.inject)

lemma swept_at: "swept t m j = Some i \<longleftrightarrow> (\<exists>i0. m j = Some i0 \<and> i = expire t i0)"
  by (auto simp: swept_def)

lemma pay_spec_evolves:
  "pay_spec iid tx (paid_fields tx p info t) v c m = (res, m') \<Longrightarrow> evolves m m'"
  by (auto simp: pay_spec_def split: option.splits if_splits sum.splits intro!: evolves_upd lifecycle_paid)

lemma settles_paid [simp]: "settles h (bumped (paid_fields tx p info t) i) \<longleftrightarrow> h \<noteq> [] \<and> h = tx"
  by (auto simp: settles_def bumped_def paid_fields_def)

lemma pay_spec_tx_unique:
  assumes "tx_unique m" and "pay_spec iid tx (paid_fields tx p info t) v c m = (res, m')"
  shows "tx_unique m'"
  using assms
  by (auto simp: pay_spec_def split: option.splits if_splits sum.splits intro!: tx_unique_upd)

subsection \<open>Refinement of the paying operation\<close>

text \<open>
  C31: \<open>markAsPaid\<close> implements its specification on every branch: expire what is overdue; nothing
  for an unknown, non-pending or expired invoice; refuse a hash that settled another stored
  invoice; refuse a version other than the one the caller read; otherwise store the invoice
  with status PAID, the payment's fields and the next version, leaving all others alone.
\<close>
theorem markAsPaid_refines:
  assumes "swf s"
  shows "(abs_result (snd (ms_markAsPaid iid tx payer info v t s)) (fst (ms_markAsPaid iid tx payer info v t s)),
      view (snd (ms_markAsPaid iid tx payer info v t s))) =
    pay_spec iid tx (paid_fields tx payer info (t_stamp t)) v (t_check t) (swept (t_sweep t) (view s))"
  using ms_markAsPaid_spec [OF assms] by blast

definition sample_data :: "string \<Rightarrow> create_data" where
  "sample_data memo =
     \<lparr>cd_id = None, cd_sellerPublicKey = ''G'', cd_sellerName = None, cd_sellerEmail = None,
      cd_amount = Num 5, cd_assetCode = None, cd_assetIssuer = None, cd_memo = memo,
      cd_description = None, cd_customerName = None, cd_customerEmail = None, cd_expiresAt = Some 100,
      cd_metadata = None\<rparr>"

text \<open>Witness of C31: a table with one pending invoice, paid before it expires.\<close>
theorem markAsPaid_refines_witness:
  "\<exists>s. swf s \<and> view s ''i'' = Some (new_invoice (sample_data ''m'') ''i'' 0 0) \<and>
     (\<exists>i. view (snd (ms_markAsPaid ''i'' ''h'' ''P'' None (Some (Num 1)) \<lparr>t_sweep = 5, t_check = 6, t_stamp = 7, t_clock = 8\<rparr> s)) ''i'' = Some i \<and>
        si_status i = PAID \<and> si_paymentTxHash i = Some ''h'' \<and> si_version i = Some 2)"
proof -
  let ?n = "new_invoice (sample_data ''m'') ''i'' 0 0"
  let ?t = "\<lparr>t_sweep = 5, t_check = 6, t_stamp = 7, t_clock = 8\<rparr> :: times"
  obtain r s where run: "ms_createInvoice (sample_data ''m'') ''i'' 0 0 0 (MemoryStorage_new None None) = (Inr r, s)"
    by (simp add: ms_createInvoice_def MemoryStorage_new_def sample_data_def alloc_def or_else_def Let_def)
  note sp = ms_createInvoice_spec [OF swf_new(1) run]
  have s: "swf s" using sp by blast
  have v: "view s = [''i'' \<mapsto> ?n]"
  proof -
    have "view (MemoryStorage_new None None) = Map.empty" by (simp add: view_def MemoryStorage_new_def fun_eq_iff)
    then obtain kept where "kept \<subseteq>\<^sub>m Map.empty" and
        "view s = kept(''i'' \<mapsto> new_invoice (sample_data ''m'') (or_else (cd_id (sample_data ''m'')) ''i'') 0 0)"
      using sp by (auto simp: or_else_def sample_data_def)
    moreover from this have "kept = Map.empty" by (auto simp: map_le_def fun_eq_iff dom_def)
    ultimately show ?thesis by (simp add: or_else_def sample_data_def)
  qed
  have sw: "swept 5 (view s) = [''i'' \<mapsto> ?n]"
    by (auto simp: v swept_def expire_def new_invoice_def sample_data_def)
  have ver: "version_of ?n = 1" "checkVersion (Some (Num 1)) (Num 1) = Inr ()"
    by (simp_all add: version_of_def new_invoice_def checkVersion_match)
  have "pay_spec ''i'' ''h'' (paid_fields ''h'' ''P'' None 7) (Some (Num 1)) 6 (swept 5 (view s)) =
      (Inr (Some (bumped (paid_fields ''h'' ''P'' None 7) ?n)), [''i'' \<mapsto> bumped (paid_fields ''h'' ''P'' None 7) ?n])"
    unfolding sw using ver by (auto simp: pay_spec_def new_invoice_def sample_data_def)
  then have "view (snd (ms_markAsPaid ''i'' ''h'' ''P'' None (Some (Num 1)) ?t s)) ''i'' =
      Some (bumped (paid_fields ''h'' ''P'' None 7) ?n)"
    using markAsPaid_refines [OF s, of "''i''" "''h''" "''P''" None "Some (Num 1)" ?t] by simp
  then show ?thesis
    using s v ver(1) by (intro exI [of _ s]) (auto simp: bumped_def paid_fields_def)
qed

end
