(* ===== verification/Base64url.thy ===== *)
theory Base64url
  imports Js_Prelude
begin

text \<open>
  \<open>Buffer.from(s, 'utf8').toString('base64url')\<close> and \<open>Buffer.from(s, 'base64url')\<close>: three bytes
  become four characters of the URL-safe alphabet, without padding; reading drops a last
  character that completes no byte. Strings here hold code units below 128 when they are
  encoded, so a code unit is a byte.
\<close>

definition b64_alphabet :: string where
  "b64_alphabet = ''ABCDEFGHIJKLMNOPQRSTUVWXYZabcdefghijklmnopqrstuvwxyz0123456789-_''"

definition b64_char :: "nat \<Rightarrow> char" where
  "b64_char n = b64_alphabet ! n"

definition b64_val :: "char \<Rightarrow> nat" where
  "b64_val c = length (takeWhile (\<lambda>d. d \<noteq> c) b64_alphabet)"

fun b64_enc :: "nat list \<Rightarrow> nat list" where
  "b64_enc [] = []"
| "b64_enc [a] = [a div 4, a mod 4 * 16]"
| "b64_enc [a, b] = [a div 4, a mod 4 * 16 + b div 16, b mod 16 * 4]"
| "b64_enc (a # b # c # bs) =
     a div 4 # (a mod 4 * 16 + b div 16) # (b mod 16 * 4 + c div 64) # c mod 64 # b64_enc bs"

fun b64_dec :: "nat list \<Rightarrow> nat list" where
  "b64_dec (u # v # w # x # vs) =
     (u * 4 + v div 16) # (v mod 16 * 16 + w div 4) # (w mod 4 * 64 + x) # b64_dec vs"
| "b64_dec [u, v, w] = [u * 4 + v div 16, v mod 16 * 16 + w div 4]"
| "b64_dec [u, v] = [u * 4 + v div 16]"
| "b64_dec _ = []"

definition base64url_encode :: "string \<Rightarrow> string" where
  "base64url_encode s = map b64_char (b64_enc (map of_char s))"

definition base64url_decode :: "string \<Rightarrow> string" where
  "base64url_decode s = map char_of (b64_dec (map b64_val s))"

definition BASE64URL_PATTERN :: "string \<Rightarrow> bool" where
  "BASE64URL_PATTERN s \<longleftrightarrow> s \<noteq> [] \<and> list_all (\<lambda>c. is_alnum c \<or> c = CHR ''_'' \<or> c = CHR ''-'') s"

lemma six_bits: "(x::nat) < 4 \<Longrightarrow> y < 16 \<Longrightarrow> x * 16 + y < 64" "(y::nat) < 16 \<Longrightarrow> x < 4 \<Longrightarrow> y * 4 + x < 64"
  by linarith+

lemma b64_enc_range: "list_all (\<lambda>a. a < 256) bs \<Longrightarrow> list_all (\<lambda>v. v < 64) (b64_enc bs)"
proof (induction bs rule: b64_enc.induct)
  case (4 a b c bs)
  then have "a div 4 < 64" "b div 16 < 16" "c div 64 < 4" by auto
  moreover have "a mod 4 < 4" "b mod 16 < 16" "c mod 64 < 64" by simp_all
  ultimately show ?case using 4 six_bits [of "a mod 4" "b div 16"] six_bits [of "c div 64" "b mod 16"] by simp
next
  case (3 a b)
  then have "a div 4 < 64" "b div 16 < 16" by auto
  moreover have "a mod 4 < 4" "b mod 16 < 16" by simp_all
  ultimately show ?case using six_bits [of "a mod 4" "b div 16"] by simp
qed auto

lemma b64_dec_enc: "list_all (\<lambda>a. a < 256) bs \<Longrightarrow> b64_dec (b64_enc bs) = bs"
proof (induction bs rule: b64_enc.induct)
  case (4 a b c bs)
  then have "b div 16 < 16" "c div 64 < 4" by auto
  moreover have "a mod 4 * 16 mod 16 = 0" "b mod 16 * 4 mod 4 = 0" by simp_all
  ultimately show ?case using 4 by simp
next
  case (3 a b)
  then have "b div 16 < 16" by auto
  then show ?case by simp
qed auto

lemma b64_table:
  "list_all (\<lambda>n. b64_val (b64_char n) = n \<and> (is_alnum (b64_char n) \<or> b64_char n = CHR ''_'' \<or> b64_char n = CHR ''-''))
     [0..<64]"
  by code_simp

lemma b64_val_char: "n < 64 \<Longrightarrow> b64_val (b64_char n) = n"
  using b64_table by (simp add: list_all_iff)

lemma b64_char_pattern: "n < 64 \<Longrightarrow> is_alnum (b64_char n) \<or> b64_char n = CHR ''_'' \<or> b64_char n = CHR ''-''"
  using b64_table by (simp add: list_all_iff)

lemma bytes_of_string [simp]: "list_all (\<lambda>a. a < 256) (map (of_char :: char \<Rightarrow> nat) s)"
  by (simp add: list_all_iff)

lemma base64url_round_trip: "base64url_decode (base64url_encode s) = s"
proof -
  have "map (b64_val \<circ> b64_char) (b64_enc (map of_char s)) = b64_enc (map of_char s)"
    by (rule map_idI) (use b64_enc_range [OF bytes_of_string, of s] b64_val_char in \<open>auto simp: list_all_iff\<close>)
  then show ?thesis
    by (simp add: base64url_decode_def base64url_encode_def b64_dec_enc o_def)
qed

lemma b64_enc_Nil_iff [simp]: "b64_enc bs = [] \<longleftrightarrow> bs = []"
  by (cases bs rule: b64_enc.cases) auto

lemma base64url_encode_pattern: "s \<noteq> [] \<Longrightarrow> BASE64URL_PATTERN (base64url_encode s)"
  using b64_enc_range [OF bytes_of_string, of s]
  by (auto simp: BASE64URL_PATTERN_def base64url_encode_def list_all_iff dest: b64_char_pattern)

lemma length_b64_enc: "3 * length (b64_enc bs) \<le> 4 * length bs + 2"
  by (induction bs rule: b64_enc.induct) auto

lemma length_base64url_encode: "3 * length (base64url_encode s) \<le> 4 * length s + 2"
  using length_b64_enc [of "map of_char s"] by (simp add: base64url_encode_def)

lemma BASE64URL_no_ws: "BASE64URL_PATTERN s \<Longrightarrow> js_trim s = s"
  by (rule js_trim_no_ws)
    (auto simp: BASE64URL_PATTERN_def list_all_iff is_ws_def is_alnum_def is_digit_def is_alpha_def Let_def)

end
