(* ===== verification/Js_Date.thy ===== *)
theory Js_Date
  imports Js_Prelude
begin

text \<open>
  Dates as the language has them: a time value is an integer number of milliseconds since the
  epoch, and the calendar is the language's (proleptic Gregorian, \<open>DayFromYear\<close>,
  \<open>YearFromTime\<close>). \<open>toISOString\<close> prints a time value, \<open>iso_time\<close> reads the format back.
\<close>

subsection \<open>Calendar\<close>

definition MS_PER_DAY :: int where "MS_PER_DAY = 86400000"

definition DayFromYear :: "int \<Rightarrow> int" where
  "DayFromYear y = 365 * (y - 1970) + (y - 1969) div 4 - (y - 1901) div 100 + (y - 1601) div 400"

definition leap :: "int \<Rightarrow> bool" where
  "leap y \<longleftrightarrow> y mod 4 = 0 \<and> (y mod 100 \<noteq> 0 \<or> y mod 400 = 0)"

lemma div_step:
  assumes "0 < k"
  shows "(x + 1) div k = x div k + (if (x + 1) mod k = 0 then 1 else (0::int))"
proof -
  have a: "x = k * (x div k) + x mod k" "0 \<le> x mod k" "x mod k < k" using assms by auto
  show ?thesis
  proof (cases "x mod k = k - 1")
    case True
    then have e: "x + 1 = k * (x div k + 1)" using a(1) by (metis add.commute add_diff_eq diff_add_cancel distrib_left mult.right_neutral)
    show ?thesis unfolding e using assms by simp
  next
    case False
    then have b: "x mod k + 1 < k" using a by simp
    have e: "x + 1 = (x mod k + 1) + k * (x div k)" using a(1) by simp
    have "(x + 1) div k = x div k"
      unfolding e using a b by (subst div_mult_self2) (auto simp: div_pos_pos_trivial)
    moreover have "(x + 1) mod k = x mod k + 1"
      unfolding e using a b by (subst mod_mult_self2) (auto simp: mod_pos_pos_trivial)
    ultimately show ?thesis using a by simp
  qed
qed

lemma DayFromYear_Suc: "DayFromYear (y + 1) = DayFromYear y + (if leap y then 366 else 365)"
proof -
  have m: "(y - 1968) mod 4 = y mod 4" "(y - 1900) mod 100 = y mod 100" "(y - 1600) mod 400 = y mod 400"
    using mod_diff_right_eq [of y 1968 4] mod_diff_right_eq [of y 1900 100] mod_diff_right_eq [of y 1600 400]
    by simp_all
  define a b c where "a = (y - 1969) div 4" and "b = (y - 1901) div 100" and "c = (y - 1601) div 400"
  have e: "y + 1 - 1969 = y - 1969 + 1" "y + 1 - 1901 = y - 1901 + 1" "y + 1 - 1601 = y - 1601 + 1"
    "y - 1969 + 1 = y - 1968" "y - 1901 + 1 = y - 1900" "y - 1601 + 1 = y - 1600" by simp_all
  have "(y - 1969 + 1) div 4 = a + (if y mod 4 = 0 then 1 else 0)"
    unfolding a_def m(1) [symmetric] e(4) [symmetric] by (rule div_step) simp
  moreover have "(y - 1901 + 1) div 100 = b + (if y mod 100 = 0 then 1 else 0)"
    unfolding b_def m(2) [symmetric] e(5) [symmetric] by (rule div_step) simp
  moreover have "(y - 1601 + 1) div 400 = c + (if y mod 400 = 0 then 1 else 0)"
    unfolding c_def m(3) [symmetric] e(6) [symmetric] by (rule div_step) simp
  ultimately have "DayFromYear (y + 1) = 365 * (y + 1 - 1970) + (a + (if y mod 4 = 0 then 1 else 0))
      - (b + (if y mod 100 = 0 then 1 else 0)) + (c + (if y mod 400 = 0 then 1 else 0))"
    unfolding DayFromYear_def e(1-3) by metis
  moreover have "DayFromYear y = 365 * (y - 1970) + a - b + c"
    by (simp add: DayFromYear_def a_def b_def c_def)
  moreover have "y mod 100 = 0 \<Longrightarrow> y mod 4 = 0" "y mod 400 = 0 \<Longrightarrow> y mod 100 = 0"
    using mod_mod_cancel [of 4 100 y] mod_mod_cancel [of 100 400 y] by simp_all
  ultimately show ?thesis unfolding leap_def
    by (cases "y mod 4 = 0"; cases "y mod 100 = 0"; cases "y mod 400 = 0") (simp_all add: algebra_simps)
qed

text \<open>The year of a day: an estimate by the mean length of a year, corrected by one.\<close>

definition year_of_day :: "int \<Rightarrow> int" where
  "year_of_day d =
     (let y = 1970 + (d * 400) div 146097 in
      if DayFromYear y > d then y - 1 else if DayFromYear (y + 1) \<le> d then y + 1 else y)"

lemma DayFromYear_estimate:
  "400 * DayFromYear y \<le> 146097 * (y - 1970) + 800" "146097 * (y - 1970) - 800 \<le> 400 * DayFromYear y"
proof -
  define a b c where "a = (y - 1969) div 4" and "b = (y - 1901) div 100" and "c = (y - 1601) div 400"
  have a: "4 * a \<le> y - 1969" "y - 1969 \<le> 4 * a + 3" unfolding a_def by linarith+
  have b: "100 * b \<le> y - 1901" "y - 1901 \<le> 100 * b + 99" unfolding b_def by linarith+
  have c: "400 * c \<le> y - 1601" "y - 1601 \<le> 400 * c + 399" unfolding c_def by linarith+
  have d: "DayFromYear y = 365 * (y - 1970) + a - b + c" by (simp add: DayFromYear_def a_def b_def c_def)
  show "400 * DayFromYear y \<le> 146097 * (y - 1970) + 800" using a b c d by (simp add: algebra_simps)
  show "146097 * (y - 1970) - 800 \<le> 400 * DayFromYear y" using a b c d by (simp add: algebra_simps)
qed

lemma year_of_day: "DayFromYear (year_of_day d) \<le> d \<and> d < DayFromYear (year_of_day d + 1)"
proof -
  define n where "n = (d * 400) div 146097"
  have n: "146097 * n \<le> d * 400" "d * 400 < 146097 * n + 146097" unfolding n_def by linarith+
  have lo: "DayFromYear (1970 + n - 1) \<le> d"
    using DayFromYear_estimate(1) [of "1970 + n - 1"] n by simp
  have hi: "d < DayFromYear (1970 + n + 2)"
    using DayFromYear_estimate(2) [of "1970 + n + 2"] n by simp
  show ?thesis
    using lo hi unfolding year_of_day_def Let_def n_def [symmetric]
    by (auto simp: add.commute add.left_commute)
qed

definition month_starts :: "bool \<Rightarrow> int list" where
  "month_starts lp = (if lp then [0, 31, 60, 91, 121, 152, 182, 213, 244, 274, 305, 335]
                      else [0, 31, 59, 90, 120, 151, 181, 212, 243, 273, 304, 334])"

text \<open>Month (from 0) of a day of the year: the last month that starts no later.\<close>

definition month_of :: "bool \<Rightarrow> int \<Rightarrow> nat" where
  "month_of lp d = length (takeWhile (\<lambda>s. s \<le> d) (month_starts lp)) - 1"

lemma month_of_range: "month_of lp d < 12"
proof -
  have "length (takeWhile (\<lambda>s. s \<le> d) (month_starts lp)) \<le> 12"
    using length_takeWhile_le [of "\<lambda>s. s \<le> d" "month_starts lp"] by (simp add: month_starts_def)
  then show ?thesis by (simp add: month_of_def)
qed

definition year_length :: "bool \<Rightarrow> int" where
  "year_length lp = (if lp then 366 else 365)"

lemma month_lengths: 
  "k < 11 \<Longrightarrow> month_starts lp ! Suc k - month_starts lp ! k \<le> 31"
proof -
  have "list_all (\<lambda>k. month_starts b ! Suc k - month_starts b ! k \<le> 31) [0..<11]" for b
    by (cases b) (simp_all add: month_starts_def upt_rec [of _ 11])
  then show "k < 11 \<Longrightarrow> ?thesis" by (simp add: list_all_iff)
qed

lemma day_of_month_range:
  assumes "0 \<le> d" and "d < year_length lp"
  shows "0 \<le> d - month_starts lp ! month_of lp d" and "d - month_starts lp ! month_of lp d < 31"
proof -
  let ?tw = "takeWhile (\<lambda>s. s \<le> d) (month_starts lp)"
  let ?k = "length ?tw"
  have len: "length (month_starts lp) = 12" by (simp add: month_starts_def)
  have "?tw \<noteq> []" using assms(1) by (simp add: month_starts_def)
  then have k: "month_of lp d < ?k" "?k = Suc (month_of lp d)"
    unfolding month_of_def by (cases ?tw; simp)+
  have "?tw ! month_of lp d \<le> d" using set_takeWhileD [OF nth_mem [OF k(1)]] by simp
  then show "0 \<le> d - month_starts lp ! month_of lp d" using k(1) by (simp add: takeWhile_nth)
  show "d - month_starts lp ! month_of lp d < 31"
  proof (cases "month_of lp d < 11")
    case True
    then have "\<not> month_starts lp ! ?k \<le> d" using k len by (intro nth_length_takeWhile) simp
    then show ?thesis using month_lengths [OF True, of lp] k(2) by simp
  next
    case False
    then have "month_of lp d = 11" using month_of_range [of lp d] by simp
    moreover have "year_length lp - month_starts lp ! 11 = 31"
      by (simp add: year_length_def month_starts_def)
    ultimately show ?thesis using assms(2) by simp
  qed
qed

subsection \<open>Printing\<close>

definition digit_char :: "int \<Rightarrow> char" where
  "digit_char n = char_of (48 + nat (n mod 10))"

fun pad :: "nat \<Rightarrow> int \<Rightarrow> string" where
  "pad 0 n = []"
| "pad (Suc w) n = pad w (n div 10) @ [digit_char n]"

definition toISOString :: "int \<Rightarrow> string" where
  "toISOString t =
     (let d = t div MS_PER_DAY; r = t mod MS_PER_DAY; y = year_of_day d;
          doy = d - DayFromYear y; m = month_of (leap y) doy;
          md = doy - month_starts (leap y) ! m + 1
      in (if 0 \<le> y \<and> y \<le> 9999 then pad 4 y
          else (if y < 0 then CHR ''-'' else CHR ''+'') # pad 6 \<bar>y\<bar>) @
         CHR ''-'' # pad 2 (int m + 1) @ CHR ''-'' # pad 2 md @
         CHR ''T'' # pad 2 (r div 3600000) @ CHR '':'' # pad 2 (r div 60000 mod 60) @
         CHR '':'' # pad 2 (r div 1000 mod 60) @ CHR ''.'' # pad 3 (r mod 1000) @ ''Z'')"

subsection \<open>Reading\<close>

definition iso_digits :: "string \<Rightarrow> int" where
  "iso_digits s = foldl (\<lambda>a c. 10 * a + (int (of_char c) - 48)) 0 s"

definition day_of_fields :: "int \<Rightarrow> int \<Rightarrow> int \<Rightarrow> int" where
  "day_of_fields y m d = DayFromYear y + month_starts (leap y) ! nat (m - 1) + d - 1"

text \<open>
  The time value of a string in the format \<open>YYYY-MM-DDTHH:mm:ss(.s{1,3})Z\<close>, \<open>None\<close> (not a
  number) when a field is out of range.
\<close>

definition iso_time :: "string \<Rightarrow> int option" where
  "iso_time s =
     (let y = iso_digits (take 4 s); mo = iso_digits (take 2 (drop 5 s)); d = iso_digits (take 2 (drop 8 s));
          h = iso_digits (take 2 (drop 11 s)); mi = iso_digits (take 2 (drop 14 s));
          se = iso_digits (take 2 (drop 17 s));
          fr = (if drop 19 s = ''Z'' then [] else butlast (drop 20 s));
          ms = iso_digits fr * 10 ^ (3 - length fr)
      in if 1 \<le> mo \<and> mo \<le> 12 \<and> 1 \<le> d \<and> d \<le> 31 \<and> mi \<le> 59 \<and> se \<le> 59 \<and>
            (h \<le> 23 \<or> (h = 24 \<and> mi = 0 \<and> se = 0 \<and> ms = 0))
         then Some (((day_of_fields y mo d * 24 + h) * 60 + mi) * 60000 + se * 1000 + ms) else None)"

definition ISO_DATE_PATTERN :: "string \<Rightarrow> bool" where
  "ISO_DATE_PATTERN s \<longleftrightarrow>
     length s \<ge> 20 \<and> list_all is_digit (take 4 s) \<and> s ! 4 = CHR ''-'' \<and>
     list_all is_digit (take 2 (drop 5 s)) \<and> s ! 7 = CHR ''-'' \<and>
     list_all is_digit (take 2 (drop 8 s)) \<and> s ! 10 = CHR ''T'' \<and>
     list_all is_digit (take 2 (drop 11 s)) \<and> s ! 13 = CHR '':'' \<and>
     list_all is_digit (take 2 (drop 14 s)) \<and> s ! 16 = CHR '':'' \<and>
     list_all is_digit (take 2 (drop 17 s)) \<and>
     (let f = drop 19 s in
      f = ''Z'' \<or> (hd f = CHR ''.'' \<and> last f = CHR ''Z'' \<and> 3 \<le> length f \<and> length f \<le> 5 \<and>
                  list_all is_digit (butlast (tl f))))"

subsection \<open>Reading back what is printed\<close>

lemma length_pad [simp]: "length (pad w n) = w"
  by (induction w arbitrary: n) auto

lemma digit_char_val: "int (of_char (digit_char n)) = 48 + n mod 10"
proof -
  have "48 + nat (n mod 10) < 256" by (simp add: nat_less_iff)
  then have "of_char (digit_char n) = 48 + nat (n mod 10)" unfolding digit_char_def by simp
  then show ?thesis by simp
qed

lemma is_digit_char [simp]: "is_digit (digit_char n)"
  using digit_char_val [of n] by (simp add: is_digit_def Let_def) linarith

lemma digits_pad [simp]: "list_all is_digit (pad w n)"
  by (induction w arbitrary: n) auto

lemma iso_digits_pad: "0 \<le> n \<Longrightarrow> n < 10 ^ w \<Longrightarrow> iso_digits (pad w n) = n"
proof (induction w arbitrary: n)
  case (Suc w)
  have "iso_digits (pad w (n div 10)) = n div 10" using Suc by (intro Suc.IH) auto
  then show ?case by (simp add: iso_digits_def digit_char_val)
qed (simp add: iso_digits_def)

text \<open>The fields of a time value, in range, and that they determine it.\<close>

lemma doy_range:
  "0 \<le> d - DayFromYear (year_of_day d)" "d - DayFromYear (year_of_day d) < year_length (leap (year_of_day d))"
  using year_of_day [of d] DayFromYear_Suc [of "year_of_day d"] by (auto simp: year_length_def)

definition four_digit_year :: "int \<Rightarrow> bool" where
  "four_digit_year t \<longleftrightarrow> 0 \<le> year_of_day (t div MS_PER_DAY) \<and> year_of_day (t div MS_PER_DAY) \<le> 9999"

definition iso_head :: "int \<Rightarrow> string" where
  "iso_head t =
     (let d = t div MS_PER_DAY; r = t mod MS_PER_DAY; y = year_of_day d;
          doy = d - DayFromYear y; m = month_of (leap y) doy
      in pad 4 y @ CHR ''-'' # pad 2 (int m + 1) @ CHR ''-'' # pad 2 (doy - month_starts (leap y) ! m + 1) @
         CHR ''T'' # pad 2 (r div 3600000) @ CHR '':'' # pad 2 (r div 60000 mod 60) @
         CHR '':'' # pad 2 (r div 1000 mod 60))"

lemma toISOString_head:
  "four_digit_year t \<Longrightarrow> toISOString t = iso_head t @ CHR ''.'' # pad 3 (t mod MS_PER_DAY mod 1000) @ ''Z''"
  by (simp add: toISOString_def iso_head_def four_digit_year_def Let_def)

lemma length_iso_head [simp]: "length (iso_head t) = 19"
  by (simp add: iso_head_def Let_def)

lemma iso_head_pattern:
  "list_all is_digit (take 4 (iso_head t @ f)) \<and> (iso_head t @ f) ! 4 = CHR ''-'' \<and>
   list_all is_digit (take 2 (drop 5 (iso_head t @ f))) \<and> (iso_head t @ f) ! 7 = CHR ''-'' \<and>
   list_all is_digit (take 2 (drop 8 (iso_head t @ f))) \<and> (iso_head t @ f) ! 10 = CHR ''T'' \<and>
   list_all is_digit (take 2 (drop 11 (iso_head t @ f))) \<and> (iso_head t @ f) ! 13 = CHR '':'' \<and>
   list_all is_digit (take 2 (drop 14 (iso_head t @ f))) \<and> (iso_head t @ f) ! 16 = CHR '':'' \<and>
   list_all is_digit (take 2 (drop 17 (iso_head t @ f)))"
  by (simp add: iso_head_def Let_def nth_append)

lemma butlast_tl_snoc: "butlast (tl (a # xs @ [b])) = xs"
  by simp

lemma toISOString_pattern: "four_digit_year t \<Longrightarrow> ISO_DATE_PATTERN (toISOString t)"
  using iso_head_pattern [of t "CHR ''.'' # pad 3 (t mod MS_PER_DAY mod 1000) @ ''Z''"]
  unfolding ISO_DATE_PATTERN_def toISOString_head Let_def
  by (simp only: length_append length_iso_head drop_append) (simp add: butlast_append)

lemma day_of_fields_of_day:
  fixes d :: int
  defines "y \<equiv> year_of_day d"
  defines "m \<equiv> month_of (leap y) (d - DayFromYear y)"
  shows "day_of_fields y (int m + 1) (d - DayFromYear y - month_starts (leap y) ! m + 1) = d"
  by (simp add: day_of_fields_def)

lemma clock_fields:
  fixes r :: int
  assumes "0 \<le> r" and "r < MS_PER_DAY"
  shows "0 \<le> r div 3600000" "r div 3600000 < 24" "0 \<le> r div 60000 mod 60" "r div 60000 mod 60 < 60"
    "0 \<le> r div 1000 mod 60" "r div 1000 mod 60 < 60" "0 \<le> r mod 1000" "r mod 1000 < 1000"
    "((r div 3600000) * 60 + r div 60000 mod 60) * 60000 + (r div 1000 mod 60) * 1000 + r mod 1000 = r"
proof -
  show "0 \<le> r div 3600000" "r div 3600000 < 24"
    using assms by (simp_all add: MS_PER_DAY_def)
  define h q p mi se ms where "h = r div 3600000" and "q = r div 60000" and "p = r div 1000"
    and "mi = q mod 60" and "se = p mod 60" and "ms = r mod 1000"
  have "q div 60 = h" "p div 60 = q"
    unfolding h_def q_def p_def by (simp_all add: zdiv_zmult2_eq [symmetric])
  then have "q = 60 * h + mi" "p = 60 * q + se" "r = 1000 * p + ms"
    unfolding mi_def se_def ms_def p_def by (metis mult_div_mod_eq)+
  then have "(h * 60 + mi) * 60000 + se * 1000 + ms = r" by simp
  then show "((r div 3600000) * 60 + r div 60000 mod 60) * 60000 + (r div 1000 mod 60) * 1000 + r mod 1000 = r"
    by (simp only: h_def q_def p_def mi_def se_def ms_def)
qed (simp_all)

lemma iso_fields:
  assumes "four_digit_year t"
  defines "d \<equiv> t div MS_PER_DAY" and "r \<equiv> t mod MS_PER_DAY"
  defines "y \<equiv> year_of_day d"
  defines "m \<equiv> month_of (leap y) (d - DayFromYear y)"
  shows "iso_digits (take 4 (iso_head t @ f)) = y"
    "iso_digits (take 2 (drop 5 (iso_head t @ f))) = int m + 1"
    "iso_digits (take 2 (drop 8 (iso_head t @ f))) = d - DayFromYear y - month_starts (leap y) ! m + 1"
    "iso_digits (take 2 (drop 11 (iso_head t @ f))) = r div 3600000"
    "iso_digits (take 2 (drop 14 (iso_head t @ f))) = r div 60000 mod 60"
    "iso_digits (take 2 (drop 17 (iso_head t @ f))) = r div 1000 mod 60"
proof -
  have r: "0 \<le> r" "r < MS_PER_DAY" by (simp_all add: r_def MS_PER_DAY_def)
  note clk = clock_fields [OF r]
  note doy = day_of_month_range [OF doy_range(1) doy_range(2), of d]
  have y: "0 \<le> y" "y < 10 ^ 4" using assms(1) by (simp_all add: four_digit_year_def y_def d_def)
  have m: "0 \<le> int m + 1" "int m + 1 < 10 ^ 2" using month_of_range [of "leap y" "d - DayFromYear y"] by (simp_all add: m_def)
  show "iso_digits (take 4 (iso_head t @ f)) = y"
    using iso_digits_pad [OF y] by (simp add: iso_head_def Let_def y_def d_def)
  show "iso_digits (take 2 (drop 5 (iso_head t @ f))) = int m + 1"
    using iso_digits_pad [OF m] by (simp add: iso_head_def Let_def m_def y_def d_def)
  show "iso_digits (take 2 (drop 8 (iso_head t @ f))) = d - DayFromYear y - month_starts (leap y) ! m + 1"
    using iso_digits_pad [of "d - DayFromYear y - month_starts (leap y) ! m + 1" 2] doy
    by (simp add: iso_head_def Let_def m_def y_def d_def)
  show "iso_digits (take 2 (drop 11 (iso_head t @ f))) = r div 3600000"
    using iso_digits_pad [of "r div 3600000" 2] clk(1,2) by (simp add: iso_head_def Let_def r_def)
  show "iso_digits (take 2 (drop 14 (iso_head t @ f))) = r div 60000 mod 60"
    using iso_digits_pad [of "r div 60000 mod 60" 2] clk(3,4) by (simp add: iso_head_def Let_def r_def)
  show "iso_digits (take 2 (drop 17 (iso_head t @ f))) = r div 1000 mod 60"
    using iso_digits_pad [of "r div 1000 mod 60" 2] clk(5,6) by (simp add: iso_head_def Let_def r_def)
qed

lemma iso_time_toISOString:
  assumes "four_digit_year t"
  shows "iso_time (toISOString t) = Some t"
proof -
  let ?r = "t mod MS_PER_DAY" and ?d = "t div MS_PER_DAY"
  let ?f = "CHR ''.'' # pad 3 (?r mod 1000) @ ''Z''"
  have r: "0 \<le> ?r" "?r < MS_PER_DAY" by (simp_all add: MS_PER_DAY_def)
  note clk = clock_fields [OF r]
  note doy = day_of_month_range [OF doy_range(1) doy_range(2), of ?d]
  have fr: "drop 19 (iso_head t @ ?f) = ?f" "butlast (drop 20 (iso_head t @ ?f)) = pad 3 (?r mod 1000)"
    by (simp_all add: drop_append butlast_append)
  have ms: "iso_digits (pad 3 (?r mod 1000)) = ?r mod 1000"
    using clk(7,8) by (intro iso_digits_pad) simp_all
  define h mi se ms where "h = ?r div 3600000" and "mi = ?r div 60000 mod 60"
    and "se = ?r div 1000 mod 60" and "ms = ?r mod 1000"
  have rng: "0 \<le> h" "h < 24" "0 \<le> mi" "mi < 60" "0 \<le> se" "se < 60"
    and sum: "(h * 60 + mi) * 60000 + se * 1000 + ms = ?r"
    unfolding h_def mi_def se_def ms_def by (fact clk)+
  have "t = ?d * 86400000 + ?r" by (simp add: MS_PER_DAY_def)
  then have t: "((?d * 24 + h) * 60 + mi) * 60000 + se * 1000 + ms = t"
    using sum by (simp add: algebra_simps)
  have "month_of (leap (year_of_day ?d)) (?d - DayFromYear (year_of_day ?d)) < 12" by (rule month_of_range)
  then show ?thesis
    unfolding iso_time_def toISOString_head [OF assms] iso_fields [OF assms] fr Let_def
      day_of_fields_of_day h_def [symmetric] mi_def [symmetric] se_def [symmetric] ms_def [symmetric]
    using rng doy t ms [folded ms_def] by simp
qed

end
