(* ===== verification/Bounded_Cache.thy ===== *)
theory Bounded_Cache
  imports Js_Prelude
begin

text \<open>
  The bounded LRU cache with time-to-live of
  \<open>backend/src/services/invoice-memory.service.ts\<close> (\<open>BoundedCache\<close>), and the contract it shares
  with the cursor cache of \<open>backend/src/storage/invoice-cursor.ts\<close>: locale \<open>ttl_cache\<close>. What a
  client needs of a cache (it never invents an entry, and memoising a function through it does
  not change the function) is proved once in the locale.
\<close>

subsection \<open>The contract\<close>

locale ttl_cache =
  fixes content :: "'c \<Rightarrow> string \<Rightarrow> 'v option"
    and put :: "string \<Rightarrow> 'v \<Rightarrow> int \<Rightarrow> 'c \<Rightarrow> 'c"
    and get :: "string \<Rightarrow> int \<Rightarrow> 'c \<Rightarrow> 'v option \<times> 'c"
    and drop_key :: "string \<Rightarrow> 'c \<Rightarrow> 'c"
    and ok :: "'c \<Rightarrow> bool"
  assumes content_put: "ok c \<Longrightarrow> content (put k v t c) \<subseteq>\<^sub>m (content c)(k \<mapsto> v)"
    and content_put_key: "ok c \<Longrightarrow> content (put k v t c) k = Some v"
    and get_hit: "ok c \<Longrightarrow> fst (get k t c) = Some v \<Longrightarrow> content c k = Some v"
    and content_get: "ok c \<Longrightarrow> content (snd (get k t c)) \<subseteq>\<^sub>m content c"
    and content_drop: "ok c \<Longrightarrow> content (drop_key k c) = (content c)(k := None)"
    and ok_put: "ok c \<Longrightarrow> ok (put k v t c)"
    and ok_get: "ok c \<Longrightarrow> ok (snd (get k t c))"
    and ok_drop: "ok c \<Longrightarrow> ok (drop_key k c)"
begin

definition all_entries :: "(string \<Rightarrow> 'v \<Rightarrow> bool) \<Rightarrow> 'c \<Rightarrow> bool" where
  "all_entries P c \<longleftrightarrow> (\<forall>k v. content c k = Some v \<longrightarrow> P k v)"

lemma all_entries_le: "all_entries P c \<Longrightarrow> content d \<subseteq>\<^sub>m content c \<Longrightarrow> all_entries P d"
  unfolding all_entries_def map_le_def by (metis domI)

lemma all_entries_get: "ok c \<Longrightarrow> all_entries P c \<Longrightarrow> all_entries P (snd (get k t c))"
  by (rule all_entries_le [OF _ content_get])

lemma all_entries_drop: "ok c \<Longrightarrow> all_entries P c \<Longrightarrow> all_entries P (drop_key k c)"
  by (rule all_entries_le) (auto simp: content_drop map_le_def)

lemma all_entries_drop_weaken:
  assumes "ok c" and "all_entries P c" and "\<And>j v. j \<noteq> k \<Longrightarrow> P j v \<Longrightarrow> Q j v"
  shows "all_entries Q (drop_key k c)"
  using assms by (auto simp: all_entries_def content_drop split: if_splits)

lemma all_entries_put_weaken:
  assumes "ok c" and "all_entries P c" and "\<And>j v. j \<noteq> k \<Longrightarrow> P j v \<Longrightarrow> Q j v" and "Q k x"
  shows "all_entries Q (put k x t c)"
  unfolding all_entries_def
proof (intro allI impI)
  fix j v assume "content (put k x t c) j = Some v"
  then have "((content c)(k \<mapsto> x)) j = Some v"
    using content_put [OF assms(1), of k x t] unfolding map_le_def by (metis domI)
  then show "Q j v" using assms(2-4) unfolding all_entries_def by (cases "j = k") auto
qed

lemma all_entries_put: "ok c \<Longrightarrow> all_entries P c \<Longrightarrow> P k v \<Longrightarrow> all_entries P (put k v t c)"
  by (rule all_entries_put_weaken)

lemma all_entries_hit: "ok c \<Longrightarrow> all_entries P c \<Longrightarrow> fst (get k t c) = Some v \<Longrightarrow> P k v"
  using get_hit unfolding all_entries_def by blast

text \<open>Looking up and, on a miss, computing and storing only successful results.\<close>

definition memoised :: "(string \<Rightarrow> 'v option) \<Rightarrow> string \<Rightarrow> int \<Rightarrow> int \<Rightarrow> 'c \<Rightarrow> 'v option \<times> 'c" where
  "memoised f k t t' c =
     (case get k t c of
        (Some v, c') \<Rightarrow> (Some v, c')
      | (None, c') \<Rightarrow> (case f k of None \<Rightarrow> (None, c') | Some v \<Rightarrow> (Some v, put k v t' c')))"

lemma memoised_transparent:
  assumes "ok c" and "all_entries (\<lambda>k v. f k = Some v) c"
  shows "fst (memoised f k t t' c) = f k \<and> ok (snd (memoised f k t t' c)) \<and>
    all_entries (\<lambda>k v. f k = Some v) (snd (memoised f k t t' c))"
proof (cases "get k t c")
  case (Pair r d)
  have d: "ok d" "all_entries (\<lambda>k v. f k = Some v) d"
    using ok_get [OF assms(1), of k t] all_entries_get [OF assms, of k t] Pair by simp_all
  show ?thesis
  proof (cases r)
    case (Some v)
    then show ?thesis
      using Pair d all_entries_hit [OF assms, of k t v] by (simp add: memoised_def)
  next
    case None
    then show ?thesis
      using Pair d all_entries_put [OF d] ok_put [OF d(1)]
      by (cases "f k") (auto simp: memoised_def)
  qed
qed

end

subsection \<open>Evicting the oldest entries\<close>

function evict_oldest :: "nat \<Rightarrow> ('k, 'v) jsmap \<Rightarrow> ('k, 'v) jsmap" where
  "evict_oldest n m =
     (if length m > n then
        (case m of [] \<Rightarrow> m | (oldestKey, _) # _ \<Rightarrow> evict_oldest n (mdelete oldestKey m))
      else m)"
  by pat_completeness auto
termination
  by (relation "measure (\<lambda>(n, m). length m)") (auto simp: mdelete_def less_Suc_eq_le)

declare evict_oldest.simps [simp del]

lemma evict_oldest_drop: "mwf m \<Longrightarrow> evict_oldest n m = drop (length m - n) m"
proof (induction n m rule: evict_oldest.induct)
  case (1 n m)
  show ?case
  proof (cases "length m > n")
    case True
    then obtain k v rest where m: "m = (k, v) # rest" by (cases m) auto
    have del: "mdelete k m = rest" using "1.prems" mdelete_hd [of k v rest] by (simp add: m)
    have "evict_oldest n (mdelete k m) = drop (length (mdelete k m) - n) (mdelete k m)"
      by (rule "1.IH" [OF True m refl]) (use "1.prems" in auto)
    then have "evict_oldest n m = drop (length rest - n) rest"
      using True del unfolding evict_oldest.simps [of n m] by (simp add: m)
    moreover have "length m - n = Suc (length rest - n)" using True by (simp add: m)
    ultimately show ?thesis by (simp add: m)
  qed (simp add: evict_oldest.simps [of n m])
qed

lemma mget_drop_le: "mwf m \<Longrightarrow> mget (drop n m) k = Some v \<Longrightarrow> mget m k = Some v"
  by (metis in_set_dropD map_of_SomeD mget_values)

lemma mwf_drop: "mwf m \<Longrightarrow> mwf (drop n m)"
  by (simp add: mwf_def drop_map [symmetric])

subsection \<open>BoundedCache\<close>

record 'v cache_entry =
  ce_value :: 'v
  ce_storedAt :: int

record 'v bounded_cache =
  bc_maxEntries :: nat
  bc_ttlMs :: int
  bc_entries :: "(string, 'v cache_entry) jsmap"

definition BoundedCache_new :: "nat option \<Rightarrow> int option \<Rightarrow> 'v bounded_cache" where
  "BoundedCache_new maxEntries ttlMs =
     \<lparr>bc_maxEntries = max 1 (case maxEntries of Some n \<Rightarrow> n | None \<Rightarrow> 1000),
      bc_ttlMs = (case ttlMs of Some n \<Rightarrow> n | None \<Rightarrow> 60000), bc_entries = []\<rparr>"

definition bc_size :: "'v bounded_cache \<Rightarrow> nat" where
  "bc_size c = length (bc_entries c)"

definition bc_set :: "string \<Rightarrow> 'v \<Rightarrow> int \<Rightarrow> 'v bounded_cache \<Rightarrow> 'v bounded_cache" where
  "bc_set key v now c =
     (let m = (if mhas (bc_entries c) key then mdelete key (bc_entries c) else bc_entries c);
          m' = mset_kv key \<lparr>ce_value = v, ce_storedAt = now\<rparr> m
      in c\<lparr>bc_entries := evict_oldest (bc_maxEntries c) m'\<rparr>)"

definition bc_isStale :: "'v cache_entry \<Rightarrow> int \<Rightarrow> 'v bounded_cache \<Rightarrow> bool" where
  "bc_isStale e now c = (now - ce_storedAt e \<ge> bc_ttlMs c)"

definition bc_get :: "string \<Rightarrow> int \<Rightarrow> 'v bounded_cache \<Rightarrow> 'v option \<times> 'v bounded_cache" where
  "bc_get key now c =
     (case mget (bc_entries c) key of
        None \<Rightarrow> (None, c)
      | Some e \<Rightarrow>
          if bc_isStale e now c then (None, c\<lparr>bc_entries := mdelete key (bc_entries c)\<rparr>)
          else (Some (ce_value e), c\<lparr>bc_entries := mset_kv key e (mdelete key (bc_entries c))\<rparr>))"

definition bc_isStaleKey :: "string \<Rightarrow> int \<Rightarrow> 'v bounded_cache \<Rightarrow> bool" where
  "bc_isStaleKey key now c =
     (case mget (bc_entries c) key of None \<Rightarrow> False | Some e \<Rightarrow> bc_isStale e now c)"

definition bc_invalidate :: "string \<Rightarrow> 'v bounded_cache \<Rightarrow> bool \<times> 'v bounded_cache" where
  "bc_invalidate key c = (mhas (bc_entries c) key, c\<lparr>bc_entries := mdelete key (bc_entries c)\<rparr>)"

definition bc_invalidateAll :: "'v bounded_cache \<Rightarrow> 'v bounded_cache" where
  "bc_invalidateAll c = c\<lparr>bc_entries := []\<rparr>"

definition bc_content :: "'v bounded_cache \<Rightarrow> string \<Rightarrow> 'v option" where
  "bc_content c k = map_option ce_value (mget (bc_entries c) k)"

definition bc_ok :: "'v bounded_cache \<Rightarrow> bool" where
  "bc_ok c \<longleftrightarrow> mwf (bc_entries c) \<and> 1 \<le> bc_maxEntries c \<and> length (bc_entries c) \<le> bc_maxEntries c"

lemma bc_ok_new [simp]: "bc_ok (BoundedCache_new n k)"
  by (simp add: bc_ok_def BoundedCache_new_def)

definition bc_written :: "string \<Rightarrow> 'v \<Rightarrow> int \<Rightarrow> 'v bounded_cache \<Rightarrow> (string, 'v cache_entry) jsmap" where
  "bc_written k v t c = mset_kv k \<lparr>ce_value = v, ce_storedAt = t\<rparr> (mdelete k (bc_entries c))"

lemma bc_written:
  assumes "bc_ok c"
  shows "mwf (bc_written k v t c)"
    and "mget (bc_written k v t c) j =
      (if j = k then Some \<lparr>ce_value = v, ce_storedAt = t\<rparr> else mget (bc_entries c) j)"
    and "bc_written k v t c = mdelete k (bc_entries c) @ [(k, \<lparr>ce_value = v, ce_storedAt = t\<rparr>)]"
  using assms by (simp_all add: bc_ok_def bc_written_def mset_kv_append_del [symmetric])

lemma bc_set_entries:
  assumes "bc_ok c"
  shows "bc_entries (bc_set k v t c) =
    drop (length (bc_written k v t c) - bc_maxEntries c) (bc_written k v t c)"
proof -
  have "bc_entries (bc_set k v t c) = evict_oldest (bc_maxEntries c) (bc_written k v t c)"
    by (auto simp: bc_set_def bc_written_def Let_def mdelete_fresh)
  then show ?thesis using bc_written(1) [OF assms] by (simp add: evict_oldest_drop)
qed

lemma bc_set_frame [simp]:
  "bc_maxEntries (bc_set k v t c) = bc_maxEntries c" "bc_ttlMs (bc_set k v t c) = bc_ttlMs c"
  by (simp_all add: bc_set_def Let_def)

lemma bc_ok_set: "bc_ok c \<Longrightarrow> bc_ok (bc_set k v t c)"
  using bc_written(1) [of c k v t] bc_set_entries [of c k v t]
  by (auto simp: bc_ok_def intro: mwf_drop)

lemma bc_entries_set_le:
  "bc_ok c \<Longrightarrow> mget (bc_entries (bc_set k v t c)) j = Some e \<Longrightarrow> mget (bc_written k v t c) j = Some e"
  unfolding bc_set_entries by (rule mget_drop_le [OF bc_written(1)])

lemma bc_content_set_le:
  assumes "bc_ok c"
  shows "bc_content (bc_set k v t c) \<subseteq>\<^sub>m (bc_content c)(k \<mapsto> v)"
  unfolding map_le_def
proof
  fix j assume "j \<in> dom (bc_content (bc_set k v t c))"
  then obtain e where e: "mget (bc_entries (bc_set k v t c)) j = Some e"
    by (auto simp: bc_content_def)
  show "bc_content (bc_set k v t c) j = ((bc_content c)(k \<mapsto> v)) j"
    using bc_entries_set_le [OF assms e] e bc_written(2) [OF assms, of k v t j]
    by (auto simp: bc_content_def split: if_splits)
qed

lemma bc_entries_set_key:
  assumes "bc_ok c"
  shows "mget (bc_entries (bc_set k v t c)) k = Some \<lparr>ce_value = v, ce_storedAt = t\<rparr>"
proof -
  have "1 \<le> bc_maxEntries c" using assms by (simp add: bc_ok_def)
  then have "(k, \<lparr>ce_value = v, ce_storedAt = t\<rparr>) \<in> set (bc_entries (bc_set k v t c))"
    unfolding bc_set_entries [OF assms] bc_written(3) [OF assms] by simp
  then show ?thesis using bc_ok_set [OF assms] by (simp add: bc_ok_def mget_values)
qed

lemma bc_get_ok: "bc_ok c \<Longrightarrow> bc_ok (snd (bc_get k t c))"
  using length_mdelete_le [of k "bc_entries c"] length_mdelete_mwf [of "bc_entries c" k]
  by (auto simp: bc_get_def bc_ok_def length_mset_kv split: option.split)

interpretation bc: ttl_cache bc_content bc_set bc_get "\<lambda>k c. snd (bc_invalidate k c)" bc_ok
proof
  fix c :: "'v bounded_cache" and k v t
  assume ok: "bc_ok c"
  show "bc_content (bc_set k v t c) \<subseteq>\<^sub>m (bc_content c)(k \<mapsto> v)" by (rule bc_content_set_le [OF ok])
  show "bc_content (bc_set k v t c) k = Some v" using bc_entries_set_key [OF ok] by (simp add: bc_content_def)
  show "bc_ok (bc_set k v t c)" by (rule bc_ok_set [OF ok])
  show "bc_ok (snd (bc_get k t c))" by (rule bc_get_ok [OF ok])
  show "bc_ok (snd (bc_invalidate k c))"
    using ok length_mdelete_le [of k "bc_entries c"] by (auto simp: bc_ok_def bc_invalidate_def)
  show "bc_content (snd (bc_invalidate k c)) = (bc_content c)(k := None)"
    by (auto simp: bc_content_def bc_invalidate_def)
  show "bc_content (snd (bc_get k t c)) \<subseteq>\<^sub>m bc_content c"
    by (auto simp: bc_get_def bc_content_def map_le_def split: option.splits if_splits)
next
  fix c :: "'v bounded_cache" and k v t
  assume "fst (bc_get k t c) = Some v"
  then show "bc_content c k = Some v"
    by (auto simp: bc_get_def bc_content_def split: option.splits if_splits)
qed

text \<open>
  The cache never serves a value that is older than its time to live, never holds more
  than its maximum number of entries, and a value just stored is served as long as it is
  fresh.
\<close>
lemma BoundedCache_fresh_and_bounded:
  assumes "bc_ok c"
  shows "bc_size (bc_set k v t c) \<le> bc_maxEntries c \<and>
    (fst (bc_get k t' c) = Some x \<longrightarrow>
       (\<exists>e. mget (bc_entries c) k = Some e \<and> ce_value e = x \<and> t' - ce_storedAt e < bc_ttlMs c)) \<and>
    (t' - t < bc_ttlMs c \<longrightarrow> fst (bc_get k t' (bc_set k v t c)) = Some v)"
proof -
  have "bc_size (bc_set k v t c) \<le> bc_maxEntries (bc_set k v t c)"
    using bc_ok_set [OF assms, of k v t] by (simp add: bc_ok_def bc_size_def)
  then show ?thesis
    using bc_entries_set_key [OF assms, of k v t]
    by (auto simp: bc_get_def bc_isStale_def split: option.splits if_splits)
qed

text \<open>A cache of one entry evicts the older of two.\<close>
lemma BoundedCache_fresh_and_bounded_witness:
  "let c = bc_set ''a'' (1::nat) 0 (BoundedCache_new (Some 1) (Some 10)) in
   bc_ok c \<and> bc_size (bc_set ''b'' 2 5 c) \<le> 1 \<and> fst (bc_get ''b'' 7 (bc_set ''b'' 2 5 c)) = Some 2 \<and>
   fst (bc_get ''a'' 7 (bc_set ''b'' 2 5 c)) = None"
proof -
  let ?c = "bc_set ''a'' (1::nat) 0 (BoundedCache_new (Some 1) (Some 10))"
  have ok: "bc_ok ?c" by (rule bc_ok_set) simp
  have m: "bc_maxEntries ?c = 1" "bc_ttlMs ?c = 10" by (simp_all add: bc_set_def BoundedCache_new_def)
  have "fst (bc_get ''a'' 7 (bc_set ''b'' 2 5 ?c)) = None"
    by (simp add: bc_set_def bc_get_def BoundedCache_new_def mdelete_def
        evict_oldest.simps [of _ "[a, b]" for a b] evict_oldest.simps [of _ "[a]" for a])
  then show ?thesis
    using BoundedCache_fresh_and_bounded [OF ok, of "''b''" 2 5 7] ok m by (simp add: Let_def)
qed

end
