(* ===== verification/Invoice_Cursor.thy ===== *)
theory Invoice_Cursor
  imports Base64url Js_Date Js_Number Bounded_Cache
begin

text \<open>
  Keyset pagination of invoice lists, \<open>backend/src/storage/invoice-cursor.ts\<close>: the opaque
  cursor (ISO time and id in base64url), the order of the lists, and the bounded cache of
  decoded cursors. A \<open>createdAt\<close> is its time value, \<open>None\<close> when the date is invalid.
\<close>

subsection \<open>Cursors\<close>

record invoice_cursor =
  ic_createdAt :: int
  ic_id :: string

datatype cursor_error = InvalidIdError | InvalidDateError | InvalidMaxEntries | InvalidTtl

definition UUID :: "string \<Rightarrow> bool" where
  "UUID s \<longleftrightarrow> length s = 36 \<and>
     (\<forall>i \<in> set [0..<36]. if i \<in> {8, 13, 18, 23} then s ! i = CHR ''-'' else is_hex (s ! i))"

definition MAX_TIME :: int where "MAX_TIME = 8640000000000000"

definition encodeInvoiceCursor :: "int option \<Rightarrow> string \<Rightarrow> (cursor_error, string) result" where
  "encodeInvoiceCursor createdAt iid =
     (let rawId = js_trim iid in
      if rawId = [] \<or> \<not> UUID rawId then Inl InvalidIdError
      else case createdAt of
             None \<Rightarrow> Inl InvalidDateError
           | Some t \<Rightarrow> Inr (base64url_encode (toISOString t @ CHR ''|'' # js_lower rawId)))"

text \<open>\<open>s.replace(/\.000Z$/, 'Z')\<close>\<close>

definition drop_zero_ms :: "string \<Rightarrow> string" where
  "drop_zero_ms s = (if 5 \<le> length s \<and> drop (length s - 5) s = ''.000Z'' then take (length s - 5) s @ ''Z'' else s)"

text \<open>
  Bytes of 128 and more would decode to other characters as UTF-8; the patterns reject the
  string either way.
\<close>

definition decodeInvoiceCursor :: "unk \<Rightarrow> invoice_cursor option" where
  "decodeInvoiceCursor value =
     (case value of
        UStr s \<Rightarrow>
          (let trimmed = js_trim s in
           if trimmed = [] \<or> length trimmed > 512 \<or> \<not> BASE64URL_PATTERN trimmed then None
           else case split_on CHR ''|'' (base64url_decode trimmed) of
                  [isoText, iid] \<Rightarrow>
                    if iid = [] \<or> \<not> UUID iid \<or> isoText = [] \<or> \<not> ISO_DATE_PATTERN isoText then None
                    else (case iso_time isoText of
                            None \<Rightarrow> None
                          | Some t \<Rightarrow>
                              let norm = toISOString t in
                              if norm \<noteq> isoText \<and> drop_zero_ms norm \<noteq> isoText then None
                              else Some \<lparr>ic_createdAt = t, ic_id = js_lower iid\<rparr>)
                | _ \<Rightarrow> None)
      | _ \<Rightarrow> None)"

record cursor_validation =
  cv_valid :: bool
  cv_cursor :: "invoice_cursor option"
  cv_errorCode :: "string option"
  cv_errorMessage :: "string option"

definition validateInvoiceCursor :: "unk \<Rightarrow> cursor_validation" where
  "validateInvoiceCursor value =
     (case decodeInvoiceCursor value of
        None \<Rightarrow> \<lparr>cv_valid = False, cv_cursor = None, cv_errorCode = Some ''INVALID_CURSOR'',
                 cv_errorMessage = Some ''cursor is not valid; restart from the first page''\<rparr>
      | Some c \<Rightarrow> \<lparr>cv_valid = True, cv_cursor = Some c, cv_errorCode = None, cv_errorMessage = None\<rparr>)"

subsection \<open>The cursor cache\<close>

record cursor_entry =
  cue_cursor :: invoice_cursor
  cue_storedAt :: int

record cursor_cache =
  cc_entries :: "(string, cursor_entry) jsmap"
  cc_maxEntries :: nat
  cc_ttlMs :: rat
  cc_hits :: nat
  cc_misses :: nat
  cc_staleEvictions :: nat
  cc_capacityEvictions :: nat

definition InvoiceCursorCache_new :: "jsnum \<Rightarrow> jsnum \<Rightarrow> (cursor_error, cursor_cache) result" where
  "InvoiceCursorCache_new maxEntries ttlMs =
     (case maxEntries of
        Num n \<Rightarrow>
          if \<not> rat_is_int n \<or> n \<le> 0 then Inl InvalidMaxEntries
          else (case ttlMs of
                  Num t \<Rightarrow> if t < 0 then Inl InvalidTtl
                     else Inr \<lparr>cc_entries = [], cc_maxEntries = nat \<lfloor>n\<rfloor>, cc_ttlMs = t, cc_hits = 0,
                               cc_misses = 0, cc_staleEvictions = 0, cc_capacityEvictions = 0\<rparr>
                | _ \<Rightarrow> Inl InvalidTtl)
      | _ \<Rightarrow> Inl InvalidMaxEntries)"

definition cc_getFresh :: "string \<Rightarrow> int \<Rightarrow> cursor_cache \<Rightarrow> invoice_cursor option \<times> cursor_cache" where
  "cc_getFresh key now c =
     (case mget (cc_entries c) key of
        None \<Rightarrow> (None, c\<lparr>cc_misses := Suc (cc_misses c)\<rparr>)
      | Some e \<Rightarrow>
          if of_int (now - cue_storedAt e) > cc_ttlMs c
          then (None, c\<lparr>cc_entries := mdelete key (cc_entries c),
                        cc_staleEvictions := Suc (cc_staleEvictions c), cc_misses := Suc (cc_misses c)\<rparr>)
          else (Some (cue_cursor e),
                c\<lparr>cc_entries := mset_kv key e (mdelete key (cc_entries c)), cc_hits := Suc (cc_hits c)\<rparr>))"

function cc_evict :: "cursor_cache \<Rightarrow> cursor_cache" where
  "cc_evict c =
     (if length (cc_entries c) > cc_maxEntries c then
        (case cc_entries c of
           [] \<Rightarrow> c
         | (oldest, _) # _ \<Rightarrow>
             cc_evict (c\<lparr>cc_entries := mdelete oldest (cc_entries c),
                         cc_capacityEvictions := Suc (cc_capacityEvictions c)\<rparr>))
      else c)"
  by pat_completeness auto
termination
  by (relation "measure (\<lambda>c. length (cc_entries c))") (auto simp: mdelete_def less_Suc_eq_le)

declare cc_evict.simps [simp del]

definition cc_store :: "string \<Rightarrow> invoice_cursor \<Rightarrow> int \<Rightarrow> cursor_cache \<Rightarrow> cursor_cache" where
  "cc_store key cursor now c =
     (let m = (if mhas (cc_entries c) key then mdelete key (cc_entries c) else cc_entries c)
      in cc_evict (c\<lparr>cc_entries := mset_kv key \<lparr>cue_cursor = cursor, cue_storedAt = now\<rparr> m\<rparr>))"

definition cc_decode :: "unk \<Rightarrow> int \<Rightarrow> int \<Rightarrow> cursor_cache \<Rightarrow> invoice_cursor option \<times> cursor_cache" where
  "cc_decode value t t' c =
     (case value of
        UStr s \<Rightarrow>
          (let key = js_trim s in
           case cc_getFresh key t c of
             (Some cached, c') \<Rightarrow> (Some cached, c')
           | (None, c') \<Rightarrow>
               (case decodeInvoiceCursor value of
                  None \<Rightarrow> (None, c')
                | Some cursor \<Rightarrow> (Some cursor, cc_store key cursor t' c')))
      | _ \<Rightarrow> (None, c))"

definition cc_invalidate :: "string \<Rightarrow> cursor_cache \<Rightarrow> bool \<times> cursor_cache" where
  "cc_invalidate value c =
     (mhas (cc_entries c) (js_trim value), c\<lparr>cc_entries := mdelete (js_trim value) (cc_entries c)\<rparr>)"

definition cc_invalidateBefore :: "int \<Rightarrow> cursor_cache \<Rightarrow> nat \<times> cursor_cache" where
  "cc_invalidateBefore watermarkMs c =
     (let old = (\<lambda>p. ic_createdAt (cue_cursor (snd p)) < watermarkMs)
      in (length (filter old (cc_entries c)), c\<lparr>cc_entries := filter (Not \<circ> old) (cc_entries c)\<rparr>))"

definition cc_clear :: "cursor_cache \<Rightarrow> cursor_cache" where
  "cc_clear c = c\<lparr>cc_entries := []\<rparr>"

record cursor_cache_stats =
  ccs_size :: nat
  ccs_hits :: nat
  ccs_misses :: nat
  ccs_staleEvictions :: nat
  ccs_capacityEvictions :: nat

definition cc_stats :: "cursor_cache \<Rightarrow> cursor_cache_stats" where
  "cc_stats c = \<lparr>ccs_size = length (cc_entries c), ccs_hits = cc_hits c, ccs_misses = cc_misses c,
     ccs_staleEvictions = cc_staleEvictions c, ccs_capacityEvictions = cc_capacityEvictions c\<rparr>"

subsection \<open>Order\<close>

type_synonym row = "int option \<times> string"

definition row_time :: "row \<Rightarrow> int" where
  "row_time r = (case fst r of Some t \<Rightarrow> t | None \<Rightarrow> 0)"

definition compareNewestFirst :: "row \<Rightarrow> row \<Rightarrow> int" where
  "compareNewestFirst a b =
     (let byTime = row_time b - row_time a in
      if byTime \<noteq> 0 then byTime
      else let idA = js_lower (snd a); idB = js_lower (snd b)
           in if str_lt idA idB then 1 else if str_lt idB idA then -1 else 0)"

definition cursor_row :: "invoice_cursor \<Rightarrow> row" where
  "cursor_row c = (Some (ic_createdAt c), ic_id c)"

definition isAfterCursor :: "row option \<Rightarrow> invoice_cursor option \<Rightarrow> bool" where
  "isAfterCursor invoice cursor =
     (case (invoice, cursor) of
        (Some i, Some c) \<Rightarrow> compareNewestFirst (cursor_row c) i < 0
      | _ \<Rightarrow> False)"

subsection \<open>Encoding and decoding\<close>

lemma lower_char_hex: "is_hex c \<Longrightarrow> is_hex (lower_char c)"
  by (auto simp: is_hex_def lower_char_def Let_def of_char_of)

lemma lower_char_dash [simp]: "lower_char CHR ''-'' = CHR ''-''"
  by (simp add: lower_char_def)

lemma UUID_lower: "UUID s \<Longrightarrow> UUID (js_lower s)"
  unfolding UUID_def js_lower_def by (auto simp: lower_char_hex split: if_splits)

lemma lower_char_idem [simp]: "lower_char (lower_char c) = lower_char c"
  by (auto simp: lower_char_def Let_def of_char_of)

lemma js_lower_idem [simp]: "js_lower (js_lower s) = js_lower s"
  by (simp add: js_lower_def)

lemma length_js_lower [simp]: "length (js_lower s) = length s"
  by (simp add: js_lower_def)

lemma UUID_no_bar: "UUID s \<Longrightarrow> CHR ''|'' \<notin> set s"
proof
  assume u: "UUID s" and "CHR ''|'' \<in> set s"
  then obtain i where i: "i < 36" "s ! i = CHR ''|''" by (auto simp: UUID_def in_set_conv_nth)
  then have "(if i \<in> {8, 13, 18, 23} then s ! i = CHR ''-'' else is_hex (s ! i))"
    using u i(1) unfolding UUID_def set_upt by (meson atLeastLessThan_iff le0)
  then show False using i(2) by (simp add: is_hex_def split: if_splits)
qed

lemma pad_no_bar: "CHR ''|'' \<notin> set (pad w n)"
  using digits_pad [of w n] by (auto simp: list_all_iff is_digit_def Let_def)

lemma toISOString_no_bar: "CHR ''|'' \<notin> set (toISOString t)"
  by (simp add: toISOString_def Let_def pad_no_bar)

lemma toISOString_not_Nil [simp]: "toISOString t \<noteq> []"
  by (simp add: toISOString_def Let_def)

lemma decode_encode:
  assumes year: "four_digit_year t" and u: "UUID (js_trim iid)"
  shows "\<exists>tok. encodeInvoiceCursor (Some t) iid = Inr tok \<and>
    decodeInvoiceCursor (UStr tok) = Some \<lparr>ic_createdAt = t, ic_id = js_lower (js_trim iid)\<rparr>"
proof -
  let ?u = "js_lower (js_trim iid)"
  let ?raw = "toISOString t @ CHR ''|'' # ?u"
  let ?tok = "base64url_encode ?raw"
  have ne: "js_trim iid \<noteq> []" using u by (auto simp: UUID_def)
  have len: "length (js_trim iid) = 36" using u by (simp add: UUID_def)
  have uu: "UUID ?u" by (rule UUID_lower [OF u])
  have pat: "BASE64URL_PATTERN ?tok" by (rule base64url_encode_pattern) simp
  have "length ?raw = 61" using year len by (simp add: toISOString_head)
  then have short: "length ?tok \<le> 512" using length_base64url_encode [of ?raw] by simp
  have "?tok \<noteq> []" using pat by (simp add: BASE64URL_PATTERN_def)
  moreover have "js_trim ?tok = ?tok" by (rule BASE64URL_no_ws [OF pat])
  moreover have "split_on CHR ''|'' (base64url_decode ?tok) = [toISOString t, ?u]"
    unfolding base64url_round_trip
    using split_on_append [OF toISOString_no_bar] split_on_none [OF UUID_no_bar [OF uu]] by simp
  moreover have "?u \<noteq> []" using ne by (metis length_0_conv length_js_lower)
  ultimately have "decodeInvoiceCursor (UStr ?tok) = Some \<lparr>ic_createdAt = t, ic_id = js_lower ?u\<rparr>"
    using pat short uu toISOString_pattern [OF year] iso_time_toISOString [OF year]
    by (simp add: decodeInvoiceCursor_def del: js_lower_idem)
  moreover have "encodeInvoiceCursor (Some t) iid = Inr ?tok"
    using ne u by (simp add: encodeInvoiceCursor_def)
  ultimately show ?thesis by simp
qed

text \<open>
  C39: a cursor survives the round trip: for every creation time with a four-digit year and
  every UUID (in any letter case, with surrounding space), encoding succeeds and decoding the
  token gives the same time and the id in lower case.
\<close>
theorem cursor_round_trip:
  assumes "four_digit_year t" and "UUID (js_trim iid)"
  shows "\<exists>tok. encodeInvoiceCursor (Some t) iid = Inr tok \<and>
    decodeInvoiceCursor (UStr tok) = Some \<lparr>ic_createdAt = t, ic_id = js_lower (js_trim iid)\<rparr>"
  by (rule decode_encode [OF assms])

text \<open>Witness of C39: the epoch and an upper-case id.\<close>
theorem cursor_round_trip_witness:
  "four_digit_year 0 \<and> UUID (js_trim ''0A1B2C3D-0000-4000-8000-00000000ABCD'') \<and>
   (\<exists>tok. encodeInvoiceCursor (Some 0) ''0A1B2C3D-0000-4000-8000-00000000ABCD'' = Inr tok \<and>
     decodeInvoiceCursor (UStr tok) =
       Some \<lparr>ic_createdAt = 0, ic_id = js_lower (js_trim ''0A1B2C3D-0000-4000-8000-00000000ABCD'')\<rparr>)"
proof -
  have a: "four_digit_year 0" by (simp add: four_digit_year_def year_of_day_def DayFromYear_def MS_PER_DAY_def)
  have b: "UUID (js_trim ''0A1B2C3D-0000-4000-8000-00000000ABCD'')" by code_simp
  show ?thesis using a b cursor_round_trip [OF a b] by blast
qed

subsection \<open>The order is total on rows with distinct keys\<close>

definition row_key :: "row \<Rightarrow> int \<times> string" where
  "row_key r = (row_time r, js_lower (snd r))"

lemma compareNewestFirst_le:
  "compareNewestFirst a b \<le> 0 \<longleftrightarrow>
     row_time b < row_time a \<or> (row_time b = row_time a \<and> \<not> str_lt (js_lower (snd a)) (js_lower (snd b)))"
  by (auto simp: compareNewestFirst_def Let_def)

lemma compareNewestFirst_less:
  "compareNewestFirst a b < 0 \<longleftrightarrow>
     row_time b < row_time a \<or> (row_time b = row_time a \<and> str_lt (js_lower (snd b)) (js_lower (snd a)))"
  by (auto simp: compareNewestFirst_def Let_def dest: str_lt_asym)

interpretation newest: strict_comparator compareNewestFirst
proof
  fix a b c :: row
  show "compareNewestFirst a b \<le> 0 \<or> compareNewestFirst b a \<le> 0"
    unfolding compareNewestFirst_le using str_lt_asym by (auto simp: not_less)
  show "compareNewestFirst a b \<le> 0 \<Longrightarrow> compareNewestFirst b c \<le> 0 \<Longrightarrow> compareNewestFirst a c \<le> 0"
    unfolding compareNewestFirst_le by (auto dest: str_not_lt_trans)
  show "compareNewestFirst a b < 0 \<longleftrightarrow> \<not> compareNewestFirst b a \<le> 0"
    unfolding compareNewestFirst_le compareNewestFirst_less by auto
qed

lemma compareNewestFirst_eq: "compareNewestFirst a b = 0 \<longleftrightarrow> row_key a = row_key b"
  by (auto simp: compareNewestFirst_def row_key_def Let_def dest: str_lt_total)

lemma compareNewestFirst_key: "row_key a = row_key a' \<Longrightarrow> compareNewestFirst a b = compareNewestFirst a' b"
  by (auto simp: compareNewestFirst_def row_key_def Let_def)

definition cursor_of :: "row \<Rightarrow> invoice_cursor" where
  "cursor_of r = \<lparr>ic_createdAt = row_time r, ic_id = js_lower (snd r)\<rparr>"

lemma row_key_cursor: "row_key (cursor_row (cursor_of r)) = row_key r"
  by (simp add: row_key_def cursor_row_def cursor_of_def row_time_def)

lemma isAfterCursor_row: "isAfterCursor (Some r) (Some (cursor_of q)) \<longleftrightarrow> compareNewestFirst q r < 0"
  using compareNewestFirst_key [OF row_key_cursor [of q], of r] by (simp add: isAfterCursor_def)

text \<open>
  Keyset pagination neither repeats nor skips: in a list sorted newest first whose rows have
  distinct (time, id) keys, the rows after the cursor of the row at position \<open>i\<close> are exactly the
  rows from position \<open>i + 1\<close> on, in order.
\<close>
lemma keyset_page_is_rest:
  assumes "distinct (map row_key rows)" and "i < length rows"
  defines "ordered \<equiv> sort_by compareNewestFirst rows"
  shows "filter (\<lambda>r. isAfterCursor (Some r) (Some (cursor_of (ordered ! i)))) ordered = drop (Suc i) ordered"
proof -
  have d: "distinct rows" using assms(1) by (simp add: distinct_map)
  have "sorted_wrt (\<lambda>a b. compareNewestFirst a b < 0) ordered"
    unfolding ordered_def
    by (rule newest.sorted_strict [OF _ d])
      (use assms(1) in \<open>auto simp: compareNewestFirst_eq distinct_map inj_on_def\<close>)
  then show ?thesis
    using newest.filter_after [of ordered i] assms(2) by (simp add: isAfterCursor_row ordered_def)
qed

text \<open>Three rows, two of the same millisecond.\<close>
lemma keyset_page_is_rest_witness:
  "let rows = [(Some 5, ''a''), (Some 9, ''b''), (Some 5, ''c'')];
       ordered = sort_by compareNewestFirst rows in
   ordered = [(Some 9, ''b''), (Some 5, ''c''), (Some 5, ''a'')] \<and>
   filter (\<lambda>r. isAfterCursor (Some r) (Some (cursor_of (ordered ! 1)))) ordered = [(Some 5, ''a'')]"
proof -
  let ?rows = "[(Some 5, ''a''), (Some 9, ''b''), (Some 5, ''c'')] :: row list"
  have s: "sort_by compareNewestFirst ?rows = [(Some 9, ''b''), (Some 5, ''c''), (Some 5, ''a'')]"
    by code_simp
  have d: "distinct (map row_key ?rows)" by code_simp
  show ?thesis using keyset_page_is_rest [OF d, of 1] s by (simp add: Let_def)
qed

subsection \<open>The cursor cache is transparent\<close>

definition cc_content :: "cursor_cache \<Rightarrow> string \<Rightarrow> invoice_cursor option" where
  "cc_content c k = map_option cue_cursor (mget (cc_entries c) k)"

definition cc_ok :: "cursor_cache \<Rightarrow> bool" where
  "cc_ok c \<longleftrightarrow> mwf (cc_entries c) \<and> 1 \<le> cc_maxEntries c \<and> length (cc_entries c) \<le> cc_maxEntries c"

lemma cc_evict_entries:
  "mwf (cc_entries c) \<Longrightarrow>
     cc_entries (cc_evict c) = evict_oldest (cc_maxEntries c) (cc_entries c) \<and>
     cc_maxEntries (cc_evict c) = cc_maxEntries c \<and> cc_ttlMs (cc_evict c) = cc_ttlMs c"
proof (induction c rule: cc_evict.induct)
  case (1 c)
  show ?case
  proof (cases "length (cc_entries c) > cc_maxEntries c")
    case True
    then obtain k e rest where m: "cc_entries c = (k, e) # rest" by (cases "cc_entries c") auto
    have "mwf (mdelete k (cc_entries c))" using "1.prems" by auto
    then show ?thesis
      using "1.IH" [OF True m refl] True m
      by (simp add: cc_evict.simps [of c] evict_oldest.simps [of "cc_maxEntries c" "(k, e) # rest"])
  qed (simp add: cc_evict.simps [of c] evict_oldest.simps [of "cc_maxEntries c" "cc_entries c"])
qed

definition cc_written :: "string \<Rightarrow> invoice_cursor \<Rightarrow> int \<Rightarrow> cursor_cache \<Rightarrow> (string, cursor_entry) jsmap" where
  "cc_written k v t c = mset_kv k \<lparr>cue_cursor = v, cue_storedAt = t\<rparr> (mdelete k (cc_entries c))"

lemma cc_written:
  assumes "cc_ok c"
  shows "mwf (cc_written k v t c)"
    and "mget (cc_written k v t c) j =
      (if j = k then Some \<lparr>cue_cursor = v, cue_storedAt = t\<rparr> else mget (cc_entries c) j)"
    and "cc_written k v t c = mdelete k (cc_entries c) @ [(k, \<lparr>cue_cursor = v, cue_storedAt = t\<rparr>)]"
  using assms by (simp_all add: cc_ok_def cc_written_def mset_kv_append_del [symmetric])

lemma cc_store_entries:
  assumes "cc_ok c"
  shows "cc_entries (cc_store k v t c) =
      drop (length (cc_written k v t c) - cc_maxEntries c) (cc_written k v t c)"
    and "cc_maxEntries (cc_store k v t c) = cc_maxEntries c"
proof -
  have e: "cc_store k v t c = cc_evict (c\<lparr>cc_entries := cc_written k v t c\<rparr>)"
    by (auto simp: cc_store_def cc_written_def Let_def mdelete_fresh)
  note w = cc_written(1) [OF assms, of k v t]
  show "cc_entries (cc_store k v t c) =
      drop (length (cc_written k v t c) - cc_maxEntries c) (cc_written k v t c)"
    "cc_maxEntries (cc_store k v t c) = cc_maxEntries c"
    using cc_evict_entries [of "c\<lparr>cc_entries := cc_written k v t c\<rparr>"] w
    by (simp_all add: e evict_oldest_drop)
qed

lemma cc_ok_store: "cc_ok c \<Longrightarrow> cc_ok (cc_store k v t c)"
  using cc_written(1) [of c k v t] cc_store_entries [of c k v t] by (auto simp: cc_ok_def intro: mwf_drop)

lemma cc_store_le:
  "cc_ok c \<Longrightarrow> mget (cc_entries (cc_store k v t c)) j = Some e \<Longrightarrow> mget (cc_written k v t c) j = Some e"
  unfolding cc_store_entries(1) by (rule mget_drop_le [OF cc_written(1)])

lemma cc_content_store_le:
  assumes "cc_ok c"
  shows "cc_content (cc_store k v t c) \<subseteq>\<^sub>m (cc_content c)(k \<mapsto> v)"
  unfolding map_le_def
proof
  fix j assume "j \<in> dom (cc_content (cc_store k v t c))"
  then obtain e where e: "mget (cc_entries (cc_store k v t c)) j = Some e"
    by (auto simp: cc_content_def)
  show "cc_content (cc_store k v t c) j = ((cc_content c)(k \<mapsto> v)) j"
    using cc_store_le [OF assms e] e cc_written(2) [OF assms, of k v t j]
    by (auto simp: cc_content_def split: if_splits)
qed

lemma cc_content_store_key:
  assumes "cc_ok c"
  shows "cc_content (cc_store k v t c) k = Some v"
proof -
  have "1 \<le> cc_maxEntries c" using assms by (simp add: cc_ok_def)
  then have "(k, \<lparr>cue_cursor = v, cue_storedAt = t\<rparr>) \<in> set (cc_entries (cc_store k v t c))"
    unfolding cc_store_entries [OF assms] cc_written(3) [OF assms] by simp
  then show ?thesis using cc_ok_store [OF assms] by (simp add: cc_ok_def mget_values cc_content_def)
qed

interpretation cc: ttl_cache cc_content cc_store cc_getFresh
  "\<lambda>k c. c\<lparr>cc_entries := mdelete k (cc_entries c)\<rparr>" cc_ok
proof
  fix c :: cursor_cache and k v t
  assume ok: "cc_ok c"
  show "cc_content (cc_store k v t c) \<subseteq>\<^sub>m (cc_content c)(k \<mapsto> v)" by (rule cc_content_store_le [OF ok])
  show "cc_content (cc_store k v t c) k = Some v" by (rule cc_content_store_key [OF ok])
  show "cc_ok (cc_store k v t c)" by (rule cc_ok_store [OF ok])
  show "cc_ok (snd (cc_getFresh k t c))"
    using ok length_mdelete_le [of k "cc_entries c"] length_mdelete_mwf [of "cc_entries c" k]
    by (auto simp: cc_getFresh_def cc_ok_def length_mset_kv split: option.split)
  show "cc_ok (c\<lparr>cc_entries := mdelete k (cc_entries c)\<rparr>)"
    using ok length_mdelete_le [of k "cc_entries c"] by (auto simp: cc_ok_def)
  show "cc_content (c\<lparr>cc_entries := mdelete k (cc_entries c)\<rparr>) = (cc_content c)(k := None)"
    by (auto simp: cc_content_def)
  show "cc_content (snd (cc_getFresh k t c)) \<subseteq>\<^sub>m cc_content c"
    by (auto simp: cc_getFresh_def cc_content_def map_le_def split: option.splits if_splits)
next
  fix c :: cursor_cache and k v t
  assume "fst (cc_getFresh k t c) = Some v"
  then show "cc_content c k = Some v"
    by (auto simp: cc_getFresh_def cc_content_def split: option.splits if_splits)
qed

lemma decode_trim: "decodeInvoiceCursor (UStr (js_trim s)) = decodeInvoiceCursor (UStr s)"
  by (simp add: decodeInvoiceCursor_def)

lemma cc_decode_memoised:
  "cc_decode (UStr s) t t' c = cc.memoised (\<lambda>k. decodeInvoiceCursor (UStr k)) (js_trim s) t t' c"
  by (simp add: cc_decode_def cc.memoised_def decode_trim [of s] Let_def split: prod.split option.split)

text \<open>The states a cache can reach, with every public operation.\<close>

inductive cc_reachable :: "cursor_cache \<Rightarrow> bool" where
  new: "InvoiceCursorCache_new n ttl = Inr c \<Longrightarrow> cc_reachable c"
| decode: "cc_reachable c \<Longrightarrow> cc_reachable (snd (cc_decode value t t' c))"
| invalidate: "cc_reachable c \<Longrightarrow> cc_reachable (snd (cc_invalidate s c))"
| before: "cc_reachable c \<Longrightarrow> cc_reachable (snd (cc_invalidateBefore w c))"
| clear: "cc_reachable c \<Longrightarrow> cc_reachable (cc_clear c)"

lemma cc_all_entries_empty [simp]: "cc_entries c = [] \<Longrightarrow> cc.all_entries P c"
  unfolding cc.all_entries_def by (simp add: cc_content_def)

abbreviation cc_faithful :: "cursor_cache \<Rightarrow> bool" where
  "cc_faithful c \<equiv> cc_ok c \<and> cc.all_entries (\<lambda>k v. decodeInvoiceCursor (UStr k) = Some v) c"

lemma cc_filter_faithful:
  assumes "cc_faithful c"
  shows "cc_faithful (c\<lparr>cc_entries := filter P (cc_entries c)\<rparr>)"
proof -
  have w: "mwf (cc_entries c)" using assms by (simp add: cc_ok_def)
  then have w': "mwf (filter P (cc_entries c))" by (simp add: mwf_def distinct_map_filter)
  have "length (filter P (cc_entries c)) \<le> length (cc_entries c)" by simp
  then have "cc_ok (c\<lparr>cc_entries := filter P (cc_entries c)\<rparr>)"
    using assms w' le_trans unfolding cc_ok_def by simp (meson le_trans length_filter_le)
  moreover have "mget (filter P (cc_entries c)) k = Some e \<Longrightarrow> mget (cc_entries c) k = Some e" for k e
    using mget_values [OF w'] mget_values [OF w] by (metis filter_is_subset subsetD)
  then have "cc_content (c\<lparr>cc_entries := filter P (cc_entries c)\<rparr>) \<subseteq>\<^sub>m cc_content c"
    unfolding map_le_def cc_content_def by fastforce
  ultimately show ?thesis using assms cc.all_entries_le by blast
qed

lemma cc_reachable_faithful: "cc_reachable c \<Longrightarrow> cc_faithful c"
proof (induction rule: cc_reachable.induct)
  case (new n ttl c)
  then show ?case
    by (auto simp: InvoiceCursorCache_new_def cc_ok_def rat_is_int_def
        split: jsnum.splits if_splits)
next
  case (decode c v t t')
  then show ?case
  proof (cases v)
    case (UStr s)
    then show ?thesis
      using decode.IH cc.memoised_transparent [of c _ "js_trim s" t t'] by (simp add: cc_decode_memoised)
  qed (use decode.IH in \<open>simp_all add: cc_decode_def\<close>)
next
  case (invalidate c s)
  show ?case unfolding cc_invalidate_def snd_conv mdelete_def by (rule cc_filter_faithful [OF invalidate.IH])
next
  case (before c w)
  show ?case unfolding cc_invalidateBefore_def Let_def snd_conv by (rule cc_filter_faithful [OF before.IH])
next
  case (clear c)
  then show ?case by (simp add: cc_clear_def cc_ok_def)
qed

text \<open>
  The cursor cache is invisible: whatever operations it has been through (decoding valid
  and invalid tokens, invalidation, eviction, time passing), decoding through it gives exactly
  what \<open>decodeInvoiceCursor\<close> gives, and it never holds more than its maximum of entries.
\<close>
lemma cursor_cache_transparent:
  assumes "cc_reachable c"
  shows "fst (cc_decode value t t' c) = decodeInvoiceCursor value \<and> ccs_size (cc_stats c) \<le> cc_maxEntries c"
proof (cases "value")
  case (UStr s)
  then show ?thesis
    using cc_reachable_faithful [OF assms] cc.memoised_transparent [of c _ "js_trim s" t t']
    by (auto simp: cc_decode_memoised decode_trim cc_ok_def cc_stats_def)
qed (use cc_reachable_faithful [OF assms] in \<open>auto simp: cc_decode_def decodeInvoiceCursor_def cc_ok_def cc_stats_def\<close>)

text \<open>A cache of one entry after an invalid token.\<close>
lemma cursor_cache_transparent_witness:
  "\<exists>c. InvoiceCursorCache_new (Num 1) (Num 100) = Inr c \<and>
     fst (cc_decode (UStr ''abc'') 1 2 (snd (cc_decode (UStr ''!'') 0 0 c))) = decodeInvoiceCursor (UStr ''abc'')"
proof -
  obtain c where c: "InvoiceCursorCache_new (Num 1) (Num 100) = Inr c"
    by (simp add: InvoiceCursorCache_new_def)
  show ?thesis
    using c cursor_cache_transparent [OF cc_reachable.decode [OF cc_reachable.new [OF c]]] by blast
qed

end
