(* ===== verification/Memory_Service.thy ===== *)
theory Memory_Service
  imports Invoice_Lifecycle Invoice_Cursor
begin

text \<open>
  The in-memory invoice service, \<open>backend/src/services/invoice-memory.service.ts\<close>, with the
  memos of \<open>backend/src/utils/memo.ts\<close> and the adapter
  \<open>backend/src/storage/memory-invoice-storage.ts\<close> that forwards to it. Its state is the table and
  a cache of references to invoices; every method runs without yielding, so a call is one step.
  Clock readings, the random id and the random part of the memo are arguments.
\<close>

subsection \<open>Memos\<close>

definition STELLAR_MEMO_MAX_BYTES :: nat where "STELLAR_MEMO_MAX_BYTES = 28"

definition upper_char :: "char \<Rightarrow> char" where
  "upper_char c = (let n = of_char c :: nat in
     if 97 \<le> n \<and> n \<le> 122 then char_of (n - 32) else c)"

definition base36_digit :: "nat \<Rightarrow> char" where
  "base36_digit d = (if d < 10 then char_of (48 + d) else char_of (97 + (d - 10)))"

fun toString36 :: "nat \<Rightarrow> string" where
  "toString36 n = (if n < 36 then [base36_digit n] else toString36 (n div 36) @ [base36_digit (n mod 36)])"

declare toString36.simps [simp del]

definition is_memo_char :: "char \<Rightarrow> bool" where
  "is_memo_char c = (let n = of_char c :: nat in (65 \<le> n \<and> n \<le> 90) \<or> (48 \<le> n \<and> n \<le> 57))"

definition generateInvoiceMemo :: "nat \<Rightarrow> string \<Rightarrow> string" where
  "generateInvoiceMemo now nano =
     (let timestamp = map upper_char (toString36 now);
          random = map (\<lambda>c. if is_memo_char c then c else CHR ''0'') (map upper_char nano)
      in ''INV-'' @ timestamp @ CHR ''-'' # random)"

definition isValidMemo :: "string \<Rightarrow> bool" where
  "isValidMemo memo \<longleftrightarrow>
     length memo \<le> STELLAR_MEMO_MAX_BYTES \<and> take 4 memo = ''INV-'' \<and>
     (case split_on CHR ''-'' (drop 4 memo) of
        [a, b] \<Rightarrow> a \<noteq> [] \<and> b \<noteq> [] \<and> list_all is_memo_char a \<and> list_all is_memo_char b
      | _ \<Rightarrow> False)"

subsection \<open>The service\<close>

record memory_service =
  sv_storage :: memory_storage
  sv_cache :: "ref bounded_cache"

datatype service_error =
    SellerRequired
  | ExpiryError expiry_error
  | StorageError storage_error
  | StaleVersion version_error
  | NotPayable
  | NotCancellable

definition InvoiceMemoryService_new :: "memory_storage \<Rightarrow> nat option \<Rightarrow> int option \<Rightarrow> memory_service" where
  "InvoiceMemoryService_new storage maxEntries ttlMs =
     \<lparr>sv_storage = storage, sv_cache = BoundedCache_new maxEntries ttlMs\<rparr>"

record create_input =
  in_sellerPublicKey :: "string option"
  in_sellerName :: "string option"
  in_sellerEmail :: "string option"
  in_amount :: jsnum
  in_assetCode :: "string option"
  in_assetIssuer :: "string option"
  in_description :: "string option"
  in_customerName :: "string option"
  in_customerEmail :: "string option"
  in_expiresInDays :: expiry_days

text \<open>The readings of the clocks one call makes, in the order of the code.\<close>

record svc_times =
  tv_memo :: nat  \<comment> \<open>\<open>Date.now()\<close> of the memo\<close>
  tv_cache :: int  \<comment> \<open>the cache's clock on a lookup\<close>
  tv_now :: int  \<comment> \<open>\<open>new Date()\<close> of the first sweep or of the expiry\<close>
  tv_read :: int  \<comment> \<open>the table's clock on a read\<close>
  tv_created :: int  \<comment> \<open>\<open>new Date()\<close> of the creation\<close>
  tv_pay :: times  \<comment> \<open>the readings inside \<open>markAsPaid\<close>\<close>
  tv_write :: int  \<comment> \<open>the table's clock on a write\<close>
  tv_store :: int  \<comment> \<open>the cache's clock on a store\<close>

definition svc_createInvoice ::
  "create_input \<Rightarrow> string \<Rightarrow> string \<Rightarrow> svc_times \<Rightarrow> memory_service \<Rightarrow> (service_error, ref) result \<times> memory_service" where
  "svc_createInvoice input nano uuid t s =
     (if \<not> truthy (in_sellerPublicKey input) then (Inl SellerRequired, s)
      else let memo = generateInvoiceMemo (tv_memo t) nano in
        case calculateInvoiceExpiry (in_expiresInDays input) (Some (tv_now t)) (tv_now t) of
          Inl e \<Rightarrow> (Inl (ExpiryError e), s)
        | Inr expiresAt \<Rightarrow>
            (case ms_createInvoice
                    \<lparr>cd_id = None, cd_sellerPublicKey = the (in_sellerPublicKey input),
                     cd_sellerName = in_sellerName input, cd_sellerEmail = in_sellerEmail input,
                     cd_amount = in_amount input, cd_assetCode = Some (or_else (in_assetCode input) ''XLM''),
                     cd_assetIssuer = in_assetIssuer input, cd_memo = memo,
                     cd_description = in_description input, cd_customerName = in_customerName input,
                     cd_customerEmail = in_customerEmail input, cd_expiresAt = Some expiresAt,
                     cd_metadata = None\<rparr>
                    uuid (tv_created t) (tv_created t) (tv_write t) (sv_storage s) of
               (Inl e, st) \<Rightarrow> (Inl (StorageError e), s\<lparr>sv_storage := st\<rparr>)
             | (Inr r, st) \<Rightarrow>
                 (Inr r, s\<lparr>sv_storage := st,
                            sv_cache := bc_set (si_id (ms_heap st r)) r (tv_store t) (sv_cache s)\<rparr>)))"

definition svc_getInvoiceById ::
  "string \<Rightarrow> svc_times \<Rightarrow> memory_service \<Rightarrow> ref option \<times> memory_service" where
  "svc_getInvoiceById iid t s =
     (case bc_get iid (tv_cache t) (sv_cache s) of
        (Some r, c) \<Rightarrow> (Some r, s\<lparr>sv_cache := c\<rparr>)
      | (None, c) \<Rightarrow>
          (case ms_getInvoiceById iid (tv_now t) (tv_read t) (sv_storage s) of
             (None, st) \<Rightarrow> (None, s\<lparr>sv_storage := st, sv_cache := snd (bc_invalidate iid c)\<rparr>)
           | (Some r, st) \<Rightarrow> (Some r, s\<lparr>sv_storage := st, sv_cache := bc_set iid r (tv_store t) c\<rparr>)))"

definition svc_getInvoiceByMemo ::
  "string \<Rightarrow> svc_times \<Rightarrow> memory_service \<Rightarrow> ref option \<times> memory_service" where
  "svc_getInvoiceByMemo memo t s =
     (let (r, st) = ms_getInvoiceByMemo memo (tv_now t) (tv_read t) (sv_storage s) in (r, s\<lparr>sv_storage := st\<rparr>))"

definition svc_markAsPaid ::
  "string \<Rightarrow> string \<Rightarrow> string \<Rightarrow> (string option \<times> string option) option \<Rightarrow> jsnum option \<Rightarrow> svc_times \<Rightarrow>
   memory_service \<Rightarrow> (service_error, ref) result \<times> memory_service" where
  "svc_markAsPaid iid txHash payer info expectedVersion t s =
     (let (existing, st) = ms_getInvoiceById iid (tv_now t) (tv_read t) (sv_storage s);
          s1 = s\<lparr>sv_storage := st\<rparr>;
          pre = (case existing of
                   Some r \<Rightarrow> if expectedVersion \<noteq> None
                             then checkVersion expectedVersion (Num (of_int (version_of (ms_heap st r))))
                             else Inr ()
                 | None \<Rightarrow> Inr ())
      in case pre of
           Inl e \<Rightarrow> (Inl (StaleVersion e), s1)
         | Inr _ \<Rightarrow>
             let s2 = s1\<lparr>sv_cache := snd (bc_invalidate iid (sv_cache s1))\<rparr> in
             (case ms_markAsPaid iid txHash payer info expectedVersion (tv_pay t) st of
                (Inl e, st') \<Rightarrow> (Inl (StorageError e), s2\<lparr>sv_storage := st'\<rparr>)
              | (Inr None, st') \<Rightarrow> (Inl NotPayable, s2\<lparr>sv_storage := st'\<rparr>)
              | (Inr (Some r), st') \<Rightarrow>
                  (Inr r, s2\<lparr>sv_storage := st', sv_cache := bc_set iid r (tv_store t) (sv_cache s2)\<rparr>)))"

definition invoice_row :: "stored_invoice \<Rightarrow> row" where
  "invoice_row i = (Some (si_createdAt i), si_id i)"

definition svc_getInvoicesBySeller ::
  "string \<Rightarrow> string option \<Rightarrow> nat \<Rightarrow> nat \<Rightarrow> invoice_cursor option \<Rightarrow> svc_times \<Rightarrow> memory_service \<Rightarrow>
   stored_invoice list \<times> memory_service" where
  "svc_getInvoicesBySeller seller status limit offset after t s =
     (let (invoices, st) = ms_getAllInvoices (if truthy status then status else None) (tv_now t) (sv_storage s);
          mine = (if seller \<noteq> [] then filter (\<lambda>i. si_sellerPublicKey i = seller) invoices else invoices);
          ordered = sort_by (\<lambda>a b. compareNewestFirst (invoice_row a) (invoice_row b)) mine;
          rest = (if after \<noteq> None then filter (\<lambda>i. isAfterCursor (Some (invoice_row i)) after) ordered else ordered)
      in (slice offset (offset + limit) rest, s\<lparr>sv_storage := st\<rparr>))"

definition svc_cancelInvoice ::
  "string \<Rightarrow> jsnum option \<Rightarrow> svc_times \<Rightarrow> memory_service \<Rightarrow> (service_error, ref) result \<times> memory_service" where
  "svc_cancelInvoice iid expectedVersion t s =
     (let (existing, st) = ms_getInvoiceById iid (tv_now t) (tv_read t) (sv_storage s);
          s1 = s\<lparr>sv_storage := st\<rparr>
      in case existing of
           None \<Rightarrow> (Inl NotCancellable, s1)
         | Some r \<Rightarrow>
             let invoice = ms_heap st r in
             (case (if expectedVersion \<noteq> None
                    then checkVersion expectedVersion (Num (of_int (version_of invoice))) else Inr ()) of
                Inl e \<Rightarrow> (Inl (StaleVersion e), s1)
              | Inr _ \<Rightarrow>
                  if si_status invoice \<noteq> PENDING then (Inl NotCancellable, s1)
                  else let s2 = s1\<lparr>sv_cache := snd (bc_invalidate iid (sv_cache s1))\<rparr> in
                    (case ms_updateInvoice iid (\<lambda>i. i\<lparr>si_status := CANCELLED\<rparr>) expectedVersion (tv_write t) st of
                       (Inl e, st') \<Rightarrow> (Inl (StorageError e), s2\<lparr>sv_storage := st'\<rparr>)
                     | (Inr None, st') \<Rightarrow> (Inl NotCancellable, s2\<lparr>sv_storage := st'\<rparr>)
                     | (Inr (Some q), st') \<Rightarrow>
                         (Inr q, s2\<lparr>sv_storage := st', sv_cache := bc_set iid q (tv_store t) (sv_cache s2)\<rparr>))))"

definition svc_findOverduePendingInvoices :: "int \<Rightarrow> nat \<Rightarrow> memory_service \<Rightarrow> nat \<times> stored_invoice list" where
  "svc_findOverduePendingInvoices cutoff limit s =
     (let late = ms_findOverduePending cutoff (sv_storage s) in (length late, slice 0 limit late))"

definition svc_markExpiredInvoices :: "int \<Rightarrow> memory_service \<Rightarrow> nat \<times> memory_service" where
  "svc_markExpiredInvoices now s =
     (let (count, st) = markExpiredInvoices now (sv_storage s)
      in (count, s\<lparr>sv_storage := st,
                   sv_cache := (if count > 0 then bc_invalidateAll (sv_cache s) else sv_cache s)\<rparr>))"

definition svc_getInvoiceStats ::
  "string \<Rightarrow> svc_times \<Rightarrow> memory_service \<Rightarrow> (storage_error, invoice_stats list) result \<times> memory_service" where
  "svc_getInvoiceStats seller t s =
     (let (r, st) = ms_getStats seller (tv_now t) (sv_storage s)
      in (map_sum (\<lambda>e. e) (\<lambda>x. [x]) r, s\<lparr>sv_storage := st\<rparr>))"

definition svc_getAllInvoices :: "string option \<Rightarrow> svc_times \<Rightarrow> memory_service \<Rightarrow> stored_invoice list \<times> memory_service" where
  "svc_getAllInvoices status t s =
     (let (xs, st) = ms_getAllInvoices status (tv_now t) (sv_storage s) in (xs, s\<lparr>sv_storage := st\<rparr>))"

definition svc_invalidateInvoiceCache :: "string option \<Rightarrow> memory_service \<Rightarrow> memory_service" where
  "svc_invalidateInvoiceCache iid s =
     s\<lparr>sv_cache := (case iid of None \<Rightarrow> bc_invalidateAll (sv_cache s)
                    | Some i \<Rightarrow> snd (bc_invalidate i (sv_cache s)))\<rparr>"

subsection \<open>Generated memos\<close>

lemma length_toString36: "n < 36 ^ Suc k \<Longrightarrow> length (toString36 n) \<le> Suc k"
proof (induction k arbitrary: n)
  case 0
  then show ?case by (simp add: toString36.simps [of n])
next
  case (Suc k)
  then have "n div 36 < 36 ^ Suc k" by (simp add: less_mult_imp_div_less mult.commute)
  then show ?case using Suc.IH by (simp add: toString36.simps [of n])
qed

lemma toString36_not_Nil [simp]: "toString36 n \<noteq> []"
  by (simp add: toString36.simps [of n])

lemma memo_digit: "d < 36 \<Longrightarrow> is_memo_char (upper_char (base36_digit d))"
proof (cases "d < 10")
  case True
  then have "of_char (base36_digit d) = 48 + d" by (simp add: base36_digit_def)
  then show ?thesis using True by (simp add: upper_char_def is_memo_char_def Let_def)
next
  case False
  moreover assume "d < 36"
  ultimately have "of_char (base36_digit d) = 87 + d" by (simp add: base36_digit_def)
  moreover from this have "of_char (upper_char (base36_digit d)) = 55 + d"
    using False \<open>d < 36\<close> by (simp add: upper_char_def Let_def)
  ultimately show ?thesis using False \<open>d < 36\<close> by (simp add: is_memo_char_def Let_def)
qed

lemma memo_digits: "list_all is_memo_char (map upper_char (toString36 n))"
proof (induction n rule: toString36.induct)
  case (1 n)
  then show ?case
    by (cases "n < 36") (simp_all add: toString36.simps [of n] memo_digit)
qed

lemma memo_chars_no_dash: "list_all is_memo_char s \<Longrightarrow> CHR ''-'' \<notin> set s"
  by (auto simp: list_all_iff is_memo_char_def Let_def)

text \<open>
  Every memo the service generates is a valid one (prefix, alphabet, two parts) and fits the
  28 bytes of a Stellar memo, whatever the random source returns, as long as it returns eight
  characters and the clock is below \<open>36\<^sup>1\<^sup>5\<close> milliseconds.
\<close>
lemma generateInvoiceMemo_valid:
  assumes "length nano = 8" and "now < 36 ^ 15"
  shows "isValidMemo (generateInvoiceMemo now nano)"
proof -
  let ?a = "map upper_char (toString36 now)"
  let ?b = "map (\<lambda>c. if is_memo_char c then c else CHR ''0'') (map upper_char nano)"
  have a: "list_all is_memo_char ?a" by (rule memo_digits)
  have "is_memo_char CHR ''0''" by (simp add: is_memo_char_def)
  then have b: "list_all is_memo_char ?b" by (auto simp: list_all_iff)
  have len: "length (toString36 now) \<le> 15" using length_toString36 [of now 14] assms(2) by simp
  have sp: "split_on CHR ''-'' (?a @ CHR ''-'' # ?b) = [?a, ?b]"
    using split_on_append [OF memo_chars_no_dash [OF a], of ?b] split_on_none [OF memo_chars_no_dash [OF b]]
    by simp
  have "nano \<noteq> []" using assms(1) by auto
  then have "isValidMemo (''INV-'' @ ?a @ CHR ''-'' # ?b)"
    using sp a b len assms(1) unfolding isValidMemo_def STELLAR_MEMO_MAX_BYTES_def by simp
  then show ?thesis by (simp add: generateInvoiceMemo_def Let_def)
qed

text \<open>A concrete time and a random part with characters outside the alphabet.\<close>
lemma generateInvoiceMemo_valid_witness:
  "generateInvoiceMemo 1300 ''ab-_09Zz'' = ''INV-104-AB0009ZZ'' \<and>
   isValidMemo (generateInvoiceMemo 1300 ''ab-_09Zz'')"
proof -
  have t: "toString36 1300 = ''104''" by (simp add: toString36.simps base36_digit_def char_of_def bit_0)
  have "generateInvoiceMemo 1300 ''ab-_09Zz'' = ''INV-104-AB0009ZZ''"
    by (simp add: generateInvoiceMemo_def t upper_char_def is_memo_char_def Let_def char_of_def bit_0)
  then show ?thesis using generateInvoiceMemo_valid [of "''ab-_09Zz''" 1300] by simp
qed

end
