(* ===== verification/Service_Invariants.thy ===== *)
theory Service_Invariants
  imports Memory_Service
begin

text \<open>
  The in-memory service over whole runs: its operations as a step relation, the invariant that
  every step keeps (the table is well formed and bounded, the cache is bounded and agrees with
  the table, a transaction hash settles one invoice), and what follows for the callers.
\<close>

subsection \<open>References\<close>

text \<open>Apart from the entry of \<open>iid\<close>, a step of the table keeps references or drops them.\<close>

definition refs_le :: "string \<Rightarrow> memory_storage \<Rightarrow> memory_storage \<Rightarrow> bool" where
  "refs_le iid s s' \<longleftrightarrow> ms_next s \<le> ms_next s' \<and>
     (\<forall>j r. j \<noteq> iid \<longrightarrow> mget (ms_invoices s') j = Some r \<longrightarrow> mget (ms_invoices s) j = Some r)"

lemma refs_le_refl [simp]: "refs_le iid s s"
  by (simp add: refs_le_def)

lemma refs_le_trans: "refs_le iid s t \<Longrightarrow> refs_le iid t u \<Longrightarrow> refs_le iid s u"
  unfolding refs_le_def by (meson le_trans)

lemma refs_le_sweep [simp]: "refs_le iid s (sweep now s)"
  by (simp add: refs_le_def)

lemma evict_ref_le:
  assumes "swf s" and "mget (ms_invoices (evictIfFull s)) j = Some r"
  shows "mget (ms_invoices s) j = Some r"
proof -
  obtain gone where g: "ms_invoices s = gone @ ms_invoices (evictIfFull s)"
    using evictIfFull_spec [OF assms(1)] by blast
  have w: "mwf (ms_invoices s)" using assms(1) by (simp add: swf_def)
  have "(j, r) \<in> set (ms_invoices s)" using map_of_SomeD [OF assms(2)] g by (metis Un_iff set_append)
  then show ?thesis using mget_values [OF w] by simp
qed

lemma refs_le_setEntry:
  assumes "swf s"
  shows "refs_le (si_id (ms_heap s r)) s (setEntry r clock s)"
proof (cases "mget (ms_invoices s) (si_id (ms_heap s r))")
  case None
  then show ?thesis
    using setEntry_fresh [OF None assms] evict_ref_le [OF assms] evictIfFull_spec [OF assms]
    by (auto simp: refs_le_def put_entry_simps)
next
  case (Some q)
  then show ?thesis
    using setEntry_present [of s r clock] by (auto simp: refs_le_def put_entry_simps)
qed

lemma refs_le_alloc_set:
  assumes "swf s" and "si_id i = iid"
  shows "refs_le iid s (setEntry (ms_next s) clock (snd (alloc i s)))"
proof (rule refs_le_trans)
  show "refs_le iid s (snd (alloc i s))" by (simp add: refs_le_def)
  show "refs_le iid (snd (alloc i s)) (setEntry (ms_next s) clock (snd (alloc i s)))"
    using refs_le_setEntry [OF swf_alloc [OF assms(1), of i], of "ms_next s" clock] assms(2)
    by (simp add: alloc_def)
qed

lemma refs_le_create:
  assumes "swf s" and "ms_createInvoice data uuid a b clock s = (res, s')"
  shows "refs_le (or_else (cd_id data) uuid) s s'"
  using assms refs_le_alloc_set [OF assms(1), of "new_invoice data (or_else (cd_id data) uuid) a b" _ clock]
  by (auto simp: ms_createInvoice_def Let_def case_prod_beta new_invoice_def split: if_splits)

lemma refs_le_update:
  assumes "swf s" and "keeps_identity f" and "ms_updateInvoice iid f v clock s = (res, s')"
  shows "refs_le iid s s'"
proof (cases "mget (ms_invoices s) iid")
  case (Some r)
  then have u: "si_id (bumped f (ms_heap s r)) = iid" "si_memo (bumped f (ms_heap s r)) = si_memo (ms_heap s r)"
    using assms(1,2) by (auto simp: bumped_def keeps_identity_def dest: swf_refD)
  show ?thesis
    using assms(3) refs_le_alloc_set [OF assms(1) u(1), of clock] Some u(2)
    by (auto simp: ms_updateInvoice_def bumped_def [symmetric] Let_def case_prod_beta split: sum.splits)
qed (use assms in \<open>simp add: ms_updateInvoice_def\<close>)

lemma refs_le_pay:
  assumes s: "swf s" and run: "ms_markAsPaid iid tx p info v t s = (res, s')"
  shows "refs_le iid s s'"
proof -
  have "refs_le iid (sweep (t_sweep t) s) s'"
    using run refs_le_update [OF swf_sweep [OF s] keeps_identity_paid]
    by (auto simp: ms_markAsPaid_def Let_def split: option.splits if_splits)
  then show ?thesis by (rule refs_le_trans [OF refs_le_sweep])
qed

lemma update_result_ref:
  assumes s: "swf s" and f: "keeps_identity f" and run: "ms_updateInvoice iid f v clock s = (Inr (Some r), s')"
  shows "mget (ms_invoices s') iid = Some r"
  by (rule ms_updateInvoice_cases [OF s f, of iid v clock]) (use run in auto)

lemma pay_result_ref:
  assumes s: "swf s" and run: "ms_markAsPaid iid tx p info v t s = (Inr (Some r), s')"
  shows "mget (ms_invoices s') iid = Some r"
  using run update_result_ref [OF swf_sweep [OF s] keeps_identity_paid]
  by (auto simp: ms_markAsPaid_def Let_def split: option.splits if_splits)

subsection \<open>The invariant\<close>

definition coherent :: "memory_storage \<Rightarrow> string \<Rightarrow> ref \<Rightarrow> bool" where
  "coherent st k r \<longleftrightarrow> r < ms_next st \<and> (\<forall>r'. mget (ms_invoices st) k = Some r' \<longrightarrow> r' = r)"

definition cache_agrees :: "memory_storage \<Rightarrow> ref bounded_cache \<Rightarrow> bool" where
  "cache_agrees st c \<longleftrightarrow> bc_ok c \<and> bc.all_entries (coherent st) c"

definition svc_inv :: "memory_service \<Rightarrow> bool" where
  "svc_inv s \<longleftrightarrow> swf (sv_storage s) \<and> bounded (sv_storage s) \<and> tx_unique (view (sv_storage s)) \<and>
     cache_agrees (sv_storage s) (sv_cache s)"

lemma coherent_mono: "refs_le iid st st' \<Longrightarrow> k \<noteq> iid \<Longrightarrow> coherent st k r \<Longrightarrow> coherent st' k r"
  unfolding refs_le_def coherent_def by (meson less_le_trans)

lemma all_entries_mono:
  "bc.all_entries P c \<Longrightarrow> (\<And>k v. P k v \<Longrightarrow> Q k v) \<Longrightarrow> bc.all_entries Q c"
  unfolding bc.all_entries_def by blast

lemma agrees_same_refs:
  assumes "cache_agrees st c" and "ms_next st' = ms_next st"
    and "\<And>j r. mget (ms_invoices st') j = Some r \<Longrightarrow> mget (ms_invoices st) j = Some r"
  shows "cache_agrees st' c"
  using assms unfolding cache_agrees_def by (auto elim!: all_entries_mono simp: coherent_def)

lemma agrees_drop: "cache_agrees st c \<Longrightarrow> cache_agrees st (snd (bc_invalidate k c))"
  unfolding cache_agrees_def using bc.ok_drop bc.all_entries_drop by blast

lemma agrees_get: "cache_agrees st c \<Longrightarrow> cache_agrees st (snd (bc_get k t c))"
  unfolding cache_agrees_def using bc.ok_get bc.all_entries_get by blast

lemma agrees_empty [simp]: "bc_ok c \<Longrightarrow> cache_agrees st (bc_invalidateAll c)"
  unfolding cache_agrees_def bc.all_entries_def by (simp add: bc_invalidateAll_def bc_ok_def bc_content_def)

lemma coherent_entry: "swf st \<Longrightarrow> mget (ms_invoices st) k = Some r \<Longrightarrow> coherent st k r"
  by (simp add: coherent_def swf_refD)

lemma agrees_set:
  assumes "cache_agrees st c" and "refs_le k st st'" and "swf st'" and "mget (ms_invoices st') k = Some r"
  shows "cache_agrees st' (bc_set k r t c)"
proof -
  have c: "bc_ok c" "bc.all_entries (coherent st) c" using assms(1) by (simp_all add: cache_agrees_def)
  have "bc.all_entries (coherent st') (bc_set k r t c)"
    by (rule bc.all_entries_put_weaken [OF c])
      (use coherent_mono [OF assms(2)] coherent_entry [OF assms(3,4)] in auto)
  then show ?thesis using bc_ok_set [OF c(1)] by (simp add: cache_agrees_def)
qed

text \<open>A write to one entry: the cache forgets it first, so what it keeps still agrees.\<close>

lemma agrees_write:
  assumes "cache_agrees st c" and "refs_le iid st st'"
  shows "cache_agrees st' (snd (bc_invalidate iid c))"
proof -
  have c: "bc_ok c" "bc.all_entries (coherent st) c" using assms(1) by (simp_all add: cache_agrees_def)
  show ?thesis
    using bc.ok_drop [OF c(1)] bc.all_entries_drop_weaken [OF c, of iid "coherent st'"] coherent_mono [OF assms(2)]
    by (simp add: cache_agrees_def)
qed

subsection \<open>Steps\<close>

inductive svc_step :: "memory_service \<Rightarrow> memory_service \<Rightarrow> bool" where
  create: "svc_createInvoice input nano uuid t s = (res, s') \<Longrightarrow> svc_step s s'"
| get: "svc_getInvoiceById iid t s = (ans, s') \<Longrightarrow> svc_step s s'"
| get_memo: "svc_getInvoiceByMemo memo t s = (ans, s') \<Longrightarrow> svc_step s s'"
| pay: "svc_markAsPaid iid tx p info v t s = (res, s') \<Longrightarrow> svc_step s s'"
| cancel: "svc_cancelInvoice iid v t s = (res, s') \<Longrightarrow> svc_step s s'"
| by_seller: "svc_getInvoicesBySeller seller status limit offset after t s = (xs, s') \<Longrightarrow> svc_step s s'"
| stats: "svc_getInvoiceStats seller t s = (st, s') \<Longrightarrow> svc_step s s'"
| all: "svc_getAllInvoices status t s = (xs, s') \<Longrightarrow> svc_step s s'"
| expire: "svc_markExpiredInvoices now s = (n, s') \<Longrightarrow> svc_step s s'"
| forget: "svc_step s (svc_invalidateInvoiceCache k s)"
| drop_entry: "ms_invalidate iid (sv_storage s) = (b, st') \<Longrightarrow> svc_step s (s\<lparr>sv_storage := st'\<rparr>)"
| drop_all: "ms_invalidateAll (sv_storage s) = (n, st') \<Longrightarrow> svc_step s (s\<lparr>sv_storage := st'\<rparr>)"

inductive svc_reachable :: "memory_service \<Rightarrow> bool" where
  start: "svc_reachable (InvoiceMemoryService_new (MemoryStorage_new n k) m ttl)"
| step: "svc_reachable s \<Longrightarrow> svc_step s s' \<Longrightarrow> svc_reachable s'"

text \<open>What a step may do to the table: let its invoices evolve, or add a fresh one.\<close>

definition fresh_invoice :: "stored_invoice \<Rightarrow> bool" where
  "fresh_invoice i \<longleftrightarrow> si_status i = PENDING \<and> si_paymentTxHash i = None \<and> si_version i = Some 1"

definition grows :: "table \<Rightarrow> table \<Rightarrow> bool" where
  "grows m m' \<longleftrightarrow>
     (\<exists>j kept i. m j = None \<and> kept \<subseteq>\<^sub>m m \<and> fresh_invoice i \<and> m' = kept(j \<mapsto> i))"

definition good_step :: "memory_service \<Rightarrow> memory_service \<Rightarrow> bool" where
  "good_step s s' \<longleftrightarrow> svc_inv s' \<and>
     (evolves (view (sv_storage s)) (view (sv_storage s')) \<or>
      grows (view (sv_storage s)) (view (sv_storage s')))"

lemma good_sweep:
  assumes "svc_inv s" and "sv_storage s' = sweep now (sv_storage s)" and "cache_agrees (sv_storage s) (sv_cache s')"
  shows "good_step s s'"
  using assms agrees_same_refs [OF assms(3), of "sweep now (sv_storage s)"]
  by (simp add: good_step_def svc_inv_def swf_sweep view_swept tx_unique_swept)

lemma good_read:
  assumes inv: "svc_inv s" and st: "sv_storage s' = snd (ms_getInvoiceById iid now clock (sv_storage s))"
    and c: "cache_agrees (sv_storage s) (sv_cache s')"
  shows "good_step s s'"
proof -
  have w: "swf (sv_storage s)" using inv by (simp add: svc_inv_def)
  have refs: "ms_next (sv_storage s') = ms_next (sv_storage s)" "ms_invoices (sv_storage s') = ms_invoices (sv_storage s)"
    by (auto simp: st ms_getInvoiceById_def readEntry_def split: option.split)
  show ?thesis
    using inv ms_getInvoiceById_spec [OF w, of iid now clock] agrees_same_refs [OF c, of "sv_storage s'"] refs
    by (simp add: good_step_def svc_inv_def st tx_unique_swept)
qed

lemma good_get:
  assumes inv: "svc_inv s" and run: "svc_getInvoiceById iid t s = (r, s')"
  shows "good_step s s'"
proof (cases "bc_get iid (tv_cache t) (sv_cache s)")
  case (Pair hit c)
  have w: "swf (sv_storage s)" and c: "cache_agrees (sv_storage s) c"
    using inv agrees_get [of "sv_storage s" "sv_cache s" iid "tv_cache t"] Pair by (simp_all add: svc_inv_def)
  show ?thesis
  proof (cases hit)
    case (Some q)
    then have "s' = s\<lparr>sv_cache := c\<rparr>" using run Pair by (simp add: svc_getInvoiceById_def)
    then show ?thesis using inv c by (simp add: good_step_def svc_inv_def)
  next
    case None
    let ?g = "ms_getInvoiceById iid (tv_now t) (tv_read t) (sv_storage s)"
    have st: "sv_storage s' = snd ?g"
      using run Pair None by (auto simp: svc_getInvoiceById_def split: prod.splits option.splits)
    have "cache_agrees (sv_storage s) (sv_cache s')"
    proof (cases "fst ?g")
      case N: None
      then have "sv_cache s' = snd (bc_invalidate iid c)"
        using run Pair None by (auto simp: svc_getInvoiceById_def split: prod.splits option.splits)
      then show ?thesis using agrees_drop [OF c] by simp
    next
      case S: (Some q)
      then have "sv_cache s' = bc_set iid q (tv_store t) c"
        using run Pair None by (auto simp: svc_getInvoiceById_def split: prod.splits option.splits)
      moreover have "mget (ms_invoices (sv_storage s)) iid = Some q"
        using S ms_getInvoiceById_spec(5) [OF w] by simp
      ultimately show ?thesis using agrees_set [OF c refs_le_refl w] by simp
    qed
    then show ?thesis by (rule good_read [OF inv st])
  qed
qed

lemma good_get_memo:
  assumes inv: "svc_inv s" and run: "svc_getInvoiceByMemo memo t s = (r, s')"
  shows "good_step s s'"
proof -
  let ?st = "sv_storage s'" and ?s0 = "sv_storage s"
  have st: "?st = snd (ms_getInvoiceByMemo memo (tv_now t) (tv_read t) ?s0)" "sv_cache s' = sv_cache s"
    using run by (auto simp: svc_getInvoiceByMemo_def split: prod.splits)
  have eq: "view ?st = view (sweep (tv_now t) ?s0)" "swf ?st = swf (sweep (tv_now t) ?s0)"
      "bounded ?st = bounded ?s0" "ms_invoices ?st = ms_invoices ?s0" "ms_next ?st = ms_next ?s0"
    unfolding st(1) ms_getInvoiceByMemo_def Let_def
    by (auto split: option.splits simp: readEntry_def bounded_def)
  show ?thesis
    using inv swf_sweep [of ?s0 "tv_now t"] agrees_same_refs [of ?s0 "sv_cache s" ?st]
    by (simp add: good_step_def svc_inv_def eq st(2) view_swept tx_unique_swept)
qed

lemma svc_inv_sub:
  assumes "svc_inv s" and "swf st" and "bounded st" and "view st \<subseteq>\<^sub>m view (sv_storage s)"
    and "ms_next st = ms_next (sv_storage s)"
    and "\<And>j r. mget (ms_invoices st) j = Some r \<Longrightarrow> mget (ms_invoices (sv_storage s)) j = Some r"
  shows "good_step s (s\<lparr>sv_storage := st\<rparr>)"
  using assms agrees_same_refs [of "sv_storage s" "sv_cache s" st] tx_unique_le [OF _ assms(4)]
  by (simp add: good_step_def svc_inv_def evolves_le)

lemma good_drop_entry:
  assumes inv: "svc_inv s" and run: "ms_invalidate iid (sv_storage s) = (b, st')"
  shows "good_step s (s\<lparr>sv_storage := st'\<rparr>)"
proof (rule svc_inv_sub [OF inv])
  have w: "swf (sv_storage s)" "bounded (sv_storage s)" using inv by (simp_all add: svc_inv_def)
  note sp = ms_invalidate_spec [OF w(1), of iid, unfolded run snd_conv]
  show "swf st'" "bounded st'" "view st' \<subseteq>\<^sub>m view (sv_storage s)"
    using sp w by (auto simp: map_le_def)
  show "ms_next st' = ms_next (sv_storage s)"
    using run by (auto simp: ms_invalidate_def split: option.splits)
  show "mget (ms_invoices st') j = Some r \<Longrightarrow> mget (ms_invoices (sv_storage s)) j = Some r" for j r
    using run by (auto simp: ms_invalidate_def split: option.splits if_splits)
qed

lemma good_drop_all:
  assumes inv: "svc_inv s" and run: "ms_invalidateAll (sv_storage s) = (n, st')"
  shows "good_step s (s\<lparr>sv_storage := st'\<rparr>)"
proof (rule svc_inv_sub [OF inv])
  have w: "swf (sv_storage s)" using inv by (simp add: svc_inv_def)
  have st: "st' = (ms_clear (sv_storage s))\<lparr>ms_invalidations := ms_invalidations (sv_storage s) + length (ms_invoices (sv_storage s))\<rparr>"
    using run by (auto simp: ms_invalidateAll_def)
  show "swf st'" "bounded st'" "view st' \<subseteq>\<^sub>m view (sv_storage s)"
    using ms_clear_spec [OF w] by (simp_all add: st bounded_def)
  show "ms_next st' = ms_next (sv_storage s)" by (simp add: st ms_clear_def)
  show "mget (ms_invoices st') j = Some r \<Longrightarrow> mget (ms_invoices (sv_storage s)) j = Some r" for j r
    by (simp add: st ms_clear_def)
qed

lemma good_create:
  assumes inv: "svc_inv s" and run: "svc_createInvoice input nano uuid t s = (res, s')"
  shows "good_step s s'"
proof (cases "\<exists>r data. cd_id data = None \<and> ms_createInvoice data uuid (tv_created t) (tv_created t) (tv_write t) (sv_storage s) =
    (Inr r, sv_storage s') \<and> sv_cache s' = bc_set (si_id (ms_heap (sv_storage s') r)) r (tv_store t) (sv_cache s)")
  case False
  then have "s' = s"
    using run
    by (auto simp: svc_createInvoice_def Let_def split: if_splits sum.splits prod.splits dest: ms_createInvoice_refused)
      fastforce
  then show ?thesis using inv by (simp add: good_step_def)
next
  case True
  then obtain r data where d: "cd_id data = None"
      "ms_createInvoice data uuid (tv_created t) (tv_created t) (tv_write t) (sv_storage s) = (Inr r, sv_storage s')"
      "sv_cache s' = bc_set (si_id (ms_heap (sv_storage s') r)) r (tv_store t) (sv_cache s)" by blast
  have w: "swf (sv_storage s)" "tx_unique (view (sv_storage s))" "cache_agrees (sv_storage s) (sv_cache s)"
    using inv by (simp_all add: svc_inv_def)
  let ?i = "new_invoice data uuid (tv_created t) (tv_created t)"
  have o: "or_else (cd_id data) uuid = uuid" by (simp add: d(1) or_else_def)
  note sp = ms_createInvoice_spec [OF w(1) d(2), unfolded o]
  then obtain kept where kept: "kept \<subseteq>\<^sub>m view (sv_storage s)" "view (sv_storage s') = kept(uuid \<mapsto> ?i)" by blast
  have fresh: "fresh_invoice ?i" "si_id ?i = uuid" by (simp_all add: fresh_invoice_def new_invoice_def)
  then have "grows (view (sv_storage s)) (view (sv_storage s'))" using sp kept unfolding grows_def by blast
  moreover have "tx_unique (view (sv_storage s'))"
    unfolding kept(2)
    by (rule tx_unique_upd [OF tx_unique_le [OF w(2) kept(1)]]) (use fresh in \<open>simp add: settles_def fresh_invoice_def\<close>)
  moreover have "cache_agrees (sv_storage s') (sv_cache s')"
    using agrees_set [OF w(3) refs_le_create [OF w(1) d(2), unfolded o]] sp fresh d(3) by simp
  ultimately show ?thesis using sp by (simp add: good_step_def svc_inv_def)
qed

text \<open>The read that starts a payment or a cancellation.\<close>

lemma first_read:
  assumes inv: "svc_inv s" and g: "ms_getInvoiceById iid now clock (sv_storage s) = (existing, st)"
  shows "swf st" "bounded st" "view st = swept now (view (sv_storage s))" "tx_unique (view st)"
    "refs_le j (sv_storage s) st" "cache_agrees st (sv_cache s)" "existing = mget (ms_invoices st) iid"
proof -
  have w: "swf (sv_storage s)" using inv by (simp add: svc_inv_def)
  note sp = ms_getInvoiceById_spec [OF w, of iid now clock, unfolded g]
  have refs: "ms_next st = ms_next (sv_storage s)" "ms_invoices st = ms_invoices (sv_storage s)"
    using g by (auto simp: ms_getInvoiceById_def readEntry_def split: option.splits)
  have inv': "bounded (sv_storage s)" "tx_unique (view (sv_storage s))" "cache_agrees (sv_storage s) (sv_cache s)"
    using inv by (simp_all add: svc_inv_def)
  show "swf st" using sp(1) by simp
  show "bounded st" using sp(2) inv'(1) by simp
  show v: "view st = swept now (view (sv_storage s))" using sp(3) by simp
  show "tx_unique (view st)" unfolding v by (rule tx_unique_swept [OF inv'(2)])
  show "existing = mget (ms_invoices st) iid" using sp(5) refs(2) by simp
  show "refs_le j (sv_storage s) st" using refs by (simp add: refs_le_def)
  show "cache_agrees st (sv_cache s)"
    by (rule agrees_same_refs [OF inv'(3) refs(1)]) (simp add: refs(2))
qed

lemma good_after_read:
  assumes inv: "svc_inv s" and g: "ms_getInvoiceById iid now clock (sv_storage s) = (existing, st)"
    and "swf st'" and "bounded st'" and "evolves (view st) (view st')" and "tx_unique (view st')"
    and "cache_agrees st' c'"
  shows "good_step s (s\<lparr>sv_storage := st', sv_cache := c'\<rparr>)"
  using assms first_read(3) [OF inv g] evolves_trans [OF evolves_swept, of now "view (sv_storage s)" "view st'"]
  by (simp add: good_step_def svc_inv_def)

lemma good_pay:
  assumes inv: "svc_inv s" and run: "svc_markAsPaid iid tx p info v t s = (res, s')"
  shows "good_step s s'"
proof -
  obtain existing st where g: "ms_getInvoiceById iid (tv_now t) (tv_read t) (sv_storage s) = (existing, st)"
    by fastforce
  note rd = first_read [OF inv g]
  obtain r st' where m: "ms_markAsPaid iid tx p info v (tv_pay t) st = (r, st')" by fastforce
  note sp = ms_markAsPaid_spec [OF rd(1), of iid tx p info v "tv_pay t", unfolded m fst_conv snd_conv]
  let ?m = "swept (t_sweep (tv_pay t)) (view st)"
  have ev: "evolves (view st) (view st')"
    using evolves_trans [OF evolves_swept pay_spec_evolves] sp by metis
  have tx: "tx_unique (view st')"
    using pay_spec_tx_unique [OF tx_unique_swept [OF rd(4)]] sp by metis
  note refs = refs_le_pay [OF rd(1) m]
  have dropped: "cache_agrees st' (snd (bc_invalidate iid (sv_cache s)))"
    by (rule agrees_write [OF rd(6) refs])
  consider (stale) "s' = s\<lparr>sv_storage := st\<rparr>"
    | (refused) "s' = s\<lparr>sv_storage := st', sv_cache := snd (bc_invalidate iid (sv_cache s))\<rparr>"
    | (paid) q where "r = Inr (Some q)"
        "s' = s\<lparr>sv_storage := st', sv_cache := bc_set iid q (tv_store t) (snd (bc_invalidate iid (sv_cache s)))\<rparr>"
    using run by (auto simp: svc_markAsPaid_def g m Let_def split: sum.splits option.splits if_splits)
  then show ?thesis
  proof cases
    case stale
    then show ?thesis
      using good_after_read [OF inv g rd(1,2) evolves_refl rd(4,6)] by simp
  next
    case refused
    then show ?thesis using good_after_read [OF inv g _ _ ev tx dropped] sp rd(2) by simp
  next
    case (paid q)
    have "cache_agrees st' (bc_set iid q (tv_store t) (snd (bc_invalidate iid (sv_cache s))))"
      using agrees_set [OF dropped refs_le_refl] pay_result_ref [OF rd(1)] m paid(1) sp by blast
    then show ?thesis using good_after_read [OF inv g _ _ ev tx] sp rd(2) paid(2) by simp
  qed
qed

lemma tx_unique_cancelled:
  assumes "tx_unique m" and "m iid = Some i"
  shows "tx_unique (m(iid \<mapsto> bumped cancelled i))"
proof (rule tx_unique_upd [OF assms(1)])
  fix h k b assume "settles h (bumped cancelled i)" and "k \<noteq> iid" and "m k = Some b"
  then show "\<not> settles h b"
    using assms unfolding tx_unique_def by (auto simp: settles_def bumped_def)
qed

lemma good_cancel:
  assumes inv: "svc_inv s" and run: "svc_cancelInvoice iid v t s = (res, s')"
  shows "good_step s s'"
proof -
  obtain existing st where g: "ms_getInvoiceById iid (tv_now t) (tv_read t) (sv_storage s) = (existing, st)"
    by fastforce
  note rd = first_read [OF inv g]
  have stay: "good_step s (s\<lparr>sv_storage := st\<rparr>)"
    using good_after_read [OF inv g rd(1,2) evolves_refl rd(4,6)] by simp
  show ?thesis
  proof (cases "\<exists>r. existing = Some r \<and> si_status (ms_heap st r) = PENDING \<and>
      (v = None \<or> checkVersion v (Num (of_int (version_of (ms_heap st r)))) = Inr ())")
    case False
    then have "s' = s\<lparr>sv_storage := st\<rparr>"
      using run by (auto simp: svc_cancelInvoice_def g Let_def split: sum.splits option.splits if_splits)
    then show ?thesis using stay by simp
  next
    case True
    then obtain r where r: "existing = Some r" "si_status (ms_heap st r) = PENDING"
        "v = None \<or> checkVersion v (Num (of_int (version_of (ms_heap st r)))) = Inr ()" by blast
    have at: "view st iid = Some (ms_heap st r)" using rd(7) [symmetric] r(1) by (simp add: view_def)
    obtain u st' where m: "ms_updateInvoice iid cancelled v (tv_write t) st = (u, st')" by fastforce
    note refs = refs_le_update [OF rd(1) keeps_identity_cancel m]
    have dropped: "cache_agrees st' (snd (bc_invalidate iid (sv_cache s)))"
      by (rule agrees_write [OF rd(6) refs])
    have out: "swf st' \<and> bounded st' \<and> evolves (view st) (view st') \<and> tx_unique (view st')"
    proof (rule ms_updateInvoice_cases [OF rd(1) keeps_identity_cancel, of iid v "tv_write t"])
      fix x assume "ms_updateInvoice iid cancelled v (tv_write t) st = (x, st)"
      then show ?thesis using m rd by simp
    next
      fix x st2 i
      assume "ms_updateInvoice iid cancelled v (tv_write t) st = (Inr (Some x), st2)" "view st iid = Some i"
        "swf st2" "bounded st2 = bounded st" "view st2 = (view st)(iid \<mapsto> bumped cancelled i)"
      then show ?thesis
        using m rd(2,4) at r(2) evolves_upd [OF _ lifecycle_cancelled] tx_unique_cancelled by auto
    qed
    consider (refused) "s' = s\<lparr>sv_storage := st', sv_cache := snd (bc_invalidate iid (sv_cache s))\<rparr>"
      | (done1) q where "u = Inr (Some q)"
          "s' = s\<lparr>sv_storage := st', sv_cache := bc_set iid q (tv_store t) (snd (bc_invalidate iid (sv_cache s)))\<rparr>"
      using run r by (auto simp: svc_cancelInvoice_def g m Let_def split: sum.splits option.splits if_splits)
    then show ?thesis
    proof cases
      case refused
      then show ?thesis using good_after_read [OF inv g _ _ _ _ dropped] out by simp
    next
      case (done1 q)
      have "cache_agrees st' (bc_set iid q (tv_store t) (snd (bc_invalidate iid (sv_cache s))))"
        using agrees_set [OF dropped refs_le_refl] update_result_ref [OF rd(1) keeps_identity_cancel] m done1(1) out
        by blast
      then show ?thesis using good_after_read [OF inv g] out done1(2) by simp
    qed
  qed
qed

lemma getAll_storage: "snd (ms_getAllInvoices status now st) = sweep now st"
  by (simp add: ms_getAllInvoices_def Let_def)

lemma good_lists:
  assumes "svc_inv s"
  shows "svc_getInvoicesBySeller seller status limit offset after t s = (xs, s') \<Longrightarrow> good_step s s'"
    and "svc_getInvoiceStats seller t s = (y, s') \<Longrightarrow> good_step s s'"
    and "svc_getAllInvoices status t s = (xs, s') \<Longrightarrow> good_step s s'"
proof -
  have c: "cache_agrees (sv_storage s) (sv_cache s)" using assms by (simp add: svc_inv_def)
  show "svc_getInvoicesBySeller seller status limit offset after t s = (xs, s') \<Longrightarrow> good_step s s'"
    by (rule good_sweep [OF assms, of _ "tv_now t"])
      (use c in \<open>auto simp: svc_getInvoicesBySeller_def Let_def case_prod_beta getAll_storage\<close>)
  show "svc_getInvoiceStats seller t s = (y, s') \<Longrightarrow> good_step s s'"
    by (rule good_sweep [OF assms, of _ "tv_now t"])
      (use c in \<open>auto simp: svc_getInvoiceStats_def ms_getStats_def Let_def\<close>)
  show "svc_getAllInvoices status t s = (xs, s') \<Longrightarrow> good_step s s'"
    by (rule good_sweep [OF assms, of _ "tv_now t"])
      (use c in \<open>auto simp: svc_getAllInvoices_def case_prod_beta getAll_storage\<close>)
qed

lemma good_expire:
  assumes "svc_inv s" and "svc_markExpiredInvoices now s = (n, s')"
  shows "good_step s s'"
proof (rule good_sweep [OF assms(1), of _ now])
  have c: "cache_agrees (sv_storage s) (sv_cache s)" using assms(1) by (simp add: svc_inv_def)
  then have "bc_ok (sv_cache s)" by (simp add: cache_agrees_def)
  then show "sv_storage s' = sweep now (sv_storage s)" "cache_agrees (sv_storage s) (sv_cache s')"
    using assms(2) c by (auto simp: svc_markExpiredInvoices_def case_prod_beta Let_def)
qed

lemma good_forget: "svc_inv s \<Longrightarrow> good_step s (svc_invalidateInvoiceCache k s)"
  using agrees_drop [of "sv_storage s" "sv_cache s"]
  by (auto simp: good_step_def svc_inv_def svc_invalidateInvoiceCache_def cache_agrees_def [of _ "sv_cache s"]
      split: option.split)

lemma svc_step_good: "svc_step s s' \<Longrightarrow> svc_inv s \<Longrightarrow> good_step s s'"
  by (induction rule: svc_step.induct)
    (simp_all add: good_create good_get good_get_memo good_pay good_cancel good_lists good_expire good_forget
      good_drop_entry good_drop_all)

lemma svc_inv_new: "svc_inv (InvoiceMemoryService_new (MemoryStorage_new n k) m ttl)"
proof -
  have "view (MemoryStorage_new n k) = Map.empty" by (simp add: view_def MemoryStorage_new_def fun_eq_iff)
  moreover have "cache_agrees (MemoryStorage_new n k) (BoundedCache_new m ttl)"
    unfolding cache_agrees_def bc.all_entries_def by (simp add: bc_content_def) (simp add: BoundedCache_new_def)
  ultimately show ?thesis
    by (simp add: svc_inv_def InvoiceMemoryService_new_def tx_unique_def)
qed

lemma svc_reachable_inv: "svc_reachable s \<Longrightarrow> svc_inv s"
  by (induction rule: svc_reachable.induct) (use svc_inv_new svc_step_good in \<open>auto simp: good_step_def\<close>)

subsection \<open>What callers may rely on\<close>

lemma memo_unique:
  assumes "swf st" and "view st j = Some a" and "view st k = Some b" and "si_memo a = si_memo b" and "si_memo a \<noteq> []"
  shows "j = k"
proof -
  obtain r q where "mget (ms_invoices st) j = Some r" "a = ms_heap st r"
      "mget (ms_invoices st) k = Some q" "b = ms_heap st q"
    using assms(2,3) by (auto simp: view_def)
  then show ?thesis
    using swf_memo_index [OF assms(1)] assms(4,5) by (metis option.inject)
qed

lemma good_step_lifecycle:
  assumes "good_step s s'" and "view (sv_storage s) iid = Some i" and "view (sv_storage s') iid = Some i'"
  shows "lifecycle i i'"
proof (cases "evolves (view (sv_storage s)) (view (sv_storage s'))")
  case True
  then show ?thesis using assms(2,3) by (fastforce simp: evolves_def)
next
  case False
  then obtain j kept a where k: "view (sv_storage s) j = None" "kept \<subseteq>\<^sub>m view (sv_storage s)"
      "view (sv_storage s') = kept(j \<mapsto> a)"
    using assms(1) by (auto simp: good_step_def grows_def)
  then have "kept iid = Some i'" using assms(2,3) by (auto split: if_splits)
  then have "view (sv_storage s) iid = Some i'" using k(2) by (metis domI map_le_def)
  then show ?thesis using assms(2) by simp
qed

text \<open>A concrete reachable state with one pending invoice, for the witnesses.\<close>

definition demo_input :: create_input where
  "demo_input =
     \<lparr>in_sellerPublicKey = Some ''G'', in_sellerName = None, in_sellerEmail = None, in_amount = Num 5,
      in_assetCode = None, in_assetIssuer = None, in_description = None, in_customerName = None,
      in_customerEmail = None, in_expiresInDays = EDMissing\<rparr>"

definition demo_times :: "int \<Rightarrow> svc_times" where
  "demo_times n =
     \<lparr>tv_memo = 0, tv_cache = n, tv_now = n, tv_read = n, tv_created = n,
      tv_pay = \<lparr>t_sweep = n, t_check = n, t_stamp = n, t_clock = n\<rparr>, tv_write = n, tv_store = n\<rparr>"

definition demo_service :: memory_service where
  "demo_service = snd (svc_createInvoice demo_input ''n'' ''u'' (demo_times 0)
     (InvoiceMemoryService_new (MemoryStorage_new None None) None (Some 1000000000)))"

definition demo_invoice :: stored_invoice where
  "demo_invoice = ms_heap (sv_storage demo_service) 0"

lemma demo_reachable: "svc_reachable demo_service"
  unfolding demo_service_def
  by (rule svc_reachable.step [OF svc_reachable.start svc_step.create]) (rule prod.collapse [symmetric])

lemma evictIfFull_small: "length (ms_invoices s) < ms_maxEntries s \<Longrightarrow> evictIfFull s = s"
  by (simp add: evictIfFull.simps)

lemma demo_eval:
  "ms_invoices (sv_storage demo_service) = [(''u'', 0)]"
  "mget (bc_entries (sv_cache demo_service)) ''u'' = Some \<lparr>ce_value = 0, ce_storedAt = 0\<rparr>"
  "bc_ttlMs (sv_cache demo_service) = 1000000000"
  "si_status demo_invoice = PENDING" "si_expiresAt demo_invoice = 604800000" "si_version demo_invoice = Some 1"
  by (simp_all add: demo_invoice_def demo_service_def svc_createInvoice_def demo_input_def demo_times_def
      calculateInvoiceExpiry_def validateInvoiceExpiryDays_def expiry_consts valid_now_def rat_is_int_def
      ms_createInvoice_def MemoryStorage_new_def InvoiceMemoryService_new_def or_else_def alloc_def
      setEntry_def evictIfFull_small DEFAULT_MAX_ENTRIES_def new_invoice_def Let_def
      bc_set_def BoundedCache_new_def evict_oldest.simps)

lemma demo_view: "view (sv_storage demo_service) ''u'' = Some demo_invoice"
  by (simp add: view_def demo_eval demo_invoice_def)

text \<open>
  C3: in every state the in-memory service can reach, through any sequence of calls with any
  clock readings, the table and the cache hold at most their maximum numbers of entries, every
  entry is filed under its own id, no two stored invoices share a payment memo, and no
  transaction hash settles two stored invoices.
\<close>
theorem service_invariant:
  assumes "svc_reachable s"
  shows "length (ms_invoices (sv_storage s)) \<le> ms_maxEntries (sv_storage s) \<and>
    bc_size (sv_cache s) \<le> bc_maxEntries (sv_cache s) \<and>
    (\<forall>j a. view (sv_storage s) j = Some a \<longrightarrow> si_id a = j) \<and>
    (\<forall>j k a b. view (sv_storage s) j = Some a \<and> view (sv_storage s) k = Some b \<and> si_memo a = si_memo b \<and>
       si_memo a \<noteq> [] \<longrightarrow> j = k) \<and>
    (\<forall>j k a b h. view (sv_storage s) j = Some a \<and> view (sv_storage s) k = Some b \<and> h \<noteq> [] \<and>
       si_paymentTxHash a = Some h \<and> si_paymentTxHash b = Some h \<longrightarrow> j = k)"
proof -
  have i: "swf (sv_storage s)" "bounded (sv_storage s)" "tx_unique (view (sv_storage s))" "bc_ok (sv_cache s)"
    using svc_reachable_inv [OF assms] by (simp_all add: svc_inv_def cache_agrees_def)
  show ?thesis
  proof (intro conjI allI impI)
    show "length (ms_invoices (sv_storage s)) \<le> ms_maxEntries (sv_storage s)" using i(2) by (simp add: bounded_def)
    show "bc_size (sv_cache s) \<le> bc_maxEntries (sv_cache s)" using i(4) by (simp add: bc_ok_def bc_size_def)
  next
    fix j a assume "view (sv_storage s) j = Some a"
    then show "si_id a = j" by (rule swf_viewD [OF i(1)])
  next
    fix j k a b
    assume "view (sv_storage s) j = Some a \<and> view (sv_storage s) k = Some b \<and> si_memo a = si_memo b \<and> si_memo a \<noteq> []"
    then show "j = k" using memo_unique [OF i(1)] by blast
  next
    fix j k a b h
    assume "view (sv_storage s) j = Some a \<and> view (sv_storage s) k = Some b \<and> h \<noteq> [] \<and>
      si_paymentTxHash a = Some h \<and> si_paymentTxHash b = Some h"
    then show "j = k" using i(3) unfolding tx_unique_def settles_def by blast
  qed
qed

text \<open>Witness of C3: the state after one creation.\<close>
theorem service_invariant_witness:
  "svc_reachable demo_service \<and> view (sv_storage demo_service) ''u'' = Some demo_invoice \<and>
   si_id demo_invoice = ''u'' \<and> 1 \<le> ms_maxEntries (sv_storage demo_service)"
proof -
  note i = service_invariant [OF demo_reachable]
  have "length (ms_invoices (sv_storage demo_service)) \<le> ms_maxEntries (sv_storage demo_service)"
    using i by (rule conjunct1)
  moreover have "\<forall>j a. view (sv_storage demo_service) j = Some a \<longrightarrow> si_id a = j"
    using i by (elim conjE)
  ultimately show ?thesis using demo_reachable demo_view by (simp add: demo_eval)
qed

text \<open>
  C4: the lifecycle of a stored invoice: one call either leaves a stored invoice exactly as it
  is, or moves it out of PENDING, keeping its id, seller, amount, asset, memo and dates: to
  EXPIRED with nothing else changed, or to PAID or CANCELLED with the next version number; a
  cancellation records no payment. So PAID, EXPIRED and CANCELLED are final.
\<close>
theorem invoice_lifecycle:
  assumes "svc_reachable s" and "svc_step s s'"
    and "view (sv_storage s) iid = Some i" and "view (sv_storage s') iid = Some i'"
  shows "i' = i \<or>
    (si_status i = PENDING \<and> same_terms i i' \<and>
     (i' = i\<lparr>si_status := EXPIRED\<rparr> \<or>
      (si_status i' = CANCELLED \<and> si_paymentTxHash i' = si_paymentTxHash i \<and> si_version i' = Some (version_of i + 1)) \<or>
      (si_status i' = PAID \<and> si_paymentTxHash i' \<noteq> None \<and> si_paidAt i' \<noteq> None \<and> si_version i' = Some (version_of i + 1))))"
proof -
  have "good_step s s'" by (rule svc_step_good [OF assms(2) svc_reachable_inv [OF assms(1)]])
  then have "lifecycle i i'" by (rule good_step_lifecycle [OF _ assms(3,4)])
  then show ?thesis unfolding lifecycle_def by blast
qed

text \<open>Witness of C4: the invoice of the concrete state expires.\<close>
theorem invoice_lifecycle_witness:
  "let s' = snd (svc_markExpiredInvoices 700000000 demo_service) in
   svc_step demo_service s' \<and> view (sv_storage s') ''u'' = Some (expire 700000000 demo_invoice) \<and>
   si_status (expire 700000000 demo_invoice) = EXPIRED \<and> same_terms demo_invoice (expire 700000000 demo_invoice)"
proof -
  let ?s = "snd (svc_markExpiredInvoices 700000000 demo_service)"
  have st: "svc_step demo_service ?s" by (rule svc_step.expire) (rule prod.collapse [symmetric])
  have "sv_storage ?s = sweep 700000000 (sv_storage demo_service)"
    by (simp add: svc_markExpiredInvoices_def case_prod_beta Let_def)
  then have v: "view (sv_storage ?s) ''u'' = Some (expire 700000000 demo_invoice)"
    by (simp add: view_sweep demo_view)
  have e: "si_status (expire 700000000 demo_invoice) = EXPIRED" by (simp add: expire_def demo_eval)
  show ?thesis
    using invoice_lifecycle [OF demo_reachable st demo_view v] st v e demo_eval(4) by (auto simp: Let_def)
qed

text \<open>
  A caller of \<open>getInvoiceById\<close> is never shown another invoice or an outdated version: for a
  stored id the answer is the stored invoice, at most short of an expiry that is due.
\<close>
lemma getInvoiceById_current:
  assumes "svc_reachable s" and "view (sv_storage s) iid = Some i"
  shows "\<exists>r s'. svc_getInvoiceById iid t s = (Some r, s') \<and>
    (ms_heap (sv_storage s') r = i \<or> ms_heap (sv_storage s') r = expire (tv_now t) i)"
proof -
  have inv: "swf (sv_storage s)" "bc_ok (sv_cache s)" "bc.all_entries (coherent (sv_storage s)) (sv_cache s)"
    using svc_reachable_inv [OF assms(1)] by (simp_all add: svc_inv_def cache_agrees_def)
  obtain q where q: "mget (ms_invoices (sv_storage s)) iid = Some q" "i = ms_heap (sv_storage s) q"
    using assms(2) by (auto simp: view_def)
  obtain hit c where g: "bc_get iid (tv_cache t) (sv_cache s) = (hit, c)" by fastforce
  show ?thesis
  proof (cases hit)
    case (Some r)
    then have "coherent (sv_storage s) iid r"
      using bc.all_entries_hit [OF inv(2,3), of iid "tv_cache t" r] g by simp
    then have "r = q" using q by (simp add: coherent_def)
    then show ?thesis using Some g q by (simp add: svc_getInvoiceById_def)
  next
    case None
    obtain st where m: "ms_getInvoiceById iid (tv_now t) (tv_read t) (sv_storage s) = (Some q, st)"
      using ms_getInvoiceById_spec(5) [OF inv(1), of iid "tv_now t" "tv_read t"] q(1) by (metis prod.collapse)
    have "ms_heap st q = expire (tv_now t) i"
      using ms_getInvoiceById_spec(4) [OF inv(1), of iid "tv_now t" "tv_read t"] m assms(2)
      by (simp add: swept_def)
    then show ?thesis using None g m by (simp add: svc_getInvoiceById_def)
  qed
qed

text \<open>Reading the invoice of the concrete state.\<close>
lemma getInvoiceById_current_witness:
  "\<exists>r s'. svc_getInvoiceById ''u'' (demo_times 5) demo_service = (Some r, s') \<and>
     si_status (ms_heap (sv_storage s') r) = PENDING"
proof -
  have "expire 5 demo_invoice = demo_invoice" by (simp add: expire_def demo_eval)
  moreover have "tv_now (demo_times 5) = 5" by (simp add: demo_times_def)
  ultimately show ?thesis
    using getInvoiceById_current [OF demo_reachable demo_view, of "demo_times 5"] demo_eval(4) by auto
qed

text \<open>
  The due expiry can be missing indeed: while the cache entry is fresh, an overdue invoice
  is reported as PENDING, because a cache hit returns before the sweep of the table.
\<close>
lemma getInvoiceById_overdue_pending:
  "\<exists>s s' iid t r. svc_reachable s \<and> svc_getInvoiceById iid t s = (Some r, s') \<and>
     si_status (ms_heap (sv_storage s') r) = PENDING \<and> overdue (tv_now t) (ms_heap (sv_storage s') r)"
proof -
  let ?t = "demo_times 700000000"
  have "svc_getInvoiceById ''u'' ?t demo_service =
      (Some 0, demo_service\<lparr>sv_cache := snd (bc_get ''u'' 700000000 (sv_cache demo_service))\<rparr>)"
    by (simp add: svc_getInvoiceById_def bc_get_def bc_isStale_def demo_eval demo_times_def)
  moreover have "ms_heap (sv_storage demo_service) 0 = demo_invoice" by (simp add: demo_invoice_def)
  ultimately show ?thesis
    using demo_reachable demo_eval(4,5) by (intro exI) (auto simp: demo_times_def)
qed

end
