(* ===== verification/Lock_Manager.thy ===== *)
theory Lock_Manager
  imports Js_Prelude
begin

text \<open>
  The keyed asynchronous mutex, \<open>backend/src/concurrency/lock-manager.ts\<close>. A promise is a number
  and resolving it puts it into \<open>lm_resolved\<close>. Between two \<open>await\<close>s the code runs without
  interruption, so a call of \<open>acquire\<close> is a sequence of attempts: each either takes the free lock
  or awaits the promise in the table; the interleaving of any number of calls is the step
  relation \<open>lock_step\<close>.
\<close>

record lock_manager =
  lm_locks :: "(string, nat) jsmap"
  lm_resolved :: "nat set"
  lm_next :: nat

definition lm_new :: lock_manager where
  "lm_new = \<lparr>lm_locks = [], lm_resolved = {}, lm_next = 0\<rparr>"

text \<open>One round of \<open>acquire\<close>: the promise to await, or the promise of the lock taken.\<close>

definition lm_try :: "string \<Rightarrow> lock_manager \<Rightarrow> (nat + nat) \<times> lock_manager" where
  "lm_try invoiceId l =
     (case mget (lm_locks l) invoiceId of
        Some p \<Rightarrow> (Inl p, l)
      | None \<Rightarrow>
          let lockPromise = lm_next l in
          (Inr lockPromise,
           l\<lparr>lm_locks := mset_kv invoiceId lockPromise (lm_locks l), lm_next := Suc lockPromise\<rparr>))"

text \<open>The release function \<open>acquire\<close> returns.\<close>

definition lm_release :: "string \<Rightarrow> nat \<Rightarrow> lock_manager \<Rightarrow> lock_manager" where
  "lm_release invoiceId lockPromise l =
     l\<lparr>lm_locks := (if mget (lm_locks l) invoiceId = Some lockPromise
                    then mdelete invoiceId (lm_locks l) else lm_locks l),
       lm_resolved := insert lockPromise (lm_resolved l)\<rparr>"

definition lm_isLocked :: "string \<Rightarrow> lock_manager \<Rightarrow> bool" where
  "lm_isLocked invoiceId l = mhas (lm_locks l) invoiceId"

definition lm_activeLocks :: "lock_manager \<Rightarrow> nat" where
  "lm_activeLocks l = length (lm_locks l)"

subsection \<open>Concurrent calls\<close>

datatype lock_call =
    Idle
  | Trying string
  | Waiting string nat
  | Holding string nat
  | Released string nat

type_synonym lock_system = "lock_manager \<times> (nat \<Rightarrow> lock_call)"

inductive lock_step :: "lock_system \<Rightarrow> lock_system \<Rightarrow> bool" where
  call: "c t = Idle \<Longrightarrow> lock_step (l, c) (l, c(t := Trying i))"
| wait: "c t = Trying i \<Longrightarrow> lm_try i l = (Inl p, l') \<Longrightarrow> lock_step (l, c) (l', c(t := Waiting i p))"
| take: "c t = Trying i \<Longrightarrow> lm_try i l = (Inr p, l') \<Longrightarrow> lock_step (l, c) (l', c(t := Holding i p))"
| wake: "c t = Waiting i p \<Longrightarrow> p \<in> lm_resolved l \<Longrightarrow> lock_step (l, c) (l, c(t := Trying i))"
| release: "c t = Holding i p \<Longrightarrow> lock_step (l, c) (lm_release i p l, c(t := Released i p))"
| again: "c t = Released i p \<Longrightarrow> lock_step (l, c) (lm_release i p l, c)"

inductive_cases lock_stepE: "lock_step (l, c) s'"

inductive lock_reachable :: "lock_system \<Rightarrow> bool" where
  start: "lock_reachable (lm_new, \<lambda>_. Idle)"
| step: "lock_reachable s \<Longrightarrow> lock_step s s' \<Longrightarrow> lock_reachable s'"

definition held_ok :: "lock_manager \<Rightarrow> lock_call \<Rightarrow> bool" where
  "held_ok l k = (case k of
       Holding i p \<Rightarrow> mget (lm_locks l) i = Some p \<and> p < lm_next l \<and> p \<notin> lm_resolved l
     | Waiting i p \<Rightarrow> p \<in> lm_resolved l \<or> mget (lm_locks l) i = Some p
     | Released i p \<Rightarrow> p \<in> lm_resolved l
     | _ \<Rightarrow> True)"

definition lock_inv :: "lock_system \<Rightarrow> bool" where
  "lock_inv s \<longleftrightarrow>
     (\<forall>t. held_ok (fst s) (snd s t)) \<and>
     (\<forall>i p. mget (lm_locks (fst s)) i = Some p \<longrightarrow>
        p < lm_next (fst s) \<and> p \<notin> lm_resolved (fst s) \<and> (\<exists>t. snd s t = Holding i p)) \<and>
     (\<forall>t u i j p. snd s t = Holding i p \<longrightarrow> snd s u = Holding j p \<longrightarrow> t = u) \<and>
     (\<forall>p \<in> lm_resolved (fst s). p < lm_next (fst s))"

lemma lock_invD:
  assumes "lock_inv (l, c)"
  shows "held_ok l (c t)"
    and "mget (lm_locks l) i = Some p \<Longrightarrow> p < lm_next l \<and> p \<notin> lm_resolved l \<and> (\<exists>t. c t = Holding i p)"
    and "c t = Holding i p \<Longrightarrow> c u = Holding j p \<Longrightarrow> t = u"
    and "p \<in> lm_resolved l \<Longrightarrow> p < lm_next l"
  using assms unfolding lock_inv_def by auto

lemma lock_invI:
  assumes "\<And>t. held_ok l (c t)"
    and "\<And>i p. mget (lm_locks l) i = Some p \<Longrightarrow> p < lm_next l \<and> p \<notin> lm_resolved l \<and> (\<exists>t. c t = Holding i p)"
    and "\<And>t u i j p. c t = Holding i p \<Longrightarrow> c u = Holding j p \<Longrightarrow> t = u"
    and "\<And>p. p \<in> lm_resolved l \<Longrightarrow> p < lm_next l"
  shows "lock_inv (l, c)"
  unfolding lock_inv_def fst_conv snd_conv using assms by blast

lemma lock_inv_call_state:
  assumes inv: "lock_inv (l, c)" and old: "\<And>i p. c t \<noteq> Holding i p" and new: "\<And>i p. k \<noteq> Holding i p" and ok: "held_ok l k"
  shows "lock_inv (l, c(t := k))"
proof (rule lock_invI)
  show "held_ok l ((c(t := k)) u)" for u using lock_invD(1) [OF inv] ok by simp
  show "p < lm_next l \<and> p \<notin> lm_resolved l \<and> (\<exists>u. (c(t := k)) u = Holding i p)" if "mget (lm_locks l) i = Some p" for i p
    using lock_invD(2) [OF inv that] old by (metis fun_upd_other)
  show "u = v" if "(c(t := k)) u = Holding i p" "(c(t := k)) v = Holding j p" for u v i j p
    using that lock_invD(3) [OF inv] new by (metis fun_upd_apply)
qed (use lock_invD(4) [OF inv] in simp)

lemma lock_inv_take:
  assumes inv: "lock_inv (l, c)" and t: "c t = Trying i" and tr: "lm_try i l = (Inr p, l')"
  shows "lock_inv (l', c(t := Holding i p))"
proof (rule lock_invI)
  have free: "mget (lm_locks l) i = None" and p: "p = lm_next l"
    and l': "lm_locks l' = mset_kv i p (lm_locks l)" "lm_next l' = Suc p" "lm_resolved l' = lm_resolved l"
    using tr by (auto simp: lm_try_def Let_def split: option.splits)
  have new: "p \<notin> lm_resolved l" using lock_invD(4) [OF inv, of p] p by auto
  have nh: "c u \<noteq> Holding j p" for u j
    using lock_invD(1) [OF inv, of u] p by (auto simp: held_ok_def)
  show "held_ok l' ((c(t := Holding i p)) u)" for u
    using lock_invD(1) [OF inv, of u] free new p
    by (cases "c u") (auto simp: held_ok_def l' split: if_splits)
  show "q < lm_next l' \<and> q \<notin> lm_resolved l' \<and> (\<exists>u. (c(t := Holding i p)) u = Holding j q)"
    if "mget (lm_locks l') j = Some q" for j q
  proof (cases "j = i")
    case True
    then show ?thesis using that new by (auto simp: l')
  next
    case False
    then have "mget (lm_locks l) j = Some q" using that by (simp add: l')
    then obtain u where "c u = Holding j q" "q < p" "q \<notin> lm_resolved l"
      using lock_invD(2) [OF inv, of j q] p by blast
    then show ?thesis using t by (auto simp: l' intro!: exI [of _ u])
  qed
  show "u = v" if "(c(t := Holding i p)) u = Holding a q" "(c(t := Holding i p)) v = Holding b q" for u v a b q
    using that lock_invD(3) [OF inv] nh by (auto split: if_splits)
  show "q < lm_next l'" if "q \<in> lm_resolved l'" for q
    using that lock_invD(4) [OF inv, of q] by (simp add: l' p)
qed

lemma lock_inv_release:
  assumes inv: "lock_inv (l, c)" and t: "c t = Holding i p"
  shows "lock_inv (lm_release i p l, c(t := Released i p))"
proof (rule lock_invI)
  have h: "mget (lm_locks l) i = Some p" "p < lm_next l" "p \<notin> lm_resolved l"
    using lock_invD(1) [OF inv, of t] t by (simp_all add: held_ok_def)
  then have l': "lm_locks (lm_release i p l) = mdelete i (lm_locks l)" "lm_next (lm_release i p l) = lm_next l"
      "lm_resolved (lm_release i p l) = insert p (lm_resolved l)"
    by (simp_all add: lm_release_def)
  have other: "j \<noteq> i \<and> q \<noteq> p" if "c u = Holding j q" "u \<noteq> t" for u j q
    using that t h lock_invD(3) [OF inv] lock_invD(1) [OF inv, of u] by (auto simp: held_ok_def)
  show "held_ok (lm_release i p l) ((c(t := Released i p)) u)" for u
    using lock_invD(1) [OF inv, of u] h other [of u]
    by (cases "c u") (auto simp: held_ok_def l' split: if_splits)
  show "q < lm_next (lm_release i p l) \<and> q \<notin> lm_resolved (lm_release i p l) \<and>
      (\<exists>u. (c(t := Released i p)) u = Holding j q)" if "mget (lm_locks (lm_release i p l)) j = Some q" for j q
  proof -
    have j: "j \<noteq> i" "mget (lm_locks l) j = Some q" using that by (auto simp: l' split: if_splits)
    obtain u where u: "c u = Holding j q" "q < lm_next l" "q \<notin> lm_resolved l"
      using lock_invD(2) [OF inv j(2)] by blast
    then have "u \<noteq> t" using t j(1) by auto
    then show ?thesis using u other [of u j q] by (auto simp: l')
  qed
  show "u = v" if "(c(t := Released i p)) u = Holding a q" "(c(t := Released i p)) v = Holding b q" for u v a b q
    using that lock_invD(3) [OF inv] by (auto split: if_splits)
  show "q < lm_next (lm_release i p l)" if "q \<in> lm_resolved (lm_release i p l)" for q
    using that lock_invD(4) [OF inv, of q] h by (auto simp: l')
qed

lemma release_again_noop:
  assumes inv: "lock_inv (l, c)" and t: "c t = Released i p"
  shows "lm_release i p l = l"
proof -
  have r: "p \<in> lm_resolved l" using lock_invD(1) [OF inv, of t] t by (simp add: held_ok_def)
  then have "mget (lm_locks l) i \<noteq> Some p" using lock_invD(2) [OF inv] by blast
  then show ?thesis using r by (simp add: lm_release_def insert_absorb)
qed

lemma lock_inv_step:
  assumes "lock_inv (l, c)" and "lock_step (l, c) s'"
  shows "lock_inv s'"
proof (rule lock_stepE [OF assms(2)])
  fix t i assume "s' = (l, c(t := Trying i))" "c t = Idle"
  then show ?thesis using assms(1) by (auto intro!: lock_inv_call_state simp: held_ok_def)
next
  fix t i p l' assume w: "s' = (l', c(t := Waiting i p))" "c t = Trying i" "lm_try i l = (Inl p, l')"
  then have "l' = l" "mget (lm_locks l) i = Some p" by (auto simp: lm_try_def Let_def split: option.splits)
  then show ?thesis using assms(1) w by (auto intro!: lock_inv_call_state simp: held_ok_def)
next
  fix t i p l' assume "s' = (l', c(t := Holding i p))" "c t = Trying i" "lm_try i l = (Inr p, l')"
  then show ?thesis using lock_inv_take [OF assms(1)] by blast
next
  fix t i p assume "s' = (l, c(t := Trying i))" "c t = Waiting i p"
  then show ?thesis using assms(1) by (auto intro!: lock_inv_call_state simp: held_ok_def)
next
  fix t i p assume "s' = (lm_release i p l, c(t := Released i p))" "c t = Holding i p"
  then show ?thesis using lock_inv_release [OF assms(1)] by blast
next
  fix t i p assume "s' = (lm_release i p l, c)" "c t = Released i p"
  then show ?thesis using release_again_noop [OF assms(1)] assms(1) by simp
qed

lemma lock_reachable_inv: "lock_reachable s \<Longrightarrow> lock_inv s"
proof (induction rule: lock_reachable.induct)
  case start
  show ?case by (rule lock_invI) (auto simp: lm_new_def held_ok_def)
next
  case (step s s')
  then show ?case using lock_inv_step [of "fst s" "snd s" s'] by simp
qed

text \<open>
  C11: mutual exclusion: whatever the interleaving of calls, at most one call holds the lock of
  an invoice, an invoice is reported locked exactly while some call holds it, and calling a
  release function again changes nothing.
\<close>
theorem lock_mutual_exclusion:
  assumes "lock_reachable (l, c)"
  shows "(\<forall>t u i p q. c t = Holding i p \<and> c u = Holding i q \<longrightarrow> t = u) \<and>
    (\<forall>i. lm_isLocked i l \<longleftrightarrow> (\<exists>t p. c t = Holding i p)) \<and>
    (\<forall>t i p. c t = Released i p \<longrightarrow> lm_release i p l = l)"
proof (intro conjI allI impI)
  note inv = lock_reachable_inv [OF assms]
  have h: "mget (lm_locks l) i = Some p" if "c t = Holding i p" for t i p
    using lock_invD(1) [OF inv, of t] that by (simp add: held_ok_def)
  fix t u i p q assume tu: "c t = Holding i p \<and> c u = Holding i q"
  then have "p = q" using h [of t i p] h [of u i q] by simp
  then show "t = u" using lock_invD(3) [OF inv] tu by blast
next
  note inv = lock_reachable_inv [OF assms]
  fix i
  show "lm_isLocked i l \<longleftrightarrow> (\<exists>t p. c t = Holding i p)"
  proof
    assume "lm_isLocked i l"
    then obtain p where "mget (lm_locks l) i = Some p" by (auto simp: lm_isLocked_def)
    then show "\<exists>t p. c t = Holding i p" using lock_invD(2) [OF inv] by blast
  next
    assume "\<exists>t p. c t = Holding i p"
    then obtain t p where "c t = Holding i p" by blast
    then show "lm_isLocked i l" using lock_invD(1) [OF inv, of t] by (simp add: lm_isLocked_def held_ok_def)
  qed
next
  fix t i p assume "c t = Released i p"
  then show "lm_release i p l = l" using release_again_noop [OF lock_reachable_inv [OF assms]] by blast
qed

lemma demo_lock: "lock_reachable (snd (lm_try ''a'' lm_new), (\<lambda>_. Idle)(0 := Holding ''a'' 0))"
proof -
  have "lock_step (lm_new, \<lambda>_. Idle) (lm_new, (\<lambda>_. Idle)(0 := Trying ''a''))"
    by (rule lock_step.call) simp
  moreover have "lock_step (lm_new, (\<lambda>_. Idle)(0 := Trying ''a''))
      (snd (lm_try ''a'' lm_new), (\<lambda>_. Idle)(0 := Trying ''a'', 0 := Holding ''a'' 0))"
    by (rule lock_step.take) (auto simp: lm_try_def lm_new_def)
  ultimately show ?thesis
    using lock_reachable.start lock_reachable.step by (metis fun_upd_upd)
qed

text \<open>Witness of C11: one call holds a lock.\<close>
theorem lock_mutual_exclusion_witness:
  "lm_isLocked ''a'' (snd (lm_try ''a'' lm_new)) \<and> \<not> lm_isLocked ''b'' (snd (lm_try ''a'' lm_new))"
proof -
  let ?c = "(\<lambda>_. Idle)(0 :: nat := Holding ''a'' 0)"
  have iff: "\<forall>i. lm_isLocked i (snd (lm_try ''a'' lm_new)) \<longleftrightarrow> (\<exists>t p. ?c t = Holding i p)"
    using lock_mutual_exclusion [OF demo_lock] by (elim conjE)
  have "?c 0 = Holding ''a'' 0" "\<And>t p. ?c t \<noteq> Holding ''b'' p" by simp_all
  then show ?thesis using iff by blast
qed

text \<open>
  C34: no wake-up is lost: a call that waits for an invoice either can go on, because its promise
  is resolved, or waits for the promise of a call that holds the lock now.
\<close>
theorem lock_no_lost_wakeup:
  assumes "lock_reachable (l, c)" and "c t = Waiting i p"
  shows "lock_step (l, c) (l, c(t := Trying i)) \<or> (\<exists>u. c u = Holding i p)"
proof -
  note inv = lock_reachable_inv [OF assms(1)]
  have "p \<in> lm_resolved l \<or> mget (lm_locks l) i = Some p"
    using lock_invD(1) [OF inv, of t] assms(2) by (simp add: held_ok_def)
  then show ?thesis using lock_invD(2) [OF inv] assms(2) by (auto intro: lock_step.wake)
qed

text \<open>Witness of C34: a second call waits for the first.\<close>
theorem lock_no_lost_wakeup_witness:
  "\<exists>l c. lock_reachable (l, c) \<and> c 1 = Waiting ''a'' 0 \<and>
     (lock_step (l, c) (l, c(1 := Trying ''a'')) \<or> (\<exists>u. c u = Holding ''a'' 0))"
proof -
  let ?l = "snd (lm_try ''a'' lm_new)" and ?c = "(\<lambda>_. Idle)(0 :: nat := Holding ''a'' 0)"
  have a: "lock_step (?l, ?c) (?l, ?c(1 := Trying ''a''))" by (rule lock_step.call) simp
  have "lm_try ''a'' ?l = (Inl 0, ?l)" by (simp add: lm_try_def lm_new_def)
  then have b: "lock_step (?l, ?c(1 := Trying ''a'')) (?l, ?c(1 := Trying ''a'', 1 := Waiting ''a'' 0))"
    by (intro lock_step.wait) simp_all
  have r: "lock_reachable (?l, ?c(1 := Waiting ''a'' 0))"
    using lock_reachable.step [OF lock_reachable.step [OF demo_lock a] b] by simp
  have w: "(?c(1 := Waiting ''a'' 0)) 1 = Waiting ''a'' 0" by simp
  show ?thesis using lock_no_lost_wakeup [OF r w] r w by blast
qed

end
