(* ===== verification/Job_Store.thy ===== *)
theory Job_Store
  imports Invoice_Model
begin

text \<open>
  Background jobs: the shared types (\<open>backend/src/jobs/job-types.ts\<close>) and the in-memory store
  (\<open>backend/src/jobs/memory-job-store.ts\<close>). The store clones what it takes and gives, so jobs are
  values. A time stamp is the ISO string of a time value, or a string that is no date; the
  strings the code prints have one format, and comparing two of them compares their times. A
  \<open>Date\<close> argument is its time value, \<open>None\<close> when invalid. Delays are rational numbers.
\<close>

subsection \<open>Types\<close>

datatype job_status = Queued | Running | Succeeded | Dead

datatype stamp = Iso int | Unparsable string

record retry_policy =
  rp_maxAttempts :: jsnum
  rp_baseDelayMs :: rat
  rp_backoffFactor :: rat
  rp_maxDelayMs :: rat

definition DEFAULT_RETRY_POLICY :: retry_policy where
  "DEFAULT_RETRY_POLICY =
     \<lparr>rp_maxAttempts = Num 5, rp_baseDelayMs = 1000, rp_backoffFactor = 2, rp_maxDelayMs = 5 * 60000\<rparr>"

record job_failure =
  je_attempt :: int
  je_at :: stamp
  je_message :: string
  je_stack :: "string option"

record job =
  j_id :: string
  j_type :: string
  j_version :: jsnum
  j_data :: json
  j_status :: job_status
  j_attempts :: int
  j_retryPolicy :: retry_policy
  j_runAt :: stamp
  j_lockedUntil :: "stamp option"
  j_lockedBy :: "string option"
  j_idempotencyKey :: "string option"
  j_correlationId :: "string option"
  j_errors :: "job_failure list"
  j_result :: json
  j_createdAt :: stamp
  j_updatedAt :: stamp
  j_completedAt :: "stamp option"

record job_filter =
  jf_status :: "job_status option"
  jf_type :: "string option"
  jf_limit :: "int option"
  jf_offset :: "int option"

datatype job_error =
    EmptyField string
  | NotIsoTimestamp string
  | BadAttempts
  | BadPayloadVersion
  | BadMaxAttempts
  | BadLease
  | BadNow
  | BadRetryAt
  | BadErrorAttempt
  | BadLimit
  | BadOffset
  | DateRange

text \<open>The interface the queue and the worker use.\<close>

record 's job_store_if =
  js_enqueue :: "job \<Rightarrow> 's \<Rightarrow> (job_error, job \<times> bool) result \<times> 's"
  js_claimNext :: "string \<Rightarrow> int option \<Rightarrow> jsnum \<Rightarrow> string list option \<Rightarrow> 's \<Rightarrow> (job_error, job option) result \<times> 's"
  js_markSucceeded :: "string \<Rightarrow> string \<Rightarrow> json option \<Rightarrow> int option \<Rightarrow> 's \<Rightarrow> (job_error, job option) result \<times> 's"
  js_markFailed :: "string \<Rightarrow> string \<Rightarrow> job_failure \<Rightarrow> int option option \<Rightarrow> int option \<Rightarrow> 's \<Rightarrow>
    (job_error, job option) result \<times> 's"
  js_counts :: "'s \<Rightarrow> job_status \<Rightarrow> nat"

definition computeBackoffMs :: "retry_policy \<Rightarrow> int \<Rightarrow> rat" where
  "computeBackoffMs policy attempt =
     (let e = rp_baseDelayMs policy * rp_backoffFactor policy ^ nat (max 0 (attempt - 1))
      in min e (rp_maxDelayMs policy))"

subsection \<open>Validation\<close>

definition requireString :: "string \<Rightarrow> string \<Rightarrow> (job_error, unit) result" where
  "requireString v field = throw_if (js_trim v = []) (EmptyField field)"

definition requireIsoDate :: "stamp \<Rightarrow> string \<Rightarrow> (job_error, unit) result" where
  "requireIsoDate v field = (case v of
       Iso _ \<Rightarrow> Inr ()
     | Unparsable s \<Rightarrow> rbind (requireString s field) (\<lambda>_. Inl (NotIsoTimestamp field)))"

definition requireOptDate :: "stamp option \<Rightarrow> string \<Rightarrow> (job_error, unit) result" where
  "requireOptDate v field = (case v of None \<Rightarrow> Inr () | Some d \<Rightarrow> requireIsoDate d field)"

definition positive_integer :: "jsnum \<Rightarrow> bool" where
  "positive_integer n = (case n of Num q \<Rightarrow> rat_is_int q \<and> 1 \<le> q | _ \<Rightarrow> False)"

definition validateJob :: "job \<Rightarrow> (job_error, unit) result" where
  "validateJob j =
     rbind (requireString (j_id j) ''id'') (\<lambda>_.
     rbind (requireString (j_type j) ''type'') (\<lambda>_.
     rbind (requireIsoDate (j_runAt j) ''runAt'') (\<lambda>_.
     rbind (requireIsoDate (j_createdAt j) ''createdAt'') (\<lambda>_.
     rbind (requireIsoDate (j_updatedAt j) ''updatedAt'') (\<lambda>_.
     rbind (requireOptDate (j_completedAt j) ''completedAt'') (\<lambda>_.
     rbind (requireOptDate (j_lockedUntil j) ''lockedUntil'') (\<lambda>_.
     rbind (throw_if (j_attempts j < 0) BadAttempts) (\<lambda>_.
     rbind (throw_if (\<not> positive_integer (j_version j)) BadPayloadVersion) (\<lambda>_.
     throw_if (\<not> positive_integer (rp_maxAttempts (j_retryPolicy j))) BadMaxAttempts)))))))))"

definition validateWorker :: "string \<Rightarrow> jsnum option \<Rightarrow> (job_error, unit) result" where
  "validateWorker workerId leaseMs =
     rbind (requireString workerId ''workerId'') (\<lambda>_.
       throw_if (case leaseMs of None \<Rightarrow> False | Some (Num q) \<Rightarrow> q \<le> 0 | Some _ \<Rightarrow> True) BadLease)"

definition validateFilter :: "job_filter \<Rightarrow> (job_error, unit) result" where
  "validateFilter f =
     rbind (throw_if (case jf_limit f of Some n \<Rightarrow> n < 0 | None \<Rightarrow> False) BadLimit) (\<lambda>_.
       throw_if (case jf_offset f of Some n \<Rightarrow> n < 0 | None \<Rightarrow> False) BadOffset)"

subsection \<open>The store\<close>

record memory_job_store =
  mj_jobs :: "(string, job) jsmap"
  mj_byIdempotencyKey :: "(string, string) jsmap"

definition MemoryJobStore_new :: memory_job_store where
  "MemoryJobStore_new = \<lparr>mj_jobs = [], mj_byIdempotencyKey = []\<rparr>"

definition put_job :: "job \<Rightarrow> memory_job_store \<Rightarrow> memory_job_store" where
  "put_job j s = s\<lparr>mj_jobs := mset_kv (j_id j) j (mj_jobs s)\<rparr>"

definition mj_enqueue :: "job \<Rightarrow> memory_job_store \<Rightarrow> (job_error, job \<times> bool) result \<times> memory_job_store" where
  "mj_enqueue j s =
     (case validateJob j of
        Inl e \<Rightarrow> (Inl e, s)
      | Inr _ \<Rightarrow>
          if truthy (j_idempotencyKey j) then
            let key = the (j_idempotencyKey j);
                existing = (case mget (mj_byIdempotencyKey s) key of
                              Some i \<Rightarrow> if i \<noteq> [] then mget (mj_jobs s) i else None
                            | None \<Rightarrow> None)
            in case existing of
                 Some old \<Rightarrow> (Inr (old, False), s)
               | None \<Rightarrow>
                   (Inr (j, True),
                    put_job j (s\<lparr>mj_byIdempotencyKey := mset_kv key (j_id j) (mj_byIdempotencyKey s)\<rparr>))
          else (Inr (j, True), put_job j s))"

definition stamp_le :: "stamp \<Rightarrow> int \<Rightarrow> bool" where
  "stamp_le d now = (case d of Iso t \<Rightarrow> t \<le> now | Unparsable _ \<Rightarrow> False)"

definition stamp_cmp :: "stamp \<Rightarrow> stamp \<Rightarrow> int" where
  "stamp_cmp a b = (case (a, b) of
       (Iso s, Iso t) \<Rightarrow> s - t | (Iso _, Unparsable _) \<Rightarrow> -1 | (Unparsable _, Iso _) \<Rightarrow> 1 | _ \<Rightarrow> 0)"

definition job_due :: "string list option \<Rightarrow> int \<Rightarrow> job \<Rightarrow> bool" where
  "job_due types now j =
     (if (case types of Some ts \<Rightarrow> j_type j \<notin> set ts | None \<Rightarrow> False) then False
      else if j_status j = Queued then stamp_le (j_runAt j) now
      else j_status j = Running \<and> (case j_lockedUntil j of Some d \<Rightarrow> stamp_le d now | None \<Rightarrow> False))"

definition cmp_due :: "job \<Rightarrow> job \<Rightarrow> int" where
  "cmp_due a b =
     (if stamp_cmp (j_runAt a) (j_runAt b) \<noteq> 0 then stamp_cmp (j_runAt a) (j_runAt b)
      else stamp_cmp (j_createdAt a) (j_createdAt b))"

definition mj_claimNext ::
  "string \<Rightarrow> int option \<Rightarrow> jsnum \<Rightarrow> string list option \<Rightarrow> memory_job_store \<Rightarrow>
   (job_error, job option) result \<times> memory_job_store" where
  "mj_claimNext workerId now leaseMs types s =
     (case validateWorker workerId (Some leaseMs) of
        Inl e \<Rightarrow> (Inl e, s)
      | Inr _ \<Rightarrow>
          (case now of
             None \<Rightarrow> (Inl BadNow, s)
           | Some t \<Rightarrow>
               (case sort_by cmp_due (filter (job_due types t) (map snd (mj_jobs s))) of
                  [] \<Rightarrow> (Inr None, s)
                | j # _ \<Rightarrow>
                    let j1 = j\<lparr>j_status := Running, j_attempts := j_attempts j + 1, j_lockedBy := Some workerId\<rparr>
                    in case (case leaseMs of Num q \<Rightarrow> time_clip (of_int t + q) | _ \<Rightarrow> None) of
                         None \<Rightarrow> (Inl DateRange, put_job j1 s)
                       | Some u \<Rightarrow>
                           let j2 = j1\<lparr>j_lockedUntil := Some (Iso u), j_updatedAt := Iso t\<rparr>
                           in (Inr (Some j2), put_job j2 s))))"

definition held_job :: "string \<Rightarrow> string \<Rightarrow> memory_job_store \<Rightarrow> job option" where
  "held_job i workerId s =
     (case mget (mj_jobs s) i of
        None \<Rightarrow> None
      | Some j \<Rightarrow> if j_status j \<noteq> Running \<or> j_lockedBy j \<noteq> Some workerId then None else Some j)"

definition mj_markSucceeded ::
  "string \<Rightarrow> string \<Rightarrow> json option \<Rightarrow> int option \<Rightarrow> memory_job_store \<Rightarrow>
   (job_error, job option) result \<times> memory_job_store" where
  "mj_markSucceeded i workerId res now s =
     (case rbind (requireString i ''id'') (\<lambda>_. rbind (validateWorker workerId None) (\<lambda>_.
             case now of None \<Rightarrow> Inl BadNow | Some t \<Rightarrow> Inr t)) of
        Inl e \<Rightarrow> (Inl e, s)
      | Inr t \<Rightarrow>
          (case held_job i workerId s of
             None \<Rightarrow> (Inr None, s)
           | Some j \<Rightarrow>
               let j' = j\<lparr>j_status := Succeeded, j_result := (case res of None \<Rightarrow> JNull | Some v \<Rightarrow> v),
                          j_lockedBy := None, j_lockedUntil := None, j_completedAt := Some (Iso t),
                          j_updatedAt := Iso t\<rparr>
               in (Inr (Some j'), s\<lparr>mj_jobs := mset_kv i j' (mj_jobs s)\<rparr>)))"

definition mj_markFailed ::
  "string \<Rightarrow> string \<Rightarrow> job_failure \<Rightarrow> int option option \<Rightarrow> int option \<Rightarrow> memory_job_store \<Rightarrow>
   (job_error, job option) result \<times> memory_job_store" where
  "mj_markFailed i workerId err retryAt now s =
     (case rbind (requireString i ''id'') (\<lambda>_. validateWorker workerId None) of
        Inl e \<Rightarrow> (Inl e, s)
      | Inr _ \<Rightarrow>
          (case held_job i workerId s of
             None \<Rightarrow> (Inr None, s)
           | Some j \<Rightarrow>
               (case rbind (throw_if (je_attempt err < 1) BadErrorAttempt) (\<lambda>_.
                     rbind (requireIsoDate (je_at err) ''error.at'') (\<lambda>_.
                     rbind (requireString (je_message err) ''error.message'') (\<lambda>_.
                     rbind (throw_if (retryAt = Some None) BadRetryAt) (\<lambda>_.
                       case now of None \<Rightarrow> Inl BadNow | Some t \<Rightarrow> Inr t)))) of
                  Inl e \<Rightarrow> (Inl e, s)
                | Inr t \<Rightarrow>
                    let j1 = j\<lparr>j_errors := j_errors j @ [err], j_lockedBy := None, j_lockedUntil := None,
                               j_updatedAt := Iso t\<rparr>;
                        j2 = (case retryAt of
                                Some (Some r) \<Rightarrow> j1\<lparr>j_status := Queued, j_runAt := Iso r\<rparr>
                              | _ \<Rightarrow> j1\<lparr>j_status := Dead, j_completedAt := Some (Iso t)\<rparr>)
                    in (Inr (Some j2), s\<lparr>mj_jobs := mset_kv i j2 (mj_jobs s)\<rparr>))))"

definition mj_get :: "string \<Rightarrow> memory_job_store \<Rightarrow> (job_error, job option) result" where
  "mj_get i s = rbind (requireString i ''id'') (\<lambda>_. Inr (mget (mj_jobs s) i))"

definition mj_list :: "job_filter \<Rightarrow> memory_job_store \<Rightarrow> (job_error, job list \<times> nat) result" where
  "mj_list f s =
     rbind (validateFilter f) (\<lambda>_.
       let matching = sort_by (\<lambda>a b. stamp_cmp (j_createdAt b) (j_createdAt a))
             (filter (\<lambda>j. (jf_status f = None \<or> Some (j_status j) = jf_status f) \<and>
                          (\<not> truthy (jf_type f) \<or> Some (j_type j) = jf_type f)) (map snd (mj_jobs s)));
           offset = nat (case jf_offset f of Some n \<Rightarrow> n | None \<Rightarrow> 0);
           limit = nat (case jf_limit f of Some n \<Rightarrow> n | None \<Rightarrow> 50)
       in Inr (slice offset (offset + limit) matching, length matching))"

definition mj_requeueDead :: "string \<Rightarrow> int option \<Rightarrow> memory_job_store \<Rightarrow>
    (job_error, job option) result \<times> memory_job_store" where
  "mj_requeueDead i now s =
     (case rbind (requireString i ''id'') (\<lambda>_. case now of None \<Rightarrow> Inl BadNow | Some t \<Rightarrow> Inr t) of
        Inl e \<Rightarrow> (Inl e, s)
      | Inr t \<Rightarrow>
          (case mget (mj_jobs s) i of
             None \<Rightarrow> (Inr None, s)
           | Some j \<Rightarrow>
               if j_status j \<noteq> Dead then (Inr None, s)
               else let j' = j\<lparr>j_status := Queued, j_attempts := 0, j_runAt := Iso t,
                               j_completedAt := None, j_updatedAt := Iso t\<rparr>
                    in (Inr (Some j'), s\<lparr>mj_jobs := mset_kv i j' (mj_jobs s)\<rparr>)))"

definition mj_counts :: "memory_job_store \<Rightarrow> job_status \<Rightarrow> nat" where
  "mj_counts s st = length (filter (\<lambda>j. j_status j = st) (map snd (mj_jobs s)))"

definition mj_clear :: "memory_job_store \<Rightarrow> memory_job_store" where
  "mj_clear s = s\<lparr>mj_jobs := [], mj_byIdempotencyKey := []\<rparr>"

definition memory_jobs :: "memory_job_store job_store_if" where
  "memory_jobs = \<lparr>js_enqueue = mj_enqueue, js_claimNext = mj_claimNext, js_markSucceeded = mj_markSucceeded,
     js_markFailed = mj_markFailed, js_counts = mj_counts\<rparr>"

end
