(* ===== verification/Job_Worker.thy ===== *)
theory Job_Worker
  imports Job_Store
begin

text \<open>
  The job queue and the worker, \<open>backend/src/jobs/worker.ts\<close>, over the \<open>JobStore\<close> interface. A
  handler's run is its outcome; claiming and finishing are separate steps, because other
  workers act on the store while a handler runs. The polling timer is not modelled.
\<close>

subsection \<open>Queue\<close>

record enqueue_options =
  eo_runAt :: "int option"
  eo_retryPolicy :: "retry_policy \<Rightarrow> retry_policy"
  eo_idempotencyKey :: "string option"
  eo_correlationId :: "string option"
  eo_payloadVersion :: "jsnum option"

definition queued_job ::
  "retry_policy \<Rightarrow> string \<Rightarrow> int \<Rightarrow> string \<Rightarrow> json \<Rightarrow> enqueue_options \<Rightarrow> job" where
  "queued_job defaults uuid now type_name data options =
     \<lparr>j_id = uuid, j_type = type_name,
      j_version = (case eo_payloadVersion options of Some v \<Rightarrow> v | None \<Rightarrow> Num 1), j_data = data,
      j_status = Queued, j_attempts = 0, j_retryPolicy = eo_retryPolicy options defaults,
      j_runAt = Iso (case eo_runAt options of Some t \<Rightarrow> t | None \<Rightarrow> now),
      j_lockedUntil = None, j_lockedBy = None, j_idempotencyKey = eo_idempotencyKey options,
      j_correlationId = eo_correlationId options, j_errors = [], j_result = JNull,
      j_createdAt = Iso now, j_updatedAt = Iso now, j_completedAt = None\<rparr>"

definition queue_enqueue ::
  "'s job_store_if \<Rightarrow> retry_policy \<Rightarrow> string \<Rightarrow> int \<Rightarrow> string \<Rightarrow> json \<Rightarrow> enqueue_options \<Rightarrow> 's \<Rightarrow>
   (job_error, job \<times> bool) result \<times> 's" where
  "queue_enqueue store defaults uuid now type_name data options s =
     js_enqueue store (queued_job defaults uuid now type_name data options) s"

subsection \<open>Worker\<close>

record job_worker =
  jw_workerId :: string
  jw_leaseMs :: jsnum
  jw_types :: "string list"  \<comment> \<open>the keys of the handlers registered\<close>

definition JobWorker_new :: "string option \<Rightarrow> string \<Rightarrow> jsnum option \<Rightarrow> job_worker" where
  "JobWorker_new workerId uuid leaseMs =
     \<lparr>jw_workerId = (case workerId of Some w \<Rightarrow> w | None \<Rightarrow> ''worker-'' @ uuid),
      jw_leaseMs = (case leaseMs of Some l \<Rightarrow> l | None \<Rightarrow> Num 60000), jw_types = []\<rparr>"

definition jw_register :: "string \<Rightarrow> job_worker \<Rightarrow> job_worker" where
  "jw_register type_name w =
     w\<lparr>jw_types := (if type_name \<in> set (jw_types w) then jw_types w else jw_types w @ [type_name])\<rparr>"

text \<open>How a handler ends: with a result (\<open>None\<close>: \<open>undefined\<close>), or by throwing.\<close>

datatype outcome =
    Returned "json option"
  | Threw string "string option" bool  \<comment> \<open>message, stack, whether it is a \<open>NonRetryableJobError\<close>\<close>

text \<open>The text of an error the store throws; none is blank.\<close>

fun job_error_message :: "job_error \<Rightarrow> string" where
  "job_error_message (EmptyField f) = ''job '' @ f @ '' must be a non-empty string''"
| "job_error_message (NotIsoTimestamp f) = ''job '' @ f @ '' must be an ISO timestamp''"
| "job_error_message BadAttempts = ''job attempts must be a non-negative integer''"
| "job_error_message BadPayloadVersion = ''job payload must include a positive version''"
| "job_error_message BadMaxAttempts = ''job retryPolicy.maxAttempts must be a positive integer''"
| "job_error_message BadLease = ''job leaseMs must be a positive finite number''"
| "job_error_message BadNow = ''job now must be a valid Date''"
| "job_error_message BadRetryAt = ''job retryAt must be a valid Date''"
| "job_error_message BadErrorAttempt = ''job error attempt must be a positive integer''"
| "job_error_message BadLimit = ''job filter limit must be a non-negative integer''"
| "job_error_message BadOffset = ''job filter offset must be a non-negative integer''"
| "job_error_message DateRange = ''Invalid time value''"

definition jw_claim ::
  "'s job_store_if \<Rightarrow> job_worker \<Rightarrow> int \<Rightarrow> 's \<Rightarrow> (job_error, job option) result \<times> 's" where
  "jw_claim store w now s =
     (if jw_types w = [] then (Inr None, s)
      else js_claimNext store (jw_workerId w) (Some now) (jw_leaseMs w) (Some (jw_types w)) s)"

definition exhausted :: "job \<Rightarrow> bool" where
  "exhausted j = (case rp_maxAttempts (j_retryPolicy j) of
       Num q \<Rightarrow> of_int (j_attempts j) \<ge> q | NegInfinity \<Rightarrow> True | _ \<Rightarrow> False)"

text \<open>The clock is read for the record, for the retry time and for the update.\<close>

definition jw_handleFailure ::
  "'s job_store_if \<Rightarrow> job_worker \<Rightarrow> job \<Rightarrow> string \<Rightarrow> string option \<Rightarrow> bool \<Rightarrow> int \<times> int \<times> int \<Rightarrow> 's \<Rightarrow>
   (job_error, job) result \<times> 's" where
  "jw_handleFailure store w j message stack nonRetryable t s =
     (let (t1, t2, t3) = t;
          failure_record = \<lparr>je_attempt = j_attempts j, je_at = Iso t1, je_message = message, je_stack = stack\<rparr>;
          retryable = (\<not> nonRetryable \<and> \<not> exhausted j);
          retryAt = (if retryable then Some (time_clip (of_int t2 + computeBackoffMs (j_retryPolicy j) (j_attempts j)))
                     else None)
      in case js_markFailed store (j_id j) (jw_workerId w) failure_record retryAt (Some t3) s of
           (Inl e, s') \<Rightarrow> (Inl e, s')
         | (Inr updated, s') \<Rightarrow> (Inr (case updated of Some u \<Rightarrow> u | None \<Rightarrow> j), s'))"

definition jw_finish ::
  "'s job_store_if \<Rightarrow> job_worker \<Rightarrow> job \<Rightarrow> outcome \<Rightarrow> int \<Rightarrow> int \<times> int \<times> int \<Rightarrow> 's \<Rightarrow> (job_error, job) result \<times> 's" where
  "jw_finish store w j out now t s =
     (case out of
        Threw message stack nonRetryable \<Rightarrow> jw_handleFailure store w j message stack nonRetryable t s
      | Returned res \<Rightarrow>
          (case js_markSucceeded store (j_id j) (jw_workerId w) res (Some now) s of
             (Inl e, s') \<Rightarrow> jw_handleFailure store w j (job_error_message e) None False t s'
           | (Inr finished, s') \<Rightarrow> (Inr (case finished of Some d \<Rightarrow> d | None \<Rightarrow> j), s')))"

text \<open>\<open>runOnce\<close> when nothing else touches the store while the handler runs.\<close>

definition jw_runOnce ::
  "'s job_store_if \<Rightarrow> job_worker \<Rightarrow> (job \<Rightarrow> outcome) \<Rightarrow> int \<Rightarrow> int \<Rightarrow> int \<times> int \<times> int \<Rightarrow> 's \<Rightarrow>
   (job_error, job option) result \<times> 's" where
  "jw_runOnce store w handler t0 now t s =
     (case jw_claim store w t0 s of
        (Inl e, s') \<Rightarrow> (Inl e, s')
      | (Inr None, s') \<Rightarrow> (Inr None, s')
      | (Inr (Some j), s') \<Rightarrow>
          (case jw_finish store w j (handler j) now t s' of
             (Inl e, s'') \<Rightarrow> (Inl e, s'') | (Inr d, s'') \<Rightarrow> (Inr (Some d), s'')))"

text \<open>\<open>drain\<close>: at most \<open>n\<close> more jobs; the clock readings come as a list of triples, one per job.\<close>

fun jw_drain ::
  "'s job_store_if \<Rightarrow> job_worker \<Rightarrow> (job \<Rightarrow> outcome) \<Rightarrow> nat \<Rightarrow> (nat \<Rightarrow> int \<times> int \<times> int \<times> int \<times> int) \<Rightarrow> 's \<Rightarrow>
   (job_error, nat) result \<times> 's" where
  "jw_drain store w handler 0 clock s = (Inr 0, s)"
| "jw_drain store w handler (Suc n) clock s =
     (let (t0, now, t) = clock n in
      case jw_runOnce store w handler t0 now t s of
        (Inl e, s') \<Rightarrow> (Inl e, s')
      | (Inr None, s') \<Rightarrow> (Inr 0, s')
      | (Inr (Some _), s') \<Rightarrow>
          (case jw_drain store w handler n clock s' of
             (Inl e, s'') \<Rightarrow> (Inl e, s'') | (Inr k, s'') \<Rightarrow> (Inr (Suc k), s'')))"

end
