(* ===== verification/Job_Properties.thy ===== *)
theory Job_Properties
  imports Job_Worker
begin

text \<open>
  What the job store and the worker guarantee: a claim takes the job that has been due longest
  and never one under a live lease; only the holder of the lease finishes a job; an idempotency
  key creates one job; a finished run is never left running. The worker's part is proved for
  every store that satisfies the contract \<open>job_store\<close>.
\<close>

subsection \<open>Claiming\<close>

lemma stamp_cmp_trans: "stamp_cmp a b \<le> 0 \<Longrightarrow> stamp_cmp b c \<le> 0 \<Longrightarrow> stamp_cmp a c \<le> 0"
  by (auto simp: stamp_cmp_def split: stamp.splits)

lemma stamp_cmp_antisym: "stamp_cmp a b = 0 \<longleftrightarrow> stamp_cmp b a = 0" "0 < stamp_cmp a b \<longleftrightarrow> stamp_cmp b a < 0"
  by (auto simp: stamp_cmp_def split: stamp.splits)

lemma stamp_cmp_eq_trans:
  "stamp_cmp a b = 0 \<Longrightarrow> stamp_cmp b c = 0 \<Longrightarrow> stamp_cmp a c = 0"
  "stamp_cmp a b = 0 \<Longrightarrow> stamp_cmp b c < 0 \<Longrightarrow> stamp_cmp a c < 0"
  "stamp_cmp a b < 0 \<Longrightarrow> stamp_cmp b c \<le> 0 \<Longrightarrow> stamp_cmp a c < 0"
  by (auto simp: stamp_cmp_def split: stamp.splits)

lemma cmp_due_le:
  "cmp_due a b \<le> 0 \<longleftrightarrow> stamp_cmp (j_runAt a) (j_runAt b) < 0 \<or>
     (stamp_cmp (j_runAt a) (j_runAt b) = 0 \<and> stamp_cmp (j_createdAt a) (j_createdAt b) \<le> 0)"
  by (auto simp: cmp_due_def)

interpretation due: comparator cmp_due
proof
  fix a b c :: job
  show "cmp_due a b \<le> 0 \<or> cmp_due b a \<le> 0"
    unfolding cmp_due_le using stamp_cmp_antisym by (metis not_less_iff_gr_or_eq linorder_not_le)
  assume ab: "cmp_due a b \<le> 0" and bc: "cmp_due b c \<le> 0"
  let ?r = "\<lambda>x y. stamp_cmp (j_runAt x) (j_runAt y)"
  let ?c = "\<lambda>x y. stamp_cmp (j_createdAt x) (j_createdAt y)"
  show "cmp_due a c \<le> 0"
  proof (cases "?r a b < 0")
    case True
    moreover have "?r b c \<le> 0" using bc unfolding cmp_due_le by linarith
    ultimately have "?r a c < 0" by (rule stamp_cmp_eq_trans(3))
    then show ?thesis unfolding cmp_due_le by blast
  next
    case False
    then have e: "?r a b = 0" "?c a b \<le> 0" using ab unfolding cmp_due_le by auto
    show ?thesis
    proof (cases "?r b c < 0")
      case True
      then show ?thesis using stamp_cmp_eq_trans(2) [OF e(1)] unfolding cmp_due_le by blast
    next
      case False
      then have "?r b c = 0" "?c b c \<le> 0" using bc unfolding cmp_due_le by auto
      then show ?thesis
        using stamp_cmp_eq_trans(1) [OF e(1)] stamp_cmp_trans [OF e(2)] unfolding cmp_due_le by blast
    qed
  qed
qed

lemma claim_cases:
  assumes "mj_claimNext w (Some now) lease types s = (Inr (Some j'), s')"
  obtains j u where "j \<in> snd ` set (mj_jobs s)" and "job_due types now j"
    and "\<And>k. k \<in> snd ` set (mj_jobs s) \<Longrightarrow> job_due types now k \<Longrightarrow> cmp_due j k \<le> 0"
    and "j' = j\<lparr>j_status := Running, j_attempts := j_attempts j + 1, j_lockedBy := Some w,
                 j_lockedUntil := Some (Iso u), j_updatedAt := Iso now\<rparr>"
    and "s' = put_job j' s" and "js_trim w \<noteq> []" and "\<exists>q. lease = Num q \<and> 0 < q \<and> time_clip (of_int now + q) = Some u"
proof -
  let ?due = "filter (job_due types now) (map snd (mj_jobs s))"
  obtain j rest u where d: "sort_by cmp_due ?due = j # rest"
      and j': "j' = j\<lparr>j_status := Running, j_attempts := j_attempts j + 1, j_lockedBy := Some w,
                 j_lockedUntil := Some (Iso u), j_updatedAt := Iso now\<rparr>" "s' = put_job j' s"
      and w: "js_trim w \<noteq> []" "\<exists>q. lease = Num q \<and> 0 < q \<and> time_clip (of_int now + q) = Some u"
    using assms
    by (auto simp: mj_claimNext_def validateWorker_def requireString_def Let_def rbind_Inr_iff
        split: sum.splits list.splits option.splits jsnum.splits)
  have "set (sort_by cmp_due ?due) = set ?due" by simp
  then have "j \<in> set ?due" using d by (metis list.set_intros(1))
  moreover have "cmp_due j k \<le> 0" if "k \<in> set ?due" for k by (rule due.sort_by_hd_least [OF d that])
  ultimately show thesis using that [of j u] j' w by auto
qed

text \<open>
  A successful claim returns a job that was due: queued with its start time passed, or
  running with its lease expired, of a requested type; no other due job starts earlier; and the
  claim only marks that job as running, counts the attempt and sets the lease to end \<open>leaseMs\<close>
  after now.
\<close>
lemma claimNext_due_first:
  assumes "mj_claimNext w (Some now) (Num lease) (Some types) s = (Inr (Some j'), s')"
  shows "\<exists>j. j \<in> snd ` set (mj_jobs s) \<and> j_type j \<in> set types \<and>
    (j_status j = Queued \<and> stamp_le (j_runAt j) now \<or>
     j_status j = Running \<and> (\<exists>d. j_lockedUntil j = Some d \<and> stamp_le d now)) \<and>
    (\<forall>k \<in> snd ` set (mj_jobs s). job_due (Some types) now k \<longrightarrow> stamp_cmp (j_runAt j) (j_runAt k) \<le> 0) \<and>
    j' = j\<lparr>j_status := Running, j_attempts := j_attempts j + 1, j_lockedBy := Some w,
           j_lockedUntil := Some (Iso (the (time_clip (of_int now + lease)))), j_updatedAt := Iso now\<rparr> \<and>
    s' = put_job j' s"
proof -
  obtain j u where j: "j \<in> snd ` set (mj_jobs s)" "job_due (Some types) now j"
      "\<And>k. k \<in> snd ` set (mj_jobs s) \<Longrightarrow> job_due (Some types) now k \<Longrightarrow> cmp_due j k \<le> 0"
      "j' = j\<lparr>j_status := Running, j_attempts := j_attempts j + 1, j_lockedBy := Some w,
                 j_lockedUntil := Some (Iso u), j_updatedAt := Iso now\<rparr>"
      "s' = put_job j' s" "time_clip (of_int now + lease) = Some u"
    using claim_cases [OF assms] by (metis jsnum.inject)
  have "stamp_cmp (j_runAt j) (j_runAt k) \<le> 0" if "k \<in> snd ` set (mj_jobs s)" "job_due (Some types) now k" for k
    using j(3) [OF that] unfolding cmp_due_le by linarith
  moreover have "j_type j \<in> set types \<and> (j_status j = Queued \<and> stamp_le (j_runAt j) now \<or>
     j_status j = Running \<and> (\<exists>d. j_lockedUntil j = Some d \<and> stamp_le d now))"
    using j(2) by (auto simp: job_due_def split: if_splits option.splits)
  ultimately show ?thesis using j by auto
qed

subsection \<open>Reachable stores\<close>

definition job_ok :: "job \<Rightarrow> bool" where
  "job_ok j \<longleftrightarrow> (j_status j = Running \<longleftrightarrow> j_lockedBy j \<noteq> None) \<and>
     (j_completedAt j \<noteq> None \<longleftrightarrow> j_status j \<in> {Succeeded, Dead}) \<and> 0 \<le> j_attempts j \<and>
     (j_status j = Running \<longrightarrow> 1 \<le> j_attempts j)"

definition jobs_ok :: "memory_job_store \<Rightarrow> bool" where
  "jobs_ok s \<longleftrightarrow> mwf (mj_jobs s) \<and>
     (\<forall>i j. mget (mj_jobs s) i = Some j \<longrightarrow> j_id j = i \<and> js_trim i \<noteq> [] \<and> job_ok j) \<and>
     (\<forall>k i. mget (mj_byIdempotencyKey s) k = Some i \<longrightarrow> i \<noteq> [] \<and> mhas (mj_jobs s) i)"

lemma jobs_okD: "jobs_ok s \<Longrightarrow> mget (mj_jobs s) i = Some j \<Longrightarrow> j_id j = i \<and> js_trim i \<noteq> [] \<and> job_ok j"
  unfolding jobs_ok_def by blast

lemma jobs_ok_mem: "jobs_ok s \<Longrightarrow> j \<in> snd ` set (mj_jobs s) \<Longrightarrow> mget (mj_jobs s) (j_id j) = Some j \<and> job_ok j"
proof -
  assume s: "jobs_ok s" and "j \<in> snd ` set (mj_jobs s)"
  then obtain i where "mget (mj_jobs s) i = Some j"
    using mget_values [of "mj_jobs s"] by (auto simp: jobs_ok_def)
  then show ?thesis using jobs_okD [OF s] by metis
qed

lemma jobs_ok_put:
  "jobs_ok s \<Longrightarrow> js_trim (j_id j) \<noteq> [] \<Longrightarrow> job_ok j \<Longrightarrow> jobs_ok (s\<lparr>mj_jobs := mset_kv (j_id j) j (mj_jobs s)\<rparr>)"
  unfolding jobs_ok_def by auto

inductive job_step :: "memory_job_store \<Rightarrow> memory_job_store \<Rightarrow> bool" where
  enqueue: "queue_enqueue memory_jobs defaults uuid now ty data opts s = (r, s') \<Longrightarrow> job_step s s'"
| claim: "mj_claimNext w (Some now) lease types s = (Inr a, s') \<Longrightarrow> job_step s s'"
| succeed: "mj_markSucceeded i w res now s = (a, s') \<Longrightarrow> job_step s s'"
| fail: "mj_markFailed i w err retryAt now s = (a, s') \<Longrightarrow> job_step s s'"
| requeue: "mj_requeueDead i now s = (a, s') \<Longrightarrow> job_step s s'"

text \<open>Every step keeps the store well formed and never unbinds an idempotency key.\<close>

definition keeps_keys :: "memory_job_store \<Rightarrow> memory_job_store \<Rightarrow> bool" where
  "keeps_keys s s' \<longleftrightarrow> (\<forall>k i. mget (mj_byIdempotencyKey s) k = Some i \<longrightarrow> mget (mj_byIdempotencyKey s') k = Some i)"

lemma put_job_bind:
  "put_job j (s\<lparr>mj_byIdempotencyKey := m\<rparr>) = (put_job j s)\<lparr>mj_byIdempotencyKey := m\<rparr>"
  by (cases s) (simp add: put_job_def)

lemma jobs_ok_bind:
  "jobs_ok s \<Longrightarrow> i \<noteq> [] \<Longrightarrow> mhas (mj_jobs s) i \<Longrightarrow>
     jobs_ok (s\<lparr>mj_byIdempotencyKey := mset_kv k i (mj_byIdempotencyKey s)\<rparr>)"
  by (simp add: jobs_ok_def)

lemma validateJob_id: "validateJob j = Inr u \<Longrightarrow> js_trim (j_id j) \<noteq> []"
  by (auto simp: validateJob_def rbind_Inr_iff requireString_def)

lemma trim_not_Nil: "js_trim i \<noteq> [] \<Longrightarrow> i \<noteq> []"
  by auto

lemma enqueue_ok:
  assumes s: "jobs_ok s" and j: "job_ok j" and run: "mj_enqueue j s = (r, s')"
  shows "jobs_ok s' \<and> keeps_keys s s'"
proof (cases "validateJob j")
  case (Inl e)
  then show ?thesis using run s by (simp add: mj_enqueue_def keeps_keys_def)
next
  case (Inr u)
  note i = validateJob_id [OF Inr]
  have put: "jobs_ok (put_job j s)" using jobs_ok_put [OF s i j] by (simp add: put_job_def)
  show ?thesis
  proof (cases "truthy (j_idempotencyKey j)")
    case False
    then show ?thesis using run Inr put by (auto simp: mj_enqueue_def keeps_keys_def put_job_def)
  next
    case True
    let ?k = "the (j_idempotencyKey j)"
    show ?thesis
    proof (cases "mget (mj_byIdempotencyKey s) ?k")
      case None
      then have "s' = put_job j (s\<lparr>mj_byIdempotencyKey := mset_kv ?k (j_id j) (mj_byIdempotencyKey s)\<rparr>)"
        using run Inr True by (simp add: mj_enqueue_def Let_def)
      then have "s' = (put_job j s)\<lparr>mj_byIdempotencyKey := mset_kv ?k (j_id j) (mj_byIdempotencyKey (put_job j s))\<rparr>"
        unfolding put_job_bind by (simp add: put_job_def)
      then show ?thesis
        using jobs_ok_bind [OF put, of "j_id j" ?k] None trim_not_Nil [OF i]
        by (auto simp: keeps_keys_def put_job_def)
    next
      case (Some a)
      then have "a \<noteq> [] \<and> mhas (mj_jobs s) a" using s by (simp add: jobs_ok_def)
      then have "s' = s" using run Inr True Some by (auto simp: mj_enqueue_def Let_def)
      then show ?thesis using s by (simp add: keeps_keys_def)
    qed
  qed
qed

lemma job_ok_queued [simp]: "job_ok (queued_job defaults uuid now ty data opts)"
  by (simp add: job_ok_def queued_job_def)

lemma update_ok:
  assumes "jobs_ok s" and "mget (mj_jobs s) i = Some j" and "j_id j' = j_id j" and "job_ok j'"
  shows "jobs_ok (s\<lparr>mj_jobs := mset_kv i j' (mj_jobs s)\<rparr>)"
  using jobs_ok_put [of s j'] jobs_okD [OF assms(1,2)] assms by simp

lemma job_step_ok:
  assumes s: "jobs_ok s" and step: "job_step s s'"
  shows "jobs_ok s' \<and> keeps_keys s s'"
  using step
proof cases
  case (enqueue defaults uuid now ty data opts r)
  then show ?thesis using enqueue_ok [OF s job_ok_queued] by (simp add: queue_enqueue_def memory_jobs_def)
next
  case (claim w now lease types a)
  show ?thesis
  proof (cases a)
    case None
    then have "s' = s"
      using claim by (auto simp: mj_claimNext_def Let_def split: sum.splits list.splits option.splits)
    then show ?thesis using s by (simp add: keeps_keys_def)
  next
    case (Some j')
    obtain j u where j: "j \<in> snd ` set (mj_jobs s)"
        "j' = j\<lparr>j_status := Running, j_attempts := j_attempts j + 1, j_lockedBy := Some w,
                 j_lockedUntil := Some (Iso u), j_updatedAt := Iso now\<rparr>" "s' = put_job j' s" "job_due types now j"
      using claim_cases claim Some by metis
    have ok: "mget (mj_jobs s) (j_id j) = Some j" "job_ok j" using jobs_ok_mem [OF s j(1)] by auto
    have "job_ok j'" using ok(2) j(2,4) by (auto simp: job_ok_def job_due_def split: if_splits)
    then show ?thesis using update_ok [OF s ok(1)] j by (simp add: put_job_def keeps_keys_def)
  qed
next
  case (succeed i w res now a)
  then show ?thesis
    using s by (auto simp: mj_markSucceeded_def held_job_def Let_def keeps_keys_def job_ok_def
        intro!: update_ok split: sum.splits option.splits if_splits dest: jobs_okD)
next
  case (fail i w err retryAt now a)
  then show ?thesis
    using s by (auto simp: mj_markFailed_def held_job_def Let_def keeps_keys_def job_ok_def
        intro!: update_ok split: sum.splits option.splits if_splits dest: jobs_okD)
next
  case (requeue i now a)
  then show ?thesis
    using s by (auto simp: mj_requeueDead_def Let_def keeps_keys_def job_ok_def
        intro!: update_ok split: sum.splits option.splits if_splits dest: jobs_okD)
qed

lemma job_steps_ok: "job_step\<^sup>*\<^sup>* s s' \<Longrightarrow> jobs_ok s \<Longrightarrow> jobs_ok s' \<and> keeps_keys s s'"
proof (induction rule: rtranclp_induct)
  case (step t u)
  then show ?case using job_step_ok [of t u] by (auto simp: keeps_keys_def)
qed (simp add: keeps_keys_def)

subsection \<open>Leases\<close>

text \<open>
  C10: a lease protects its job: while a job runs under a lease of worker \<open>w\<close> that ends at \<open>u\<close>, a
  claim made before \<open>u\<close> by any worker leaves that job as it is, and no other worker can
  complete or fail it: such calls return nothing and change nothing.
\<close>
theorem lease_protects:
  assumes "jobs_ok s" and "mget (mj_jobs s) i = Some j" and "j_status j = Running"
    and "j_lockedBy j = Some w" and "j_lockedUntil j = Some (Iso u)" and "w' \<noteq> w"
  shows "(now < u \<longrightarrow> mj_claimNext v (Some now) lease types s = (Inr a, s') \<longrightarrow> mget (mj_jobs s') i = Some j) \<and>
    (js_trim w' \<noteq> [] \<longrightarrow> mj_markSucceeded i w' res (Some t) s = (Inr None, s)) \<and>
    (js_trim w' \<noteq> [] \<longrightarrow> mj_markFailed i w' err retryAt (Some t) s = (Inr None, s))"
proof (intro conjI impI)
  note i = jobs_okD [OF assms(1,2)]
  have h: "held_job i w' s = None" using assms by (auto simp: held_job_def)
  show "mj_markSucceeded i w' res (Some t) s = (Inr None, s)" if "js_trim w' \<noteq> []"
    using that i h by (simp add: mj_markSucceeded_def requireString_def validateWorker_def throw_if_def)
  show "mj_markFailed i w' err retryAt (Some t) s = (Inr None, s)" if "js_trim w' \<noteq> []"
    using that i h by (simp add: mj_markFailed_def requireString_def validateWorker_def throw_if_def)
  assume now: "now < u" and run: "mj_claimNext v (Some now) lease types s = (Inr a, s')"
  show "mget (mj_jobs s') i = Some j"
  proof (cases a)
    case None
    then have "s' = s"
      using run by (auto simp: mj_claimNext_def Let_def split: sum.splits list.splits option.splits)
    then show ?thesis using assms(2) by simp
  next
    case (Some j')
    obtain k x where k: "k \<in> snd ` set (mj_jobs s)" "job_due types now k" "s' = put_job j' s"
        "j' = k\<lparr>j_status := Running, j_attempts := j_attempts k + 1, j_lockedBy := Some v,
                 j_lockedUntil := Some (Iso x), j_updatedAt := Iso now\<rparr>"
      using claim_cases run Some by metis
    have "j_id k \<noteq> i"
    proof
      assume "j_id k = i"
      then have "k = j" using jobs_ok_mem [OF assms(1) k(1)] assms(2) by simp
      then show False using k(2) assms(3,5) now by (auto simp: job_due_def stamp_le_def split: if_splits)
    qed
    then show ?thesis using k(3,4) assms(2) by (simp add: put_job_def)
  qed
qed

subsection \<open>A concrete store\<close>

definition demo_options :: enqueue_options where
  "demo_options = \<lparr>eo_runAt = None, eo_retryPolicy = (\<lambda>p. p\<lparr>rp_maxAttempts := Num 1\<rparr>),
     eo_idempotencyKey = Some ''k'', eo_correlationId = None, eo_payloadVersion = None\<rparr>"

definition demo_job :: job where
  "demo_job = queued_job DEFAULT_RETRY_POLICY ''j'' 0 ''t'' JNull demo_options"

definition demo_store :: memory_job_store where
  "demo_store = \<lparr>mj_jobs = [(''j'', demo_job)], mj_byIdempotencyKey = [(''k'', ''j'')]\<rparr>"

definition demo_claimed :: "int \<Rightarrow> int \<Rightarrow> job" where
  "demo_claimed n u = demo_job\<lparr>j_status := Running, j_attempts := n, j_lockedBy := Some ''w'',
     j_lockedUntil := Some (Iso u), j_updatedAt := Iso (u - 10)\<rparr>"

lemma trim_letter: "\<not> is_ws c \<Longrightarrow> js_trim [c] = [c]"
  by (simp add: js_trim_def)

lemmas demo_trims = trim_letter [of "CHR ''j''"] trim_letter [of "CHR ''t''"] trim_letter [of "CHR ''w''"]
  trim_letter [of "CHR ''v''"]

lemma demo_enqueue:
  "queue_enqueue memory_jobs DEFAULT_RETRY_POLICY ''j'' 0 ''t'' JNull demo_options MemoryJobStore_new =
     (Inr (demo_job, True), demo_store)"
proof -
  have "validateJob demo_job = Inr ()"
    by (simp add: validateJob_def demo_job_def queued_job_def demo_options_def requireString_def requireIsoDate_def
        requireOptDate_def positive_integer_def demo_trims is_ws_def throw_if_def)
  then show ?thesis
    by (simp add: queue_enqueue_def memory_jobs_def mj_enqueue_def demo_job_def [symmetric] MemoryJobStore_new_def
        demo_store_def put_job_def)
      (simp add: demo_job_def queued_job_def demo_options_def)
qed

lemma demo_ok: "jobs_ok demo_store" "job_step\<^sup>*\<^sup>* MemoryJobStore_new demo_store"
proof -
  have n: "jobs_ok MemoryJobStore_new" by (simp add: jobs_ok_def MemoryJobStore_new_def)
  have st: "job_step MemoryJobStore_new demo_store" by (rule job_step.enqueue [OF demo_enqueue])
  show "jobs_ok demo_store" using job_step_ok [OF n st] by blast
  show "job_step\<^sup>*\<^sup>* MemoryJobStore_new demo_store" using st by simp
qed

lemma demo_claim:
  "mj_claimNext ''w'' (Some 0) (Num 10) (Some [''t'']) demo_store =
     (Inr (Some (demo_claimed 1 10)), demo_store\<lparr>mj_jobs := [(''j'', demo_claimed 1 10)]\<rparr>)"
  "mj_claimNext ''w'' (Some 20) (Num 10) (Some [''t'']) (demo_store\<lparr>mj_jobs := [(''j'', demo_claimed 1 10)]\<rparr>) =
     (Inr (Some (demo_claimed 2 30)), demo_store\<lparr>mj_jobs := [(''j'', demo_claimed 2 30)]\<rparr>)"
  by (simp_all add: mj_claimNext_def validateWorker_def requireString_def demo_trims is_ws_def throw_if_def
      demo_store_def demo_job_def queued_job_def demo_options_def job_due_def stamp_le_def time_clip_def
      put_job_def demo_claimed_def Let_def)

text \<open>The first claim of a fresh job.\<close>
lemma claimNext_due_first_witness:
  "\<exists>j. j \<in> snd ` set (mj_jobs demo_store) \<and> j_type j \<in> set [''t''] \<and>
     fst (mj_claimNext ''w'' (Some 0) (Num 10) (Some [''t'']) demo_store) = Inr (Some (demo_claimed 1 10))"
  using claimNext_due_first [OF demo_claim(1)] unfolding demo_claim(1) fst_conv by blast

text \<open>Witness of C10: another worker meets the lease of the first.\<close>
theorem lease_protects_witness:
  "mj_markSucceeded ''j'' ''v'' None (Some 5) (demo_store\<lparr>mj_jobs := [(''j'', demo_claimed 1 10)]\<rparr>) =
     (Inr None, demo_store\<lparr>mj_jobs := [(''j'', demo_claimed 1 10)]\<rparr>)"
proof -
  let ?s = "demo_store\<lparr>mj_jobs := [(''j'', demo_claimed 1 10)]\<rparr>"
  have "jobs_ok ?s" using job_step_ok [OF demo_ok(1) job_step.claim [OF demo_claim(1)]] by blast
  then show ?thesis
    using lease_protects [of ?s "''j''" "demo_claimed 1 10" "''w''" 10 "''v''"]
    by (simp add: demo_claimed_def demo_trims is_ws_def)
qed

subsection \<open>Idempotency\<close>

text \<open>
  An idempotency key creates one job: once a job has been enqueued under a key, then after
  any sequence of queue, worker and maintenance steps another enqueue under the same key
  creates nothing, returns the job stored under the first job's id and leaves the store alone.
\<close>
lemma enqueue_idempotent:
  assumes "jobs_ok s" and "queue_enqueue memory_jobs d1 u1 n1 ty1 x1 o1 s = (Inr (j1, True), s1)"
    and "eo_idempotencyKey o1 = Some key" and "key \<noteq> []" and "job_step\<^sup>*\<^sup>* s1 s2"
    and "queue_enqueue memory_jobs d2 u2 n2 ty2 x2 o2 s2 = (Inr (j2, created), s3)" and "eo_idempotencyKey o2 = Some key"
  shows "\<not> created \<and> j_id j2 = j_id j1 \<and> s3 = s2"
proof -
  have k1: "j_idempotencyKey (queued_job d1 u1 n1 ty1 x1 o1) = Some key"
    and k2: "j_idempotencyKey (queued_job d2 u2 n2 ty2 x2 o2) = Some key"
    using assms(3,7) by (simp_all add: queued_job_def)
  have e1: "mj_enqueue (queued_job d1 u1 n1 ty1 x1 o1) s = (Inr (j1, True), s1)"
    using assms(2) by (simp add: queue_enqueue_def memory_jobs_def)
  have ok1: "jobs_ok s1" using enqueue_ok [OF assms(1) job_ok_queued e1] by blast
  have "mget (mj_byIdempotencyKey s1) key = Some (j_id j1)"
    using e1 k1 assms(4)
    by (auto simp: mj_enqueue_def Let_def put_job_def split: sum.splits option.splits if_splits)
  then have ok2: "jobs_ok s2" "mget (mj_byIdempotencyKey s2) key = Some (j_id j1)"
    using job_steps_ok [OF assms(5) ok1] by (auto simp: keeps_keys_def)
  then have "j_id j1 \<noteq> []" "mhas (mj_jobs s2) (j_id j1)" unfolding jobs_ok_def by blast+
  then obtain old where old: "mget (mj_jobs s2) (j_id j1) = Some old" by auto
  then have "mj_enqueue (queued_job d2 u2 n2 ty2 x2 o2) s2 = (Inr (old, False), s2)"
    using assms(6) k2 assms(4) ok2(2) \<open>j_id j1 \<noteq> []\<close>
    by (auto simp: queue_enqueue_def memory_jobs_def mj_enqueue_def split: sum.splits)
  then show ?thesis
    using assms(6) jobs_okD [OF ok2(1) old] by (auto simp: queue_enqueue_def memory_jobs_def)
qed

text \<open>The same key again, after the first job was claimed.\<close>
lemma enqueue_idempotent_witness:
  "\<exists>j s. queue_enqueue memory_jobs DEFAULT_RETRY_POLICY ''j'' 3 ''t'' JNull demo_options
     (demo_store\<lparr>mj_jobs := [(''j'', demo_claimed 1 10)]\<rparr>) = (Inr (j, False), s)"
proof -
  let ?s = "demo_store\<lparr>mj_jobs := [(''j'', demo_claimed 1 10)]\<rparr>"
  have n: "jobs_ok MemoryJobStore_new" by (simp add: jobs_ok_def MemoryJobStore_new_def)
  have st: "job_step\<^sup>*\<^sup>* demo_store ?s" using job_step.claim [OF demo_claim(1)] by simp
  have key: "eo_idempotencyKey demo_options = Some ''k''" by (simp add: demo_options_def)
  have val: "validateJob (queued_job DEFAULT_RETRY_POLICY ''j'' 3 ''t'' JNull demo_options) = Inr ()"
    by (simp add: validateJob_def queued_job_def demo_options_def requireString_def requireIsoDate_def
        requireOptDate_def positive_integer_def demo_trims is_ws_def throw_if_def)
  have "j_idempotencyKey (queued_job DEFAULT_RETRY_POLICY ''j'' 3 ''t'' JNull demo_options) = Some ''k''"
    by (simp add: queued_job_def key)
  then have "mj_enqueue (queued_job DEFAULT_RETRY_POLICY ''j'' 3 ''t'' JNull demo_options) ?s =
      (Inr (demo_claimed 1 10, False), ?s)"
    using val by (simp add: mj_enqueue_def demo_store_def)
  then have run: "queue_enqueue memory_jobs DEFAULT_RETRY_POLICY ''j'' 3 ''t'' JNull demo_options ?s =
      (Inr (demo_claimed 1 10, False), ?s)"
    by (simp add: queue_enqueue_def memory_jobs_def)
  show ?thesis
    using run enqueue_idempotent [OF n demo_enqueue key _ st run key] by auto
qed

text \<open>
  The limit of attempts binds failures only: when a worker dies, the job is claimed again
  after its lease without a look at \<open>maxAttempts\<close>, so a job may be attempted more often than
  its retry policy allows.
\<close>
lemma attempts_exceed_maximum:
  "\<exists>s j. job_step\<^sup>*\<^sup>* MemoryJobStore_new s \<and> mget (mj_jobs s) (j_id j) = Some j \<and>
     rp_maxAttempts (j_retryPolicy j) = Num 1 \<and> j_attempts j = 2"
proof -
  have "job_step\<^sup>*\<^sup>* MemoryJobStore_new (demo_store\<lparr>mj_jobs := [(''j'', demo_claimed 2 30)]\<rparr>)"
    using demo_ok(2) job_step.claim [OF demo_claim(1)] job_step.claim [OF demo_claim(2)]
    by (meson rtranclp.rtrancl_into_rtrancl)
  moreover have "j_id (demo_claimed 2 30) = ''j''" "rp_maxAttempts (j_retryPolicy (demo_claimed 2 30)) = Num 1"
    "j_attempts (demo_claimed 2 30) = 2"
    by (simp_all add: demo_claimed_def demo_job_def queued_job_def demo_options_def)
  ultimately show ?thesis by (intro exI conjI) (assumption, simp_all)
qed

subsection \<open>The worker, for every store that keeps the contract\<close>

locale job_store =
  fixes store :: "'s job_store_if"
    and lookup :: "'s \<Rightarrow> string \<Rightarrow> job option"
    and ok :: "'s \<Rightarrow> bool"
  assumes claim_law: "ok s \<Longrightarrow> js_claimNext store w (Some now) lease types s = (Inr (Some j), s') \<Longrightarrow>
      ok s' \<and> lookup s' (j_id j) = Some j \<and> j_status j = Running \<and> j_lockedBy j = Some w \<and>
      js_trim w \<noteq> [] \<and> 1 \<le> j_attempts j"
    and succeed_law: "ok s \<Longrightarrow> lookup s i = Some j \<Longrightarrow> j_status j = Running \<Longrightarrow> j_lockedBy j = Some w \<Longrightarrow>
      js_trim w \<noteq> [] \<Longrightarrow> \<exists>j' s'. js_markSucceeded store i w res (Some t) s = (Inr (Some j'), s') \<and>
        lookup s' i = Some j' \<and> j_status j' = Succeeded \<and> j_lockedBy j' = None"
    and fail_law: "ok s \<Longrightarrow> lookup s i = Some j \<Longrightarrow> j_status j = Running \<Longrightarrow> j_lockedBy j = Some w \<Longrightarrow>
      js_trim w \<noteq> [] \<Longrightarrow> 1 \<le> je_attempt err \<Longrightarrow> je_at err = Iso t0 \<Longrightarrow> js_trim (je_message err) \<noteq> [] \<Longrightarrow>
      retryAt \<noteq> Some None \<Longrightarrow> \<exists>j' s'. js_markFailed store i w err retryAt (Some t) s = (Inr (Some j'), s') \<and>
        lookup s' i = Some j' \<and> j_lockedBy j' = None \<and>
        (case retryAt of Some (Some r) \<Rightarrow> j_status j' = Queued \<and> j_runAt j' = Iso r | _ \<Rightarrow> j_status j' = Dead)"
    and lookup_id: "ok s \<Longrightarrow> lookup s i = Some j \<Longrightarrow> j_id j = i"
begin

definition settled :: "job \<Rightarrow> outcome \<Rightarrow> int \<Rightarrow> job \<Rightarrow> bool" where
  "settled j out t2 j' \<longleftrightarrow> j_lockedBy j' = None \<and> (case out of
       Returned _ \<Rightarrow> j_status j' = Succeeded
     | Threw _ _ nonRetryable \<Rightarrow>
         if nonRetryable \<or> exhausted j then j_status j' = Dead
         else j_status j' = Queued \<and>
           (\<exists>r. time_clip (of_int t2 + computeBackoffMs (j_retryPolicy j) (j_attempts j)) = Some r \<and> j_runAt j' = Iso r))"

lemma finish_settles:
  assumes s: "ok s" and l: "lookup s (j_id j) = Some j" and r: "j_status j = Running" "j_lockedBy j = Some (jw_workerId w)"
    and w: "js_trim (jw_workerId w) \<noteq> []" and a: "1 \<le> j_attempts j"
    and msg: "\<And>m st nr. out = Threw m st nr \<Longrightarrow> js_trim m \<noteq> []"
    and clip: "time_clip (of_int t2 + computeBackoffMs (j_retryPolicy j) (j_attempts j)) \<noteq> None"
  shows "\<exists>j' s'. jw_finish store w j out now (t1, t2, t3) s = (Inr j', s') \<and> lookup s' (j_id j) = Some j' \<and> settled j out t2 j'"
proof (cases out)
  case (Returned res)
  then show ?thesis
    using succeed_law [OF s l r w, of res now] by (auto simp: jw_finish_def settled_def)
next
  case (Threw m st nr)
  let ?err = "\<lparr>je_attempt = j_attempts j, je_at = Iso t1, je_message = m, je_stack = st\<rparr>"
  let ?clip = "time_clip (of_int t2 + computeBackoffMs (j_retryPolicy j) (j_attempts j))"
  let ?retry = "if \<not> nr \<and> \<not> exhausted j then Some ?clip else None"
  have "?retry \<noteq> Some None" using clip by simp
  then obtain j' s' where f: "js_markFailed store (j_id j) (jw_workerId w) ?err ?retry (Some t3) s = (Inr (Some j'), s')"
      "lookup s' (j_id j) = Some j'" "j_lockedBy j' = None"
      "case ?retry of Some (Some r) \<Rightarrow> j_status j' = Queued \<and> j_runAt j' = Iso r | _ \<Rightarrow> j_status j' = Dead"
    using fail_law [OF s l r w, of ?err t1 ?retry t3] a msg [OF Threw] by auto
  have fin: "jw_finish store w j out now (t1, t2, t3) s = (Inr j', s')"
    using f(1) by (simp add: Threw jw_finish_def jw_handleFailure_def)
  have "settled j out t2 j'"
    using f(3,4) clip by (auto simp: settled_def Threw split: option.splits if_splits)
  then show ?thesis using fin f(2) by blast
qed

lemma runOnce_settles:
  assumes s: "ok s" and c: "jw_claim store w t0 s = (Inr (Some j), s1)"
    and msg: "\<And>m st nr. handler j = Threw m st nr \<Longrightarrow> js_trim m \<noteq> []"
    and clip: "time_clip (of_int t2 + computeBackoffMs (j_retryPolicy j) (j_attempts j)) \<noteq> None"
  shows "\<exists>j' s'. jw_runOnce store w handler t0 now (t1, t2, t3) s = (Inr (Some j'), s') \<and>
    lookup s' (j_id j) = Some j' \<and> settled j (handler j) t2 j'"
proof -
  have "js_claimNext store (jw_workerId w) (Some t0) (jw_leaseMs w) (Some (jw_types w)) s = (Inr (Some j), s1)"
    using c by (auto simp: jw_claim_def split: if_splits)
  note cl = claim_law [OF s this]
  obtain j' s' where "jw_finish store w j (handler j) now (t1, t2, t3) s1 = (Inr j', s')"
      "lookup s' (j_id j) = Some j'" "settled j (handler j) t2 j'"
    using finish_settles [of s1 j w "handler j" t2] cl msg clip by blast
  then show ?thesis using c by (simp add: jw_runOnce_def)
qed

end

lemma memory_jobs_simps [simp]:
  "js_enqueue memory_jobs = mj_enqueue" "js_claimNext memory_jobs = mj_claimNext"
  "js_markSucceeded memory_jobs = mj_markSucceeded" "js_markFailed memory_jobs = mj_markFailed"
  "js_counts memory_jobs = mj_counts"
  by (simp_all add: memory_jobs_def)

interpretation mj: job_store memory_jobs "\<lambda>s. mget (mj_jobs s)" jobs_ok
proof
  fix s s' :: memory_job_store and w now lease types j
  assume s: "jobs_ok s" and c: "js_claimNext memory_jobs w (Some now) lease types s = (Inr (Some j), s')"
  then have c': "mj_claimNext w (Some now) lease types s = (Inr (Some j), s')" by simp
  have ok: "jobs_ok s'" using job_step_ok [OF s job_step.claim [OF c']] by blast
  have "js_trim w \<noteq> [] \<and> s' = put_job j s \<and> j_status j = Running \<and> j_lockedBy j = Some w"
    by (rule claim_cases [OF c']) simp
  moreover from this have "mget (mj_jobs s') (j_id j) = Some j" by (simp add: put_job_def)
  moreover from this have "job_ok j" using jobs_okD [OF ok] by blast
  ultimately show "jobs_ok s' \<and> mget (mj_jobs s') (j_id j) = Some j \<and> j_status j = Running \<and> j_lockedBy j = Some w \<and>
      js_trim w \<noteq> [] \<and> 1 \<le> j_attempts j"
    using ok by (simp add: job_ok_def)
next
  fix s :: memory_job_store and i j w res t
  assume s: "jobs_ok s" and l: "mget (mj_jobs s) i = Some j" and h: "j_status j = Running" "j_lockedBy j = Some w" "js_trim w \<noteq> []"
  have "js_trim i \<noteq> []" using jobs_okD [OF s l] by blast
  then show "\<exists>j' s'. js_markSucceeded memory_jobs i w res (Some t) s = (Inr (Some j'), s') \<and>
      mget (mj_jobs s') i = Some j' \<and> j_status j' = Succeeded \<and> j_lockedBy j' = None"
    using l h by (simp add: mj_markSucceeded_def held_job_def requireString_def validateWorker_def throw_if_def Let_def)
next
  fix s :: memory_job_store and err :: job_failure and retryAt :: "int option option" and i j w t0 t
  assume s: "jobs_ok s" and l: "mget (mj_jobs s) i = Some j" and h: "j_status j = Running" "j_lockedBy j = Some w" "js_trim w \<noteq> []"
    and e: "1 \<le> je_attempt err" "je_at err = Iso t0" "js_trim (je_message err) \<noteq> []" "retryAt \<noteq> Some None"
  have "js_trim i \<noteq> []" using jobs_okD [OF s l] by blast
  then show "\<exists>j' s'. js_markFailed memory_jobs i w err retryAt (Some t) s = (Inr (Some j'), s') \<and>
      mget (mj_jobs s') i = Some j' \<and> j_lockedBy j' = None \<and>
      (case retryAt of Some (Some r) \<Rightarrow> j_status j' = Queued \<and> j_runAt j' = Iso r | _ \<Rightarrow> j_status j' = Dead)"
    using l h e
    by (auto simp: mj_markFailed_def held_job_def requireString_def requireIsoDate_def validateWorker_def throw_if_def
        Let_def split: option.splits)
next
  fix s :: memory_job_store and i j
  assume "jobs_ok s" and "mget (mj_jobs s) i = Some j"
  then show "j_id j = i" using jobs_okD by blast
qed

text \<open>
  A run of the worker that claims a job never leaves it running: a handler that returns
  completes the job; one that throws a non-empty message sends it back to the queue at the
  backoff time, or to the dead-letter set exactly when the error is not retryable or the
  attempts are used up.
\<close>
lemma runOnce_settles_job:
  assumes "jobs_ok s" and "jw_claim memory_jobs w t0 s = (Inr (Some j), s1)"
    and "\<And>m st nr. handler j = Threw m st nr \<Longrightarrow> js_trim m \<noteq> []"
    and "time_clip (of_int t2 + computeBackoffMs (j_retryPolicy j) (j_attempts j)) = Some r"
  shows "\<exists>j' s'. jw_runOnce memory_jobs w handler t0 now (t1, t2, t3) s = (Inr (Some j'), s') \<and>
    mget (mj_jobs s') (j_id j) = Some j' \<and> j_lockedBy j' = None \<and>
    (case handler j of
       Returned _ \<Rightarrow> j_status j' = Succeeded
     | Threw _ _ nr \<Rightarrow>
         if nr \<or> exhausted j then j_status j' = Dead else j_status j' = Queued \<and> j_runAt j' = Iso r)"
proof -
  obtain j' s' where *: "jw_runOnce memory_jobs w handler t0 now (t1, t2, t3) s = (Inr (Some j'), s')"
      "mget (mj_jobs s') (j_id j) = Some j'" "mj.settled j (handler j) t2 j'"
    using mj.runOnce_settles [OF assms(1,2), of handler t2 now t1 t3] assms(3,4) by auto
  then show ?thesis
    using assms(4) unfolding mj.settled_def by (auto split: outcome.splits if_splits)
qed

text \<open>The only attempt of a job fails, so the job is dead.\<close>
lemma runOnce_settles_job_witness:
  "\<exists>j' s'. jw_runOnce memory_jobs \<lparr>jw_workerId = ''w'', jw_leaseMs = Num 10, jw_types = [''t'']\<rparr>
       (\<lambda>_. Threw ''t'' None False) 0 1 (2, 3, 4) demo_store = (Inr (Some j'), s') \<and> j_status j' = Dead"
proof -
  let ?w = "\<lparr>jw_workerId = ''w'', jw_leaseMs = Num 10, jw_types = [''t'']\<rparr>"
  let ?j = "demo_claimed 1 10" and ?h = "\<lambda>_ :: job. Threw ''t'' None False"
  have c: "jw_claim memory_jobs ?w 0 demo_store = (Inr (Some ?j), demo_store\<lparr>mj_jobs := [(''j'', ?j)]\<rparr>)"
    using demo_claim(1) by (simp add: jw_claim_def)
  have e: "exhausted ?j" by (simp add: exhausted_def demo_claimed_def demo_job_def queued_job_def demo_options_def)
  have clip: "time_clip (of_int 3 + computeBackoffMs (j_retryPolicy ?j) (j_attempts ?j)) = Some 1003"
    by (simp add: time_clip_def computeBackoffMs_def demo_claimed_def demo_job_def queued_job_def demo_options_def
        DEFAULT_RETRY_POLICY_def)
  have "js_trim ''t'' \<noteq> []" by (simp add: demo_trims is_ws_def)
  then have "\<exists>j' s'. jw_runOnce memory_jobs ?w ?h 0 1 (2, 3, 4) demo_store = (Inr (Some j'), s') \<and>
      mget (mj_jobs s') (j_id ?j) = Some j' \<and> j_lockedBy j' = None \<and>
      (case ?h ?j of Returned _ \<Rightarrow> j_status j' = Succeeded
       | Threw _ _ nr \<Rightarrow> if nr \<or> exhausted ?j then j_status j' = Dead else j_status j' = Queued \<and> j_runAt j' = Iso 1003)"
    by (intro runOnce_settles_job [OF demo_ok(1) c _ clip]) simp
  then show ?thesis using e by auto
qed

text \<open>
  A handler that throws an error with an empty message defeats this: the store refuses to
  record the failure, so \<open>runOnce\<close> itself throws and the job stays as claimed, running under its
  lease, instead of being retried or dead-lettered.
\<close>
lemma empty_message_not_recorded:
  assumes "jobs_ok s" and "jw_claim memory_jobs w t0 s = (Inr (Some j), s1)" and "handler j = Threw [] st nr"
  shows "jw_runOnce memory_jobs w handler t0 now t s = (Inl (EmptyField ''error.message''), s1) \<and>
    mget (mj_jobs s1) (j_id j) = Some j \<and> j_status j = Running"
proof -
  have "js_claimNext memory_jobs (jw_workerId w) (Some t0) (jw_leaseMs w) (Some (jw_types w)) s = (Inr (Some j), s1)"
    using assms(2) by (auto simp: jw_claim_def split: if_splits)
  note cl = mj.claim_law [OF assms(1) this]
  have "js_trim (j_id j) \<noteq> []" using cl jobs_okD by blast
  then show ?thesis
    using cl assms(2,3)
    by (auto simp: jw_runOnce_def jw_finish_def jw_handleFailure_def mj_markFailed_def held_job_def requireString_def
        requireIsoDate_def validateWorker_def throw_if_def Let_def split: prod.split)
qed

text \<open>The concrete job with such a handler.\<close>
lemma empty_message_not_recorded_witness:
  "fst (jw_runOnce memory_jobs \<lparr>jw_workerId = ''w'', jw_leaseMs = Num 10, jw_types = [''t'']\<rparr>
     (\<lambda>_. Threw [] None False) 0 1 (2, 3, 4) demo_store) = Inl (EmptyField ''error.message'')"
proof -
  let ?w = "\<lparr>jw_workerId = ''w'', jw_leaseMs = Num 10, jw_types = [''t'']\<rparr>"
  have c: "jw_claim memory_jobs ?w 0 demo_store =
      (Inr (Some (demo_claimed 1 10)), demo_store\<lparr>mj_jobs := [(''j'', demo_claimed 1 10)]\<rparr>)"
    using demo_claim(1) by (simp add: jw_claim_def)
  show ?thesis using empty_message_not_recorded [OF demo_ok(1) c, of "\<lambda>_. Threw [] None False" None False] by simp
qed

end
