(* ===== verification/Backpressure.thy ===== *)
theory Backpressure
  imports Job_Properties
begin

text \<open>
  Admission control in front of the job queue, \<open>backend/src/jobs/backpressure.ts\<close>. Configuration
  values and costs are finite doubles, held as the rational numbers they are, and every sum,
  product and quotient is rounded (\<open>round_double\<close>). Depths are counts of jobs.
\<close>

datatype backpressure_state = BP_NORMAL | BP_DEGRADED | BP_REJECTING

datatype job_priority = P_CRITICAL | P_HIGH | P_NORMAL | P_LOW

datatype actor_role = R_MAINTAINER | R_ADMIN | R_OWNER | R_USER | R_SYSTEM

record backpressure_config =
  bp_maxQueueDepth :: rat
  bp_highWatermarkRatio :: rat
  bp_lowWatermarkRatio :: rat
  bp_maxWorkloadCost :: rat
  bp_defaultJobCost :: rat
  bp_jobCostWeights :: "(string \<times> rat) list"
  bp_baseRetryAfterMs :: rat
  bp_maxRetryAfterMs :: rat

definition DEFAULT_BACKPRESSURE_CONFIG :: backpressure_config where
  "DEFAULT_BACKPRESSURE_CONFIG =
     \<lparr>bp_maxQueueDepth = 200, bp_highWatermarkRatio = round_double (8 / 10), bp_lowWatermarkRatio = 1 / 2,
      bp_maxWorkloadCost = 1000, bp_defaultJobCost = 1,
      bp_jobCostWeights =
        [(''invoices.expire-pending'', 1), (''notifications.email'', 2), (''webhooks.delivery'', 3),
         (''crypto.evidence-verification'', 8), (''reports.csv-export'', 10), (''invoices.bulk-import'', 15),
         (''reconciliation.ledger-sweep'', 20)],
      bp_baseRetryAfterMs = 2000, bp_maxRetryAfterMs = 60000\<rparr>"

record bounded_options =
  bo_priority :: "job_priority option"
  bo_bypassBackpressure :: "bool option"
  bo_actorRole :: "actor_role option"
  bo_costOverride :: "rat option"
  bo_enqueue :: enqueue_options

record bp_controller =
  bc_config :: backpressure_config
  bc_currentCost :: rat
  bc_totalEnqueued :: nat
  bc_totalRejected :: nat
  bc_totalShed :: nat
  bc_totalBypassed :: nat
  bc_state :: backpressure_state

datatype config_error = DepthNotPositive | BadWatermarks

definition validateConfig :: "backpressure_config \<Rightarrow> (config_error, unit) result" where
  "validateConfig cfg =
     rbind (throw_if (bp_maxQueueDepth cfg \<le> 0) DepthNotPositive) (\<lambda>_.
       throw_if (bp_lowWatermarkRatio cfg \<le> 0 \<or> bp_highWatermarkRatio cfg \<le> bp_lowWatermarkRatio cfg \<or>
         bp_highWatermarkRatio cfg > 1) BadWatermarks)"

text \<open>\<open>config\<close> spreads the given fields over the defaults.\<close>

definition BackpressureController_new ::
  "(backpressure_config \<Rightarrow> backpressure_config) \<Rightarrow> (config_error, bp_controller) result" where
  "BackpressureController_new config =
     (let cfg = config DEFAULT_BACKPRESSURE_CONFIG in
      rbind (validateConfig cfg) (\<lambda>_.
        Inr \<lparr>bc_config = cfg, bc_currentCost = 0, bc_totalEnqueued = 0, bc_totalRejected = 0,
             bc_totalShed = 0, bc_totalBypassed = 0, bc_state = BP_NORMAL\<rparr>))"

definition highWatermarkDepth :: "bp_controller \<Rightarrow> int" where
  "highWatermarkDepth c = \<lfloor>round_double (bp_maxQueueDepth (bc_config c) * bp_highWatermarkRatio (bc_config c))\<rfloor>"

definition lowWatermarkDepth :: "bp_controller \<Rightarrow> int" where
  "lowWatermarkDepth c = \<lfloor>round_double (bp_maxQueueDepth (bc_config c) * bp_lowWatermarkRatio (bc_config c))\<rfloor>"

definition getJobCost :: "string \<Rightarrow> rat option \<Rightarrow> bp_controller \<Rightarrow> rat" where
  "getJobCost ty costOverride c =
     (case costOverride of
        Some x \<Rightarrow> if x \<ge> 0 then x
                  else (case map_of (bp_jobCostWeights (bc_config c)) ty of Some w \<Rightarrow> w | None \<Rightarrow> bp_defaultJobCost (bc_config c))
      | None \<Rightarrow> (case map_of (bp_jobCostWeights (bc_config c)) ty of Some w \<Rightarrow> w | None \<Rightarrow> bp_defaultJobCost (bc_config c)))"

definition updateState :: "nat \<Rightarrow> bp_controller \<Rightarrow> bp_controller" where
  "updateState depth c =
     c\<lparr>bc_state :=
        (if of_nat depth \<ge> bp_maxQueueDepth (bc_config c) then BP_REJECTING
         else if int depth \<ge> highWatermarkDepth c then BP_DEGRADED
         else if int depth \<le> lowWatermarkDepth c then BP_NORMAL
         else bc_state c)\<rparr>"

definition computeRetryAfter :: "nat \<Rightarrow> bp_controller \<Rightarrow> rat" where
  "computeRetryAfter depth c =
     (let saturation = min 1 (round_double (of_nat depth / bp_maxQueueDepth (bc_config c)));
          scaledDelay = round_double (bp_baseRetryAfterMs (bc_config c) *
            round_double (1 + round_double (saturation * 4)));
          jitter = of_nat (depth mod 7 * 150)
      in min (bp_maxRetryAfterMs (bc_config c)) (of_int \<lfloor>round_double (scaledDelay + jitter) + 1 / 2\<rfloor>))"

datatype admission =
    Admitted bool  \<comment> \<open>whether it is a bypass\<close>
  | Refused string rat  \<comment> \<open>reason and delay before a retry\<close>

definition isPrivileged :: "bounded_options \<Rightarrow> bool" where
  "isPrivileged o1 \<longleftrightarrow> bo_bypassBackpressure o1 = Some True \<or> bo_priority o1 = Some P_CRITICAL \<or>
     bo_actorRole o1 \<in> {Some R_MAINTAINER, Some R_OWNER, Some R_SYSTEM}"

definition emergencyHardLimit :: "bp_controller \<Rightarrow> int" where
  "emergencyHardLimit c = \<lfloor>round_double (bp_maxQueueDepth (bc_config c) * round_double (12 / 10))\<rfloor>"

definition reject :: "bp_controller \<Rightarrow> bp_controller" where
  "reject c = c\<lparr>bc_totalRejected := Suc (bc_totalRejected c)\<rparr>"

definition charge :: "rat \<Rightarrow> bp_controller \<Rightarrow> bp_controller" where
  "charge cost c = c\<lparr>bc_totalEnqueued := Suc (bc_totalEnqueued c),
     bc_currentCost := round_double (bc_currentCost c + cost)\<rparr>"

definition checkAdmission :: "string \<Rightarrow> nat \<Rightarrow> bounded_options \<Rightarrow> bp_controller \<Rightarrow> admission \<times> bp_controller" where
  "checkAdmission ty depth o1 c0 =
     (let c = updateState depth c0;
          jobCost = getJobCost ty (bo_costOverride o1) c
      in if isPrivileged o1 then
           (if int depth \<ge> emergencyHardLimit c
            then (Refused ''EMERGENCY_BUFFER_EXHAUSTED'' (bp_maxRetryAfterMs (bc_config c)), reject c)
            else (Admitted True, charge jobCost (c\<lparr>bc_totalBypassed := Suc (bc_totalBypassed c)\<rparr>)))
         else if of_nat depth \<ge> bp_maxQueueDepth (bc_config c)
         then (Refused ''QUEUE_CAPACITY_EXCEEDED'' (computeRetryAfter depth c), reject c)
         else if round_double (bc_currentCost c + jobCost) > bp_maxWorkloadCost (bc_config c)
         then (Refused ''WORKLOAD_BUDGET_EXCEEDED'' (computeRetryAfter depth c), reject c)
         else if bc_state c = BP_DEGRADED \<and> bo_priority o1 \<noteq> Some P_HIGH
         then (Refused ''HIGH_WATERMARK_LOAD_SHEDDING'' (computeRetryAfter depth c),
               reject (c\<lparr>bc_totalShed := Suc (bc_totalShed c)\<rparr>))
         else (Admitted False, charge jobCost c))"

definition releaseJob :: "string \<Rightarrow> rat option \<Rightarrow> bp_controller \<Rightarrow> bp_controller" where
  "releaseJob ty costOverride c =
     c\<lparr>bc_currentCost := max 0 (round_double (bc_currentCost c - getJobCost ty costOverride c))\<rparr>"

record bp_metrics =
  bm_currentDepth :: nat
  bm_currentCost :: rat
  bm_state :: backpressure_state
  bm_highWatermark :: int
  bm_lowWatermark :: int
  bm_maxCapacity :: rat
  bm_maxCost :: rat
  bm_totals :: "nat \<times> nat \<times> nat \<times> nat"  \<comment> \<open>enqueued, rejected, shed, bypassed\<close>

definition controller_getMetrics :: "nat \<Rightarrow> bp_controller \<Rightarrow> bp_metrics \<times> bp_controller" where
  "controller_getMetrics depth c0 =
     (let c = updateState depth c0 in
      (\<lparr>bm_currentDepth = depth, bm_currentCost = bc_currentCost c, bm_state = bc_state c,
        bm_highWatermark = highWatermarkDepth c, bm_lowWatermark = lowWatermarkDepth c,
        bm_maxCapacity = bp_maxQueueDepth (bc_config c), bm_maxCost = bp_maxWorkloadCost (bc_config c),
        bm_totals = (bc_totalEnqueued c, bc_totalRejected c, bc_totalShed c, bc_totalBypassed c)\<rparr>, c))"

definition resetStats :: "bp_controller \<Rightarrow> bp_controller" where
  "resetStats c = c\<lparr>bc_currentCost := 0, bc_totalEnqueued := 0, bc_totalRejected := 0, bc_totalShed := 0,
     bc_totalBypassed := 0, bc_state := BP_NORMAL\<rparr>"

subsection \<open>The bounded queue\<close>

datatype bounded_error =
    QueueBackpressureError string rat nat int string
      \<comment> \<open>reason, retry delay, depth, reported capacity, job type\<close>
  | StoreRefused job_error

definition activeDepth :: "'s job_store_if \<Rightarrow> 's \<Rightarrow> nat" where
  "activeDepth store s = js_counts store s Queued + js_counts store s Running"

definition bq_enqueue ::
  "'s job_store_if \<Rightarrow> retry_policy \<Rightarrow> string \<Rightarrow> int \<Rightarrow> string \<Rightarrow> json \<Rightarrow> bounded_options \<Rightarrow> bp_controller \<times> 's \<Rightarrow>
   (bounded_error, job \<times> bool) result \<times> bp_controller \<times> 's" where
  "bq_enqueue store defaults uuid now ty data o1 cs =
     (let (c, s) = cs; depth = activeDepth store s in
      case checkAdmission ty depth o1 c of
        (Refused reason delay, c') \<Rightarrow>
          (Inl (QueueBackpressureError reason delay depth (highWatermarkDepth c') ty), c', s)
      | (Admitted _, c') \<Rightarrow>
          (case queue_enqueue store defaults uuid now ty data (bo_enqueue o1) s of
             (Inl e, s') \<Rightarrow> (Inl (StoreRefused e), c', s')
           | (Inr r, s') \<Rightarrow> (Inr r, c', s')))"

definition bq_getMetrics :: "'s job_store_if \<Rightarrow> bp_controller \<times> 's \<Rightarrow> bp_metrics \<times> bp_controller \<times> 's" where
  "bq_getMetrics store cs =
     (let (c, s) = cs; (m, c') = controller_getMetrics (activeDepth store s) c in (m, c', s))"

subsection \<open>Admission\<close>

lemma updateState_frame [simp]:
  "bc_config (updateState d c) = bc_config c" "bc_currentCost (updateState d c) = bc_currentCost c"
  by (simp_all add: updateState_def)

lemma getJobCost_cong: "bc_config c = bc_config c' \<Longrightarrow> getJobCost ty x c = getJobCost ty x c'"
  by (simp add: getJobCost_def split: option.split)

text \<open>
  The admission decision, completely: a privileged request is admitted while the depth is
  below 120 percent of the capacity; any other exactly when the queue is below capacity, the
  cost budget has room, and the controller is not degraded or the priority is high.
\<close>
lemma admission_cases:
  "(\<exists>b. fst (checkAdmission ty depth o1 c) = Admitted b) \<longleftrightarrow>
     (if isPrivileged o1 then int depth < emergencyHardLimit c
      else of_nat depth < bp_maxQueueDepth (bc_config c) \<and>
        round_double (bc_currentCost c + getJobCost ty (bo_costOverride o1) c) \<le> bp_maxWorkloadCost (bc_config c) \<and>
        (bc_state (updateState depth c) \<noteq> BP_DEGRADED \<or> bo_priority o1 = Some P_HIGH))"
proof -
  have "emergencyHardLimit (updateState depth c) = emergencyHardLimit c"
    by (simp add: emergencyHardLimit_def)
  moreover have "getJobCost ty x (updateState depth c) = getJobCost ty x c" for x
    by (rule getJobCost_cong) simp
  ultimately show ?thesis by (auto simp: checkAdmission_def Let_def not_le not_less)
qed

text \<open>
  Hysteresis: the controller leaves NORMAL only at or above the high watermark or at
  capacity, comes back to NORMAL only at or below the low watermark, and rejects exactly at
  capacity when it starts from another state; between the watermarks it stays as it is.
\<close>
lemma updateState_hysteresis:
  "(bc_state c = BP_NORMAL \<and> bc_state (updateState d c) \<noteq> BP_NORMAL \<longrightarrow>
      highWatermarkDepth c \<le> int d \<or> bp_maxQueueDepth (bc_config c) \<le> of_nat d) \<and>
   (bc_state c \<noteq> BP_NORMAL \<and> bc_state (updateState d c) = BP_NORMAL \<longrightarrow> int d \<le> lowWatermarkDepth c) \<and>
   (lowWatermarkDepth c < int d \<and> int d < highWatermarkDepth c \<and> of_nat d < bp_maxQueueDepth (bc_config c) \<longrightarrow>
      bc_state (updateState d c) = bc_state c) \<and>
   (of_nat d \<ge> bp_maxQueueDepth (bc_config c) \<longrightarrow> bc_state (updateState d c) = BP_REJECTING)"
  by (auto simp: updateState_def split: if_splits)

definition demo_config :: "backpressure_config \<Rightarrow> backpressure_config" where
  "demo_config cfg = cfg\<lparr>bp_maxQueueDepth := 10, bp_highWatermarkRatio := 1, bp_maxWorkloadCost := 1\<rparr>"

definition demo_controller :: bp_controller where
  "demo_controller =
     \<lparr>bc_config = demo_config DEFAULT_BACKPRESSURE_CONFIG, bc_currentCost = 0, bc_totalEnqueued = 0,
      bc_totalRejected = 0, bc_totalShed = 0, bc_totalBypassed = 0, bc_state = BP_NORMAL\<rparr>"

definition plain_options :: bounded_options where
  "plain_options = \<lparr>bo_priority = None, bo_bypassBackpressure = None, bo_actorRole = None, bo_costOverride = None,
     bo_enqueue = demo_options\<rparr>"

lemma demo_controller_new: "BackpressureController_new demo_config = Inr demo_controller"
  by (simp add: BackpressureController_new_def demo_controller_def demo_config_def validateConfig_def
      DEFAULT_BACKPRESSURE_CONFIG_def)

lemma round_double_numeral:
  "round_double 0 = 0" "round_double 1 = 1" "round_double 2 = 2" "round_double 5 = 5" "round_double 10 = 10"
  using round_double_int [of 0] round_double_int [of 1] round_double_int [of 2] round_double_int [of 5]
    round_double_int [of 10] by simp_all

lemma demo_watermarks: "highWatermarkDepth demo_controller = 10" "lowWatermarkDepth demo_controller = 5"
  by (simp_all add: highWatermarkDepth_def lowWatermarkDepth_def demo_controller_def demo_config_def
      DEFAULT_BACKPRESSURE_CONFIG_def round_double_numeral)

text \<open>
  The hysteresis does not protect a queue that was full: once the depth falls from capacity
  to between the watermarks, the controller still reports REJECTING, but ordinary jobs are
  admitted again, because only the DEGRADED state sheds load.
\<close>
lemma rejecting_admits_between_watermarks:
  assumes "bc_state c = BP_REJECTING" and "lowWatermarkDepth c < int d" and "int d < highWatermarkDepth c"
    and "of_nat d < bp_maxQueueDepth (bc_config c)" and "\<not> isPrivileged o1"
    and "round_double (bc_currentCost c + getJobCost ty (bo_costOverride o1) c) \<le> bp_maxWorkloadCost (bc_config c)"
  shows "fst (checkAdmission ty d o1 c) = Admitted False \<and> bc_state (snd (checkAdmission ty d o1 c)) = BP_REJECTING"
proof -
  have st: "bc_state (updateState d c) = BP_REJECTING" using assms(1-4) by (simp add: updateState_def)
  have "getJobCost ty x (updateState d c) = getJobCost ty x c" for x by (rule getJobCost_cong) simp
  then show ?thesis using assms(4-6) st by (simp add: checkAdmission_def Let_def charge_def)
qed

text \<open>A controller of capacity ten that was full, at depth seven.\<close>
lemma rejecting_admits_between_watermarks_witness:
  "fst (checkAdmission ''t'' 7 plain_options (updateState 10 demo_controller)) = Admitted False"
proof -
  let ?c = "updateState 10 demo_controller"
  have w: "highWatermarkDepth ?c = 10" "lowWatermarkDepth ?c = 5"
    using demo_watermarks by (simp_all add: highWatermarkDepth_def lowWatermarkDepth_def)
  have st: "bc_state ?c = BP_REJECTING" "bp_maxQueueDepth (bc_config ?c) = 10" "\<not> isPrivileged plain_options"
    by (simp_all add: updateState_def demo_controller_def demo_config_def isPrivileged_def plain_options_def)
  have cost: "round_double (bc_currentCost ?c + getJobCost ''t'' (bo_costOverride plain_options) ?c)
      \<le> bp_maxWorkloadCost (bc_config ?c)"
    by (simp add: demo_controller_def demo_config_def plain_options_def getJobCost_def DEFAULT_BACKPRESSURE_CONFIG_def
        round_double_numeral)
  show ?thesis using rejecting_admits_between_watermarks [OF st(1) _ _ _ st(3) cost, of 7] w st(2) by simp
qed

subsection \<open>The bound on the queue\<close>

lemma demo_admission_state:
  "checkAdmission ''t'' 0 plain_options demo_controller = (Admitted False, charge 1 (updateState 0 demo_controller))"
  "bc_currentCost (charge 1 (updateState 0 demo_controller)) = 1"
  "bc_config (charge 1 (updateState 0 demo_controller)) = bc_config demo_controller"
proof -
  have st: "bc_state (updateState 0 demo_controller) = BP_NORMAL"
    by (simp add: updateState_def demo_watermarks) (simp add: demo_controller_def demo_config_def)
  have "getJobCost ''t'' None (updateState 0 demo_controller) = 1"
    by (simp add: getJobCost_def demo_controller_def demo_config_def DEFAULT_BACKPRESSURE_CONFIG_def)
  then show "checkAdmission ''t'' 0 plain_options demo_controller = (Admitted False, charge 1 (updateState 0 demo_controller))"
    using st by (simp add: checkAdmission_def plain_options_def isPrivileged_def)
      (simp add: demo_controller_def demo_config_def round_double_numeral)
  show "bc_currentCost (charge 1 (updateState 0 demo_controller)) = 1"
    by (simp add: charge_def) (simp add: demo_controller_def round_double_numeral)
  show "bc_config (charge 1 (updateState 0 demo_controller)) = bc_config demo_controller"
    by (simp add: charge_def)
qed

lemma demo_first_admission:
  "checkAdmission ''t'' 0 plain_options demo_controller =
     (Admitted False, snd (checkAdmission ''t'' 0 plain_options demo_controller))"
  by (simp add: demo_admission_state)

lemma demo_limit: "0 < emergencyHardLimit demo_controller"
proof -
  define y :: rat where "y = round_double (12 / 10)"
  have small: "(2::rat) powi (-1022) \<le> 1" using power_int_le_one [of "2 :: rat" "-1022"] by simp
  have "\<bar>y - 12 / 10\<bar> \<le> \<bar>12 / 10\<bar> / 2 ^ 53"
    unfolding y_def by (rule round_double_error) (use small in simp)
  also have "\<dots> \<le> 1 / 100" by simp
  finally have y: "119 / 100 \<le> y" "y \<le> 121 / 100" by linarith+
  have "\<bar>round_double (10 * y) - 10 * y\<bar> \<le> \<bar>10 * y\<bar> / 2 ^ 53"
    by (rule round_double_error) (use small y in simp)
  also have "\<dots> \<le> 1" using y by simp
  finally have "10 \<le> round_double (10 * y)" using y by linarith
  then have "1 \<le> \<lfloor>round_double (10 * y)\<rfloor>" by simp
  then show ?thesis by (simp add: emergencyHardLimit_def demo_controller_def demo_config_def y_def)
qed

lemma counts_put:
  assumes "mwf m"
  shows "length (filter P (map snd (mset_kv k v m))) \<le> Suc (length (filter P (map snd m)))"
  using assms by (induction m) (auto simp: mwf_def)

lemma active_as_filter:
  "activeDepth memory_jobs s = length (filter (\<lambda>j. j_status j = Queued \<or> j_status j = Running) (map snd (mj_jobs s)))"
proof -
  have "length (filter (\<lambda>j. j_status j = Queued) xs) + length (filter (\<lambda>j. j_status j = Running) xs) =
      length (filter (\<lambda>j. j_status j = Queued \<or> j_status j = Running) xs)" for xs :: "job list"
    by (induction xs) auto
  then show ?thesis unfolding activeDepth_def memory_jobs_simps mj_counts_def by blast
qed

lemma demo_depth0: "activeDepth memory_jobs MemoryJobStore_new = 0"
  by (simp add: active_as_filter MemoryJobStore_new_def)

lemma active_enqueue:
  assumes "jobs_ok s" and "mj_enqueue j s = (r, s')"
  shows "activeDepth memory_jobs s' \<le> Suc (activeDepth memory_jobs s)"
proof -
  have w: "mwf (mj_jobs s)" using assms(1) by (simp add: jobs_ok_def)
  have "mj_jobs s' = mj_jobs s \<or> mj_jobs s' = mset_kv (j_id j) j (mj_jobs s)"
    using assms(2) by (auto simp: mj_enqueue_def put_job_def Let_def split: sum.splits if_splits option.splits)
  then show ?thesis
  proof
    assume "mj_jobs s' = mset_kv (j_id j) j (mj_jobs s)"
    then show ?thesis unfolding active_as_filter by (simp only: counts_put [OF w])
  qed (simp add: active_as_filter)
qed

text \<open>
  The queue stays bounded: an accepted request leaves at most the emergency limit of active
  jobs, and at most the capacity (rounded up) when it is not privileged; a refused one leaves
  the store untouched.
\<close>
lemma bounded_queue_bound:
  assumes "jobs_ok s" and "bq_enqueue memory_jobs d u n ty x o1 (c, s) = (res, c', s')"
    and "0 < emergencyHardLimit c"
  shows "(case res of
      Inr _ \<Rightarrow> if isPrivileged o1 then int (activeDepth memory_jobs s') \<le> emergencyHardLimit c
               else of_nat (activeDepth memory_jobs s') < bp_maxQueueDepth (bc_config c) + 1
    | Inl (QueueBackpressureError _ _ _ _ _) \<Rightarrow> s' = s
    | Inl (StoreRefused _) \<Rightarrow> s' = s)"
proof -
  let ?depth = "activeDepth memory_jobs s" and ?j = "queued_job d u n ty x (bo_enqueue o1)"
  obtain adm c1 where a: "checkAdmission ty ?depth o1 c = (adm, c1)" by fastforce
  show ?thesis
  proof (cases adm)
    case (Refused reason delay)
    then show ?thesis using assms(2) a by (auto simp: bq_enqueue_def Let_def)
  next
    case (Admitted b)
    obtain r s1 where e: "mj_enqueue ?j s = (r, s1)" by fastforce
    have res: "s' = s1" "(\<exists>e. r = Inl e \<and> res = Inl (StoreRefused e)) \<or> (\<exists>v. r = Inr v \<and> res = Inr v)"
      using assms(2) a Admitted e by (auto simp: bq_enqueue_def queue_enqueue_def Let_def split: sum.splits)
    have "r = Inl x \<Longrightarrow> s1 = s" for x
      using e by (auto simp: mj_enqueue_def Let_def split: sum.splits if_splits option.splits)
    moreover have le: "activeDepth memory_jobs s1 \<le> Suc ?depth" by (rule active_enqueue [OF assms(1) e])
    moreover have lim: "\<exists>b. fst (checkAdmission ty ?depth o1 c) = Admitted b" using a Admitted by simp
    moreover have "int (activeDepth memory_jobs s1) \<le> int ?depth + 1" using le by simp
    moreover have "(of_nat (activeDepth memory_jobs s1) :: rat) \<le> of_nat ?depth + 1"
      using le by (metis of_nat_Suc of_nat_le_iff add.commute)
    ultimately show ?thesis
      using res unfolding admission_cases by (auto split: if_splits)
  qed
qed

lemma demo_first_enqueue:
  "bq_enqueue memory_jobs DEFAULT_RETRY_POLICY ''j'' 0 ''t'' JNull plain_options (demo_controller, MemoryJobStore_new) =
     (Inr (demo_job, True), snd (checkAdmission ''t'' 0 plain_options demo_controller), demo_store)"
proof -
  have "bo_enqueue plain_options = demo_options" by (simp add: plain_options_def)
  then show ?thesis
    unfolding bq_enqueue_def Let_def prod.case demo_depth0 demo_admission_state(1)
    using demo_enqueue by simp
qed

text \<open>The first request to an empty queue of capacity ten.\<close>
lemma bounded_queue_bound_witness:
  "\<exists>c s. bq_enqueue memory_jobs DEFAULT_RETRY_POLICY ''j'' 0 ''t'' JNull plain_options
       (demo_controller, MemoryJobStore_new) = (Inr (demo_job, True), c, s) \<and>
     of_nat (activeDepth memory_jobs s) < (11 :: rat)"
proof -
  have ok: "jobs_ok MemoryJobStore_new" by (simp add: jobs_ok_def MemoryJobStore_new_def)
  let ?c = "snd (checkAdmission ''t'' 0 plain_options demo_controller)"
  have run: "bq_enqueue memory_jobs DEFAULT_RETRY_POLICY ''j'' 0 ''t'' JNull plain_options
       (demo_controller, MemoryJobStore_new) = (Inr (demo_job, True), ?c, demo_store)"
    by (rule demo_first_enqueue)
  show ?thesis
    using bounded_queue_bound [OF ok run demo_limit] run
    by (auto simp: isPrivileged_def plain_options_def demo_controller_def demo_config_def)
qed

lemma demo_second_refused:
  "\<exists>delay c'. checkAdmission ''t'' 0 plain_options (charge 1 (updateState 0 demo_controller)) =
     (Refused ''WORKLOAD_BUDGET_EXCEEDED'' delay, c')"
proof -
  define c where "c = updateState 0 (charge 1 (updateState 0 demo_controller))"
  have cfg: "bc_config c = bc_config demo_controller" "bc_currentCost c = 1"
    by (simp_all add: c_def demo_admission_state)
  have lims: "bp_maxQueueDepth (bc_config demo_controller) = 10" "bp_maxWorkloadCost (bc_config demo_controller) = 1"
    "\<not> isPrivileged plain_options"
    by (simp_all add: demo_controller_def demo_config_def isPrivileged_def plain_options_def)
  have "getJobCost ''t'' (bo_costOverride plain_options) demo_controller = 1"
    by (simp add: getJobCost_def plain_options_def demo_controller_def demo_config_def DEFAULT_BACKPRESSURE_CONFIG_def)
  then have "getJobCost ''t'' (bo_costOverride plain_options) c = 1"
    using getJobCost_cong [OF cfg(1)] by simp
  then show ?thesis
    using cfg lims by (simp add: checkAdmission_def Let_def c_def [symmetric] round_double_numeral)
qed

text \<open>
  The cost budget leaks: the bounded queue charges every admitted job and never releases the
  charge, so that after the jobs are done, with no active job left, an ordinary request can be
  refused for lack of budget.
\<close>
lemma workload_budget_leaks:
  "\<exists>c r s1 s delay cap. \<not> isPrivileged plain_options \<and>
     bq_enqueue memory_jobs DEFAULT_RETRY_POLICY ''j'' 0 ''t'' JNull plain_options (demo_controller, MemoryJobStore_new) =
       (Inr r, c, s1) \<and> job_step\<^sup>*\<^sup>* s1 s \<and> activeDepth memory_jobs s = 0 \<and>
     fst (bq_enqueue memory_jobs DEFAULT_RETRY_POLICY ''i'' 9 ''t'' JNull plain_options (c, s)) =
       Inl (QueueBackpressureError ''WORKLOAD_BUDGET_EXCEEDED'' delay 0 cap ''t'')"
proof -
  let ?c = "charge 1 (updateState 0 demo_controller)"
  let ?s1 = "demo_store\<lparr>mj_jobs := [(''j'', demo_claimed 1 10)]\<rparr>"
  obtain a s where m: "mj_markSucceeded ''j'' ''w'' None (Some 5) ?s1 = (a, s)" by fastforce
  have run: "bq_enqueue memory_jobs DEFAULT_RETRY_POLICY ''j'' 0 ''t'' JNull plain_options
       (demo_controller, MemoryJobStore_new) = (Inr (demo_job, True), ?c, demo_store)"
    using demo_first_enqueue by (simp add: demo_admission_state)
  have steps: "job_step\<^sup>*\<^sup>* demo_store s"
  proof (rule converse_rtranclp_into_rtranclp)
    show "job_step demo_store ?s1" by (rule job_step.claim [OF demo_claim(1)])
    show "job_step\<^sup>*\<^sup>* ?s1 s" by (rule r_into_rtranclp) (rule job_step.succeed [OF m])
  qed
  have d: "activeDepth memory_jobs s = 0"
    using m by (auto simp: active_as_filter mj_markSucceeded_def held_job_def requireString_def validateWorker_def
        demo_trims is_ws_def throw_if_def Let_def demo_claimed_def)
  have np: "\<not> isPrivileged plain_options" by (simp add: isPrivileged_def plain_options_def)
  obtain delay c' where "checkAdmission ''t'' 0 plain_options ?c = (Refused ''WORKLOAD_BUDGET_EXCEEDED'' delay, c')"
    using demo_second_refused by blast
  then have "fst (bq_enqueue memory_jobs DEFAULT_RETRY_POLICY ''i'' 9 ''t'' JNull plain_options (?c, s)) =
      Inl (QueueBackpressureError ''WORKLOAD_BUDGET_EXCEEDED'' delay 0 (highWatermarkDepth c') ''t'')"
    using d by (simp add: bq_enqueue_def)
  then show ?thesis using np run steps d by blast
qed

end
