(* ===== verification/State_Invariants.thy ===== *)
theory State_Invariants
  imports Js_Prelude
begin

text \<open>
  The validators of balance, ownership, entitlement and lifecycle transitions,
  \<open>backend/src/domain/state-invariants.ts\<close>. A \<open>bigint\<close> is an \<open>int\<close>, a \<open>Date\<close> its time value, an
  absent optional field \<open>None\<close>. A violation keeps the error's code, domain and HTTP status; the
  human-readable message and details are left out.
\<close>

datatype entity_status = DRAFT | E_PENDING | E_PAID | E_EXPIRED | E_CANCELLED

datatype user_role = SUPER_ADMIN | OWNER | ADMIN | COLLABORATOR | VIEWER

fun ROLE_HIERARCHY :: "user_role \<Rightarrow> nat" where
  "ROLE_HIERARCHY SUPER_ADMIN = 5"
| "ROLE_HIERARCHY OWNER = 4"
| "ROLE_HIERARCHY ADMIN = 3"
| "ROLE_HIERARCHY COLLABORATOR = 2"
| "ROLE_HIERARCHY VIEWER = 1"

datatype invariant_domain = BALANCE | OWNERSHIP | ENTITLEMENT | LIFECYCLE

record invariant_violation =
  iv_code :: string
  iv_domain :: invariant_domain
  iv_httpStatus :: nat

definition violation :: "string \<Rightarrow> invariant_domain \<Rightarrow> nat option \<Rightarrow> invariant_violation" where
  "violation code d httpStatus =
     \<lparr>iv_code = code, iv_domain = d, iv_httpStatus = (case httpStatus of Some n \<Rightarrow> n | None \<Rightarrow> 400)\<rparr>"

subsection \<open>Balance\<close>

record balance_input =
  bi_sourceAccountId :: string
  bi_destinationAccountId :: string
  bi_sourceBalance :: int
  bi_destinationBalance :: int
  bi_transferAmount :: int
  bi_fee :: "int option"
  bi_minimumReserve :: "int option"

record balance_result =
  br_newSource :: int
  br_newDestination :: int
  br_feeCollected :: int
  br_netTransfer :: int

definition validateBalanceTransition :: "balance_input \<Rightarrow> (invariant_violation, balance_result) result" where
  "validateBalanceTransition input =
     (let fee = (case bi_fee input of Some f \<Rightarrow> f | None \<Rightarrow> 0);
          minReserve = (case bi_minimumReserve input of Some m \<Rightarrow> m | None \<Rightarrow> 0)
      in if bi_transferAmount input \<le> 0 then Inl (violation ''INVALID_TRANSFER_AMOUNT'' BALANCE None)
         else if fee < 0 then Inl (violation ''INVALID_FEE_AMOUNT'' BALANCE None)
         else let totalDeduction = bi_transferAmount input + fee in
           if bi_sourceBalance input < totalDeduction + minReserve
           then Inl (violation ''INSUFFICIENT_FUNDS_OR_RESERVE_BREACH'' BALANCE None)
           else if bi_sourceAccountId input = bi_destinationAccountId input
           then Inl (violation ''SELF_TRANSFER_DISALLOWED'' BALANCE None)
           else let newSource = bi_sourceBalance input - totalDeduction;
                    newDest = bi_destinationBalance input + bi_transferAmount input;
                    netBefore = bi_sourceBalance input + bi_destinationBalance input;
                    netAfter = newSource + newDest + fee
                in if netBefore \<noteq> netAfter then Inl (violation ''CONSERVATION_OF_VALUE_VIOLATED'' BALANCE None)
                   else Inr \<lparr>br_newSource = newSource, br_newDestination = newDest,
                             br_feeCollected = fee, br_netTransfer = bi_transferAmount input\<rparr>)"

subsection \<open>Ownership\<close>

datatype ownership_action = INITIATE | ACCEPT | CANCEL | REJECT

datatype transfer_status = T_PENDING_ACCEPTANCE | T_ACCEPTED | T_CANCELLED | T_REJECTED | T_EXPIRED

record ownership_input =
  oi_currentOwnerId :: string
  oi_targetOwnerId :: string
  oi_actorId :: string
  oi_actorRole :: user_role
  oi_action :: ownership_action
  oi_transferStatus :: "transfer_status option"
  oi_expiresAt :: "int option"
  oi_now :: "int option"

definition validateOwnershipTransition :: "ownership_input \<Rightarrow> int \<Rightarrow> (invariant_violation, unit) result" where
  "validateOwnershipTransition input clock =
     (let now = (case oi_now input of Some t \<Rightarrow> t | None \<Rightarrow> clock);
          isCurrentOwner = (oi_actorId input = oi_currentOwnerId input);
          isSuperAdmin = (oi_actorRole input = SUPER_ADMIN)
      in if oi_currentOwnerId input = [] \<or> oi_targetOwnerId input = []
         then Inl (violation ''MISSING_OWNERSHIP_PARTIES'' OWNERSHIP None)
         else if oi_currentOwnerId input = oi_targetOwnerId input
         then Inl (violation ''SELF_OWNERSHIP_TRANSFER_FORBIDDEN'' OWNERSHIP None)
         else case oi_action input of
           INITIATE \<Rightarrow>
             throw_if (\<not> isCurrentOwner \<and> \<not> isSuperAdmin)
               (violation ''UNAUTHORIZED_OWNERSHIP_INITIATION'' OWNERSHIP (Some 403))
         | ACCEPT \<Rightarrow>
             rbind (throw_if (oi_actorId input \<noteq> oi_targetOwnerId input)
                      (violation ''UNAUTHORIZED_OWNERSHIP_ACCEPTOR'' OWNERSHIP (Some 403))) (\<lambda>_.
             rbind (throw_if (oi_transferStatus input \<noteq> Some T_PENDING_ACCEPTANCE)
                      (violation ''INVALID_TRANSFER_STATE'' OWNERSHIP None)) (\<lambda>_.
             throw_if (case oi_expiresAt input of Some e \<Rightarrow> e \<le> now | None \<Rightarrow> False)
               (violation ''OWNERSHIP_TRANSFER_EXPIRED'' OWNERSHIP None)))
         | CANCEL \<Rightarrow>
             throw_if (\<not> isCurrentOwner \<and> \<not> isSuperAdmin)
               (violation ''UNAUTHORIZED_TRANSFER_CANCELLATION'' OWNERSHIP (Some 403))
         | REJECT \<Rightarrow>
             throw_if (oi_actorId input \<noteq> oi_targetOwnerId input)
               (violation ''UNAUTHORIZED_TRANSFER_REJECTION'' OWNERSHIP (Some 403)))"

subsection \<open>Entitlement\<close>

record entitlement_input =
  ei_actorId :: string
  ei_actorRole :: user_role
  ei_targetUserId :: string
  ei_grantedRole :: user_role
  ei_actorTenantId :: string
  ei_targetTenantId :: string

definition validateEntitlementTransition :: "entitlement_input \<Rightarrow> (invariant_violation, unit) result" where
  "validateEntitlementTransition input =
     rbind (throw_if (ei_actorTenantId input \<noteq> ei_targetTenantId input)
              (violation ''TENANT_BOUNDARY_BREACH'' ENTITLEMENT (Some 403))) (\<lambda>_.
     let actorRank = ROLE_HIERARCHY (ei_actorRole input);
         targetRank = ROLE_HIERARCHY (ei_grantedRole input)
     in rbind (throw_if (actorRank < targetRank)
                 (violation ''PRIVILEGE_ESCALATION_FORBIDDEN'' ENTITLEMENT (Some 403))) (\<lambda>_.
        throw_if (ei_actorId input = ei_targetUserId input \<and> targetRank > actorRank)
          (violation ''SELF_PROMOTION_FORBIDDEN'' ENTITLEMENT (Some 403))))"

subsection \<open>Lifecycle\<close>

fun ALLOWED_TRANSITIONS :: "entity_status \<Rightarrow> entity_status list" where
  "ALLOWED_TRANSITIONS DRAFT = [DRAFT, E_PENDING, E_CANCELLED]"
| "ALLOWED_TRANSITIONS E_PENDING = [E_PENDING, E_PAID, E_EXPIRED, E_CANCELLED]"
| "ALLOWED_TRANSITIONS E_PAID = [E_PAID]"
| "ALLOWED_TRANSITIONS E_EXPIRED = [E_EXPIRED]"
| "ALLOWED_TRANSITIONS E_CANCELLED = [E_CANCELLED]"

record lifecycle_input =
  li_currentStatus :: entity_status
  li_targetStatus :: entity_status
  li_requiredAmount :: "int option"
  li_settledAmount :: "int option"

definition validateLifecycleTransition :: "lifecycle_input \<Rightarrow> (invariant_violation, unit) result" where
  "validateLifecycleTransition input =
     (if li_targetStatus input \<notin> set (ALLOWED_TRANSITIONS (li_currentStatus input))
      then Inl (violation ''ILLEGAL_STATE_TRANSITION'' LIFECYCLE None)
      else if li_targetStatus input = E_PAID then
        let required = (case li_requiredAmount input of Some a \<Rightarrow> a | None \<Rightarrow> 0);
            settled = (case li_settledAmount input of Some a \<Rightarrow> a | None \<Rightarrow> 0)
        in throw_if (settled < required \<or> required \<le> 0) (violation ''UNDERPAYMENT_SETTLEMENT_REJECTED'' BALANCE None)
      else Inr ())"

subsection \<open>Properties\<close>

text \<open>
  An accepted balance transition moves a positive amount between two different accounts,
  conserves the total including the fee, and leaves the source at or above its reserve; and
  every transition with these properties is accepted, so the final conservation check of the
  code never fires.
\<close>
lemma validateBalanceTransition_spec:
  "(case validateBalanceTransition i of
      Inr r \<Rightarrow>
        0 < br_netTransfer r \<and> bi_sourceAccountId i \<noteq> bi_destinationAccountId i \<and> 0 \<le> br_feeCollected r \<and>
        br_newSource r + br_newDestination r + br_feeCollected r = bi_sourceBalance i + bi_destinationBalance i \<and>
        br_newDestination r = bi_destinationBalance i + bi_transferAmount i \<and>
        br_newSource r \<ge> (case bi_minimumReserve i of Some m \<Rightarrow> m | None \<Rightarrow> 0)
    | Inl e \<Rightarrow>
        iv_code e \<noteq> ''CONSERVATION_OF_VALUE_VIOLATED'' \<and>
        (bi_transferAmount i \<le> 0 \<or> (\<exists>f. bi_fee i = Some f \<and> f < 0) \<or>
         bi_sourceAccountId i = bi_destinationAccountId i \<or>
         bi_sourceBalance i - bi_transferAmount i - (case bi_fee i of Some f \<Rightarrow> f | None \<Rightarrow> 0)
           < (case bi_minimumReserve i of Some m \<Rightarrow> m | None \<Rightarrow> 0)))"
  by (auto simp: validateBalanceTransition_def violation_def Let_def split: option.splits)

text \<open>
  An entitlement is granted exactly when actor and target share the tenant and the granted
  role ranks no higher than the actor's; in particular nobody can promote themselves.
\<close>
lemma validateEntitlementTransition_iff:
  "validateEntitlementTransition i = Inr () \<longleftrightarrow>
     ei_actorTenantId i = ei_targetTenantId i \<and>
     ROLE_HIERARCHY (ei_grantedRole i) \<le> ROLE_HIERARCHY (ei_actorRole i)"
  by (auto simp: validateEntitlementTransition_def rbind_Inr_iff throw_if_def Let_def)

text \<open>Sequences of accepted lifecycle transitions.\<close>

inductive lifecycle_run :: "entity_status \<Rightarrow> entity_status \<Rightarrow> bool" where
  none: "lifecycle_run a a"
| more: "lifecycle_run a b \<Longrightarrow> validateLifecycleTransition i = Inr () \<Longrightarrow> li_currentStatus i = b \<Longrightarrow>
    li_targetStatus i = c \<Longrightarrow> lifecycle_run a c"

text \<open>
  Along any sequence of accepted lifecycle transitions PAID, EXPIRED and CANCELLED are never
  left, a draft cannot be paid without becoming pending first, and the step into PAID had a
  positive required amount that the settled amount covers.
\<close>
lemma lifecycle_terminal:
  "(lifecycle_run a b \<and> a \<in> {E_PAID, E_EXPIRED, E_CANCELLED} \<longrightarrow> b = a) \<and>
   (validateLifecycleTransition i = Inr () \<and> li_targetStatus i = E_PAID \<longrightarrow>
      li_currentStatus i \<noteq> DRAFT \<and>
      (\<exists>r s. li_requiredAmount i = Some r \<and> li_settledAmount i = Some s \<and> 0 < r \<and> r \<le> s))"
proof -
  have "b = a" if "lifecycle_run a b" and "a \<in> {E_PAID, E_EXPIRED, E_CANCELLED}"
    using that
    by (induction rule: lifecycle_run.induct)
      (auto simp: validateLifecycleTransition_def split: if_splits)
  moreover have "li_currentStatus i \<noteq> DRAFT \<and>
      (\<exists>r s. li_requiredAmount i = Some r \<and> li_settledAmount i = Some s \<and> 0 < r \<and> r \<le> s)"
    if "validateLifecycleTransition i = Inr ()" and "li_targetStatus i = E_PAID"
    using that
    by (cases "li_currentStatus i")
      (auto simp: validateLifecycleTransition_def Let_def split: if_splits option.splits)
  ultimately show ?thesis by blast
qed

text \<open>A pending entity is paid and stays paid.\<close>
lemma lifecycle_terminal_witness:
  "lifecycle_run E_PAID E_PAID \<and>
   validateLifecycleTransition
     \<lparr>li_currentStatus = E_PENDING, li_targetStatus = E_PAID, li_requiredAmount = Some 5, li_settledAmount = Some 7\<rparr> = Inr () \<and>
   (5 :: int) \<le> 7 \<and> E_PENDING \<noteq> DRAFT"
proof -
  let ?i = "\<lparr>li_currentStatus = E_PENDING, li_targetStatus = E_PAID, li_requiredAmount = Some 5, li_settledAmount = Some 7\<rparr>"
  have v: "validateLifecycleTransition ?i = Inr ()" by (simp add: validateLifecycleTransition_def)
  have "lifecycle_run E_PAID E_PAID" by (rule lifecycle_run.none)
  then show ?thesis using lifecycle_terminal [of E_PAID E_PAID ?i] v by simp
qed

text \<open>
  A transfer of ownership is accepted exactly when the two parties are named and differ and
  the actor may act: the owner or a super admin starts or withdraws it; only the nominee
  declines it, and accepts it, while it is pending and not expired.
\<close>
lemma validateOwnershipTransition_iff:
  "validateOwnershipTransition i clock = Inr () \<longleftrightarrow>
     oi_currentOwnerId i \<noteq> [] \<and> oi_targetOwnerId i \<noteq> [] \<and> oi_currentOwnerId i \<noteq> oi_targetOwnerId i \<and>
     (oi_action i \<in> {INITIATE, CANCEL} \<longrightarrow> oi_actorId i = oi_currentOwnerId i \<or> oi_actorRole i = SUPER_ADMIN) \<and>
     (oi_action i \<in> {ACCEPT, REJECT} \<longrightarrow> oi_actorId i = oi_targetOwnerId i) \<and>
     (oi_action i = ACCEPT \<longrightarrow> oi_transferStatus i = Some T_PENDING_ACCEPTANCE \<and>
        (\<forall>e. oi_expiresAt i = Some e \<longrightarrow> (case oi_now i of Some t \<Rightarrow> t | None \<Rightarrow> clock) < e))"
  by (cases "oi_action i")
    (auto simp: validateOwnershipTransition_def rbind_Inr_iff throw_if_def Let_def split: option.splits if_splits)

end
