(* ===== verification/Ownership_Transfer.thy ===== *)
theory Ownership_Transfer
  imports State_Invariants Js_Number
begin

text \<open>
  Two-step transfer of ownership: the records and errors of
  \<open>backend/src/domain/ownership-transfer.ts\<close> and the service of
  \<open>backend/src/services/ownership-transfer.service.ts\<close>. Random ids and tokens and the readings
  of the clock are arguments. The audit callback's calls are kept as a trace, without their details; a callback that
  throws is not modelled. A \<open>Date\<close> is its time value, \<open>None\<close> when invalid; delays are numbers,
  so a delay can push the expiry out of the range of dates.
\<close>

subsection \<open>Records and errors\<close>

datatype resource_type = SELLER_ACCOUNT | ORGANIZATION

datatype post_transfer_role = Post_ADMIN | Post_COLLABORATOR | Post_NONE

record transfer_record =
  ot_id :: string
  ot_resourceType :: resource_type
  ot_resourceId :: string
  ot_currentOwnerId :: string
  ot_targetOwnerId :: string
  ot_targetOwnerEmail :: "string option"
  ot_transferToken :: string
  ot_status :: transfer_status
  ot_reason :: string
  ot_createdAt :: int
  ot_expiresAt :: "int option"
  ot_acceptedAt :: "int option"
  ot_cancelledAt :: "int option"
  ot_rejectedAt :: "int option"
  ot_previousOwnerRole :: post_transfer_role

record initiate_input =
  it_resourceType :: resource_type
  it_resourceId :: string
  it_currentOwnerId :: string
  it_targetOwnerId :: string
  it_targetOwnerEmail :: "string option"
  it_reason :: string
  it_ttlMs :: "jsnum option"
  it_previousOwnerRole :: "post_transfer_role option"

datatype transfer_error =
    UnauthorizedTransferError
  | UnauthorizedAcceptorError
  | SelfTransferForbiddenError
  | PendingTransferExistsError string
  | OwnershipTransferNotFoundError string
  | OwnershipTransferExpiredError
  | InvalidTransferStateError transfer_status
  | InvalidTargetOwnerError
  | InvalidTimeValue  \<comment> \<open>the \<open>RangeError\<close> of \<open>toISOString\<close>\<close>

fun transfer_error_code :: "transfer_error \<Rightarrow> string" where
  "transfer_error_code UnauthorizedTransferError = ''UNAUTHORIZED_OWNERSHIP_OPERATION''"
| "transfer_error_code UnauthorizedAcceptorError = ''UNAUTHORIZED_ACCEPTOR''"
| "transfer_error_code SelfTransferForbiddenError = ''SELF_TRANSFER_FORBIDDEN''"
| "transfer_error_code (PendingTransferExistsError _) = ''PENDING_TRANSFER_EXISTS''"
| "transfer_error_code (OwnershipTransferNotFoundError _) = ''TRANSFER_NOT_FOUND''"
| "transfer_error_code OwnershipTransferExpiredError = ''TRANSFER_EXPIRED''"
| "transfer_error_code (InvalidTransferStateError _) = ''INVALID_TRANSFER_STATE''"
| "transfer_error_code InvalidTargetOwnerError = ''INVALID_TARGET_OWNER''"
| "transfer_error_code InvalidTimeValue = ''''"

fun transfer_error_httpStatus :: "transfer_error \<Rightarrow> nat option" where
  "transfer_error_httpStatus UnauthorizedTransferError = Some 403"
| "transfer_error_httpStatus UnauthorizedAcceptorError = Some 403"
| "transfer_error_httpStatus SelfTransferForbiddenError = Some 400"
| "transfer_error_httpStatus (PendingTransferExistsError _) = Some 409"
| "transfer_error_httpStatus (OwnershipTransferNotFoundError _) = Some 404"
| "transfer_error_httpStatus OwnershipTransferExpiredError = Some 410"
| "transfer_error_httpStatus (InvalidTransferStateError _) = Some 409"
| "transfer_error_httpStatus InvalidTargetOwnerError = Some 400"
| "transfer_error_httpStatus InvalidTimeValue = None"

subsection \<open>The service\<close>

record audit_event =
  ae_type :: string
  ae_transferId :: string
  ae_resourceType :: resource_type
  ae_resourceId :: string
  ae_actorId :: string

record transfer_service =
  ts_transfers :: "(string, transfer_record) jsmap"
  ts_activePending :: "(string, string) jsmap"
  ts_tokenIndex :: "(string, string) jsmap"
  ts_owners :: "(string, string) jsmap"
  ts_defaultTtlMs :: rat
  ts_audit :: "audit_event list"

definition OwnershipTransferService_new :: "rat option \<Rightarrow> transfer_service" where
  "OwnershipTransferService_new defaultTtlMs =
     \<lparr>ts_transfers = [], ts_activePending = [], ts_tokenIndex = [], ts_owners = [],
      ts_defaultTtlMs = (case defaultTtlMs of Some d \<Rightarrow> d | None \<Rightarrow> 48 * 60 * 60 * 1000), ts_audit = []\<rparr>"

definition registerResourceOwner :: "string \<Rightarrow> string \<Rightarrow> transfer_service \<Rightarrow> transfer_service" where
  "registerResourceOwner resourceId ownerId s = s\<lparr>ts_owners := mset_kv resourceId ownerId (ts_owners s)\<rparr>"

definition getResourceOwner :: "string \<Rightarrow> transfer_service \<Rightarrow> string option" where
  "getResourceOwner resourceId s = mget (ts_owners s) resourceId"

definition emitAudit :: "string \<Rightarrow> transfer_record \<Rightarrow> string \<Rightarrow> transfer_service \<Rightarrow> transfer_service" where
  "emitAudit ty t actorId s =
     s\<lparr>ts_audit := ts_audit s @ [\<lparr>ae_type = ty, ae_transferId = ot_id t, ae_resourceType = ot_resourceType t,
        ae_resourceId = ot_resourceId t, ae_actorId = actorId\<rparr>]\<rparr>"

definition put_transfer :: "transfer_record \<Rightarrow> transfer_service \<Rightarrow> transfer_service" where
  "put_transfer t s = s\<lparr>ts_transfers := mset_kv (ot_id t) t (ts_transfers s)\<rparr>"

definition clear_pending :: "string \<Rightarrow> transfer_service \<Rightarrow> transfer_service" where
  "clear_pending resourceId s = s\<lparr>ts_activePending := mdelete resourceId (ts_activePending s)\<rparr>"

definition transfer_expired :: "int \<Rightarrow> transfer_record \<Rightarrow> bool" where
  "transfer_expired now t = (case ot_expiresAt t of Some e \<Rightarrow> now > e | None \<Rightarrow> False)"

definition expire_transfer :: "transfer_record \<Rightarrow> transfer_service \<Rightarrow> transfer_service" where
  "expire_transfer t s = clear_pending (ot_resourceId t) (put_transfer (t\<lparr>ot_status := T_EXPIRED\<rparr>) s)"

text \<open>
  The check of step 4, which expires a stale pending transfer on the way. \<open>existing\<close> is stored
  under its own id.
\<close>

definition release_stale :: "string \<Rightarrow> int \<Rightarrow> transfer_service \<Rightarrow> (transfer_error, unit) result \<times> transfer_service" where
  "release_stale resourceId now s =
     (case mget (ts_activePending s) resourceId of
        None \<Rightarrow> (Inr (), s)
      | Some i \<Rightarrow>
          if i = [] then (Inr (), s)
          else case mget (ts_transfers s) i of
                 None \<Rightarrow> (Inr (), s)
               | Some t \<Rightarrow>
                   if ot_status t \<noteq> T_PENDING_ACCEPTANCE then (Inr (), s)
                   else if transfer_expired now t
                   then (Inr (), clear_pending resourceId (put_transfer (t\<lparr>ot_status := T_EXPIRED\<rparr>) s))
                   else (Inl (PendingTransferExistsError i), s))"

text \<open>\<open>input.ttlMs && input.ttlMs > 0 ? input.ttlMs : this.defaultTtlMs\<close>, and the date it leads to.\<close>

definition expiry_date :: "jsnum option \<Rightarrow> rat \<Rightarrow> int \<Rightarrow> int option" where
  "expiry_date ttlMs defaultTtlMs now =
     (case ttlMs of
        Some (Num q) \<Rightarrow> if q > 0 then time_clip (of_int now + q) else time_clip (of_int now + defaultTtlMs)
      | Some Infinity \<Rightarrow> None
      | _ \<Rightarrow> time_clip (of_int now + defaultTtlMs))"

definition new_transfer :: "string \<Rightarrow> string \<Rightarrow> int \<Rightarrow> initiate_input \<Rightarrow> transfer_service \<Rightarrow> transfer_record" where
  "new_transfer uuid token now i s =
     \<lparr>ot_id = uuid, ot_resourceType = it_resourceType i, ot_resourceId = it_resourceId i,
      ot_currentOwnerId = it_currentOwnerId i, ot_targetOwnerId = it_targetOwnerId i,
      ot_targetOwnerEmail = map_option (\<lambda>e. js_trim (js_lower e)) (it_targetOwnerEmail i),
      ot_transferToken = token, ot_status = T_PENDING_ACCEPTANCE,
      ot_reason = (if it_reason i = [] then ''Ownership transfer requested by owner.'' else it_reason i),
      ot_createdAt = now, ot_expiresAt = expiry_date (it_ttlMs i) (ts_defaultTtlMs s) now,
      ot_acceptedAt = None, ot_cancelledAt = None, ot_rejectedAt = None,
      ot_previousOwnerRole = (case it_previousOwnerRole i of Some r \<Rightarrow> r | None \<Rightarrow> Post_ADMIN)\<rparr>"

definition store_transfer :: "transfer_record \<Rightarrow> transfer_service \<Rightarrow> transfer_service" where
  "store_transfer t s =
     (put_transfer t s)\<lparr>
       ts_activePending := mset_kv (ot_resourceId t) (ot_id t) (ts_activePending s),
       ts_tokenIndex := mset_kv (ot_transferToken t) (ot_id t) (ts_tokenIndex s),
       ts_owners := (if mhas (ts_owners s) (ot_resourceId t) then ts_owners s
                     else mset_kv (ot_resourceId t) (ot_currentOwnerId t) (ts_owners s))\<rparr>"

definition initiateTransfer ::
  "string \<Rightarrow> string \<Rightarrow> int \<Rightarrow> int \<Rightarrow> initiate_input \<Rightarrow> transfer_service \<Rightarrow>
   (transfer_error, transfer_record) result \<times> transfer_service" where
  "initiateTransfer uuid token clock now i s =
     (if truthy (mget (ts_owners s) (it_resourceId i)) \<and>
         mget (ts_owners s) (it_resourceId i) \<noteq> Some (it_currentOwnerId i)
      then (Inl UnauthorizedTransferError, s)
      else if it_currentOwnerId i = it_targetOwnerId i then (Inl SelfTransferForbiddenError, s)
      else if it_targetOwnerId i = [] \<or> js_trim (it_targetOwnerId i) = [] then (Inl InvalidTargetOwnerError, s)
      else case release_stale (it_resourceId i) clock s of
             (Inl e, s') \<Rightarrow> (Inl e, s')
           | (Inr _, s') \<Rightarrow>
               let t = new_transfer uuid token now i s';
                   s'' = store_transfer t s'
               in case ot_expiresAt t of
                    None \<Rightarrow> (Inl InvalidTimeValue, s'')
                  | Some _ \<Rightarrow> (Inr t, emitAudit ''OWNERSHIP_TRANSFER_INITIATED'' t (it_currentOwnerId i) s''))"

definition findTransferByIdOrToken :: "string \<Rightarrow> transfer_service \<Rightarrow> transfer_record option" where
  "findTransferByIdOrToken idOrToken s =
     (case mget (ts_transfers s) idOrToken of
        Some t \<Rightarrow> Some t
      | None \<Rightarrow>
          (case mget (ts_tokenIndex s) idOrToken of
             Some i \<Rightarrow> if i = [] then None else mget (ts_transfers s) i
           | None \<Rightarrow> None))"

definition acceptTransfer ::
  "string \<Rightarrow> string \<Rightarrow> int \<Rightarrow> int \<Rightarrow> transfer_service \<Rightarrow>
   (transfer_error, transfer_record) result \<times> transfer_service" where
  "acceptTransfer transferIdOrToken acceptorId clock now s =
     (case findTransferByIdOrToken transferIdOrToken s of
        None \<Rightarrow> (Inl (OwnershipTransferNotFoundError transferIdOrToken), s)
      | Some t \<Rightarrow>
          if ot_targetOwnerId t \<noteq> acceptorId then (Inl UnauthorizedAcceptorError, s)
          else if ot_status t \<noteq> T_PENDING_ACCEPTANCE then (Inl (InvalidTransferStateError (ot_status t)), s)
          else if transfer_expired clock t
          then (Inl OwnershipTransferExpiredError,
                emitAudit ''OWNERSHIP_TRANSFER_EXPIRED'' t acceptorId (expire_transfer t s))
          else
            let t' = t\<lparr>ot_status := T_ACCEPTED, ot_acceptedAt := Some now\<rparr>;
                s1 = put_transfer t' s;
                s2 = s1\<lparr>ts_owners := mset_kv (ot_resourceId t) (ot_targetOwnerId t) (ts_owners s1)\<rparr>
            in (Inr t', emitAudit ''OWNERSHIP_TRANSFER_ACCEPTED'' t' acceptorId
                  (clear_pending (ot_resourceId t) s2)))"

definition cancelTransfer ::
  "string \<Rightarrow> string \<Rightarrow> int \<Rightarrow> transfer_service \<Rightarrow> (transfer_error, transfer_record) result \<times> transfer_service" where
  "cancelTransfer transferId actorId now s =
     (case mget (ts_transfers s) transferId of
        None \<Rightarrow> (Inl (OwnershipTransferNotFoundError transferId), s)
      | Some t \<Rightarrow>
          if ot_currentOwnerId t \<noteq> actorId then (Inl UnauthorizedTransferError, s)
          else if ot_status t \<noteq> T_PENDING_ACCEPTANCE then (Inl (InvalidTransferStateError (ot_status t)), s)
          else
            let t' = t\<lparr>ot_status := T_CANCELLED, ot_cancelledAt := Some now\<rparr>
            in (Inr t', emitAudit ''OWNERSHIP_TRANSFER_CANCELLED'' t' actorId
                  (clear_pending (ot_resourceId t) (put_transfer t' s))))"

definition rejectTransfer ::
  "string \<Rightarrow> string \<Rightarrow> int \<Rightarrow> transfer_service \<Rightarrow> (transfer_error, transfer_record) result \<times> transfer_service" where
  "rejectTransfer transferId actorId now s =
     (case mget (ts_transfers s) transferId of
        None \<Rightarrow> (Inl (OwnershipTransferNotFoundError transferId), s)
      | Some t \<Rightarrow>
          if ot_targetOwnerId t \<noteq> actorId then (Inl UnauthorizedAcceptorError, s)
          else if ot_status t \<noteq> T_PENDING_ACCEPTANCE then (Inl (InvalidTransferStateError (ot_status t)), s)
          else
            let t' = t\<lparr>ot_status := T_REJECTED, ot_rejectedAt := Some now\<rparr>
            in (Inr t', emitAudit ''OWNERSHIP_TRANSFER_REJECTED'' t' actorId
                  (clear_pending (ot_resourceId t) (put_transfer t' s))))"

definition getTransfer :: "string \<Rightarrow> int \<Rightarrow> transfer_service \<Rightarrow> transfer_record option \<times> transfer_service" where
  "getTransfer transferId clock s =
     (case mget (ts_transfers s) transferId of
        None \<Rightarrow> (None, s)
      | Some t \<Rightarrow>
          if ot_status t = T_PENDING_ACCEPTANCE \<and> transfer_expired clock t
          then (Some (t\<lparr>ot_status := T_EXPIRED\<rparr>), expire_transfer t s)
          else (Some t, s))"

definition lapse :: "string \<Rightarrow> int \<Rightarrow> transfer_record \<Rightarrow> transfer_record" where
  "lapse resourceId now t =
     (if ot_resourceId t = resourceId \<and> ot_status t = T_PENDING_ACCEPTANCE \<and> transfer_expired now t
      then t\<lparr>ot_status := T_EXPIRED\<rparr> else t)"

definition listTransfers :: "string \<Rightarrow> int \<Rightarrow> transfer_service \<Rightarrow> transfer_record list \<times> transfer_service" where
  "listTransfers resourceId now s =
     (let records = map (\<lambda>(i, t). (i, lapse resourceId now t)) (ts_transfers s);
          s1 = s\<lparr>ts_transfers := records\<rparr>;
          s2 = (if \<exists>p \<in> set (ts_transfers s). lapse resourceId now (snd p) \<noteq> snd p
                then clear_pending resourceId s1 else s1)
      in (sort_by (\<lambda>a b. ot_createdAt b - ot_createdAt a)
            (filter (\<lambda>t. ot_resourceId t = resourceId) (map snd records)), s2))"

end
