(* ===== verification/Ownership_Properties.thy ===== *)
theory Ownership_Properties
  imports Ownership_Transfer
begin

text \<open>
  What the transfer service promises: at most one pending transfer per resource, found by the
  index; records keep their terms and leave the pending state once; an owner is replaced only by
  a handshake. Calls are values, and a run is a sequence of calls with fresh random ids.
\<close>

datatype transfer_call =
    Initiate string string int int initiate_input
  | Accept string string int int
  | Cancel string string int
  | Reject string string int
  | Get string int
  | ListFor string int
  | Register string string

fun transfer_exec :: "transfer_call \<Rightarrow> transfer_service \<Rightarrow> transfer_service" where
  "transfer_exec (Initiate uuid token clock now i) s = snd (initiateTransfer uuid token clock now i s)"
| "transfer_exec (Accept k a clock now) s = snd (acceptTransfer k a clock now s)"
| "transfer_exec (Cancel k a now) s = snd (cancelTransfer k a now s)"
| "transfer_exec (Reject k a now) s = snd (rejectTransfer k a now s)"
| "transfer_exec (Get k clock) s = snd (getTransfer k clock s)"
| "transfer_exec (ListFor r now) s = snd (listTransfers r now s)"
| "transfer_exec (Register r owner) s = registerResourceOwner r owner s"

fun fresh_call :: "transfer_call \<Rightarrow> transfer_service \<Rightarrow> bool" where
  "fresh_call (Initiate uuid token clock now i) s \<longleftrightarrow> uuid \<noteq> [] \<and> \<not> mhas (ts_transfers s) uuid"
| "fresh_call _ s \<longleftrightarrow> True"

inductive transfer_run :: "(transfer_call \<Rightarrow> transfer_service \<Rightarrow> bool) \<Rightarrow> transfer_service \<Rightarrow> bool" for ok where
  start: "transfer_run ok (OwnershipTransferService_new ttl)"
| call: "transfer_run ok s \<Longrightarrow> fresh_call c s \<Longrightarrow> ok c s \<Longrightarrow> transfer_run ok (transfer_exec c s)"

abbreviation pending :: "transfer_record \<Rightarrow> bool" where
  "pending t \<equiv> ot_status t = T_PENDING_ACCEPTANCE"

definition same_transfer_terms :: "transfer_record \<Rightarrow> transfer_record \<Rightarrow> bool" where
  "same_transfer_terms t t' \<longleftrightarrow>
     t' = t\<lparr>ot_status := ot_status t', ot_acceptedAt := ot_acceptedAt t', ot_cancelledAt := ot_cancelledAt t',
            ot_rejectedAt := ot_rejectedAt t'\<rparr>"

lemma same_termsD:
  assumes "same_transfer_terms t t'"
  shows "ot_id t' = ot_id t" "ot_resourceId t' = ot_resourceId t" "ot_currentOwnerId t' = ot_currentOwnerId t"
    "ot_targetOwnerId t' = ot_targetOwnerId t"
  using assms by (cases t; cases t'; simp add: same_transfer_terms_def)+

lemma same_terms_updates [simp]:
  "same_transfer_terms t t" "same_transfer_terms t (t\<lparr>ot_status := x\<rparr>)" "same_transfer_terms t (t\<lparr>ot_status := x, ot_acceptedAt := y\<rparr>)"
  "same_transfer_terms t (t\<lparr>ot_status := x, ot_cancelledAt := y\<rparr>)" "same_transfer_terms t (t\<lparr>ot_status := x, ot_rejectedAt := y\<rparr>)"
  by (simp_all add: same_transfer_terms_def)

definition valid_parties :: "transfer_record \<Rightarrow> bool" where
  "valid_parties t \<longleftrightarrow> ot_currentOwnerId t \<noteq> ot_targetOwnerId t \<and> js_trim (ot_targetOwnerId t) \<noteq> []"

definition indexed :: "transfer_service \<Rightarrow> bool" where
  "indexed s \<longleftrightarrow> (\<forall>r i. mget (ts_activePending s) r = Some i \<longleftrightarrow>
     (\<exists>t. mget (ts_transfers s) i = Some t \<and> ot_resourceId t = r \<and> pending t))"

definition records_ok :: "transfer_service \<Rightarrow> bool" where
  "records_ok s \<longleftrightarrow> mwf (ts_transfers s) \<and>
     (\<forall>i t. mget (ts_transfers s) i = Some t \<longrightarrow> ot_id t = i \<and> i \<noteq> [] \<and> valid_parties t)"

lemma indexedD:
  "indexed s \<Longrightarrow> mget (ts_transfers s) i = Some t \<Longrightarrow> pending t \<Longrightarrow> mget (ts_activePending s) (ot_resourceId t) = Some i"
  by (auto simp: indexed_def)

lemma records_okD:
  "records_ok s \<Longrightarrow> mget (ts_transfers s) i = Some t \<Longrightarrow> ot_id t = i \<and> i \<noteq> [] \<and> valid_parties t"
  by (auto simp: records_ok_def)

subsection \<open>Primitive updates\<close>

lemma service_selectors [simp]:
  "ts_transfers (emitAudit a t b s) = ts_transfers s" "ts_activePending (emitAudit a t b s) = ts_activePending s"
  "ts_owners (emitAudit a t b s) = ts_owners s" "ts_tokenIndex (emitAudit a t b s) = ts_tokenIndex s"
  "ts_transfers (clear_pending r s) = ts_transfers s" "ts_owners (clear_pending r s) = ts_owners s"
  "ts_activePending (clear_pending r s) = mdelete r (ts_activePending s)"
  "ts_transfers (put_transfer t s) = mset_kv (ot_id t) t (ts_transfers s)"
  "ts_activePending (put_transfer t s) = ts_activePending s" "ts_owners (put_transfer t s) = ts_owners s"
  by (simp_all add: emitAudit_def clear_pending_def put_transfer_def)

text \<open>Every operation but initiation and registration settles one pending transfer, or nothing.\<close>

definition settles_one :: "transfer_service \<Rightarrow> string \<Rightarrow> transfer_record \<Rightarrow> transfer_record \<Rightarrow> transfer_service \<Rightarrow> bool" where
  "settles_one s i t t' s' \<longleftrightarrow>
     mget (ts_transfers s) i = Some t \<and> pending t \<and> \<not> pending t' \<and> same_transfer_terms t t' \<and> mwf (ts_transfers s') \<and>
     map_of (ts_transfers s') = (map_of (ts_transfers s))(i \<mapsto> t') \<and>
     map_of (ts_activePending s') = (map_of (ts_activePending s))(ot_resourceId t := None)"

lemma map_of_mset_kv: "map_of (mset_kv k v m) = (map_of m)(k \<mapsto> v)"
  by (rule ext) simp

lemma map_of_mdelete: "map_of (mdelete k m) = (map_of m)(k := None)"
  by (rule ext) simp

lemma settles_oneI:
  assumes "records_ok s" and "mget (ts_transfers s) i = Some t" and "pending t" and "\<not> pending t'" and "same_transfer_terms t t'"
    and "ts_transfers s' = mset_kv (ot_id t') t' (ts_transfers s)"
    and "ts_activePending s' = mdelete (ot_resourceId t) (ts_activePending s)"
  shows "settles_one s i t t' s'"
proof -
  have "mwf (ts_transfers s)" using assms(1) by (simp add: records_ok_def)
  then show ?thesis
    using assms(2-) records_okD [OF assms(1,2)] same_termsD(1) [OF assms(5)]
    by (simp add: settles_one_def map_of_mset_kv map_of_mdelete)
qed

lemma settles_one_inv:
  assumes "indexed s" and "records_ok s" and "settles_one s i t t' s'"
  shows "indexed s'" and "records_ok s'"
proof -
  have t: "mget (ts_transfers s) i = Some t" "pending t" "\<not> pending t'" "same_transfer_terms t t'" "mwf (ts_transfers s')"
    and new: "map_of (ts_transfers s') = (map_of (ts_transfers s))(i \<mapsto> t')"
      "map_of (ts_activePending s') = (map_of (ts_activePending s))(ot_resourceId t := None)"
    using assms(3) by (simp_all add: settles_one_def)
  have act: "mget (ts_activePending s) (ot_resourceId t) = Some i" by (rule indexedD [OF assms(1) t(1,2)])
  have old: "mget (ts_activePending s) r = Some j \<longleftrightarrow>
      (\<exists>u. mget (ts_transfers s) j = Some u \<and> ot_resourceId u = r \<and> pending u)" for r j
    using assms(1) by (simp add: indexed_def)
  show "indexed s'" unfolding indexed_def
  proof (intro allI)
    fix r j
    show "mget (ts_activePending s') r = Some j \<longleftrightarrow>
        (\<exists>u. mget (ts_transfers s') j = Some u \<and> ot_resourceId u = r \<and> pending u)"
    proof (cases "r = ot_resourceId t")
      case True
      have "\<not> (mget (ts_transfers s') j = Some u \<and> ot_resourceId u = r \<and> pending u)" for u
        using old [of r j] act t(3) True by (auto simp: new)
      then show ?thesis using True by (auto simp: new)
    next
      case False
      then show ?thesis using old [of r j] t same_termsD(2) [OF t(4)] by (auto simp: new)
    qed
  qed
  show "records_ok s'"
    using assms(2) records_okD [OF assms(2) t(1)] same_termsD [OF t(4)] t(5)
    by (auto simp: records_ok_def new valid_parties_def)
qed

text \<open>The effect on the records of every call but an initiation.\<close>

definition progress :: "transfer_service \<Rightarrow> transfer_service \<Rightarrow> bool" where
  "progress s s' \<longleftrightarrow>
     (ts_transfers s' = ts_transfers s \<and> ts_activePending s' = ts_activePending s) \<or>
     (\<exists>i t t'. settles_one s i t t' s')"

lemma progress_refl [simp]: "progress s s"
  by (simp add: progress_def)

lemma progress_inv:
  assumes "indexed s" and "records_ok s" and "progress s s'"
  shows "indexed s' \<and> records_ok s'"
  using assms(3) unfolding progress_def
proof (elim disjE exE)
  assume "ts_transfers s' = ts_transfers s \<and> ts_activePending s' = ts_activePending s"
  then show ?thesis using assms(1,2) by (simp add: indexed_def records_ok_def)
next
  fix i t t'
  assume "settles_one s i t t' s'"
  then show ?thesis using settles_one_inv [OF assms(1,2)] by blast
qed

lemma progress_settle:
  assumes "records_ok s" and "mget (ts_transfers s) i = Some t" and "pending t" and "\<not> pending t'" and "same_transfer_terms t t'"
    and "ts_transfers s' = mset_kv (ot_id t') t' (ts_transfers s)"
    and "ts_activePending s' = mdelete (ot_resourceId t) (ts_activePending s)"
  shows "progress s s'"
  using settles_oneI [OF assms] by (auto simp: progress_def)

lemma find_transfer_stored: "findTransferByIdOrToken k s = Some t \<Longrightarrow> \<exists>i. mget (ts_transfers s) i = Some t"
  by (auto simp: findTransferByIdOrToken_def split: option.splits if_splits)

lemma accept_progress:
  assumes "records_ok s"
  shows "progress s (snd (acceptTransfer k a clock now s))"
proof (cases "findTransferByIdOrToken k s")
  case (Some t)
  obtain i where i: "mget (ts_transfers s) i = Some t" using find_transfer_stored [OF Some] by blast
  show ?thesis
  proof (cases "ot_targetOwnerId t = a \<and> pending t")
    case True
    then show ?thesis
      using Some by (intro progress_settle [OF assms i, of "if transfer_expired clock t
          then t\<lparr>ot_status := T_EXPIRED\<rparr> else t\<lparr>ot_status := T_ACCEPTED, ot_acceptedAt := Some now\<rparr>"])
        (simp_all add: acceptTransfer_def expire_transfer_def Let_def)
  qed (use Some in \<open>auto simp: acceptTransfer_def\<close>)
qed (simp add: acceptTransfer_def)

lemma cancel_progress:
  assumes "records_ok s"
  shows "progress s (snd (cancelTransfer k a now s))"
proof (cases "mget (ts_transfers s) k")
  case (Some t)
  show ?thesis
  proof (cases "ot_currentOwnerId t = a \<and> pending t")
    case True
    then show ?thesis
      using Some by (intro progress_settle [OF assms Some, of "t\<lparr>ot_status := T_CANCELLED, ot_cancelledAt := Some now\<rparr>"])
        (simp_all add: cancelTransfer_def Let_def)
  qed (use Some in \<open>auto simp: cancelTransfer_def\<close>)
qed (simp add: cancelTransfer_def)

lemma reject_progress:
  assumes "records_ok s"
  shows "progress s (snd (rejectTransfer k a now s))"
proof (cases "mget (ts_transfers s) k")
  case (Some t)
  show ?thesis
  proof (cases "ot_targetOwnerId t = a \<and> pending t")
    case True
    then show ?thesis
      using Some by (intro progress_settle [OF assms Some, of "t\<lparr>ot_status := T_REJECTED, ot_rejectedAt := Some now\<rparr>"])
        (simp_all add: rejectTransfer_def Let_def)
  qed (use Some in \<open>auto simp: rejectTransfer_def\<close>)
qed (simp add: rejectTransfer_def)

lemma get_progress:
  assumes "records_ok s"
  shows "progress s (snd (getTransfer k clock s))"
proof (cases "mget (ts_transfers s) k")
  case (Some t)
  show ?thesis
  proof (cases "pending t \<and> transfer_expired clock t")
    case True
    then show ?thesis
      using Some by (intro progress_settle [OF assms Some, of "t\<lparr>ot_status := T_EXPIRED\<rparr>"])
        (simp_all add: getTransfer_def expire_transfer_def)
  qed (use Some in \<open>auto simp: getTransfer_def\<close>)
qed (simp add: getTransfer_def)

lemma release_progress:
  assumes "indexed s" and "records_ok s"
  shows "progress s (snd (release_stale r clock s))"
    and "release_stale r clock s = (Inr (), s') \<Longrightarrow> mget (ts_activePending s') r = None"
proof -
  have "progress s (snd (release_stale r clock s)) \<and>
      (release_stale r clock s = (Inr (), s') \<longrightarrow> mget (ts_activePending s') r = None)"
  proof (cases "mget (ts_activePending s) r")
    case (Some i)
    then obtain t where t: "mget (ts_transfers s) i = Some t" "ot_resourceId t = r" "pending t"
      using assms(1) by (auto simp: indexed_def)
    have i: "i \<noteq> []" "ot_id t = i" using records_okD [OF assms(2) t(1)] by simp_all
    have "progress s (clear_pending r (put_transfer (t\<lparr>ot_status := T_EXPIRED\<rparr>) s))"
      using t by (intro progress_settle [OF assms(2) t(1), of "t\<lparr>ot_status := T_EXPIRED\<rparr>"]) simp_all
    then show ?thesis using Some t i by (auto simp: release_stale_def)
  qed (auto simp: release_stale_def)
  then show "progress s (snd (release_stale r clock s))"
    and "release_stale r clock s = (Inr (), s') \<Longrightarrow> mget (ts_activePending s') r = None" by blast+
qed

lemma list_progress:
  assumes "indexed s" and "records_ok s"
  shows "progress s (snd (listTransfers r now s))"
proof (cases "\<exists>p \<in> set (ts_transfers s). lapse r now (snd p) \<noteq> snd p")
  case False
  then have "map (\<lambda>(i, t). (i, lapse r now t)) (ts_transfers s) = ts_transfers s" by (intro map_idI) auto
  then show ?thesis using False by (simp add: listTransfers_def progress_def)
next
  case True
  have wf: "mwf (ts_transfers s)" using assms(2) by (simp add: records_ok_def)
  obtain i t where p: "(i, t) \<in> set (ts_transfers s)" "lapse r now t \<noteq> t" using True by auto
  have t: "mget (ts_transfers s) i = Some t" using p(1) mget_values [OF wf] by simp
  have l: "ot_resourceId t = r" "pending t" "lapse r now t = t\<lparr>ot_status := T_EXPIRED\<rparr>"
    using p(2) by (auto simp: lapse_def split: if_splits)
  have others: "lapse r now u = u" if "mget (ts_transfers s) j = Some u" "j \<noteq> i" for j u
    using indexedD [OF assms(1) that(1)] indexedD [OF assms(1) t l(2)] that(2) l(1) by (auto simp: lapse_def)
  have "(map_option (lapse r now) \<circ> map_of (ts_transfers s)) j = ((map_of (ts_transfers s))(i \<mapsto> lapse r now t)) j" for j
    using others [of j] t by (cases "mget (ts_transfers s) j") auto
  then have "map_of (ts_transfers (snd (listTransfers r now s))) = (map_of (ts_transfers s))(i \<mapsto> lapse r now t)"
    using True by (auto simp: listTransfers_def Let_def map_of_map)
  moreover have "mwf (ts_transfers (snd (listTransfers r now s)))"
    using wf by (simp add: listTransfers_def Let_def mwf_def comp_def case_prod_unfold)
  ultimately have "settles_one s i t (lapse r now t) (snd (listTransfers r now s))"
    using t l True by (simp add: settles_one_def listTransfers_def Let_def map_of_mdelete)
  then show ?thesis by (auto simp: progress_def)
qed

subsection \<open>Initiation\<close>

lemma store_inv:
  assumes "indexed s" and "records_ok s" and "mget (ts_activePending s) (ot_resourceId t) = None"
    and "\<not> mhas (ts_transfers s) (ot_id t)" and "pending t" and "ot_id t \<noteq> []" and "valid_parties t"
  shows "indexed (store_transfer t s) \<and> records_ok (store_transfer t s)"
proof
  have f: "ts_transfers (store_transfer t s) = mset_kv (ot_id t) t (ts_transfers s)"
    "ts_activePending (store_transfer t s) = mset_kv (ot_resourceId t) (ot_id t) (ts_activePending s)"
    by (simp_all add: store_transfer_def)
  have old: "mget (ts_activePending s) r = Some j \<longleftrightarrow>
      (\<exists>u. mget (ts_transfers s) j = Some u \<and> ot_resourceId u = r \<and> pending u)" for r j
    using assms(1) by (simp add: indexed_def)
  show "indexed (store_transfer t s)"
    unfolding indexed_def f
  proof (intro allI)
    fix r i
    show "mget (mset_kv (ot_resourceId t) (ot_id t) (ts_activePending s)) r = Some i \<longleftrightarrow>
      (\<exists>u. mget (mset_kv (ot_id t) t (ts_transfers s)) i = Some u \<and> ot_resourceId u = r \<and> pending u)"
      using assms(3-5) old [of r i] by (cases "r = ot_resourceId t"; cases "i = ot_id t") auto
  qed
  show "records_ok (store_transfer t s)"
    using assms(2,6,7) by (auto simp: records_ok_def f)
qed

lemma progress_fresh: "progress s s' \<Longrightarrow> \<not> mhas (ts_transfers s) i \<Longrightarrow> \<not> mhas (ts_transfers s') i"
  by (auto simp: progress_def settles_one_def)

lemma initiate_inv:
  assumes "indexed s" and "records_ok s" and "uuid \<noteq> []" and "\<not> mhas (ts_transfers s) uuid"
  shows "indexed (snd (initiateTransfer uuid token clock now i s)) \<and>
    records_ok (snd (initiateTransfer uuid token clock now i s))"
proof -
  obtain r s1 where rel: "release_stale (it_resourceId i) clock s = (r, s1)" by fastforce
  have pr: "progress s s1" using release_progress(1) [OF assms(1,2), of "it_resourceId i" clock] rel by simp
  have inv1: "indexed s1" "records_ok s1" using progress_inv [OF assms(1,2) pr] by simp_all
  let ?t = "new_transfer uuid token now i s1"
  have t: "ot_id ?t = uuid" "ot_resourceId ?t = it_resourceId i" "pending ?t"
    "ot_currentOwnerId ?t = it_currentOwnerId i" "ot_targetOwnerId ?t = it_targetOwnerId i"
    by (simp_all add: new_transfer_def)
  have stored: "indexed (store_transfer ?t s1) \<and> records_ok (store_transfer ?t s1)"
    if "r = Inr ()" "it_currentOwnerId i \<noteq> it_targetOwnerId i" "js_trim (it_targetOwnerId i) \<noteq> []"
  proof (rule store_inv [OF inv1])
    show "mget (ts_activePending s1) (ot_resourceId ?t) = None"
      using release_progress(2) [OF assms(1,2)] rel that(1) t by simp
    show "\<not> mhas (ts_transfers s1) (ot_id ?t)" using progress_fresh [OF pr assms(4)] t by simp
  qed (use that assms(3) t in \<open>simp_all add: valid_parties_def\<close>)
  have emit: "indexed (emitAudit a u b s') = indexed s'" "records_ok (emitAudit a u b s') = records_ok s'" for a u b s'
    by (simp_all add: indexed_def records_ok_def)
  show ?thesis
    using assms(1,2) stored inv1 rel emit
    by (auto simp: initiateTransfer_def Let_def split: sum.split option.split)
qed

subsection \<open>Reachable states\<close>

lemma register_progress: "progress s (registerResourceOwner r w s)"
  by (simp add: registerResourceOwner_def progress_def)

lemma exec_progress:
  assumes "indexed s" and "records_ok s" and "\<And>u k x n i. c \<noteq> Initiate u k x n i"
  shows "progress s (transfer_exec c s)"
proof (cases c)
  case (Initiate u k x n i)
  then show ?thesis using assms(3) by blast
qed (simp_all add: assms(1,2) accept_progress cancel_progress reject_progress get_progress list_progress register_progress)

lemma exec_inv:
  assumes "indexed s" and "records_ok s" and "fresh_call c s"
  shows "indexed (transfer_exec c s) \<and> records_ok (transfer_exec c s)"
proof (cases "\<exists>u k x n i. c = Initiate u k x n i")
  case True
  then show ?thesis using initiate_inv [OF assms(1,2)] assms(3) by auto
next
  case False
  then show ?thesis by (intro progress_inv [OF assms(1,2)] exec_progress [OF assms(1,2)]) blast
qed

lemma run_inv: "transfer_run ok s \<Longrightarrow> indexed s \<and> records_ok s"
proof (induction rule: transfer_run.induct)
  case (start ttl)
  then show ?case by (simp add: OwnershipTransferService_new_def indexed_def records_ok_def)
next
  case (call s c)
  then show ?case using exec_inv by blast
qed

text \<open>A record after a call: its terms are kept and only a pending one changes, for good.\<close>

definition record_moves :: "transfer_record \<Rightarrow> transfer_record \<Rightarrow> bool" where
  "record_moves t t' \<longleftrightarrow> same_transfer_terms t t' \<and> (t' = t \<or> pending t \<and> \<not> pending t')"

lemma progress_record:
  "progress s s' \<Longrightarrow> mget (ts_transfers s) i = Some t \<Longrightarrow> \<exists>t'. mget (ts_transfers s') i = Some t' \<and> record_moves t t'"
  by (auto simp: progress_def settles_one_def record_moves_def)

lemma initiate_record:
  assumes "indexed s" and "records_ok s" and "\<not> mhas (ts_transfers s) uuid" and "mget (ts_transfers s) j = Some t"
  shows "\<exists>t'. mget (ts_transfers (snd (initiateTransfer uuid token clock now i s))) j = Some t' \<and> record_moves t t'"
proof -
  obtain r s1 where rel: "release_stale (it_resourceId i) clock s = (r, s1)" by fastforce
  have pr: "progress s s1" using release_progress(1) [OF assms(1,2), of "it_resourceId i" clock] rel by simp
  obtain t1 where t1: "mget (ts_transfers s1) j = Some t1" "record_moves t t1"
    using progress_record [OF pr assms(4)] by blast
  have "j \<noteq> uuid" using assms(3,4) by auto
  moreover have "record_moves t t" by (simp add: record_moves_def)
  ultimately show ?thesis
    using t1 rel assms(4) by (auto simp: initiateTransfer_def Let_def store_transfer_def new_transfer_def split: sum.split option.split)
qed

lemma exec_record:
  assumes "indexed s" and "records_ok s" and "fresh_call c s" and "mget (ts_transfers s) j = Some t"
  shows "\<exists>t'. mget (ts_transfers (transfer_exec c s)) j = Some t' \<and> record_moves t t'"
proof (cases "\<exists>u k x n i. c = Initiate u k x n i")
  case True
  then show ?thesis using initiate_record [OF assms(1,2) _ assms(4)] assms(3) by auto
next
  case False
  then show ?thesis by (intro progress_record [OF exec_progress [OF assms(1,2)] assms(4)]) blast
qed

text \<open>
  In every reachable state of the transfer service the index names exactly the pending
  transfers, so that a resource has at most one; the two parties of a transfer differ and the
  nominee is named; and no further call removes a record, changes its terms, or takes it out of
  a status other than pending.
\<close>
lemma transfer_records_invariant:
  assumes "transfer_run (\<lambda>_ _. True) s" and "fresh_call c s"
  shows "(\<forall>r i. mget (ts_activePending s) r = Some i \<longleftrightarrow>
            (\<exists>t. mget (ts_transfers s) i = Some t \<and> ot_resourceId t = r \<and> pending t)) \<and>
         (\<forall>i t. mget (ts_transfers s) i = Some t \<longrightarrow> ot_id t = i \<and> valid_parties t \<and>
            (\<exists>t'. mget (ts_transfers (transfer_exec c s)) i = Some t' \<and> same_transfer_terms t t' \<and>
              (t' = t \<or> pending t \<and> \<not> pending t')))"
proof -
  have inv: "indexed s" "records_ok s" using run_inv [OF assms(1)] by simp_all
  show ?thesis
    using inv exec_record [OF inv assms(2)] records_okD [OF inv(2)]
    unfolding indexed_def record_moves_def by blast
qed

subsection \<open>Who may take a resource over\<close>

lemma release_owners: "release_stale r clock s = (x, s') \<Longrightarrow> ts_owners s' = ts_owners s"
  by (auto simp: release_stale_def split: option.splits if_splits)

lemma initiate_owner:
  assumes "mget (ts_owners s) r = Some w"
  shows "mget (ts_owners (snd (initiateTransfer uuid token clock now i s))) r = Some w"
proof -
  obtain x s1 where rel: "release_stale (it_resourceId i) clock s = (x, s1)" by fastforce
  have "ts_owners s1 = ts_owners s" by (rule release_owners [OF rel])
  then show ?thesis
    using assms rel by (auto simp: initiateTransfer_def store_transfer_def Let_def split: sum.split option.split)
qed

lemma exec_owner:
  assumes "mget (ts_owners s) r = Some w" and "mget (ts_owners (transfer_exec c s)) r \<noteq> Some w"
  shows "(\<exists>w'. c = Register r w') \<or>
    (\<exists>k a clock now t. c = Accept k a clock now \<and> findTransferByIdOrToken k s = Some t \<and> ot_resourceId t = r \<and>
       ot_targetOwnerId t = a \<and> pending t \<and> \<not> transfer_expired clock t \<and>
       mget (ts_owners (transfer_exec c s)) r = Some a)"
proof (cases c)
  case (Initiate u k x n i)
  then show ?thesis
    using assms initiate_owner by simp
next
  case (Accept k a clock now)
  then show ?thesis
    using assms by (auto simp: acceptTransfer_def expire_transfer_def Let_def split: option.splits if_splits)
next
  case (Cancel k a now)
  then show ?thesis using assms by (auto simp: cancelTransfer_def Let_def split: option.splits if_splits)
next
  case (Reject k a now)
  then show ?thesis using assms by (auto simp: rejectTransfer_def Let_def split: option.splits if_splits)
next
  case (Get k clock)
  then show ?thesis using assms by (auto simp: getTransfer_def expire_transfer_def split: option.splits if_splits)
next
  case (ListFor q now)
  then show ?thesis using assms by (auto simp: listTransfers_def Let_def split: if_splits)
next
  case (Register q w')
  then show ?thesis using assms by (auto simp: registerResourceOwner_def split: if_splits)
qed

text \<open>
  Seeding an owner is meant for resources nobody is transferring. With this discipline every
  pending transfer comes from the registered owner (an empty owner id counts as none).
\<close>

fun seeds_first :: "transfer_call \<Rightarrow> transfer_service \<Rightarrow> bool" where
  "seeds_first (Register r w) s \<longleftrightarrow> \<not> mhas (ts_activePending s) r"
| "seeds_first _ s \<longleftrightarrow> True"

definition from_owner :: "transfer_service \<Rightarrow> bool" where
  "from_owner s \<longleftrightarrow> (\<forall>i t. mget (ts_transfers s) i = Some t \<and> pending t \<longrightarrow>
     mget (ts_owners s) (ot_resourceId t) \<in> {Some (ot_currentOwnerId t), Some []})"

lemma progress_pending:
  "progress s s' \<Longrightarrow> mget (ts_transfers s') i = Some t \<Longrightarrow> pending t \<Longrightarrow> mget (ts_transfers s) i = Some t"
  by (auto simp: progress_def settles_one_def split: if_splits)

lemma initiate_pending:
  assumes "indexed s" and "records_ok s" and "mget (ts_transfers (snd (initiateTransfer uuid token clock now i s))) j = Some t"
    and "pending t"
  shows "mget (ts_transfers s) j = Some t \<or>
    mget (ts_owners (snd (initiateTransfer uuid token clock now i s))) (ot_resourceId t) \<in> {Some (ot_currentOwnerId t), Some []}"
proof (cases "mget (ts_transfers s) j = Some t")
  case False
  obtain x s1 where rel: "release_stale (it_resourceId i) clock s = (x, s1)" by fastforce
  let ?n = "new_transfer uuid token now i s1"
  let ?s' = "snd (initiateTransfer uuid token clock now i s)"
  have pr: "progress s s1" using release_progress(1) [OF assms(1,2), of "it_resourceId i" clock] rel by simp
  have "mget (ts_transfers s1) j \<noteq> Some t" using progress_pending [OF pr _ assms(4)] False by blast
  then have new: "t = ?n" "ts_owners ?s' = ts_owners (store_transfer ?n s1)"
    and auth: "\<not> (truthy (mget (ts_owners s) (it_resourceId i)) \<and>
        mget (ts_owners s) (it_resourceId i) \<noteq> Some (it_currentOwnerId i))"
    using assms(3) rel False
    by (auto simp: initiateTransfer_def store_transfer_def Let_def split: if_splits sum.splits option.splits)
  have o: "ts_owners s1 = ts_owners s" by (rule release_owners [OF rel])
  have f: "ot_resourceId ?n = it_resourceId i" "ot_currentOwnerId ?n = it_currentOwnerId i"
    by (simp_all add: new_transfer_def)
  show ?thesis
    unfolding new f using auth o f
    by (cases "mget (ts_owners s) (it_resourceId i)") (auto simp: store_transfer_def truthy_def)
qed simp

lemma accept_settles:
  assumes "records_ok s" and "findTransferByIdOrToken k s = Some t" and "ot_targetOwnerId t = a" and "pending t"
    and "mget (ts_transfers (transfer_exec (Accept k a clock now) s)) i = Some u" and "pending u"
  shows "i \<noteq> ot_id t"
  using assms(2-) by (auto simp: acceptTransfer_def expire_transfer_def Let_def split: if_splits)

lemma from_owner_exec:
  assumes "indexed s" and "records_ok s" and "from_owner s" and "fresh_call c s" and "seeds_first c s"
  shows "from_owner (transfer_exec c s)"
  unfolding from_owner_def
proof (intro allI impI, elim conjE)
  fix i t
  assume t: "mget (ts_transfers (transfer_exec c s)) i = Some t" "pending t"
  let ?owner = "mget (ts_owners (transfer_exec c s)) (ot_resourceId t)"
  show "?owner \<in> {Some (ot_currentOwnerId t), Some []}"
  proof (cases "mget (ts_transfers s) i = Some t")
    case True
    obtain w where w: "mget (ts_owners s) (ot_resourceId t) = Some w" "w \<in> {ot_currentOwnerId t, []}"
      using assms(3) True t(2) by (auto simp: from_owner_def)
    have act: "mget (ts_activePending s) (ot_resourceId t) = Some i" by (rule indexedD [OF assms(1) True t(2)])
    have "?owner = Some w"
    proof (rule ccontr)
      assume "?owner \<noteq> Some w"
      from exec_owner [OF w(1) this] show False
      proof (elim disjE exE conjE)
        fix w'
        assume "c = Register (ot_resourceId t) w'"
        then show False using assms(5) act by simp
      next
        fix k a clock now u
        assume c: "c = Accept k a clock now" and u: "findTransferByIdOrToken k s = Some u"
          "ot_resourceId u = ot_resourceId t" "ot_targetOwnerId u = a" "pending u"
        obtain j where j: "mget (ts_transfers s) j = Some u" using find_transfer_stored [OF u(1)] by blast
        have "j = i" using indexedD [OF assms(1) j u(4)] act u(2) by simp
        moreover have "ot_id u = j" using records_okD [OF assms(2) j] by simp
        ultimately show False using accept_settles [OF assms(2) u(1,3,4) t(1) [unfolded c] t(2)] by simp
      qed
    qed
    then show ?thesis using w(2) by auto
  next
    case False
    then have "\<exists>u k x n y. c = Initiate u k x n y"
      using progress_pending [OF exec_progress [OF assms(1,2)] t] by blast
    then show ?thesis using initiate_pending [OF assms(1,2)] t False by fastforce
  qed
qed

lemma run_from_owner: "transfer_run seeds_first s \<Longrightarrow> from_owner s"
proof (induction rule: transfer_run.induct)
  case (start ttl)
  then show ?case by (simp add: OwnershipTransferService_new_def from_owner_def)
next
  case (call s c)
  then show ?case using from_owner_exec run_inv by blast
qed

text \<open>
  C9: the handshake: when owners are only seeded for resources nobody is transferring, a call
  replaces the owner of a resource only by seeding it or by the acceptance of a pending,
  unexpired transfer that the owner had started in favour of the acceptor, who becomes the owner.
\<close>
theorem ownership_handshake:
  assumes "transfer_run seeds_first s" and "getResourceOwner r s = Some w" and "w \<noteq> []"
    and "getResourceOwner r (transfer_exec c s) \<noteq> Some w"
  shows "(\<exists>w'. c = Register r w') \<or>
    (\<exists>k a clock now t. c = Accept k a clock now \<and> findTransferByIdOrToken k s = Some t \<and>
       pending t \<and> \<not> transfer_expired clock t \<and> ot_resourceId t = r \<and>
       ot_currentOwnerId t = w \<and> ot_targetOwnerId t = a \<and> a \<noteq> w \<and>
       getResourceOwner r (transfer_exec c s) = Some a)"
proof -
  have inv: "from_owner s" "records_ok s" using run_from_owner [OF assms(1)] run_inv [OF assms(1)] by simp_all
  have w: "mget (ts_owners s) r = Some w" "mget (ts_owners (transfer_exec c s)) r \<noteq> Some w"
    using assms(2,4) by (simp_all add: getResourceOwner_def)
  from exec_owner [OF w] show ?thesis
  proof (elim disjE exE conjE)
    fix k a clock now t
    assume t: "c = Accept k a clock now" "findTransferByIdOrToken k s = Some t" "ot_resourceId t = r"
      "ot_targetOwnerId t = a" "pending t" "\<not> transfer_expired clock t"
      "mget (ts_owners (transfer_exec c s)) r = Some a"
    obtain i where i: "mget (ts_transfers s) i = Some t" using find_transfer_stored [OF t(2)] by blast
    have "mget (ts_owners s) (ot_resourceId t) \<in> {Some (ot_currentOwnerId t), Some []}"
      using inv(1) i t(5) unfolding from_owner_def by blast
    then have "ot_currentOwnerId t = w" using t(3) w(1) assms(3) by auto
    moreover have "ot_currentOwnerId t \<noteq> ot_targetOwnerId t"
      using records_okD [OF inv(2) i] by (simp add: valid_parties_def)
    ultimately show ?thesis using t by (auto simp: getResourceOwner_def)
  qed blast
qed

subsection \<open>Concrete runs\<close>

definition demo_nomination :: initiate_input where
  "demo_nomination = \<lparr>it_resourceType = ORGANIZATION, it_resourceId = ''r'', it_currentOwnerId = ''a'',
     it_targetOwnerId = ''b'', it_targetOwnerEmail = None, it_reason = [], it_ttlMs = Some (Num 1000),
     it_previousOwnerRole = None\<rparr>"

definition demo_transfer :: transfer_record where
  "demo_transfer = new_transfer ''u'' ''t'' 0 demo_nomination (OwnershipTransferService_new None)"

definition demo_owned :: transfer_service where
  "demo_owned = registerResourceOwner ''r'' ''a'' (OwnershipTransferService_new None)"

definition demo_started :: transfer_service where
  "demo_started = snd (initiateTransfer ''u'' ''t'' 0 0 demo_nomination demo_owned)"

lemma trim_b [simp]: "js_trim ''b'' = ''b''"
  by (rule js_trim_no_ws) (simp add: is_ws_def)

lemma demo_started_simps:
  "ts_transfers demo_started = [(''u'', demo_transfer)]" "ts_activePending demo_started = [(''r'', ''u'')]"
  "ts_owners demo_started = [(''r'', ''a'')]" "ts_tokenIndex demo_started = [(''t'', ''u'')]"
  by (simp_all add: demo_started_def demo_owned_def demo_transfer_def initiateTransfer_def registerResourceOwner_def
      OwnershipTransferService_new_def demo_nomination_def release_stale_def new_transfer_def store_transfer_def
      put_transfer_def emitAudit_def expiry_date_def time_clip_def Let_def)

lemma demo_transfer_simps:
  "ot_id demo_transfer = ''u''" "ot_resourceId demo_transfer = ''r''" "ot_currentOwnerId demo_transfer = ''a''"
  "ot_targetOwnerId demo_transfer = ''b''" "ot_status demo_transfer = T_PENDING_ACCEPTANCE"
  "ot_expiresAt demo_transfer = Some 1000"
  by (simp_all add: demo_transfer_def new_transfer_def demo_nomination_def expiry_date_def time_clip_def)

lemma demo_run: "transfer_run seeds_first demo_started" "transfer_run (\<lambda>_ _. True) demo_started"
proof -
  have "transfer_run ok demo_started"
    if "\<And>s. ts_activePending s = [] \<Longrightarrow> ok (Register ''r'' ''a'') s" "\<And>u k x n i s. ok (Initiate u k x n i) s" for ok
  proof -
    let ?s0 = "OwnershipTransferService_new None"
    have "transfer_run ok (transfer_exec (Register ''r'' ''a'') ?s0)"
      by (rule transfer_run.call [OF transfer_run.start])
        (use that in \<open>simp_all add: OwnershipTransferService_new_def\<close>)
    then have "transfer_run ok demo_owned" by (simp add: demo_owned_def)
    then have "transfer_run ok (transfer_exec (Initiate ''u'' ''t'' 0 0 demo_nomination) demo_owned)"
      by (rule transfer_run.call)
        (use that in \<open>simp_all add: demo_owned_def registerResourceOwner_def OwnershipTransferService_new_def\<close>)
    then show ?thesis by (simp add: demo_started_def)
  qed
  from this [of seeds_first] this [of "\<lambda>_ _. True"]
  show "transfer_run seeds_first demo_started" "transfer_run (\<lambda>_ _. True) demo_started" by simp_all
qed

text \<open>A nomination is started and then withdrawn.\<close>
lemma transfer_records_invariant_witness:
  "transfer_run (\<lambda>_ _. True) demo_started \<and> mget (ts_transfers demo_started) ''u'' = Some demo_transfer \<and>
   (\<exists>t'. mget (ts_transfers (transfer_exec (Cancel ''u'' ''a'' 5) demo_started)) ''u'' = Some t' \<and>
     same_transfer_terms demo_transfer t')"
proof -
  have m: "mget (ts_transfers demo_started) ''u'' = Some demo_transfer" by (simp add: demo_started_simps)
  have f: "fresh_call (Cancel ''u'' ''a'' 5) demo_started" by simp
  show ?thesis
    using transfer_records_invariant [OF demo_run(2) f, THEN conjunct2, rule_format, OF m] demo_run(2) m by blast
qed

text \<open>Witness of C9: the nominee accepts with the token and takes the resource over.\<close>
theorem ownership_handshake_witness:
  "getResourceOwner ''r'' (transfer_exec (Accept ''t'' ''b'' 7 8) demo_started) = Some ''b'' \<and>
   (\<exists>t. findTransferByIdOrToken ''t'' demo_started = Some t \<and> ot_currentOwnerId t = ''a'')"
proof -
  have o: "getResourceOwner ''r'' demo_started = Some ''a''" by (simp add: getResourceOwner_def demo_started_simps)
  have n: "getResourceOwner ''r'' (transfer_exec (Accept ''t'' ''b'' 7 8) demo_started) = Some ''b''"
    by (simp add: acceptTransfer_def findTransferByIdOrToken_def demo_started_simps demo_transfer_simps
        transfer_expired_def Let_def getResourceOwner_def)
  show ?thesis using ownership_handshake [OF demo_run(1) o, of "Accept ''t'' ''b'' 7 8"] n by auto
qed

text \<open>
  Without that discipline a transfer survives the change of owner: after the owner of a
  resource was registered anew, the nominee of the former owner still takes the resource over,
  and the new owner, who never agreed, cannot withdraw the transfer.
\<close>
lemma stale_transfer_takeover:
  "\<exists>s k. transfer_run (\<lambda>_ _. True) s \<and> getResourceOwner ''r'' s = Some ''c'' \<and>
     (\<forall>now. fst (cancelTransfer k ''c'' now s) = Inl UnauthorizedTransferError) \<and>
     getResourceOwner ''r'' (transfer_exec (Accept k ''b'' 7 8) s) = Some ''b''"
proof (intro exI conjI)
  let ?s = "transfer_exec (Register ''r'' ''c'') demo_started"
  show "transfer_run (\<lambda>_ _. True) ?s" by (rule transfer_run.call [OF demo_run(2)]) simp_all
  show "getResourceOwner ''r'' ?s = Some ''c''" by (simp add: getResourceOwner_def registerResourceOwner_def)
  show "\<forall>now. fst (cancelTransfer ''u'' ''c'' now ?s) = Inl UnauthorizedTransferError"
    by (simp add: cancelTransfer_def registerResourceOwner_def demo_started_simps demo_transfer_simps)
  show "getResourceOwner ''r'' (transfer_exec (Accept ''u'' ''b'' 7 8) ?s) = Some ''b''"
    by (simp add: acceptTransfer_def findTransferByIdOrToken_def demo_started_simps demo_transfer_simps
        transfer_expired_def Let_def getResourceOwner_def registerResourceOwner_def)
qed

text \<open>
  An unusable time to live: the call fails only after the transfer was stored, which then
  has no expiry; from then on every nomination for the resource by its owner is refused,
  whatever the time, until the transfer is withdrawn, declined or accepted.
\<close>
lemma failed_initiation_blocks_resource:
  assumes "transfer_run ok s" and "uuid \<noteq> []" and "\<not> mhas (ts_transfers s) uuid" and "it_ttlMs i = Some Infinity"
    and "initiateTransfer uuid token clock now i s = (Inl InvalidTimeValue, s')"
    and "it_resourceId i2 = it_resourceId i" and "it_currentOwnerId i2 = it_currentOwnerId i"
    and "it_targetOwnerId i2 = it_targetOwnerId i"
  shows "initiateTransfer uuid2 token2 clock2 now2 i2 s' = (Inl (PendingTransferExistsError uuid), s')"
proof -
  obtain x s1 where rel: "release_stale (it_resourceId i) clock s = (x, s1)" by fastforce
  let ?n = "new_transfer uuid token now i s1"
  have x: "x \<noteq> Inl InvalidTimeValue"
    using rel by (auto simp: release_stale_def split: option.splits if_splits)
  have s': "s' = store_transfer ?n s1"
    and party: "it_currentOwnerId i \<noteq> it_targetOwnerId i" "js_trim (it_targetOwnerId i) \<noteq> []"
    and auth: "mget (ts_owners s) (it_resourceId i) \<in> {None, Some [], Some (it_currentOwnerId i)}"
    using assms(5) rel x
    by (auto simp: initiateTransfer_def Let_def truthy_def split: if_splits sum.splits option.splits)
  have n: "ot_id ?n = uuid" "ot_resourceId ?n = it_resourceId i" "pending ?n" "ot_expiresAt ?n = None"
    "ot_currentOwnerId ?n = it_currentOwnerId i"
    using assms(4) by (simp_all add: new_transfer_def expiry_date_def)
  have new: "mget (ts_activePending s') (it_resourceId i) = Some uuid" "mget (ts_transfers s') uuid = Some ?n"
    "mget (ts_owners s') (it_resourceId i) \<in> {Some [], Some (it_currentOwnerId i)}"
    using auth release_owners [OF rel] n by (auto simp: s' store_transfer_def)
  have "release_stale (it_resourceId i) clock2 s' = (Inl (PendingTransferExistsError uuid), s')"
    using new(1,2) n assms(2) by (simp add: release_stale_def transfer_expired_def)
  then show ?thesis
    using new(3) party assms(6-8) by (auto simp: initiateTransfer_def truthy_def)
qed

text \<open>A nomination with an infinite time to live, repeated much later.\<close>
lemma failed_initiation_blocks_resource_witness:
  "fst (initiateTransfer ''v'' ''t'' 9999999 9999999 demo_nomination
     (snd (initiateTransfer ''u'' ''t'' 0 0 (demo_nomination\<lparr>it_ttlMs := Some Infinity\<rparr>) demo_owned))) =
   Inl (PendingTransferExistsError ''u'')"
proof -
  let ?i = "demo_nomination\<lparr>it_ttlMs := Some Infinity\<rparr>"
  let ?s' = "snd (initiateTransfer ''u'' ''t'' 0 0 ?i demo_owned)"
  have run: "transfer_run (\<lambda>_ _. True) demo_owned"
    using transfer_run.call [OF transfer_run.start, where c = "Register ''r'' ''a''" and ok = "\<lambda>_ _. True"]
    by (simp add: demo_owned_def)
  have e: "initiateTransfer ''u'' ''t'' 0 0 ?i demo_owned = (Inl InvalidTimeValue, ?s')"
    by (simp add: demo_owned_def initiateTransfer_def registerResourceOwner_def
        OwnershipTransferService_new_def demo_nomination_def release_stale_def new_transfer_def expiry_date_def Let_def)
  have "initiateTransfer ''v'' ''t'' 9999999 9999999 demo_nomination ?s' = (Inl (PendingTransferExistsError ''u''), ?s')"
    by (rule failed_initiation_blocks_resource [OF run _ _ _ e])
      (simp_all add: demo_owned_def registerResourceOwner_def OwnershipTransferService_new_def)
  then show ?thesis by simp
qed

end
