(* ===== verification/Replay_Engine.thy ===== *)
theory Replay_Engine
  imports Invoice_Model "HOL-Library.Word"
begin

unbundle bit_operations_syntax

text \<open>
  The seeded replay engine, \<open>backend/src/concurrency/deterministic-replay-engine.ts\<close>. The
  generator's state is a number that grows with each draw (rounded as a double), of which the
  32-bit operations see the low 32 bits: they are words. Versions are integers.
\<close>

subsection \<open>Events, steps and the resource\<close>

datatype sim_role = S_OWNER | S_ADMIN | S_COLLABORATOR | S_UNAUTHORIZED

datatype sim_action = UPDATE_FIELD | SETTLE_PAYMENT | CANCEL_INVOICE

text \<open>A value of type \<open>unknown\<close>; an object carries the number it converts to.\<close>

datatype sim_value =
    VUndefined
  | VNull
  | VBool bool
  | VNumber jsnum
  | VString string
  | VObject json jsnum

fun js_Number :: "sim_value \<Rightarrow> jsnum" where
  "js_Number VUndefined = NaN"
| "js_Number VNull = Num 0"
| "js_Number (VBool b) = Num (if b then 1 else 0)"
| "js_Number (VNumber n) = n"
| "js_Number (VString s) = js_number s"
| "js_Number (VObject _ n) = n"

record sim_event =
  se_id :: string
  se_clientId :: string
  se_role :: sim_role
  se_action :: sim_action
  se_field :: "string option"
  se_value :: sim_value
  se_expectedVersion :: "jsnum option"
  se_idempotencyKey :: "string option"
  se_shouldFailNetwork :: bool

datatype step_status = SUCCESS | CONFLICT | UNAUTHORIZED | NETWORK_ERROR | IDEMPOTENT_HIT

datatype step_error = NetworkDrop | AccessDenied | VersionConflict jsnum int

record trace_step =
  tr_stepIndex :: nat
  tr_eventId :: string
  tr_clientId :: string
  tr_action :: sim_action
  tr_status :: step_status
  tr_resultingVersion :: int
  tr_error :: "step_error option"

datatype sim_status = SIM_PENDING | SIM_PAID | SIM_CANCELLED

record sim_resource =
  sr_id :: string
  sr_version :: int
  sr_status :: sim_status
  sr_fields :: "(string, sim_value) jsmap"
  sr_settledAmount :: jsnum

subsection \<open>The generator\<close>

definition to_word32 :: "rat \<Rightarrow> 32 word" where
  "to_word32 q = word_of_int (if 0 \<le> q then \<lfloor>q\<rfloor> else \<lceil>q\<rceil>)"

text \<open>\<open>seed >>> 0\<close>\<close>

definition SeededPRNG_new :: "jsnum \<Rightarrow> rat" where
  "SeededPRNG_new seed = (case seed of Num q \<Rightarrow> of_nat (unat (to_word32 q)) | _ \<Rightarrow> 0)"

definition mulberry32 :: "32 word \<Rightarrow> 32 word" where
  "mulberry32 t0 =
     (let t1 = (t0 XOR drop_bit 15 t0) * (t0 OR 1);
          t2 = t1 XOR (t1 + (t1 XOR drop_bit 7 t1) * (t1 OR 61))
      in t2 XOR drop_bit 14 t2)"

definition sp_next :: "rat \<Rightarrow> rat \<times> rat" where
  "sp_next s = (let s' = round_double (s + 1831565813)
     in (of_nat (unat (mulberry32 (to_word32 s'))) / 4294967296, s'))"

definition sp_nextInt :: "rat \<Rightarrow> rat \<Rightarrow> rat \<Rightarrow> rat \<times> rat" where
  "sp_nextInt lo hi s =
     (let (r, s') = sp_next s;
          width = round_double (round_double (hi - lo) + 1)
      in (round_double (of_int \<lfloor>round_double (r * width)\<rfloor> + lo), s'))"

definition swap :: "nat \<Rightarrow> nat \<Rightarrow> 'a list \<Rightarrow> 'a list" where
  "swap i j xs = xs[i := xs ! j, j := xs ! i]"

text \<open>The loop of \<open>shuffle\<close> from index \<open>i\<close> down to 1; the draws stay in range (\<open>draw_in_range\<close>).\<close>

fun shuffle_from :: "nat \<Rightarrow> 'a list \<Rightarrow> rat \<Rightarrow> 'a list \<times> rat" where
  "shuffle_from 0 xs s = (xs, s)"
| "shuffle_from (Suc n) xs s =
     (let (r, s') = sp_next s;
          j = nat \<lfloor>round_double (r * of_nat (Suc (Suc n)))\<rfloor>
      in shuffle_from n (swap (Suc n) j xs) s')"

definition sp_shuffle :: "'a list \<Rightarrow> rat \<Rightarrow> 'a list \<times> rat" where
  "sp_shuffle xs s = shuffle_from (length xs - 1) xs s"

subsection \<open>The engine\<close>

record replay_engine =
  re_seed :: jsnum
  re_prng :: rat
  re_resource :: sim_resource
  re_cache :: "(string, int) jsmap"
  re_trace :: "trace_step list"

definition ReplayEngine_new :: "sim_resource \<Rightarrow> jsnum option \<Rightarrow> replay_engine" where
  "ReplayEngine_new r seed =
     (let sd = (case seed of Some n \<Rightarrow> n | None \<Rightarrow> Num 42)
      in \<lparr>re_seed = sd, re_prng = SeededPRNG_new sd, re_resource = r, re_cache = [], re_trace = []\<rparr>)"

definition push_step :: "sim_event \<Rightarrow> step_status \<Rightarrow> int \<Rightarrow> step_error option \<Rightarrow> replay_engine \<Rightarrow> replay_engine" where
  "push_step ev st version err e =
     e\<lparr>re_trace := re_trace e @
        [\<lparr>tr_stepIndex = length (re_trace e), tr_eventId = se_id ev, tr_clientId = se_clientId ev,
          tr_action = se_action ev, tr_status = st, tr_resultingVersion = version, tr_error = err\<rparr>]\<rparr>"

definition apply_event :: "sim_event \<Rightarrow> sim_resource \<Rightarrow> sim_resource" where
  "apply_event ev r0 =
     (let r = r0\<lparr>sr_version := sr_version r0 + 1\<rparr> in
      if se_action ev = UPDATE_FIELD \<and> truthy (se_field ev)
      then r\<lparr>sr_fields := mset_kv (the (se_field ev)) (se_value ev) (sr_fields r)\<rparr>
      else if se_action ev = SETTLE_PAYMENT
      then r\<lparr>sr_status := SIM_PAID,
             sr_settledAmount := js_add (sr_settledAmount r)
               (if se_value ev \<in> {VUndefined, VNull} then Num 0 else js_Number (se_value ev))\<rparr>
      else if se_action ev = CANCEL_INVOICE then r\<lparr>sr_status := SIM_CANCELLED\<rparr>
      else r)"

definition execute_event :: "sim_event \<Rightarrow> replay_engine \<Rightarrow> step_status \<times> replay_engine" where
  "execute_event ev e =
     (let version = sr_version (re_resource e);
          cached = (if truthy (se_idempotencyKey ev) then mget (re_cache e) (the (se_idempotencyKey ev)) else None)
      in if se_shouldFailNetwork ev
         then (NETWORK_ERROR, push_step ev NETWORK_ERROR version (Some NetworkDrop) e)
         else case cached of
           Some v \<Rightarrow> (IDEMPOTENT_HIT, push_step ev IDEMPOTENT_HIT v None e)
         | None \<Rightarrow>
             if se_role ev = S_UNAUTHORIZED
             then (UNAUTHORIZED, push_step ev UNAUTHORIZED version (Some AccessDenied) e)
             else if \<exists>x. se_expectedVersion ev = Some x \<and> x \<noteq> Num (of_int version)
             then (CONFLICT, push_step ev CONFLICT version
                     (Some (VersionConflict (the (se_expectedVersion ev)) version)) e)
             else
               let r = apply_event ev (re_resource e);
                   e1 = e\<lparr>re_resource := r\<rparr>;
                   e2 = (if truthy (se_idempotencyKey ev)
                         then e1\<lparr>re_cache := mset_kv (the (se_idempotencyKey ev)) (sr_version r) (re_cache e1)\<rparr>
                         else e1)
               in (SUCCESS, push_step ev SUCCESS (sr_version r) None e2))"

record batch_result =
  br_finalState :: sim_resource
  br_trace :: "trace_step list"
  br_successfulWrites :: nat
  br_conflicts :: nat
  br_retriesHandled :: nat

fun run_events :: "sim_event list \<Rightarrow> replay_engine \<Rightarrow> nat \<Rightarrow> nat \<Rightarrow> nat \<Rightarrow> batch_result \<times> replay_engine" where
  "run_events [] e writes conflicts retries =
     (\<lparr>br_finalState = re_resource e, br_trace = re_trace e, br_successfulWrites = writes,
       br_conflicts = conflicts, br_retriesHandled = retries\<rparr>, e)"
| "run_events (ev # evs) e writes conflicts retries =
     (let (st, e') = execute_event ev e
      in run_events evs e' (if st = SUCCESS then Suc writes else writes)
           (if st = CONFLICT then Suc conflicts else conflicts)
           (if st = IDEMPOTENT_HIT then Suc retries else retries))"

definition executeConcurrentBatch :: "sim_event list \<Rightarrow> replay_engine \<Rightarrow> batch_result \<times> replay_engine" where
  "executeConcurrentBatch events e =
     (let (scheduled, s) = sp_shuffle events (re_prng e)
      in run_events scheduled (e\<lparr>re_prng := s\<rparr>) 0 0 0)"

subsection \<open>The schedule is a permutation\<close>

lemma sp_next_range: "0 \<le> fst (sp_next s)" "fst (sp_next s) \<le> 1 - 1 / 4294967296"
proof -
  let ?n = "unat (mulberry32 (to_word32 (round_double (s + 1831565813))))"
  have "?n < 2 ^ 32" using unsigned_less [of "mulberry32 (to_word32 (round_double (s + 1831565813)))"] by simp
  then have "?n \<le> 4294967295" by simp
  then have "of_nat ?n \<le> (4294967295 :: rat)" by (metis of_nat_le_iff of_nat_numeral)
  then have "of_nat ?n / 4294967296 \<le> (4294967295 :: rat) / 4294967296" by (rule divide_right_mono) simp
  then show "fst (sp_next s) \<le> 1 - 1 / 4294967296" by (simp add: sp_next_def Let_def)
  show "0 \<le> fst (sp_next s)"
    unfolding sp_next_def Let_def fst_conv by (rule divide_nonneg_nonneg) (rule of_nat_0_le_iff, simp)
qed

lemma sp_next_grain: "fst (sp_next s) = 0 \<or> 1 / 4294967296 \<le> fst (sp_next s)"
proof -
  let ?n = "unat (mulberry32 (to_word32 (round_double (s + 1831565813))))"
  have "of_nat ?n = (0 :: rat) \<or> 1 \<le> (of_nat ?n :: rat)" by (cases ?n) (simp_all only: of_nat_0 of_nat_Suc, simp_all)
  then have "of_nat ?n / 4294967296 = (0 :: rat) \<or> 1 / 4294967296 \<le> (of_nat ?n / 4294967296 :: rat)"
    by (elim disjE) (simp, intro disjI2 divide_right_mono, simp_all)
  then show ?thesis by (simp only: sp_next_def Let_def fst_conv)
qed

lemma draw_in_range:
  assumes "0 \<le> r" and "r \<le> 1 - 1 / 4294967296" and "0 < n" and "r = 0 \<or> 1 / 4294967296 \<le> r"
  shows "nat \<lfloor>round_double (r * of_nat n)\<rfloor> < n"
proof -
  let ?x = "r * of_nat n :: rat"
  have n1: "(1 :: rat) \<le> of_nat n" using assms(3) by simp
  have x0: "0 \<le> ?x" using assms(1) by simp
  have "2 powi (-1022) \<le> \<bar>?x\<bar> \<or> ?x = 0"
  proof (cases "r = 0")
    case False
    then have "1 / 4294967296 * 1 \<le> ?x" using assms(4) n1 assms(1) by (intro mult_mono) auto
    moreover have "(2 :: rat) powi (-1022) \<le> 2 powi (-32)" by (rule power_int_increasing) simp_all
    moreover have "(2 :: rat) powi (-32) = 1 / 4294967296" by (simp add: power_int_def power_divide)
    ultimately show ?thesis using x0 by linarith
  qed simp
  then have "\<bar>round_double ?x - ?x\<bar> \<le> \<bar>?x\<bar> / 2 ^ 53" by (rule round_double_error)
  then have "round_double ?x - ?x \<le> ?x / 2 ^ 53" using x0 by (simp only: abs_of_nonneg)
  moreover have "?x * (1 + 1 / 2 ^ 53) = ?x + ?x / 2 ^ 53" by (simp add: distrib_left)
  ultimately have "round_double ?x \<le> ?x * (1 + 1 / 2 ^ 53)" by linarith
  also have "\<dots> \<le> (1 - 1 / 4294967296) * of_nat n * (1 + 1 / 2 ^ 53)"
    using assms(2) n1 by (intro mult_right_mono) auto
  also have "\<dots> = ((1 - 1 / 4294967296) * (1 + 1 / 2 ^ 53)) * of_nat n" by (simp only: mult_ac)
  also have "\<dots> < 1 * of_nat n" using n1 by (intro mult_strict_right_mono) simp_all
  finally have "round_double ?x < of_nat n" by simp
  then have "\<lfloor>round_double ?x\<rfloor> < int n" by (simp add: floor_less_iff)
  then show ?thesis using assms(3) by linarith
qed

lemma mset_swap:
  assumes "i < length xs" and "j < length xs"
  shows "mset (swap i j xs) = mset xs" and "length (swap i j xs) = length xs"
  using assms by (simp_all add: swap_def mset_swap)

lemma shuffle_from_mset: "n < length xs \<or> xs = [] \<and> n = 0 \<Longrightarrow> mset (fst (shuffle_from n xs s)) = mset xs"
proof (induction n arbitrary: xs s)
  case (Suc n)
  obtain r s' where r: "sp_next s = (r, s')" by fastforce
  let ?j = "nat \<lfloor>round_double (r * of_nat (Suc (Suc n)))\<rfloor>"
  have j: "?j < Suc (Suc n)"
    using sp_next_range [of s] sp_next_grain [of s] r by (intro draw_in_range) simp_all
  have "Suc n < length xs" using Suc.prems by auto
  then have sw: "mset (swap (Suc n) ?j xs) = mset xs" "length (swap (Suc n) ?j xs) = length xs"
    using j mset_swap [of "Suc n" xs ?j] by simp_all
  show ?case using Suc.IH [of "swap (Suc n) ?j xs" s'] sw \<open>Suc n < length xs\<close> r by (simp add: Let_def)
qed simp

lemma sp_shuffle_mset: "mset (fst (sp_shuffle xs s)) = mset xs"
  unfolding sp_shuffle_def by (rule shuffle_from_mset) (cases xs, simp_all)

subsection \<open>One event\<close>

lemma execute_event_frame:
  assumes "execute_event ev e = (st, e')"
  shows "\<exists>v err. re_trace e' = re_trace e @
      [\<lparr>tr_stepIndex = length (re_trace e), tr_eventId = se_id ev, tr_clientId = se_clientId ev,
        tr_action = se_action ev, tr_status = st, tr_resultingVersion = v, tr_error = err\<rparr>]"
    and "re_resource e' = (if st = SUCCESS then apply_event ev (re_resource e) else re_resource e)"
    and "re_cache e' = (if st = SUCCESS \<and> truthy (se_idempotencyKey ev)
      then mset_kv (the (se_idempotencyKey ev)) (sr_version (re_resource e')) (re_cache e) else re_cache e)"
    and "re_prng e' = re_prng e"
  using assms
  by (auto simp: execute_event_def push_step_def Let_def split: if_splits option.splits)

lemma execute_event_status:
  "st = fst (execute_event ev e) \<Longrightarrow>
     (st = SUCCESS \<longrightarrow> \<not> se_shouldFailNetwork ev \<and> se_role ev \<noteq> S_UNAUTHORIZED \<and>
        (truthy (se_idempotencyKey ev) \<longrightarrow> mget (re_cache e) (the (se_idempotencyKey ev)) = None) \<and>
        (\<forall>x. se_expectedVersion ev = Some x \<longrightarrow> x = Num (of_int (sr_version (re_resource e)))))"
  by (auto simp: execute_event_def Let_def split: if_splits option.splits)

lemma execute_event_cong:
  assumes "re_resource e = re_resource f" and "re_cache e = re_cache f"
  shows "fst (execute_event ev e) = fst (execute_event ev f)"
  using assms by (auto simp: execute_event_def Let_def split: option.splits)

lemma apply_event_version [simp]: "sr_version (apply_event ev r) = sr_version r + 1"
  by (simp add: apply_event_def Let_def)

subsection \<open>A batch\<close>

abbreviation count_steps :: "step_status \<Rightarrow> trace_step list \<Rightarrow> nat" where
  "count_steps st steps \<equiv> length (filter (\<lambda>t. tr_status t = st) steps)"

definition key_writes :: "string \<Rightarrow> sim_event list \<Rightarrow> trace_step list \<Rightarrow> nat" where
  "key_writes k evs steps =
     length (filter (\<lambda>(ev, t). se_idempotencyKey ev = Some k \<and> tr_status t = SUCCESS) (zip evs steps))"

definition batch_ok :: "sim_event list \<Rightarrow> replay_engine \<Rightarrow> replay_engine \<Rightarrow> trace_step list \<Rightarrow> bool" where
  "batch_ok evs e e' steps \<longleftrightarrow>
     re_trace e' = re_trace e @ steps \<and> map tr_eventId steps = map se_id evs \<and>
     map tr_stepIndex steps = [length (re_trace e)..<length (re_trace e')] \<and>
     sr_version (re_resource e') = sr_version (re_resource e) + int (count_steps SUCCESS steps) \<and>
     (\<forall>k. k \<noteq> [] \<longrightarrow> key_writes k evs steps \<le> (if mhas (re_cache e) k then 0 else 1))"

lemma run_events_batch:
  "run_events evs e w c r = (res, e') \<Longrightarrow>
     \<exists>steps. batch_ok evs e e' steps \<and> br_finalState res = re_resource e' \<and> br_trace res = re_trace e' \<and>
       br_successfulWrites res = w + count_steps SUCCESS steps \<and> br_conflicts res = c + count_steps CONFLICT steps \<and>
       br_retriesHandled res = r + count_steps IDEMPOTENT_HIT steps"
proof (induction evs arbitrary: e w c r)
  case Nil
  then show ?case by (auto simp: batch_ok_def key_writes_def)
next
  case (Cons ev evs)
  obtain st e1 where ex: "execute_event ev e = (st, e1)" by fastforce
  obtain v err where tr: "re_trace e1 = re_trace e @
      [\<lparr>tr_stepIndex = length (re_trace e), tr_eventId = se_id ev, tr_clientId = se_clientId ev,
        tr_action = se_action ev, tr_status = st, tr_resultingVersion = v, tr_error = err\<rparr>]" (is "_ = _ @ [?t]")
    using execute_event_frame(1) [OF ex] by blast
  obtain steps where steps: "batch_ok evs e1 e' steps" "br_finalState res = re_resource e'" "br_trace res = re_trace e'"
      "br_successfulWrites res = (if st = SUCCESS then Suc w else w) + count_steps SUCCESS steps"
      "br_conflicts res = (if st = CONFLICT then Suc c else c) + count_steps CONFLICT steps"
      "br_retriesHandled res = (if st = IDEMPOTENT_HIT then Suc r else r) + count_steps IDEMPOTENT_HIT steps"
    using Cons.IH Cons.prems ex by fastforce
  have keys: "key_writes k (ev # evs) (?t # steps) \<le> (if mhas (re_cache e) k then 0 else 1)" if "k \<noteq> []" for k
  proof -
    have le: "key_writes k evs steps \<le> (if mhas (re_cache e1) k then 0 else 1)"
      using steps(1) that by (simp add: batch_ok_def)
    show ?thesis
    proof (cases "st = SUCCESS \<and> se_idempotencyKey ev = Some k")
      case True
      then have "mhas (re_cache e1) k" "\<not> mhas (re_cache e) k"
        using execute_event_frame(3) [OF ex] execute_event_status [of st ev e] ex that by auto
      then show ?thesis using le True by (simp add: key_writes_def)
    next
      case False
      then have "mhas (re_cache e1) k = mhas (re_cache e) k"
        using execute_event_frame(3) [OF ex] by (auto simp: truthy_iff)
      then show ?thesis using le False by (auto simp: key_writes_def)
    qed
  qed
  have parts: "re_trace e' = re_trace e @ ?t # steps" "map tr_eventId steps = map se_id evs"
      "map tr_stepIndex steps = [Suc (length (re_trace e))..<length (re_trace e')]"
      "sr_version (re_resource e') = sr_version (re_resource e1) + int (count_steps SUCCESS steps)"
    using steps(1) tr by (simp_all add: batch_ok_def)
  have "map tr_stepIndex (?t # steps) = [length (re_trace e)..<length (re_trace e')]"
    using parts(1,3) upt_conv_Cons [of "length (re_trace e)" "length (re_trace e')"] by simp
  then have "batch_ok (ev # evs) e e' (?t # steps)"
    using parts keys execute_event_frame(2) [OF ex] by (auto simp: batch_ok_def)
  then show ?case using steps by (intro exI [of _ "?t # steps"]) auto
qed

text \<open>Events that cannot have an effect, by their role or because the network drops them.\<close>

definition effective :: "sim_event \<Rightarrow> bool" where
  "effective ev \<longleftrightarrow> \<not> se_shouldFailNetwork ev \<and> se_role ev \<noteq> S_UNAUTHORIZED"

lemma run_events_effective:
  assumes "re_resource e = re_resource f" and "re_cache e = re_cache f"
  shows "br_finalState (fst (run_events evs e w c r)) = br_finalState (fst (run_events (filter effective evs) f w' c' r'))"
  using assms
proof (induction evs arbitrary: e f w c r w' c' r')
  case (Cons ev evs)
  obtain st e1 where ex: "execute_event ev e = (st, e1)" by fastforce
  obtain st' f1 where fx: "execute_event ev f = (st', f1)" by fastforce
  have st: "st' = st" using execute_event_cong [OF Cons.prems, of ev] ex fx by simp
  have same: "re_resource e1 = re_resource f1" "re_cache e1 = re_cache f1"
    using execute_event_frame(2,3) [OF ex] execute_event_frame(2,3) [OF fx] st Cons.prems by simp_all
  show ?case
  proof (cases "effective ev")
    case True
    then show ?thesis using Cons.IH [OF same] ex fx by (simp add: Let_def)
  next
    case False
    then have "st \<noteq> SUCCESS" using execute_event_status [of st ev e] ex by (auto simp: effective_def)
    then have "re_resource e1 = re_resource f" "re_cache e1 = re_cache f"
      using execute_event_frame(2,3) [OF ex] Cons.prems by simp_all
    then show ?thesis using Cons.IH [of e1 f] False ex by (simp add: Let_def)
  qed
qed simp

subsection \<open>Properties\<close>

lemma nextInt_range:
  assumes "lo \<le> hi" and "\<bar>lo\<bar> \<le> 2 ^ 51" and "\<bar>hi\<bar> \<le> 2 ^ 51"
  shows "\<exists>n. fst (sp_nextInt (of_int lo) (of_int hi) s) = of_int n \<and> lo \<le> n \<and> n \<le> hi"
proof -
  obtain r s' where r: "sp_next s = (r, s')" by fastforce
  let ?w = "hi - lo + 1"
  have w: "round_double (round_double (of_int hi - of_int lo) + 1) = of_nat (nat ?w)"
    using assms round_double_int [of "hi - lo"] round_double_int [of ?w] by simp
  define j where "j = \<lfloor>round_double (r * of_nat (nat ?w))\<rfloor>"
  have "nat j < nat ?w"
    unfolding j_def using sp_next_range [of s] sp_next_grain [of s] r assms(1) by (intro draw_in_range) simp_all
  then have hi: "j \<le> hi - lo" using assms(1) by linarith
  have "0 \<le> round_double (r * of_nat (nat ?w))"
    using sp_next_range(1) [of s] r by (intro round_double_nonneg) simp
  then have lo: "0 \<le> j" by (simp add: j_def)
  have "\<bar>j + lo\<bar> \<le> 2 ^ 51" using hi lo assms by linarith
  then have "round_double (of_int (j + lo)) = of_int (j + lo)" by (intro round_double_int) simp
  moreover have "fst (sp_nextInt (of_int lo) (of_int hi) s) = round_double (of_int (j + lo))"
    unfolding sp_nextInt_def r Let_def prod.case fst_conv w j_def by simp
  ultimately show ?thesis using hi lo by (intro exI [of _ "j + lo"]) linarith
qed

text \<open>
  The generator and the schedule: every draw lies in the unit interval, an integer drawn
  between two bounds lies between them, and a shuffle is a permutation of what it is given: no
  event of a batch is lost, repeated or read out of range.
\<close>
lemma schedule_is_permutation:
  "0 \<le> fst (sp_next s) \<and> fst (sp_next s) < 1 \<and> mset (fst (sp_shuffle xs s)) = mset xs \<and>
   (lo \<le> hi \<and> \<bar>lo\<bar> \<le> 2 ^ 51 \<and> \<bar>hi\<bar> \<le> 2 ^ 51 \<longrightarrow>
      (\<exists>n. fst (sp_nextInt (of_int lo) (of_int hi) s) = of_int n \<and> lo \<le> n \<and> n \<le> hi))"
proof (intro conjI impI)
  show "fst (sp_next s) < 1" using sp_next_range(2) [of s] by linarith
  show "\<exists>n. fst (sp_nextInt (of_int lo) (of_int hi) s) = of_int n \<and> lo \<le> n \<and> n \<le> hi"
    if "lo \<le> hi \<and> \<bar>lo\<bar> \<le> 2 ^ 51 \<and> \<bar>hi\<bar> \<le> 2 ^ 51"
    using nextInt_range that by blast
qed (rule sp_next_range(1), rule sp_shuffle_mset)

text \<open>A die thrown with seed 7.\<close>
lemma schedule_is_permutation_witness:
  "\<exists>n. fst (sp_nextInt (of_int 1) (of_int 6) 7) = of_int n \<and> 1 \<le> n \<and> n \<le> 6"
  using schedule_is_permutation [of 7 "[] :: nat list" 1 6] by simp

text \<open>
  A batch: the events run in some order, each leaves one step in the journal, the reported
  counts are those of the journal, the version of the resource grew by the number of writes, an
  idempotency key is applied at most once and never when it was applied before, and the final
  state is the one the authorised events that reached the server produce by themselves.
\<close>
lemma replay_batch_sound:
  assumes "executeConcurrentBatch evs e = (res, e')"
  shows "\<exists>scheduled steps. mset scheduled = mset evs \<and>
     re_trace e' = re_trace e @ steps \<and> map tr_eventId steps = map se_id scheduled \<and>
     br_successfulWrites res = count_steps SUCCESS steps \<and> br_conflicts res = count_steps CONFLICT steps \<and>
     br_retriesHandled res = count_steps IDEMPOTENT_HIT steps \<and>
     sr_version (br_finalState res) = sr_version (re_resource e) + int (br_successfulWrites res) \<and>
     (\<forall>k. k \<noteq> [] \<longrightarrow> key_writes k scheduled steps \<le> (if mhas (re_cache e) k then 0 else 1)) \<and>
     br_finalState res = br_finalState (fst (run_events (filter effective scheduled) e 0 0 0))"
proof -
  obtain scheduled p where sh: "sp_shuffle evs (re_prng e) = (scheduled, p)" by fastforce
  have run: "run_events scheduled (e\<lparr>re_prng := p\<rparr>) 0 0 0 = (res, e')"
    using assms sh by (simp add: executeConcurrentBatch_def)
  have perm: "mset scheduled = mset evs" using sp_shuffle_mset [of evs "re_prng e"] sh by simp
  obtain steps where st: "batch_ok scheduled (e\<lparr>re_prng := p\<rparr>) e' steps" "br_finalState res = re_resource e'"
      "br_successfulWrites res = 0 + count_steps SUCCESS steps" "br_conflicts res = 0 + count_steps CONFLICT steps"
      "br_retriesHandled res = 0 + count_steps IDEMPOTENT_HIT steps"
    using run_events_batch [OF run] by blast
  have "br_finalState res = br_finalState (fst (run_events (filter effective scheduled) e 0 0 0))"
    using run_events_effective [of "e\<lparr>re_prng := p\<rparr>" e scheduled 0 0 0 0 0 0] run by simp
  then show ?thesis
    using st perm by (intro exI [of _ scheduled] exI [of _ steps]) (simp add: batch_ok_def)
qed

definition demo_resource :: sim_resource where
  "demo_resource = \<lparr>sr_id = ''i'', sr_version = 1, sr_status = SIM_PENDING, sr_fields = [], sr_settledAmount = Num 0\<rparr>"

definition demo_event :: "string \<Rightarrow> sim_action \<Rightarrow> string option \<Rightarrow> sim_event" where
  "demo_event i act k = \<lparr>se_id = i, se_clientId = ''c'', se_role = S_OWNER, se_action = act, se_field = None,
     se_value = VNumber (Num 5), se_expectedVersion = None, se_idempotencyKey = k, se_shouldFailNetwork = False\<rparr>"

text \<open>A payment retried with its key in the same batch is applied once.\<close>
lemma replay_batch_sound_witness:
  "\<exists>scheduled steps. mset scheduled = mset [demo_event ''a'' SETTLE_PAYMENT (Some ''k''), demo_event ''b'' SETTLE_PAYMENT (Some ''k'')] \<and>
     key_writes ''k'' scheduled steps \<le> 1 \<and> length steps = 2"
proof -
  let ?evs = "[demo_event ''a'' SETTLE_PAYMENT (Some ''k''), demo_event ''b'' SETTLE_PAYMENT (Some ''k'')]"
  let ?e = "ReplayEngine_new demo_resource None"
  obtain res e' where run: "executeConcurrentBatch ?evs ?e = (res, e')" by fastforce
  obtain scheduled steps where b: "mset scheduled = mset ?evs" "map tr_eventId steps = map se_id scheduled"
      "\<forall>k. k \<noteq> [] \<longrightarrow> key_writes k scheduled steps \<le> (if mhas (re_cache ?e) k then 0 else 1)"
    using replay_batch_sound [OF run] by blast
  have "length scheduled = 2" using b(1) size_mset [of scheduled] by simp
  moreover have "length steps = length scheduled" using b(2) by (metis length_map)
  moreover have "key_writes ''k'' scheduled steps \<le> 1" using spec [OF b(3), of "''k''"] by (simp split: if_splits)
  ultimately show ?thesis using b(1) by auto
qed

lemma shuffle_two:
  assumes "sp_next s = (r, s')"
  shows "fst (sp_shuffle [a, b] s) = (if round_double (r * 2) < 1 then [b, a] else [a, b])"
proof -
  let ?j = "nat \<lfloor>round_double (r * of_nat (Suc (Suc 0)))\<rfloor>"
  have j: "?j < 2"
    using sp_next_range [of s] sp_next_grain [of s] assms draw_in_range [of r 2] by (simp add: numeral_2_eq_2)
  have "?j = 0 \<longleftrightarrow> round_double (r * 2) < 1" by (simp add: floor_less_iff)
  then show ?thesis
    using j assms by (auto simp: sp_shuffle_def swap_def Let_def less_2_cases_iff)
qed

lemma run_pay_cancel:
  fixes p :: rat
  assumes "sp_next p = (x, p')" and "SeededPRNG_new seed = p"
  defines "res \<equiv> fst (executeConcurrentBatch [demo_event ''a'' SETTLE_PAYMENT None, demo_event ''b'' CANCEL_INVOICE None]
    (ReplayEngine_new demo_resource (Some seed)))"
  shows "br_successfulWrites res = 2" and "sr_status (br_finalState res) = (if round_double (x * 2) < 1 then SIM_PAID else SIM_CANCELLED)"
proof -
  let ?a = "demo_event ''a'' SETTLE_PAYMENT None" and ?b = "demo_event ''b'' CANCEL_INVOICE None"
  obtain z q where z: "sp_shuffle [?a, ?b] p = (z, q)" by (cases "sp_shuffle [?a, ?b] p")
  then have sh: "sp_shuffle [?a, ?b] p = ((if round_double (x * 2) < 1 then [?b, ?a] else [?a, ?b]), q)"
    using shuffle_two [OF assms(1), of ?a ?b] by (simp del: One_nat_def)
  have res: "res = fst (run_events (if round_double (x * 2) < 1 then [?b, ?a] else [?a, ?b])
      ((ReplayEngine_new demo_resource (Some seed))\<lparr>re_prng := q\<rparr>) 0 0 0)"
    using sh assms(2) by (simp add: res_def executeConcurrentBatch_def ReplayEngine_new_def)
  show "br_successfulWrites res = 2" "sr_status (br_finalState res) = (if round_double (x * 2) < 1 then SIM_PAID else SIM_CANCELLED)"
    unfolding res
    by (simp_all add: execute_event_def apply_event_def push_step_def demo_event_def ReplayEngine_new_def demo_resource_def Let_def)
qed

lemma demo_draws:
  "sp_next 0 = (1144304738 / 4294967296, 1831565813)" "sp_next 1 = (2693262067 / 4294967296, 1831565814)"
  using round_double_int [of 1831565813] round_double_int [of 1831565814]
  by (simp_all add: sp_next_def to_word32_def mulberry32_def)

lemma round_double_near:
  assumes "1 / 2 \<le> x" and "x \<le> 2"
  shows "x - 1 / 1000 \<le> round_double x" and "round_double x \<le> x + 1 / 1000"
proof -
  have "2 powi (-1022) \<le> \<bar>x\<bar> \<or> x = 0" using normal_small [of x] assms by auto
  then have "\<bar>round_double x - x\<bar> \<le> \<bar>x\<bar> / 2 ^ 53" by (rule round_double_error)
  also have "\<dots> \<le> 1 / 1000" using assms by simp
  finally show "x - 1 / 1000 \<le> round_double x" and "round_double x \<le> x + 1 / 1000" by linarith+
qed

text \<open>
  The final state depends on the interleaving: the same two authorised events on the same
  resource end PAID under one seed and CANCELLED under another, both counted as successful.
\<close>
lemma replay_order_matters:
  "\<exists>evs r seed1 seed2 res1 res2.
     executeConcurrentBatch evs (ReplayEngine_new r (Some seed1)) = res1 \<and>
     executeConcurrentBatch evs (ReplayEngine_new r (Some seed2)) = res2 \<and>
     br_successfulWrites (fst res1) = 2 \<and> br_successfulWrites (fst res2) = 2 \<and>
     sr_status (br_finalState (fst res1)) = SIM_PAID \<and> sr_status (br_finalState (fst res2)) = SIM_CANCELLED"
proof -
  let ?evs = "[demo_event ''a'' SETTLE_PAYMENT None, demo_event ''b'' CANCEL_INVOICE None]"
  have seeds: "SeededPRNG_new (Num 0) = 0" "SeededPRNG_new (Num 1) = 1"
    by (simp_all add: SeededPRNG_new_def to_word32_def)
  have "round_double (1144304738 / 4294967296 * 2) < 1" "\<not> round_double (2693262067 / 4294967296 * 2) < 1"
    using round_double_near [of "1144304738 / 4294967296 * 2"] round_double_near [of "2693262067 / 4294967296 * 2"]
    by simp_all
  then show ?thesis
    using run_pay_cancel [OF demo_draws(1) seeds(1)] run_pay_cancel [OF demo_draws(2) seeds(2)]
    by (intro exI [of _ ?evs] exI [of _ demo_resource] exI [of _ "Num 0"] exI [of _ "Num 1"]) simp
qed

end
