(* ===== verification/Stable_Cursor.thy ===== *)
theory Stable_Cursor
  imports Invoice_Model Base64url
begin

text \<open>
  Signed keyset pagination, \<open>backend/src/domain/stable-cursor.ts\<close>. The digests of the crypto
  library are arguments (\<open>crypto\<close>: the base64url text of SHA-256 and of HMAC-SHA-256), and so is
  the text of a number. Positions are whole milliseconds; their text is the decimal one, which
  is what the language prints below \<open>2 ^ 53\<close>. Strings are ASCII where they meet UTF-8. A string
  sort key comes with the time it parses to.
\<close>

subsection \<open>Types\<close>

datatype sort_key = SK_Date "int option" | SK_String string "int option" | SK_Number jsnum

record pageable =
  pg_id :: string
  pg_sortKey :: sort_key

record position =
  ps_ms :: int
  ps_id :: string

record crypto =
  cr_sha256 :: "string \<Rightarrow> string"
  cr_hmac :: "string \<Rightarrow> string \<Rightarrow> string"
  cr_num_text :: "jsnum \<Rightarrow> string"

text \<open>\<open>canView\<close> answers, or throws (\<open>None\<close>).\<close>

record 'row stable_options =
  so_cursor :: "string option"
  so_limit :: "jsnum option"
  so_maxLimit :: "int option"
  so_canView :: "'row \<Rightarrow> bool option"
  so_scope :: json
  so_secret :: string

record 'row stable_page =
  sp_items :: "'row list"
  sp_nextCursor :: "string option"
  sp_hasMore :: bool
  sp_limit :: int

datatype stable_cursor_error = Malformed | BadSignature | BadScope

subsection \<open>Order and texts\<close>

fun toMs :: "sort_key \<Rightarrow> int" where
  "toMs (SK_Date t) = (case t of Some n \<Rightarrow> n | None \<Rightarrow> 0)"
| "toMs (SK_String _ t) = (case t of Some n \<Rightarrow> n | None \<Rightarrow> 0)"
| "toMs (SK_Number (Num q)) = (if 0 \<le> q then \<lfloor>q\<rfloor> else \<lceil>q\<rceil>)"
| "toMs (SK_Number _) = 0"

definition compareStable :: "position \<Rightarrow> position \<Rightarrow> int" where
  "compareStable a b =
     (if ps_ms a \<noteq> ps_ms b then ps_ms b - ps_ms a
      else if str_lt (ps_id a) (ps_id b) then 1 else if str_lt (ps_id b) (ps_id a) then -1 else 0)"

definition hex_digit :: "nat \<Rightarrow> char" where
  "hex_digit n = ''0123456789abcdef'' ! n"

text \<open>\<open>JSON.stringify\<close> of a string.\<close>

definition json_char :: "char \<Rightarrow> string" where
  "json_char c =
     (let n = of_char c :: nat in
      if n = 34 then [CHR 0x5C, c] else if n = 92 then [CHR 0x5C, c]
      else if n = 8 then [CHR 0x5C, CHR ''b''] else if n = 9 then [CHR 0x5C, CHR ''t'']
      else if n = 10 then [CHR 0x5C, CHR ''n''] else if n = 12 then [CHR 0x5C, CHR ''f'']
      else if n = 13 then [CHR 0x5C, CHR ''r'']
      else if n < 32 then [CHR 0x5C, CHR ''u'', CHR ''0'', CHR ''0'', hex_digit (n div 16), hex_digit (n mod 16)]
      else [c])"

definition json_string :: "string \<Rightarrow> string" where
  "json_string s = CHR 0x22 # concat (map json_char s) @ [CHR 0x22]"

definition str_cmp :: "string \<Rightarrow> string \<Rightarrow> int" where
  "str_cmp a b = (if str_lt a b then -1 else if str_lt b a then 1 else 0)"

text \<open>
  A \<open>Date\<close> is an object without keys of its own. The members of an object are texts by the time
  they are sorted by key; keys are distinct, so the order is that of the keys.
\<close>

fun stableStringify :: "(jsnum \<Rightarrow> string) \<Rightarrow> json \<Rightarrow> string" where
  "stableStringify nt JNull = ''null''"
| "stableStringify nt (JBool b) = (if b then ''true'' else ''false'')"
| "stableStringify nt (JNum n) = (if is_finite n then nt n else ''null'')"
| "stableStringify nt (JStr s) = json_string s"
| "stableStringify nt (JDate _) = ''{}''"
| "stableStringify nt (JArr xs) = ''['' @ join '','' (map (stableStringify nt) xs) @ '']''"
| "stableStringify nt (JObj kvs) =
     ''{'' @ join '','' (map (\<lambda>(k, t). json_string k @ '':'' @ t)
        (sort_by (\<lambda>a b. str_cmp (fst a) (fst b)) (map (\<lambda>(k, v). (k, stableStringify nt v)) kvs))) @ ''}''"

definition scopeHash :: "crypto \<Rightarrow> json \<Rightarrow> string" where
  "scopeHash cr scope = take 22 (cr_sha256 cr (stableStringify (cr_num_text cr) scope))"

definition sign :: "crypto \<Rightarrow> string \<Rightarrow> string \<Rightarrow> string" where
  "sign cr secret body = take 32 (cr_hmac cr secret body)"

fun nat_text :: "nat \<Rightarrow> string" where
  "nat_text n = (if n < 10 then [char_of (48 + n)] else nat_text (n div 10) @ [char_of (48 + n mod 10)])"

definition int_text :: "int \<Rightarrow> string" where
  "int_text n = (if n < 0 then CHR ''-'' # nat_text (nat (- n)) else nat_text (nat n))"

subsection \<open>Cursors\<close>

definition cursor_body :: "string \<Rightarrow> string \<Rightarrow> string \<Rightarrow> string" where
  "cursor_body ms i scope = ms @ CHR ''|'' # i @ CHR ''|'' # scope"

definition encodeStableCursor :: "crypto \<Rightarrow> position \<Rightarrow> json \<Rightarrow> string \<Rightarrow> string" where
  "encodeStableCursor cr p scope secret =
     (let body = cursor_body (int_text (ps_ms p)) (ps_id p) (scopeHash cr scope)
      in base64url_encode (body @ CHR ''|'' # sign cr secret body))"

definition decodeStableCursor :: "crypto \<Rightarrow> string \<Rightarrow> json \<Rightarrow> string \<Rightarrow> (stable_cursor_error, position) result" where
  "decodeStableCursor cr cursor scope secret =
     (if cursor = [] \<or> length cursor > 512 \<or> \<not> BASE64URL_PATTERN cursor then Inl Malformed
      else case split_on CHR ''|'' (base64url_decode cursor) of
             [msRaw, i, scopePart, sig] \<Rightarrow>
               if msRaw = [] \<or> length msRaw > 16 \<or> \<not> list_all is_digit msRaw \<or>
                  digits_val msRaw > 2 ^ 53 - 1 \<or> i = [] then Inl Malformed
               else if sign cr secret (cursor_body msRaw i scopePart) \<noteq> sig then Inl BadSignature
               else if scopePart \<noteq> scopeHash cr scope then Inl BadScope
               else Inr \<lparr>ps_ms = int (digits_val msRaw), ps_id = i\<rparr>
           | _ \<Rightarrow> Inl Malformed)"

subsection \<open>Pages\<close>

definition row_pos :: "'a pageable_scheme \<Rightarrow> position" where
  "row_pos row = \<lparr>ps_ms = toMs (pg_sortKey row), ps_id = pg_id row\<rparr>"

text \<open>\<open>Math.min(Math.max(1, Math.floor(limit ?? 50) || 50), maxLimit)\<close>\<close>

definition page_limit :: "jsnum option \<Rightarrow> int option \<Rightarrow> int" where
  "page_limit limit maxLimit =
     (let top = (case maxLimit of Some m \<Rightarrow> m | None \<Rightarrow> 200)
      in case limit of
           None \<Rightarrow> min 50 top
         | Some (Num q) \<Rightarrow> min (max 1 (if \<lfloor>q\<rfloor> = 0 then 50 else \<lfloor>q\<rfloor>)) top
         | Some NaN \<Rightarrow> min 50 top
         | Some Infinity \<Rightarrow> top
         | Some NegInfinity \<Rightarrow> min 1 top)"

text \<open>\<open>xs.slice(0, n)\<close> counts from the end for a negative \<open>n\<close>.\<close>

definition slice_to :: "int \<Rightarrow> 'a list \<Rightarrow> 'a list" where
  "slice_to n xs = (if 0 \<le> n then take (nat n) xs else take (length xs - nat (- n)) xs)"

fun first_by_id :: "string list \<Rightarrow> 'a pageable_scheme list \<Rightarrow> 'a pageable_scheme list" where
  "first_by_id seen [] = []"
| "first_by_id seen (row # rows) =
     (if pg_id row \<in> set seen then first_by_id seen rows else row # first_by_id (pg_id row # seen) rows)"

definition visible_rows ::
  "'a pageable_scheme list \<Rightarrow> ('a pageable_scheme \<Rightarrow> bool option) \<Rightarrow> position option \<Rightarrow> 'a pageable_scheme list" where
  "visible_rows rows canView after =
     sort_by (\<lambda>a b. compareStable (row_pos a) (row_pos b))
       (filter (\<lambda>row. case after of None \<Rightarrow> True | Some p \<Rightarrow> compareStable p (row_pos row) < 0)
         (filter (\<lambda>row. canView row = Some True) rows))"

definition paginateStable ::
  "crypto \<Rightarrow> 'a pageable_scheme list \<Rightarrow> 'a pageable_scheme stable_options \<Rightarrow>
   (stable_cursor_error, 'a pageable_scheme stable_page) result" where
  "paginateStable cr rows opts =
     (let limit = page_limit (so_limit opts) (so_maxLimit opts)
      in rbind (if truthy (so_cursor opts)
                then rbind (decodeStableCursor cr (the (so_cursor opts)) (so_scope opts) (so_secret opts)) (\<lambda>p. Inr (Some p))
                else Inr None) (\<lambda>after.
         let unique = first_by_id [] (visible_rows rows (so_canView opts) after);
             page = slice_to limit unique;
             hasMore = (int (length unique) > limit)
         in Inr \<lparr>sp_items = page,
                 sp_nextCursor = (if hasMore \<and> page \<noteq> []
                                  then Some (encodeStableCursor cr (row_pos (last page)) (so_scope opts) (so_secret opts))
                                  else None),
                 sp_hasMore = hasMore, sp_limit = limit\<rparr>))"

definition column_name :: "string \<Rightarrow> bool" where
  "column_name s \<longleftrightarrow> s \<noteq> [] \<and> (is_alpha (hd s) \<or> hd s = CHR ''_'') \<and>
     list_all (\<lambda>c. is_alnum c \<or> c = CHR ''_'' \<or> c = CHR ''.'') (tl s)"

text \<open>\<open>None\<close>: the error \<open>Invalid column identifier\<close>.\<close>

definition keysetSqlPredicate :: "string \<Rightarrow> string \<Rightarrow> nat \<Rightarrow> string option" where
  "keysetSqlPredicate sortColumn idColumn firstParam =
     (if \<not> column_name sortColumn \<or> \<not> column_name idColumn then None
      else Some (''(date_trunc('' @ [CHR 0x27] @ ''milliseconds'' @ [CHR 0x27] @ '', '' @ sortColumn @ ''), '' @ idColumn @
        '') < (to_timestamp($'' @ nat_text firstParam @ ''::double precision / 1000), $'' @
        nat_text (firstParam + 1) @ '')''))"

end
