(* ===== verification/Stable_Paging.thy ===== *)
theory Stable_Paging
  imports Stable_Cursor
begin

text \<open>
  What signed keyset pagination promises: a cursor reads back as the position it was made for,
  the pages of a snapshot partition the rows the viewer may see, hidden rows leave no trace, and
  the scope text does not depend on the order of keys.
\<close>

declare nat_text.simps [simp del]

subsection \<open>Cursor texts\<close>

lemma of_char_digit: "n < 10 \<Longrightarrow> (of_char (char_of (48 + n) :: char) :: nat) = 48 + n"
  by (simp add: of_char_of)

lemma nat_text_digits: "list_all is_digit (nat_text n) \<and> nat_text n \<noteq> []"
proof (induction n rule: nat_text.induct)
  case (1 n)
  have d: "is_digit (char_of (48 + m))" if "m < 10" for m :: nat
    using that by (simp add: is_digit_def Let_def of_char_digit)
  show ?case using 1 d [of n] d [of "n mod 10"] by (cases "n < 10") (simp_all add: nat_text.simps [of n])
qed

lemma digits_val_snoc: "digits_val (s @ [c]) = digits_val s * 10 + digit_val c"
  by (simp add: digits_val_def)

lemma digits_val_nat_text: "digits_val (nat_text n) = n"
proof (induction n rule: nat_text.induct)
  case (1 n)
  have d: "digit_val (char_of (48 + m)) = m" if "m < 10" for m :: nat
    using that by (simp add: digit_val_def of_char_digit)
  show ?case
  proof (cases "n < 10")
    case True
    then show ?thesis using d [of n] digits_val_snoc [of "[]"] by (simp add: nat_text.simps [of n] digits_val_def)
  next
    case False
    then show ?thesis using 1 d [of "n mod 10"] by (simp add: nat_text.simps [of n] digits_val_snoc)
  qed
qed

lemma length_nat_text: "0 < w \<Longrightarrow> n < 10 ^ w \<Longrightarrow> length (nat_text n) \<le> w"
proof (induction w arbitrary: n)
  case (Suc w)
  show ?case
  proof (cases "n < 10")
    case False
    then have "0 < w" using Suc.prems(2) by (cases w) auto
    moreover have "n div 10 < 10 ^ w" using Suc.prems(2) by (simp add: div_less_iff_less_mult mult.commute)
    ultimately show ?thesis using Suc.IH [of "n div 10"] False by (simp add: nat_text.simps [of n])
  qed (simp add: nat_text.simps [of n])
qed simp

lemma digit_no_bar: "list_all is_digit s \<Longrightarrow> CHR ''|'' \<notin> set s"
  by (auto simp: list_all_iff is_digit_def Let_def)

definition bar_free :: "crypto \<Rightarrow> bool" where
  "bar_free cr \<longleftrightarrow> (\<forall>x. CHR ''|'' \<notin> set (cr_sha256 cr x)) \<and> (\<forall>k x. CHR ''|'' \<notin> set (cr_hmac cr k x))"

definition cursor_safe :: "position \<Rightarrow> bool" where
  "cursor_safe p \<longleftrightarrow> 0 \<le> ps_ms p \<and> ps_ms p \<le> 2 ^ 53 - 1 \<and> ps_id p \<noteq> [] \<and> CHR ''|'' \<notin> set (ps_id p) \<and> length (ps_id p) \<le> 300"

lemma stable_decode_encode:
  assumes "bar_free cr" and "cursor_safe p"
  shows "decodeStableCursor cr (encodeStableCursor cr p scope secret) scope secret = Inr p"
proof -
  define ms where "ms = nat_text (nat (ps_ms p))"
  define h where "h = scopeHash cr scope"
  define body where "body = cursor_body ms (ps_id p) h"
  define t where "t = body @ CHR ''|'' # sign cr secret body"
  have ms: "list_all is_digit ms" "ms \<noteq> []" "digits_val ms = nat (ps_ms p)"
    using nat_text_digits [of "nat (ps_ms p)"] digits_val_nat_text by (simp_all add: ms_def)
  have "nat (ps_ms p) < 10 ^ 16" using assms(2) by (simp add: cursor_safe_def nat_less_iff)
  then have len: "length ms \<le> 16" unfolding ms_def by (intro length_nat_text) simp_all
  have h: "CHR ''|'' \<notin> set h" "length h \<le> 22" using assms(1) in_set_takeD
    by (fastforce simp: h_def scopeHash_def bar_free_def)+
  have s: "CHR ''|'' \<notin> set (sign cr secret body)" "length (sign cr secret body) \<le> 32"
    using assms(1) in_set_takeD by (fastforce simp: sign_def bar_free_def)+
  have p: "ps_id p \<noteq> []" "CHR ''|'' \<notin> set (ps_id p)" "length (ps_id p) \<le> 300" "0 \<le> ps_ms p" "ps_ms p \<le> 2 ^ 53 - 1"
    using assms(2) by (simp_all add: cursor_safe_def)
  have enc: "encodeStableCursor cr p scope secret = base64url_encode t"
    using p(4) by (simp add: encodeStableCursor_def int_text_def ms_def h_def body_def t_def Let_def)
  have parts: "split_on CHR ''|'' t = [ms, ps_id p, h, sign cr secret body]"
    using digit_no_bar [OF ms(1)] p(2) h(1) s(1)
    by (simp add: t_def body_def cursor_body_def split_on_append split_on_none)
  have "length t \<le> 373" using len h(2) s(2) p(3) by (simp add: t_def body_def cursor_body_def)
  then have l: "length (base64url_encode t) \<le> 512" using length_base64url_encode [of t] by linarith
  have "t \<noteq> []" by (simp add: t_def)
  then have pat: "BASE64URL_PATTERN (base64url_encode t)" by (rule base64url_encode_pattern)
  have "digits_val ms \<le> 2 ^ 53 - 1" using ms(3) p(4,5) by (simp add: nat_le_iff)
  then show ?thesis
    unfolding enc using l pat parts ms len p
    by (auto simp: decodeStableCursor_def base64url_round_trip BASE64URL_PATTERN_def body_def h_def)
qed

subsection \<open>The order\<close>

lemma compareStable_le:
  "compareStable a b \<le> 0 \<longleftrightarrow> ps_ms b < ps_ms a \<or> ps_ms b = ps_ms a \<and> \<not> str_lt (ps_id a) (ps_id b)"
  by (auto simp: compareStable_def)

lemma compareStable_less:
  "compareStable a b < 0 \<longleftrightarrow> ps_ms b < ps_ms a \<or> ps_ms b = ps_ms a \<and> str_lt (ps_id b) (ps_id a)"
  by (auto simp: compareStable_def dest: str_lt_asym)

abbreviation row_cmp :: "'a pageable_scheme \<Rightarrow> 'a pageable_scheme \<Rightarrow> int" where
  "row_cmp a b \<equiv> compareStable (row_pos a) (row_pos b)"

interpretation stable: strict_comparator row_cmp
proof
  fix a b c :: "'a pageable_scheme"
  show "row_cmp a b \<le> 0 \<or> row_cmp b a \<le> 0"
    unfolding compareStable_le using str_lt_asym by (auto simp: not_less)
  show "row_cmp a b \<le> 0 \<Longrightarrow> row_cmp b c \<le> 0 \<Longrightarrow> row_cmp a c \<le> 0"
    unfolding compareStable_le by (auto dest: str_not_lt_trans)
  show "row_cmp a b < 0 \<longleftrightarrow> \<not> row_cmp b a \<le> 0"
    unfolding compareStable_le compareStable_less by auto
qed

subsection \<open>Pages\<close>

lemma first_by_id_distinct: "distinct (map pg_id rows) \<Longrightarrow> set (map pg_id rows) \<inter> set seen = {} \<Longrightarrow> first_by_id seen rows = rows"
  by (induction rows arbitrary: seen) auto

lemma set_first_by_id: "set (first_by_id seen rows) \<subseteq> set rows"
  by (induction rows arbitrary: seen) (simp, auto)

lemma first_by_id_ids: "pg_id ` set (first_by_id seen rows) = pg_id ` set rows - set seen"
  by (induction rows arbitrary: seen) auto

lemma distinct_first_by_id: "distinct (map pg_id (first_by_id seen rows))"
proof (induction rows arbitrary: seen)
  case (Cons row rows)
  then show ?case using first_by_id_ids [of "pg_id row # seen" rows] by simp
qed simp

lemma first_by_id_sorted: "sorted_wrt R rows \<Longrightarrow> sorted_wrt R (first_by_id seen rows)"
proof (induction rows arbitrary: seen)
  case (Cons row rows)
  then show ?case using set_first_by_id [of "pg_id row # seen" rows] by auto
qed simp

text \<open>Dropping duplicates and filtering commute when rows of one id are all kept or all filtered out.\<close>

lemma first_by_id_filter:
  assumes "\<And>a b. a \<in> set rows \<Longrightarrow> b \<in> set rows \<Longrightarrow> pg_id a = pg_id b \<Longrightarrow> P a = P b"
    and "\<And>a. a \<in> set rows \<Longrightarrow> P a \<Longrightarrow> pg_id a \<in> set seen \<longleftrightarrow> pg_id a \<in> set seen'"
  shows "first_by_id seen (filter P rows) = filter P (first_by_id seen' rows)"
  using assms
proof (induction rows arbitrary: seen seen')
  case (Cons row rows)
  have same: "\<And>a b. a \<in> set rows \<Longrightarrow> b \<in> set rows \<Longrightarrow> pg_id a = pg_id b \<Longrightarrow> P a = P b" using Cons.prems(1) by auto
  show ?case
  proof (cases "P row")
    case True
    then have "pg_id row \<in> set seen \<longleftrightarrow> pg_id row \<in> set seen'" using Cons.prems(2) [of row] by simp
    moreover have "first_by_id (pg_id row # seen) (filter P rows) = filter P (first_by_id (pg_id row # seen') rows)"
      by (rule Cons.IH [OF same]) (use Cons.prems(2) in simp_all)
    moreover have "first_by_id seen (filter P rows) = filter P (first_by_id seen' rows)"
      by (rule Cons.IH [OF same]) (use Cons.prems(2) in simp_all)
    ultimately show ?thesis using True by simp
  next
    case False
    have ne: "pg_id a \<noteq> pg_id row" if "a \<in> set rows" "P a" for a
      using Cons.prems(1) [of a row] that False by auto
    have "first_by_id seen (filter P rows) = filter P (first_by_id seen' rows)"
      by (rule Cons.IH [OF same]) (use Cons.prems(2) in simp_all)
    moreover have "first_by_id seen (filter P rows) = filter P (first_by_id (pg_id row # seen') rows)"
      by (rule Cons.IH [OF same]) (use Cons.prems(2) ne in simp_all)
    ultimately show ?thesis using False by simp
  qed
qed simp

lemma compareStable_0: "compareStable p q = 0 \<longleftrightarrow> p = q"
  by (cases p; cases q) (auto simp: compareStable_def dest: str_lt_total)

text \<open>All the rows of a snapshot the viewer may see, in order.\<close>

definition all_visible :: "'a pageable_scheme list \<Rightarrow> ('a pageable_scheme \<Rightarrow> bool option) \<Rightarrow> 'a pageable_scheme list" where
  "all_visible rows canView = sort_by row_cmp (filter (\<lambda>row. canView row = Some True) rows)"

definition after_pos :: "position option \<Rightarrow> 'a pageable_scheme \<Rightarrow> bool" where
  "after_pos p row = (case p of None \<Rightarrow> True | Some q \<Rightarrow> compareStable q (row_pos row) < 0)"

lemma visible_rows_filter: "visible_rows rows canView p = filter (after_pos p) (all_visible rows canView)"
  unfolding visible_rows_def all_visible_def after_pos_def [abs_def] by (rule stable.sort_by_filter)

text \<open>Rows that the viewer may see and that have the same id have the same position.\<close>

definition one_position :: "'a pageable_scheme list \<Rightarrow> ('a pageable_scheme \<Rightarrow> bool option) \<Rightarrow> bool" where
  "one_position rows canView \<longleftrightarrow>
     (\<forall>a\<in>set rows. \<forall>b\<in>set rows. canView a = Some True \<longrightarrow> canView b = Some True \<longrightarrow> pg_id a = pg_id b \<longrightarrow> row_pos a = row_pos b)"

text \<open>What a client should see: the visible rows in order, each id once.\<close>

definition listing :: "'a pageable_scheme list \<Rightarrow> ('a pageable_scheme \<Rightarrow> bool option) \<Rightarrow> 'a pageable_scheme list" where
  "listing rows canView = first_by_id [] (all_visible rows canView)"

lemma set_all_visible: "set (all_visible rows canView) = {row \<in> set rows. canView row = Some True}"
  by (auto simp: all_visible_def)

lemma set_listing: "set (listing rows canView) \<subseteq> {row \<in> set rows. canView row = Some True}"
  using set_first_by_id [of "[]" "all_visible rows canView"] by (simp add: listing_def set_all_visible)

lemma listing_strict: "sorted_wrt (\<lambda>a b. row_cmp a b < 0) (listing rows canView)"
proof -
  have "sorted_wrt (\<lambda>a b. row_cmp a b \<le> 0) (listing rows canView)"
    unfolding listing_def all_visible_def by (rule first_by_id_sorted [OF stable.sorted_sort_by])
  moreover have "sorted_wrt (\<lambda>a b. pg_id a \<noteq> pg_id b) (listing rows canView)"
    using distinct_first_by_id [of "[]" "all_visible rows canView"] by (simp add: listing_def distinct_conv_nth sorted_wrt_iff_nth_less)
  ultimately have "sorted_wrt (\<lambda>a b. row_cmp a b \<le> 0 \<and> pg_id a \<noteq> pg_id b) (listing rows canView)"
    by (simp add: sorted_wrt_iff_nth_less)
  then show ?thesis
  proof (rule sorted_wrt_mono_rel [rotated])
    fix a b :: "'a pageable_scheme"
    assume "row_cmp a b \<le> 0 \<and> pg_id a \<noteq> pg_id b"
    moreover from this have "row_cmp a b \<noteq> 0" by (auto simp: compareStable_0 row_pos_def)
    ultimately show "row_cmp a b < 0" by simp
  qed
qed

lemma listing_after:
  assumes "one_position rows canView"
  shows "first_by_id [] (visible_rows rows canView p) = filter (after_pos p) (listing rows canView)"
  unfolding visible_rows_filter listing_def
proof (rule first_by_id_filter)
  fix a b
  assume "a \<in> set (all_visible rows canView)" "b \<in> set (all_visible rows canView)" "pg_id a = pg_id b"
  then have "row_pos a = row_pos b" using assms by (auto simp: one_position_def set_all_visible)
  then show "after_pos p a = after_pos p b" by (cases p) (simp_all add: after_pos_def)
qed simp

lemma unique_after:
  assumes "one_position rows canView" and "i < length (listing rows canView)"
  shows "first_by_id [] (visible_rows rows canView (Some (row_pos (listing rows canView ! i)))) = drop (Suc i) (listing rows canView)"
  unfolding listing_after [OF assms(1)] after_pos_def option.case
  by (rule stable.filter_after [OF listing_strict assms(2)])

text \<open>The page that starts at offset \<open>k\<close> of the visible rows.\<close>

definition page_at :: "crypto \<Rightarrow> 'a pageable_scheme list \<Rightarrow> 'a pageable_scheme stable_options \<Rightarrow> nat \<Rightarrow> 'a pageable_scheme stable_page" where
  "page_at cr ys opts k =
     (let n = nat (page_limit (so_limit opts) (so_maxLimit opts)) in
      \<lparr>sp_items = take n (drop k ys),
       sp_nextCursor = (if k + n < length ys
          then Some (encodeStableCursor cr (row_pos (ys ! (k + n - 1))) (so_scope opts) (so_secret opts)) else None),
       sp_hasMore = (k + n < length ys), sp_limit = page_limit (so_limit opts) (so_maxLimit opts)\<rparr>)"

lemma paginate_at:
  assumes "one_position rows (so_canView opts)" and "0 < page_limit (so_limit opts) (so_maxLimit opts)"
    and "k \<le> length (listing rows (so_canView opts))"
    and "k = 0 \<and> \<not> truthy (so_cursor opts) \<or>
         0 < k \<and> truthy (so_cursor opts) \<and>
         decodeStableCursor cr (the (so_cursor opts)) (so_scope opts) (so_secret opts) =
           Inr (row_pos (listing rows (so_canView opts) ! (k - 1)))"
  shows "paginateStable cr rows opts = Inr (page_at cr (listing rows (so_canView opts)) opts k)"
proof -
  let ?ys = "listing rows (so_canView opts)" and ?limit = "page_limit (so_limit opts) (so_maxLimit opts)"
  let ?after = "if k = 0 then None else Some (row_pos (?ys ! (k - 1)))"
  define n where "n = nat ?limit"
  have n: "0 < n" "?limit = int n" using assms(2) by (simp_all add: n_def)
  have uniq: "first_by_id [] (visible_rows rows (so_canView opts) ?after) = drop k ?ys"
  proof (cases "k = 0")
    case True
    then show ?thesis by (simp add: listing_after [OF assms(1)] after_pos_def)
  next
    case False
    then show ?thesis using unique_after [OF assms(1), of "k - 1"] assms(3) by simp
  qed
  have cur: "(if truthy (so_cursor opts)
      then rbind (decodeStableCursor cr (the (so_cursor opts)) (so_scope opts) (so_secret opts)) (\<lambda>p. Inr (Some p))
      else Inr None) = Inr ?after"
    using assms(4) by auto
  have page: "slice_to ?limit (drop k ?ys) = take n (drop k ?ys)" using n by (simp add: slice_to_def)
  have more: "int (length (drop k ?ys)) > ?limit \<longleftrightarrow> k + n < length ?ys" using n assms(3) by auto
  have lst: "last (take n (drop k ?ys)) = ?ys ! (k + n - 1)" if "k + n < length ?ys"
    using that n by (simp add: last_conv_nth)
  have ne: "take n (drop k ?ys) \<noteq> []" if "k + n < length ?ys" using that n by simp
  show ?thesis
    unfolding paginateStable_def Let_def cur rbind_simps uniq page more page_at_def n_def [symmetric]
    using lst ne by simp
qed

text \<open>A client that follows the cursors, for at most \<open>n\<close> pages.\<close>

fun follow :: "crypto \<Rightarrow> 'a pageable_scheme list \<Rightarrow> 'a pageable_scheme stable_options \<Rightarrow> nat \<Rightarrow> 'a pageable_scheme list" where
  "follow cr rows opts 0 = []"
| "follow cr rows opts (Suc n) =
     (case paginateStable cr rows opts of
        Inl _ \<Rightarrow> []
      | Inr pg \<Rightarrow> sp_items pg @
          (case sp_nextCursor pg of None \<Rightarrow> [] | Some c \<Rightarrow> follow cr rows (opts\<lparr>so_cursor := Some c\<rparr>) n))"

lemma encode_not_Nil: "encodeStableCursor cr p scope secret \<noteq> []"
proof -
  have "body @ CHR ''|'' # x \<noteq> []" for body x by simp
  then have "BASE64URL_PATTERN (encodeStableCursor cr p scope secret)"
    unfolding encodeStableCursor_def Let_def by (rule base64url_encode_pattern)
  then show ?thesis by (simp add: BASE64URL_PATTERN_def)
qed

lemma follow_at:
  assumes "bar_free cr" and "0 < page_limit (so_limit opts) (so_maxLimit opts)"
    and "\<And>row. row \<in> set rows \<Longrightarrow> so_canView opts row = Some True \<Longrightarrow> cursor_safe (row_pos row)"
    and "one_position rows (so_canView opts)" and "k \<le> length (listing rows (so_canView opts))"
    and "k = 0 \<and> \<not> truthy (so_cursor opts) \<or>
         0 < k \<and> truthy (so_cursor opts) \<and>
         decodeStableCursor cr (the (so_cursor opts)) (so_scope opts) (so_secret opts) =
           Inr (row_pos (listing rows (so_canView opts) ! (k - 1)))"
  shows "follow cr rows opts n =
    take (n * nat (page_limit (so_limit opts) (so_maxLimit opts))) (drop k (listing rows (so_canView opts)))"
  using assms(2-6)
proof (induction n arbitrary: k opts)
  case (Suc n)
  let ?ys = "listing rows (so_canView opts)"
  define l where "l = nat (page_limit (so_limit opts) (so_maxLimit opts))"
  have l: "0 < l" using Suc.prems(1) by (simp add: l_def)
  have pg: "paginateStable cr rows opts = Inr (page_at cr ?ys opts k)"
    by (rule paginate_at [OF Suc.prems(3,1,4,5)])
  show ?case
  proof (cases "k + l < length ?ys")
    case False
    then show ?thesis using pg by (simp add: page_at_def Let_def l_def [symmetric])
  next
    case True
    let ?p = "row_pos (?ys ! (k + l - 1))"
    let ?c = "encodeStableCursor cr ?p (so_scope opts) (so_secret opts)"
    have "?ys ! (k + l - 1) \<in> set ?ys" using True by simp
    then have "cursor_safe ?p" using Suc.prems(2) set_listing by blast
    then have dec: "decodeStableCursor cr ?c (so_scope opts) (so_secret opts) = Inr ?p"
      by (rule stable_decode_encode [OF assms(1)])
    have ih: "follow cr rows (opts\<lparr>so_cursor := Some ?c\<rparr>) n = take (n * l) (drop (k + l) ?ys)"
      using Suc.IH [of "opts\<lparr>so_cursor := Some ?c\<rparr>" "k + l"] Suc.prems(1-3) True dec l encode_not_Nil
      by (simp add: l_def)
    have "take (l + n * l) (drop k ?ys) = take l (drop k ?ys) @ take (n * l) (drop (k + l) ?ys)"
      by (simp add: take_add add.commute)
    then show ?thesis using pg ih True by (simp add: page_at_def Let_def l_def [symmetric])
  qed
qed simp

text \<open>
  C32: the pages of a snapshot partition what the viewer may see. Starting without a cursor and
  following the cursors, \<open>n\<close> pages give the first \<open>n * limit\<close> rows of one listing, and as many pages as there
  are rows give all of it: visible rows only, in strictly descending order of time and id, one row for each id
  that occurs among the visible rows, however often it occurs; every visible row, if their ids are
  distinct. This holds when the positions of the visible rows fit into a cursor (a time from 1970 up to
  \<open>2^53 - 1\<close> milliseconds, a non-empty id of at most 300 characters without a vertical bar), when visible rows with the same
  id have the same time, when the limit is positive, and when digests contain no vertical bar.
\<close>
theorem stable_pages_partition:
  assumes "bar_free cr" and "one_position rows (so_canView opts)" and "0 < page_limit (so_limit opts) (so_maxLimit opts)"
    and "so_cursor opts = None"
    and "\<And>row. row \<in> set rows \<Longrightarrow> so_canView opts row = Some True \<Longrightarrow> cursor_safe (row_pos row)"
  shows "\<exists>ys. (\<forall>n. follow cr rows opts n = take (n * nat (page_limit (so_limit opts) (so_maxLimit opts))) ys) \<and>
    follow cr rows opts (length rows) = ys \<and>
    set ys \<subseteq> {row \<in> set rows. so_canView opts row = Some True} \<and>
    sorted_wrt (\<lambda>a b. compareStable (row_pos a) (row_pos b) < 0) ys \<and>
    distinct (map pg_id ys) \<and> pg_id ` set ys = pg_id ` {row \<in> set rows. so_canView opts row = Some True} \<and>
    (distinct (map pg_id (filter (\<lambda>row. so_canView opts row = Some True) rows)) \<longrightarrow>
      mset ys = mset (filter (\<lambda>row. so_canView opts row = Some True) rows))"
proof -
  let ?ys = "listing rows (so_canView opts)" and ?l = "nat (page_limit (so_limit opts) (so_maxLimit opts))"
  let ?vis = "filter (\<lambda>row. so_canView opts row = Some True) rows"
  have f: "follow cr rows opts m = take (m * ?l) ?ys" for m
    using follow_at [OF assms(1,3,5,2), of 0] assms(4) by simp
  note ids = first_by_id_ids [of "[]" "all_visible rows (so_canView opts)", folded listing_def]
    distinct_first_by_id [of "[]" "all_visible rows (so_canView opts)", folded listing_def]
  have "length ?ys = length (map pg_id ?ys)" by simp
  also have "\<dots> = card (pg_id ` set (all_visible rows (so_canView opts)))"
    using distinct_card [OF ids(2)] ids(1) by simp
  also have "\<dots> \<le> card (set rows)" unfolding set_all_visible by (rule surj_card_le [where f = pg_id]) auto
  also have "\<dots> \<le> length rows" by (rule card_length)
  finally have "length ?ys \<le> length rows" .
  moreover have "length rows * 1 \<le> length rows * ?l" using assms(3) by (intro mult_le_mono2) linarith
  ultimately have all: "take (length rows * ?l) ?ys = ?ys" by (intro take_all) linarith
  have "mset ?ys = mset ?vis" if "distinct (map pg_id ?vis)"
  proof -
    have "mset (map pg_id (all_visible rows (so_canView opts))) = mset (map pg_id ?vis)" by (simp add: all_visible_def)
    then have "distinct (map pg_id (all_visible rows (so_canView opts)))" using that mset_eq_imp_distinct_iff by blast
    from first_by_id_distinct [OF this, of "[]"] show ?thesis by (simp add: listing_def all_visible_def)
  qed
  then show ?thesis
    using f all set_listing [of rows "so_canView opts"] listing_strict ids by (intro exI [of _ ?ys]) (simp add: set_all_visible)
qed

text \<open>A crypto library for examples: digests that keep the first letters of their input.\<close>

definition demo_crypto :: crypto where
  "demo_crypto = \<lparr>cr_sha256 = (\<lambda>x. ''h''), cr_hmac = (\<lambda>k x. ''s''), cr_num_text = (\<lambda>n. ''0'')\<rparr>"

definition demo_row :: "nat \<Rightarrow> string \<Rightarrow> pageable" where
  "demo_row n i = \<lparr>pg_id = i, pg_sortKey = SK_Number (Num (of_nat n))\<rparr>"

definition demo_page_options :: "pageable stable_options" where
  "demo_page_options = \<lparr>so_cursor = None, so_limit = Some (Num 1), so_maxLimit = None,
     so_canView = (\<lambda>row. Some (pg_id row \<noteq> ''x'')), so_scope = JNull, so_secret = ''k''\<rparr>"

lemma demo_bar_free: "bar_free demo_crypto"
  by (simp add: bar_free_def demo_crypto_def)

text \<open>Witness of C32: four rows, one hidden and one a duplicate, a page of one row at a time.\<close>
theorem stable_pages_partition_witness:
  "pg_id ` set (follow demo_crypto [demo_row 5 ''a'', demo_row 7 ''x'', demo_row 9 ''b'', demo_row 5 ''a''] demo_page_options 4) =
     {''a'', ''b''} \<and>
   distinct (map pg_id (follow demo_crypto [demo_row 5 ''a'', demo_row 7 ''x'', demo_row 9 ''b'', demo_row 5 ''a''] demo_page_options 4))"
proof -
  let ?rows = "[demo_row 5 ''a'', demo_row 7 ''x'', demo_row 9 ''b'', demo_row 5 ''a'']"
  have one: "one_position ?rows (so_canView demo_page_options)" by (auto simp: one_position_def demo_row_def)
  have lim: "0 < page_limit (so_limit demo_page_options) (so_maxLimit demo_page_options)" "so_cursor demo_page_options = None"
    by (simp_all add: demo_page_options_def page_limit_def)
  have safe: "cursor_safe (row_pos row)" if "row \<in> set ?rows" for row
    using that by (auto simp: cursor_safe_def row_pos_def demo_row_def)
  have "{row \<in> set ?rows. so_canView demo_page_options row = Some True} = {demo_row 5 ''a'', demo_row 9 ''b''}"
    by (auto simp: demo_page_options_def demo_row_def)
  then have ids: "pg_id ` {row \<in> set ?rows. so_canView demo_page_options row = Some True} = {''a'', ''b''}"
    by (simp add: demo_row_def)
  obtain ys where ys: "follow demo_crypto ?rows demo_page_options (length ?rows) = ys" "distinct (map pg_id ys)"
      "pg_id ` set ys = pg_id ` {row \<in> set ?rows. so_canView demo_page_options row = Some True}"
    using stable_pages_partition [OF demo_bar_free one lim safe] by blast
  have four: "length ?rows = 4" by simp
  from ys show ?thesis unfolding ids four by (simp del: follow.simps)
qed

text \<open>
  Duplicates are dropped within a page only. A row that is listed twice with different times (as when a
  source still has its older version) is shown on two pages.
\<close>

lemma duplicate_on_two_pages:
  "map pg_id (follow demo_crypto [demo_row 9 ''a'', demo_row 7 ''b'', demo_row 5 ''a''] demo_page_options 3) = [''a'', ''b'', ''a'']"
proof -
  have dec: "decodeStableCursor demo_crypto (encodeStableCursor demo_crypto (row_pos (demo_row n i)) JNull ''k'') JNull ''k'' = Inr (row_pos (demo_row n i))"
    if "n < 10" "i \<in> {''a'', ''b''}" for n i
    by (rule stable_decode_encode [OF demo_bar_free]) (use that in \<open>auto simp: cursor_safe_def row_pos_def demo_row_def\<close>)
  have pos: "row_pos (demo_row n i) = \<lparr>ps_ms = int n, ps_id = i\<rparr>" "pg_id (demo_row n i) = i" for n i
    by (simp_all add: row_pos_def demo_row_def)
  show ?thesis
    using dec [of 9 "''a''", unfolded pos] dec [of 7 "''b''", unfolded pos] encode_not_Nil [of demo_crypto _ JNull "''k''"]
    by (simp add: numeral_3_eq_3 paginateStable_def demo_page_options_def page_limit_def visible_rows_def pos compareStable_def
        slice_to_def rbind_def Let_def)
qed

subsection \<open>Hidden rows\<close>

lemma set_slice_to: "set (slice_to n xs) \<subseteq> set xs"
  unfolding slice_to_def by (auto dest: in_set_takeD)

text \<open>
  C16: a page shows only rows the viewer may see now, and hidden rows leave no trace: the page,
  its cursor and whether there is more are the same as if they did not exist. A permission check
  that throws counts as a refusal.
\<close>
theorem hidden_rows_leave_no_trace:
  "paginateStable cr rows opts = paginateStable cr (filter (\<lambda>row. so_canView opts row = Some True) rows) opts \<and>
   (\<forall>pg row. paginateStable cr rows opts = Inr pg \<and> row \<in> set (sp_items pg) \<longrightarrow>
      row \<in> set rows \<and> so_canView opts row = Some True)"
proof (intro conjI allI impI)
  show "paginateStable cr rows opts = paginateStable cr (filter (\<lambda>row. so_canView opts row = Some True) rows) opts"
    by (simp add: paginateStable_def visible_rows_def)
next
  fix pg row
  assume a: "paginateStable cr rows opts = Inr pg \<and> row \<in> set (sp_items pg)"
  obtain p where "sp_items pg = slice_to (sp_limit pg) (first_by_id [] (visible_rows rows (so_canView opts) p))"
    using a by (auto simp: paginateStable_def Let_def rbind_Inr_iff split: if_splits)
  then have "row \<in> set (visible_rows rows (so_canView opts) p)"
    using a set_slice_to set_first_by_id by (metis subsetD)
  then show "row \<in> set rows" and "so_canView opts row = Some True" by (auto simp: visible_rows_def)
qed

text \<open>Witness of C16: the first page of the three rows does not show the hidden one.\<close>
theorem hidden_rows_leave_no_trace_witness:
  "paginateStable demo_crypto [demo_row 5 ''a'', demo_row 7 ''x''] demo_page_options =
   paginateStable demo_crypto [demo_row 5 ''a''] demo_page_options"
  using conjunct1 [OF hidden_rows_leave_no_trace [of demo_crypto "[demo_row 5 ''a'', demo_row 7 ''x'']" demo_page_options]]
  by (simp add: demo_page_options_def demo_row_def)

subsection \<open>Authenticity\<close>

text \<open>
  Cursors are authentic and read back: a cursor made for a position in range decodes, in the
  same scope and with the same secret, to that position; and whatever decodes carries, in front
  of its signature under this secret, the time and id it decodes to and the hash of this scope.
\<close>
lemma stable_cursor_authentic:
  assumes "bar_free cr" and "cursor_safe p"
  shows "decodeStableCursor cr (encodeStableCursor cr p scope secret) scope secret = Inr p \<and>
    (decodeStableCursor cr c scope secret = Inr q \<longrightarrow>
      (\<exists>ms. digits_val ms = nat (ps_ms q) \<and>
        base64url_decode c = cursor_body ms (ps_id q) (scopeHash cr scope) @ CHR ''|'' #
          sign cr secret (cursor_body ms (ps_id q) (scopeHash cr scope))))"
proof (intro conjI impI)
  show "decodeStableCursor cr (encodeStableCursor cr p scope secret) scope secret = Inr p"
    by (rule stable_decode_encode [OF assms])
next
  assume d: "decodeStableCursor cr c scope secret = Inr q"
  then obtain ms where sp: "split_on CHR ''|'' (base64url_decode c) =
      [ms, ps_id q, scopeHash cr scope, sign cr secret (cursor_body ms (ps_id q) (scopeHash cr scope))]"
    and v: "digits_val ms = nat (ps_ms q)"
    by (auto simp: decodeStableCursor_def split: if_splits list.splits)
  have "base64url_decode c = cursor_body ms (ps_id q) (scopeHash cr scope) @ CHR ''|'' #
      sign cr secret (cursor_body ms (ps_id q) (scopeHash cr scope))"
    using join_split [of "CHR ''|''" "base64url_decode c"] sp by (simp add: cursor_body_def)
  then show "\<exists>ms. digits_val ms = nat (ps_ms q) \<and>
      base64url_decode c = cursor_body ms (ps_id q) (scopeHash cr scope) @ CHR ''|'' #
        sign cr secret (cursor_body ms (ps_id q) (scopeHash cr scope))"
    using v by blast
qed

text \<open>The cursor of a row of 1970.\<close>
lemma stable_cursor_authentic_witness:
  "decodeStableCursor demo_crypto (encodeStableCursor demo_crypto \<lparr>ps_ms = 5, ps_id = ''a''\<rparr> JNull ''k'') JNull ''k'' =
   Inr \<lparr>ps_ms = 5, ps_id = ''a''\<rparr>"
  using stable_cursor_authentic [OF demo_bar_free, of "\<lparr>ps_ms = 5, ps_id = ''a''\<rparr>" JNull "''k''"]
  by (simp add: cursor_safe_def)

lemma length_split_on: "length (split_on c s) = Suc (count (mset s) c)"
proof (induction s)
  case (Cons x s)
  then show ?case by (cases "split_on c s") auto
qed simp

text \<open>
  Positions outside that range break paging: the cursor the code makes for a row dated
  before 1970, or whose id contains a vertical bar, is refused as malformed when it comes back.
\<close>
lemma unsafe_cursor_refused:
  assumes "bar_free cr" and "ps_ms p < 0 \<or> CHR ''|'' \<in> set (ps_id p)"
  shows "decodeStableCursor cr (encodeStableCursor cr p scope secret) scope secret = Inl Malformed"
proof -
  define ms where "ms = int_text (ps_ms p)"
  define h where "h = scopeHash cr scope"
  define body where "body = cursor_body ms (ps_id p) h"
  define t where "t = body @ CHR ''|'' # sign cr secret body"
  have enc: "encodeStableCursor cr p scope secret = base64url_encode t"
    by (simp add: encodeStableCursor_def ms_def h_def body_def t_def Let_def)
  have dec: "base64url_decode (base64url_encode t) = t" by (rule base64url_round_trip)
  have "\<not> (\<exists>m i sc sig. split_on CHR ''|'' t = [m, i, sc, sig] \<and> list_all is_digit m)"
  proof (cases "CHR ''|'' \<in> set (ps_id p)")
    case True
    then have "0 < count (mset (ps_id p)) CHR ''|''" by (simp add: count_greater_zero_iff)
    then have "4 < length (split_on CHR ''|'' t)" by (simp add: length_split_on t_def body_def cursor_body_def)
    then show ?thesis by auto
  next
    case False
    have neg: "ps_ms p < 0" using assms(2) False by simp
    have "CHR ''|'' \<notin> set ms"
      using neg digit_no_bar nat_text_digits by (simp add: ms_def int_text_def)
    then have "split_on CHR ''|'' t = ms # split_on CHR ''|'' (ps_id p @ CHR ''|'' # h @ CHR ''|'' # sign cr secret body)"
      by (simp add: t_def body_def cursor_body_def split_on_append)
    moreover have "\<not> list_all is_digit ms" using neg by (simp add: ms_def int_text_def is_digit_def)
    ultimately show ?thesis by auto
  qed
  then show ?thesis
    unfolding enc decodeStableCursor_def dec by (auto split: list.split)
qed

text \<open>The row of the last millisecond of 1969.\<close>
lemma unsafe_cursor_refused_witness:
  "decodeStableCursor demo_crypto (encodeStableCursor demo_crypto \<lparr>ps_ms = -1, ps_id = ''a''\<rparr> JNull ''k'') JNull ''k'' =
   Inl Malformed"
  by (rule unsafe_cursor_refused [OF demo_bar_free]) simp

subsection \<open>Scope texts\<close>

lemma str_cmp_le: "str_cmp a b \<le> 0 \<longleftrightarrow> \<not> str_lt b a"
  by (auto simp: str_cmp_def dest: str_lt_asym)

interpretation by_key: strict_comparator "\<lambda>(a :: string \<times> string) (b :: string \<times> string). str_cmp (fst a) (fst b)"
proof
  fix a b c :: "string \<times> string"
  show "str_cmp (fst a) (fst b) \<le> 0 \<or> str_cmp (fst b) (fst a) \<le> 0"
    unfolding str_cmp_le using str_lt_asym by blast
  show "str_cmp (fst a) (fst b) \<le> 0 \<Longrightarrow> str_cmp (fst b) (fst c) \<le> 0 \<Longrightarrow> str_cmp (fst a) (fst c) \<le> 0"
    unfolding str_cmp_le using str_not_lt_trans by blast
  show "str_cmp (fst a) (fst b) < 0 \<longleftrightarrow> \<not> str_cmp (fst b) (fst a) \<le> 0"
    by (auto simp: str_cmp_def dest: str_lt_asym)
qed

text \<open>The hash of a scope does not depend on the order in which its keys were set.\<close>

lemma scopeHash_key_order:
  assumes "distinct (map fst kvs)" and "mset kvs = mset kvs'"
  shows "scopeHash cr (JObj kvs) = scopeHash cr (JObj kvs')"
proof -
  let ?f = "\<lambda>(k, v). (k, stableStringify (cr_num_text cr) v)"
  have keys: "map fst (map ?f kvs) = map fst kvs" by (simp add: case_prod_unfold comp_def)
  have "sort_by (\<lambda>a b. str_cmp (fst a) (fst b)) (map ?f kvs) = sort_by (\<lambda>a b. str_cmp (fst a) (fst b)) (map ?f kvs')"
  proof (rule by_key.sort_by_perm)
    show "distinct (map ?f kvs)" using assms(1) keys by (metis distinct_map)
    show "mset (map ?f kvs) = mset (map ?f kvs')" using assms(2) by simp
    show "a = b" if "a \<in> set (map ?f kvs)" "b \<in> set (map ?f kvs)" "str_cmp (fst a) (fst b) = 0" for a b
    proof -
      have "fst a = fst b" using that(3) by (auto simp: str_cmp_def split: if_splits dest: str_lt_total)
      moreover have "inj_on fst (set (map ?f kvs))" using assms(1) keys by (metis distinct_map)
      ultimately show ?thesis using that(1,2) by (auto dest: inj_onD)
    qed
  qed
  then show ?thesis by (simp only: scopeHash_def stableStringify.simps)
qed

text \<open>A date in a scope is not part of its hash.\<close>

lemma scopeHash_ignores_dates: "scopeHash cr (JObj [(k, JDate a)]) = scopeHash cr (JObj [(k, JDate b)])"
  by (simp add: scopeHash_def)

end
