(* ===== verification/Capability_Tokens.thy ===== *)
theory Capability_Tokens
  imports Invoice_Model Base64url
begin

text \<open>
  Single-use capability tokens, \<open>backend/src/security/capability-tokens.ts\<close>. The crypto library's
  HMAC and the texts of JSON values are arguments (\<open>cap_env\<close>), and so are random ids and the
  readings of the clock. The asynchronous \<open>use\<close> is two steps, the synchronous one that verifies
  and reserves, and the one after the action that commits or releases, because other requests
  run in between. Times are whole milliseconds.
\<close>

subsection \<open>Actions, claims and errors\<close>

record action_spec =
  as_defaultTtlMs :: int
  as_maxTtlMs :: int

definition SENSITIVE_ACTIONS :: "(string \<times> action_spec) list" where
  "SENSITIVE_ACTIONS = [(''config.feature_flag.set'', \<lparr>as_defaultTtlMs = 5 * 60000, as_maxTtlMs = 15 * 60000\<rparr>)]"

definition actionSpec :: "json option \<Rightarrow> action_spec option" where
  "actionSpec act = (case act of Some (JStr a) \<Rightarrow> map_of SENSITIVE_ACTIONS a | _ \<Rightarrow> None)"

record capability_claims =
  cl_id :: string
  cl_action :: string
  cl_target :: string
  cl_subject :: string
  cl_iat :: int
  cl_exp :: int

record capability_scope =
  sc_action :: string
  sc_target :: string

datatype capability_error =
    CAPABILITY_REQUEST_INVALID | UNKNOWN_CAPABILITY_ACTION | CAPABILITY_REQUIRED | CAPABILITY_MALFORMED
  | CAPABILITY_INVALID | CAPABILITY_EXPIRED | CAPABILITY_SCOPE_MISMATCH | CAPABILITY_IN_USE
  | CAPABILITY_ALREADY_USED | CAPABILITY_LEDGER_FULL | CAPABILITY_REVOKED | CAPABILITY_SUBJECT_REVOKED

fun capability_HTTP_STATUS :: "capability_error \<Rightarrow> nat" where
  "capability_HTTP_STATUS CAPABILITY_REQUEST_INVALID = 400"
| "capability_HTTP_STATUS UNKNOWN_CAPABILITY_ACTION = 400"
| "capability_HTTP_STATUS CAPABILITY_REQUIRED = 401"
| "capability_HTTP_STATUS CAPABILITY_MALFORMED = 401"
| "capability_HTTP_STATUS CAPABILITY_INVALID = 401"
| "capability_HTTP_STATUS CAPABILITY_EXPIRED = 401"
| "capability_HTTP_STATUS CAPABILITY_SCOPE_MISMATCH = 403"
| "capability_HTTP_STATUS CAPABILITY_IN_USE = 409"
| "capability_HTTP_STATUS CAPABILITY_ALREADY_USED = 409"
| "capability_HTTP_STATUS CAPABILITY_LEDGER_FULL = 503"
| "capability_HTTP_STATUS CAPABILITY_REVOKED = 401"
| "capability_HTTP_STATUS CAPABILITY_SUBJECT_REVOKED = 401"

definition MIN_CAPABILITY_SECRET_LENGTH :: nat where "MIN_CAPABILITY_SECRET_LENGTH = 32"
definition PREFIX :: string where "PREFIX = ''qcap.v1''"
definition MAX_TOKEN_LENGTH :: nat where "MAX_TOKEN_LENGTH = 1024"
definition MAX_FIELD_LENGTH :: nat where "MAX_FIELD_LENGTH = 128"
definition MIN_TTL_MS :: int where "MIN_TTL_MS = 1000"
definition CLOCK_SKEW_MS :: int where "CLOCK_SKEW_MS = 30000"

record cap_env =
  ce_hmac :: "string \<Rightarrow> string \<Rightarrow> string"
  ce_stringify :: "json \<Rightarrow> string"
  ce_parse :: "string \<Rightarrow> json option"

subsection \<open>The service\<close>

datatype ledger_state = Reserved | Used

record capability_service =
  cs_secret :: string
  cs_capacity :: int
  cs_ledger :: "(string, ledger_state \<times> int) jsmap"
  cs_revokedIds :: "(string, int) jsmap"
  cs_revokedSubjects :: "(string, int \<times> int) jsmap"  \<comment> \<open>cutoff and end of the revocation\<close>

definition CapabilityTokenService_new :: "string \<Rightarrow> int option \<Rightarrow> capability_service option" where
  "CapabilityTokenService_new secret ledgerCapacity =
     (if secret = [] \<or> length secret < MIN_CAPABILITY_SECRET_LENGTH then None
      else Some \<lparr>cs_secret = secret, cs_capacity = (case ledgerCapacity of Some c \<Rightarrow> c | None \<Rightarrow> 10000),
        cs_ledger = [], cs_revokedIds = [], cs_revokedSubjects = []\<rparr>)"

definition capabilityServiceFromEnv :: "string option \<Rightarrow> capability_service option" where
  "capabilityServiceFromEnv secret =
     (if truthy secret \<and> length (the secret) \<ge> MIN_CAPABILITY_SECRET_LENGTH
      then CapabilityTokenService_new (the secret) None else None)"

definition cap_sign :: "cap_env \<Rightarrow> capability_service \<Rightarrow> string \<Rightarrow> string" where
  "cap_sign env s body = ce_hmac env (cs_secret s) body"

definition claims_json :: "capability_claims \<Rightarrow> json" where
  "claims_json cl = JObj
     [(''typ'', JStr ''qcap''), (''v'', JNum (Num 1)), (''id'', JStr (cl_id cl)), (''action'', JStr (cl_action cl)),
      (''target'', JStr (cl_target cl)), (''subject'', JStr (cl_subject cl)), (''iat'', JNum (Num (of_int (cl_iat cl)))),
      (''exp'', JNum (Num (of_int (cl_exp cl))))]"

definition issue ::
  "cap_env \<Rightarrow> string \<Rightarrow> int \<Rightarrow> string \<Rightarrow> string \<Rightarrow> string \<Rightarrow> jsnum option \<Rightarrow> capability_service \<Rightarrow>
   (capability_error, string \<times> capability_claims) result" where
  "issue env uuid now act rawTarget rawSubject ttl s =
     (case map_of SENSITIVE_ACTIONS act of
        None \<Rightarrow> Inl UNKNOWN_CAPABILITY_ACTION
      | Some spec \<Rightarrow>
          let target = js_trim rawTarget; subject = js_trim rawSubject in
          if target = [] \<or> length target > MAX_FIELD_LENGTH then Inl CAPABILITY_REQUEST_INVALID
          else if subject = [] \<or> length subject > MAX_FIELD_LENGTH then Inl CAPABILITY_REQUEST_INVALID
          else
            let ttlMs = (case ttl of Some t \<Rightarrow> t | None \<Rightarrow> Num (of_int (as_defaultTtlMs spec))) in
            case ttlMs of
              Num q \<Rightarrow>
                if \<not> rat_is_int q \<or> q < of_int MIN_TTL_MS \<or> q > of_int (as_maxTtlMs spec)
                then Inl CAPABILITY_REQUEST_INVALID
                else
                  let claims = \<lparr>cl_id = uuid, cl_action = act, cl_target = target, cl_subject = subject,
                                cl_iat = now, cl_exp = now + \<lfloor>q\<rfloor>\<rparr>;
                      body = PREFIX @ ''.'' @ base64url_encode (ce_stringify env (claims_json claims))
                  in Inr (body @ ''.'' @ cap_sign env s body, claims)
            | _ \<Rightarrow> Inl CAPABILITY_REQUEST_INVALID)"

definition safe_int :: "json option \<Rightarrow> int option" where
  "safe_int v = (case v of Some (JNum n) \<Rightarrow> if is_safe_integer n then (case n of Num q \<Rightarrow> Some \<lfloor>q\<rfloor> | _ \<Rightarrow> None) else None
                 | _ \<Rightarrow> None)"

definition str_field :: "json option \<Rightarrow> string option" where
  "str_field v = (case v of Some (JStr s) \<Rightarrow> Some s | _ \<Rightarrow> None)"

text \<open>\<open>raw?.k\<close>; only an object can have the members of a claim.\<close>

definition json_member :: "json \<Rightarrow> string \<Rightarrow> json option" where
  "json_member raw k = (case raw of JObj kvs \<Rightarrow> map_of kvs k | _ \<Rightarrow> None)"

definition parseClaims :: "cap_env \<Rightarrow> string \<Rightarrow> capability_claims option" where
  "parseClaims env encoded =
     (case ce_parse env (base64url_decode encoded) of
        None \<Rightarrow> None
      | Some raw \<Rightarrow>
          (case (str_field (json_member raw ''id''), str_field (json_member raw ''target''),
                 str_field (json_member raw ''subject''), safe_int (json_member raw ''iat''),
                 safe_int (json_member raw ''exp''), actionSpec (json_member raw ''action'')) of
             (Some i, Some target, Some subject, Some iat, Some ex, Some spec) \<Rightarrow>
               if json_member raw ''typ'' = Some (JStr ''qcap'') \<and> json_member raw ''v'' = Some (JNum (Num 1)) \<and>
                  ex > iat \<and> ex - iat \<le> as_maxTtlMs spec
               then Some \<lparr>cl_id = i, cl_action = the (str_field (json_member raw ''action'')), cl_target = target,
                          cl_subject = subject, cl_iat = iat, cl_exp = ex\<rparr>
               else None
           | _ \<Rightarrow> None))"

definition pruneRevocations :: "int \<Rightarrow> capability_service \<Rightarrow> capability_service" where
  "pruneRevocations now s =
     s\<lparr>cs_revokedIds := filter (\<lambda>(i, ex). \<not> ex \<le> now) (cs_revokedIds s),
       cs_revokedSubjects := filter (\<lambda>(_, (_, until)). \<not> until \<le> now) (cs_revokedSubjects s)\<rparr>"

text \<open>The checks up to the scope, which only read.\<close>

definition verify_stateless ::
  "cap_env \<Rightarrow> unk \<Rightarrow> capability_scope \<Rightarrow> int \<Rightarrow> capability_service \<Rightarrow> (capability_error, capability_claims) result" where
  "verify_stateless env token scope now s =
     (case token of
        UStr t \<Rightarrow>
          if js_trim t = [] then Inl CAPABILITY_REQUIRED
          else (case split_on CHR ''.'' (js_trim t) of
                  [p0, p1, p2, p3] \<Rightarrow>
                    if length t > MAX_TOKEN_LENGTH \<or> p0 @ ''.'' @ p1 \<noteq> PREFIX \<or>
                       \<not> BASE64URL_PATTERN p2 \<or> \<not> BASE64URL_PATTERN p3 then Inl CAPABILITY_MALFORMED
                    else if cap_sign env s (PREFIX @ ''.'' @ p2) \<noteq> p3 then Inl CAPABILITY_INVALID
                    else (case parseClaims env p2 of
                            None \<Rightarrow> Inl CAPABILITY_INVALID
                          | Some cl \<Rightarrow>
                              if cl_iat cl - now > CLOCK_SKEW_MS then Inl CAPABILITY_INVALID
                              else if now \<ge> cl_exp cl then Inl CAPABILITY_EXPIRED
                              else if cl_action cl \<noteq> sc_action scope \<or> cl_target cl \<noteq> sc_target scope
                              then Inl CAPABILITY_SCOPE_MISMATCH
                              else Inr cl)
                | _ \<Rightarrow> Inl CAPABILITY_MALFORMED)
      | _ \<Rightarrow> Inl CAPABILITY_REQUIRED)"

definition cap_verify ::
  "cap_env \<Rightarrow> unk \<Rightarrow> capability_scope \<Rightarrow> int \<Rightarrow> capability_service \<Rightarrow>
   (capability_error, capability_claims) result \<times> capability_service" where
  "cap_verify env token scope now s =
     (case verify_stateless env token scope now s of
        Inl e \<Rightarrow> (Inl e, s)
      | Inr cl \<Rightarrow>
          let s' = pruneRevocations now s in
          if mhas (cs_revokedIds s') (cl_id cl) then (Inl CAPABILITY_REVOKED, s')
          else (case mget (cs_revokedSubjects s') (cl_subject cl) of
                  Some (cutoff, _) \<Rightarrow>
                    if cl_iat cl \<le> cutoff then (Inl CAPABILITY_SUBJECT_REVOKED, s') else (Inr cl, s')
                | None \<Rightarrow> (Inr cl, s')))"

definition revokeCapability :: "capability_claims \<Rightarrow> int \<Rightarrow> int \<Rightarrow> capability_service \<Rightarrow> bool \<times> capability_service" where
  "revokeCapability cl now1 now2 s =
     (if cl_id cl = [] \<or> \<bar>cl_exp cl\<bar> > 2 ^ 53 - 1 \<or> cl_exp cl \<le> now1 then (False, s)
      else let s' = pruneRevocations now2 s in
           (\<not> mhas (cs_revokedIds s') (cl_id cl),
            s'\<lparr>cs_revokedIds := mset_kv (cl_id cl) (cl_exp cl) (cs_revokedIds s'),
               cs_ledger := mdelete (cl_id cl) (cs_ledger s')\<rparr>))"

definition max_ttl :: int where
  "max_ttl = Max (set (map (as_maxTtlMs \<circ> snd) SENSITIVE_ACTIONS))"

definition revokeSubject :: "string \<Rightarrow> int \<Rightarrow> capability_service \<Rightarrow> (capability_error, bool) result \<times> capability_service" where
  "revokeSubject subject cutoff s =
     (let normalized = js_trim subject in
      if normalized = [] \<or> length normalized > MAX_FIELD_LENGTH then (Inl CAPABILITY_REQUEST_INVALID, s)
      else let s' = pruneRevocations cutoff s in
           if (case mget (cs_revokedSubjects s') normalized of Some (c, _) \<Rightarrow> c \<ge> cutoff | None \<Rightarrow> False)
           then (Inr False, s')
           else (Inr True, s'\<lparr>cs_revokedSubjects :=
                   mset_kv normalized (cutoff, cutoff + max_ttl + CLOCK_SKEW_MS) (cs_revokedSubjects s')\<rparr>))"

definition reserve :: "capability_claims \<Rightarrow> int \<Rightarrow> capability_service \<Rightarrow> (capability_error, unit) result \<times> capability_service" where
  "reserve cl now s =
     (case mget (cs_ledger s) (cl_id cl) of
        Some (Used, _) \<Rightarrow> (Inl CAPABILITY_ALREADY_USED, s)
      | Some (Reserved, _) \<Rightarrow> (Inl CAPABILITY_IN_USE, s)
      | None \<Rightarrow>
          let s' = (if int (length (cs_ledger s)) \<ge> cs_capacity s
                    then s\<lparr>cs_ledger := filter (\<lambda>(_, (_, ex)). \<not> ex \<le> now) (cs_ledger s)\<rparr> else s)
          in if int (length (cs_ledger s')) \<ge> cs_capacity s' then (Inl CAPABILITY_LEDGER_FULL, s')
             else (Inr (), s'\<lparr>cs_ledger := mset_kv (cl_id cl) (Reserved, cl_exp cl) (cs_ledger s')\<rparr>))"

text \<open>\<open>use\<close>: up to the call of the action, and after it.\<close>

definition use_begin ::
  "cap_env \<Rightarrow> unk \<Rightarrow> capability_scope \<Rightarrow> int \<Rightarrow> int \<Rightarrow> capability_service \<Rightarrow>
   (capability_error, capability_claims) result \<times> capability_service" where
  "use_begin env token scope now1 now2 s =
     (case cap_verify env token scope now1 s of
        (Inl e, s1) \<Rightarrow> (Inl e, s1)
      | (Inr cl, s1) \<Rightarrow>
          (case reserve cl now2 s1 of
             (Inl e, s2) \<Rightarrow> (Inl e, s2)
           | (Inr _, s2) \<Rightarrow> (Inr cl, s2)))"

definition use_end :: "capability_claims \<Rightarrow> bool \<Rightarrow> capability_service \<Rightarrow> capability_service" where
  "use_end cl succeeded s =
     (if succeeded then s\<lparr>cs_ledger := mset_kv (cl_id cl) (Used, cl_exp cl) (cs_ledger s)\<rparr>
      else s\<lparr>cs_ledger := mdelete (cl_id cl) (cs_ledger s)\<rparr>)"

end
