(* ===== verification/Capability_Safety.thy ===== *)
theory Capability_Safety
  imports Capability_Tokens
begin

text \<open>
  What capability tokens promise: an issued token verifies for its scope until it expires,
  whatever verifies was signed here and is within its bounds, and no capability runs twice at
  the same time or again after it succeeded.
\<close>

subsection \<open>Interleaved requests\<close>

datatype cap_call = CIdle | CRunning capability_claims | CDone capability_claims | CFailed

type_synonym cap_system = "int \<times> capability_service \<times> (nat \<Rightarrow> cap_call)"

text \<open>
  The time only moves forward. Ids are unique and signatures are not forged, so that the tokens
  that are presented and verify, and the claims an operator revokes, carry for an id one expiry,
  \<open>expiry id\<close>.
\<close>

definition genuine :: "cap_env \<Rightarrow> (string \<Rightarrow> int) \<Rightarrow> unk \<Rightarrow> capability_scope \<Rightarrow> int \<Rightarrow> capability_service \<Rightarrow> bool" where
  "genuine env expiry token scope t s \<longleftrightarrow>
     (case fst (cap_verify env token scope t s) of Inr cl \<Rightarrow> cl_exp cl = expiry (cl_id cl) | Inl _ \<Rightarrow> True)"

inductive cap_step :: "cap_env \<Rightarrow> (string \<Rightarrow> int) \<Rightarrow> cap_system \<Rightarrow> cap_system \<Rightarrow> bool" for env expiry where
  tick: "t \<le> t' \<Longrightarrow> cap_step env expiry (t, s, c) (t', s, c)"
| started: "c n = CIdle \<Longrightarrow> use_begin env token scope t t' s = (Inr cl, s') \<Longrightarrow> t \<le> t' \<Longrightarrow>
    genuine env expiry token scope t s \<Longrightarrow> cap_step env expiry (t, s, c) (t', s', c(n := CRunning cl))"
| refused: "use_begin env token scope t t' s = (Inl e, s') \<Longrightarrow> t \<le> t' \<Longrightarrow>
    genuine env expiry token scope t s \<Longrightarrow> cap_step env expiry (t, s, c) (t', s', c)"
| verified: "cap_verify env token scope t s = (r, s') \<Longrightarrow> cap_step env expiry (t, s, c) (t, s', c)"
| succeeded: "c n = CRunning cl \<Longrightarrow> cap_step env expiry (t, s, c) (t, use_end cl True s, c(n := CDone cl))"
| failed: "c n = CRunning cl \<Longrightarrow> cap_step env expiry (t, s, c) (t, use_end cl False s, c(n := CFailed))"
| revoked: "revokeCapability cl t t' s = (b, s') \<Longrightarrow> t \<le> t' \<Longrightarrow> cl_exp cl = expiry (cl_id cl) \<Longrightarrow>
    cap_step env expiry (t, s, c) (t', s', c)"
| revoked_subject: "revokeSubject subject t s = (r, s') \<Longrightarrow> cap_step env expiry (t, s, c) (t, s', c)"

inductive cap_reachable :: "cap_env \<Rightarrow> (string \<Rightarrow> int) \<Rightarrow> cap_system \<Rightarrow> bool" for env expiry where
  start: "CapabilityTokenService_new secret capacity = Some s \<Longrightarrow> cap_reachable env expiry (t, s, \<lambda>_. CIdle)"
| step: "cap_reachable env expiry x \<Longrightarrow> cap_step env expiry x y \<Longrightarrow> cap_reachable env expiry y"

text \<open>A capability that can verify no more.\<close>

definition spent :: "(string \<Rightarrow> int) \<Rightarrow> int \<Rightarrow> capability_service \<Rightarrow> string \<Rightarrow> bool" where
  "spent expiry t s i \<longleftrightarrow> expiry i \<le> t \<or> mget (cs_revokedIds s) i = Some (expiry i)"

definition guarded :: "(string \<Rightarrow> int) \<Rightarrow> int \<Rightarrow> capability_service \<Rightarrow> cap_call \<Rightarrow> bool" where
  "guarded expiry t s k = (case k of
       CRunning cl \<Rightarrow> mhas (cs_ledger s) (cl_id cl) \<or> spent expiry t s (cl_id cl)
     | CDone cl \<Rightarrow> mhas (cs_ledger s) (cl_id cl) \<or> spent expiry t s (cl_id cl)
     | _ \<Rightarrow> True)"

fun active_id :: "cap_call \<Rightarrow> string option" where
  "active_id (CRunning cl) = Some (cl_id cl)"
| "active_id (CDone cl) = Some (cl_id cl)"
| "active_id _ = None"

definition stored_ok :: "(string \<Rightarrow> int) \<Rightarrow> capability_service \<Rightarrow> bool" where
  "stored_ok expiry s \<longleftrightarrow> mwf (cs_ledger s) \<and> mwf (cs_revokedIds s) \<and>
     (\<forall>i st ex. mget (cs_ledger s) i = Some (st, ex) \<longrightarrow> ex = expiry i) \<and>
     (\<forall>i ex. mget (cs_revokedIds s) i = Some ex \<longrightarrow> ex = expiry i)"

definition calls_ok :: "(string \<Rightarrow> int) \<Rightarrow> cap_system \<Rightarrow> bool" where
  "calls_ok expiry x \<longleftrightarrow> (case x of (t, s, c) \<Rightarrow>
     (\<forall>n. guarded expiry t s (c n)) \<and>
     (\<forall>n cl. c n = CRunning cl \<longrightarrow> cl_exp cl = expiry (cl_id cl)) \<and>
     (\<forall>n m i. active_id (c n) = Some i \<and> active_id (c m) = Some i \<longrightarrow> n = m))"

lemma guarded_iff: "guarded expiry t s k \<longleftrightarrow> (\<forall>i. active_id k = Some i \<longrightarrow> mhas (cs_ledger s) i \<or> spent expiry t s i)"
  by (cases k) (auto simp: guarded_def)

text \<open>Every change of the service keeps a spent capability spent and forgets only spent ones.\<close>

definition keeps :: "(string \<Rightarrow> int) \<Rightarrow> int \<Rightarrow> capability_service \<Rightarrow> int \<Rightarrow> capability_service \<Rightarrow> bool" where
  "keeps expiry t s t' s' \<longleftrightarrow>
     (\<forall>i. (spent expiry t s i \<longrightarrow> spent expiry t' s' i) \<and>
          (mhas (cs_ledger s) i \<longrightarrow> mhas (cs_ledger s') i \<or> spent expiry t' s' i))"

lemma keeps_guarded: "keeps expiry t s t' s' \<Longrightarrow> guarded expiry t s k \<Longrightarrow> guarded expiry t' s' k"
  unfolding guarded_iff keeps_def by blast

lemma keeps_trans: "keeps expiry t s t' s' \<Longrightarrow> keeps expiry t' s' t'' s'' \<Longrightarrow> keeps expiry t s t'' s''"
  unfolding keeps_def by blast

lemma keeps_tick: "t \<le> t' \<Longrightarrow> keeps expiry t s t' s"
  by (auto simp: keeps_def spent_def)

lemma stored_okD:
  assumes "stored_ok expiry s"
  shows "mwf (cs_ledger s)" and "mwf (cs_revokedIds s)" and "mget (cs_ledger s) i = Some (st, ex) \<Longrightarrow> ex = expiry i"
    and "mget (cs_revokedIds s) i = Some ex \<Longrightarrow> ex = expiry i"
  using assms unfolding stored_ok_def by blast+

lemma prune_facts:
  assumes "stored_ok expiry s" and "now \<le> t"
  shows "stored_ok expiry (pruneRevocations now s)" and "keeps expiry t s t (pruneRevocations now s)"
proof -
  let ?s = "pruneRevocations now s"
  have sel: "cs_ledger ?s = cs_ledger s" "cs_revokedIds ?s = filter (\<lambda>(i, ex). \<not> ex \<le> now) (cs_revokedIds s)"
    by (simp_all add: pruneRevocations_def)
  have look: "mget (cs_revokedIds ?s) i = (case mget (cs_revokedIds s) i of Some ex \<Rightarrow> if ex \<le> now then None else Some ex | None \<Rightarrow> None)" for i
    unfolding sel mget_filter [OF stored_okD(2) [OF assms(1)]] by (auto split: option.split)
  have rev: "mget (cs_revokedIds ?s) i = Some ex \<Longrightarrow> ex = expiry i" for i ex
    using look [of i] stored_okD(4) [OF assms(1)] by (auto split: option.splits if_splits)
  show "stored_ok expiry ?s"
    unfolding stored_ok_def using rev stored_okD [OF assms(1)] mwf_filter [OF stored_okD(2) [OF assms(1)]] by (simp add: sel)
  have "spent expiry t ?s i" if "spent expiry t s i" for i
    using that look [of i] assms(2) by (auto simp: spent_def split: if_splits)
  then show "keeps expiry t s t ?s" by (simp add: keeps_def sel)
qed

lemma verify_facts:
  assumes "stored_ok expiry s" and "cap_verify env token scope t s = (r, s')"
  shows "stored_ok expiry s'" and "keeps expiry t s t s'" and "cs_ledger s' = cs_ledger s"
    and "r = Inr cl \<Longrightarrow> cl_exp cl = expiry (cl_id cl) \<Longrightarrow> \<not> spent expiry t s' (cl_id cl)"
proof -
  have "s' = s \<or> s' = pruneRevocations t s"
    using assms(2) by (auto simp: cap_verify_def Let_def split: sum.splits option.splits if_splits)
  then show "stored_ok expiry s'" "keeps expiry t s t s'" "cs_ledger s' = cs_ledger s"
    using assms(1) prune_facts [OF assms(1), of t t] by (auto simp: keeps_def pruneRevocations_def)
  show "\<not> spent expiry t s' (cl_id cl)" if "r = Inr cl" "cl_exp cl = expiry (cl_id cl)"
  proof -
    have "t < cl_exp cl" "mget (cs_revokedIds s') (cl_id cl) = None"
      using assms(2) that(1)
      by (auto simp: cap_verify_def verify_stateless_def Let_def split: sum.splits option.splits if_splits unk.splits list.splits)
    then show ?thesis using that(2) by (simp add: spent_def)
  qed
qed

lemma reserve_facts:
  assumes "stored_ok expiry s" and "reserve cl t' s = (r, s')" and "t \<le> t'" and "cl_exp cl = expiry (cl_id cl)"
  shows "stored_ok expiry s'" and "keeps expiry t s t' s'"
    and "r = Inr () \<Longrightarrow> \<not> mhas (cs_ledger s) (cl_id cl) \<and> mhas (cs_ledger s') (cl_id cl)"
proof -
  let ?swept = "s\<lparr>cs_ledger := filter (\<lambda>(_, (_, ex)). \<not> ex \<le> t') (cs_ledger s)\<rparr>"
  have wf: "mwf (cs_ledger s)" and ex: "mget (cs_ledger s) i = Some (st, e) \<Longrightarrow> e = expiry i" for i st e
    using assms(1) by (auto simp: stored_ok_def)
  have look: "mget (cs_ledger ?swept) i = (case mget (cs_ledger s) i of Some (st, e) \<Rightarrow> if e \<le> t' then None else Some (st, e) | None \<Rightarrow> None)" for i
    by (simp add: mget_filter [OF wf] split: option.split prod.split)
  have sw: "mget (cs_ledger ?swept) i = Some (st, e) \<Longrightarrow> e = expiry i" for i st e
    using look [of i] ex [of i] by (auto split: option.splits prod.splits if_splits)
  have "stored_ok expiry ?swept"
    unfolding stored_ok_def using sw stored_okD(2,4) [OF assms(1)] mwf_filter [OF wf] by simp
  moreover have "mhas (cs_ledger ?swept) i \<or> expiry i \<le> t'" if "mhas (cs_ledger s) i" for i
    using that look [of i] ex [of i] by (auto split: option.splits prod.splits if_splits)
  then have "keeps expiry t s t' ?swept"
    using assms(3) unfolding keeps_def spent_def by (auto simp del: not_None_eq)
  ultimately have swept: "stored_ok expiry ?swept" "keeps expiry t s t' ?swept" by blast+
  define s1 where "s1 = (if mhas (cs_ledger s) (cl_id cl) \<or> int (length (cs_ledger s)) < cs_capacity s then s else ?swept)"
  have s1: "s1 = s \<or> s1 = ?swept"
      "s' = s1 \<or> s' = s1\<lparr>cs_ledger := mset_kv (cl_id cl) (Reserved, cl_exp cl) (cs_ledger s1)\<rparr>"
    using assms(2) unfolding s1_def
    by (auto simp: reserve_def Let_def split: option.splits prod.splits ledger_state.splits if_splits)
  have ok1: "stored_ok expiry s1" "keeps expiry t s t' s1"
    using s1(1) swept assms(1) keeps_tick [OF assms(3)] by auto
  have put: "stored_ok expiry (s1\<lparr>cs_ledger := mset_kv (cl_id cl) (Reserved, cl_exp cl) (cs_ledger s1)\<rparr>)"
    "keeps expiry t' s1 t' (s1\<lparr>cs_ledger := mset_kv (cl_id cl) (Reserved, cl_exp cl) (cs_ledger s1)\<rparr>)"
    using ok1(1) assms(4) by (auto simp: stored_ok_def keeps_def spent_def)
  show "stored_ok expiry s'" using s1(2) ok1(1) put(1) by auto
  show "keeps expiry t s t' s'" using s1(2) ok1(2) put(2) keeps_trans by blast
  show "\<not> mhas (cs_ledger s) (cl_id cl) \<and> mhas (cs_ledger s') (cl_id cl)" if "r = Inr ()"
    using assms(2) that by (auto simp: reserve_def Let_def split: option.splits prod.splits ledger_state.splits if_splits)
qed

lemma begin_facts:
  assumes "stored_ok expiry s" and "use_begin env token scope t t' s = (r, s')" and "t \<le> t'"
    and "genuine env expiry token scope t s"
  shows "stored_ok expiry s'" and "keeps expiry t s t' s'"
    and "r = Inr cl \<Longrightarrow> mhas (cs_ledger s') (cl_id cl) \<and> \<not> mhas (cs_ledger s) (cl_id cl) \<and> \<not> spent expiry t s (cl_id cl)"
proof -
  obtain r1 s1 where v: "cap_verify env token scope t s = (r1, s1)" by fastforce
  note vf = verify_facts [OF assms(1) v]
  have "stored_ok expiry s' \<and> keeps expiry t s t' s' \<and>
    (\<forall>cl. r = Inr cl \<longrightarrow> mhas (cs_ledger s') (cl_id cl) \<and> \<not> mhas (cs_ledger s) (cl_id cl) \<and> \<not> spent expiry t s (cl_id cl))"
  proof (cases r1)
    case (Inl e)
    then have "s' = s1" "r = Inl e" using assms(2) v by (auto simp: use_begin_def)
    then show ?thesis using vf(1,2) keeps_trans keeps_tick [OF assms(3)] by blast
  next
    case (Inr k)
    obtain r2 s2 where rs: "reserve k t' s1 = (r2, s2)" by fastforce
    have k: "cl_exp k = expiry (cl_id k)" using assms(4) v Inr by (simp add: genuine_def)
    note rf = reserve_facts [OF vf(1) rs assms(3) k]
    have out: "s' = s2" "r = Inr cl \<Longrightarrow> r2 = Inr () \<and> cl = k" for cl
      using assms(2) v Inr rs by (auto simp: use_begin_def split: sum.splits)
    have "\<not> spent expiry t s1 (cl_id k)" by (rule vf(4) [OF Inr k])
    moreover have "spent expiry t s (cl_id k) \<Longrightarrow> spent expiry t s1 (cl_id k)" using vf(2) by (simp add: keeps_def)
    ultimately show ?thesis
      using rf out vf(2,3) keeps_trans by auto
  qed
  then show "stored_ok expiry s'" "keeps expiry t s t' s'"
    "r = Inr cl \<Longrightarrow> mhas (cs_ledger s') (cl_id cl) \<and> \<not> mhas (cs_ledger s) (cl_id cl) \<and> \<not> spent expiry t s (cl_id cl)" by blast+
qed

lemma begin_running:
  "use_begin env token scope t t' s = (Inr cl, s') \<Longrightarrow> genuine env expiry token scope t s \<Longrightarrow> cl_exp cl = expiry (cl_id cl)"
  by (auto simp: use_begin_def genuine_def split: prod.splits sum.splits)

lemma revoke_facts:
  assumes "stored_ok expiry s" and "revokeCapability cl t t' s = (b, s')" and "t \<le> t'" and "cl_exp cl = expiry (cl_id cl)"
  shows "stored_ok expiry s'" and "keeps expiry t s t' s'"
proof -
  let ?p = "pruneRevocations t' s"
  let ?r = "?p\<lparr>cs_revokedIds := mset_kv (cl_id cl) (cl_exp cl) (cs_revokedIds ?p), cs_ledger := mdelete (cl_id cl) (cs_ledger ?p)\<rparr>"
  have s': "s' = s \<or> s' = ?r" using assms(2) by (auto simp: revokeCapability_def Let_def split: if_splits)
  have p: "stored_ok expiry ?p" "keeps expiry t s t' ?p"
    using prune_facts [OF assms(1), of t' t'] keeps_trans [OF keeps_tick [OF assms(3)]] by blast+
  have "stored_ok expiry ?r"
    unfolding stored_ok_def using stored_okD [OF p(1)] assms(4) by simp
  moreover have "keeps expiry t' ?p t' ?r" using assms(4) by (auto simp: keeps_def spent_def)
  ultimately show "stored_ok expiry s'" "keeps expiry t s t' s'"
    using s' p assms(1) keeps_tick [OF assms(3)] keeps_trans by blast+
qed

lemma subject_facts:
  assumes "stored_ok expiry s" and "revokeSubject subject t s = (r, s')"
  shows "stored_ok expiry s'" and "keeps expiry t s t s'"
proof -
  have "s' = s \<or> cs_ledger s' = cs_ledger (pruneRevocations t s) \<and> cs_revokedIds s' = cs_revokedIds (pruneRevocations t s)"
    using assms(2) by (auto simp: revokeSubject_def Let_def split: if_splits)
  moreover have "stored_ok expiry s' = stored_ok expiry p" "keeps expiry t s t s' = keeps expiry t s t p"
    if "cs_ledger s' = cs_ledger p" "cs_revokedIds s' = cs_revokedIds p" for p
    using that by (simp_all add: stored_ok_def keeps_def spent_def)
  ultimately show "stored_ok expiry s'" "keeps expiry t s t s'"
    using assms(1) prune_facts [OF assms(1) order_refl] keeps_tick [OF order_refl] by metis+
qed

lemma calls_okD:
  assumes "calls_ok expiry (t, s, c)"
  shows "guarded expiry t s (c n)" and "c n = CRunning cl \<Longrightarrow> cl_exp cl = expiry (cl_id cl)"
    and "active_id (c n) = Some i \<Longrightarrow> active_id (c m) = Some i \<Longrightarrow> n = m"
  using assms unfolding calls_ok_def by auto

lemma calls_okI:
  assumes "\<And>n. guarded expiry t s (c n)" and "\<And>n cl. c n = CRunning cl \<Longrightarrow> cl_exp cl = expiry (cl_id cl)"
    and "\<And>n m i. active_id (c n) = Some i \<Longrightarrow> active_id (c m) = Some i \<Longrightarrow> n = m"
  shows "calls_ok expiry (t, s, c)"
  unfolding calls_ok_def prod.case using assms by blast

lemma calls_ok_keeps:
  assumes "calls_ok expiry (t, s, c)" and "keeps expiry t s t' s'"
  shows "calls_ok expiry (t', s', c)"
  unfolding calls_ok_def prod.case using calls_okD [OF assms(1)] keeps_guarded [OF assms(2)] by blast

lemma calls_ok_started:
  assumes "calls_ok expiry (t, s, c)" and "keeps expiry t s t' s'" and "c n = CIdle" and "cl_exp cl = expiry (cl_id cl)"
    and "mhas (cs_ledger s') (cl_id cl)" and "\<not> mhas (cs_ledger s) (cl_id cl)" and "\<not> spent expiry t s (cl_id cl)"
  shows "calls_ok expiry (t', s', c(n := CRunning cl))"
proof (rule calls_okI)
  have other: "active_id (c m) \<noteq> Some (cl_id cl)" for m
    using calls_okD(1) [OF assms(1), of m] assms(6,7) unfolding guarded_iff by auto
  fix m
  show "guarded expiry t' s' ((c(n := CRunning cl)) m)"
  proof (cases "m = n")
    case True
    then show ?thesis using assms(5) by (simp add: guarded_def)
  qed (use keeps_guarded [OF assms(2) calls_okD(1) [OF assms(1)]] in simp)
  show "cl_exp k = expiry (cl_id k)" if "(c(n := CRunning cl)) m = CRunning k" for k
    using that assms(4) calls_okD(2) [OF assms(1)] by (auto split: if_splits)
  show "m = k" if "active_id ((c(n := CRunning cl)) m) = Some i" "active_id ((c(n := CRunning cl)) k) = Some i" for k i
    using that other calls_okD(3) [OF assms(1), of m i k] by (auto split: if_splits)
qed

lemma calls_ok_finished:
  assumes "calls_ok expiry (t, s, c)" and "stored_ok expiry s" and "c n = CRunning cl"
  shows "calls_ok expiry (t, use_end cl True s, c(n := CDone cl))" and "calls_ok expiry (t, use_end cl False s, c(n := CFailed))"
    and "stored_ok expiry (use_end cl b s)"
proof -
  have ex: "cl_exp cl = expiry (cl_id cl)" by (rule calls_okD(2) [OF assms(1,3)])
  have only: "active_id (c m) = Some (cl_id cl) \<Longrightarrow> m = n" for m
    using calls_okD(3) [OF assms(1), of m "cl_id cl" n] assms(3) by simp
  have g: "guarded expiry t s (c m)" for m by (rule calls_okD(1) [OF assms(1)])
  show "stored_ok expiry (use_end cl b s)"
    unfolding stored_ok_def use_end_def using stored_okD [OF assms(2)] ex by (cases b) simp_all
  show "calls_ok expiry (t, use_end cl True s, c(n := CDone cl))"
  proof (rule calls_okI)
    fix m
    show "guarded expiry t (use_end cl True s) ((c(n := CDone cl)) m)"
      using g [of m] unfolding guarded_iff by (auto simp: use_end_def spent_def)
    show "cl_exp k = expiry (cl_id k)" if "(c(n := CDone cl)) m = CRunning k" for k
      using that calls_okD(2) [OF assms(1)] by (auto split: if_splits)
    show "m = k" if "active_id ((c(n := CDone cl)) m) = Some i" "active_id ((c(n := CDone cl)) k) = Some i" for k i
      using that only calls_okD(3) [OF assms(1), of m i k] by (auto split: if_splits)
  qed
  show "calls_ok expiry (t, use_end cl False s, c(n := CFailed))"
  proof (rule calls_okI)
    fix m
    show "guarded expiry t (use_end cl False s) ((c(n := CFailed)) m)"
      using g [of m] only [of m] unfolding guarded_iff by (auto simp: use_end_def spent_def)
    show "cl_exp k = expiry (cl_id k)" if "(c(n := CFailed)) m = CRunning k" for k
      using that calls_okD(2) [OF assms(1)] by (auto split: if_splits)
    show "m = k" if "active_id ((c(n := CFailed)) m) = Some i" "active_id ((c(n := CFailed)) k) = Some i" for k i
      using that calls_okD(3) [OF assms(1), of m i k] by (auto split: if_splits)
  qed
qed

lemma cap_step_ok:
  assumes "cap_step env expiry x y" and "calls_ok expiry x" and "stored_ok expiry (fst (snd x))"
  shows "calls_ok expiry y \<and> stored_ok expiry (fst (snd y))"
  using assms
proof (induction rule: cap_step.induct)
  case (tick t t' s c)
  then show ?case using calls_ok_keeps keeps_tick by fastforce
next
  case (started c n token scope t t' s cl s')
  have k: "cl_exp cl = expiry (cl_id cl)" by (rule begin_running [OF started(2,4)])
  have st: "stored_ok expiry s" using started(6) by simp
  note f = begin_facts [OF st started(2,3,4)]
  show ?case using f(1) f(3) [OF refl] calls_ok_started [OF started(5) f(2) started(1) k] by simp
next
  case (refused token scope t t' s e s' c)
  have st: "stored_ok expiry s" using refused(5) by simp
  note f = begin_facts [OF st refused(1,2,3)]
  show ?case using f(1) calls_ok_keeps [OF refused(4) f(2)] by simp
next
  case (verified token scope t s r s' c)
  have st: "stored_ok expiry s" using verified(3) by simp
  note f = verify_facts [OF st verified(1)]
  show ?case using f(1) calls_ok_keeps [OF verified(2) f(2)] by simp
next
  case (succeeded c n cl t s)
  then show ?case using calls_ok_finished by fastforce
next
  case (failed c n cl t s)
  then show ?case using calls_ok_finished by fastforce
next
  case (revoked cl t t' s b s' c)
  have st: "stored_ok expiry s" using revoked(5) by simp
  note f = revoke_facts [OF st revoked(1,2,3)]
  show ?case using f(1) calls_ok_keeps [OF revoked(4) f(2)] by simp
next
  case (revoked_subject subject t s r s' c)
  have st: "stored_ok expiry s" using revoked_subject(3) by simp
  note f = subject_facts [OF st revoked_subject(1)]
  show ?case using f(1) calls_ok_keeps [OF revoked_subject(2) f(2)] by simp
qed

lemma cap_reachable_ok: "cap_reachable env expiry x \<Longrightarrow> calls_ok expiry x \<and> stored_ok expiry (fst (snd x))"
proof (induction rule: cap_reachable.induct)
  case (start secret capacity s t)
  then show ?case
    by (auto simp: CapabilityTokenService_new_def calls_ok_def stored_ok_def guarded_def split: if_splits)
next
  case (step x y)
  then show ?case using cap_step_ok by blast
qed

subsection \<open>Issue and verify\<close>

lemma rat_floor [simp]: "\<lfloor>of_int n :: rat\<rfloor> = n"
  by simp

lemma parse_claims_json:
  assumes "ce_parse env (base64url_decode e) = Some (claims_json cl)" and "map_of SENSITIVE_ACTIONS (cl_action cl) = Some spec"
    and "cl_iat cl < cl_exp cl" and "cl_exp cl - cl_iat cl \<le> as_maxTtlMs spec"
    and "\<bar>cl_iat cl\<bar> \<le> 2 ^ 53 - 1" and "\<bar>cl_exp cl\<bar> \<le> 2 ^ 53 - 1"
  shows "parseClaims env e = Some cl"
proof -
  have "is_safe_integer (Num (of_int n))" if "\<bar>n\<bar> \<le> 2 ^ 53 - 1" for n
  proof -
    have "of_int \<bar>n\<bar> \<le> (of_int (2 ^ 53 - 1) :: rat)" using that by (simp only: of_int_le_iff)
    then show ?thesis by simp
  qed
  then show ?thesis
    using assms by (simp add: parseClaims_def claims_json_def json_member_def str_field_def safe_int_def actionSpec_def)
qed

lemma split_token:
  assumes "BASE64URL_PATTERN p" and "BASE64URL_PATTERN q"
  shows "split_on CHR ''.'' (PREFIX @ ''.'' @ p @ ''.'' @ q) = [''qcap'', ''v1'', p, q]"
    and "js_trim (PREFIX @ ''.'' @ p @ ''.'' @ q) = PREFIX @ ''.'' @ p @ ''.'' @ q"
proof -
  have nd: "CHR ''.'' \<notin> set x" if "BASE64URL_PATTERN x" for x
    using that by (auto simp: BASE64URL_PATTERN_def list_all_iff is_alnum_def is_digit_def is_alpha_def Let_def)
  have "split_on CHR ''.'' (''qcap'' @ CHR ''.'' # ''v1'' @ CHR ''.'' # p @ CHR ''.'' # q) = [''qcap'', ''v1'', p, q]"
    using nd [OF assms(1)] nd [OF assms(2)] by (simp add: split_on_append split_on_none)
  then show "split_on CHR ''.'' (PREFIX @ ''.'' @ p @ ''.'' @ q) = [''qcap'', ''v1'', p, q]" by (simp add: PREFIX_def)
  have ws: "list_all (\<lambda>c. \<not> is_ws c) x" if "BASE64URL_PATTERN x" for x
    using that by (auto simp: BASE64URL_PATTERN_def list_all_iff is_ws_def is_alnum_def is_digit_def is_alpha_def Let_def)
  show "js_trim (PREFIX @ ''.'' @ p @ ''.'' @ q) = PREFIX @ ''.'' @ p @ ''.'' @ q"
    by (rule js_trim_no_ws) (use ws [OF assms(1)] ws [OF assms(2)] in \<open>simp add: PREFIX_def is_ws_def\<close>)
qed

lemma issue_cases:
  assumes "issue env uuid now act target subject ttl s = Inr (token, cl)"
  shows "\<exists>spec n. map_of SENSITIVE_ACTIONS act = Some spec \<and> MIN_TTL_MS \<le> n \<and> n \<le> as_maxTtlMs spec \<and>
    cl = \<lparr>cl_id = uuid, cl_action = act, cl_target = js_trim target, cl_subject = js_trim subject, cl_iat = now, cl_exp = now + n\<rparr> \<and>
    token = (PREFIX @ ''.'' @ base64url_encode (ce_stringify env (claims_json cl))) @ ''.'' @
        cap_sign env s (PREFIX @ ''.'' @ base64url_encode (ce_stringify env (claims_json cl)))"
proof -
  define t where "t = (case ttl of Some t \<Rightarrow> t | None \<Rightarrow> Num (of_int (as_defaultTtlMs (the (map_of SENSITIVE_ACTIONS act)))))"
  have fl: "MIN_TTL_MS \<le> \<lfloor>q\<rfloor>" "\<lfloor>q\<rfloor> \<le> m" if "\<not> q < of_int MIN_TTL_MS" "\<not> of_int m < q" for q :: rat and m
    using that by (simp_all add: le_floor_iff not_less floor_le_iff)
  show ?thesis
    using assms fl unfolding issue_def Let_def
    by (cases "map_of SENSITIVE_ACTIONS act"; cases t)
      (auto simp: t_def [symmetric] split: if_splits option.splits jsnum.splits)
qed

lemma issue_verifies:
  assumes "issue env uuid now act target subject ttl s = Inr (token, cl)"
    and "ce_parse env (ce_stringify env (claims_json cl)) = Some (claims_json cl)"
    and "\<And>body. BASE64URL_PATTERN (ce_hmac env (cs_secret s) body)" and "ce_stringify env (claims_json cl) \<noteq> []"
    and "length token \<le> MAX_TOKEN_LENGTH" and "0 \<le> now" and "now \<le> 2 ^ 52"
    and "now \<le> later" and "later < cl_exp cl" and "cs_secret s' = cs_secret s"
  shows "verify_stateless env (UStr token) \<lparr>sc_action = act, sc_target = js_trim target\<rparr> later s' = Inr cl"
proof -
  obtain spec n where q: "map_of SENSITIVE_ACTIONS act = Some spec" "MIN_TTL_MS \<le> n" "n \<le> as_maxTtlMs spec"
    and cl: "cl = \<lparr>cl_id = uuid, cl_action = act, cl_target = js_trim target, cl_subject = js_trim subject,
                 cl_iat = now, cl_exp = now + n\<rparr>"
    and tok: "token = (PREFIX @ ''.'' @ base64url_encode (ce_stringify env (claims_json cl))) @ ''.'' @
        cap_sign env s (PREFIX @ ''.'' @ base64url_encode (ce_stringify env (claims_json cl)))"
    using issue_cases [OF assms(1)] by blast
  let ?p = "base64url_encode (ce_stringify env (claims_json cl))"
  have p: "BASE64URL_PATTERN ?p" by (rule base64url_encode_pattern [OF assms(4)])
  have sg: "BASE64URL_PATTERN (cap_sign env s (PREFIX @ ''.'' @ ?p))" using assms(3) by (simp add: cap_sign_def)
  have ttl: "1000 \<le> n" "n \<le> as_maxTtlMs spec" "as_maxTtlMs spec = 900000"
    using q by (auto simp: MIN_TTL_MS_def SENSITIVE_ACTIONS_def split: if_splits)
  have "parseClaims env ?p = Some cl"
  proof (rule parse_claims_json)
    show "ce_parse env (base64url_decode ?p) = Some (claims_json cl)" using assms(2) by (simp add: base64url_round_trip)
  qed (use q(1) ttl assms(6,7) in \<open>auto simp: cl\<close>)
  moreover have "cap_sign env s' b = cap_sign env s b" for b using assms(10) by (simp add: cap_sign_def)
  ultimately show ?thesis
    using split_token [OF p sg] p sg assms(5,8,9)
    by (simp add: verify_stateless_def tok cl PREFIX_def CLOCK_SKEW_MS_def)
qed

lemma parseClaims_ttl: "parseClaims env e = Some k \<Longrightarrow> cl_exp k - cl_iat k \<le> 900000"
  by (auto simp: parseClaims_def actionSpec_def SENSITIVE_ACTIONS_def split: option.splits json.splits if_splits)

lemma verified_facts:
  assumes "fst (cap_verify env (UStr t) scope now s) = Inr k"
  shows "\<exists>p. js_trim t = PREFIX @ ''.'' @ p @ ''.'' @ ce_hmac env (cs_secret s) (PREFIX @ ''.'' @ p)"
    and "now < cl_exp k" and "cl_exp k - cl_iat k \<le> 900000" and "cl_action k = sc_action scope" and "cl_target k = sc_target scope"
    and "\<not> mhas (cs_revokedIds (pruneRevocations now s)) (cl_id k)"
proof -
  have st: "verify_stateless env (UStr t) scope now s = Inr k" and "\<not> mhas (cs_revokedIds (pruneRevocations now s)) (cl_id k)"
    using assms by (auto simp: cap_verify_def Let_def split: sum.splits if_splits option.splits)
  then show "\<not> mhas (cs_revokedIds (pruneRevocations now s)) (cl_id k)" by simp
  obtain p0 p1 p2 p3 where sp: "split_on CHR ''.'' (js_trim t) = [p0, p1, p2, p3]" "p0 @ ''.'' @ p1 = PREFIX"
      "cap_sign env s (PREFIX @ ''.'' @ p2) = p3" "parseClaims env p2 = Some k"
    and k: "now < cl_exp k" "cl_action k = sc_action scope" "cl_target k = sc_target scope"
    using st by (auto simp: verify_stateless_def split: list.splits if_splits option.splits)
  have "js_trim t = p0 @ ''.'' @ p1 @ ''.'' @ p2 @ ''.'' @ p3" using join_split [of "CHR ''.''" "js_trim t"] sp(1) by simp
  then have "js_trim t = PREFIX @ ''.'' @ p2 @ ''.'' @ ce_hmac env (cs_secret s) (PREFIX @ ''.'' @ p2)"
    using sp(2,3) by (simp add: cap_sign_def)
  then show "\<exists>p. js_trim t = PREFIX @ ''.'' @ p @ ''.'' @ ce_hmac env (cs_secret s) (PREFIX @ ''.'' @ p)" by blast
  show "now < cl_exp k" "cl_action k = sc_action scope" "cl_target k = sc_target scope" by (rule k)+
  show "cl_exp k - cl_iat k \<le> 900000" by (rule parseClaims_ttl [OF sp(4)])
qed

text \<open>
  Issue and verify: a token that was issued and is not too long verifies, for the action and
  target it was issued for, until it expires, unless it or its subject was revoked; and whatever
  verifies is signed with the service's secret, unexpired, minted for at most fifteen minutes,
  for this action and target, and not revoked.
\<close>
lemma capability_issue_verify:
  assumes "issue env uuid now act target subject ttl s = Inr (token, cl)"
    and "ce_parse env (ce_stringify env (claims_json cl)) = Some (claims_json cl)"
    and "\<And>body. BASE64URL_PATTERN (ce_hmac env (cs_secret s) body)" and "ce_stringify env (claims_json cl) \<noteq> []"
    and "length token \<le> MAX_TOKEN_LENGTH" and "0 \<le> now" and "now \<le> 2 ^ 52"
    and "now \<le> later" and "later < cl_exp cl" and "cs_secret s' = cs_secret s"
  shows "fst (cap_verify env (UStr token) \<lparr>sc_action = act, sc_target = js_trim target\<rparr> later s')
           \<in> {Inr cl, Inl CAPABILITY_REVOKED, Inl CAPABILITY_SUBJECT_REVOKED} \<and>
    (cs_revokedIds s' = [] \<and> cs_revokedSubjects s' = [] \<longrightarrow>
       fst (cap_verify env (UStr token) \<lparr>sc_action = act, sc_target = js_trim target\<rparr> later s') = Inr cl) \<and>
    (\<forall>t scope k. fst (cap_verify env (UStr t) scope later s') = Inr k \<longrightarrow>
       (\<exists>p. js_trim t = PREFIX @ ''.'' @ p @ ''.'' @ ce_hmac env (cs_secret s') (PREFIX @ ''.'' @ p)) \<and>
       later < cl_exp k \<and> cl_exp k - cl_iat k \<le> 900000 \<and> cl_action k = sc_action scope \<and> cl_target k = sc_target scope \<and>
       \<not> mhas (cs_revokedIds (pruneRevocations later s')) (cl_id k))"
proof (intro conjI allI impI)
  let ?scope = "\<lparr>sc_action = act, sc_target = js_trim target\<rparr>"
  have v: "verify_stateless env (UStr token) ?scope later s' = Inr cl" by (rule issue_verifies [OF assms])
  show "fst (cap_verify env (UStr token) ?scope later s') \<in> {Inr cl, Inl CAPABILITY_REVOKED, Inl CAPABILITY_SUBJECT_REVOKED}"
    using v by (auto simp: cap_verify_def Let_def split: option.split prod.split)
  show "fst (cap_verify env (UStr token) ?scope later s') = Inr cl" if "cs_revokedIds s' = [] \<and> cs_revokedSubjects s' = []"
    using v that by (simp add: cap_verify_def pruneRevocations_def)
next
  fix t scope k
  assume "fst (cap_verify env (UStr t) scope later s') = Inr k"
  note f = verified_facts [OF this]
  show "\<exists>p. js_trim t = PREFIX @ ''.'' @ p @ ''.'' @ ce_hmac env (cs_secret s') (PREFIX @ ''.'' @ p)" by (rule f(1))
  show "later < cl_exp k" "cl_exp k - cl_iat k \<le> 900000" "cl_action k = sc_action scope" "cl_target k = sc_target scope"
    "\<not> mhas (cs_revokedIds (pruneRevocations later s')) (cl_id k)" by (rule f(2-6))+
qed

lemma begin_verified: "use_begin env token scope t t' s = (Inr k, s') \<Longrightarrow> fst (cap_verify env token scope t s) = Inr k"
  by (auto simp: use_begin_def split: prod.splits sum.splits)

lemma verified_subject:
  assumes "fst (cap_verify env token scope now s) = Inr k" and "mget (cs_revokedSubjects (pruneRevocations now s)) (cl_subject k) = Some (cutoff, x)"
  shows "cutoff < cl_iat k"
  using assms by (auto simp: cap_verify_def Let_def not_le split: sum.splits if_splits option.splits)

lemma verified_text: "fst (cap_verify env token scope now s) = Inr k \<Longrightarrow> \<exists>u. token = UStr u"
  by (cases token) (simp_all add: cap_verify_def verify_stateless_def)

text \<open>
  C8: a capability is single use: however requests interleave with each other, with revocations
  and with sweeps of the ledger, no two requests run under the same capability at the same time,
  and none starts under a capability under which one has succeeded. A request starts only with a token that is signed
  with the secret of the service, not expired, minted for at most fifteen minutes, for this action and target, and neither revoked
  itself nor of a subject whose tokens of that time are revoked. (The clock does not go back; ids are unique and
  signatures are not forged, so that an id has one expiry.)
\<close>
theorem capability_single_use:
  assumes "cap_reachable env expiry (t, s, c)"
  shows "(\<forall>n m cl cl'. c n \<in> {CRunning cl, CDone cl} \<and> c m \<in> {CRunning cl', CDone cl'} \<and> cl_id cl = cl_id cl' \<longrightarrow> n = m) \<and>
    (\<forall>token scope t' k s'. use_begin env token scope t t' s = (Inr k, s') \<longrightarrow>
      (\<exists>u p. token = UStr u \<and> js_trim u = PREFIX @ ''.'' @ p @ ''.'' @ ce_hmac env (cs_secret s) (PREFIX @ ''.'' @ p)) \<and>
      t < cl_exp k \<and> cl_exp k - cl_iat k \<le> 900000 \<and> cl_action k = sc_action scope \<and> cl_target k = sc_target scope \<and>
      \<not> mhas (cs_revokedIds (pruneRevocations t s)) (cl_id k) \<and>
      (\<forall>cutoff x. mget (cs_revokedSubjects (pruneRevocations t s)) (cl_subject k) = Some (cutoff, x) \<longrightarrow> cutoff < cl_iat k))"
proof (rule conjI)
  have ok: "calls_ok expiry (t, s, c)" using cap_reachable_ok [OF assms(1)] by simp
  have "n = m" if "c n \<in> {CRunning cl, CDone cl}" "c m \<in> {CRunning cl', CDone cl'}" "cl_id cl = cl_id cl'" for n m cl cl'
    by (rule calls_okD(3) [OF ok]) (use that in auto)
  then show "\<forall>n m cl cl'. c n \<in> {CRunning cl, CDone cl} \<and> c m \<in> {CRunning cl', CDone cl'} \<and> cl_id cl = cl_id cl' \<longrightarrow> n = m" by blast
next
  show "\<forall>token scope t' k s'. use_begin env token scope t t' s = (Inr k, s') \<longrightarrow>
      (\<exists>u p. token = UStr u \<and> js_trim u = PREFIX @ ''.'' @ p @ ''.'' @ ce_hmac env (cs_secret s) (PREFIX @ ''.'' @ p)) \<and>
      t < cl_exp k \<and> cl_exp k - cl_iat k \<le> 900000 \<and> cl_action k = sc_action scope \<and> cl_target k = sc_target scope \<and>
      \<not> mhas (cs_revokedIds (pruneRevocations t s)) (cl_id k) \<and>
      (\<forall>cutoff x. mget (cs_revokedSubjects (pruneRevocations t s)) (cl_subject k) = Some (cutoff, x) \<longrightarrow> cutoff < cl_iat k)"
  proof (intro allI impI)
    fix token scope t' k s'
    assume "use_begin env token scope t t' s = (Inr k, s')"
    note v = begin_verified [OF this]
    obtain u where u: "token = UStr u" using verified_text [OF v] by blast
    note f = verified_facts [OF v [unfolded u]]
    show "(\<exists>u p. token = UStr u \<and> js_trim u = PREFIX @ ''.'' @ p @ ''.'' @ ce_hmac env (cs_secret s) (PREFIX @ ''.'' @ p)) \<and>
      t < cl_exp k \<and> cl_exp k - cl_iat k \<le> 900000 \<and> cl_action k = sc_action scope \<and> cl_target k = sc_target scope \<and>
      \<not> mhas (cs_revokedIds (pruneRevocations t s)) (cl_id k) \<and>
      (\<forall>cutoff x. mget (cs_revokedSubjects (pruneRevocations t s)) (cl_subject k) = Some (cutoff, x) \<longrightarrow> cutoff < cl_iat k)"
      using u f verified_subject [OF v] by blast
  qed
qed

subsection \<open>A concrete capability\<close>

definition demo_claims :: capability_claims where
  "demo_claims = \<lparr>cl_id = ''i'', cl_action = ''config.feature_flag.set'', cl_target = ''f'', cl_subject = ''a'', cl_iat = 0, cl_exp = 300000\<rparr>"

definition demo_env :: cap_env where
  "demo_env = \<lparr>ce_hmac = (\<lambda>k x. ''s''), ce_stringify = (\<lambda>j. ''x''), ce_parse = (\<lambda>x. Some (claims_json demo_claims))\<rparr>"

definition demo_caps :: capability_service where
  "demo_caps = \<lparr>cs_secret = replicate 32 CHR ''k'', cs_capacity = 10000, cs_ledger = [], cs_revokedIds = [], cs_revokedSubjects = []\<rparr>"

definition demo_scope :: capability_scope where
  "demo_scope = \<lparr>sc_action = ''config.feature_flag.set'', sc_target = ''f''\<rparr>"

definition demo_token :: string where
  "demo_token = PREFIX @ ''.'' @ base64url_encode ''x'' @ ''.'' @ ''s''"

lemma trim_fa: "js_trim ''f'' = ''f''" "js_trim ''a'' = ''a''"
  by (rule js_trim_no_ws, simp add: is_ws_def)+

lemma demo_issue:
  "issue demo_env ''i'' 0 ''config.feature_flag.set'' ''f'' ''a'' None demo_caps = Inr (demo_token, demo_claims)"
  by (simp add: issue_def SENSITIVE_ACTIONS_def trim_fa MAX_FIELD_LENGTH_def MIN_TTL_MS_def demo_env_def demo_claims_def
      demo_token_def cap_sign_def Let_def)

lemma length_demo_token: "length demo_token \<le> MAX_TOKEN_LENGTH"
  using length_base64url_encode [of "''x''"] by (simp add: demo_token_def PREFIX_def MAX_TOKEN_LENGTH_def)

lemma demo_pattern: "BASE64URL_PATTERN ''s''"
  by (simp add: BASE64URL_PATTERN_def is_alnum_def is_alpha_def)

text \<open>The demo token verifies one second after it was issued.\<close>
lemma capability_issue_verify_witness:
  "fst (cap_verify demo_env (UStr demo_token) demo_scope 1000 demo_caps) = Inr demo_claims"
proof -
  have "ce_parse demo_env (ce_stringify demo_env (claims_json demo_claims)) = Some (claims_json demo_claims)"
    "\<And>body. BASE64URL_PATTERN (ce_hmac demo_env (cs_secret demo_caps) body)"
    "ce_stringify demo_env (claims_json demo_claims) \<noteq> []" "(1000 :: int) < cl_exp demo_claims"
    by (simp_all add: demo_env_def demo_pattern demo_claims_def)
  then show ?thesis
    using capability_issue_verify [OF demo_issue, of 1000 demo_caps] length_demo_token
    by (simp add: trim_fa demo_scope_def demo_caps_def)
qed

lemma demo_verify: "cap_verify demo_env (UStr demo_token) demo_scope 1000 demo_caps = (Inr demo_claims, demo_caps)"
proof -
  have "verify_stateless demo_env (UStr demo_token) \<lparr>sc_action = ''config.feature_flag.set'', sc_target = js_trim ''f''\<rparr> 1000 demo_caps = Inr demo_claims"
    by (rule issue_verifies [OF demo_issue]) (simp_all add: demo_env_def demo_pattern demo_claims_def length_demo_token)
  then have "verify_stateless demo_env (UStr demo_token) demo_scope 1000 demo_caps = Inr demo_claims"
    by (simp add: demo_scope_def trim_fa)
  then show ?thesis by (simp add: cap_verify_def pruneRevocations_def demo_caps_def)
qed

lemma demo_begin:
  "use_begin demo_env (UStr demo_token) demo_scope 1000 1000 demo_caps =
     (Inr demo_claims, demo_caps\<lparr>cs_ledger := [(''i'', (Reserved, 300000))]\<rparr>)"
  unfolding use_begin_def demo_verify by (simp add: reserve_def demo_caps_def demo_claims_def)

text \<open>Witness of C8: one request under the demo capability is running.\<close>
theorem capability_single_use_witness:
  "\<exists>s. cap_reachable demo_env (\<lambda>_. 300000) (1000, s, (\<lambda>_. CIdle)(7 := CRunning demo_claims)) \<and>
     (\<forall>m. ((\<lambda>_. CIdle)(7 := CRunning demo_claims)) m = CRunning demo_claims \<longrightarrow> m = (7 :: nat))"
proof -
  let ?s = "demo_caps\<lparr>cs_ledger := [(''i'', (Reserved, 300000))]\<rparr>"
  let ?c = "(\<lambda>_. CIdle)(7 :: nat := CRunning demo_claims)"
  have "CapabilityTokenService_new (replicate 32 CHR ''k'') None = Some demo_caps"
    by (simp add: CapabilityTokenService_new_def demo_caps_def MIN_CAPABILITY_SECRET_LENGTH_def)
  then have r0: "cap_reachable demo_env (\<lambda>_. 300000) (1000, demo_caps, \<lambda>_. CIdle)" by (rule cap_reachable.start)
  have "genuine demo_env (\<lambda>_. 300000) (UStr demo_token) demo_scope 1000 demo_caps"
    unfolding genuine_def demo_verify by (simp add: demo_claims_def)
  then have "cap_step demo_env (\<lambda>_. 300000) (1000, demo_caps, \<lambda>_. CIdle) (1000, ?s, ?c)"
    by (rule cap_step.started [where c = "\<lambda>_. CIdle" and n = 7, OF refl demo_begin order_refl])
  with r0 have r: "cap_reachable demo_env (\<lambda>_. 300000) (1000, ?s, ?c)" by (rule cap_reachable.step)
  have single: "?c n \<in> {CRunning cl, CDone cl} \<Longrightarrow> ?c m \<in> {CRunning cl', CDone cl'} \<Longrightarrow> cl_id cl = cl_id cl' \<Longrightarrow> n = m" for n m cl cl'
    using capability_single_use [OF r] by blast
  have "m = 7" if "?c m = CRunning demo_claims" for m
    by (rule single [of m demo_claims 7 demo_claims]) (simp_all only: that fun_upd_same insert_iff simp_thms)
  then show ?thesis using r by blast
qed

end
