(* ===== verification/Risk_Scoring.thy ===== *)
theory Risk_Scoring
  imports Js_Number
begin

text \<open>
  Explainable risk scores, \<open>backend/src/ops/risk-scoring.ts\<close>: sliding-window counters with a cap on
  the events kept per key, and the score as a sum of named factors. Times are whole
  milliseconds; the texts of the factors are left out, and so is the name of the policy.
\<close>

subsection \<open>Factors and levels\<close>

datatype risk_level = Low | Elevated | High | Critical

datatype risk_factor_code = ACTION_BASELINE | REQUESTER_VELOCITY | TARGET_REPETITION | RECENT_FAILURES

record risk_factor =
  rf_code :: risk_factor_code
  rf_weight :: int
  rf_observed :: int
  rf_allowance :: int

record risk_assessment =
  ra_score :: int
  ra_level :: risk_level
  ra_factors :: "risk_factor list"
  ra_requiresSecondApprover :: bool
  ra_blocked :: bool
  ra_windowMs :: int
  ra_evaluatedAt :: int

record risk_subject =
  rs_action :: string
  rs_requiresSecondApprover :: bool
  rs_requestedBy :: string
  rs_target :: string

definition LEVELS :: "(risk_level \<times> int) list" where
  "LEVELS = [(Critical, 80), (High, 50), (Elevated, 30), (Low, 0)]"

record weight_rule =
  wr_allowance :: int
  wr_perEvent :: int
  wr_cap :: int

definition BASELINE_singleApprover :: int where "BASELINE_singleApprover = 10"
definition BASELINE_twoPerson :: int where "BASELINE_twoPerson = 25"
definition VELOCITY :: weight_rule where "VELOCITY = \<lparr>wr_allowance = 5, wr_perEvent = 10, wr_cap = 40\<rparr>"
definition REPETITION :: weight_rule where "REPETITION = \<lparr>wr_allowance = 1, wr_perEvent = 15, wr_cap = 30\<rparr>"
definition FAILURES :: weight_rule where "FAILURES = \<lparr>wr_allowance = 0, wr_perEvent = 10, wr_cap = 30\<rparr>"

definition weightFor :: "int \<Rightarrow> weight_rule \<Rightarrow> int" where
  "weightFor observed rule = min (wr_cap rule) (max 0 (observed - wr_allowance rule) * wr_perEvent rule)"

definition riskLevelFor :: "int \<Rightarrow> risk_level" where
  "riskLevelFor score =
     fst (case List.find (\<lambda>band. score \<ge> snd band) LEVELS of Some band \<Rightarrow> band | None \<Rightarrow> last LEVELS)"

subsection \<open>Windowed counters\<close>

record windowed_counter =
  wc_events :: "(string, int list) jsmap"
  wc_windowMs :: int
  wc_cap :: int

definition WindowedCounter_new :: "int \<Rightarrow> int \<Rightarrow> windowed_counter" where
  "WindowedCounter_new windowMs cap = \<lparr>wc_events = [], wc_windowMs = windowMs, wc_cap = cap\<rparr>"

definition wc_prune :: "string \<Rightarrow> int \<Rightarrow> windowed_counter \<Rightarrow> int list option \<times> windowed_counter" where
  "wc_prune key nowMs wc =
     (case mget (wc_events wc) key of
        None \<Rightarrow> (None, wc)
      | Some queue \<Rightarrow>
          let cutoff = nowMs - wc_windowMs wc;
              rest = dropWhile (\<lambda>t. t \<le> cutoff) queue
          in if rest = [] then (None, wc\<lparr>wc_events := mdelete key (wc_events wc)\<rparr>)
             else (Some rest, wc\<lparr>wc_events := mset_kv key rest (wc_events wc)\<rparr>))"

definition wc_count :: "string \<Rightarrow> int \<Rightarrow> windowed_counter \<Rightarrow> int \<times> windowed_counter" where
  "wc_count key nowMs wc =
     (let (q, wc') = wc_prune key nowMs wc in (case q of Some queue \<Rightarrow> int (length queue) | None \<Rightarrow> 0, wc'))"

definition wc_record :: "string \<Rightarrow> int \<Rightarrow> windowed_counter \<Rightarrow> windowed_counter" where
  "wc_record key nowMs wc =
     (let (q, wc') = wc_prune key nowMs wc;
          queue = (case q of Some qs \<Rightarrow> qs | None \<Rightarrow> []) @ [nowMs];
          kept = (if int (length queue) > wc_cap wc then tl queue else queue)
      in wc'\<lparr>wc_events := mset_kv key kept (wc_events wc')\<rparr>)"

definition wc_sweep :: "int \<Rightarrow> windowed_counter \<Rightarrow> windowed_counter" where
  "wc_sweep nowMs wc = fold (\<lambda>key c. snd (wc_prune key nowMs c)) (map fst (wc_events wc)) wc"

definition wc_size :: "windowed_counter \<Rightarrow> nat" where
  "wc_size wc = length (wc_events wc)"

subsection \<open>The scorer\<close>

record risk_scorer =
  rk_windowMs :: int
  rk_sweepEvery :: int
  rk_byRequester :: windowed_counter
  rk_byTarget :: windowed_counter
  rk_failures :: windowed_counter
  rk_recordsSinceSweep :: int

definition RiskScorer_new :: "int option \<Rightarrow> int option \<Rightarrow> int option \<Rightarrow> risk_scorer" where
  "RiskScorer_new windowMs maxEventsPerKey sweepEvery =
     (let w = (case windowMs of Some x \<Rightarrow> x | None \<Rightarrow> 10 * 60000);
          cap = (case maxEventsPerKey of Some x \<Rightarrow> x | None \<Rightarrow> 64)
      in \<lparr>rk_windowMs = w, rk_sweepEvery = (case sweepEvery of Some x \<Rightarrow> x | None \<Rightarrow> 1000),
          rk_byRequester = WindowedCounter_new w cap, rk_byTarget = WindowedCounter_new w cap,
          rk_failures = WindowedCounter_new w cap, rk_recordsSinceSweep = 0\<rparr>)"

definition candidate_factors :: "risk_subject \<Rightarrow> int \<Rightarrow> int \<Rightarrow> int \<Rightarrow> risk_factor list" where
  "candidate_factors subject byRequester byTarget failures =
     [\<lparr>rf_code = ACTION_BASELINE,
       rf_weight = (if rs_requiresSecondApprover subject then BASELINE_twoPerson else BASELINE_singleApprover),
       rf_observed = 1, rf_allowance = 0\<rparr>,
      \<lparr>rf_code = REQUESTER_VELOCITY, rf_weight = weightFor byRequester VELOCITY, rf_observed = byRequester,
       rf_allowance = wr_allowance VELOCITY\<rparr>,
      \<lparr>rf_code = TARGET_REPETITION, rf_weight = weightFor byTarget REPETITION, rf_observed = byTarget,
       rf_allowance = wr_allowance REPETITION\<rparr>,
      \<lparr>rf_code = RECENT_FAILURES, rf_weight = weightFor failures FAILURES, rf_observed = failures,
       rf_allowance = wr_allowance FAILURES\<rparr>]"

definition assessment_of :: "risk_subject \<Rightarrow> int \<Rightarrow> int \<Rightarrow> int \<Rightarrow> int \<Rightarrow> int \<Rightarrow> risk_assessment" where
  "assessment_of subject byRequester byTarget failures windowMs nowMs =
     (let factors = filter (\<lambda>f. rf_weight f > 0) (candidate_factors subject byRequester byTarget failures);
          score = min 100 (sum_list (map rf_weight factors));
          level = riskLevelFor score
      in \<lparr>ra_score = score, ra_level = level, ra_factors = factors,
          ra_requiresSecondApprover = (level = High \<or> level = Critical), ra_blocked = (level = Critical),
          ra_windowMs = windowMs, ra_evaluatedAt = nowMs\<rparr>)"

definition assess :: "risk_subject \<Rightarrow> int \<Rightarrow> risk_scorer \<Rightarrow> risk_assessment \<times> risk_scorer" where
  "assess subject nowMs s =
     (let (a, c1) = wc_count (rs_requestedBy subject) nowMs (rk_byRequester s);
          (b, c2) = wc_count (rs_target subject) nowMs (rk_byTarget s);
          (f, c3) = wc_count (rs_requestedBy subject) nowMs (rk_failures s)
      in (assessment_of subject a b f (rk_windowMs s) nowMs,
          s\<lparr>rk_byRequester := c1, rk_byTarget := c2, rk_failures := c3\<rparr>))"

definition maybeSweep :: "int \<Rightarrow> risk_scorer \<Rightarrow> risk_scorer" where
  "maybeSweep nowMs s =
     (let n = rk_recordsSinceSweep s + 1 in
      if n < rk_sweepEvery s then s\<lparr>rk_recordsSinceSweep := n\<rparr>
      else s\<lparr>rk_recordsSinceSweep := 0, rk_byRequester := wc_sweep nowMs (rk_byRequester s),
             rk_byTarget := wc_sweep nowMs (rk_byTarget s), rk_failures := wc_sweep nowMs (rk_failures s)\<rparr>)"

definition recordIntent :: "string \<Rightarrow> string \<Rightarrow> int \<Rightarrow> risk_scorer \<Rightarrow> risk_scorer" where
  "recordIntent requestedBy target nowMs s =
     maybeSweep nowMs (s\<lparr>rk_byRequester := wc_record requestedBy nowMs (rk_byRequester s),
                         rk_byTarget := wc_record target nowMs (rk_byTarget s)\<rparr>)"

definition recordFailure :: "string \<Rightarrow> int \<Rightarrow> risk_scorer \<Rightarrow> risk_scorer" where
  "recordFailure requestedBy nowMs s =
     maybeSweep nowMs (s\<lparr>rk_failures := wc_record requestedBy nowMs (rk_failures s)\<rparr>)"

definition trackedKeys :: "risk_scorer \<Rightarrow> nat" where
  "trackedKeys s = wc_size (rk_byRequester s) + wc_size (rk_byTarget s) + wc_size (rk_failures s)"

subsection \<open>The counters count\<close>

definition in_window :: "int \<Rightarrow> int \<Rightarrow> int list \<Rightarrow> int" where
  "in_window cutoff now ts = int (length (filter (\<lambda>t. t > now - cutoff) ts))"

text \<open>
  A queue that tracks the history of a key: what it lost is out of the window from now on, or
  beyond the cap.
\<close>

definition tracks :: "int \<Rightarrow> int \<Rightarrow> int \<Rightarrow> int list \<Rightarrow> int list \<Rightarrow> bool" where
  "tracks w cap latest hist q \<longleftrightarrow>
     sorted q \<and> (\<forall>t \<in> set q. t \<le> latest) \<and> int (length q) \<le> cap \<and>
     (\<forall>now \<ge> latest. min cap (in_window w now q) = min cap (in_window w now hist))"

lemma in_window_dropWhile:
  assumes "sorted q" and "now0 \<le> now"
  shows "in_window w now (dropWhile (\<lambda>t. t \<le> now0 - w) q) = in_window w now q"
  using assms by (induction q) (auto simp: in_window_def)

lemma in_window_pruned:
  assumes "sorted q"
  shows "int (length (dropWhile (\<lambda>t. t \<le> now - w) q)) = in_window w now q"
  using assms
proof (induction q)
  case (Cons t q)
  then show ?case
  proof (cases "t \<le> now - w")
    case False
    then have "filter (\<lambda>x. x > now - w) (t # q) = t # q" using Cons.prems by (intro filter_True) auto
    then show ?thesis using False by (simp add: in_window_def)
  qed (use Cons in \<open>simp add: in_window_def\<close>)
qed (simp add: in_window_def)

lemma tracks_prune:
  assumes "tracks w cap latest hist q" and "latest \<le> now"
  shows "tracks w cap now hist (dropWhile (\<lambda>t. t \<le> now - w) q)"
proof -
  let ?q = "dropWhile (\<lambda>t. t \<le> now - w) q"
  have q: "sorted q" "\<forall>t \<in> set q. t \<le> latest" "int (length q) \<le> cap"
    "\<forall>now \<ge> latest. min cap (in_window w now q) = min cap (in_window w now hist)"
    using assms(1) by (simp_all add: tracks_def)
  have "length ?q \<le> length q" by (rule length_dropWhile_le)
  moreover have "\<forall>t \<in> set ?q. t \<le> now" using q(2) assms(2) set_dropWhileD by fastforce
  moreover have "sorted ?q" using q(1) by (rule sorted_dropWhile)
  ultimately show ?thesis
    using q(3,4) assms(2) in_window_dropWhile [OF q(1)] by (simp add: tracks_def)
qed

lemma tracks_push:
  assumes "tracks w cap now hist q" and "0 < cap"
  shows "tracks w cap now (hist @ [now]) (if int (length (q @ [now])) > cap then tl (q @ [now]) else q @ [now])"
proof -
  let ?p = "q @ [now]"
  have q: "sorted ?p" "\<forall>t \<in> set ?p. t \<le> now" "int (length q) \<le> cap"
    "\<forall>m \<ge> now. min cap (in_window w m q) = min cap (in_window w m hist)"
    using assms(1) by (auto simp: tracks_def sorted_append)
  have eq: "min cap (in_window w m ?p) = min cap (in_window w m (hist @ [now]))" if "now \<le> m" for m
  proof -
    have "in_window w m (xs @ [now]) = in_window w m xs + (if now > m - w then 1 else 0)" for xs
      by (simp add: in_window_def)
    then show ?thesis using q(4) that by (auto simp: min_def split: if_splits)
  qed
  have tl: "min cap (in_window w m (tl ?p)) = min cap (in_window w m ?p)" if "int (length ?p) > cap" for m
  proof (cases ?p)
    case (Cons t r)
    have "length ?p = length (t # r)" using Cons by simp
    then have "length r = length q" by simp
    then have len: "int (length r) = cap" using that q(3) by simp
    show ?thesis
    proof (cases "t > m - w")
      case True
      then have "filter (\<lambda>x. x > m - w) r = r" using q(1) Cons by (intro filter_True) fastforce
      then show ?thesis using True Cons len by (simp add: in_window_def)
    qed (simp add: Cons in_window_def)
  qed simp
  show ?thesis
  proof (cases "int (length ?p) > cap")
    case True
    have "int (length (tl ?p)) \<le> cap" using q(3) by simp
    moreover have "sorted (tl ?p)" using q(1) by (rule sorted_tl)
    moreover have "\<forall>t \<in> set (tl ?p). t \<le> now" using q(2) by (metis list.set_sel(2) snoc_eq_iff_butlast)
    ultimately show ?thesis unfolding tracks_def using True tl [OF True] eq by simp
  next
    case False
    then show ?thesis unfolding tracks_def using q(1,2) eq by simp
  qed
qed

subsection \<open>A counter against its history\<close>

definition content :: "windowed_counter \<Rightarrow> string \<Rightarrow> int list" where
  "content wc k = (case mget (wc_events wc) k of Some q \<Rightarrow> q | None \<Rightarrow> [])"

definition follows :: "int \<Rightarrow> int \<Rightarrow> int \<Rightarrow> (string \<Rightarrow> int list) \<Rightarrow> windowed_counter \<Rightarrow> bool" where
  "follows w cap latest hist wc \<longleftrightarrow> wc_windowMs wc = w \<and> wc_cap wc = cap \<and> (\<forall>k. tracks w cap latest (hist k) (content wc k))"

lemma prune_content:
  assumes "wc_prune key now wc = (q, wc')"
  shows "content wc' k = (if k = key then dropWhile (\<lambda>t. t \<le> now - wc_windowMs wc) (content wc key) else content wc k)"
    and "(case q of Some qs \<Rightarrow> qs | None \<Rightarrow> []) = dropWhile (\<lambda>t. t \<le> now - wc_windowMs wc) (content wc key)"
    and "wc_windowMs wc' = wc_windowMs wc" and "wc_cap wc' = wc_cap wc"
  using assms by (auto simp: wc_prune_def content_def Let_def simp del: dropWhile_eq_Nil_conv split: option.splits if_splits)

lemma tracks_later: "tracks w cap latest hist q \<Longrightarrow> latest \<le> now \<Longrightarrow> tracks w cap now hist q"
  by (force simp: tracks_def)

lemma follows_prune:
  assumes "follows w cap latest hist wc" and "latest \<le> now"
  shows "follows w cap now hist (snd (wc_prune key now wc))"
proof -
  obtain q wc' where p: "wc_prune key now wc = (q, wc')" by fastforce
  show ?thesis
    using assms prune_content [OF p] tracks_prune [OF _ assms(2)] tracks_later [OF _ assms(2)] p
    by (auto simp: follows_def)
qed

lemma follows_sweep:
  assumes "follows w cap latest hist wc" and "latest \<le> now"
  shows "follows w cap now hist (wc_sweep now wc)"
proof -
  have later: "follows w cap now hist wc" using assms(1) tracks_later [OF _ assms(2)] by (simp add: follows_def)
  have "follows w cap now hist (fold (\<lambda>key c. snd (wc_prune key now c)) ks wc)" for ks
    using later by (induction ks arbitrary: wc) (simp_all add: follows_prune)
  then show ?thesis by (simp add: wc_sweep_def)
qed

lemma follows_record:
  assumes "follows w cap latest hist wc" and "latest \<le> now" and "0 < cap"
  shows "follows w cap now (hist(key := hist key @ [now])) (wc_record key now wc)"
proof -
  obtain q wc' where p: "wc_prune key now wc = (q, wc')" by fastforce
  let ?rest = "dropWhile (\<lambda>t. t \<le> now - w) (content wc key)"
  define kept where "kept = (if int (length (?rest @ [now])) > cap then tl (?rest @ [now]) else ?rest @ [now])"
  have wc: "wc_windowMs wc = w" "wc_cap wc = cap" "\<And>k. tracks w cap latest (hist k) (content wc k)"
    using assms(1) by (simp_all add: follows_def)
  note pc = prune_content [OF p, unfolded wc(1)]
  have new: "wc_record key now wc = wc'\<lparr>wc_events := mset_kv key kept (wc_events wc')\<rparr>"
    by (simp add: wc_record_def p pc(2) wc(2) kept_def Let_def)
  have "content (wc_record key now wc) k = (if k = key then kept else content wc k)" for k
    using pc(1) [of k] by (simp add: new content_def)
  moreover have "tracks w cap now (hist key @ [now]) kept"
    unfolding kept_def by (rule tracks_push [OF tracks_prune [OF wc(3) assms(2)] assms(3)])
  moreover have "tracks w cap now (hist k) (content wc k)" for k by (rule tracks_later [OF wc(3) assms(2)])
  ultimately show ?thesis using pc(3,4) wc(1,2) by (simp add: follows_def new)
qed

lemma follows_count:
  assumes "follows w cap latest hist wc" and "latest \<le> now"
  shows "fst (wc_count key now wc) = min cap (in_window w now (hist key))"
    and "follows w cap now hist (snd (wc_count key now wc))"
proof -
  obtain q wc' where p: "wc_prune key now wc = (q, wc')" by fastforce
  have wc: "wc_windowMs wc = w" "tracks w cap latest (hist key) (content wc key)" using assms(1) by (simp_all add: follows_def)
  have "fst (wc_count key now wc) = int (length (case q of Some qs \<Rightarrow> qs | None \<Rightarrow> []))"
    by (cases q) (simp_all add: wc_count_def p)
  also have "\<dots> = in_window w now (content wc key)"
    unfolding prune_content(2) [OF p] wc(1) by (rule in_window_pruned) (use wc(2) in \<open>simp add: tracks_def\<close>)
  also have "\<dots> = min cap (in_window w now (content wc key))"
  proof -
    have "in_window w now (content wc key) \<le> int (length (content wc key))" by (simp add: in_window_def)
    then show ?thesis using wc(2) by (simp add: tracks_def)
  qed
  also have "\<dots> = min cap (in_window w now (hist key))" using wc(2) assms(2) by (simp add: tracks_def)
  finally show "fst (wc_count key now wc) = min cap (in_window w now (hist key))" .
  show "follows w cap now hist (snd (wc_count key now wc))"
    using follows_prune [OF assms, of key] by (simp add: wc_count_def p)
qed

subsection \<open>The scorer against the history\<close>

datatype risk_event = Intent string string | Failure string

type_synonym risk_history = "(int \<times> risk_event) list"

definition requester_times :: "risk_history \<Rightarrow> string \<Rightarrow> int list" where
  "requester_times h r = map fst (filter (\<lambda>(_, e). case e of Intent a _ \<Rightarrow> a = r | _ \<Rightarrow> False) h)"

definition target_times :: "risk_history \<Rightarrow> string \<Rightarrow> int list" where
  "target_times h g = map fst (filter (\<lambda>(_, e). case e of Intent _ b \<Rightarrow> b = g | _ \<Rightarrow> False) h)"

definition failure_times :: "risk_history \<Rightarrow> string \<Rightarrow> int list" where
  "failure_times h r = map fst (filter (\<lambda>(_, e). case e of Failure a \<Rightarrow> a = r | _ \<Rightarrow> False) h)"

inductive risk_run :: "int \<Rightarrow> int \<Rightarrow> int \<Rightarrow> risk_history \<Rightarrow> risk_scorer \<Rightarrow> bool" for w cap where
  start: "risk_run w cap t [] (RiskScorer_new (Some w) (Some cap) every)"
| intent: "risk_run w cap t h s \<Longrightarrow> t \<le> now \<Longrightarrow> risk_run w cap now (h @ [(now, Intent r g)]) (recordIntent r g now s)"
| failure: "risk_run w cap t h s \<Longrightarrow> t \<le> now \<Longrightarrow> risk_run w cap now (h @ [(now, Failure r)]) (recordFailure r now s)"
| assessed: "risk_run w cap t h s \<Longrightarrow> t \<le> now \<Longrightarrow> risk_run w cap now h (snd (assess subject now s))"

definition scorer_ok :: "int \<Rightarrow> int \<Rightarrow> int \<Rightarrow> risk_history \<Rightarrow> risk_scorer \<Rightarrow> bool" where
  "scorer_ok w cap t h s \<longleftrightarrow> rk_windowMs s = w \<and> follows w cap t (requester_times h) (rk_byRequester s) \<and>
     follows w cap t (target_times h) (rk_byTarget s) \<and> follows w cap t (failure_times h) (rk_failures s)"

lemma follows_later: "follows w cap t hist wc \<Longrightarrow> t \<le> now \<Longrightarrow> follows w cap now hist wc"
  unfolding follows_def using tracks_later by blast

lemma scorer_ok_sweep: "scorer_ok w cap t h s \<Longrightarrow> scorer_ok w cap t h (maybeSweep t s)"
  using follows_sweep [OF _ order_refl] by (auto simp: scorer_ok_def maybeSweep_def Let_def)

lemma history_snoc:
  "requester_times (h @ [(t, Intent r g)]) = (requester_times h)(r := requester_times h r @ [t])"
  "target_times (h @ [(t, Intent r g)]) = (target_times h)(g := target_times h g @ [t])"
  "failure_times (h @ [(t, Intent r g)]) = failure_times h"
  "requester_times (h @ [(t, Failure r)]) = requester_times h" "target_times (h @ [(t, Failure r)]) = target_times h"
  "failure_times (h @ [(t, Failure r)]) = (failure_times h)(r := failure_times h r @ [t])"
  by (auto simp: requester_times_def target_times_def failure_times_def)

lemma assess_ok:
  assumes "scorer_ok w cap t h s" and "t \<le> now"
  shows "scorer_ok w cap now h (snd (assess subject now s))"
    and "fst (assess subject now s) = assessment_of subject
      (min cap (in_window w now (requester_times h (rs_requestedBy subject))))
      (min cap (in_window w now (target_times h (rs_target subject))))
      (min cap (in_window w now (failure_times h (rs_requestedBy subject)))) w now"
proof -
  have f: "follows w cap t (requester_times h) (rk_byRequester s)" "follows w cap t (target_times h) (rk_byTarget s)"
    "follows w cap t (failure_times h) (rk_failures s)" "rk_windowMs s = w"
    using assms(1) by (simp_all add: scorer_ok_def)
  note c1 = follows_count [OF f(1) assms(2), of "rs_requestedBy subject"]
  note c2 = follows_count [OF f(2) assms(2), of "rs_target subject"]
  note c3 = follows_count [OF f(3) assms(2), of "rs_requestedBy subject"]
  show "scorer_ok w cap now h (snd (assess subject now s))"
    using c1(2) c2(2) c3(2) f(4) by (simp add: assess_def scorer_ok_def case_prod_unfold Let_def)
  show "fst (assess subject now s) = assessment_of subject
      (min cap (in_window w now (requester_times h (rs_requestedBy subject))))
      (min cap (in_window w now (target_times h (rs_target subject))))
      (min cap (in_window w now (failure_times h (rs_requestedBy subject)))) w now"
    by (simp add: assess_def case_prod_unfold Let_def c1(1) c2(1) c3(1) f(4))
qed

lemma run_scorer_ok:
  assumes "0 < cap" and "risk_run w cap t h s"
  shows "scorer_ok w cap t h s"
  using assms(2)
proof (induction rule: risk_run.induct)
  case (start t every)
  have "tracks w cap t [] []" using assms(1) by (simp add: tracks_def)
  then show ?case
    by (simp add: scorer_ok_def RiskScorer_new_def follows_def content_def WindowedCounter_new_def requester_times_def
        target_times_def failure_times_def)
next
  case (intent t h s now r g)
  then have "scorer_ok w cap now (h @ [(now, Intent r g)])
      (s\<lparr>rk_byRequester := wc_record r now (rk_byRequester s), rk_byTarget := wc_record g now (rk_byTarget s)\<rparr>)"
    using follows_record [OF _ intent.hyps(2) assms(1)] follows_later [OF _ intent.hyps(2)]
    by (simp add: scorer_ok_def history_snoc)
  then show ?case using scorer_ok_sweep by (simp add: recordIntent_def)
next
  case (failure t h s now r)
  then have "scorer_ok w cap now (h @ [(now, Failure r)]) (s\<lparr>rk_failures := wc_record r now (rk_failures s)\<rparr>)"
    using follows_record [OF _ failure.hyps(2) assms(1)] follows_later [OF _ failure.hyps(2)]
    by (simp add: scorer_ok_def history_snoc)
  then show ?case using scorer_ok_sweep by (simp add: recordFailure_def)
next
  case (assessed t h s now subject)
  then show ?case using assess_ok(1) by blast
qed

subsection \<open>Scores\<close>

lemma weightFor_cap:
  assumes "9 \<le> cap"
  shows "weightFor (min cap n) VELOCITY = weightFor n VELOCITY" "weightFor (min cap n) REPETITION = weightFor n REPETITION"
    "weightFor (min cap n) FAILURES = weightFor n FAILURES"
  using assms by (auto simp: weightFor_def VELOCITY_def REPETITION_def FAILURES_def min_def max_def)

lemma weight_range:
  "0 \<le> weightFor n VELOCITY" "weightFor n VELOCITY \<le> 40" "0 \<le> weightFor n REPETITION" "weightFor n REPETITION \<le> 30"
  "0 \<le> weightFor n FAILURES" "weightFor n FAILURES \<le> 30"
  by (auto simp: weightFor_def VELOCITY_def REPETITION_def FAILURES_def)

lemma score_sum:
  "sum_list (map rf_weight (filter (\<lambda>f. rf_weight f > 0) (candidate_factors subject a b f))) =
     (if rs_requiresSecondApprover subject then 25 else 10) + weightFor a VELOCITY + weightFor b REPETITION + weightFor f FAILURES"
  using weight_range [of a] weight_range [of b] weight_range [of f]
  by (auto simp: candidate_factors_def BASELINE_twoPerson_def BASELINE_singleApprover_def)

lemma level_critical: "riskLevelFor n = Critical \<longleftrightarrow> 80 \<le> n"
  by (auto simp: riskLevelFor_def LEVELS_def)

text \<open>
  C27: the score is exact and explained. The clock does not go back. Whatever positive number of
  events the scorer keeps per key, and however it prunes and sweeps its counters, an assessment is that of the
  numbers of events of the full history within the window, each cut off at that number. With at
  least nine events per key (the default is 64) the cut-off is lossless: the score, level and verdict are
  those of the full history within the window. The score lies between 10 and 100, and an intent is blocked
  only when at least two of velocity, repetition and failures weigh in.
\<close>
theorem risk_score_exact:
  fixes subject :: risk_subject
  assumes "risk_run w cap t h s" and "0 < cap" and "t \<le> now"
  defines "a \<equiv> fst (assess subject now s)"
    and "x \<equiv> in_window w now (requester_times h (rs_requestedBy subject))"
    and "y \<equiv> in_window w now (target_times h (rs_target subject))"
    and "z \<equiv> in_window w now (failure_times h (rs_requestedBy subject))"
  defines "b \<equiv> assessment_of subject x y z w now"
  shows "a = assessment_of subject (min cap x) (min cap y) (min cap z) w now \<and>
     (9 \<le> cap \<longrightarrow> ra_score a = ra_score b \<and> ra_level a = ra_level b \<and> ra_blocked a = ra_blocked b \<and>
        ra_requiresSecondApprover a = ra_requiresSecondApprover b) \<and> 10 \<le> ra_score a \<and> ra_score a \<le> 100 \<and>
     (ra_blocked a \<longrightarrow> 2 \<le> length (filter (\<lambda>f. rf_code f \<noteq> ACTION_BASELINE) (ra_factors a)))"
proof -
  have a: "a = assessment_of subject (min cap x) (min cap y) (min cap z) w now"
    unfolding a_def x_def y_def z_def
    by (rule assess_ok(2) [OF run_scorer_ok [OF assms(2,1)] assms(3)])
  have b: "b = assessment_of subject x y z w now" by (simp add: b_def)
  have score: "ra_score a = ra_score b" if "9 \<le> cap"
    unfolding a b assessment_of_def Let_def risk_assessment.select_convs score_sum weightFor_cap [OF that] ..
  have rest: "ra_level c = riskLevelFor (ra_score c) \<and> ra_blocked c = (riskLevelFor (ra_score c) = Critical) \<and>
      ra_requiresSecondApprover c = (riskLevelFor (ra_score c) = High \<or> riskLevelFor (ra_score c) = Critical)"
    if "c = assessment_of subject i j k w now" for c i j k using that by (simp add: assessment_of_def Let_def)
  have sc: "ra_score a = min 100 ((if rs_requiresSecondApprover subject then 25 else 10) + weightFor (min cap x) VELOCITY +
      weightFor (min cap y) REPETITION + weightFor (min cap z) FAILURES)"
    unfolding a assessment_of_def Let_def risk_assessment.select_convs score_sum ..
  define u v f where "u = weightFor (min cap x) VELOCITY" and "v = weightFor (min cap y) REPETITION"
    and "f = weightFor (min cap z) FAILURES"
  have r: "0 \<le> u" "u \<le> 40" "0 \<le> v" "v \<le> 30" "0 \<le> f" "f \<le> 30" by (simp_all add: u_def v_def f_def weight_range)
  obtain k where k: "ra_score a = min 100 (k + u + v + f)" "10 \<le> k" "k \<le> 25"
    using sc unfolding u_def [symmetric] v_def [symmetric] f_def [symmetric] by (cases "rs_requiresSecondApprover subject") auto
  have "2 \<le> length (filter (\<lambda>f. rf_code f \<noteq> ACTION_BASELINE) (ra_factors a))" if "80 \<le> ra_score a"
  proof -
    have "80 \<le> k + u + v + f" using that k(1) by simp
    then have "0 < u \<and> 0 < v \<or> 0 < u \<and> 0 < f \<or> 0 < v \<and> 0 < f" using r k(3) by presburger
    then show ?thesis
      by (auto simp: a assessment_of_def Let_def candidate_factors_def u_def [symmetric] v_def [symmetric] f_def [symmetric])
  qed
  moreover have "10 \<le> ra_score a \<and> ra_score a \<le> 100" using k r by simp
  ultimately show ?thesis using a score rest [OF a] rest [OF b] level_critical by simp
qed

text \<open>With fewer events per key scores are lost: with at most five, no history ever adds to the velocity.\<close>

lemma small_cap_no_velocity:
  assumes "risk_run w cap t h s" and "0 < cap" and "cap \<le> 5" and "t \<le> now"
  shows "REQUESTER_VELOCITY \<notin> rf_code ` set (ra_factors (fst (assess subject now s)))"
proof -
  have "weightFor (min cap n) VELOCITY = 0" for n using assms(3) by (simp add: weightFor_def VELOCITY_def)
  then show ?thesis
    unfolding assess_ok(2) [OF run_scorer_ok [OF assms(2,1)] assms(4)] by (auto simp: assessment_of_def Let_def candidate_factors_def)
qed

text \<open>Witness of C27: a maintainer's first declaration after a failure.\<close>
theorem risk_score_exact_witness:
  "\<exists>s. risk_run 600000 64 5 [(5, Failure ''m'')] s \<and>
     ra_score (fst (assess \<lparr>rs_action = ''x'', rs_requiresSecondApprover = False, rs_requestedBy = ''m'', rs_target = ''t''\<rparr> 9 s)) = 20"
proof -
  let ?s = "recordFailure ''m'' 5 (RiskScorer_new (Some 600000) (Some 64) None)"
  let ?subject = "\<lparr>rs_action = ''x'', rs_requiresSecondApprover = False, rs_requestedBy = ''m'', rs_target = ''t''\<rparr>"
  have run: "risk_run 600000 64 5 ([] @ [(5, Failure ''m'')]) ?s"
    by (rule risk_run.failure [OF risk_run.start, of 0]) simp
  have "ra_score (fst (assess ?subject 9 ?s)) = ra_score (assessment_of ?subject 0 0 1 600000 9)"
    using risk_score_exact [OF run, of 9 ?subject]
    by (simp add: in_window_def requester_times_def target_times_def failure_times_def)
  moreover have "ra_score (assessment_of ?subject 0 0 1 600000 9) = 20"
    unfolding assessment_of_def Let_def risk_assessment.select_convs score_sum
    by (simp add: weightFor_def VELOCITY_def REPETITION_def FAILURES_def)
  ultimately show ?thesis using run by auto
qed

end
