(* ===== verification/Maintainer_Approval.thy ===== *)
theory Maintainer_Approval
  imports Risk_Scoring Invoice_Model
begin

text \<open>
  The approval flow for high-impact maintainer actions, \<open>backend/src/ops/maintainer-approval.ts\<close>.
  The HMAC under the service's secret, SHA-256, the canonical texts of what is signed and hashed
  (\<open>security/canonical-serialization.ts\<close>) and the redaction of secrets are arguments
  (\<open>approval_env\<close>). \<open>clk k\<close> is the \<open>k\<close>-th reading of the clock within a call. \<open>execute\<close> is the
  synchronous part up to the call of the executor and the part after it; its results are JSON
  values. The keys of the table of actions are the names in their entries. The audit sink
  \<open>onReceipt\<close>, whose failures are swallowed, is left out, and so are score and codes in the text
  of a refusal.
\<close>

subsection \<open>Actions, intents and receipts\<close>

record action_policy =
  ap_action :: string
  ap_requiresSecondApprover :: bool
  ap_ttlMs :: int

definition HIGH_IMPACT_ACTIONS :: "(string \<times> action_policy) list" where
  "HIGH_IMPACT_ACTIONS =
     [(''job.requeue_dead'', \<lparr>ap_action = ''job.requeue_dead'', ap_requiresSecondApprover = False, ap_ttlMs = 15 * 60000\<rparr>),
      (''invoice.cancel'', \<lparr>ap_action = ''invoice.cancel'', ap_requiresSecondApprover = True, ap_ttlMs = 30 * 60000\<rparr>)]"

datatype intent_status = IPending | IApproved | IExecuting | ISucceeded | IFailed | IRejected | IExpired

record maintainer_intent =
  mi_id :: string
  mi_action :: string
  mi_target :: string
  mi_reason :: string
  mi_requestedBy :: string
  mi_approvedBy :: "string option"
  mi_paramsHash :: string
  mi_params :: json
  mi_confirmationPhrase :: string
  mi_createdAt :: int
  mi_expiresAt :: int
  mi_status :: intent_status
  mi_risk :: "risk_assessment option"
  mi_signature :: string

datatype receipt_outcome = OSucceeded | OFailed | ORejected | OExpired

record receipt_body =
  ir_id :: string
  ir_intentId :: string
  ir_action :: string
  ir_target :: string
  ir_reason :: string
  ir_requestedBy :: string
  ir_approvedBy :: "string option"
  ir_executedBy :: "string option"
  ir_paramsHash :: string
  ir_outcome :: receipt_outcome
  ir_result :: json
  ir_error :: "string option"
  ir_intentSignature :: string
  ir_risk :: "risk_assessment option"
  ir_issuedAt :: int
  ir_prevReceiptHash :: "string option"

type_synonym intent_receipt = "receipt_body \<times> string"  \<comment> \<open>body and signature\<close>

datatype approval_error =
    UNKNOWN_ACTION | REQUESTER_REQUIRED | TARGET_REQUIRED | REASON_REQUIRED | RISK_BLOCKED
  | INTENT_NOT_FOUND | INTENT_TAMPERED | INTENT_EXPIRED | INVALID_STATE | APPROVER_REQUIRED | SELF_APPROVAL
  | APPROVAL_REQUIRED | CONFIRMATION_MISMATCH | PARAMS_CHANGED | NO_EXECUTOR

fun approval_httpStatus :: "approval_error \<Rightarrow> nat" where
  "approval_httpStatus UNKNOWN_ACTION = 400"
| "approval_httpStatus REQUESTER_REQUIRED = 400"
| "approval_httpStatus TARGET_REQUIRED = 400"
| "approval_httpStatus REASON_REQUIRED = 400"
| "approval_httpStatus RISK_BLOCKED = 403"
| "approval_httpStatus INTENT_NOT_FOUND = 404"
| "approval_httpStatus INTENT_TAMPERED = 409"
| "approval_httpStatus INTENT_EXPIRED = 410"
| "approval_httpStatus INVALID_STATE = 409"
| "approval_httpStatus APPROVER_REQUIRED = 400"
| "approval_httpStatus SELF_APPROVAL = 403"
| "approval_httpStatus APPROVAL_REQUIRED = 409"
| "approval_httpStatus CONFIRMATION_MISMATCH = 400"
| "approval_httpStatus PARAMS_CHANGED = 409"
| "approval_httpStatus NO_EXECUTOR = 501"

text \<open>What the signature of an intent covers.\<close>

type_synonym signed_part = "string \<times> string \<times> string \<times> string \<times> string \<times> string \<times> int \<times> int \<times> risk_assessment option"

record approval_env =
  ae_hmac :: "string \<Rightarrow> string"
  ae_sha256 :: "string \<Rightarrow> string"
  ae_canonical :: "json \<Rightarrow> string"
  ae_intent_text :: "signed_part \<Rightarrow> string"
  ae_body_text :: "receipt_body \<Rightarrow> string"
  ae_receipt_text :: "intent_receipt \<Rightarrow> string"
  ae_redact :: "string \<Rightarrow> string"

record approval_service =
  as_intents :: "(string, maintainer_intent) jsmap"
  as_receipts :: "intent_receipt list"
  as_executors :: "string list"
  as_actions :: "(string \<times> action_policy) list"
  as_risk :: "risk_scorer option"

text \<open>\<open>None\<close>: the secret is too short.\<close>

definition MaintainerApprovalService_new ::
  "string \<Rightarrow> (string \<times> action_policy) list option \<Rightarrow> risk_scorer option option \<Rightarrow> approval_service option" where
  "MaintainerApprovalService_new secret actions risk =
     (if secret = [] \<or> length secret < 16 then None
      else Some \<lparr>as_intents = [], as_receipts = [], as_executors = [],
        as_actions = (case actions of Some a \<Rightarrow> a | None \<Rightarrow> HIGH_IMPACT_ACTIONS),
        as_risk = (case risk of None \<Rightarrow> Some (RiskScorer_new None None None) | Some r \<Rightarrow> r)\<rparr>)"

definition registerExecutor :: "string \<Rightarrow> approval_service \<Rightarrow> approval_service option" where
  "registerExecutor act s =
     (if map_of (as_actions s) act = None then None
      else Some (s\<lparr>as_executors := act # as_executors s\<rparr>))"

definition isHighImpact :: "string \<Rightarrow> approval_service \<Rightarrow> bool" where
  "isHighImpact act s \<longleftrightarrow> map_of (as_actions s) act \<noteq> None"

definition intentPayload :: "approval_env \<Rightarrow> maintainer_intent \<Rightarrow> string" where
  "intentPayload env i = ae_intent_text env
     (mi_id i, mi_action i, mi_target i, mi_reason i, mi_requestedBy i, mi_paramsHash i, mi_createdAt i, mi_expiresAt i, mi_risk i)"

definition verifyIntent :: "approval_env \<Rightarrow> maintainer_intent \<Rightarrow> bool" where
  "verifyIntent env i \<longleftrightarrow> mi_signature i = ae_hmac env (intentPayload env i) \<and>
     mi_paramsHash i = ae_sha256 env (ae_canonical env (mi_params i))"

definition verifyReceipt :: "approval_env \<Rightarrow> intent_receipt \<Rightarrow> bool" where
  "verifyReceipt env r \<longleftrightarrow> snd r = ae_hmac env (ae_body_text env (fst r))"

fun chain_from :: "approval_env \<Rightarrow> int \<Rightarrow> string option \<Rightarrow> intent_receipt list \<Rightarrow> int" where
  "chain_from env i prev [] = -1"
| "chain_from env i prev (r # rs) =
     (if \<not> verifyReceipt env r \<or> ir_prevReceiptHash (fst r) \<noteq> prev then i
      else chain_from env (i + 1) (Some (ae_sha256 env (ae_receipt_text env r))) rs)"

definition verifyReceiptChain :: "approval_env \<Rightarrow> intent_receipt list \<Rightarrow> int" where
  "verifyReceiptChain env receipts = chain_from env 0 None receipts"

definition last_hash :: "approval_env \<Rightarrow> intent_receipt list \<Rightarrow> string option" where
  "last_hash env rs = (if rs = [] then None else Some (ae_sha256 env (ae_receipt_text env (last rs))))"

definition issueReceipt ::
  "approval_env \<Rightarrow> string \<Rightarrow> int \<Rightarrow> int \<Rightarrow> maintainer_intent \<Rightarrow> receipt_outcome \<Rightarrow> string option \<Rightarrow> json \<Rightarrow> string option \<Rightarrow>
   approval_service \<Rightarrow> intent_receipt \<times> approval_service" where
  "issueReceipt env uuid now1 now2 i outcome executedBy res err s =
     (let body = \<lparr>ir_id = uuid, ir_intentId = mi_id i, ir_action = mi_action i, ir_target = mi_target i, ir_reason = mi_reason i,
            ir_requestedBy = mi_requestedBy i, ir_approvedBy = mi_approvedBy i, ir_executedBy = executedBy,
            ir_paramsHash = mi_paramsHash i, ir_outcome = outcome, ir_result = res, ir_error = err,
            ir_intentSignature = mi_signature i, ir_risk = mi_risk i, ir_issuedAt = now1,
            ir_prevReceiptHash = last_hash env (as_receipts s)\<rparr>;
          receipt = (body, ae_hmac env (ae_body_text env body));
          s1 = s\<lparr>as_receipts := as_receipts s @ [receipt]\<rparr>;
          s2 = (if outcome = OFailed \<or> outcome = ORejected
                then s1\<lparr>as_risk := map_option (recordFailure (mi_requestedBy i) now2) (as_risk s1)\<rparr> else s1)
      in (receipt, s2))"

definition put_intent :: "maintainer_intent \<Rightarrow> approval_service \<Rightarrow> approval_service" where
  "put_intent i s = s\<lparr>as_intents := mset_kv (mi_id i) i (as_intents s)\<rparr>"

record intent_request =
  iq_action :: string
  iq_target :: string
  iq_reason :: string
  iq_requestedBy :: string
  iq_params :: "json option"

definition declared_intent ::
  "approval_env \<Rightarrow> string \<Rightarrow> int \<Rightarrow> action_policy \<Rightarrow> intent_request \<Rightarrow> risk_assessment option \<Rightarrow> maintainer_intent" where
  "declared_intent env uuid created spec input risk =
     (let params = (case iq_params input of Some p \<Rightarrow> p | None \<Rightarrow> JObj []);
          i = \<lparr>mi_id = uuid, mi_action = ap_action spec, mi_target = js_trim (iq_target input), mi_reason = js_trim (iq_reason input),
               mi_requestedBy = js_trim (iq_requestedBy input), mi_approvedBy = None,
               mi_paramsHash = ae_sha256 env (ae_canonical env params), mi_params = params,
               mi_confirmationPhrase = ap_action spec @ '' '' @ js_trim (iq_target input),
               mi_createdAt = created, mi_expiresAt = created + ap_ttlMs spec, mi_status = IPending, mi_risk = risk,
               mi_signature = []\<rparr>
      in i\<lparr>mi_signature := ae_hmac env (intentPayload env i)\<rparr>)"

definition requestIntent ::
  "approval_env \<Rightarrow> string \<Rightarrow> string \<Rightarrow> (nat \<Rightarrow> int) \<Rightarrow> intent_request \<Rightarrow> approval_service \<Rightarrow>
   (approval_error, maintainer_intent) result \<times> approval_service" where
  "requestIntent env uuid receiptId clk input s =
     (case map_of (as_actions s) (iq_action input) of
        None \<Rightarrow> (Inl UNKNOWN_ACTION, s)
      | Some spec \<Rightarrow>
          if js_trim (iq_requestedBy input) = [] then (Inl REQUESTER_REQUIRED, s)
          else if js_trim (iq_target input) = [] then (Inl TARGET_REQUIRED, s)
          else if length (js_trim (iq_reason input)) < 10 then (Inl REASON_REQUIRED, s)
          else
            let requestedBy = js_trim (iq_requestedBy input); target = js_trim (iq_target input);
                assessed = map_option (assess \<lparr>rs_action = ap_action spec,
                  rs_requiresSecondApprover = ap_requiresSecondApprover spec, rs_requestedBy = requestedBy,
                  rs_target = target\<rparr> (clk 1)) (as_risk s);
                risk = map_option fst assessed;
                s1 = s\<lparr>as_risk := map_option (\<lambda>p. recordIntent requestedBy target (clk 2) (snd p)) assessed\<rparr>;
                i = declared_intent env uuid (clk 0) spec input risk;
                s2 = put_intent i s1
            in if (case risk of Some a \<Rightarrow> ra_blocked a | None \<Rightarrow> False)
               then let i' = i\<lparr>mi_status := IRejected\<rparr>;
                        (receipt, s3) = issueReceipt env receiptId (clk 3) (clk 4) i' ORejected None JNull
                          (Some ''Refused by risk policy'') (put_intent i' s2)
                    in (Inl RISK_BLOCKED, s3)
               else (Inr i, s2))"

text \<open>\<open>load\<close>: an expired intent gets its receipt here.\<close>

definition load_intent ::
  "approval_env \<Rightarrow> string \<Rightarrow> (nat \<Rightarrow> int) \<Rightarrow> string \<Rightarrow> approval_service \<Rightarrow>
   (approval_error, maintainer_intent) result \<times> approval_service" where
  "load_intent env receiptId clk k s =
     (case mget (as_intents s) k of
        None \<Rightarrow> (Inl INTENT_NOT_FOUND, s)
      | Some i \<Rightarrow>
          if \<not> verifyIntent env i then (Inl INTENT_TAMPERED, s)
          else if (mi_status i = IPending \<or> mi_status i = IApproved) \<and> clk 0 \<ge> mi_expiresAt i
          then let i' = i\<lparr>mi_status := IExpired\<rparr>;
                   (receipt, s') = issueReceipt env receiptId (clk 1) (clk 2) i' OExpired None JNull
                     (Some ''Intent expired before execution'') (put_intent i' s)
               in (Inl INTENT_EXPIRED, s')
          else (Inr i, s))"

definition approve ::
  "approval_env \<Rightarrow> string \<Rightarrow> (nat \<Rightarrow> int) \<Rightarrow> string \<Rightarrow> string \<Rightarrow> approval_service \<Rightarrow>
   (approval_error, maintainer_intent) result \<times> approval_service" where
  "approve env receiptId clk k approverId s =
     (case load_intent env receiptId clk k s of
        (Inl e, s') \<Rightarrow> (Inl e, s')
      | (Inr i, s') \<Rightarrow>
          if mi_status i \<noteq> IPending then (Inl INVALID_STATE, s')
          else if js_trim approverId = [] then (Inl APPROVER_REQUIRED, s')
          else if js_trim approverId = mi_requestedBy i then (Inl SELF_APPROVAL, s')
          else let i' = i\<lparr>mi_approvedBy := Some (js_trim approverId), mi_status := IApproved\<rparr>
               in (Inr i', put_intent i' s'))"

definition reject_intent ::
  "approval_env \<Rightarrow> string \<Rightarrow> (nat \<Rightarrow> int) \<Rightarrow> string \<Rightarrow> string \<Rightarrow> string \<Rightarrow> approval_service \<Rightarrow>
   (approval_error, intent_receipt) result \<times> approval_service" where
  "reject_intent env receiptId clk k maintainerId why s =
     (case load_intent env receiptId clk k s of
        (Inl e, s') \<Rightarrow> (Inl e, s')
      | (Inr i, s') \<Rightarrow>
          if mi_status i \<noteq> IPending \<and> mi_status i \<noteq> IApproved then (Inl INVALID_STATE, s')
          else let i' = i\<lparr>mi_status := IRejected\<rparr>;
                   (receipt, s'') = issueReceipt env receiptId (clk 1) (clk 2) i' ORejected (Some maintainerId) JNull
                     (Some (ae_redact env (if why = [] then ''rejected'' else why))) (put_intent i' s')
               in (Inr receipt, s''))"

definition needs_second :: "maintainer_intent \<Rightarrow> approval_service \<Rightarrow> bool" where
  "needs_second i s \<longleftrightarrow>
     (case map_of (as_actions s) (mi_action i) of Some spec \<Rightarrow> ap_requiresSecondApprover spec | None \<Rightarrow> False) \<or>
     (case mi_risk i of Some a \<Rightarrow> ra_requiresSecondApprover a | None \<Rightarrow> False)"

definition execute_begin ::
  "approval_env \<Rightarrow> string \<Rightarrow> (nat \<Rightarrow> int) \<Rightarrow> string \<Rightarrow> string \<Rightarrow> json option \<Rightarrow> approval_service \<Rightarrow>
   (approval_error, maintainer_intent) result \<times> approval_service" where
  "execute_begin env receiptId clk k confirmation params s =
     (case load_intent env receiptId clk k s of
        (Inl e, s') \<Rightarrow> (Inl e, s')
      | (Inr i, s') \<Rightarrow>
          let ready = (if needs_second i s' then mi_status i = IApproved else mi_status i = IPending \<or> mi_status i = IApproved)
          in if \<not> ready then (Inl (if mi_status i = IPending then APPROVAL_REQUIRED else INVALID_STATE), s')
             else if confirmation \<noteq> mi_confirmationPhrase i then (Inl CONFIRMATION_MISMATCH, s')
             else if (case params of Some p \<Rightarrow> ae_sha256 env (ae_canonical env p) \<noteq> mi_paramsHash i | None \<Rightarrow> False)
             then (Inl PARAMS_CHANGED, s')
             else if mi_action i \<notin> set (as_executors s') then (Inl NO_EXECUTOR, s')
             else let i' = i\<lparr>mi_status := IExecuting\<rparr> in (Inr i', put_intent i' s'))"

text \<open>The executor ends with a result or throws a message.\<close>

definition execute_end ::
  "approval_env \<Rightarrow> string \<Rightarrow> (nat \<Rightarrow> int) \<Rightarrow> string \<Rightarrow> string \<Rightarrow> json + string \<Rightarrow> approval_service \<Rightarrow>
   intent_receipt option \<times> approval_service" where
  "execute_end env receiptId clk k executedBy outcome s =
     (case mget (as_intents s) k of
        None \<Rightarrow> (None, s)
      | Some i \<Rightarrow>
          (case outcome of
             Inl res \<Rightarrow>
               let i' = i\<lparr>mi_status := ISucceeded\<rparr>;
                   (receipt, s') = issueReceipt env receiptId (clk 0) (clk 1) i' OSucceeded (Some executedBy) res None (put_intent i' s)
               in (Some receipt, s')
           | Inr message \<Rightarrow>
               let i' = i\<lparr>mi_status := IFailed\<rparr>;
                   (receipt, s') = issueReceipt env receiptId (clk 0) (clk 1) i' OFailed (Some executedBy) JNull
                     (Some (take 500 (ae_redact env message))) (put_intent i' s)
               in (Some receipt, s')))"

definition getIntent :: "string \<Rightarrow> approval_service \<Rightarrow> maintainer_intent option" where
  "getIntent k s = mget (as_intents s) k"

definition listIntents :: "intent_status option \<Rightarrow> approval_service \<Rightarrow> maintainer_intent list" where
  "listIntents st s = filter (\<lambda>i. st = None \<or> st = Some (mi_status i)) (map snd (as_intents s))"

definition listReceipts ::
  "receipt_outcome option \<Rightarrow> string option \<Rightarrow> string option \<Rightarrow> approval_service \<Rightarrow> intent_receipt list" where
  "listReceipts outcome intentId target s =
     filter (\<lambda>r. (outcome = None \<or> outcome = Some (ir_outcome (fst r))) \<and>
                 (\<not> truthy intentId \<or> intentId = Some (ir_intentId (fst r))) \<and>
                 (\<not> truthy target \<or> target = Some (ir_target (fst r)))) (as_receipts s)"

definition getReceipt :: "string \<Rightarrow> approval_service \<Rightarrow> intent_receipt option" where
  "getReceipt k s = List.find (\<lambda>r. ir_id (fst r) = k) (as_receipts s)"

end
