(* ===== verification/Approval_Safety.thy ===== *)
theory Approval_Safety
  imports Maintainer_Approval
begin

text \<open>
  What the approval flow promises: nobody approves their own intent, no action that needs a
  second maintainer runs without one, an intent runs at most once, every intent that ended has
  exactly one receipt, and the chain of receipts verifies.
\<close>

subsection \<open>Runs\<close>

text \<open>The set holds the ids of the intents whose executor is running.\<close>

inductive approval_step ::
  "approval_env \<Rightarrow> approval_service \<times> string set \<Rightarrow> approval_service \<times> string set \<Rightarrow> bool" for env where
  request: "requestIntent env uuid rid clk input s = (r, s') \<Longrightarrow> \<not> mhas (as_intents s) uuid \<Longrightarrow>
    approval_step env (s, R) (s', R)"
| approved: "approve env rid clk k approver s = (r, s') \<Longrightarrow> approval_step env (s, R) (s', R)"
| rejected: "reject_intent env rid clk k m why s = (r, s') \<Longrightarrow> approval_step env (s, R) (s', R)"
| started: "execute_begin env rid clk k conf params s = (Inr i, s') \<Longrightarrow> approval_step env (s, R) (s', insert k R)"
| not_started: "execute_begin env rid clk k conf params s = (Inl e, s') \<Longrightarrow> approval_step env (s, R) (s', R)"
| finished: "k \<in> R \<Longrightarrow> execute_end env rid clk k by_whom outcome s = (r, s') \<Longrightarrow> approval_step env (s, R) (s', R - {k})"
| executor: "registerExecutor act s = Some s' \<Longrightarrow> approval_step env (s, R) (s', R)"

inductive approval_reachable :: "approval_env \<Rightarrow> approval_service \<times> string set \<Rightarrow> bool" for env where
  start: "MaintainerApprovalService_new secret actions risk = Some s \<Longrightarrow> approval_reachable env (s, {})"
| step: "approval_reachable env x \<Longrightarrow> approval_step env x y \<Longrightarrow> approval_reachable env y"

subsection \<open>The invariant\<close>

fun receipt_for :: "intent_status \<Rightarrow> receipt_outcome option" where
  "receipt_for ISucceeded = Some OSucceeded"
| "receipt_for IFailed = Some OFailed"
| "receipt_for IRejected = Some ORejected"
| "receipt_for IExpired = Some OExpired"
| "receipt_for _ = None"

definition outcomes :: "string \<Rightarrow> intent_receipt list \<Rightarrow> receipt_outcome list" where
  "outcomes k rs = map (\<lambda>r. ir_outcome (fst r)) (filter (\<lambda>r. ir_intentId (fst r) = k) rs)"

definition intent_ok :: "approval_env \<Rightarrow> approval_service \<Rightarrow> maintainer_intent \<Rightarrow> bool" where
  "intent_ok env s i \<longleftrightarrow> verifyIntent env i \<and>
     (\<forall>a. mi_approvedBy i = Some a \<longrightarrow> a \<noteq> mi_requestedBy i \<and> a \<noteq> []) \<and>
     (mi_status i = IApproved \<longrightarrow> mi_approvedBy i \<noteq> None) \<and>
     (mi_status i \<in> {IExecuting, ISucceeded, IFailed} \<and> needs_second i s \<longrightarrow> mi_approvedBy i \<noteq> None)"

definition approvals_inv :: "approval_env \<Rightarrow> approval_service \<Rightarrow> bool" where
  "approvals_inv env s \<longleftrightarrow>
     (\<forall>k i. mget (as_intents s) k = Some i \<longrightarrow> mi_id i = k \<and> intent_ok env s i \<and>
        outcomes k (as_receipts s) = (case receipt_for (mi_status i) of None \<Rightarrow> [] | Some r \<Rightarrow> [r])) \<and>
     (\<forall>k. mget (as_intents s) k = None \<longrightarrow> outcomes k (as_receipts s) = []) \<and>
     verifyReceiptChain env (as_receipts s) = -1"

lemma approvals_invD:
  assumes "approvals_inv env s" and "mget (as_intents s) k = Some i"
  shows "mi_id i = k" and "intent_ok env s i"
    and "outcomes k (as_receipts s) = (case receipt_for (mi_status i) of None \<Rightarrow> [] | Some r \<Rightarrow> [r])"
  using assms unfolding approvals_inv_def by auto

lemma chain_snoc:
  "0 \<le> n \<Longrightarrow> chain_from env n prev (rs @ [r]) = -1 \<longleftrightarrow>
     chain_from env n prev rs = -1 \<and> verifyReceipt env r \<and>
     ir_prevReceiptHash (fst r) = (if rs = [] then prev else Some (ae_sha256 env (ae_receipt_text env (last rs))))"
  by (induction rs arbitrary: n prev) auto

lemma issue_facts:
  assumes "issueReceipt env u t1 t2 i out ex res err s = (r, s')"
  shows "as_intents s' = as_intents s" and "as_actions s' = as_actions s" and "as_executors s' = as_executors s"
    and "as_receipts s' = as_receipts s @ [r]" and "ir_intentId (fst r) = mi_id i" and "ir_outcome (fst r) = out"
    and "verifyReceiptChain env (as_receipts s) = -1 \<Longrightarrow> verifyReceiptChain env (as_receipts s') = -1"
proof -
  show rs: "as_intents s' = as_intents s" "as_actions s' = as_actions s" "as_executors s' = as_executors s"
    "as_receipts s' = as_receipts s @ [r]" "ir_intentId (fst r) = mi_id i" "ir_outcome (fst r) = out"
    using assms by (auto simp: issueReceipt_def Let_def split: if_splits)
  have "verifyReceipt env r" "ir_prevReceiptHash (fst r) = last_hash env (as_receipts s)"
    using assms by (auto simp: issueReceipt_def Let_def verifyReceipt_def split: if_splits)
  then show "verifyReceiptChain env (as_receipts s) = -1 \<Longrightarrow> verifyReceiptChain env (as_receipts s') = -1"
    by (simp add: rs verifyReceiptChain_def chain_snoc last_hash_def)
qed

lemma needs_second_cong: "as_actions s = as_actions s' \<Longrightarrow> needs_second i s = needs_second i s'"
  by (simp add: needs_second_def)

lemma intent_ok_cong: "as_actions s = as_actions s' \<Longrightarrow> intent_ok env s i = intent_ok env s' i"
  using needs_second_cong [of s s' i] by (simp add: intent_ok_def)

text \<open>Storing an intent that has no receipt yet, and closing one with its receipt.\<close>

lemma inv_put:
  assumes "approvals_inv env s" and "outcomes (mi_id i) (as_receipts s) = []" and "intent_ok env s i"
    and "receipt_for (mi_status i) = None"
  shows "approvals_inv env (put_intent i s)"
proof -
  have sel: "as_intents (put_intent i s) = mset_kv (mi_id i) i (as_intents s)" "as_receipts (put_intent i s) = as_receipts s"
    by (simp_all add: put_intent_def)
  have ok: "intent_ok env (put_intent i s) j = intent_ok env s j" for j by (rule intent_ok_cong) (simp add: put_intent_def)
  show ?thesis
    using assms unfolding approvals_inv_def sel ok by auto
qed

lemma inv_close:
  assumes "approvals_inv env s" and "outcomes (mi_id i) (as_receipts s) = []" and "intent_ok env s i"
    and "receipt_for (mi_status i) = Some out" and "issueReceipt env u t1 t2 i out ex res err (put_intent i s) = (r, s')"
  shows "approvals_inv env s'"
proof -
  note f = issue_facts [OF assms(5)]
  have sel: "as_intents s' = mset_kv (mi_id i) i (as_intents s)" "as_receipts s' = as_receipts s @ [r]" "as_actions s' = as_actions s"
    using f by (simp_all add: put_intent_def)
  have ok: "intent_ok env s' j = intent_ok env s j" for j by (rule intent_ok_cong) (rule sel(3))
  have out: "outcomes k (as_receipts s') = outcomes k (as_receipts s) @ (if k = mi_id i then [out] else [])" for k
    using f(5,6) by (simp add: outcomes_def sel(2))
  have "verifyReceiptChain env (as_receipts s') = -1"
    using f(7) assms(1) by (simp add: approvals_inv_def put_intent_def)
  then show ?thesis
    using assms(1-4) unfolding approvals_inv_def sel(1) ok out by auto
qed

subsection \<open>How intents move\<close>

definition edge :: "intent_status \<Rightarrow> intent_status \<Rightarrow> bool" where
  "edge a b \<longleftrightarrow> (a, b) \<in> {(IPending, IApproved), (IPending, IExecuting), (IPending, IRejected), (IPending, IExpired),
     (IApproved, IExecuting), (IApproved, IRejected), (IApproved, IExpired), (IExecuting, ISucceeded), (IExecuting, IFailed)}"

definition moves :: "maintainer_intent \<Rightarrow> maintainer_intent \<Rightarrow> bool" where
  "moves i i' \<longleftrightarrow> i' = i\<lparr>mi_approvedBy := mi_approvedBy i', mi_status := mi_status i'\<rparr> \<and>
     (i' = i \<or> edge (mi_status i) (mi_status i'))"

definition intents_evolve :: "approval_service \<Rightarrow> approval_service \<Rightarrow> bool" where
  "intents_evolve s s' \<longleftrightarrow> as_actions s' = as_actions s \<and>
     (\<forall>k i. mget (as_intents s) k = Some i \<longrightarrow> (\<exists>i'. mget (as_intents s') k = Some i' \<and> moves i i'))"

lemma moves_refl [simp]: "moves i i"
  by (simp add: moves_def)

lemma intents_evolve_refl [simp]: "intents_evolve s s"
  by (simp add: intents_evolve_def)

lemma intents_evolve_put:
  assumes "as_intents s' = mset_kv k i' (as_intents s)" and "as_actions s' = as_actions s"
    and "mget (as_intents s) k = None \<or> mget (as_intents s) k = Some i \<and> moves i i'"
  shows "intents_evolve s s'"
  using assms by (auto simp: intents_evolve_def)

lemma verifyIntent_frame: "verifyIntent env (i\<lparr>mi_approvedBy := a\<rparr>) = verifyIntent env i"
  "verifyIntent env (i\<lparr>mi_status := st\<rparr>) = verifyIntent env i"
  by (simp_all add: verifyIntent_def intentPayload_def)

lemma needs_second_frame: "needs_second (i\<lparr>mi_approvedBy := a\<rparr>) s = needs_second i s"
  "needs_second (i\<lparr>mi_status := st\<rparr>) s = needs_second i s"
  by (simp_all add: needs_second_def)

text \<open>Moving a stored intent that has not ended.\<close>

lemma move_put:
  assumes "approvals_inv env s" and "mget (as_intents s) k = Some i" and "receipt_for (mi_status i) = None"
    and "moves i i'" and "intent_ok env s i'" and "receipt_for (mi_status i') = None"
  shows "approvals_inv env (put_intent i' s) \<and> intents_evolve s (put_intent i' s)"
proof -
  have k: "mi_id i = k" "outcomes k (as_receipts s) = []" using approvals_invD [OF assms(1,2)] assms(3) by simp_all
  have "mi_id i' = mi_id (i\<lparr>mi_approvedBy := mi_approvedBy i', mi_status := mi_status i'\<rparr>)"
    using assms(4) unfolding moves_def by metis
  then have k': "mi_id i' = k" using k(1) by simp
  have "approvals_inv env (put_intent i' s)" using inv_put [OF assms(1) _ assms(5,6)] k(2) k' by simp
  moreover have "intents_evolve s (put_intent i' s)"
    by (rule intents_evolve_put [where k = k and i = i and i' = i']) (use assms(2,4) k' in \<open>simp_all add: put_intent_def\<close>)
  ultimately show ?thesis ..
qed

lemma move_close:
  assumes "approvals_inv env s" and "mget (as_intents s) k = Some i" and "receipt_for (mi_status i) = None"
    and "edge (mi_status i) st" and "intent_ok env s (i\<lparr>mi_status := st\<rparr>)" and "receipt_for st = Some out"
    and "issueReceipt env u t1 t2 (i\<lparr>mi_status := st\<rparr>) out ex res err (put_intent (i\<lparr>mi_status := st\<rparr>) s) = (r, s')"
  shows "approvals_inv env s' \<and> intents_evolve s s'"
proof -
  let ?i = "i\<lparr>mi_status := st\<rparr>"
  have k: "mi_id ?i = k" "outcomes k (as_receipts s) = []" using approvals_invD [OF assms(1,2)] assms(3) by simp_all
  have "approvals_inv env s'" using inv_close [OF assms(1) _ assms(5) _ assms(7)] assms(6) k by simp
  moreover have "intents_evolve s s'"
    by (rule intents_evolve_put [where k = k and i = i and i' = ?i])
      (use issue_facts [OF assms(7)] assms(2,4) k(1) in \<open>simp_all add: put_intent_def moves_def\<close>)
  ultimately show ?thesis ..
qed

lemma open_status: "receipt_for st = None \<longleftrightarrow> st \<in> {IPending, IApproved, IExecuting}"
  by (cases st) auto

lemma load_facts:
  assumes "approvals_inv env s" and "load_intent env rid clk k s = (r, s')"
  shows "approvals_inv env s' \<and> intents_evolve s s'"
    and "r = Inr i \<Longrightarrow> s' = s \<and> mget (as_intents s) k = Some i \<and> intent_ok env s i"
    and "r \<noteq> Inl INTENT_TAMPERED"
proof -
  have "(approvals_inv env s' \<and> intents_evolve s s') \<and> (\<forall>i. r = Inr i \<longrightarrow> s' = s \<and> mget (as_intents s) k = Some i \<and> intent_ok env s i) \<and>
      r \<noteq> Inl INTENT_TAMPERED"
  proof (cases "mget (as_intents s) k")
    case None
    then show ?thesis using assms by (simp add: load_intent_def) blast
  next
    case (Some i)
    have ok: "intent_ok env s i" by (rule approvals_invD(2) [OF assms(1) Some])
    then have v: "verifyIntent env i" by (simp add: intent_ok_def)
    show ?thesis
    proof (cases "(mi_status i = IPending \<or> mi_status i = IApproved) \<and> clk 0 \<ge> mi_expiresAt i")
      case True
      obtain rc s1 where rcpt: "issueReceipt env rid (clk 1) (clk 2) (i\<lparr>mi_status := IExpired\<rparr>) OExpired None JNull
          (Some ''Intent expired before execution'') (put_intent (i\<lparr>mi_status := IExpired\<rparr>) s) = (rc, s1)" by fastforce
      have "approvals_inv env s1 \<and> intents_evolve s s1"
        by (rule move_close [OF assms(1) Some _ _ _ _ rcpt])
          (use True ok in \<open>auto simp: edge_def intent_ok_def verifyIntent_frame\<close>)
      moreover have "r = Inl INTENT_EXPIRED" "s' = s1" using assms(2) Some v True rcpt by (simp_all add: load_intent_def)
      ultimately show ?thesis by simp
    next
      case False
      then have "r = Inr i" "s' = s" using assms(2) Some v by (auto simp: load_intent_def)
      then show ?thesis using assms(1) Some ok by simp
    qed
  qed
  then show "approvals_inv env s' \<and> intents_evolve s s'" "r = Inr i \<Longrightarrow> s' = s \<and> mget (as_intents s) k = Some i \<and> intent_ok env s i"
    "r \<noteq> Inl INTENT_TAMPERED" by blast+
qed

text \<open>The intents whose executor is running, and how a stored intent changes that.\<close>

definition running :: "approval_service \<Rightarrow> string set" where
  "running s = {k. \<exists>i. mget (as_intents s) k = Some i \<and> mi_status i = IExecuting}"

lemma running_set:
  assumes "as_intents s' = mset_kv k i (as_intents s)"
  shows "running s' = (if mi_status i = IExecuting then insert k (running s) else running s - {k})"
  using assms by (auto simp: running_def split: if_splits)

lemma running_same: "as_intents s' = as_intents s \<Longrightarrow> running s' = running s"
  by (simp add: running_def)

lemma put_sel [simp]:
  "as_intents (put_intent i s) = mset_kv (mi_id i) i (as_intents s)" "as_actions (put_intent i s) = as_actions s"
  "as_receipts (put_intent i s) = as_receipts s"
  by (simp_all add: put_intent_def)

lemma running_put:
  "running (put_intent i s) = (if mi_status i = IExecuting then insert (mi_id i) (running s) else running s - {mi_id i})"
  by (rule running_set) simp

lemma running_close:
  assumes "issueReceipt env u t1 t2 i out ex res err (put_intent i s) = (r, s')" and "mi_status i \<noteq> IExecuting"
  shows "running s' = running s - {mi_id i}"
  using issue_facts(1) [OF assms(1)] running_same [of s' "put_intent i s"] assms(2) by (simp add: running_put)

lemma not_running:
  "mget (as_intents s) k = Some i \<Longrightarrow> mi_status i \<noteq> IExecuting \<Longrightarrow> running s - {k} = running s"
  by (auto simp: running_def)

lemma load_running:
  assumes "approvals_inv env s" and "load_intent env rid clk k s = (r, s')"
  shows "running s' = running s"
proof (cases "mget (as_intents s) k")
  case (Some i)
  have k: "mi_id i = k" by (rule approvals_invD(1) [OF assms(1) Some])
  show ?thesis
  proof (cases "verifyIntent env i \<and> (mi_status i = IPending \<or> mi_status i = IApproved) \<and> clk 0 \<ge> mi_expiresAt i")
    case True
    obtain rc s1 where rcpt: "issueReceipt env rid (clk 1) (clk 2) (i\<lparr>mi_status := IExpired\<rparr>) OExpired None JNull
        (Some ''Intent expired before execution'') (put_intent (i\<lparr>mi_status := IExpired\<rparr>) s) = (rc, s1)" by fastforce
    have "s' = s1" using assms(2) Some True rcpt by (simp add: load_intent_def)
    moreover have "running s - {k} = running s" by (rule not_running [OF Some]) (use True in auto)
    moreover have "running s1 = running s - {k}" using running_close [OF rcpt] k by simp
    ultimately show ?thesis by simp
  next
    case False
    then show ?thesis using assms(2) Some by (auto simp: load_intent_def split: if_splits)
  qed
qed (use assms(2) in \<open>simp add: load_intent_def\<close>)

subsection \<open>Every operation ap_keeps the invariant\<close>

definition ap_keeps :: "approval_env \<Rightarrow> approval_service \<Rightarrow> approval_service \<Rightarrow> string set \<Rightarrow> bool" where
  "ap_keeps env s s' R \<longleftrightarrow> (approvals_inv env s' \<and> intents_evolve s s') \<and> running s' = R"

lemma approve_keeps:
  assumes "approvals_inv env s" and "approve env rid clk k approver s = (r, s')"
  shows "ap_keeps env s s' (running s)"
proof -
  obtain q s1 where l: "load_intent env rid clk k s = (q, s1)" by fastforce
  note lf = load_facts [OF assms(1) l] and lr = load_running [OF assms(1) l]
  show ?thesis
  proof (cases q)
    case (Inr i)
    note i = lf(2) [OF Inr]
    then have m: "mget (as_intents s) k = Some i" and ok: "intent_ok env s i" and s1: "s1 = s" by simp_all
    have k: "mi_id i = k" by (rule approvals_invD(1) [OF assms(1) m])
    show ?thesis
    proof (cases "mi_status i = IPending \<and> js_trim approver \<noteq> [] \<and> js_trim approver \<noteq> mi_requestedBy i")
      case True
      let ?i = "i\<lparr>mi_approvedBy := Some (js_trim approver), mi_status := IApproved\<rparr>"
      have "s' = put_intent ?i s" using assms(2) l Inr s1 True by (simp add: approve_def Let_def)
      moreover have "approvals_inv env (put_intent ?i s) \<and> intents_evolve s (put_intent ?i s)"
        by (rule move_put [OF assms(1) m])
          (use True ok in \<open>simp_all add: moves_def edge_def intent_ok_def verifyIntent_frame\<close>)
      ultimately show ?thesis using not_running [OF m] True k by (simp add: ap_keeps_def running_put)
    next
      case False
      then have "s' = s" using assms(2) l Inr s1 by (auto simp: approve_def split: if_splits)
      then show ?thesis using assms(1) by (simp add: ap_keeps_def)
    qed
  qed (use lf(1) lr assms(2) l in \<open>simp add: ap_keeps_def approve_def\<close>)
qed

lemma reject_keeps:
  assumes "approvals_inv env s" and "reject_intent env rid clk k mt why s = (r, s')"
  shows "ap_keeps env s s' (running s)"
proof -
  obtain q s1 where l: "load_intent env rid clk k s = (q, s1)" by fastforce
  note lf = load_facts [OF assms(1) l] and lr = load_running [OF assms(1) l]
  show ?thesis
  proof (cases q)
    case (Inr i)
    note i = lf(2) [OF Inr]
    then have m: "mget (as_intents s) k = Some i" and ok: "intent_ok env s i" and s1: "s1 = s" by simp_all
    have k: "mi_id i = k" by (rule approvals_invD(1) [OF assms(1) m])
    let ?i = "i\<lparr>mi_status := IRejected\<rparr>"
    obtain rc s2 where rcpt: "issueReceipt env rid (clk 1) (clk 2) ?i ORejected (Some mt) JNull
        (Some (ae_redact env (if why = [] then ''rejected'' else why))) (put_intent ?i s) = (rc, s2)" by fastforce
    show ?thesis
    proof (cases "mi_status i = IPending \<or> mi_status i = IApproved")
      case True
      have "s' = s2" using assms(2) l Inr s1 True rcpt by (auto simp: reject_intent_def Let_def)
      moreover have "approvals_inv env s2 \<and> intents_evolve s s2"
        by (rule move_close [OF assms(1) m _ _ _ _ rcpt])
          (use True ok in \<open>auto simp: edge_def intent_ok_def verifyIntent_frame\<close>)
      moreover have "running s - {k} = running s" by (rule not_running [OF m]) (use True in auto)
      moreover have "running s2 = running s - {k}" using running_close [OF rcpt] k by simp
      ultimately show ?thesis by (simp add: ap_keeps_def)
    next
      case False
      then have "s' = s" using assms(2) l Inr s1 by (auto simp: reject_intent_def)
      then show ?thesis using assms(1) by (simp add: ap_keeps_def)
    qed
  qed (use lf(1) lr assms(2) l in \<open>simp add: ap_keeps_def reject_intent_def\<close>)
qed

lemma execute_begin_keeps:
  assumes "approvals_inv env s" and "execute_begin env rid clk k conf params s = (r, s')"
  shows "ap_keeps env s s' (if isl r then running s else insert k (running s))"
    and "r = Inr i \<Longrightarrow> (\<exists>j. mget (as_intents s) k = Some j \<and> i = j\<lparr>mi_status := IExecuting\<rparr> \<and> s' = put_intent i s \<and>
           conf = mi_confirmationPhrase j \<and> k \<notin> running s \<and>
           (params = None \<or> ae_sha256 env (ae_canonical env (the params)) = mi_paramsHash j))"
proof -
  obtain q s1 where l: "load_intent env rid clk k s = (q, s1)" by fastforce
  note lf = load_facts [OF assms(1) l] and lr = load_running [OF assms(1) l]
  have "ap_keeps env s s' (if isl r then running s else insert k (running s)) \<and>
    (r = Inr i \<longrightarrow> (\<exists>j. mget (as_intents s) k = Some j \<and> i = j\<lparr>mi_status := IExecuting\<rparr> \<and> s' = put_intent i s \<and> conf = mi_confirmationPhrase j \<and>
      k \<notin> running s \<and> (params = None \<or> ae_sha256 env (ae_canonical env (the params)) = mi_paramsHash j)))"
  proof (cases q)
    case (Inr j)
    note j = lf(2) [OF Inr]
    then have m: "mget (as_intents s) k = Some j" and ok: "intent_ok env s j" and s1: "s1 = s" by simp_all
    have k: "mi_id j = k" by (rule approvals_invD(1) [OF assms(1) m])
    let ?j = "j\<lparr>mi_status := IExecuting\<rparr>"
    define ready where "ready = (if needs_second j s then mi_status j = IApproved else mi_status j = IPending \<or> mi_status j = IApproved)"
    define same where "same = (case params of Some p \<Rightarrow> ae_sha256 env (ae_canonical env p) = mi_paramsHash j | None \<Rightarrow> True)"
    have bad: "(case params of Some p \<Rightarrow> ae_sha256 env (ae_canonical env p) \<noteq> mi_paramsHash j | None \<Rightarrow> False) = (\<not> same)"
      by (simp add: same_def split: option.splits)
    have res: "(r, s') = (if \<not> ready then (Inl (if mi_status j = IPending then APPROVAL_REQUIRED else INVALID_STATE), s)
        else if conf \<noteq> mi_confirmationPhrase j then (Inl CONFIRMATION_MISMATCH, s)
        else if \<not> same then (Inl PARAMS_CHANGED, s)
        else if mi_action j \<notin> set (as_executors s) then (Inl NO_EXECUTOR, s) else (Inr ?j, put_intent ?j s))"
      unfolding assms(2) [symmetric] by (simp only: execute_begin_def l Inr s1 prod.case sum.case Let_def ready_def bad)
    show ?thesis
    proof (cases "ready \<and> conf = mi_confirmationPhrase j \<and> same \<and> mi_action j \<in> set (as_executors s)")
      case True
      have op: "mi_status j = IPending \<or> mi_status j = IApproved" using True by (auto simp: ready_def split: if_splits)
      have r: "r = Inr ?j" "s' = put_intent ?j s" using res True by simp_all
      have "approvals_inv env s' \<and> intents_evolve s s'"
        unfolding r(2) by (rule move_put [OF assms(1) m])
          (use True op ok in \<open>auto simp: moves_def edge_def intent_ok_def verifyIntent_frame needs_second_frame ready_def\<close>)
      moreover have "running s' = insert k (running s)" by (simp add: r(2) running_put k)
      moreover have "k \<notin> running s" using op by (auto simp: running_def m)
      ultimately show ?thesis using True r m by (auto simp: ap_keeps_def same_def split: option.splits)
    next
      case False
      then have "isl r" "s' = s" using res by (auto split: if_splits)
      then show ?thesis using assms(1) by (auto simp: ap_keeps_def)
    qed
  next
    case (Inl e)
    then have "r = Inl e" "s' = s1" using assms(2) l by (simp_all add: execute_begin_def)
    then show ?thesis using lf(1) lr by (simp add: ap_keeps_def)
  qed
  then show "ap_keeps env s s' (if isl r then running s else insert k (running s))"
    and "r = Inr i \<Longrightarrow> (\<exists>j. mget (as_intents s) k = Some j \<and> i = j\<lparr>mi_status := IExecuting\<rparr> \<and> s' = put_intent i s \<and> conf = mi_confirmationPhrase j \<and>
      k \<notin> running s \<and> (params = None \<or> ae_sha256 env (ae_canonical env (the params)) = mi_paramsHash j))"
    by blast+
qed

lemma close_running:
  assumes "approvals_inv env s" and "k \<in> running s" and "mget (as_intents s) k = Some i" and "st = ISucceeded \<or> st = IFailed"
    and "receipt_for st = Some out"
    and "issueReceipt env u t1 t2 (i\<lparr>mi_status := st\<rparr>) out ex res err (put_intent (i\<lparr>mi_status := st\<rparr>) s) = (r, s')"
  shows "ap_keeps env s s' (running s - {k})"
proof -
  have st: "mi_status i = IExecuting" using assms(2,3) by (simp add: running_def)
  have ok: "intent_ok env s i" "mi_id i = k" by (rule approvals_invD [OF assms(1,3)])+
  have "approvals_inv env s' \<and> intents_evolve s s'"
    by (rule move_close [OF assms(1,3) _ _ _ assms(5,6)])
      (use st ok assms(4) in \<open>auto simp: edge_def intent_ok_def verifyIntent_frame needs_second_frame\<close>)
  then show ?thesis using running_close [OF assms(6)] assms(4) ok(2) by (auto simp: ap_keeps_def)
qed

lemma execute_end_keeps:
  assumes "approvals_inv env s" and "k \<in> running s" and "execute_end env rid clk k who outcome s = (r, s')"
  shows "ap_keeps env s s' (running s - {k})"
proof -
  obtain i where i: "mget (as_intents s) k = Some i" using assms(2) by (auto simp: running_def)
  show ?thesis
  proof (cases outcome)
    case (Inl res)
    let ?i = "i\<lparr>mi_status := ISucceeded\<rparr>"
    obtain rc s1 where c: "issueReceipt env rid (clk 0) (clk 1) ?i OSucceeded (Some who) res None (put_intent ?i s) = (rc, s1)" by fastforce
    have "s' = s1" using assms(3) i Inl c by (simp add: execute_end_def)
    then show ?thesis using close_running [OF assms(1,2) i _ _ c] by simp
  next
    case (Inr msg)
    let ?i = "i\<lparr>mi_status := IFailed\<rparr>"
    obtain rc s1 where c: "issueReceipt env rid (clk 0) (clk 1) ?i OFailed (Some who) JNull
        (Some (take 500 (ae_redact env msg))) (put_intent ?i s) = (rc, s1)" by fastforce
    have "s' = s1" using assms(3) i Inr c by (simp add: execute_end_def)
    then show ?thesis using close_running [OF assms(1,2) i _ _ c] by simp
  qed
qed

lemma declared_facts:
  "mi_id (declared_intent env uuid t spec input rk) = uuid" "mi_status (declared_intent env uuid t spec input rk) = IPending"
  "mi_approvedBy (declared_intent env uuid t spec input rk) = None" "verifyIntent env (declared_intent env uuid t spec input rk)"
  by (simp_all add: declared_intent_def Let_def verifyIntent_def intentPayload_def)

lemma risk_frame:
  "approvals_inv env (s\<lparr>as_risk := rk\<rparr>) = approvals_inv env s" "running (s\<lparr>as_risk := rk\<rparr>) = running s"
  by (simp_all add: approvals_inv_def running_def intent_ok_cong [of "s\<lparr>as_risk := rk\<rparr>" s])

lemma fresh_put:
  assumes "approvals_inv env s" and "\<not> mhas (as_intents s) (mi_id i)" and "mi_status i = IPending"
    and "mi_approvedBy i = None" and "verifyIntent env i"
  shows "ap_keeps env s (put_intent i s) (running s)"
proof -
  have n: "mget (as_intents s) (mi_id i) = None" using assms(2) by simp
  then have "outcomes (mi_id i) (as_receipts s) = []" using assms(1) by (simp add: approvals_inv_def)
  then have "approvals_inv env (put_intent i s)"
    by (rule inv_put [OF assms(1)]) (use assms(3-5) in \<open>simp_all add: intent_ok_def\<close>)
  moreover have "intents_evolve s (put_intent i s)" by (rule intents_evolve_put [where k = "mi_id i"]) (use n in simp_all)
  moreover have "running (put_intent i s) = running s" using n assms(3) by (auto simp: running_put running_def)
  ultimately show ?thesis by (simp add: ap_keeps_def)
qed

lemma put_put: "mi_id i' = mi_id i \<Longrightarrow> put_intent i' (put_intent i s) = put_intent i' s"
  by (simp add: put_intent_def mset_kv_twice)

lemma fresh_close:
  assumes "approvals_inv env s" and "\<not> mhas (as_intents s) (mi_id i)" and "mi_status i = IRejected"
    and "mi_approvedBy i = None" and "verifyIntent env i"
    and "issueReceipt env u t1 t2 i ORejected ex res err (put_intent i s) = (r, s')"
  shows "ap_keeps env s s' (running s)"
proof -
  have n: "mget (as_intents s) (mi_id i) = None" using assms(2) by simp
  then have "outcomes (mi_id i) (as_receipts s) = []" using assms(1) by (simp add: approvals_inv_def)
  then have "approvals_inv env s'"
    by (rule inv_close [OF assms(1) _ _ _ assms(6)]) (use assms(3-5) in \<open>simp_all add: intent_ok_def\<close>)
  moreover have "intents_evolve s s'"
    by (rule intents_evolve_put [where k = "mi_id i" and i' = i]) (use n issue_facts [OF assms(6)] in simp_all)
  moreover have "running s' = running s" using running_close [OF assms(6)] n assms(3) by (auto simp: running_def)
  ultimately show ?thesis by (simp add: ap_keeps_def)
qed

lemma request_keeps:
  assumes "approvals_inv env s" and "requestIntent env uuid rid clk input s = (r, s')" and "\<not> mhas (as_intents s) uuid"
  shows "ap_keeps env s s' (running s)"
proof (cases "map_of (as_actions s) (iq_action input) = None \<or> js_trim (iq_requestedBy input) = [] \<or>
    js_trim (iq_target input) = [] \<or> length (js_trim (iq_reason input)) < 10")
  case True
  then have "s' = s" using assms(2) by (auto simp: requestIntent_def split: option.splits if_splits)
  then show ?thesis using assms(1) by (simp add: ap_keeps_def)
next
  case False
  then obtain spec where spec: "map_of (as_actions s) (iq_action input) = Some spec" by auto
  define assessed where "assessed = map_option (assess \<lparr>rs_action = ap_action spec,
    rs_requiresSecondApprover = ap_requiresSecondApprover spec, rs_requestedBy = js_trim (iq_requestedBy input),
    rs_target = js_trim (iq_target input)\<rparr> (clk 1)) (as_risk s)"
  define s1 where "s1 = s\<lparr>as_risk := map_option (\<lambda>p. recordIntent (js_trim (iq_requestedBy input)) (js_trim (iq_target input)) (clk 2) (snd p)) assessed\<rparr>"
  define i where "i = declared_intent env uuid (clk 0) spec input (map_option fst assessed)"
  define blocked where "blocked = (case map_option fst assessed of Some a \<Rightarrow> ra_blocked a | None \<Rightarrow> False)"
  obtain rc s3 where rcpt: "issueReceipt env rid (clk 3) (clk 4) (i\<lparr>mi_status := IRejected\<rparr>) ORejected None JNull
      (Some ''Refused by risk policy'') (put_intent (i\<lparr>mi_status := IRejected\<rparr>) s1) = (rc, s3)" by fastforce
  have i: "mi_id i = uuid" "mi_status i = IPending" "mi_approvedBy i = None" "verifyIntent env i"
    unfolding i_def by (rule declared_facts)+
  have s1: "approvals_inv env s1" "\<not> mhas (as_intents s1) uuid" "running s1 = running s"
    using assms(1,3) by (simp_all add: s1_def risk_frame)
  have ev: "ap_keeps env s1 x R \<Longrightarrow> ap_keeps env s x R" for x R
    by (simp add: ap_keeps_def intents_evolve_def s1_def)
  have pp: "put_intent (i\<lparr>mi_status := IRejected\<rparr>) (put_intent i s1) = put_intent (i\<lparr>mi_status := IRejected\<rparr>) s1"
    by (rule put_put) simp
  have g: "js_trim (iq_requestedBy input) \<noteq> []" "js_trim (iq_target input) \<noteq> []" "\<not> length (js_trim (iq_reason input)) < 10"
    using False by simp_all
  have "requestIntent env uuid rid clk input s =
      (if blocked then (Inl RISK_BLOCKED, s3) else (Inr i, put_intent i s1))"
    by (simp only: requestIntent_def spec option.case g if_False Let_def assessed_def [symmetric] s1_def [symmetric]
        i_def [symmetric] blocked_def [symmetric] pp rcpt prod.case)
  then have "s' = (if blocked then s3 else put_intent i s1)" using assms(2) by (simp split: if_splits)
  moreover have "ap_keeps env s1 (put_intent i s1) (running s1)"
    by (rule fresh_put) (use s1 i in simp_all)
  moreover have "ap_keeps env s1 s3 (running s1)"
    by (rule fresh_close [OF s1(1) _ _ _ _ rcpt]) (use s1 i in \<open>simp_all add: verifyIntent_frame\<close>)
  ultimately show ?thesis using ev s1(3) by simp
qed

lemma step_keeps:
  assumes "approval_step env x y" and "approvals_inv env (fst x)" and "running (fst x) = snd x"
  shows "ap_keeps env (fst x) (fst y) (snd y)"
  using assms
proof (induction rule: approval_step.induct)
  case (request uuid rid clk input s r s' R)
  then show ?case using request_keeps by fastforce
next
  case (approved rid clk k approver s r s' R)
  then show ?case using approve_keeps by fastforce
next
  case (rejected rid clk k m why s r s' R)
  then show ?case using reject_keeps by fastforce
next
  case (started rid clk k conf params s i s' R)
  then show ?case using execute_begin_keeps(1) [OF _ started(1)] by simp
next
  case (not_started rid clk k conf params s e s' R)
  then show ?case using execute_begin_keeps(1) [OF _ not_started(1)] by simp
next
  case (finished k R rid clk who outcome s r s')
  then show ?case using execute_end_keeps [OF _ _ finished(2)] by simp
next
  case (executor act s s' R)
  then have s': "s' = s\<lparr>as_executors := act # as_executors s\<rparr>" by (simp add: registerExecutor_def split: if_splits)
  have "approvals_inv env s' = approvals_inv env s"
    unfolding s' approvals_inv_def using intent_ok_cong [of "s\<lparr>as_executors := act # as_executors s\<rparr>" s] by simp
  then show ?case using executor(2,3) by (simp add: ap_keeps_def s' intents_evolve_def running_def)
qed

lemma reachable_inv: "approval_reachable env x \<Longrightarrow> approvals_inv env (fst x) \<and> running (fst x) = snd x"
proof (induction rule: approval_reachable.induct)
  case (start secret actions risk s)
  then have "as_intents s = []" "as_receipts s = []" by (auto simp: MaintainerApprovalService_new_def split: if_splits)
  then show ?case by (simp add: approvals_inv_def outcomes_def verifyReceiptChain_def running_def)
next
  case (step x y)
  then show ?case using step_keeps [of env x y] by (simp add: ap_keeps_def)
qed

text \<open>Once an intent has begun to run it is running or over, whatever else happens.\<close>

definition begun :: "approval_service \<Rightarrow> string \<Rightarrow> bool" where
  "begun s k \<longleftrightarrow> (\<exists>i. mget (as_intents s) k = Some i \<and> mi_status i \<in> {IExecuting, ISucceeded, IFailed})"

lemma begun_evolve: "intents_evolve s s' \<Longrightarrow> begun s k \<Longrightarrow> begun s' k"
  unfolding begun_def intents_evolve_def moves_def edge_def by fastforce

lemma begun_blocks:
  assumes "approvals_inv env s" and "begun s k"
  shows "execute_begin env rid clk k conf params s \<noteq> (Inr i, s')"
proof
  assume e: "execute_begin env rid clk k conf params s = (Inr i, s')"
  obtain j where j: "mget (as_intents s) k = Some j" "mi_status j \<in> {IExecuting, ISucceeded, IFailed}"
    using assms(2) by (auto simp: begun_def)
  have "verifyIntent env j" using approvals_invD(2) [OF assms(1) j(1)] by (simp add: intent_ok_def)
  then have "load_intent env rid clk k s = (Inr j, s)" using j by (auto simp: load_intent_def)
  then show False using e j(2) by (auto simp: execute_begin_def Let_def split: if_splits)
qed

lemma steps_begun:
  assumes "(approval_step env)\<^sup>*\<^sup>* x y" and "approval_reachable env x" and "begun (fst x) k"
  shows "approval_reachable env y \<and> begun (fst y) k"
  using assms
proof (induction rule: rtranclp_induct)
  case (step y z)
  then have y: "approval_reachable env y" "begun (fst y) k" by simp_all
  have "intents_evolve (fst y) (fst z)" using step_keeps [OF step(2)] reachable_inv [OF y(1)] by (simp add: ap_keeps_def)
  then show ?case using approval_reachable.step [OF y(1) step(2)] begun_evolve y(2) by blast
qed simp

subsection \<open>Claims\<close>

text \<open>
  C6: in every reachable state of the approval service, a stored intent was never approved by its
  own requester; an intent that is running or ran, and whose action or risk asks for a second
  maintainer, has one; it has one receipt exactly when it ended, with the outcome that its
  status says; it is running exactly when its executor is; and the receipt chain verifies.
\<close>

theorem approvals_sound:
  assumes "approval_reachable env (s, R)" and "mget (as_intents s) k = Some i"
  shows "mi_approvedBy i \<noteq> Some (mi_requestedBy i) \<and>
     (needs_second i s \<and> mi_status i \<in> {IExecuting, ISucceeded, IFailed} \<longrightarrow> mi_approvedBy i \<noteq> None) \<and>
     map (\<lambda>r. ir_outcome (fst r)) (filter (\<lambda>r. ir_intentId (fst r) = k) (as_receipts s)) =
       (case receipt_for (mi_status i) of None \<Rightarrow> [] | Some r \<Rightarrow> [r]) \<and>
     (k \<in> R \<longleftrightarrow> mi_status i = IExecuting) \<and> verifyReceiptChain env (as_receipts s) = -1"
proof -
  have v: "approvals_inv env s" "running s = R" using reachable_inv [OF assms(1)] by simp_all
  note d = approvals_invD [OF v(1) assms(2)]
  have "k \<in> R \<longleftrightarrow> mi_status i = IExecuting" using v(2) assms(2) by (auto simp: running_def)
  moreover have "verifyReceiptChain env (as_receipts s) = -1" using v(1) by (simp add: approvals_inv_def)
  ultimately show ?thesis using d(2,3) by (auto simp: intent_ok_def outcomes_def)
qed

text \<open>
  C17: when an intent starts to run, its phrase was confirmed and the parameters given match the
  declared ones; where a second maintainer is needed, one other than the requester approved; and
  from then on, whatever operations follow, no call starts it again.
\<close>

theorem intent_single_use:
  assumes "approval_reachable env (s, R)" and "execute_begin env rid clk k conf params s = (Inr i, s1)"
    and "(approval_step env)\<^sup>*\<^sup>* (s1, insert k R) (s2, R2)"
  shows "conf = mi_confirmationPhrase i \<and>
     (params = None \<or> ae_sha256 env (ae_canonical env (the params)) = mi_paramsHash i) \<and>
     (needs_second i s \<longrightarrow> (\<exists>a. mi_approvedBy i = Some a \<and> a \<noteq> mi_requestedBy i)) \<and>
     execute_begin env rid' clk' k conf' params' s2 \<noteq> (Inr i', s3)"
proof -
  have v: "approvals_inv env s" "running s = R" using reachable_inv [OF assms(1)] by simp_all
  have st: "approval_step env (s, R) (s1, insert k R)" by (rule started [OF assms(2)])
  have r1: "approval_reachable env (s1, insert k R)" by (rule approval_reachable.step [OF assms(1) st])
  obtain j where j: "mget (as_intents s) k = Some j" "i = j\<lparr>mi_status := IExecuting\<rparr>" "s1 = put_intent i s" "conf = mi_confirmationPhrase j"
      "params = None \<or> ae_sha256 env (ae_canonical env (the params)) = mi_paramsHash j"
    using execute_begin_keeps(2) [OF v(1) assms(2) refl] by blast
  have ev: "intents_evolve s s1" "approvals_inv env s1" "running s1 = insert k R"
    using execute_begin_keeps(1) [OF v(1) assms(2)] v(2) by (simp_all add: ap_keeps_def)
  obtain i1 where i1: "mget (as_intents s1) k = Some i1" "mi_status i1 = IExecuting" using ev(3) by (auto simp: running_def)
  have "begun s1 k" using i1 by (auto simp: begun_def)
  then have "approval_reachable env (s2, R2)" "begun s2 k" using steps_begun [OF assms(3) r1] by simp_all
  then have again: "execute_begin env rid' clk' k conf' params' s2 \<noteq> (Inr i', s3)"
    using begun_blocks reachable_inv by fastforce
  have acts: "as_actions s1 = as_actions s" using ev(1) by (simp add: intents_evolve_def)
  have "i1 = i" using i1(1) j(2,3) approvals_invD(1) [OF v(1) j(1)] by simp
  then have "needs_second i s1 \<longrightarrow> (\<exists>a. mi_approvedBy i = Some a \<and> a \<noteq> mi_requestedBy i)"
    using approvals_invD(2) [OF ev(2) i1(1)] i1(2) by (auto simp: intent_ok_def)
  then show ?thesis using j again needs_second_cong [OF acts] by auto
qed

subsection \<open>A run\<close>

definition maint_env :: approval_env where
  "maint_env = \<lparr>ae_hmac = \<lambda>x. x, ae_sha256 = \<lambda>x. x, ae_canonical = \<lambda>_. ''p'', ae_intent_text = \<lambda>_. ''i'',
     ae_body_text = \<lambda>_. ''b'', ae_receipt_text = \<lambda>_. ''r'', ae_redact = \<lambda>x. x\<rparr>"

definition maint_new :: approval_service where
  "maint_new = \<lparr>as_intents = [], as_receipts = [], as_executors = [], as_actions = HIGH_IMPACT_ACTIONS, as_risk = None\<rparr>"

definition maint_request :: intent_request where
  "maint_request = \<lparr>iq_action = ''invoice.cancel'', iq_target = ''INV'', iq_reason = ''duplicate invoice'', iq_requestedBy = ''ann'', iq_params = None\<rparr>"

definition maint_registered :: approval_service where
  "maint_registered = maint_new\<lparr>as_executors := [''invoice.cancel'']\<rparr>"

definition maint_requested :: approval_service where
  "maint_requested = snd (requestIntent maint_env ''u'' ''r1'' (\<lambda>_. 0) maint_request maint_registered)"

definition maint_approved :: approval_service where
  "maint_approved = snd (approve maint_env ''r2'' (\<lambda>_. 1) ''u'' ''bob'' maint_requested)"

definition maint_intent :: maintainer_intent where
  "maint_intent = \<lparr>mi_id = ''u'', mi_action = ''invoice.cancel'', mi_target = ''INV'', mi_reason = ''duplicate invoice'',
     mi_requestedBy = ''ann'', mi_approvedBy = Some ''bob'', mi_paramsHash = ''p'', mi_params = JObj [],
     mi_confirmationPhrase = ''invoice.cancel INV'', mi_createdAt = 0, mi_expiresAt = 1800000, mi_status = IExecuting,
     mi_risk = None, mi_signature = ''i''\<rparr>"

definition maint_executing :: approval_service where
  "maint_executing = maint_registered\<lparr>as_intents := [(''u'', maint_intent)]\<rparr>"

lemma maint_begin:
  "execute_begin maint_env ''r3'' (\<lambda>_. 2) ''u'' ''invoice.cancel INV'' None maint_approved = (Inr maint_intent, maint_executing)"
  by code_simp

lemma maint_reachable: "approval_reachable maint_env (maint_approved, {})"
proof -
  have "approval_reachable maint_env (maint_new, {})"
    by (rule start [where secret = "''0123456789abcdef''" and actions = None and risk = "Some None"])
      (simp add: MaintainerApprovalService_new_def maint_new_def)
  moreover have "registerExecutor ''invoice.cancel'' maint_new = Some maint_registered"
    by (simp add: registerExecutor_def maint_new_def maint_registered_def HIGH_IMPACT_ACTIONS_def)
  ultimately have "approval_reachable maint_env (maint_registered, {})"
    using approval_reachable.step approval_step.executor by blast
  moreover have "approval_step maint_env (maint_registered, {}) (maint_requested, {})"
    by (rule request) (simp_all add: maint_requested_def prod_eq_iff maint_registered_def maint_new_def)
  ultimately have "approval_reachable maint_env (maint_requested, {})" by (rule approval_reachable.step)
  moreover have "approval_step maint_env (maint_requested, {}) (maint_approved, {})"
    by (rule approved) (simp add: maint_approved_def prod_eq_iff)
  ultimately show ?thesis by (rule approval_reachable.step)
qed

text \<open>Witness of C6: the approved intent is running.\<close>

theorem approvals_sound_witness:
  "mget (as_intents maint_executing) ''u'' = Some maint_intent \<and> needs_second maint_intent maint_executing \<and>
   mi_approvedBy maint_intent \<noteq> Some (mi_requestedBy maint_intent) \<and> verifyReceiptChain maint_env (as_receipts maint_executing) = -1"
proof -
  have r: "approval_reachable maint_env (maint_executing, {''u''})"
    by (rule approval_reachable.step [OF maint_reachable started [OF maint_begin]])
  have m: "mget (as_intents maint_executing) ''u'' = Some maint_intent" by (simp add: maint_executing_def)
  have "needs_second maint_intent maint_executing" by code_simp
  then show ?thesis using approvals_sound [OF r m] m by blast
qed

text \<open>Witness of C17: the approved intent starts, and does not start again.\<close>

theorem intent_single_use_witness:
  "execute_begin maint_env ''r3'' (\<lambda>_. 2) ''u'' ''invoice.cancel INV'' None maint_approved = (Inr maint_intent, maint_executing) \<and>
   execute_begin maint_env ''r4'' (\<lambda>_. 2) ''u'' ''invoice.cancel INV'' None maint_executing \<noteq> (Inr maint_intent, maint_executing)"
  using maint_begin intent_single_use [OF maint_reachable maint_begin rtranclp.rtrancl_refl] by blast

end
