(* ===== verification/Canonical_Json.thy ===== *)
theory Canonical_Json
  imports Stable_Cursor Js_Date
begin

text \<open>
  Canonical JSON texts, \<open>backend/src/security/canonical-serialization.ts\<close>. Objects live in a heap,
  so that a value may be cyclic as in the language; \<open>seen\<close> is the list of the objects being
  serialised. The text of a number, \<open>normalize('NFC')\<close> and the digests are arguments. A string is a
  list of bytes; read as UTF-8 it covers every text, the escapes of a byte being those of a
  character, and the order of bytes is that of code units but for characters beyond the surrogates.
\<close>

subsection \<open>Values\<close>

datatype js_val =
    VUndefined | VNull | VBool bool | VNum jsnum | VBigint int | VStr string | VSymbol | VFunction | VRef nat

text \<open>The time of a \<open>Date\<close> may be not a number (\<open>None\<close>); a buffer is a list of bytes.\<close>

datatype js_obj =
    ODate "int option"
  | OBuffer "nat list"
  | OArray "js_val list"
  | OObject "(string \<times> js_val) list"

type_synonym js_heap = "(nat, js_obj) jsmap"

text \<open>\<open>INVALID_TIME\<close> is the \<open>RangeError\<close> that \<open>toISOString\<close> throws.\<close>

datatype canonical_error = CIRCULAR_REFERENCE | INVALID_NUMBER | UNSUPPORTED_TYPE | INVALID_TIME

subsection \<open>Serialisation\<close>

text \<open>\<open>String(n)\<close> of a finite number, with \<open>0\<close> for a negative zero, and \<open>normalize('NFC')\<close>.\<close>

record text_env =
  te_number :: "jsnum \<Rightarrow> string"
  te_nfc :: "string \<Rightarrow> string"

definition escape_char :: "char \<Rightarrow> string" where
  "escape_char c =
     (if c = CHR 0x22 then [CHR 0x5C, CHR 0x22]
      else if c = CHR 0x5C then [CHR 0x5C, CHR 0x5C]
      else if c = CHR 0x08 then [CHR 0x5C, CHR ''b'']
      else if c = CHR 0x0C then [CHR 0x5C, CHR ''f'']
      else if c = CHR 0x0A then [CHR 0x5C, CHR ''n'']
      else if c = CHR 0x0D then [CHR 0x5C, CHR ''r'']
      else if c = CHR 0x09 then [CHR 0x5C, CHR ''t'']
      else if (of_char c :: nat) < 0x20
      then [CHR 0x5C, CHR ''u'', CHR ''0'', CHR ''0'', hex_digit (of_char c div 16), hex_digit (of_char c mod 16)]
      else [c])"

definition escapeString :: "string \<Rightarrow> string" where
  "escapeString str = CHR 0x22 # concat (map escape_char str) @ [CHR 0x22]"

definition quoted :: "string \<Rightarrow> string" where
  "quoted s = CHR 0x22 # s @ [CHR 0x22]"

definition hex_text :: "nat list \<Rightarrow> string" where
  "hex_text bs = concat (map (\<lambda>b. [hex_digit (b div 16), hex_digit (b mod 16)]) bs)"

fun omitted :: "js_val \<Rightarrow> bool" where
  "omitted VUndefined = True"
| "omitted VFunction = True"
| "omitted VSymbol = True"
| "omitted _ = False"

definition key_cmp :: "string \<times> 'a \<Rightarrow> string \<times> 'a \<Rightarrow> int" where
  "key_cmp a b = (if str_lt (fst a) (fst b) then -1 else if str_lt (fst b) (fst a) then 1 else 0)"

lemma seen_decreases:
  assumes "r \<notin> set seen" and "mget h r = Some obj"
  shows "card (fst ` set h - insert r (set seen)) < card (fst ` set h - set seen)"
proof (rule psubset_card_mono)
  have "r \<in> fst ` set h" using assms(2) map_of_SomeD by force
  then show "fst ` set h - insert r (set seen) \<subset> fst ` set h - set seen" using assms(1) by auto
qed simp

text \<open>A reference always has its object; the branch without one is never taken.\<close>

function serialize ::
  "text_env \<Rightarrow> js_heap \<Rightarrow> nat list \<Rightarrow> js_val \<Rightarrow> (canonical_error, string) result" where
  "serialize te h seen v =
     (case v of
        VNull \<Rightarrow> Inr ''null''
      | VUndefined \<Rightarrow> Inr ''null''
      | VBool b \<Rightarrow> Inr (if b then ''true'' else ''false'')
      | VNum n \<Rightarrow> if \<not> is_finite n then Inl INVALID_NUMBER else Inr (te_number te n)
      | VBigint n \<Rightarrow> Inr (quoted (int_text n))
      | VStr s \<Rightarrow> Inr (escapeString (te_nfc te s))
      | VSymbol \<Rightarrow> Inl UNSUPPORTED_TYPE
      | VFunction \<Rightarrow> Inl UNSUPPORTED_TYPE
      | VRef r \<Rightarrow>
          if r \<in> set seen then Inl CIRCULAR_REFERENCE
          else (case mget h r of
              None \<Rightarrow> Inr ''null''
            | Some obj \<Rightarrow>
                (case obj of
                   ODate t \<Rightarrow> (case t of None \<Rightarrow> Inl INVALID_TIME | Some n \<Rightarrow> Inr (quoted (toISOString n)))
                 | OBuffer bs \<Rightarrow> Inr (quoted (hex_text bs))
                 | OArray xs \<Rightarrow>
                     rbind (rmap (\<lambda>item. if omitted item then Inr ''null'' else serialize te h (r # seen) item) xs)
                       (\<lambda>items. Inr (''['' @ join '','' items @ '']''))
                 | OObject kvs \<Rightarrow>
                     rbind (rmap (\<lambda>m. rbind (serialize te h (r # seen) (snd m)) (\<lambda>t. Inr (escapeString (te_nfc te (fst m)) @ '':'' @ t)))
                             (sort_by key_cmp (filter (\<lambda>m. \<not> omitted (snd m)) kvs)))
                       (\<lambda>members. Inr (''{'' @ join '','' members @ ''}'')))))"
  by pat_completeness auto

termination serialize
  by (relation "measure (\<lambda>(te, h, seen, v). card (fst ` set h - set seen))") (auto simp: seen_decreases)

declare serialize.simps [simp del]

definition canonicalize :: "text_env \<Rightarrow> js_heap \<Rightarrow> js_val \<Rightarrow> (canonical_error, string) result" where
  "canonicalize te h v = serialize te h [] v"

definition canonicalHash ::
  "(string \<Rightarrow> string) \<Rightarrow> text_env \<Rightarrow> js_heap \<Rightarrow> js_val \<Rightarrow> (canonical_error, string) result" where
  "canonicalHash digest te h v = rbind (canonicalize te h v) (\<lambda>t. Inr (digest t))"

definition canonicalHmac ::
  "(string \<Rightarrow> string \<Rightarrow> string) \<Rightarrow> string \<Rightarrow> text_env \<Rightarrow> js_heap \<Rightarrow> js_val \<Rightarrow> (canonical_error, string) result" where
  "canonicalHmac hmac secret te h v = rbind (canonicalize te h v) (\<lambda>t. Inr (hmac secret t))"

text \<open>The timestamp, if given, as its text.\<close>

definition canonicalSigningPayload ::
  "string \<Rightarrow> text_env \<Rightarrow> js_heap \<Rightarrow> js_val \<Rightarrow> string option \<Rightarrow> (canonical_error, string) result" where
  "canonicalSigningPayload prefix te h payload timestamp =
     rbind (canonicalize te h payload) (\<lambda>body.
       let ts = (case timestamp of Some t \<Rightarrow> t | None \<Rightarrow> [])
       in Inr (if ts \<noteq> [] then prefix @ ''.'' @ ts @ ''.'' @ body else prefix @ ''.'' @ body))"

lemma escape_char_json: "escape_char c = json_char c"
proof -
  have "(of_char c :: nat) = of_char d \<longleftrightarrow> c = d" for d by (metis char_of_char)
  note e = this [of "CHR 0x22"] this [of "CHR 0x5C"] this [of "CHR 0x08"] this [of "CHR 0x0C"] this [of "CHR 0x0A"]
    this [of "CHR 0x0D"] this [of "CHR 0x09"]
  show ?thesis using e by (auto simp: escape_char_def json_char_def Let_def)
qed

end
