(* ===== verification/Canonical_Properties.thy ===== *)
theory Canonical_Properties
  imports Canonical_Json Stable_Paging
begin

text \<open>
  What canonical texts promise: serialisation ends on every value and refuses exactly the cyclic
  ones; a value that stands_for JSON data has a text; and two such texts are the same exactly when
  the data are, up to the order of keys.
\<close>

declare nat_text.simps [simp del]

subsection \<open>Cycles\<close>

definition child :: "js_heap \<Rightarrow> nat \<Rightarrow> nat \<Rightarrow> bool" where
  "child h r c \<longleftrightarrow> (\<exists>xs. mget h r = Some (OArray xs) \<and> VRef c \<in> set xs) \<or>
     (\<exists>kvs. mget h r = Some (OObject kvs) \<and> VRef c \<in> snd ` set kvs)"

lemma serialize_array:
  assumes "r \<notin> set seen" and "mget h r = Some (OArray xs)"
  shows "serialize te h seen (VRef r) =
    rbind (rmap (\<lambda>item. if omitted item then Inr ''null'' else serialize te h (r # seen) item) xs)
      (\<lambda>items. Inr (''['' @ join '','' items @ '']''))"
  using assms by (simp add: serialize.simps [of te h seen])

lemma serialize_object:
  assumes "r \<notin> set seen" and "mget h r = Some (OObject kvs)"
  shows "serialize te h seen (VRef r) =
    rbind (rmap (\<lambda>m. rbind (serialize te h (r # seen) (snd m)) (\<lambda>t. Inr (escapeString (te_nfc te (fst m)) @ '':'' @ t)))
        (sort_by key_cmp (filter (\<lambda>m. \<not> omitted (snd m)) kvs)))
      (\<lambda>members. Inr (''{'' @ join '','' members @ ''}''))"
  using assms by (simp add: serialize.simps [of te h seen])

lemma serialize_other:
  "(\<forall>r. v \<noteq> VRef r) \<or> (\<exists>r. v = VRef r \<and> r \<notin> set seen \<and>
     (mget h r = None \<or> (\<exists>t. mget h r = Some (ODate t)) \<or> (\<exists>bs. mget h r = Some (OBuffer bs)))) \<Longrightarrow>
   serialize te h seen v \<noteq> Inl CIRCULAR_REFERENCE"
  by (auto simp: serialize.simps [of te h seen] split: js_val.splits option.splits)

text \<open>An induction over serialisation: what holds of the members of an object holds of it.\<close>

lemma serialize_induct:
  assumes "\<And>seen v. (\<And>r c. v = VRef r \<Longrightarrow> r \<notin> set seen \<Longrightarrow> child h r c \<Longrightarrow> P (r # seen) (VRef c)) \<Longrightarrow> P seen v"
  shows "P seen v"
proof (induction "card (fst ` set h - set seen)" arbitrary: seen v rule: less_induct)
  case less
  show ?case
  proof (rule assms)
    fix r c
    assume r: "r \<notin> set seen" "child h r c"
    then obtain obj where "mget h r = Some obj" by (auto simp: child_def)
    from seen_decreases [OF r(1) this] show "P (r # seen) (VRef c)" using less [of "r # seen" "VRef c"] by simp
  qed
qed

lemma member_ref:
  assumes "rbind q g = Inl e" and "\<And>x. g x \<noteq> Inl e"
  shows "q = Inl e"
  using assms by (cases q) (auto simp: rbind_def)

lemma circular_has_cycle:
  assumes "serialize te h seen v = Inl CIRCULAR_REFERENCE"
    and "\<forall>s\<in>set seen. \<forall>r. v = VRef r \<longrightarrow> (child h)\<^sup>+\<^sup>+ s r"
  shows "\<exists>r0 r. v = VRef r0 \<and> (child h)\<^sup>*\<^sup>* r0 r \<and> (child h)\<^sup>+\<^sup>+ r r"
  using assms
proof (induction seen v rule: serialize_induct [where h = h])
  case (1 seen v)
  then obtain r where v: "v = VRef r" using serialize_other [of v seen h te] by blast
  show ?case
  proof (cases "r \<in> set seen")
    case True
    then show ?thesis using 1(3) v by blast
  next
    case False
    have step: ?thesis if "child h r c" "serialize te h (r # seen) (VRef c) = Inl CIRCULAR_REFERENCE" for c
    proof -
      note c = that
      have "\<forall>s\<in>set (r # seen). \<forall>r'. VRef c = VRef r' \<longrightarrow> (child h)\<^sup>+\<^sup>+ s r'"
        using 1(3) v c(1) by (auto intro: tranclp.trancl_into_trancl)
      then obtain r1 where "(child h)\<^sup>*\<^sup>* c r1" "(child h)\<^sup>+\<^sup>+ r1 r1" using 1(1) [OF v False c] by auto
      then show ?thesis using v c(1) by (blast intro: converse_rtranclp_into_rtranclp)
    qed
    have leaf: "serialize te h (r # seen) x \<noteq> Inl CIRCULAR_REFERENCE" if "\<forall>c. x \<noteq> VRef c" for x
      using serialize_other that by blast
    consider (arr) xs where "mget h r = Some (OArray xs)" | (obj) kvs where "mget h r = Some (OObject kvs)"
      using serialize_other [of v seen h te] 1(2) v False by (cases "mget h r") (auto, metis js_obj.exhaust)
    then show ?thesis
    proof cases
      case arr
      then have "rmap (\<lambda>item. if omitted item then Inr ''null'' else serialize te h (r # seen) item) xs = Inl CIRCULAR_REFERENCE"
        using 1(2) v serialize_array [OF False arr] by (simp add: member_ref)
      then obtain x where "x \<in> set xs" "serialize te h (r # seen) x = Inl CIRCULAR_REFERENCE"
        by (auto dest!: rmap_InlD split: if_splits)
      moreover then obtain c where "x = VRef c" using leaf by blast
      ultimately show ?thesis using step arr by (auto simp: child_def)
    next
      case obj
      then have "rmap (\<lambda>m. rbind (serialize te h (r # seen) (snd m)) (\<lambda>t. Inr (escapeString (te_nfc te (fst m)) @ '':'' @ t)))
          (sort_by key_cmp (filter (\<lambda>m. \<not> omitted (snd m)) kvs)) = Inl CIRCULAR_REFERENCE"
        using 1(2) v serialize_object [OF False obj] by (simp add: member_ref)
      then obtain m where m: "m \<in> set kvs" "serialize te h (r # seen) (snd m) = Inl CIRCULAR_REFERENCE"
        by (auto dest!: rmap_InlD member_ref)
      moreover then obtain c where c: "snd m = VRef c" using leaf by blast
      moreover have "child h r c" unfolding child_def using obj m(1) c by (metis image_eqI)
      ultimately show ?thesis using step by simp
    qed
  qed
qed

lemma serialized_acyclic:
  assumes "serialize te h seen v = Inr t" and "v = VRef r0" and "(child h)\<^sup>*\<^sup>* r0 r"
  shows "r \<notin> set seen \<and> \<not> (child h)\<^sup>+\<^sup>+ r r"
  using assms
proof (induction seen v arbitrary: t r0 r rule: serialize_induct [where h = h])
  case (1 seen v)
  have nin: "r0 \<notin> set seen" using 1(2,3) by (auto simp: serialize.simps [of te h seen])
  have member: "\<exists>t'. serialize te h (r0 # seen) (VRef c) = Inr t'" if "child h r0 c" for c
  proof -
    note c = that
    consider (arr) xs where "mget h r0 = Some (OArray xs)" "VRef c \<in> set xs"
      | (obj) kvs k where "mget h r0 = Some (OObject kvs)" "(k, VRef c) \<in> set kvs"
      using c by (fastforce simp: child_def)
    then show ?thesis
    proof cases
      case arr
      then obtain items where "rmap (\<lambda>item. if omitted item then Inr ''null'' else serialize te h (r0 # seen) item) xs = Inr items"
        using 1(2,3) serialize_array [OF nin arr(1)] by (auto simp: rbind_Inr_iff)
      then show ?thesis using rmap_InrD arr(2) by fastforce
    next
      case obj
      let ?ms = "sort_by key_cmp (filter (\<lambda>m. \<not> omitted (snd m)) kvs)"
      have "(k, VRef c) \<in> set ?ms" using obj(2) by simp
      moreover obtain items where "rmap (\<lambda>m. rbind (serialize te h (r0 # seen) (snd m)) (\<lambda>t. Inr (escapeString (te_nfc te (fst m)) @ '':'' @ t))) ?ms = Inr items"
        using 1(2,3) serialize_object [OF nin obj(1)] by (auto simp: rbind_Inr_iff)
      ultimately obtain y where "rbind (serialize te h (r0 # seen) (VRef c)) (\<lambda>t. Inr (escapeString (te_nfc te k) @ '':'' @ t)) = Inr y"
        using rmap_InrD by fastforce
      then show ?thesis by (auto simp: rbind_Inr_iff)
    qed
  qed
  have below: "r' \<notin> set (r0 # seen) \<and> \<not> (child h)\<^sup>+\<^sup>+ r' r'" if "child h r0 c" "(child h)\<^sup>*\<^sup>* c r'" for c r'
    using 1(1) [OF 1(3) nin that(1)] member [OF that(1)] that(2) by blast
  have "\<not> (child h)\<^sup>+\<^sup>+ r0 r0" using below by (metis list.set_intros(1) tranclpD)
  then show ?case using nin below 1(4) by (metis converse_rtranclpE list.set_intros(2))
qed


subsection \<open>The data a value stands for\<close>

inductive stands_for :: "js_heap \<Rightarrow> js_val \<Rightarrow> json \<Rightarrow> bool" for h where
  undef: "stands_for h VUndefined JNull"
| null: "stands_for h VNull JNull"
| bool: "stands_for h (VBool b) (JBool b)"
| num: "stands_for h (VNum n) (JNum n)"
| str: "stands_for h (VStr s) (JStr s)"
| arr: "mget h r = Some (OArray xs) \<Longrightarrow>
    list_all2 (\<lambda>x j. omitted x \<and> j = JNull \<or> \<not> omitted x \<and> stands_for h x j) xs js \<Longrightarrow> stands_for h (VRef r) (JArr js)"
| obj: "mget h r = Some (OObject kvs) \<Longrightarrow>
    list_all2 (\<lambda>m n. fst m = fst n \<and> stands_for h (snd m) (snd n)) (filter (\<lambda>m. \<not> omitted (snd m)) kvs) kjs \<Longrightarrow>
    stands_for h (VRef r) (JObj kjs)"

inductive_simps denotes_arr: "stands_for h v (JArr js)"
inductive_simps denotes_ref: "stands_for h (VRef r) j"

text \<open>Data without dates, with finite numbers and distinct keys.\<close>

fun plain :: "json \<Rightarrow> bool" where
  "plain (JNum n) = is_finite n"
| "plain (JDate _) = False"
| "plain (JArr js) = list_all plain js"
| "plain (JObj kvs) = (distinct (map fst kvs) \<and> list_all (\<lambda>m. plain (snd m)) kvs)"
| "plain JNull = True"
| "plain (JBool _) = True"
| "plain (JStr _) = True"

fun sort_keys :: "json \<Rightarrow> json" where
  "sort_keys (JArr js) = JArr (map sort_keys js)"
| "sort_keys (JObj kvs) = JObj (sort_by key_cmp (map (\<lambda>m. (fst m, sort_keys (snd m))) kvs))"
| "sort_keys j = j"

text \<open>The text of data in the order it has.\<close>

fun print_json :: "(jsnum \<Rightarrow> string) \<Rightarrow> json \<Rightarrow> string" where
  "print_json nt JNull = ''null''"
| "print_json nt (JBool b) = (if b then ''true'' else ''false'')"
| "print_json nt (JNum n) = nt n"
| "print_json nt (JStr s) = escapeString s"
| "print_json nt (JDate t) = quoted (toISOString t)"
| "print_json nt (JArr js) = ''['' @ join '','' (map (print_json nt) js) @ '']''"
| "print_json nt (JObj kvs) = ''{'' @ join '','' (map (\<lambda>m. escapeString (fst m) @ '':'' @ print_json nt (snd m)) kvs) @ ''}''"

text \<open>Data with its strings and keys in normal form, and the form in which data is printed: the
  keys are sorted as they are given, and normalised after that.\<close>

fun normed :: "(string \<Rightarrow> string) \<Rightarrow> json \<Rightarrow> json" where
  "normed nfc (JStr s) = JStr (nfc s)"
| "normed nfc (JArr js) = JArr (map (normed nfc) js)"
| "normed nfc (JObj kvs) = JObj (map (\<lambda>m. (nfc (fst m), normed nfc (snd m))) kvs)"
| "normed nfc j = j"

definition canonical_form :: "text_env \<Rightarrow> json \<Rightarrow> json" where
  "canonical_form te j = normed (te_nfc te) (sort_keys j)"

lemma canonical_form_simps [simp]:
  "canonical_form te JNull = JNull" "canonical_form te (JBool b) = JBool b" "canonical_form te (JNum n) = JNum n"
  "canonical_form te (JStr s) = JStr (te_nfc te s)" "canonical_form te (JDate t) = JDate t"
  "canonical_form te (JArr js) = JArr (map (canonical_form te) js)"
  by (simp_all add: canonical_form_def)

lemma denotes_unique: "stands_for h v j \<Longrightarrow> stands_for h v k \<Longrightarrow> j = k"
proof (induction arbitrary: k rule: stands_for.induct)
  case (arr r xs js)
  obtain ks where k: "k = JArr ks" and ks: "list_all2 (\<lambda>x j. omitted x \<and> j = JNull \<or> \<not> omitted x \<and> stands_for h x j) xs ks"
    using arr.prems arr.hyps(1) by (auto simp: denotes_ref)
  have "js = ks"
  proof (rule nth_equalityI)
    show len: "length js = length ks" using arr.IH ks by (simp add: list_all2_conv_all_nth)
    show "js ! i = ks ! i" if "i < length js" for i
      using list_all2_nthD2 [OF arr.IH that] list_all2_nthD2 [OF ks, of i] that len by auto
  qed
  then show ?case using k by simp
next
  case (obj r kvs kjs)
  let ?ms = "filter (\<lambda>m. \<not> omitted (snd m)) kvs"
  obtain ks where k: "k = JObj ks" and ks: "list_all2 (\<lambda>m n. fst m = fst n \<and> stands_for h (snd m) (snd n)) ?ms ks"
    using obj.prems obj.hyps(1) by (auto simp: denotes_ref)
  have "kjs = ks" using obj.IH ks
    by (intro nth_equalityI) (auto simp: list_all2_conv_all_nth prod_eq_iff)
  then show ?case using k by simp
qed (auto elim: stands_for.cases)

lemma size_arr: "j \<in> set js \<Longrightarrow> size j < size (JArr js)"
  by (induction js) auto

lemma size_obj: "m \<in> set kvs \<Longrightarrow> size (snd m) < size (JObj kvs)"
  by (induction kvs) (auto simp: size_prod_simp)

subsection \<open>Sorting members\<close>

lemma key_cmp_le: "key_cmp a b \<le> 0 \<longleftrightarrow> \<not> str_lt (fst b) (fst a)"
  by (auto simp: key_cmp_def dest: str_lt_asym)

lemma insert_by_all2:
  assumes "list_all2 P xs ys" and "P x y" and "\<And>a b c d. P a b \<Longrightarrow> P c d \<Longrightarrow> cmp a c = cmp' b d"
  shows "list_all2 P (insert_by cmp x xs) (insert_by cmp' y ys)"
  using assms(1,2) by (induction rule: list_all2_induct) (auto simp: assms(3))

lemma sort_by_all2:
  assumes "list_all2 P xs ys" and "\<And>a b c d. P a b \<Longrightarrow> P c d \<Longrightarrow> cmp a c = cmp' b d"
  shows "list_all2 P (sort_by cmp xs) (sort_by cmp' ys)"
  using assms(1) by (induction rule: list_all2_induct) (auto intro: insert_by_all2 assms(2))

subsection \<open>Serialisation prints the sorted data\<close>

lemma deeper:
  assumes "size j < size k" and "stands_for h (VRef r) k" and "\<forall>s\<in>set seen. \<exists>k'. stands_for h (VRef s) k' \<and> size k < size k'"
  shows "\<forall>s\<in>set (r # seen). \<exists>k'. stands_for h (VRef s) k' \<and> size j < size k'"
  using assms by simp (meson less_trans)

lemma serialize_denotes:
  assumes "stands_for h v j" and "plain j" and "\<forall>r\<in>set seen. \<exists>k. stands_for h (VRef r) k \<and> size j < size k"
  shows "serialize te h seen v = Inr (print_json (te_number te) (canonical_form te j))"
  using assms
proof (induction arbitrary: seen rule: stands_for.induct)
  case (arr r xs js)
  have den: "stands_for h (VRef r) (JArr js)"
    by (rule stands_for.arr [OF arr.hyps(1)]) (rule list_all2_mono [OF arr.IH], auto)
  have nin: "r \<notin> set seen" using arr.prems(2) den denotes_unique by fastforce
  have item: "(if omitted x then Inr ''null'' else serialize te h (r # seen) x) = Inr (print_json (te_number te) (canonical_form te j))"
    if "omitted x \<and> j = JNull \<or> \<not> omitted x \<and> stands_for h x j \<and> (\<forall>seen. plain j \<longrightarrow>
        (\<forall>r\<in>set seen. \<exists>k. stands_for h (VRef r) k \<and> size j < size k) \<longrightarrow> serialize te h seen x = Inr (print_json (te_number te) (canonical_form te j)))"
      "j \<in> set js" for x j
  proof (cases "omitted x")
    case False
    have "size j < size (JArr js)" by (rule size_arr [OF that(2)])
    then have "\<forall>s\<in>set (r # seen). \<exists>k. stands_for h (VRef s) k \<and> size j < size k"
      using deeper [OF _ den] arr.prems(2) by blast
    moreover have "plain j" using arr.prems(1) that(2) by (simp add: list_all_iff)
    ultimately show ?thesis using that(1) False by simp
  qed (use that(1) in simp)
  have "list_all2 (\<lambda>x y. (if omitted x then Inr ''null'' else serialize te h (r # seen) x) = Inr y) xs (map (\<lambda>j. print_json (te_number te) (canonical_form te j)) js)"
    unfolding list_all2_map2
    by (rule list.rel_mono_strong [OF arr.IH]) (use item in blast)
  then show ?case
    using serialize_array [OF nin arr.hyps(1), of te] by (simp add: rmap_Inr_iff [symmetric] comp_def)
next
  case (obj r kvs kjs)
  let ?ms = "filter (\<lambda>m. \<not> omitted (snd m)) kvs"
  let ?f = "\<lambda>m. (fst m, sort_keys (snd m))"
  let ?g = "\<lambda>m. escapeString (te_nfc te (fst m)) @ '':'' @ print_json (te_number te) (normed (te_nfc te) (snd m))"
  let ?ser = "\<lambda>m. rbind (serialize te h (r # seen) (snd m)) (\<lambda>t. Inr (escapeString (te_nfc te (fst m)) @ '':'' @ t))"
  have den: "stands_for h (VRef r) (JObj kjs)"
    by (rule stands_for.obj [OF obj.hyps(1)]) (rule list_all2_mono [OF obj.IH], auto)
  have nin: "r \<notin> set seen" using obj.prems(2) den denotes_unique by fastforce
  have member: "?ser m = Inr (?g (?f n)) \<and> fst m = fst (?f n)"
    if "n \<in> set kjs" "fst m = fst n \<and> stands_for h (snd m) (snd n) \<and> (\<forall>seen. plain (snd n) \<longrightarrow>
        (\<forall>r\<in>set seen. \<exists>k. stands_for h (VRef r) k \<and> size (snd n) < size k) \<longrightarrow>
        serialize te h seen (snd m) = Inr (print_json (te_number te) (canonical_form te (snd n))))" for m n
  proof -
    have "size (snd n) < size (JObj kjs)" by (rule size_obj [OF that(1)])
    then have "\<forall>s\<in>set (r # seen). \<exists>k. stands_for h (VRef s) k \<and> size (snd n) < size k"
      using deeper [OF _ den] obj.prems(2) by blast
    moreover have "plain (snd n)" using obj.prems(1) that(1) by (auto simp: list_all_iff)
    ultimately show ?thesis using that(2) by (simp add: rbind_def canonical_form_def)
  qed
  have "list_all2 (\<lambda>m n. ?ser m = Inr (?g n) \<and> fst m = fst n) ?ms (map ?f kjs)"
    unfolding list_all2_map2
    by (rule list.rel_mono_strong [OF obj.IH], rule member, assumption, simp)
  then have "list_all2 (\<lambda>m n. ?ser m = Inr (?g n) \<and> fst m = fst n) (sort_by key_cmp ?ms) (sort_by key_cmp (map ?f kjs))"
    by (rule sort_by_all2) (simp add: key_cmp_def)
  then have "list_all2 (\<lambda>m y. ?ser m = Inr y) (sort_by key_cmp ?ms) (map ?g (sort_by key_cmp (map ?f kjs)))"
    unfolding list_all2_map2 by (rule list_all2_mono) auto
  then show ?case
    using serialize_object [OF nin obj.hyps(1), of te] by (simp add: rmap_Inr_iff [symmetric] canonical_form_def comp_def)
qed (simp_all add: serialize.simps [of te h])


subsection \<open>Texts can be read in one way only\<close>

definition num_char :: "char \<Rightarrow> bool" where
  "num_char c \<longleftrightarrow> is_digit c \<or> c \<in> {CHR ''-'', CHR ''+'', CHR ''.'', CHR ''e''}"

text \<open>What the text of a finite number looks like in the language: different numbers have
  different texts, made of digits, signs, points and exponents.\<close>

definition number_text :: "(jsnum \<Rightarrow> string) \<Rightarrow> bool" where
  "number_text nt \<longleftrightarrow> (\<forall>n m. is_finite n \<longrightarrow> is_finite m \<longrightarrow> nt n = nt m \<longrightarrow> n = m) \<and>
     (\<forall>n. is_finite n \<longrightarrow> nt n \<noteq> [] \<and> (is_digit (hd (nt n)) \<or> hd (nt n) = CHR ''-'') \<and> list_all num_char (nt n))"

fun printable :: "json \<Rightarrow> bool" where
  "printable (JNum n) = is_finite n"
| "printable (JDate _) = False"
| "printable (JArr js) = list_all printable js"
| "printable (JObj kvs) = list_all (\<lambda>m. printable (snd m)) kvs"
| "printable JNull = True"
| "printable (JBool _) = True"
| "printable (JStr _) = True"

lemma printable_sorted: "plain j \<Longrightarrow> printable (sort_keys j)"
  by (induction j rule: plain.induct) (auto simp: list_all_iff)

definition delim :: "string \<Rightarrow> bool" where
  "delim r \<longleftrightarrow> r = [] \<or> hd r \<in> {CHR '','', CHR '']'', CHR ''}''}"

lemma hex_digit_inj: "a < 16 \<Longrightarrow> b < 16 \<Longrightarrow> hex_digit a = hex_digit b \<Longrightarrow> a = b"
  using nth_eq_iff_index_eq [of "''0123456789abcdef''" a b] by (simp add: hex_digit_def)

lemma escape_head: "escape_char c \<noteq> [] \<and> hd (escape_char c) \<noteq> CHR 0x22"
  by (simp add: escape_char_def)

lemma escape_char_unique:
  assumes "escape_char c @ x = escape_char d @ y"
  shows "c = d \<and> x = y"
proof -
  have ctrl: "c = d" if "(of_char c :: nat) < 0x20" "(of_char d :: nat) < 0x20"
      "hex_digit (of_char c div 16) = hex_digit (of_char d div 16)" "hex_digit (of_char c mod 16) = hex_digit (of_char d mod 16)"
  proof -
    have "(of_char c :: nat) div 16 = of_char d div 16" "(of_char c :: nat) mod 16 = of_char d mod 16"
      using hex_digit_inj that by simp_all
    then have "(of_char c :: nat) = of_char d" by (metis div_mult_mod_eq)
    then show ?thesis by (metis char_of_char)
  qed
  show ?thesis using assms ctrl unfolding escape_char_def by (simp split: if_splits)
qed

lemma escape_body_unique:
  "concat (map escape_char s) @ CHR 0x22 # r = concat (map escape_char t) @ CHR 0x22 # r' \<Longrightarrow> s = t \<and> r = r'"
proof (induction s arbitrary: t)
  case Nil
  show ?case
  proof (cases t)
    case (Cons d t')
    then show ?thesis using Nil escape_head [of d] by (cases "escape_char d") auto
  qed (use Nil in simp)
next
  case (Cons c s)
  then show ?case
  proof (cases t)
    case Nil
    then show ?thesis using Cons.prems escape_head [of c] by (cases "escape_char c") auto
  next
    case (Cons d t')
    have "escape_char c @ concat (map escape_char s) @ CHR 0x22 # r = escape_char d @ concat (map escape_char t') @ CHR 0x22 # r'"
      using Cons.prems Cons by simp
    from escape_char_unique [OF this] show ?thesis using Cons.IH [of t'] Cons by simp
  qed
qed

lemma escapeString_unique: "escapeString s @ r = escapeString t @ r' \<Longrightarrow> s = t \<and> r = r'"
  using escape_body_unique [of s r t r'] by (simp add: escapeString_def)


lemma join_Cons: "join [d] (x # xs) = x @ concat (map (\<lambda>y. d # y) xs)"
  by (induction xs arbitrary: x) auto

text \<open>A list of texts that are each read in one way is read in one way.\<close>

lemma tail_unique:
  assumes "\<And>x y r s. x \<in> set xs \<Longrightarrow> y \<in> set ys \<Longrightarrow> p x @ r = p y @ s \<Longrightarrow> delim r \<Longrightarrow> delim s \<Longrightarrow> x = y \<and> r = s"
    and "c \<in> {CHR '']'', CHR ''}''}"
    and "concat (map (\<lambda>y. CHR '','' # p y) xs) @ c # r = concat (map (\<lambda>y. CHR '','' # p y) ys) @ c # s"
  shows "xs = ys \<and> r = s"
  using assms(1,3)
proof (induction xs arbitrary: ys)
  case Nil
  then show ?case using assms(2) by (cases ys) auto
next
  case (Cons x xs)
  have tl: "delim (concat (map (\<lambda>y. CHR '','' # p y) zs) @ c # q)" for zs q
    using assms(2) by (cases zs) (auto simp: delim_def)
  show ?case
  proof (cases ys)
    case Nil
    then show ?thesis using Cons.prems(2) assms(2) by auto
  next
    case ys: (Cons y ys')
    have "p x @ concat (map (\<lambda>y. CHR '','' # p y) xs) @ c # r = p y @ concat (map (\<lambda>y. CHR '','' # p y) ys') @ c # s"
      using Cons.prems(2) ys by simp
    then have "x = y" "concat (map (\<lambda>y. CHR '','' # p y) xs) @ c # r = concat (map (\<lambda>y. CHR '','' # p y) ys') @ c # s"
      using Cons.prems(1) [of x y] ys tl by auto
    then show ?thesis using Cons.IH [of ys'] Cons.prems(1) ys by auto
  qed
qed

lemma list_unique:
  assumes "\<And>x y r s. x \<in> set xs \<Longrightarrow> y \<in> set ys \<Longrightarrow> p x @ r = p y @ s \<Longrightarrow> delim r \<Longrightarrow> delim s \<Longrightarrow> x = y \<and> r = s"
    and "\<And>x. x \<in> set xs \<union> set ys \<Longrightarrow> p x \<noteq> [] \<and> hd (p x) \<notin> {CHR '']'', CHR ''}''}"
    and "c \<in> {CHR '']'', CHR ''}''}" and "join '','' (map p xs) @ c # r = join '','' (map p ys) @ c # s"
  shows "xs = ys \<and> r = s"
proof -
  have head: "join '','' (map p zs) @ c # q \<noteq> c # q'" if "zs \<noteq> []" "set zs \<subseteq> set xs \<union> set ys" for zs q q'
  proof -
    note zs = that
    obtain z zs' where z: "zs = z # zs'" using zs(1) by (cases zs) auto
    then have "p z \<noteq> []" "hd (p z) \<noteq> c" using zs(2) assms(2) [of z] assms(3) by auto
    then show ?thesis by (cases "p z") (auto simp: z join_Cons)
  qed
  show ?thesis
  proof (cases "xs = [] \<or> ys = []")
    case True
    then have "xs = [] \<and> ys = []" using head [of xs r s] head [of ys s r] assms(4) by (cases xs; cases ys) auto
    then show ?thesis using assms(4) by simp
  next
    case False
    then have cons: "xs = hd xs # tl xs" "ys = hd ys # tl ys" by simp_all
    let ?t = "\<lambda>zs q. concat (map (\<lambda>y. CHR '','' # p y) zs) @ c # q"
    have tl: "delim (?t zs q)" for zs q using assms(3) by (cases zs) (auto simp: delim_def)
    have eq: "p (hd xs) @ ?t (tl xs) r = p (hd ys) @ ?t (tl ys) s"
    proof -
      have "join '','' (map p zs) = p (hd zs) @ concat (map (\<lambda>y. CHR '','' # p y) (tl zs))" if "zs \<noteq> []" for zs
        using that by (cases zs) (simp_all add: join_Cons comp_def)
      then show ?thesis using assms(4) False by simp
    qed
    have hds: "hd xs \<in> set xs" "hd ys \<in> set ys" using False by simp_all
    have "hd xs = hd ys \<and> ?t (tl xs) r = ?t (tl ys) s"
      by (rule assms(1) [OF hds eq tl tl])
    moreover have "tl xs = tl ys \<and> r = s" if "?t (tl xs) r = ?t (tl ys) s"
    proof (rule tail_unique [OF _ assms(3) that])
      fix x y q q'
      assume "x \<in> set (tl xs)" "y \<in> set (tl ys)" "p x @ q = p y @ q'" "delim q" "delim q'"
      then show "x = y \<and> q = q'" using assms(1) [of x y q q'] False by (meson list.set_sel(2))
    qed
    ultimately show ?thesis using cons by (metis list.expand)
  qed
qed


text \<open>The first character of a text tells what kind of data it is.\<close>

fun kind :: "json \<Rightarrow> nat" where
  "kind JNull = 0"
| "kind (JBool b) = (if b then 1 else 2)"
| "kind (JNum _) = 3"
| "kind (JStr _) = 4"
| "kind (JDate _) = 5"
| "kind (JArr _) = 6"
| "kind (JObj _) = 7"

definition char_kind :: "char \<Rightarrow> nat" where
  "char_kind c = (if c = CHR ''n'' then 0 else if c = CHR ''t'' then 1 else if c = CHR ''f'' then 2
     else if c = CHR 0x22 then 4 else if c = CHR ''['' then 6 else if c = CHR ''{'' then 7 else 3)"

lemma digit_kind: "is_digit c \<or> c = CHR ''-'' \<Longrightarrow> char_kind c = 3 \<and> c \<notin> {CHR '']'', CHR ''}''}"
proof -
  assume "is_digit c \<or> c = CHR ''-''"
  then have "c \<notin> {CHR ''n'', CHR ''t'', CHR ''f'', CHR 0x22, CHR ''['', CHR ''{'', CHR '']'', CHR ''}''}"
    by (elim disjE) (intro notI, elim insertE emptyE, simp_all add: is_digit_def)
  then show ?thesis by (simp add: char_kind_def)
qed

lemma print_head:
  assumes "number_text nt" and "printable j"
  shows "print_json nt j \<noteq> [] \<and> char_kind (hd (print_json nt j)) = kind j \<and> hd (print_json nt j) \<notin> {CHR '']'', CHR ''}''}"
proof (cases j)
  case (JNum n)
  then have "nt n \<noteq> []" "is_digit (hd (nt n)) \<or> hd (nt n) = CHR ''-''" using assms by (auto simp: number_text_def)
  then show ?thesis using digit_kind [of "hd (nt n)"] JNum by simp
qed (use assms(2) in \<open>simp_all add: char_kind_def escapeString_def\<close>)

lemma kind_eq:
  assumes "number_text nt" and "printable j" and "printable k" and "print_json nt j @ r = print_json nt k @ s"
  shows "kind j = kind k"
  using print_head [OF assms(1,2)] print_head [OF assms(1,3)] assms(4) by (metis hd_append2)

lemma number_unique:
  assumes "number_text nt" and "is_finite n" and "is_finite m" and "nt n @ r = nt m @ s" and "delim r" and "delim s"
  shows "n = m \<and> r = s"
proof -
  have d: "takeWhile num_char (nt q @ t) = nt q" if "is_finite q" "delim t" for q t
  proof -
    have "\<forall>c\<in>set (nt q). num_char c" using assms(1) that(1) by (simp add: number_text_def list_all_iff)
    moreover have "takeWhile num_char t = []" using that(2) by (cases t) (auto simp: delim_def num_char_def is_digit_def)
    ultimately show ?thesis by simp
  qed
  have "nt n = nt m" using d [OF assms(2,5)] d [OF assms(3,6)] assms(4) by metis
  then show ?thesis using assms(1-4) by (simp add: number_text_def)
qed

lemma print_unique:
  assumes "number_text nt"
  shows "printable j \<Longrightarrow> printable k \<Longrightarrow> print_json nt j @ r = print_json nt k @ s \<Longrightarrow> delim r \<Longrightarrow> delim s \<Longrightarrow>
    j = k \<and> r = s"
proof (induction j arbitrary: k r s rule: printable.induct)
  case (1 n)
  have "kind k = 3" using kind_eq [OF assms 1(1-3)] by simp
  then obtain m where "k = JNum m" by (cases k) (auto split: if_splits)
  then show ?case using number_unique [OF assms, of n m r s] 1 by simp
next
  case (3 js)
  have "kind k = 6" using kind_eq [OF assms 3(2-4)] by simp
  then obtain ks where k: "k = JArr ks" by (cases k) (auto split: if_splits)
  have "js = ks \<and> r = s"
  proof (rule list_unique [where p = "print_json nt" and c = "CHR '']''"])
    show "join '','' (map (print_json nt) js) @ CHR '']'' # r = join '','' (map (print_json nt) ks) @ CHR '']'' # s"
      using 3(4) k by simp
    show "print_json nt x \<noteq> [] \<and> hd (print_json nt x) \<notin> {CHR '']'', CHR ''}''}" if "x \<in> set js \<union> set ks" for x
      using print_head [OF assms, of x] that 3(2,3) k by (auto simp: list_all_iff)
    show "x = y \<and> r' = s'" if "x \<in> set js" "y \<in> set ks" "print_json nt x @ r' = print_json nt y @ s'" "delim r'" "delim s'" for x y r' s'
      by (rule 3(1) [OF that(1) _ _ that(3-5)]) (use that(1,2) 3(2,3) k in \<open>simp_all add: list_all_iff\<close>)
  qed simp
  then show ?case using k by simp
next
  case (4 kvs)
  have "kind k = 7" using kind_eq [OF assms 4(2-4)] by simp
  then obtain ks where k: "k = JObj ks" by (cases k) (auto split: if_splits)
  let ?p = "\<lambda>m. escapeString (fst m) @ '':'' @ print_json nt (snd m)"
  have "kvs = ks \<and> r = s"
  proof (rule list_unique [where p = ?p and c = "CHR ''}''"])
    show "join '','' (map ?p kvs) @ CHR ''}'' # r = join '','' (map ?p ks) @ CHR ''}'' # s"
      using 4(4) k by simp
    show "?p x \<noteq> [] \<and> hd (?p x) \<notin> {CHR '']'', CHR ''}''}" for x by (simp add: escapeString_def)
    show "x = y \<and> r' = s'" if "x \<in> set kvs" "y \<in> set ks" "?p x @ r' = ?p y @ s'" "delim r'" "delim s'" for x y r' s'
    proof -
      have "fst x = fst y \<and> '':'' @ print_json nt (snd x) @ r' = '':'' @ print_json nt (snd y) @ s'"
        by (rule escapeString_unique) (use that(3) in simp)
      moreover then have "snd x = snd y \<and> r' = s'"
        by (intro 4(1) [OF that(1) _ _ _ that(4,5)]) (use that(1,2) 4(2,3) k in \<open>simp_all add: list_all_iff\<close>)
      ultimately show ?thesis by (simp add: prod_eq_iff)
    qed
  qed simp
  then show ?case using k by simp
next
  case 5
  then show ?case using kind_eq [OF assms, of JNull k r s] by (cases k) (auto split: if_splits)
next
  case (6 b)
  then show ?case using kind_eq [OF assms, of "JBool b" k r s] by (cases k) (auto split: if_splits)
next
  case (7 t)
  have "kind k = 4" using kind_eq [OF assms 7(1-3)] by simp
  then obtain u where "k = JStr u" by (cases k) (auto split: if_splits)
  then show ?case using escapeString_unique [of t r u s] 7 by simp
qed simp


subsection \<open>Equal data\<close>

text \<open>Two data are the same when they agree up to the order of keys.\<close>

inductive same_data :: "json \<Rightarrow> json \<Rightarrow> bool" where
  same_null: "same_data JNull JNull"
| same_bool: "same_data (JBool b) (JBool b)"
| same_num: "same_data (JNum n) (JNum n)"
| same_str: "same_data (JStr s) (JStr s)"
| same_arr: "list_all2 same_data js ks \<Longrightarrow> same_data (JArr js) (JArr ks)"
| same_obj: "fst ` set kvs = fst ` set kvs' \<Longrightarrow>
    (\<forall>x a b. (x, a) \<in> set kvs \<longrightarrow> (x, b) \<in> set kvs' \<longrightarrow> same_data a b) \<Longrightarrow> same_data (JObj kvs) (JObj kvs')"

inductive_simps same_data_simps:
  "same_data JNull k" "same_data (JBool b) k" "same_data (JNum n) k" "same_data (JStr s) k"
  "same_data (JArr js) k" "same_data (JObj kvs) k"

interpretation members: strict_comparator "key_cmp :: string \<times> json \<Rightarrow> string \<times> json \<Rightarrow> int"
proof
  fix a b c :: "string \<times> json"
  show "key_cmp a b \<le> 0 \<or> key_cmp b a \<le> 0" unfolding key_cmp_le using str_lt_asym by blast
  show "key_cmp a b \<le> 0 \<Longrightarrow> key_cmp b c \<le> 0 \<Longrightarrow> key_cmp a c \<le> 0" unfolding key_cmp_le using str_not_lt_trans by blast
  show "key_cmp a b < 0 \<longleftrightarrow> \<not> key_cmp b a \<le> 0" by (auto simp: key_cmp_def dest: str_lt_asym)
qed

lemma sort_members_eq:
  assumes "distinct (map fst kvs)" and "distinct (map fst kvs')"
  shows "sort_by key_cmp kvs = sort_by key_cmp kvs' \<longleftrightarrow> set kvs = set (kvs' :: (string \<times> json) list)"
proof
  assume "sort_by key_cmp kvs = sort_by key_cmp kvs'"
  then show "set kvs = set kvs'" by (metis set_sort_by)
next
  assume eq: "set kvs = set kvs'"
  have d: "distinct kvs" "distinct kvs'" using assms by (auto simp: distinct_map)
  show "sort_by key_cmp kvs = sort_by key_cmp kvs'"
  proof (rule members.sort_by_perm)
    show "mset kvs = mset kvs'" using eq d by (simp add: set_eq_iff_mset_eq_distinct)
    show "a = b" if "a \<in> set kvs" "b \<in> set kvs" "key_cmp a b = 0" for a b
    proof -
      have "fst a = fst b" using that(3) by (auto simp: key_cmp_def split: if_splits dest: str_lt_total)
      then show ?thesis using that(1,2) assms(1) by (auto simp: distinct_map dest: inj_onD)
    qed
  qed (rule d(1))
qed

lemma map_of_unique: "distinct (map fst kvs) \<Longrightarrow> (x, a) \<in> set kvs \<Longrightarrow> (x, b) \<in> set kvs \<Longrightarrow> a = b"
  by (metis map_of_eq_Some_iff option.inject)

lemma sorted_members_same:
  assumes "distinct (map fst kvs)" and "distinct (map fst kvs')"
    and "\<And>x a b. (x, a) \<in> set kvs \<Longrightarrow> (x, b) \<in> set kvs' \<Longrightarrow> sort_keys a = sort_keys b \<longleftrightarrow> same_data a b"
  shows "sort_keys (JObj kvs) = sort_keys (JObj kvs') \<longleftrightarrow> same_data (JObj kvs) (JObj kvs')"
proof -
  let ?f = "\<lambda>m. (fst m, sort_keys (snd m))"
  have keys: "map fst (map ?f xs) = map fst xs" for xs by simp
  have "sort_keys (JObj kvs) = sort_keys (JObj kvs') \<longleftrightarrow> set (map ?f kvs) = set (map ?f kvs')"
    using sort_members_eq [of "map ?f kvs" "map ?f kvs'"] assms(1,2) by (simp add: comp_def)
  also have "\<dots> \<longleftrightarrow> same_data (JObj kvs) (JObj kvs')"
  proof
    assume eq: "set (map ?f kvs) = set (map ?f kvs')"
    have "fst ` set kvs = fst ` set kvs'" using arg_cong [OF eq, of "image fst"] by (simp add: image_image)
    moreover have "same_data a b" if ab: "(x, a) \<in> set kvs" "(x, b) \<in> set kvs'" for x a b
    proof -
      have "?f (x, a) \<in> set (map ?f kvs)" unfolding set_map by (rule imageI) (rule ab(1))
      then have "(x, sort_keys a) \<in> set (map ?f kvs')" unfolding eq by simp
      then obtain b' where b': "(x, b') \<in> set kvs'" "sort_keys b' = sort_keys a" by auto
      then have "b' = b" using map_of_unique [OF assms(2) _ ab(2)] by blast
      then show ?thesis using b'(2) assms(3) [OF ab] by metis
    qed
    ultimately show "same_data (JObj kvs) (JObj kvs')" by (auto intro: same_obj)
  next
    assume "same_data (JObj kvs) (JObj kvs')"
    then have k: "fst ` set kvs = fst ` set kvs'" and d: "\<And>x a b. (x, a) \<in> set kvs \<Longrightarrow> (x, b) \<in> set kvs' \<Longrightarrow> same_data a b"
      by (simp_all add: same_data_simps)
    have v: "sort_keys a = sort_keys b" if "(x, a) \<in> set kvs" "(x, b) \<in> set kvs'" for x a b
      using assms(3) [OF that] d [OF that] by blast
    have sub: "set (map ?f xs) \<subseteq> set (map ?f ys)"
      if "fst ` set xs \<subseteq> fst ` set ys" "\<And>x a b. (x, a) \<in> set xs \<Longrightarrow> (x, b) \<in> set ys \<Longrightarrow> sort_keys a = sort_keys b" for xs ys
    proof
      fix m
      assume "m \<in> set (map ?f xs)"
      then obtain x a where a: "(x, a) \<in> set xs" "m = (x, sort_keys a)" by auto
      then have "x \<in> fst ` set ys" using that(1) by force
      then obtain b where b: "(x, b) \<in> set ys" by auto
      then have "m = ?f (x, b)" using that(2) [OF a(1) b] a(2) by simp
      then show "m \<in> set (map ?f ys)" unfolding set_map by (simp only: image_eqI [OF _ b])
    qed
    show "set (map ?f kvs) = set (map ?f kvs')"
    proof (rule subset_antisym)
      show "set (map ?f kvs) \<subseteq> set (map ?f kvs')" by (rule sub) (simp add: k, rule v)
      show "set (map ?f kvs') \<subseteq> set (map ?f kvs)" by (rule sub) (simp add: k, rule v [symmetric])
    qed
  qed
  finally show ?thesis .
qed

lemma sort_keys_same: "plain j \<Longrightarrow> plain k \<Longrightarrow> sort_keys j = sort_keys k \<longleftrightarrow> same_data j k"
proof (induction j arbitrary: k rule: plain.induct)
  case (3 js)
  show ?case
  proof (cases k)
    case (JArr ks)
    have "map sort_keys js = map sort_keys ks \<longleftrightarrow> list_all2 same_data js ks"
    proof -
      have "map sort_keys js = map sort_keys ks \<longleftrightarrow> list_all2 (\<lambda>a b. sort_keys a = sort_keys b) js ks"
        by (auto simp: list_all2_conv_all_nth list_eq_iff_nth_eq)
      also have "\<dots> \<longleftrightarrow> list_all2 same_data js ks"
        by (rule list.rel_cong) (use 3 JArr in \<open>auto simp: list_all_iff\<close>)
      finally show ?thesis .
    qed
    then show ?thesis using JArr by (simp add: same_data_simps)
  qed (simp_all add: same_data_simps)
next
  case (4 kvs)
  show ?case
  proof (cases k)
    case (JObj kvs')
    have "sort_keys a = sort_keys b \<longleftrightarrow> same_data a b" if "(x, a) \<in> set kvs" "(x, b) \<in> set kvs'" for x a b
    proof -
      have "plain a" "plain b" using 4(2,3) that JObj by (force simp: list_all_iff)+
      then show ?thesis using 4(1) [OF that(1), of b] by simp
    qed
    then show ?thesis using sorted_members_same [of kvs kvs'] 4(2,3) JObj by simp
  qed (simp_all add: same_data_simps)
next
  case (1 n)
  then show ?case by (cases k) (auto simp: same_data_simps)
next
  case 5
  then show ?case by (cases k) (simp_all add: same_data_simps)
next
  case (6 b)
  then show ?case by (cases k) (auto simp: same_data_simps)
next
  case (7 t)
  then show ?case by (cases k) (auto simp: same_data_simps)
qed simp


subsection \<open>A printer of numbers\<close>

text \<open>Any unambiguous text of numbers will do; this one writes fractions.\<close>

fun fraction_text :: "jsnum \<Rightarrow> string" where
  "fraction_text (Num q) = int_text (fst (quotient_of q)) @ ''.'' @ int_text (snd (quotient_of q))"
| "fraction_text _ = ''0''"

lemma int_text_inj: "int_text a = int_text b \<Longrightarrow> a = b"
proof -
  assume eq: "int_text a = int_text b"
  have h: "hd (nat_text n) \<noteq> CHR ''-''" for n
    using nat_text_digits [of n] by (cases "nat_text n") (auto simp: is_digit_def)
  have n: "nat_text m = nat_text n \<Longrightarrow> m = n" for m n using digits_val_nat_text by metis
  show ?thesis
  proof (cases "a < 0"; cases "b < 0")
    assume ab: "a < 0" "b < 0"
    then have "nat (- a) = nat (- b)" using eq n by (simp add: int_text_def)
    then show ?thesis using ab by linarith
  next
    assume ab: "\<not> a < 0" "\<not> b < 0"
    then have "nat a = nat b" using eq n by (simp add: int_text_def)
    then show ?thesis using ab by linarith
  next
    assume "a < 0" "\<not> b < 0"
    then have "nat_text (nat b) = CHR ''-'' # nat_text (nat (- a))" using eq by (simp add: int_text_def)
    then show ?thesis using h [of "nat b"] by simp
  next
    assume "\<not> a < 0" "b < 0"
    then have "nat_text (nat a) = CHR ''-'' # nat_text (nat (- b))" using eq by (simp add: int_text_def)
    then show ?thesis using h [of "nat a"] by simp
  qed
qed

lemma int_text_chars: "int_text a \<noteq> [] \<and> (is_digit (hd (int_text a)) \<or> hd (int_text a) = CHR ''-'') \<and>
    list_all (\<lambda>c. is_digit c \<or> c = CHR ''-'') (int_text a)"
proof -
  have "list_all (\<lambda>c. is_digit c \<or> c = CHR ''-'') (nat_text n) \<and> nat_text n \<noteq> [] \<and> is_digit (hd (nat_text n))" for n
    using nat_text_digits [of n] by (cases "nat_text n") (simp_all add: list_all_iff)
  then show ?thesis by (simp add: int_text_def)
qed

lemma fraction_number_text: "number_text fraction_text"
  unfolding number_text_def
proof (intro conjI allI impI)
  let ?P = "\<lambda>c. is_digit c \<or> c = CHR ''-''"
  have dot: "\<not> ?P CHR ''.''" by (simp add: is_digit_def)
  fix n m
  assume "is_finite n" "is_finite m" "fraction_text n = fraction_text m"
  then obtain p q where pq: "n = Num p" "m = Num q" by (cases n; cases m) auto
  have tk: "takeWhile ?P (int_text a @ CHR ''.'' # t) = int_text a" for a t
    using int_text_chars [of a] dot by (simp add: list_all_iff)
  have eq: "int_text (fst (quotient_of p)) @ CHR ''.'' # int_text (snd (quotient_of p)) =
      int_text (fst (quotient_of q)) @ CHR ''.'' # int_text (snd (quotient_of q))"
    using \<open>fraction_text n = fraction_text m\<close> pq by simp
  then have "int_text (fst (quotient_of p)) = int_text (fst (quotient_of q))" using tk by metis
  then have "quotient_of p = quotient_of q" using eq int_text_inj by (simp add: prod_eq_iff)
  then show "n = m" using pq by (simp add: quotient_of_inject_eq)
next
  fix n
  assume "is_finite n"
  then obtain p where "n = Num p" by (cases n) auto
  then show "fraction_text n \<noteq> []" "is_digit (hd (fraction_text n)) \<or> hd (fraction_text n) = CHR ''-''"
      "list_all num_char (fraction_text n)"
    using int_text_chars [of "fst (quotient_of p)"] int_text_chars [of "snd (quotient_of p)"]
    by (auto simp: list_all_iff num_char_def)
qed

subsection \<open>Normal forms\<close>

lemma printable_normed: "printable j \<Longrightarrow> printable (normed nfc j)"
  by (induction j rule: printable.induct) (auto simp: list_all_iff)

lemma canonical_text_unique:
  assumes "number_text (te_number te)" and "plain j" and "plain k"
  shows "print_json (te_number te) (canonical_form te j) = print_json (te_number te) (canonical_form te k) \<longleftrightarrow>
     canonical_form te j = canonical_form te k"
proof -
  have "printable (canonical_form te j)" "printable (canonical_form te k)"
    using assms(2,3) printable_sorted printable_normed by (simp_all add: canonical_form_def)
  from print_unique [OF assms(1) this, of "[]" "[]"] show ?thesis by (auto simp: delim_def)
qed

text \<open>Data whose keys are in normal form; its strings need not be.\<close>

fun keys_normal :: "(string \<Rightarrow> string) \<Rightarrow> json \<Rightarrow> bool" where
  "keys_normal nfc (JArr js) = list_all (keys_normal nfc) js"
| "keys_normal nfc (JObj kvs) = list_all (\<lambda>m. nfc (fst m) = fst m \<and> keys_normal nfc (snd m)) kvs"
| "keys_normal nfc j = True"

lemma plain_normed: "plain j \<Longrightarrow> keys_normal nfc j \<Longrightarrow> plain (normed nfc j)"
proof (induction j rule: plain.induct)
  case (4 kvs)
  have "map fst (map (\<lambda>m. (nfc (fst m), normed nfc (snd m))) kvs) = map fst kvs"
    using 4(3) by (auto simp: list_all_iff)
  moreover have "plain (normed nfc (snd m))" if "m \<in> set kvs" for m
    using 4 that by (cases m) (auto simp: list_all_iff)
  ultimately show ?case using 4(2) by (simp add: list_all_iff del: list.map_comp map_map)
qed (auto simp: list_all_iff)

lemma sort_normed: "keys_normal nfc j \<Longrightarrow> normed nfc (sort_keys j) = sort_keys (normed nfc j)"
proof (induction j rule: plain.induct)
  case (4 kvs)
  let ?n = "\<lambda>m. (nfc (fst m), normed nfc (snd m))" and ?s = "\<lambda>m. (fst m, sort_keys (snd m))"
  have "list_all2 (\<lambda>a b. b = ?n a \<and> fst b = fst a) (map ?s kvs) (map (\<lambda>m. ?s (?n m)) kvs)"
    unfolding list_all2_map1 list_all2_map2 using 4 by (intro list.rel_refl_strong) (auto simp: list_all_iff)
  then have "list_all2 (\<lambda>a b. b = ?n a \<and> fst b = fst a) (sort_by key_cmp (map ?s kvs)) (sort_by key_cmp (map (\<lambda>m. ?s (?n m)) kvs))"
    by (rule sort_by_all2) (simp add: key_cmp_def)
  then have "sort_by key_cmp (map (\<lambda>m. ?s (?n m)) kvs) = map ?n (sort_by key_cmp (map ?s kvs))"
    by (intro nth_equalityI) (auto simp: list_all2_conv_all_nth)
  then show ?case by (simp add: comp_def)
qed (auto simp: list_all_iff)

lemma canonical_form_same:
  assumes "plain j" and "plain k" and "keys_normal (te_nfc te) j" and "keys_normal (te_nfc te) k"
  shows "canonical_form te j = canonical_form te k \<longleftrightarrow> same_data (normed (te_nfc te) j) (normed (te_nfc te) k)"
  using sort_keys_same [OF plain_normed [OF assms(1,3)] plain_normed [OF assms(2,4)]]
  by (simp add: canonical_form_def sort_normed [OF assms(3)] sort_normed [OF assms(4)])

subsection \<open>Claims\<close>

text \<open>
  C18: canonical texts identify data. Values that stand for JSON data without dates always have a
  canonical text. Two of them have the same text exactly when the data have the same canonical form,
  wherever their objects lie in memory: their keys sorted, and then all strings and keys in Unicode
  normal form. When the keys are in normal form already this says that the data are the same up to the order
  of keys and the normal form of strings.
\<close>

theorem canonical_text_identifies:
  assumes "number_text (te_number te)" and "stands_for h v j" and "stands_for h' v' k" and "plain j" and "plain k"
  shows "(\<exists>t. canonicalize te h v = Inr t) \<and>
    (canonicalize te h v = canonicalize te h' v' \<longleftrightarrow> canonical_form te j = canonical_form te k) \<and>
    (keys_normal (te_nfc te) j \<and> keys_normal (te_nfc te) k \<longrightarrow>
      (canonicalize te h v = canonicalize te h' v' \<longleftrightarrow> same_data (normed (te_nfc te) j) (normed (te_nfc te) k)))"
proof -
  have c: "canonicalize te h v = Inr (print_json (te_number te) (canonical_form te j))"
    "canonicalize te h' v' = Inr (print_json (te_number te) (canonical_form te k))"
    using serialize_denotes [OF assms(2,4)] serialize_denotes [OF assms(3,5)] by (simp_all add: canonicalize_def)
  then show ?thesis using canonical_text_unique [OF assms(1,4,5)] canonical_form_same [OF assms(4,5)] by simp
qed

text \<open>
  C29: canonicalisation always ends, also on cyclic objects: it reports a circular reference only
  when an object reachable from the value contains itself, and when it returns a text no object
  reachable from the value does.
\<close>

theorem circular_reference_exact:
  "(canonicalize te h (VRef r0) = Inl CIRCULAR_REFERENCE \<longrightarrow> (\<exists>r. (child h)\<^sup>*\<^sup>* r0 r \<and> (child h)\<^sup>+\<^sup>+ r r)) \<and>
   (canonicalize te h (VRef r0) = Inr t \<longrightarrow> (\<forall>r. (child h)\<^sup>*\<^sup>* r0 r \<longrightarrow> \<not> (child h)\<^sup>+\<^sup>+ r r))"
proof (intro conjI impI allI)
  assume "canonicalize te h (VRef r0) = Inl CIRCULAR_REFERENCE"
  from circular_has_cycle [OF this [unfolded canonicalize_def]]
  show "\<exists>r. (child h)\<^sup>*\<^sup>* r0 r \<and> (child h)\<^sup>+\<^sup>+ r r" by simp
next
  fix r
  assume "canonicalize te h (VRef r0) = Inr t" "(child h)\<^sup>*\<^sup>* r0 r"
  then show "\<not> (child h)\<^sup>+\<^sup>+ r r" using serialized_acyclic [of te h "[]" "VRef r0" t r0 r] by (simp add: canonicalize_def)
qed

subsection \<open>A normal form\<close>

text \<open>The composition of the letter e with an acute accent (U+0301, in UTF-8), which leaves ASCII texts as they are.\<close>

fun compose_acute :: "string \<Rightarrow> string" where
  "compose_acute [] = []"
| "compose_acute (c # t) =
     (if c = CHR ''e'' \<and> take 2 t = [CHR 0xCC, CHR 0x81] then [CHR 0xC3, CHR 0xA9] @ compose_acute (drop 2 t)
      else c # compose_acute t)"

definition ascii :: "string \<Rightarrow> bool" where
  "ascii s \<longleftrightarrow> list_all (\<lambda>c. (of_char c :: nat) < 128) s"

lemma compose_acute_ascii: "ascii s \<Longrightarrow> compose_acute s = s"
proof (induction s rule: compose_acute.induct)
  case (2 c t)
  have "take 2 t \<noteq> [CHR 0xCC, CHR 0x81]" using 2(3) by (cases t) (auto simp: ascii_def)
  then show ?case using 2 by (simp add: ascii_def)
qed simp

definition demo_texts :: text_env where
  "demo_texts = \<lparr>te_number = fraction_text, te_nfc = compose_acute\<rparr>"

text \<open>Two objects with the same members in different orders and different encodings of one text, and one that
  contains itself.\<close>

definition cafe_nfd :: string where
  "cafe_nfd = ''cafe'' @ [CHR 0xCC, CHR 0x81]"

definition cafe_nfc :: string where
  "cafe_nfc = ''caf'' @ [CHR 0xC3, CHR 0xA9]"

definition demo_heap :: js_heap where
  "demo_heap = [(0, OObject [(''b'', VBool True), (''a'', VRef 1)]), (1, OArray [VStr cafe_nfd, VUndefined]),
     (2, OObject [(''a'', VRef 4), (''b'', VBool True), (''c'', VUndefined)]), (3, OArray [VNull, VRef 3]),
     (4, OArray [VStr cafe_nfc, VNull])]"

lemma demo_denotes:
  "stands_for demo_heap (VRef 0) (JObj [(''b'', JBool True), (''a'', JArr [JStr cafe_nfd, JNull])])"
  "stands_for demo_heap (VRef 2) (JObj [(''a'', JArr [JStr cafe_nfc, JNull]), (''b'', JBool True)])"
proof -
  have 1: "stands_for demo_heap (VRef 1) (JArr [JStr cafe_nfd, JNull])"
    by (rule stands_for.arr [where xs = "[VStr cafe_nfd, VUndefined]"]) (simp_all add: demo_heap_def stands_for.str)
  have 4: "stands_for demo_heap (VRef 4) (JArr [JStr cafe_nfc, JNull])"
    by (rule stands_for.arr [where xs = "[VStr cafe_nfc, VNull]"]) (simp_all add: demo_heap_def stands_for.str stands_for.null)
  show "stands_for demo_heap (VRef 0) (JObj [(''b'', JBool True), (''a'', JArr [JStr cafe_nfd, JNull])])"
    by (rule stands_for.obj [where kvs = "[(''b'', VBool True), (''a'', VRef 1)]"])
      (simp add: demo_heap_def, simp add: 1 [simplified] stands_for.bool)
  show "stands_for demo_heap (VRef 2) (JObj [(''a'', JArr [JStr cafe_nfc, JNull]), (''b'', JBool True)])"
    by (rule stands_for.obj [where kvs = "[(''a'', VRef 4), (''b'', VBool True), (''c'', VUndefined)]"])
      (simp add: demo_heap_def, simp add: 4 [simplified] stands_for.bool)
qed

text \<open>Witness of C18: the two objects have one text.\<close>

theorem canonical_text_identifies_witness:
  "canonicalize demo_texts demo_heap (VRef 0) = canonicalize demo_texts demo_heap (VRef 2)"
proof -
  let ?j = "JObj [(''b'', JBool True), (''a'', JArr [JStr cafe_nfd, JNull])]"
    and ?k = "JObj [(''a'', JArr [JStr cafe_nfc, JNull]), (''b'', JBool True)]"
  have p: "plain ?j" "plain ?k" by simp_all
  have nt: "number_text (te_number demo_texts)" using fraction_number_text by (simp add: demo_texts_def)
  have "keys_normal (te_nfc demo_texts) ?j" "keys_normal (te_nfc demo_texts) ?k" by (simp_all add: demo_texts_def)
  moreover have "same_data (normed (te_nfc demo_texts) ?j) (normed (te_nfc demo_texts) ?k)"
    by (auto simp: demo_texts_def same_data_simps cafe_nfd_def cafe_nfc_def)
  ultimately show ?thesis
    using canonical_text_identifies [OF nt demo_denotes p] by blast
qed

text \<open>Witness of C29: the array that contains itself is refused.\<close>

theorem circular_reference_exact_witness:
  "canonicalize demo_texts demo_heap (VRef 3) = Inl CIRCULAR_REFERENCE \<and>
   (\<exists>r. (child demo_heap)\<^sup>*\<^sup>* 3 r \<and> (child demo_heap)\<^sup>+\<^sup>+ r r)"
proof -
  have "canonicalize demo_texts demo_heap (VRef 3) = Inl CIRCULAR_REFERENCE"
    by (simp add: canonicalize_def demo_heap_def serialize.simps [of _ _ "[]"] serialize.simps [of _ _ "[3]"] rbind_def)
  then show ?thesis using circular_reference_exact [of demo_texts demo_heap 3] by blast
qed

text \<open>
  The keys are sorted before they are normalised. Two objects that are the same but for the encoding of a
  key can therefore have different texts: the keys \<open>cafe\<close> with an accent and \<open>caff\<close> change places.
\<close>

lemma normalised_after_sorting:
  "normed compose_acute (JObj [(cafe_nfd, JNull), (''caff'', JNull)]) = JObj [(cafe_nfc, JNull), (''caff'', JNull)] \<and>
   canonicalize demo_texts [(0, OObject [(cafe_nfd, VNull), (''caff'', VNull)])] (VRef 0) \<noteq>
   canonicalize demo_texts [(0, OObject [(cafe_nfc, VNull), (''caff'', VNull)])] (VRef 0)"
  by (simp add: canonicalize_def serialize.simps [of _ _ "[]"] serialize.simps [of _ _ "[0]"] rbind_def demo_texts_def
      cafe_nfd_def cafe_nfc_def key_cmp_def escapeString_def escape_char_def)

end
