(* ===== verification/Webhooks.thy ===== *)
theory Webhooks
  imports Canonical_Json
begin

text \<open>
  Incoming webhooks, \<open>backend/src/webhooks/*.ts\<close> and \<open>backend/src/routes/webhook.routes.ts\<close>. The
  hexadecimal HMAC, \<open>JSON.parse\<close> (a heap and a value), the text of numbers and Unicode normalisation are arguments.
  The HMAC is a text of ASCII characters, so that comparing bytes is comparing strings. A request
  is its three headers and its body as it is verified; a buffer holds ASCII bytes, given as text. \<open>clk k\<close> is the \<open>k\<close>-th reading of the clock.
  The idempotency store of \<open>processWebhook\<close> is not part of the repository: its operations are
  arguments.
\<close>

subsection \<open>Signatures\<close>

record webhook_env =
  we_hmac :: "string \<Rightarrow> string \<Rightarrow> string"
  we_parse :: "string \<Rightarrow> (js_heap \<times> js_val) option"
  we_texts :: text_env

datatype webhook_payload = PText string | PBuffer string | PValue js_heap js_val

definition webhook_mac :: "webhook_env \<Rightarrow> string \<Rightarrow> string \<Rightarrow> string \<Rightarrow> string" where
  "webhook_mac env secret timestamp body = ''sha256='' @ we_hmac env secret (timestamp @ ''.'' @ body)"

text \<open>The second attempt, on the canonical form of a body that is JSON.\<close>

definition canonical_match :: "webhook_env \<Rightarrow> string \<Rightarrow> string \<Rightarrow> string \<Rightarrow> string \<Rightarrow> bool" where
  "canonical_match env payload signature secret timestamp =
     (case we_parse env payload of
        None \<Rightarrow> False
      | Some (h, v) \<Rightarrow>
          (case canonicalize (we_texts env) h v of
             Inl _ \<Rightarrow> False
           | Inr canonicalBody \<Rightarrow>
               canonicalBody \<noteq> payload \<and>
               (let canonicalExpected = webhook_mac env secret timestamp canonicalBody
                in length canonicalExpected = length signature \<and> canonicalExpected = signature)))"

definition verifyWebhookSignature ::
  "webhook_env \<Rightarrow> webhook_payload \<Rightarrow> string \<Rightarrow> string \<Rightarrow> string \<Rightarrow> (canonical_error, bool) result" where
  "verifyWebhookSignature env payload signature secret timestamp =
     rbind (case payload of PText t \<Rightarrow> Inr t | PBuffer t \<Rightarrow> Inr t | PValue h v \<Rightarrow> canonicalize (we_texts env) h v)
       (\<lambda>body.
         let expected = webhook_mac env secret timestamp body;
             second = (case payload of PText t \<Rightarrow> canonical_match env t signature secret timestamp | _ \<Rightarrow> False)
         in Inr (if length expected \<noteq> length signature then second
                 else if expected = signature then True else second))"

text \<open>Signing treats a buffer as an object, so that its canonical text is that of its bytes in hexadecimal.\<close>

definition signWebhookPayload ::
  "webhook_env \<Rightarrow> webhook_payload \<Rightarrow> string \<Rightarrow> string \<Rightarrow> (canonical_error, string) result" where
  "signWebhookPayload env payload secret timestamp =
     rbind (case payload of PText t \<Rightarrow> Inr t
              | PBuffer t \<Rightarrow> canonicalize (we_texts env) [(0, OBuffer (map of_char t))] (VRef 0)
              | PValue h v \<Rightarrow> canonicalize (we_texts env) h v)
       (\<lambda>body. Inr (webhook_mac env secret timestamp body))"

text \<open>The age is computed in seconds with two rounded operations.\<close>

definition isTimestampStale :: "string \<Rightarrow> rat \<Rightarrow> int \<Rightarrow> bool" where
  "isTimestampStale timestamp toleranceSeconds now =
     (case js_number timestamp of
        Num ts \<Rightarrow>
          (case js_add (to_double (of_int now / 1000)) (Num (- ts)) of
             Num age \<Rightarrow> \<bar>age\<bar> > toleranceSeconds
           | _ \<Rightarrow> True)
      | _ \<Rightarrow> True)"

subsection \<open>The replay store\<close>

record replay_store =
  rp_entries :: "(string, int) jsmap"
  rp_maxCapacity :: int
  rp_ttlMs :: int

definition MemoryReplayStore_new :: "int option \<Rightarrow> int option \<Rightarrow> replay_store" where
  "MemoryReplayStore_new maxCapacity replayWindowMs =
     \<lparr>rp_entries = [], rp_maxCapacity = (case maxCapacity of Some n \<Rightarrow> n | None \<Rightarrow> 10000),
      rp_ttlMs = (case replayWindowMs of Some n \<Rightarrow> n | None \<Rightarrow> 5 * 60 * 1000)\<rparr>"

definition rp_cleanup :: "int \<Rightarrow> replay_store \<Rightarrow> replay_store" where
  "rp_cleanup now s = s\<lparr>rp_entries := dropWhile (\<lambda>e. snd e < now - rp_ttlMs s) (rp_entries s)\<rparr>"

definition rp_has :: "string \<Rightarrow> int \<Rightarrow> replay_store \<Rightarrow> bool \<times> replay_store" where
  "rp_has eventId now s = (let s' = rp_cleanup now s in (mhas (rp_entries s') eventId, s'))"

definition rp_add :: "string \<Rightarrow> int \<Rightarrow> int \<Rightarrow> replay_store \<Rightarrow> replay_store" where
  "rp_add eventId now1 now2 s =
     (let s1 = rp_cleanup now1 s;
          s2 = (if int (length (rp_entries s1)) \<ge> rp_maxCapacity s1
                then (case rp_entries s1 of [] \<Rightarrow> s1 | oldest # _ \<Rightarrow> s1\<lparr>rp_entries := mdelete (fst oldest) (rp_entries s1)\<rparr>)
                else s1)
      in s2\<lparr>rp_entries := mset_kv eventId now2 (rp_entries s2)\<rparr>)"

definition rp_size :: "replay_store \<Rightarrow> nat" where
  "rp_size s = length (rp_entries s)"

subsection \<open>The middleware\<close>

record webhook_config =
  wc_signingSecret :: string
  wc_toleranceSeconds :: rat
  wc_replayWindowMs :: int

record webhook_request =
  wr_signature :: "string option"
  wr_timestamp :: "string option"
  wr_eventId :: "string option"
  wr_rawBody :: webhook_payload

datatype webhook_code = MALFORMED_WEBHOOK | STALE_TIMESTAMP | INVALID_SIGNATURE | DUPLICATE_EVENT

fun webhook_status :: "webhook_code \<Rightarrow> nat" where
  "webhook_status MALFORMED_WEBHOOK = 400"
| "webhook_status STALE_TIMESTAMP = 408"
| "webhook_status INVALID_SIGNATURE = 401"
| "webhook_status DUPLICATE_EVENT = 409"

datatype webhook_answer = Passed string | Answered webhook_code | Thrown canonical_error

definition webhook_store :: "webhook_config \<Rightarrow> replay_store" where
  "webhook_store cfg = MemoryReplayStore_new None (Some (wc_replayWindowMs cfg))"

definition webhook_middleware ::
  "webhook_env \<Rightarrow> webhook_config \<Rightarrow> webhook_request \<Rightarrow> (nat \<Rightarrow> int) \<Rightarrow> replay_store \<Rightarrow> webhook_answer \<times> replay_store" where
  "webhook_middleware env cfg req clk s =
     (if \<not> truthy (wr_signature req) \<or> \<not> truthy (wr_timestamp req) \<or> \<not> truthy (wr_eventId req)
      then (Answered MALFORMED_WEBHOOK, s)
      else
        let signature = the (wr_signature req); timestamp = the (wr_timestamp req); eventId = the (wr_eventId req)
        in if isTimestampStale timestamp (wc_toleranceSeconds cfg) (clk 0) then (Answered STALE_TIMESTAMP, s)
           else (case verifyWebhookSignature env (wr_rawBody req) signature (wc_signingSecret cfg) timestamp of
               Inl e \<Rightarrow> (Thrown e, s)
             | Inr ok \<Rightarrow>
                 if \<not> ok then (Answered INVALID_SIGNATURE, s)
                 else (case rp_has eventId (clk 1) s of
                     (True, s1) \<Rightarrow> (Answered DUPLICATE_EVENT, s1)
                   | (False, s1) \<Rightarrow> (Passed eventId, rp_add eventId (clk 2) (clk 3) s1))))"

text \<open>The router is mounted only with a secret, from the options or the environment.\<close>

definition createWebhookRouter :: "string option \<Rightarrow> string option \<Rightarrow> webhook_config option" where
  "createWebhookRouter signingSecret env_secret =
     (let secret = (if truthy signingSecret then signingSecret else env_secret)
      in if \<not> truthy secret then None
         else Some \<lparr>wc_signingSecret = the secret, wc_toleranceSeconds = 300, wc_replayWindowMs = 5 * 60 * 1000\<rparr>)"

subsection \<open>Deduplication over an idempotency store\<close>

datatype idempotency_decision = Proceed | Replay json | InProgress | Conflict | Expired

text \<open>An operation that fails (throws) answers \<open>None\<close> or \<open>False\<close>.\<close>

record 'st idempotency_store =
  id_begin :: "string \<Rightarrow> string \<Rightarrow> string \<Rightarrow> int \<Rightarrow> int \<Rightarrow> int \<Rightarrow> 'st \<Rightarrow> idempotency_decision option \<times> 'st"
  id_complete :: "string \<Rightarrow> string \<Rightarrow> json \<Rightarrow> int \<Rightarrow> 'st \<Rightarrow> bool \<times> 'st"
  id_release :: "string \<Rightarrow> string \<Rightarrow> 'st \<Rightarrow> bool \<times> 'st"

datatype webhook_result = Accepted bool json | Refused nat string | HandlerFailed

record webhook_input =
  wi_provider :: string
  wi_eventId :: string
  wi_rawBody :: string
  wi_authorized :: "bool option"  \<comment> \<open>the check of the signature, or its failure\<close>
  wi_handle :: "json option"  \<comment> \<open>the result of the handler, or its failure\<close>

text \<open>The flag says whether the handler ran.\<close>

definition processWebhook ::
  "'st idempotency_store \<Rightarrow> (string \<Rightarrow> string) \<Rightarrow> webhook_input \<Rightarrow> int \<Rightarrow> 'st \<Rightarrow> (webhook_result \<times> bool) \<times> 'st" where
  "processWebhook store sha256 input now s =
     (let provider = js_trim (wi_provider input); key = js_trim (wi_eventId input)
      in if provider = [] \<or> key = [] \<or> length key > 255 then ((Refused 400 ''WEBHOOK_EVENT_ID_INVALID'', False), s)
         else if wi_authorized input \<noteq> Some True then ((Refused 401 ''WEBHOOK_SIGNATURE_INVALID'', False), s)
         else
           let scope = ''webhook:'' @ js_lower provider; fingerprint = sha256 (wi_rawBody input)
           in (case id_begin store scope key fingerprint now (7 * 24 * 60 * 60 * 1000) (60 * 1000) s of
               (None, s1) \<Rightarrow> ((Refused 503 ''WEBHOOK_DEDUPE_STORE_UNAVAILABLE'', False), s1)
             | (Some (Replay r), s1) \<Rightarrow> ((Accepted True r, False), s1)
             | (Some InProgress, s1) \<Rightarrow> ((Refused 409 ''WEBHOOK_EVENT_IN_PROGRESS'', False), s1)
             | (Some Conflict, s1) \<Rightarrow> ((Refused 422 ''WEBHOOK_EVENT_ID_CONFLICT'', False), s1)
             | (Some Expired, s1) \<Rightarrow> ((Refused 410 ''WEBHOOK_EVENT_ID_EXPIRED'', False), s1)
             | (Some Proceed, s1) \<Rightarrow>
                 (case wi_handle input of
                    None \<Rightarrow> ((HandlerFailed, True), snd (id_release store scope key s1))
                  | Some res \<Rightarrow>
                      (case id_complete store scope key res now s1 of
                         (True, s2) \<Rightarrow> ((Accepted False res, True), s2)
                       | (False, s2) \<Rightarrow> ((HandlerFailed, True), snd (id_release store scope key s2))))))"

end
