(* ===== verification/Webhook_Properties.thy ===== *)
theory Webhook_Properties
  imports Webhooks
begin

text \<open>
  What the webhook endpoint guarantees: a request that passes is fresh and signed, and an event id
  does not pass twice within the replay window while fewer events than the capacity of the store
  passed in between. And what it does not: the event id is not part of what is signed.
\<close>

subsection \<open>Signatures\<close>

definition canonical_body :: "webhook_env \<Rightarrow> string \<Rightarrow> string \<Rightarrow> bool" where
  "canonical_body env text c \<longleftrightarrow> (\<exists>h v. we_parse env text = Some (h, v) \<and> canonicalize (we_texts env) h v = Inr c)"

lemma verify_text:
  "verifyWebhookSignature env (PText t) signature secret ts = Inr ok \<longleftrightarrow>
     ok = (signature = webhook_mac env secret ts t \<or> (\<exists>c. canonical_body env t c \<and> signature = webhook_mac env secret ts c))"
proof -
  have "canonical_match env t signature secret ts \<longleftrightarrow>
      (\<exists>c. canonical_body env t c \<and> c \<noteq> t \<and> signature = webhook_mac env secret ts c)"
    by (auto simp: canonical_match_def canonical_body_def Let_def split: option.splits sum.splits)
  then show ?thesis by (auto simp: verifyWebhookSignature_def rbind_def Let_def)
qed

lemma sign_verifies:
  assumes "signWebhookPayload env p secret ts = Inr signature" and "\<And>t. p \<noteq> PBuffer t"
  shows "verifyWebhookSignature env p signature secret ts = Inr True"
  using assms
  by (cases p) (auto simp: signWebhookPayload_def verifyWebhookSignature_def rbind_def Let_def split: sum.splits)

subsection \<open>The replay window\<close>

lemma passed_iff:
  "webhook_middleware env cfg req clk s = (Passed e, s') \<longleftrightarrow>
     truthy (wr_signature req) \<and> truthy (wr_timestamp req) \<and> wr_eventId req = Some e \<and> e \<noteq> [] \<and>
     \<not> isTimestampStale (the (wr_timestamp req)) (wc_toleranceSeconds cfg) (clk 0) \<and>
     verifyWebhookSignature env (wr_rawBody req) (the (wr_signature req)) (wc_signingSecret cfg) (the (wr_timestamp req)) = Inr True \<and>
     \<not> mhas (rp_entries (rp_cleanup (clk 1) s)) e \<and> s' = rp_add e (clk 2) (clk 3) (rp_cleanup (clk 1) s)"
  by (cases "wr_eventId req") (auto simp: webhook_middleware_def Let_def rp_has_def split: sum.splits if_splits bool.splits)

lemma not_passed_state:
  assumes "webhook_middleware env cfg req clk s = (a, s')" and "\<And>e. a \<noteq> Passed e"
  shows "s' = s \<or> s' = rp_cleanup (clk 1) s"
  using assms by (auto simp: webhook_middleware_def Let_def rp_has_def split: sum.splits if_splits bool.splits)

text \<open>The log holds the events that passed, newest first; the store holds a prefix of it.\<close>

definition window :: "(string \<times> int) list \<Rightarrow> int \<Rightarrow> replay_store \<Rightarrow> (string \<times> int) list \<Rightarrow> (string \<times> int) list \<Rightarrow> bool" where
  "window evs now s w old \<longleftrightarrow> evs = w @ old \<and> rp_entries s = rev w \<and> distinct (map fst w) \<and>
     sorted_wrt (\<lambda>a b. snd b \<le> snd a) evs \<and> (\<forall>x\<in>set evs. snd x \<le> now) \<and>
     0 < rp_maxCapacity s \<and> int (length w) \<le> rp_maxCapacity s \<and>
     (\<forall>i<length old. snd (old ! i) < now - rp_ttlMs s \<or> rp_maxCapacity s \<le> int (length w + i))"

lemma dropWhile_rev_desc:
  fixes w :: "(string \<times> int) list"
  shows
  "sorted_wrt (\<lambda>a b. snd b \<le> snd a) w \<Longrightarrow>
   dropWhile (\<lambda>e. snd e < c) (rev w) = rev (takeWhile (\<lambda>e. \<not> snd e < c) w)"
proof (induction w)
  case (Cons x w)
  show ?case
  proof (cases "snd x < c")
    case True
    have "snd y < c" if "y \<in> set (rev w @ [x])" for y
    proof -
      have "snd y \<le> snd x" using Cons.prems that by auto
      then show ?thesis using True by simp
    qed
    then have "\<forall>y\<in>set (rev w @ [x]). snd y < c" ..
    then show ?thesis using True by (simp add: dropWhile_eq_Nil_conv)
  next
    case False
    then show ?thesis using Cons by (auto simp: dropWhile_append takeWhile_eq_Nil_iff) (meson hd_in_set)
  qed
qed simp

lemma cleanup_window:
  assumes "window evs t s w old" and "t \<le> now"
  shows "\<exists>w1 w2. w = w1 @ w2 \<and> window evs now (rp_cleanup now s) w1 (w2 @ old) \<and> (\<forall>x\<in>set w2. snd x < now - rp_ttlMs s)"
proof -
  define c where "c = now - rp_ttlMs s"
  define w1 where "w1 = takeWhile (\<lambda>e. \<not> snd e < c) w"
  define w2 where "w2 = dropWhile (\<lambda>e. \<not> snd e < c) w"
  note win = assms(1) [unfolded window_def]
  have split: "w = w1 @ w2" by (simp add: w1_def w2_def)
  have srt: "sorted_wrt (\<lambda>a b. snd b \<le> snd a) w" using win by (auto simp: sorted_wrt_append)
  then have srt2: "sorted_wrt (\<lambda>a b. snd b \<le> snd a) w2" by (simp add: split sorted_wrt_append)
  have gone: "snd x < c" if "x \<in> set w2" for x
  proof (cases w2)
    case (Cons y ys)
    then have "snd y < c" unfolding w2_def by (metis dropWhile_eq_Cons_conv)
    then show ?thesis using that srt2 Cons by force
  qed (use that in simp)
  have len: "length w = length w1 + length w2" by (simp add: split)
  have old: "snd ((w2 @ old) ! i) < c \<or> rp_maxCapacity s \<le> int (length w1 + i)" if "i < length (w2 @ old)" for i
  proof (cases "i < length w2")
    case True
    then show ?thesis using gone [of "w2 ! i"] by (simp add: nth_append)
  next
    case False
    define j where "j = i - length w2"
    have "j < length old" using False that by (simp add: j_def)
    then have "snd (old ! j) < t - rp_ttlMs s \<or> rp_maxCapacity s \<le> int (length w + j)" using win by blast
    then have "snd (old ! (i - length w2)) < t - rp_ttlMs s \<or> rp_maxCapacity s \<le> int (length w + (i - length w2))"
      unfolding j_def .
    then show ?thesis using False len assms(2) by (auto simp: nth_append c_def)
  qed
  have "\<forall>x\<in>set evs. snd x \<le> now" using win assms(2) by force
  moreover have "rp_entries (rp_cleanup now s) = rev w1"
    using win dropWhile_rev_desc [OF srt, of c] by (simp add: rp_cleanup_def c_def w1_def)
  moreover have "sorted_wrt (\<lambda>a b. snd b \<le> snd a) (w1 @ w2 @ old)" using win by (metis append_assoc split)
  ultimately have "window evs now (rp_cleanup now s) w1 (w2 @ old)"
    using win old len unfolding window_def by (simp add: split rp_cleanup_def c_def)
  then show ?thesis using split gone unfolding c_def by blast
qed

lemma add_window:
  assumes "window evs t s w old" and "e \<notin> fst ` set w" and "t \<le> now"
  shows "\<exists>w' old'. window ((e, now) # evs) now
    (let s2 = (if int (length (rp_entries s)) \<ge> rp_maxCapacity s
        then (case rp_entries s of [] \<Rightarrow> s | oldest # _ \<Rightarrow> s\<lparr>rp_entries := mdelete (fst oldest) (rp_entries s)\<rparr>) else s)
     in s2\<lparr>rp_entries := mset_kv e now (rp_entries s2)\<rparr>) w' old'"
proof -
  note win = assms(1) [unfolded window_def]
  have fresh: "mset_kv e now (rev v) = rev ((e, now) # v)" if "set v \<subseteq> set w" for v
  proof -
    have "mget (rev v) e = None" using that assms(2) by (auto simp: map_of_eq_None_iff)
    then show ?thesis by (simp add: mset_kv_fresh)
  qed
  have srt: "sorted_wrt (\<lambda>a b. snd b \<le> snd a) ((e, now) # evs)" "\<forall>x\<in>set ((e, now) # evs). snd x \<le> now"
    using win assms(3) by force+
  show ?thesis
  proof (cases "int (length w) \<ge> rp_maxCapacity s")
    case False
    have "window ((e, now) # evs) now (s\<lparr>rp_entries := rev ((e, now) # w)\<rparr>) ((e, now) # w) old"
      using win srt False assms(2,3) unfolding window_def by force
    then show ?thesis using win False fresh [of w] by (auto simp: Let_def)
  next
    case True
    then have full: "int (length w) = rp_maxCapacity s" "w \<noteq> []" using win by auto
    then obtain v x where v: "w = v @ [x]" by (metis append_butlast_last_id)
    have del: "mdelete (fst x) (rev w) = rev v"
    proof -
      have "fst x \<notin> fst ` set v" using win v by auto
      then have "\<forall>y\<in>set (rev v). fst y \<noteq> fst x" by (auto simp: image_iff)
      then show ?thesis using v by (simp add: mdelete_def filter_id_conv case_prod_unfold)
    qed
    have old: "snd ((x # old) ! i) < now - rp_ttlMs s \<or> rp_maxCapacity s \<le> int (length ((e, now) # v) + i)"
      if "i < length (x # old)" for i using full v by simp
    have "window ((e, now) # evs) now (s\<lparr>rp_entries := rev ((e, now) # v)\<rparr>) ((e, now) # v) (x # old)"
      using win srt v full assms(2) old unfolding window_def by force
    moreover have "mset_kv e now (rev v) = rev ((e, now) # v)" by (rule fresh) (use v in auto)
    ultimately show ?thesis using win True v del by (auto simp: Let_def)
  qed
qed

subsection \<open>Runs\<close>

inductive webhook_run ::
  "webhook_env \<Rightarrow> webhook_config \<Rightarrow> (string \<times> int) list \<Rightarrow> int \<Rightarrow> replay_store \<Rightarrow> bool" for env cfg where
  start: "0 < rp_maxCapacity (MemoryReplayStore_new cap ttl) \<Longrightarrow> webhook_run env cfg [] t (MemoryReplayStore_new cap ttl)"
| call: "webhook_run env cfg evs t s \<Longrightarrow> t \<le> clk 0 \<Longrightarrow> (\<forall>i j. i \<le> j \<longrightarrow> clk i \<le> clk j) \<Longrightarrow>
    webhook_middleware env cfg req clk s = (a, s') \<Longrightarrow>
    webhook_run env cfg (case a of Passed e \<Rightarrow> (e, clk 3) # evs | _ \<Rightarrow> evs) (clk 3) s'"

lemma window_later: "window evs t s w old \<Longrightarrow> t \<le> t' \<Longrightarrow> window evs t' s w old"
  unfolding window_def by force

lemma run_window: "webhook_run env cfg evs t s \<Longrightarrow> \<exists>w old. window evs t s w old"
proof (induction rule: webhook_run.induct)
  case (start cap ttl t)
  then have "window [] t (MemoryReplayStore_new cap ttl) [] []" by (simp add: window_def MemoryReplayStore_new_def)
  then show ?case by blast
next
  case (call evs t s clk req a s')
  then obtain w old where win: "window evs t s w old" by blast
  have clks: "t \<le> clk 1" "clk 1 \<le> clk 2" "clk 2 \<le> clk 3" "t \<le> clk 3"
    using call(2) call(3) [rule_format, of 0 1] call(3) [rule_format, of 1 2] call(3) [rule_format, of 2 3] by linarith+
  obtain w1 w2 where c: "window evs (clk 1) (rp_cleanup (clk 1) s) w1 (w2 @ old)" using cleanup_window [OF win clks(1)] by blast
  show ?case
  proof (cases "\<exists>e. a = Passed e")
    case False
    then have "s' = s \<or> s' = rp_cleanup (clk 1) s" using not_passed_state [OF call(4)] by blast
    moreover have "(case a of Passed e \<Rightarrow> (e, clk 3) # evs | _ \<Rightarrow> evs) = evs" using False by (cases a) auto
    moreover have "clk 1 \<le> clk 3" using clks by linarith
    ultimately show ?thesis using window_later [OF win clks(4)] window_later [OF c] by metis
  next
    case True
    then obtain e where a: "a = Passed e" by blast
    have p: "\<not> mhas (rp_entries (rp_cleanup (clk 1) s)) e" "s' = rp_add e (clk 2) (clk 3) (rp_cleanup (clk 1) s)"
      using call(4) unfolding a passed_iff by blast+
    obtain v1 v2 where v: "w1 = v1 @ v2" "window evs (clk 2) (rp_cleanup (clk 2) (rp_cleanup (clk 1) s)) v1 (v2 @ w2 @ old)"
      using cleanup_window [OF c clks(2)] by blast
    have "e \<notin> fst ` set w1" using p(1) c by (auto simp: window_def map_of_eq_None_iff)
    then have "e \<notin> fst ` set v1" using v(1) by auto
    from add_window [OF v(2) this clks(3)] show ?thesis
      unfolding p(2) a rp_add_def Let_def webhook_answer.case .
  qed
qed

subsection \<open>Claims\<close>

text \<open>
  C19: a webhook request that passes has an event id, a timestamp within the tolerance and a
  signature that verifies over its timestamp and body; and as long as fewer events passed since
  than the store holds and the replay window is not over, a request with an event id that passed
  before does not pass, whatever else arrived in between.
\<close>

theorem webhook_accepts_once:
  assumes "webhook_run env cfg evs t s" and "t \<le> clk 0" and "\<forall>i j. i \<le> j \<longrightarrow> clk i \<le> clk j"
    and "webhook_middleware env cfg req clk s = (Passed e, s')"
  shows "wr_eventId req = Some e \<and>
    \<not> isTimestampStale (the (wr_timestamp req)) (wc_toleranceSeconds cfg) (clk 0) \<and>
    verifyWebhookSignature env (wr_rawBody req) (the (wr_signature req)) (wc_signingSecret cfg) (the (wr_timestamp req)) = Inr True \<and>
    (\<forall>i<length evs. fst (evs ! i) = e \<longrightarrow> snd (evs ! i) < clk 1 - rp_ttlMs s \<or> rp_maxCapacity s \<le> int i)"
proof -
  obtain w old where win: "window evs t s w old" using run_window [OF assms(1)] by blast
  have "t \<le> clk 1" using assms(2) assms(3) [rule_format, of 0 1] by linarith
  then obtain w1 w2 where w: "window evs (clk 1) (rp_cleanup (clk 1) s) w1 (w2 @ old)" using cleanup_window [OF win] by blast
  have sel: "rp_ttlMs (rp_cleanup (clk 1) s) = rp_ttlMs s" "rp_maxCapacity (rp_cleanup (clk 1) s) = rp_maxCapacity s"
    by (simp_all add: rp_cleanup_def)
  note p = assms(4) [unfolded passed_iff]
  have e: "e \<notin> fst ` set w1" using p w by (auto simp: window_def map_of_eq_None_iff)
  have "snd (evs ! i) < clk 1 - rp_ttlMs s \<or> rp_maxCapacity s \<le> int i" if "i < length evs" "fst (evs ! i) = e" for i
  proof -
    have evs: "evs = w1 @ (w2 @ old)" using w by (simp add: window_def)
    have "\<not> i < length w1"
    proof
      assume "i < length w1"
      then have "evs ! i \<in> set w1" using evs by (simp add: nth_append)
      then show False using e that(2) by blast
    qed
    then have j: "i - length w1 < length (w2 @ old)" "evs ! i = (w2 @ old) ! (i - length w1)" "length w1 + (i - length w1) = i"
      using that(1) evs by (auto simp: nth_append)
    have "\<forall>i<length (w2 @ old). snd ((w2 @ old) ! i) < clk 1 - rp_ttlMs s \<or> rp_maxCapacity s \<le> int (length w1 + i)"
      using w unfolding window_def sel by blast
    then show ?thesis using j by metis
  qed
  then show ?thesis using p by blast
qed

text \<open>
  The event id is not part of what is signed: whoever holds a request that passed can send it
  again under any other event id that is not stored, as long as its timestamp is within the
  tolerance, and it passes again.
\<close>

lemma webhook_event_id_unsigned:
  assumes "webhook_middleware env cfg req clk s = (Passed e, s1)" and "e' \<noteq> []" and "\<not> mhas (rp_entries s') e'"
    and "\<not> isTimestampStale (the (wr_timestamp req)) (wc_toleranceSeconds cfg) (clk' 0)"
  shows "fst (webhook_middleware env cfg (req\<lparr>wr_eventId := Some e'\<rparr>) clk' s') = Passed e'"
proof -
  have "mget (rp_entries (rp_cleanup (clk' 1) s')) e' = None"
    using assms(3) by (auto simp: rp_cleanup_def map_of_eq_None_iff dest: set_dropWhileD)
  then have "webhook_middleware env cfg (req\<lparr>wr_eventId := Some e'\<rparr>) clk' s' =
      (Passed e', rp_add e' (clk' 2) (clk' 3) (rp_cleanup (clk' 1) s'))"
    unfolding passed_iff using assms(1) [unfolded passed_iff] assms(2,4) by simp
  then show ?thesis by simp
qed

subsection \<open>A run\<close>

definition hook_env :: webhook_env where
  "hook_env = \<lparr>we_hmac = \<lambda>k t. k @ t, we_parse = \<lambda>_. None, we_texts = \<lparr>te_number = \<lambda>_. ''0'', te_nfc = \<lambda>t. t\<rparr>\<rparr>"

definition hook_config :: webhook_config where
  "hook_config = \<lparr>wc_signingSecret = ''k'', wc_toleranceSeconds = 300, wc_replayWindowMs = 300000\<rparr>"

definition hook_request :: webhook_request where
  "hook_request = \<lparr>wr_signature = Some ''sha256=k1000.b'', wr_timestamp = Some ''1000'', wr_eventId = Some ''e'', wr_rawBody = PText ''b''\<rparr>"

lemma to_double_int: "\<bar>n\<bar> \<le> 2 ^ 53 \<Longrightarrow> to_double (of_int n) = Num (of_int n)"
proof -
  assume n: "\<bar>n\<bar> \<le> 2 ^ 53"
  then have "\<bar>of_int n :: rat\<bar> \<le> 2 ^ 60" by (simp add: of_int_abs [symmetric] del: of_int_abs)
  then have "\<bar>of_int n :: rat\<bar> < 2 ^ 1024" by (rule pow_bound_small)
  then show ?thesis using to_double_Num [of "of_int n"] round_double_int [OF n] by simp
qed

lemma hook_stale:
  assumes "\<bar>n\<bar> \<le> 2 ^ 50"
  shows "isTimestampStale ''1000'' 300 (1000 * n) \<longleftrightarrow> \<bar>n - 1000\<bar> > 300"
proof -
  have "decimal_value (js_trim ''1000'') = Some 1000"
    by (simp add: js_trim_def decimal_value_def unsigned_decimal_def is_ws_def is_digit_def digits_val_def digit_val_def
        Let_def exponent_part_def)
  then have 1: "js_number ''1000'' = Num 1000" using js_number_decimal to_double_int [of 1000] by simp
  have 2: "to_double (of_int (1000 * n) / 1000) = Num (of_int n)" using to_double_int [of n] assms by simp
  have "to_double (of_int (n - 1000)) = Num (of_int (n - 1000))" by (rule to_double_int) (use assms in \<open>simp add: abs_le_iff\<close>)
  then have 3: "js_add (Num (of_int n)) (Num (- 1000)) = Num (of_int (n - 1000))" by simp
  have "\<bar>of_int (n - 1000) :: rat\<bar> > 300 \<longleftrightarrow> \<bar>n - 1000\<bar> > 300" by linarith
  then show ?thesis unfolding isTimestampStale_def 1 2 jsnum.case 3 by simp
qed

lemma hook_fresh: "\<not> isTimestampStale ''1000'' 300 1000000" "\<not> isTimestampStale ''1000'' 300 700000" "\<not> isTimestampStale ''1000'' 300 1001000"
  using hook_stale [of 1000] hook_stale [of 700] hook_stale [of 1001] by simp_all

lemma hook_passes:
  "webhook_middleware hook_env hook_config hook_request (\<lambda>_. 1000000) (webhook_store hook_config) =
     (Passed ''e'', (webhook_store hook_config)\<lparr>rp_entries := [(''e'', 1000000)]\<rparr>)"
  using hook_fresh unfolding passed_iff
  by (simp add: hook_request_def hook_config_def hook_env_def verifyWebhookSignature_def webhook_mac_def rbind_def
      webhook_store_def MemoryReplayStore_new_def rp_cleanup_def rp_add_def Let_def)

text \<open>Witness of C19: the first request of a run passes.\<close>

theorem webhook_accepts_once_witness:
  "fst (webhook_middleware hook_env hook_config hook_request (\<lambda>_. 1000000) (webhook_store hook_config)) = Passed ''e'' \<and>
   verifyWebhookSignature hook_env (PText ''b'') ''sha256=k1000.b'' ''k'' ''1000'' = Inr True"
proof -
  have "webhook_run hook_env hook_config [] 0 (webhook_store hook_config)"
    unfolding webhook_store_def by (rule start) (simp add: MemoryReplayStore_new_def)
  from webhook_accepts_once [OF this _ _ hook_passes] show ?thesis
    using hook_passes by (simp add: hook_request_def hook_config_def)
qed

text \<open>The same request passes again under another id.\<close>

lemma webhook_event_id_unsigned_witness:
  "fst (webhook_middleware hook_env hook_config (hook_request\<lparr>wr_eventId := Some ''f''\<rparr>) (\<lambda>_. 1000000)
     ((webhook_store hook_config)\<lparr>rp_entries := [(''e'', 1000000)]\<rparr>)) = Passed ''f''"
  by (rule webhook_event_id_unsigned [OF hook_passes]) (use hook_fresh in \<open>simp_all add: hook_request_def hook_config_def\<close>)

text \<open>
  A timestamp from the future outlives the replay window: the same request, with the same event
  id, passes a second time.
\<close>

lemma future_timestamp_replayed:
  "fst (webhook_middleware hook_env hook_config hook_request (\<lambda>_. 700000) (webhook_store hook_config)) = Passed ''e'' \<and>
   fst (webhook_middleware hook_env hook_config hook_request (\<lambda>_. 1001000)
     (snd (webhook_middleware hook_env hook_config hook_request (\<lambda>_. 700000) (webhook_store hook_config)))) = Passed ''e''"
proof -
  have 1: "webhook_middleware hook_env hook_config hook_request (\<lambda>_. 700000) (webhook_store hook_config) =
     (Passed ''e'', (webhook_store hook_config)\<lparr>rp_entries := [(''e'', 700000)]\<rparr>)"
    using hook_fresh unfolding passed_iff
    by (simp add: hook_request_def hook_config_def hook_env_def verifyWebhookSignature_def webhook_mac_def rbind_def
        webhook_store_def MemoryReplayStore_new_def rp_cleanup_def rp_add_def Let_def)
  have "webhook_middleware hook_env hook_config hook_request (\<lambda>_. 1001000) ((webhook_store hook_config)\<lparr>rp_entries := [(''e'', 700000)]\<rparr>) =
     (Passed ''e'', (webhook_store hook_config)\<lparr>rp_entries := [(''e'', 1001000)]\<rparr>)"
    using hook_fresh unfolding passed_iff
    by (simp add: hook_request_def hook_config_def hook_env_def verifyWebhookSignature_def webhook_mac_def rbind_def
        webhook_store_def MemoryReplayStore_new_def rp_cleanup_def rp_add_def Let_def)
  then show ?thesis using 1 by simp
qed

text \<open>What is signed as a buffer does not verify as one.\<close>

lemma buffer_signature_fails:
  "\<exists>signature. signWebhookPayload hook_env (PBuffer ''b'') ''k'' ''1'' = Inr signature \<and>
     verifyWebhookSignature hook_env (PBuffer ''b'') signature ''k'' ''1'' = Inr False"
  by (simp add: signWebhookPayload_def verifyWebhookSignature_def canonicalize_def serialize.simps [of _ _ "[]"]
      hook_env_def webhook_mac_def rbind_def Let_def quoted_def hex_text_def hex_digit_def)

text \<open>When recording the result fails after the handler ran, the key is given free again.\<close>

lemma unrecorded_result_released:
  assumes "wi_authorized input = Some True" and "js_trim (wi_provider input) \<noteq> []" and "js_trim (wi_eventId input) \<noteq> []"
    and "length (js_trim (wi_eventId input)) \<le> 255" and "wi_handle input = Some res"
    and "id_begin store (''webhook:'' @ js_lower (js_trim (wi_provider input))) (js_trim (wi_eventId input)) (sha (wi_rawBody input))
       now (7 * 24 * 60 * 60 * 1000) (60 * 1000) s = (Some Proceed, s1)"
    and "id_complete store (''webhook:'' @ js_lower (js_trim (wi_provider input))) (js_trim (wi_eventId input)) res now s1 = (False, s2)"
  shows "processWebhook store sha input now s = ((HandlerFailed, True),
     snd (id_release store (''webhook:'' @ js_lower (js_trim (wi_provider input))) (js_trim (wi_eventId input)) s2))"
  using assms by (simp add: processWebhook_def Let_def)

end
