(* ===== verification/Checkpoints.thy ===== *)
theory Checkpoints
  imports Invoice_Model
begin

text \<open>
  Recovery checkpoints around external side effects, \<open>backend/src/recovery/side-effect-checkpoint.ts\<close>.
  Results are JSON values, which cloning does not change; times are time values. A call of
  \<open>runWithCheckpoint\<close> is the list of its parts between two \<open>await\<close>s; \<open>effect_call\<close> says which
  part is next. The Postgres store is SQL and is left out: the store is a record of operations,
  and what the code relies on is the locale \<open>checkpoint_store\<close>.
\<close>

subsection \<open>Checkpoints and stores\<close>

datatype checkpoint_state = CP_started | CP_succeeded | CP_failed | CP_in_doubt

record checkpoint =
  cp_key :: string
  cp_effect :: string
  cp_fingerprint :: "string option"
  cp_state :: checkpoint_state
  cp_attempt :: nat
  cp_result :: json
  cp_error :: "string option"
  cp_createdAt :: int
  cp_updatedAt :: int

datatype claim_outcome = Claimed checkpoint bool | Unclaimed checkpoint

record 's checkpoint_ops =
  co_claim :: "string \<Rightarrow> string \<Rightarrow> string option \<Rightarrow> int \<Rightarrow> int \<Rightarrow> 's \<Rightarrow> claim_outcome \<times> 's"
  co_settle :: "string \<Rightarrow> nat \<Rightarrow> checkpoint_state \<Rightarrow> json option \<Rightarrow> string option \<Rightarrow> int \<Rightarrow> 's \<Rightarrow> checkpoint option \<times> 's"
  co_get :: "string \<Rightarrow> 's \<Rightarrow> checkpoint option"

definition DEFAULT_STALE_AFTER_MS :: int where
  "DEFAULT_STALE_AFTER_MS = 5 * 60000"

datatype effect_error = CheckpointInProgressError | CheckpointInDoubtError | CheckpointKeyReusedError
  | ReconcileThrew | PerformThrew string

record effect_options =
  eo_key :: string
  eo_effect :: string
  eo_fingerprint :: "string option"
  eo_staleAfterMs :: "int option"
  eo_reconcile :: bool  \<comment> \<open>whether the caller can ask the provider\<close>

subsection \<open>The in-memory store\<close>

type_synonym memory_checkpoints = "(string, checkpoint) jsmap"

definition mc_claim ::
  "string \<Rightarrow> string \<Rightarrow> string option \<Rightarrow> int \<Rightarrow> int \<Rightarrow> memory_checkpoints \<Rightarrow> claim_outcome \<times> memory_checkpoints" where
  "mc_claim key effect fingerprint now staleBefore s =
     (let existing = mget s key;
          stale = (case existing of Some c \<Rightarrow> cp_state c = CP_started \<and> cp_updatedAt c < staleBefore | None \<Rightarrow> False);
          checkpoint = \<lparr>cp_key = key, cp_effect = effect, cp_fingerprint = fingerprint, cp_state = CP_started,
            cp_attempt = (case existing of Some c \<Rightarrow> cp_attempt c | None \<Rightarrow> 0) + 1, cp_result = JNull, cp_error = None,
            cp_createdAt = (case existing of Some c \<Rightarrow> cp_createdAt c | None \<Rightarrow> now), cp_updatedAt = now\<rparr>
      in case existing of
           Some c \<Rightarrow>
             if (cp_state c \<noteq> CP_failed \<and> \<not> stale) \<or> cp_fingerprint c \<noteq> fingerprint then (Unclaimed c, s)
             else (Claimed checkpoint stale, mset_kv key checkpoint s)
         | None \<Rightarrow> (Claimed checkpoint stale, mset_kv key checkpoint s))"

definition mc_settle ::
  "string \<Rightarrow> nat \<Rightarrow> checkpoint_state \<Rightarrow> json option \<Rightarrow> string option \<Rightarrow> int \<Rightarrow> memory_checkpoints \<Rightarrow>
   checkpoint option \<times> memory_checkpoints" where
  "mc_settle key attempt state res err now s =
     (case mget s key of
        None \<Rightarrow> (None, s)
      | Some c \<Rightarrow>
          if cp_attempt c \<noteq> attempt \<or> cp_state c \<noteq> CP_started then (None, s)
          else let c' = c\<lparr>cp_state := state, cp_result := (case res of None \<Rightarrow> JNull | Some r \<Rightarrow> r),
                     cp_error := err, cp_updatedAt := now\<rparr>
               in (Some c', mset_kv key c' s))"

definition mc_get :: "string \<Rightarrow> memory_checkpoints \<Rightarrow> checkpoint option" where
  "mc_get key s = mget s key"

definition MemoryCheckpointStore :: "memory_checkpoints checkpoint_ops" where
  "MemoryCheckpointStore = \<lparr>co_claim = mc_claim, co_settle = mc_settle, co_get = mc_get\<rparr>"

subsection \<open>Running an effect\<close>

datatype effect_call =
    EIdle
  | EDoubt string nat
  | EReconcile string nat
  | EFound string nat json
  | EPerform string nat
  | ERunning string nat
  | ESettle string nat "json + string"
  | EDone "effect_error + json"

definition run_claim :: "'s checkpoint_ops \<Rightarrow> effect_options \<Rightarrow> int \<Rightarrow> 's \<Rightarrow> effect_call \<times> 's" where
  "run_claim store opts now s =
     (let staleBefore = now - (case eo_staleAfterMs opts of Some n \<Rightarrow> n | None \<Rightarrow> DEFAULT_STALE_AFTER_MS);
          fingerprint = eo_fingerprint opts
      in (case co_claim store (eo_key opts) (eo_effect opts) fingerprint now staleBefore s of
          (Unclaimed c, s') \<Rightarrow>
            (EDone (if cp_fingerprint c \<noteq> fingerprint then Inl CheckpointKeyReusedError
                    else if cp_state c = CP_succeeded then Inr (cp_result c)
                    else if cp_state c = CP_in_doubt then Inl CheckpointInDoubtError
                    else Inl CheckpointInProgressError), s')
        | (Claimed c recovered, s') \<Rightarrow>
            (if recovered then (if eo_reconcile opts then EReconcile (eo_key opts) (cp_attempt c) else EDoubt (eo_key opts) (cp_attempt c))
             else EPerform (eo_key opts) (cp_attempt c), s')))"

definition run_doubt :: "'s checkpoint_ops \<Rightarrow> string \<Rightarrow> nat \<Rightarrow> int \<Rightarrow> 's \<Rightarrow> effect_call \<times> 's" where
  "run_doubt store key attempt now s =
     (let (doubtful, s') = co_settle store key attempt CP_in_doubt None
            (Some ''previous run stopped before recording its outcome'') now s
      in (EDone (Inl CheckpointInDoubtError), s'))"

text \<open>What the provider answers: it throws, the effect did not happen, or it did.\<close>

datatype reconcile_answer = Unknown | NotDone | FoundDone json

fun run_reconciled :: "string \<Rightarrow> nat \<Rightarrow> reconcile_answer \<Rightarrow> effect_call" where
  "run_reconciled key attempt Unknown = EDone (Inl ReconcileThrew)"
| "run_reconciled key attempt NotDone = EPerform key attempt"
| "run_reconciled key attempt (FoundDone r) = EFound key attempt r"

definition run_found :: "'s checkpoint_ops \<Rightarrow> string \<Rightarrow> nat \<Rightarrow> json \<Rightarrow> int \<Rightarrow> 's \<Rightarrow> effect_call \<times> 's" where
  "run_found store key attempt r now s =
     (let (c, s') = co_settle store key attempt CP_succeeded (Some r) None now s in (EDone (Inr r), s'))"

text \<open>Recording the outcome of \<open>perform\<close>: a result, or the message of an error.\<close>

definition run_settle :: "'s checkpoint_ops \<Rightarrow> string \<Rightarrow> nat \<Rightarrow> json + string \<Rightarrow> int \<Rightarrow> 's \<Rightarrow> effect_call \<times> 's" where
  "run_settle store key attempt outcome now s =
     (case outcome of
        Inl r \<Rightarrow> (let (c, s') = co_settle store key attempt CP_succeeded (Some r) None now s in (EDone (Inr r), s'))
      | Inr message \<Rightarrow>
          (let (c, s') = co_settle store key attempt CP_failed None (Some message) now s
           in (EDone (Inl (PerformThrew message)), s')))"

subsection \<open>Interleaved calls\<close>

text \<open>
  The log has one entry for each time the effect was carried out (key, attempt, and whether it landed), and one
  for each accident outside the code: a run that was taken over as stale although it was still alive, a provider that denied
  an effect that had landed, and an effect that threw although it had landed.
\<close>

datatype effect_fault = Live_run_overtaken | Denied_although_landed | Threw_after_landing

datatype effect_event = Carried string nat bool | Fault string effect_fault

type_synonym 's effect_system = "'s \<times> (nat \<Rightarrow> effect_call) \<times> effect_event list"

fun holds :: "effect_call \<Rightarrow> (string \<times> nat) option" where
  "holds (EDoubt k a) = Some (k, a)"
| "holds (EReconcile k a) = Some (k, a)"
| "holds (EFound k a r) = Some (k, a)"
| "holds (EPerform k a) = Some (k, a)"
| "holds (ERunning k a) = Some (k, a)"
| "holds (ESettle k a r) = Some (k, a)"
| "holds _ = None"

definition landed :: "effect_event list \<Rightarrow> string \<Rightarrow> bool" where
  "landed l k \<longleftrightarrow> (\<exists>a. Carried k a True \<in> set l)"

definition faulty :: "effect_event list \<Rightarrow> string \<Rightarrow> bool" where
  "faulty l k \<longleftrightarrow> (\<exists>f. Fault k f \<in> set l)"

definition note_fault :: "bool \<Rightarrow> string \<Rightarrow> effect_fault \<Rightarrow> effect_event list \<Rightarrow> effect_event list" where
  "note_fault b k f l = (if b then Fault k f # l else l)"

fun took_over :: "effect_call \<Rightarrow> bool" where
  "took_over (EDoubt _ _) = True"
| "took_over (EReconcile _ _) = True"
| "took_over _ = False"

text \<open>
  Calls of \<open>runWithCheckpoint\<close> go on one by one, each from one \<open>await\<close> to the next, in any order. A call may die at any time;
  one that dies while the effect is carried out leaves open whether it landed, and so does one whose effect throws.
  Nothing is assumed of the runs that are taken over and of what the provider answers: the log notes the accidents.
\<close>

inductive effect_step :: "'s checkpoint_ops \<Rightarrow> 's effect_system \<Rightarrow> 's effect_system \<Rightarrow> bool" for store where
  claim: "c n = EIdle \<Longrightarrow> run_claim store opts now s = (e, s') \<Longrightarrow>
    effect_step store (s, c, l) (s', c(n := e),
      note_fault (took_over e \<and> (\<exists>m a. holds (c m) = Some (eo_key opts, a))) (eo_key opts) Live_run_overtaken l)"
| doubt: "c n = EDoubt k a \<Longrightarrow> run_doubt store k a now s = (e, s') \<Longrightarrow> effect_step store (s, c, l) (s', c(n := e), l)"
| reconciled: "c n = EReconcile k a \<Longrightarrow>
    effect_step store (s, c, l) (s, c(n := run_reconciled k a answer),
      note_fault (answer = NotDone \<and> landed l k) k Denied_although_landed l)"
| found: "c n = EFound k a r \<Longrightarrow> run_found store k a r now s = (e, s') \<Longrightarrow> effect_step store (s, c, l) (s', c(n := e), l)"
| perform: "c n = EPerform k a \<Longrightarrow> effect_step store (s, c, l) (s, c(n := ERunning k a), l)"
| performed: "c n = ERunning k a \<Longrightarrow>
    effect_step store (s, c, l) (s, c(n := ESettle k a (Inl r)), Carried k a True # l)"
| threw: "c n = ERunning k a \<Longrightarrow>
    effect_step store (s, c, l) (s, c(n := ESettle k a (Inr m)), Carried k a lands # note_fault lands k Threw_after_landing l)"
| settle: "c n = ESettle k a out \<Longrightarrow> run_settle store k a out now s = (e, s') \<Longrightarrow> effect_step store (s, c, l) (s', c(n := e), l)"
| died: "c n \<noteq> EIdle \<Longrightarrow> (\<forall>k a. c n \<noteq> ERunning k a) \<Longrightarrow> effect_step store (s, c, l) (s, c(n := EDone (Inl CheckpointInProgressError)), l)"
| died_running: "c n = ERunning k a \<Longrightarrow>
    effect_step store (s, c, l) (s, c(n := EDone (Inl CheckpointInProgressError)), Carried k a lands # l)"

lemma faulty_simps [simp]:
  "faulty (note_fault b k f l) k' \<longleftrightarrow> b \<and> k' = k \<or> faulty l k'" "faulty (Carried k a x # l) k' \<longleftrightarrow> faulty l k'"
  by (auto simp: faulty_def note_fault_def)

lemma landed_simps [simp]:
  "landed (note_fault b k f l) k' \<longleftrightarrow> landed l k'" "landed (Carried k a x # l) k' \<longleftrightarrow> k' = k \<and> x \<or> landed l k'"
  by (auto simp: landed_def note_fault_def)

end
