(* ===== verification/Checkpoint_Safety.thy ===== *)
theory Checkpoint_Safety
  imports Checkpoints
begin

text \<open>
  An external effect lands at most once per key, whatever calls, crashes and takeovers happen, unless one of three
  accidents outside the code happens to the key; and once its success is recorded every later call gets the recorded result. Proved for every store
  that keeps the contract \<open>checkpoint_store\<close>.
\<close>

subsection \<open>The contract of a store\<close>

locale checkpoint_store =
  fixes store :: "'s checkpoint_ops" and look :: "'s \<Rightarrow> string \<Rightarrow> checkpoint option"
  assumes claimed_law: "co_claim store k eff f now sb s = (Claimed c rec, s') \<Longrightarrow>
      look s' = (look s)(k \<mapsto> c) \<and> cp_state c = CP_started \<and> cp_fingerprint c = f \<and>
      (case look s k of None \<Rightarrow> \<not> rec
       | Some p \<Rightarrow> cp_attempt p < cp_attempt c \<and> (if rec then cp_state p = CP_started else cp_state p = CP_failed))"
    and unclaimed_law: "co_claim store k eff f now sb s = (Unclaimed c, s') \<Longrightarrow> look s' = look s \<and> look s k = Some c"
    and settled_law: "co_settle store k a st r err now s = (Some c', s') \<Longrightarrow>
      \<exists>c. look s k = Some c \<and> cp_attempt c = a \<and> cp_state c = CP_started \<and> look s' = (look s)(k \<mapsto> c') \<and>
        cp_attempt c' = a \<and> cp_state c' = st \<and> cp_fingerprint c' = cp_fingerprint c"
    and fenced_law: "co_settle store k a st r err now s = (None, s') \<Longrightarrow> look s' = look s"
begin

lemma settle_cases:
  assumes "co_settle store k a st r err now s = (x, s')"
  shows "look s' = look s \<or>
    (\<exists>c c'. look s k = Some c \<and> cp_attempt c = a \<and> cp_state c = CP_started \<and> look s' = (look s)(k \<mapsto> c') \<and> cp_state c' = st)"
  using assms settled_law fenced_law by (cases x) blast+

text \<open>What a step of a call does to the store: nothing, a claim of its key, or a settlement by its holder.\<close>

definition settles_as :: "checkpoint_state \<Rightarrow> string \<Rightarrow> nat \<Rightarrow> 's \<Rightarrow> 's \<Rightarrow> bool" where
  "settles_as st k a s s' \<longleftrightarrow> look s' = look s \<or>
     (\<exists>c c'. look s k = Some c \<and> cp_attempt c = a \<and> cp_state c = CP_started \<and> look s' = (look s)(k \<mapsto> c') \<and> cp_state c' = st)"

lemma run_claim_cases:
  assumes "run_claim store opts now s = (e, s')"
  shows "(look s' = look s \<and> holds e = None) \<or>
    (\<exists>c. look s' = (look s)(eo_key opts \<mapsto> c) \<and> cp_state c = CP_started \<and> holds e = Some (eo_key opts, cp_attempt c) \<and>
      (case look s (eo_key opts) of None \<Rightarrow> \<not> took_over e
       | Some p \<Rightarrow> cp_attempt p < cp_attempt c \<and> (if took_over e then cp_state p = CP_started else cp_state p = CP_failed)) \<and>
      (took_over e \<or> e = EPerform (eo_key opts) (cp_attempt c)))"
proof -
  let ?sb = "now - (case eo_staleAfterMs opts of Some n \<Rightarrow> n | None \<Rightarrow> DEFAULT_STALE_AFTER_MS)"
  obtain q s1 where q: "co_claim store (eo_key opts) (eo_effect opts) (eo_fingerprint opts) now ?sb s = (q, s1)" by fastforce
  show ?thesis
  proof (cases q)
    case (Unclaimed c)
    then show ?thesis using assms q unclaimed_law [OF q [unfolded Unclaimed]] by (auto simp: run_claim_def Let_def)
  next
    case (Claimed c rec)
    let ?e = "if rec then (if eo_reconcile opts then EReconcile (eo_key opts) (cp_attempt c) else EDoubt (eo_key opts) (cp_attempt c))
      else EPerform (eo_key opts) (cp_attempt c)"
    have e: "e = ?e" "s' = s1" using assms q Claimed by (simp_all add: run_claim_def Let_def)
    have t: "took_over ?e = rec" "holds ?e = Some (eo_key opts, cp_attempt c)" "took_over ?e \<or> ?e = EPerform (eo_key opts) (cp_attempt c)"
      by simp_all
    show ?thesis
      using claimed_law [OF q [unfolded Claimed]] unfolding e t by (intro disjI2 exI [of _ c]) simp
  qed
qed

lemma run_settles:
  "run_doubt store k a now s = (e, s') \<Longrightarrow> settles_as CP_in_doubt k a s s' \<and> holds e = None"
  "run_found store k a r now s = (e, s') \<Longrightarrow> settles_as CP_succeeded k a s s' \<and> holds e = None"
  "run_settle store k a out now s = (e, s') \<Longrightarrow>
     settles_as (case out of Inl _ \<Rightarrow> CP_succeeded | Inr _ \<Rightarrow> CP_failed) k a s s' \<and> holds e = None"
  using settle_cases unfolding settles_as_def run_doubt_def run_found_def run_settle_def
  by (auto split: prod.splits sum.splits)

subsection \<open>The invariant\<close>

definition held :: "'s effect_system \<Rightarrow> bool" where
  "held x \<longleftrightarrow> (case x of (s, c, l) \<Rightarrow>
     (\<forall>n k a. \<not> faulty l k \<longrightarrow> holds (c n) = Some (k, a) \<longrightarrow> (\<exists>p. look s k = Some p \<and> cp_attempt p = a \<and> cp_state p = CP_started)) \<and>
     (\<forall>n m k a b. \<not> faulty l k \<longrightarrow> holds (c n) = Some (k, a) \<longrightarrow> holds (c m) = Some (k, b) \<longrightarrow> n = m))"

definition quiet :: "'s effect_system \<Rightarrow> bool" where
  "quiet x \<longleftrightarrow> (case x of (s, c, l) \<Rightarrow> \<forall>k. landed l k \<and> \<not> faulty l k \<longrightarrow>
     (\<exists>p. look s k = Some p \<and> cp_state p \<noteq> CP_failed) \<and>
     (\<forall>n a m. c n \<noteq> EPerform k a \<and> c n \<noteq> ERunning k a \<and> c n \<noteq> ESettle k a (Inr m)))"

lemma heldD:
  assumes "held (s, c, l)" and "\<not> faulty l k"
  shows "holds (c n) = Some (k, a) \<Longrightarrow> \<exists>p. look s k = Some p \<and> cp_attempt p = a \<and> cp_state p = CP_started"
    and "holds (c n) = Some (k, a) \<Longrightarrow> holds (c m) = Some (k, b) \<Longrightarrow> n = m"
  using assms unfolding held_def by auto

lemma heldI:
  assumes "\<And>n k a. \<not> faulty l k \<Longrightarrow> holds (c n) = Some (k, a) \<Longrightarrow> \<exists>p. look s k = Some p \<and> cp_attempt p = a \<and> cp_state p = CP_started"
    and "\<And>n m k a b. \<not> faulty l k \<Longrightarrow> holds (c n) = Some (k, a) \<Longrightarrow> holds (c m) = Some (k, b) \<Longrightarrow> n = m"
  shows "held (s, c, l)"
  using assms unfolding held_def by auto

text \<open>A call that goes on with what it holds, or gives it up; accidents are never forgotten.\<close>

lemma held_move:
  assumes "held (s, c, l)" and "holds e = None \<or> holds e = holds (c n)" and "\<And>k. faulty l k \<Longrightarrow> faulty l' k"
  shows "held (s, c(n := e), l')"
proof (rule heldI)
  fix m k a
  assume f: "\<not> faulty l' k" and "holds ((c(n := e)) m) = Some (k, a)"
  then have "holds (c m) = Some (k, a)" using assms(2) by (cases "m = n") auto
  then show "\<exists>p. look s k = Some p \<and> cp_attempt p = a \<and> cp_state p = CP_started" using heldD(1) [OF assms(1)] f assms(3) by blast
next
  fix m m' k a b
  assume f: "\<not> faulty l' k" and "holds ((c(n := e)) m) = Some (k, a)" "holds ((c(n := e)) m') = Some (k, b)"
  then have "holds (c m) = Some (k, a)" "holds (c m') = Some (k, b)" using assms(2) by (auto split: if_splits)
  then show "m = m'" using heldD(2) [OF assms(1)] f assms(3) by blast
qed

lemma held_settle:
  assumes "held (s, c, l)" and "holds (c n) = Some (k, a)" and "settles_as st k a s s'" and "holds e = None"
  shows "held (s', c(n := e), l)"
proof (rule heldI)
  fix m k' a'
  assume f: "\<not> faulty l k'" and m: "holds ((c(n := e)) m) = Some (k', a')"
  then have mn: "m \<noteq> n" "holds (c m) = Some (k', a')" using assms(4) by (auto split: if_splits)
  then have "k' \<noteq> k" using heldD(2) [OF assms(1) f] assms(2) by blast
  moreover have "\<exists>p. look s k' = Some p \<and> cp_attempt p = a' \<and> cp_state p = CP_started" by (rule heldD(1) [OF assms(1) f mn(2)])
  ultimately show "\<exists>p. look s' k' = Some p \<and> cp_attempt p = a' \<and> cp_state p = CP_started"
    using assms(3) by (auto simp: settles_as_def)
next
  fix m m' k' a' b
  assume f: "\<not> faulty l k'" and h: "holds ((c(n := e)) m) = Some (k', a')" and h': "holds ((c(n := e)) m') = Some (k', b)"
  have "holds (c m) = Some (k', a')" using h assms(4) by (cases "m = n") simp_all
  moreover have "holds (c m') = Some (k', b)" using h' assms(4) by (cases "m' = n") simp_all
  ultimately show "m = m'" by (rule heldD(2) [OF assms(1) f])
qed

lemma held_claim:
  assumes "held (s, c, l)" and "c n = EIdle" and "run_claim store opts now s = (e, s')"
  shows "held (s', c(n := e), note_fault (took_over e \<and> (\<exists>m a. holds (c m) = Some (eo_key opts, a))) (eo_key opts) Live_run_overtaken l)"
  using run_claim_cases [OF assms(3)]
proof
  assume same: "look s' = look s \<and> holds e = None"
  then have "held (s, c(n := e), note_fault (took_over e \<and> (\<exists>m a. holds (c m) = Some (eo_key opts, a))) (eo_key opts) Live_run_overtaken l)"
    by (intro held_move [OF assms(1)]) (simp_all add: same)
  then show ?thesis unfolding held_def prod.case same [THEN conjunct1] .
next
  let ?k = "eo_key opts"
  let ?l = "note_fault (took_over e \<and> (\<exists>m a. holds (c m) = Some (?k, a))) ?k Live_run_overtaken l"
  assume "\<exists>p. look s' = (look s)(?k \<mapsto> p) \<and> cp_state p = CP_started \<and> holds e = Some (?k, cp_attempt p) \<and>
    (case look s ?k of None \<Rightarrow> \<not> took_over e
     | Some q \<Rightarrow> cp_attempt q < cp_attempt p \<and> (if took_over e then cp_state q = CP_started else cp_state q = CP_failed)) \<and>
    (took_over e \<or> e = EPerform ?k (cp_attempt p))"
  then obtain p where p: "look s' = (look s)(?k \<mapsto> p)" "cp_state p = CP_started" "holds e = Some (?k, cp_attempt p)"
      "case look s ?k of None \<Rightarrow> \<not> took_over e | Some q \<Rightarrow> if took_over e then cp_state q = CP_started else cp_state q = CP_failed"
    by (auto split: option.splits)
  have free: "holds (c m) \<noteq> Some (?k, b)" if "\<not> faulty ?l ?k" for m b
  proof
    assume h: "holds (c m) = Some (?k, b)"
    have "\<not> faulty l ?k" using that by simp
    then obtain q where "look s ?k = Some q" "cp_state q = CP_started" using heldD(1) [OF assms(1)] h by blast
    then have "took_over e" using p(4) by (auto split: if_splits)
    then show False using that h by auto
  qed
  show ?thesis
  proof (rule heldI)
    fix m k a
    assume f: "\<not> faulty ?l k" and h: "holds ((c(n := e)) m) = Some (k, a)"
    have "\<not> faulty l k" using f by simp
    from heldD(1) [OF assms(1) this] show "\<exists>p. look s' k = Some p \<and> cp_attempt p = a \<and> cp_state p = CP_started"
      using h p(1-3) free [of m a] f by (cases "m = n"; cases "k = ?k") auto
  next
    fix m m' k a b
    assume f: "\<not> faulty ?l k" and h: "holds ((c(n := e)) m) = Some (k, a)" "holds ((c(n := e)) m') = Some (k, b)"
    have "\<not> faulty l k" using f by simp
    from heldD(2) [OF assms(1) this] show "m = m'"
      using h p(3) free [of m a] free [of m' b] f by (cases "m = n"; cases "m' = n") auto
  qed
qed

lemma step_held: "effect_step store x y \<Longrightarrow> held x \<Longrightarrow> held y"
proof (induction rule: effect_step.induct)
  case (claim c n opts now s e s' l)
  then show ?case using held_claim by blast
next
  case (doubt c n k a now s e s' l)
  then show ?case using held_settle [of s c l n k a] run_settles(1) by fastforce
next
  case (reconciled c n k a s l answer)
  then show ?case by (intro held_move) (assumption, cases answer, auto)
next
  case (found c n k a r now s e s' l)
  then show ?case using held_settle [of s c l n k a] run_settles(2) by fastforce
next
  case (settle c n k a out now s e s' l)
  then show ?case using held_settle [of s c l n k a] run_settles(3) by fastforce
qed (auto intro: held_move)

lemma quietI:
  assumes "\<And>k. landed l k \<Longrightarrow> \<not> faulty l k \<Longrightarrow> \<exists>p. look s k = Some p \<and> cp_state p \<noteq> CP_failed"
    and "\<And>k n a m. landed l k \<Longrightarrow> \<not> faulty l k \<Longrightarrow> c n \<noteq> EPerform k a \<and> c n \<noteq> ERunning k a \<and> c n \<noteq> ESettle k a (Inr m)"
  shows "quiet (s, c, l)"
  using assms unfolding quiet_def by auto

lemma quietD:
  assumes "quiet (s, c, l)" and "landed l k" and "\<not> faulty l k"
  shows "\<exists>p. look s k = Some p \<and> cp_state p \<noteq> CP_failed" "c n \<noteq> EPerform k a" "c n \<noteq> ERunning k a" "c n \<noteq> ESettle k a (Inr m)"
  using assms unfolding quiet_def by auto

text \<open>A step under which nothing lands keeps a landed key quiet when it does not fail it or carry it out again.\<close>

lemma quiet_move:
  assumes "quiet (s, c, l)" and "\<And>k. landed l' k \<Longrightarrow> \<not> faulty l' k \<Longrightarrow> landed l k \<and> \<not> faulty l k"
    and "\<And>k. landed l k \<Longrightarrow> \<not> faulty l' k \<Longrightarrow> \<not> faulty l k \<Longrightarrow> \<exists>p. look s' k = Some p \<and> cp_state p \<noteq> CP_failed"
    and "\<And>k a m. landed l k \<Longrightarrow> \<not> faulty l' k \<Longrightarrow> \<not> faulty l k \<Longrightarrow> e \<noteq> EPerform k a \<and> e \<noteq> ERunning k a \<and> e \<noteq> ESettle k a (Inr m)"
  shows "quiet (s', c(n := e), l')"
proof (rule quietI)
  fix k m a msg
  assume k: "landed l' k" "\<not> faulty l' k"
  note k' = assms(2) [OF k]
  show "\<exists>p. look s' k = Some p \<and> cp_state p \<noteq> CP_failed" using assms(3) k k' by blast
  show "(c(n := e)) m \<noteq> EPerform k a \<and> (c(n := e)) m \<noteq> ERunning k a \<and> (c(n := e)) m \<noteq> ESettle k a (Inr msg)"
    using assms(4) [of k a msg] quietD(2-4) [OF assms(1), of k] k k' by simp
qed

lemma settle_keeps:
  assumes "quiet (s, c, l)" and "landed l k'" and "\<not> faulty l k'" and "settles_as st k a s s'" and "k = k' \<longrightarrow> st \<noteq> CP_failed"
  shows "\<exists>p. look s' k' = Some p \<and> cp_state p \<noteq> CP_failed"
  using quietD(1) [OF assms(1-3)] assms(4,5) by (auto simp: settles_as_def)

lemma done_only: "holds e = None \<Longrightarrow> e \<noteq> EPerform k a \<and> e \<noteq> ERunning k a \<and> e \<noteq> ESettle k a r"
  by auto

lemma quiet_settle:
  assumes "quiet (s, c, l)" and "settles_as st k a s s'" and "holds e = None" and "landed l k \<Longrightarrow> \<not> faulty l k \<Longrightarrow> st \<noteq> CP_failed"
  shows "quiet (s', c(n := e), l)"
  by (rule quiet_move [OF assms(1)]) (use assms settle_keeps [OF assms(1) _ _ assms(2)] done_only in blast)+

text \<open>The call that carries the effect out is the only one that holds its key, so when the effect lands the key becomes quiet.\<close>

lemma quiet_landed:
  assumes "held (s, c, l)" and "quiet (s, c, l)" and "c n = ERunning k a" and "\<And>m. e \<noteq> ESettle k a (Inr m)" and "holds e = None \<or> (\<exists>r. e = ESettle k a r)"
  shows "quiet (s, c(n := e), Carried k a lands # l)"
proof (rule quietI)
  fix k'
  assume "landed (Carried k a lands # l) k'" and f: "\<not> faulty (Carried k a lands # l) k'"
  then have k': "k' = k \<or> landed l k'" and nf: "\<not> faulty l k'" by auto
  have "\<exists>p. look s k = Some p \<and> cp_state p = CP_started" if "k' = k"
    using heldD(1) [OF assms(1), of k n a] nf that assms(3) by auto
  then show "\<exists>p. look s k' = Some p \<and> cp_state p \<noteq> CP_failed" using k' quietD(1) [OF assms(2) _ nf] by auto
  fix m b msg
  have "c m \<noteq> EPerform k b \<and> c m \<noteq> ERunning k b \<and> c m \<noteq> ESettle k b q" if "m \<noteq> n" "k' = k" for q
    using heldD(2) [OF assms(1), of k n a m b] nf assms(3) that by auto
  then show "(c(n := e)) m \<noteq> EPerform k' b \<and> (c(n := e)) m \<noteq> ERunning k' b \<and> (c(n := e)) m \<noteq> ESettle k' b (Inr msg)"
    using k' assms(4,5) quietD(2-4) [OF assms(2) _ nf, of m b] by (cases "m = n") auto
qed

lemma step_quiet: "effect_step store x y \<Longrightarrow> held x \<Longrightarrow> quiet x \<Longrightarrow> quiet y"
proof (induction rule: effect_step.induct)
  case (claim c n opts now s e s' l)
  show ?case
  proof (rule quiet_move [OF claim.prems(2)])
    fix k
    assume k: "landed l k" "\<not> faulty l k"
    obtain p where p: "look s k = Some p" "cp_state p \<noteq> CP_failed" using quietD(1) [OF claim.prems(2) k] by blast
    show "\<exists>p. look s' k = Some p \<and> cp_state p \<noteq> CP_failed"
      using run_claim_cases [OF claim.hyps(2)] p by (cases "k = eo_key opts") auto
    show "e \<noteq> EPerform k a \<and> e \<noteq> ERunning k a \<and> e \<noteq> ESettle k a (Inr m)" for a m
      using run_claim_cases [OF claim.hyps(2)] p by (auto split: option.splits if_splits)
  qed auto
next
  case (doubt c n k a now s e s' l)
  then show ?case using run_settles(1) [OF doubt.hyps(2)] quiet_settle [of s c l CP_in_doubt k a s' e n] by simp
next
  case (reconciled c n k a s l answer)
  show ?case
  proof (rule quiet_move [OF reconciled.prems(2)])
    fix k' b m
    assume "landed l k'" "\<not> faulty (note_fault (answer = NotDone \<and> landed l k) k Denied_although_landed l) k'"
    then show "run_reconciled k a answer \<noteq> EPerform k' b \<and> run_reconciled k a answer \<noteq> ERunning k' b \<and> run_reconciled k a answer \<noteq> ESettle k' b (Inr m)"
      by (cases answer) auto
  qed (use quietD(1) [OF reconciled.prems(2)] in auto)
next
  case (found c n k a r now s e s' l)
  then show ?case using run_settles(2) [OF found.hyps(2)] quiet_settle [of s c l CP_succeeded k a s' e n] by simp
next
  case (perform c n k a s l)
  show ?case
    by (rule quiet_move [OF perform.prems(2)])
      (use perform.hyps quietD(1,2) [OF perform.prems(2)] in auto)
next
  case (performed c n k a s l r)
  then show ?case by (intro quiet_landed) auto
next
  case (threw c n k a s l msg lands)
  show ?case
  proof (rule quiet_move [OF threw.prems(2)])
    fix k' b m
    assume "landed l k'" "\<not> faulty l k'"
    then show "ESettle k a (Inr msg) \<noteq> EPerform k' b \<and> ESettle k a (Inr msg) \<noteq> ERunning k' b \<and> ESettle k a (Inr msg) \<noteq> ESettle k' b (Inr m)"
      using quietD(3) [OF threw.prems(2), of k' n a] threw.hyps by auto
  qed (use quietD(1) [OF threw.prems(2)] in auto)
next
  case (settle c n k a out now s e s' l)
  note st = run_settles(3) [OF settle.hyps(2)]
  have ok: "(case out of Inl _ \<Rightarrow> CP_succeeded | Inr _ \<Rightarrow> CP_failed) \<noteq> CP_failed" if "landed l k" "\<not> faulty l k"
    using quietD(4) [OF settle.prems(2) that, of n a] settle.hyps(1) by (cases out) auto
  show ?case by (rule quiet_settle [OF settle.prems(2)]) (use st ok in auto)
next
  case (died c n s l)
  show ?case by (rule quiet_move [OF died.prems(2)]) (use quietD(1) [OF died.prems(2)] in auto)
next
  case (died_running c n k a s l lands)
  then show ?case by (intro quiet_landed) auto
qed

text \<open>Recorded successes and doubts are final.\<close>

lemma step_final:
  "effect_step store x y \<Longrightarrow> look (fst x) k = Some p \<Longrightarrow> cp_state p \<in> {CP_succeeded, CP_in_doubt} \<Longrightarrow> look (fst y) k = Some p"
proof (induction rule: effect_step.induct)
  case (claim c n opts now s e s' l)
  then show ?case using run_claim_cases [OF claim.hyps(2)] by (cases "k = eo_key opts") (auto split: if_splits)
next
  case (doubt c n k' a now s e s' l)
  then show ?case using run_settles(1) [OF doubt.hyps(2)] by (cases "k = k'") (auto simp: settles_as_def)
next
  case (found c n k' a r now s e s' l)
  then show ?case using run_settles(2) [OF found.hyps(2)] by (cases "k = k'") (auto simp: settles_as_def)
next
  case (settle c n k' a out now s e s' l)
  then show ?case using run_settles(3) [OF settle.hyps(2)] by (cases "k = k'") (auto simp: settles_as_def)
qed simp_all

lemma steps_final:
  assumes "(effect_step store)\<^sup>*\<^sup>* x y" and "look (fst x) k = Some p" and "cp_state p \<in> {CP_succeeded, CP_in_doubt}"
  shows "look (fst y) k = Some p"
  using assms by (induction rule: rtranclp_induct) (auto dest: step_final)

text \<open>Only a call that is carrying out the effect adds to the log, so a key lands once.\<close>

definition landings :: "effect_event list \<Rightarrow> string \<Rightarrow> nat" where
  "landings l k = length (filter (\<lambda>x. \<exists>a. x = Carried k a True) l)"

lemma landings_0: "landings l k = 0 \<longleftrightarrow> \<not> landed l k"
  by (auto simp: landings_def landed_def filter_empty_conv)

lemma landings_simps [simp]:
  "landings (Carried k' a b # l) k = (if k = k' \<and> b then 1 else 0) + landings l k" "landings (note_fault b k' f l) k = landings l k"
  by (auto simp: landings_def note_fault_def)

lemma step_landings:
  "effect_step store x y \<Longrightarrow> quiet x \<Longrightarrow> (\<not> faulty (snd (snd x)) k \<longrightarrow> landings (snd (snd x)) k \<le> 1) \<Longrightarrow>
    \<not> faulty (snd (snd y)) k \<longrightarrow> landings (snd (snd y)) k \<le> 1"
proof (induction rule: effect_step.induct)
  case (performed c n k' a s l r)
  have "\<not> landed l k'" if "\<not> faulty l k'" using quietD(3) [OF performed.prems(1) _ that] performed.hyps by blast
  then show ?case using performed.prems(2) landings_0 [of l k] by auto
next
  case (threw c n k' a s l m lands)
  then show ?case by auto
next
  case (died_running c n k' a s l lands)
  have "\<not> landed l k'" if "\<not> faulty l k'" using quietD(3) [OF died_running.prems(1) _ that] died_running.hyps by blast
  then show ?case using died_running.prems(2) landings_0 [of l k] by auto
qed simp_all

lemma run_once:
  assumes "(effect_step store)\<^sup>*\<^sup>* (s0, \<lambda>_. EIdle, []) y" and "\<And>k. look s0 k = None"
  shows "held y \<and> quiet y \<and> (\<not> faulty (snd (snd y)) k \<longrightarrow> landings (snd (snd y)) k \<le> 1)"
  using assms(1)
proof (induction rule: rtranclp_induct)
  case base
  then show ?case by (simp add: held_def quiet_def landed_def landings_def)
next
  case (step y z)
  then show ?case using step_held [OF step(2)] step_quiet [OF step(2)] step_landings [OF step(2)] by blast
qed

end

subsection \<open>The in-memory store keeps the contract\<close>

interpretation mc: checkpoint_store MemoryCheckpointStore "\<lambda>s. mget s"
proof
  show "co_claim MemoryCheckpointStore k eff f now sb s = (Claimed c rec, s') \<Longrightarrow>
      mget s' = (mget s)(k \<mapsto> c) \<and> cp_state c = CP_started \<and> cp_fingerprint c = f \<and>
      (case mget s k of None \<Rightarrow> \<not> rec
       | Some p \<Rightarrow> cp_attempt p < cp_attempt c \<and> (if rec then cp_state p = CP_started else cp_state p = CP_failed))"
    for k eff f now sb s c rec s'
    by (auto simp: MemoryCheckpointStore_def mc_claim_def Let_def fun_eq_iff split: option.splits if_splits)
  show "co_claim MemoryCheckpointStore k eff f now sb s = (Unclaimed c, s') \<Longrightarrow> mget s' = mget s \<and> mget s k = Some c"
    for k eff f now sb s c s'
    by (auto simp: MemoryCheckpointStore_def mc_claim_def Let_def split: option.splits if_splits)
  show "co_settle MemoryCheckpointStore k a st r err now s = (Some c', s') \<Longrightarrow>
      \<exists>c. mget s k = Some c \<and> cp_attempt c = a \<and> cp_state c = CP_started \<and> mget s' = (mget s)(k \<mapsto> c') \<and>
        cp_attempt c' = a \<and> cp_state c' = st \<and> cp_fingerprint c' = cp_fingerprint c" for k a st r err now s c' s'
    by (auto simp: MemoryCheckpointStore_def mc_settle_def Let_def fun_eq_iff split: option.splits if_splits)
  show "co_settle MemoryCheckpointStore k a st r err now s = (None, s') \<Longrightarrow> mget s' = mget s" for k a st r err now s s'
    by (auto simp: MemoryCheckpointStore_def mc_settle_def Let_def split: option.splits if_splits)
qed

subsection \<open>Claims\<close>

text \<open>
  C5: an external effect lands at most once per key, unless one of three accidents happened to the
  key: a run was taken over as stale while it was still alive, the provider denied an effect that had landed, or an
  effect threw although it had landed. Otherwise, however calls of \<open>runWithCheckpoint\<close> interleave,
  retry, die and take over from one another, at most one of them lands the effect of a
  key, and once it landed no call is about to carry it out again.
\<close>

theorem effect_lands_once:
  assumes "(effect_step MemoryCheckpointStore)\<^sup>*\<^sup>* ([], \<lambda>_. EIdle, []) (s, c, l)" and "\<forall>f. Fault k f \<notin> set l"
  shows "length (filter (\<lambda>x. \<exists>a. x = Carried k a True) l) \<le> 1 \<and>
    ((\<exists>a. Carried k a True \<in> set l) \<longrightarrow> (\<forall>n a. c n \<noteq> EPerform k a \<and> c n \<noteq> ERunning k a))"
proof -
  have nf: "\<not> faulty l k" using assms(2) by (simp add: faulty_def)
  then have r: "mc.quiet (s, c, l)" "mc.landings l k \<le> 1" using mc.run_once [OF assms(1), of k] by simp_all
  have "\<forall>n a. c n \<noteq> EPerform k a \<and> c n \<noteq> ERunning k a" if "\<exists>a. Carried k a True \<in> set l"
    using mc.quietD(2,3) [OF r(1) _ nf] that unfolding landed_def by blast
  then show ?thesis using r(2) by (simp add: mc.landings_def)
qed

text \<open>
  Once the success of an effect is recorded, every later call with the key gets the recorded
  result without carrying the effect out, or is refused when its payload differs.
\<close>

lemma checkpoint_replays_result:
  assumes "mget s (eo_key opts) = Some p" and "cp_state p = CP_succeeded"
    and "(effect_step MemoryCheckpointStore)\<^sup>*\<^sup>* (s, c, l) (s2, c2, l2)"
  shows "run_claim MemoryCheckpointStore opts now s2 =
    (EDone (if cp_fingerprint p = eo_fingerprint opts then Inr (cp_result p) else Inl CheckpointKeyReusedError), s2)"
proof -
  have "mget s2 (eo_key opts) = Some p" using mc.steps_final [OF assms(3), of "eo_key opts" p] assms(1,2) by simp
  then show ?thesis using assms(2) by (simp add: run_claim_def MemoryCheckpointStore_def mc_claim_def Let_def)
qed

subsection \<open>A run\<close>

definition once_options :: effect_options where
  "once_options = \<lparr>eo_key = ''k'', eo_effect = ''email'', eo_fingerprint = None, eo_staleAfterMs = None, eo_reconcile = False\<rparr>"

definition once_checkpoint :: "checkpoint_state \<Rightarrow> json \<Rightarrow> checkpoint" where
  "once_checkpoint st r = \<lparr>cp_key = ''k'', cp_effect = ''email'', cp_fingerprint = None, cp_state = st, cp_attempt = 1,
     cp_result = r, cp_error = None, cp_createdAt = 0, cp_updatedAt = 0\<rparr>"

lemma once_begins:
  "effect_step MemoryCheckpointStore ([], \<lambda>_. EIdle, [])
     ([(''k'', once_checkpoint CP_started JNull)], (\<lambda>_. EIdle)(0 := EPerform ''k'' 1), [])"
proof -
  have "effect_step MemoryCheckpointStore ([], \<lambda>_. EIdle, []) ([(''k'', once_checkpoint CP_started JNull)], (\<lambda>_. EIdle)(0 := EPerform ''k'' 1),
      note_fault (took_over (EPerform ''k'' 1) \<and> (\<exists>m a. holds ((\<lambda>_ :: nat. EIdle) m) = Some (eo_key once_options, a))) (eo_key once_options) Live_run_overtaken [])"
    by (rule claim [where opts = once_options and now = 0])
      (simp_all add: run_claim_def MemoryCheckpointStore_def mc_claim_def once_options_def once_checkpoint_def Let_def)
  then show ?thesis by (simp add: note_fault_def)
qed

lemma once_run:
  "(effect_step MemoryCheckpointStore)\<^sup>*\<^sup>* ([], \<lambda>_. EIdle, [])
     ([(''k'', once_checkpoint CP_succeeded (JBool True))], (\<lambda>_. EIdle)(0 := EDone (Inr (JBool True))), [Carried ''k'' 1 True])"
proof -
  let ?e = "effect_step MemoryCheckpointStore" and ?i = "\<lambda>_ :: nat. EIdle"
  let ?s = "[(''k'', once_checkpoint CP_started JNull)]"
  have 2: "?e (?s, ?i(0 := EPerform ''k'' 1), []) (?s, (?i(0 := EPerform ''k'' 1))(0 := ERunning ''k'' 1), [])"
    by (rule perform) simp
  have 3: "?e (?s, ?i(0 := ERunning ''k'' 1), []) (?s, (?i(0 := ERunning ''k'' 1))(0 := ESettle ''k'' 1 (Inl (JBool True))), [Carried ''k'' 1 True])"
    by (rule performed) simp
  have 4: "?e (?s, ?i(0 := ESettle ''k'' 1 (Inl (JBool True))), [Carried ''k'' 1 True])
      ([(''k'', once_checkpoint CP_succeeded (JBool True))], (?i(0 := ESettle ''k'' 1 (Inl (JBool True))))(0 := EDone (Inr (JBool True))), [Carried ''k'' 1 True])"
    by (rule settle [where now = 0 and out = "Inl (JBool True)" and k = "''k''" and a = 1])
      (simp_all add: run_settle_def MemoryCheckpointStore_def mc_settle_def once_checkpoint_def Let_def)
  show ?thesis using once_begins 2 3 4 unfolding fun_upd_upd by (meson converse_rtranclp_into_rtranclp r_into_rtranclp)
qed

text \<open>Witness of C5: one call carries the effect out.\<close>

theorem effect_lands_once_witness:
  "length (filter (\<lambda>x. \<exists>a. x = Carried ''k'' a True) [Carried ''k'' 1 True]) \<le> 1 \<and>
   ((\<lambda>_. EIdle)(0 :: nat := EDone (Inr (JBool True)))) 0 \<noteq> EPerform ''k'' 2"
  using effect_lands_once [OF once_run, of "''k''"] by auto

subsection \<open>An effect that lands and throws\<close>

text \<open>
  The third accident is an ordinary one: a call that lands and then throws, such as a request that times
  out after it was received, is recorded as failed, and the next call carries the effect out again.
\<close>

lemma thrown_effect_lands_twice:
  "\<exists>s c l. (effect_step MemoryCheckpointStore)\<^sup>*\<^sup>* ([], \<lambda>_. EIdle, []) (s, c, l) \<and>
     length (filter (\<lambda>x. \<exists>a. x = Carried ''k'' a True) l) = 2 \<and> Fault ''k'' Live_run_overtaken \<notin> set l \<and> Fault ''k'' Denied_although_landed \<notin> set l"
proof -
  let ?e = "effect_step MemoryCheckpointStore" and ?i = "\<lambda>_ :: nat. EIdle"
  let ?s = "[(''k'', once_checkpoint CP_started JNull)]" and ?m = "''timeout''"
  let ?l = "[Carried ''k'' 1 True, Fault ''k'' Threw_after_landing]"
  let ?f = "[(''k'', (once_checkpoint CP_failed JNull)\<lparr>cp_error := Some ?m\<rparr>)]"
  let ?g = "[(''k'', (once_checkpoint CP_started JNull)\<lparr>cp_attempt := 2\<rparr>)]"
  let ?d = "?i(0 := EDone (Inl (PerformThrew ?m)))"
  have 2: "?e (?s, ?i(0 := EPerform ''k'' 1), []) (?s, (?i(0 := EPerform ''k'' 1))(0 := ERunning ''k'' 1), [])"
    by (rule perform) simp
  have 3: "?e (?s, ?i(0 := ERunning ''k'' 1), []) (?s, (?i(0 := ERunning ''k'' 1))(0 := ESettle ''k'' 1 (Inr ?m)), ?l)"
    using threw [of "?i(0 := ERunning ''k'' 1)" 0 "''k''" 1 MemoryCheckpointStore ?s "[]" ?m True] by (simp add: note_fault_def)
  have 4: "?e (?s, ?i(0 := ESettle ''k'' 1 (Inr ?m)), ?l) (?f, (?i(0 := ESettle ''k'' 1 (Inr ?m)))(0 := EDone (Inl (PerformThrew ?m))), ?l)"
    by (rule settle [where now = 0 and out = "Inr ?m" and k = "''k''" and a = 1])
      (simp_all add: run_settle_def MemoryCheckpointStore_def mc_settle_def once_checkpoint_def Let_def)
  have 5: "?e (?f, ?d, ?l) (?g, ?d(1 := EPerform ''k'' 2), ?l)"
  proof -
    have "?e (?f, ?d, ?l) (?g, ?d(1 := EPerform ''k'' 2),
        note_fault (took_over (EPerform ''k'' 2) \<and> (\<exists>m a. holds (?d m) = Some (eo_key once_options, a))) (eo_key once_options) Live_run_overtaken ?l)"
      by (rule claim [where opts = once_options and now = 0])
        (simp_all add: run_claim_def MemoryCheckpointStore_def mc_claim_def once_options_def once_checkpoint_def Let_def)
    then show ?thesis by (simp add: note_fault_def)
  qed
  have 6: "?e (?g, ?d(1 := EPerform ''k'' 2), ?l) (?g, (?d(1 := EPerform ''k'' 2))(1 := ERunning ''k'' 2), ?l)"
    by (rule perform) simp
  have 7: "?e (?g, ?d(1 := ERunning ''k'' 2), ?l) (?g, (?d(1 := ERunning ''k'' 2))(1 := ESettle ''k'' 2 (Inl (JBool True))), Carried ''k'' 2 True # ?l)"
    by (rule performed) simp
  have "?e\<^sup>*\<^sup>* ([], ?i, []) (?g, ?d(1 := ESettle ''k'' 2 (Inl (JBool True))), Carried ''k'' 2 True # ?l)"
    using once_begins 2 3 4 5 6 7 unfolding fun_upd_upd by (meson converse_rtranclp_into_rtranclp r_into_rtranclp)
  then show ?thesis by (intro exI conjI, assumption) simp_all
qed

text \<open>A second call gets the result.\<close>

lemma checkpoint_replays_result_witness:
  "run_claim MemoryCheckpointStore once_options 9 [(''k'', once_checkpoint CP_succeeded (JBool True))] =
     (EDone (Inr (JBool True)), [(''k'', once_checkpoint CP_succeeded (JBool True))])"
  using checkpoint_replays_result [OF _ _ rtranclp.rtrancl_refl,
      of "[(''k'', once_checkpoint CP_succeeded (JBool True))]" once_options "once_checkpoint CP_succeeded (JBool True)"]
  by (simp add: once_options_def once_checkpoint_def)

end
