(* ===== verification/Workflow_Sla.thy ===== *)
theory Workflow_Sla
  imports Js_Number
begin

text \<open>
  Deadlines of workflow states, \<open>backend/src/domain/workflow-sla.ts\<close>. Times are time values in
  milliseconds; the numbers of a policy are integers, and the level is computed with the rounded
  divisions of the code. The audit sink is a list of the events it received, newest first.
\<close>

subsection \<open>Policies\<close>

record sla_policy =
  sp_name :: string
  sp_dueSecs :: int
  sp_escalationAfterSecs :: int
  sp_maxEscalationLevel :: int

definition DEFAULT_SLA_POLICIES :: "(string \<times> sla_policy) list" where
  "DEFAULT_SLA_POLICIES =
     [(''PENDING_PAYMENT'', \<lparr>sp_name = ''Payment due'', sp_dueSecs = 24 * 60 * 60, sp_escalationAfterSecs = 2 * 60 * 60, sp_maxEscalationLevel = 3\<rparr>),
      (''PENDING_VERIFICATION'', \<lparr>sp_name = ''Verification due'', sp_dueSecs = 30 * 60, sp_escalationAfterSecs = 10 * 60, sp_maxEscalationLevel = 2\<rparr>),
      (''PENDING_APPROVAL'', \<lparr>sp_name = ''Approval due'', sp_dueSecs = 4 * 60 * 60, sp_escalationAfterSecs = 60 * 60, sp_maxEscalationLevel = 3\<rparr>),
      (''PENDING_ESCALATION_REVIEW'', \<lparr>sp_name = ''Escalation review due'', sp_dueSecs = 60 * 60, sp_escalationAfterSecs = 30 * 60, sp_maxEscalationLevel = 1\<rparr>)]"

type_synonym sla_registry = "(string, sla_policy) jsmap"

definition SLAPolicyRegistry_new :: "(string \<times> sla_policy) list option \<Rightarrow> sla_registry" where
  "SLAPolicyRegistry_new initial = (case initial of Some ps \<Rightarrow> ps | None \<Rightarrow> DEFAULT_SLA_POLICIES)"

definition registry_get :: "string \<Rightarrow> sla_registry \<Rightarrow> sla_policy option" where
  "registry_get state r = mget r state"

definition registry_set :: "string \<Rightarrow> sla_policy \<Rightarrow> sla_registry \<Rightarrow> sla_registry" where
  "registry_set state policy r = mset_kv state policy r"

subsection \<open>The engine\<close>

datatype sla_status = ON_TIME | OVERDUE | ESCALATED | RESOLVED

record escalation_record =
  er_level :: int
  er_actor :: string
  er_reason :: string
  er_at :: int

record workflow_sla_state =
  ws_workflowId :: string
  ws_state :: string
  ws_enteredAt :: int
  ws_dueAt :: int
  ws_slaStatus :: sla_status
  ws_escalationLevel :: int
  ws_resolvedAt :: "int option"
  ws_escalationHistory :: "escalation_record list"

datatype sla_event_type = SLA_OVERDUE | SLA_ESCALATED | SLA_RESOLVED

record sla_event =
  se_workflowId :: string
  se_eventType :: sla_event_type
  se_previousStatus :: sla_status
  se_newStatus :: sla_status
  se_escalationLevel :: int
  se_actor :: string
  se_reason :: string
  se_at :: int

record sla_engine =
  en_registry :: sla_registry
  en_store :: "(string, workflow_sla_state) jsmap"
  en_audit :: "sla_event list"

datatype sla_error = NoPolicy | NoWorkflow | WorkflowResolved

definition WorkflowSLAEngine_new :: "sla_registry \<Rightarrow> sla_engine" where
  "WorkflowSLAEngine_new registry = \<lparr>en_registry = registry, en_store = [], en_audit = []\<rparr>"

definition sla_enter ::
  "string \<Rightarrow> string \<Rightarrow> int \<Rightarrow> sla_engine \<Rightarrow> (sla_error, workflow_sla_state) result \<times> sla_engine" where
  "sla_enter workflowId state now e =
     (case registry_get state (en_registry e) of
        None \<Rightarrow> (Inl NoPolicy, e)
      | Some policy \<Rightarrow>
          let w = \<lparr>ws_workflowId = workflowId, ws_state = state, ws_enteredAt = now,
                ws_dueAt = now + sp_dueSecs policy * 1000, ws_slaStatus = ON_TIME, ws_escalationLevel = 0,
                ws_resolvedAt = None, ws_escalationHistory = []\<rparr>
          in (Inr w, e\<lparr>en_store := mset_kv workflowId w (en_store e)\<rparr>))"

text \<open>
  \<open>Math.min(Math.floor(overdueSecs / escalationAfterSecs), maxEscalationLevel)\<close>. With an interval
  of zero the quotient is not a number at the deadline, which the code treats like level 0, and
  infinite after it.
\<close>

definition sla_level :: "sla_policy \<Rightarrow> int \<Rightarrow> int" where
  "sla_level policy overdueMs =
     (let overdueSecs = round_double (of_int overdueMs / 1000)
      in if sp_escalationAfterSecs policy = 0
         then (if overdueMs = 0 then 0 else sp_maxEscalationLevel policy)
         else min \<lfloor>round_double (overdueSecs / of_int (sp_escalationAfterSecs policy))\<rfloor> (sp_maxEscalationLevel policy))"

definition sla_evaluated :: "sla_policy \<Rightarrow> int \<Rightarrow> workflow_sla_state \<Rightarrow> workflow_sla_state \<times> sla_event list" where
  "sla_evaluated policy now w =
     (let newLevel = sla_level policy (now - ws_dueAt w);
          newStatus = (if newLevel > 0 then ESCALATED else OVERDUE)
      in if ws_slaStatus w \<noteq> newStatus \<or> newLevel > ws_escalationLevel w then
           let w1 = w\<lparr>ws_slaStatus := newStatus\<rparr>;
               w2 = (if newLevel > ws_escalationLevel w
                     then w1\<lparr>ws_escalationLevel := newLevel,
                       ws_escalationHistory := ws_escalationHistory w @
                         [\<lparr>er_level = newLevel, er_actor = ''system'', er_reason = ''Automatic escalation: SLA deadline exceeded'', er_at = now\<rparr>]\<rparr>
                     else w1)
           in (w2, [\<lparr>se_workflowId = ws_workflowId w, se_eventType = (if newStatus = ESCALATED then SLA_ESCALATED else SLA_OVERDUE),
                 se_previousStatus = ws_slaStatus w, se_newStatus = newStatus, se_escalationLevel = ws_escalationLevel w2,
                 se_actor = ''system'', se_reason = ''Automatic SLA evaluation'', se_at = now\<rparr>])
         else (w, []))"

text \<open>
  The policy is used only past the deadline; without one the code would raise a \<open>TypeError\<close> there
  (\<open>NoPolicy\<close>). A registered policy is never removed, so the policy of a stored workflow is there.
\<close>

definition sla_evaluate ::
  "string \<Rightarrow> int \<Rightarrow> sla_engine \<Rightarrow> (sla_error, workflow_sla_state) result \<times> sla_engine" where
  "sla_evaluate workflowId now e =
     (case mget (en_store e) workflowId of
        None \<Rightarrow> (Inl NoWorkflow, e)
      | Some w \<Rightarrow>
          if ws_slaStatus w = RESOLVED then (Inr w, e)
          else if now - ws_dueAt w < 0 then (Inr w, e)
          else (case registry_get (ws_state w) (en_registry e) of
              None \<Rightarrow> (Inl NoPolicy, e)
            | Some policy \<Rightarrow>
                let (w', events) = sla_evaluated policy now w
                     in (Inr w', e\<lparr>en_store := mset_kv workflowId w' (en_store e), en_audit := events @ en_audit e\<rparr>)))"

definition sla_escalate ::
  "string \<Rightarrow> string \<Rightarrow> string \<Rightarrow> int \<Rightarrow> sla_engine \<Rightarrow> (sla_error, workflow_sla_state) result \<times> sla_engine" where
  "sla_escalate workflowId actor reason now e =
     (case mget (en_store e) workflowId of
        None \<Rightarrow> (Inl NoWorkflow, e)
      | Some w \<Rightarrow>
          if ws_slaStatus w = RESOLVED then (Inl WorkflowResolved, e)
          else (case registry_get (ws_state w) (en_registry e) of
              None \<Rightarrow> (Inl NoPolicy, e)
            | Some policy \<Rightarrow>
                let newLevel = min (ws_escalationLevel w + 1) (sp_maxEscalationLevel policy);
                    w' = w\<lparr>ws_escalationLevel := newLevel, ws_slaStatus := ESCALATED,
                      ws_escalationHistory := ws_escalationHistory w @
                        [\<lparr>er_level = newLevel, er_actor = actor, er_reason = reason, er_at = now\<rparr>]\<rparr>;
                    ev = \<lparr>se_workflowId = workflowId, se_eventType = SLA_ESCALATED, se_previousStatus = ws_slaStatus w,
                      se_newStatus = ESCALATED, se_escalationLevel = newLevel, se_actor = actor, se_reason = reason, se_at = now\<rparr>
                in (Inr w', e\<lparr>en_store := mset_kv workflowId w' (en_store e), en_audit := ev # en_audit e\<rparr>)))"

definition sla_resolve ::
  "string \<Rightarrow> string \<Rightarrow> string \<Rightarrow> int \<Rightarrow> sla_engine \<Rightarrow> (sla_error, workflow_sla_state) result \<times> sla_engine" where
  "sla_resolve workflowId actor reason now e =
     (case mget (en_store e) workflowId of
        None \<Rightarrow> (Inl NoWorkflow, e)
      | Some w \<Rightarrow>
          let w' = w\<lparr>ws_slaStatus := RESOLVED, ws_resolvedAt := Some now\<rparr>;
              ev = \<lparr>se_workflowId = workflowId, se_eventType = SLA_RESOLVED, se_previousStatus = ws_slaStatus w,
                se_newStatus = RESOLVED, se_escalationLevel = ws_escalationLevel w, se_actor = actor, se_reason = reason, se_at = now\<rparr>
          in (Inr w', e\<lparr>en_store := mset_kv workflowId w' (en_store e), en_audit := ev # en_audit e\<rparr>))"

definition listOverdue :: "sla_engine \<Rightarrow> workflow_sla_state list" where
  "listOverdue e = filter (\<lambda>w. ws_slaStatus w = OVERDUE \<or> ws_slaStatus w = ESCALATED) (map snd (en_store e))"

definition sla_get :: "string \<Rightarrow> sla_engine \<Rightarrow> workflow_sla_state option" where
  "sla_get workflowId e = mget (en_store e) workflowId"

end
