(* ===== verification/Sla_Properties.thy ===== *)
theory Sla_Properties
  imports Workflow_Sla
begin

text \<open>
  What the deadlines guarantee: the escalation level is the exact number of whole intervals past
  the deadline although it is computed with rounded divisions, the status a workflow reaches does
  not depend on how often it was evaluated, and its history records exactly the levels that were seen.
\<close>

subsection \<open>The level\<close>

lemma normal_range: "1 / 2 ^ 60 \<le> \<bar>x :: rat\<bar> \<Longrightarrow> 2 powi (-1022) \<le> \<bar>x\<bar> \<or> x = 0"
proof -
  assume x: "1 / 2 ^ 60 \<le> \<bar>x\<bar>"
  have "(2 :: rat) powi (-1022) \<le> 2 powi (-60)" by (rule power_int_increasing) auto
  also have "\<dots> = 1 / 2 ^ 60" by (simp add: power_int_def field_simps)
  finally show ?thesis using x by simp
qed

lemma rounded_quotient:
  fixes d m :: int
  assumes "0 < d" and "d \<le> 10 ^ 12" and "1 \<le> m" and "m \<le> 10 ^ 6"
  defines "q \<equiv> of_int d / (1000 * of_int m) :: rat"
  shows "\<bar>round_double (round_double (of_int d / 1000) / of_int m) - q\<bar> < 1 / (1000 * of_int m)"
proof -
  define x :: rat where "x = of_int d / 1000"
  define x' where "x' = round_double x"
  define y where "y = x' / of_int m"
  have m: "1 \<le> (of_int m :: rat)" "(of_int m :: rat) \<le> 10 ^ 6" using assms(3,4) by simp_all
  have x: "1 / 1000 \<le> x" using assms(1) by (simp add: x_def)
  have ex: "\<bar>x' - x\<bar> \<le> x / 2 ^ 53"
    using round_double_error [OF normal_range, of x] x unfolding x'_def by simp
  moreover have "x / 2 ^ 53 \<le> x / 2" using x by simp
  ultimately have x': "x / 2 \<le> x'" "x' \<le> 2 * x" using x by linarith+
  have q: "q = x / of_int m" by (simp add: q_def x_def)
  have y0: "1 / 2 ^ 60 \<le> y"
  proof -
    have "1 / 2 ^ 60 \<le> (1 / 2000) / (10 ^ 6 :: rat)" by simp
    also have "\<dots> \<le> x' / of_int m" using x x' m by (intro frac_le) auto
    finally show ?thesis by (simp add: y_def)
  qed
  have ey: "\<bar>round_double y - y\<bar> \<le> y / 2 ^ 53" using round_double_error [OF normal_range, of y] y0 by simp
  have "\<bar>y - q\<bar> = \<bar>x' - x\<bar> / of_int m" using m by (simp add: y_def q diff_divide_distrib [symmetric])
  also have "\<dots> \<le> (x / 2 ^ 53) / of_int m" using ex m by (intro divide_right_mono) auto
  finally have eq: "\<bar>y - q\<bar> \<le> q / 2 ^ 53" by (simp add: q)
  have "y \<le> 2 * q" using x' m by (simp add: y_def q field_simps)
  then have "y / 2 ^ 53 \<le> 2 * q / 2 ^ 53" by (intro divide_right_mono) auto
  then have "\<bar>round_double y - q\<bar> \<le> 3 * q / 2 ^ 53" using ey eq by linarith
  also have "\<dots> < 1 / (1000 * of_int m)"
  proof -
    have "(of_int d :: rat) \<le> 10 ^ 12" using assms(2) by (metis of_int_le_iff of_int_numeral of_int_power)
    then have "3 * (of_int d :: rat) < 2 ^ 53" by simp
    then show ?thesis using m by (simp add: q_def field_simps)
  qed
  finally show ?thesis by (simp add: y_def x'_def x_def)
qed

lemma sla_level_exact:
  assumes "0 \<le> d" and "d \<le> 10 ^ 12" and "1 \<le> sp_escalationAfterSecs p" and "sp_escalationAfterSecs p \<le> 10 ^ 6"
  shows "sla_level p d = min (d div (1000 * sp_escalationAfterSecs p)) (sp_maxEscalationLevel p)"
proof -
  define m where "m = sp_escalationAfterSecs p"
  define n where "n = d div (1000 * m)"
  define r where "r = d mod (1000 * m)"
  have m: "1 \<le> m" "m \<le> 10 ^ 6" using assms(3,4) by (simp_all add: m_def)
  have d: "d = 1000 * m * n + r" by (simp add: n_def r_def)
  have r: "0 \<le> r" "r < 1000 * m" using m by (simp_all add: r_def)
  have mr: "0 < (of_int m :: rat)" using m by simp
  have "\<lfloor>round_double (round_double (of_int d / 1000) / of_int m)\<rfloor> = n"
  proof (cases "r = 0")
    case True
    then have dm: "d = 1000 * (m * n)" using d by simp
    have nn: "0 \<le> n" using assms(1) m by (simp add: n_def pos_imp_zdiv_nonneg_iff)
    have b: "\<bar>m * n\<bar> \<le> 2 ^ 53" using dm assms(1,2) by simp
    have "n \<le> m * n" using nn m by (simp add: mult_le_cancel_right1)
    then have bn: "\<bar>n\<bar> \<le> 2 ^ 53" using b nn by simp
    have "round_double (of_int d / 1000) = of_int (m * n)" using round_double_int [OF b] by (simp add: dm)
    moreover have "(of_int (m * n) :: rat) / of_int m = of_int n" using mr by simp
    ultimately show ?thesis using round_double_int [OF bn] by simp
  next
    case False
    define z where "z = round_double (round_double (of_int d / 1000) / of_int m)"
    have dpos: "0 < d" using False assms(1) r by (cases "d = 0") (auto simp: r_def)
    have q: "(of_int d :: rat) / (1000 * of_int m) = of_int n + of_int r / (1000 * of_int m)"
      using mr by (simp add: d field_simps)
    have lo: "1 / (1000 * of_int m) \<le> (of_int r :: rat) / (1000 * of_int m)"
      using r False mr by (intro divide_right_mono) auto
    have "(of_int r :: rat) \<le> of_int (1000 * m - 1)" using r by (intro of_int_le_iff [THEN iffD2]) simp
    then have hi: "(of_int r :: rat) / (1000 * of_int m) \<le> 1 - 1 / (1000 * of_int m)"
      using mr by (simp add: field_simps)
    have "\<bar>z - of_int d / (1000 * of_int m)\<bar> < 1 / (1000 * of_int m)"
      unfolding z_def by (rule rounded_quotient) (use dpos assms(2) m in auto)
    then have "of_int n < z" "z < of_int n + 1" using q lo hi by linarith+
    then show ?thesis unfolding z_def [symmetric] by (simp add: floor_eq_iff)
  qed
  then show ?thesis using m by (simp add: sla_level_def Let_def m_def [symmetric] n_def)
qed

subsection \<open>Polling\<close>

text \<open>What the state of a workflow should be at a moment, from the clock alone.\<close>

definition sla_expected :: "sla_policy \<Rightarrow> int \<Rightarrow> int \<Rightarrow> sla_status \<times> int" where
  "sla_expected p due now =
     (if now < due then (ON_TIME, 0)
      else let l = min ((now - due) div (1000 * sp_escalationAfterSecs p)) (sp_maxEscalationLevel p)
           in (if 0 < l then ESCALATED else OVERDUE, l))"

definition sla_tracks :: "sla_policy \<Rightarrow> string \<Rightarrow> int \<Rightarrow> int \<Rightarrow> workflow_sla_state \<Rightarrow> bool" where
  "sla_tracks p st due t s \<longleftrightarrow>
     ws_state s = st \<and> ws_dueAt s = due \<and>
     (\<exists>t'. t' \<le> max t (due - 1) \<and> (ws_slaStatus s, ws_escalationLevel s) = sla_expected p due t')"

text \<open>
  The history a workflow should have after being evaluated at the moments \<open>us\<close>: a record, with the
  level and the moment, for each moment at which the level was above all levels seen before.
\<close>

fun recorded_levels :: "(int \<Rightarrow> int) \<Rightarrow> int \<Rightarrow> int list \<Rightarrow> (int \<times> int) list" where
  "recorded_levels level seen [] = []"
| "recorded_levels level seen (u # us) =
     (if seen < level u then (level u, u) # recorded_levels level (level u) us else recorded_levels level seen us)"

fun level_seen :: "(int \<Rightarrow> int) \<Rightarrow> int \<Rightarrow> int list \<Rightarrow> int" where
  "level_seen level seen [] = seen"
| "level_seen level seen (u # us) = level_seen level (max seen (level u)) us"

lemma recorded_snoc:
  "recorded_levels level seen (us @ [u]) =
     recorded_levels level seen us @ (if level_seen level seen us < level u then [(level u, u)] else [])"
  by (induction us arbitrary: seen) (auto simp: max_def)

lemma level_seen_snoc: "level_seen level seen (us @ [u]) = max (level_seen level seen us) (level u)"
  by (induction us arbitrary: seen) auto

definition sla_logged :: "sla_policy \<Rightarrow> int \<Rightarrow> int list \<Rightarrow> workflow_sla_state \<Rightarrow> bool" where
  "sla_logged p due us s \<longleftrightarrow>
     ws_escalationLevel s = level_seen (\<lambda>u. snd (sla_expected p due u)) 0 us \<and>
     map (\<lambda>r. (er_level r, er_at r)) (ws_escalationHistory s) = recorded_levels (\<lambda>u. snd (sla_expected p due u)) 0 us"

definition sla_usable :: "sla_policy \<Rightarrow> bool" where
  "sla_usable p \<longleftrightarrow> 1 \<le> sp_escalationAfterSecs p \<and> sp_escalationAfterSecs p \<le> 10 ^ 6 \<and> 0 \<le> sp_maxEscalationLevel p"

lemma sla_expected_mono:
  assumes "sla_usable p" and "t \<le> t'"
  shows "snd (sla_expected p due t) \<le> snd (sla_expected p due t')"
proof -
  have m: "0 < 1000 * sp_escalationAfterSecs p" using assms(1) by (simp add: sla_usable_def)
  then have "(t - due) div (1000 * sp_escalationAfterSecs p) \<le> (t' - due) div (1000 * sp_escalationAfterSecs p)"
    using assms(2) by (intro zdiv_mono1) auto
  moreover have "due \<le> t' \<Longrightarrow> 0 \<le> (t' - due) div (1000 * sp_escalationAfterSecs p)"
    using m by (simp add: pos_imp_zdiv_nonneg_iff)
  ultimately show ?thesis using assms by (auto simp: sla_expected_def Let_def sla_usable_def)
qed

lemma sla_expected_status: "due \<le> t \<Longrightarrow> fst (sla_expected p due t) = (if 0 < snd (sla_expected p due t) then ESCALATED else OVERDUE)"
  by (simp add: sla_expected_def Let_def)

lemma sla_tracks_expected:
  assumes "sla_tracks p st due t s" and "sla_usable p" and "t \<le> now" and "now < due"
  shows "(ws_slaStatus s, ws_escalationLevel s) = sla_expected p due now"
proof -
  obtain t' where "t' \<le> max t (due - 1)" "(ws_slaStatus s, ws_escalationLevel s) = sla_expected p due t'"
    using assms(1) by (auto simp: sla_tracks_def)
  moreover from this have "t' < due" using assms(3,4) by simp
  ultimately show ?thesis using assms(4) by (simp add: sla_expected_def)
qed

lemma sla_tracks_later: "sla_tracks p st due t s \<Longrightarrow> t \<le> now \<Longrightarrow> sla_tracks p st due now s"
  unfolding sla_tracks_def by (elim conjE exE, intro conjI exI) auto

lemma sla_tracks_evaluated:
  assumes trk: "sla_tracks p st due t s" and p: "sla_usable p" and now: "t \<le> now" "due \<le> now" "now - due \<le> 10 ^ 12"
  shows "sla_tracks p st due now (fst (sla_evaluated p now s))"
    and "(ws_slaStatus (fst (sla_evaluated p now s)), ws_escalationLevel (fst (sla_evaluated p now s))) = sla_expected p due now"
    and "sla_logged p due us s \<Longrightarrow> sla_logged p due (us @ [now]) (fst (sla_evaluated p now s))"
proof -
  define l where "l = snd (sla_expected p due now)"
  have ss: "ws_state s = st" "ws_dueAt s = due"
    using trk by (simp_all add: sla_tracks_def)
  obtain t' where t': "t' \<le> max t (due - 1)" "(ws_slaStatus s, ws_escalationLevel s) = sla_expected p due t'"
    using trk by (auto simp: sla_tracks_def)
  have "t' \<le> now" using t' now by simp
  then have le: "ws_escalationLevel s \<le> l" using sla_expected_mono [OF p, of t' now due] t'(2) [symmetric] by (simp add: l_def)
  have lev: "sla_level p (now - ws_dueAt s) = l"
    using sla_level_exact [of "now - due" p] p now by (simp add: ss l_def sla_usable_def sla_expected_def Let_def)
  have st: "fst (sla_expected p due now) = (if 0 < l then ESCALATED else OVERDUE)"
    using sla_expected_status [OF now(2)] by (simp add: l_def)
  show exp: "(ws_slaStatus (fst (sla_evaluated p now s)), ws_escalationLevel (fst (sla_evaluated p now s))) = sla_expected p due now"
    using le by (intro prod_eqI) (auto simp: sla_evaluated_def Let_def lev st l_def [symmetric])
  moreover have "ws_state (fst (sla_evaluated p now s)) = st" "ws_dueAt (fst (sla_evaluated p now s)) = due"
    by (simp_all add: sla_evaluated_def Let_def ss)
  ultimately show "sla_tracks p st due now (fst (sla_evaluated p now s))"
    unfolding sla_tracks_def by (intro conjI exI [of _ now]) auto
  show "sla_logged p due (us @ [now]) (fst (sla_evaluated p now s))" if "sla_logged p due us s"
    using that le unfolding sla_logged_def recorded_snoc level_seen_snoc l_def [symmetric]
    by (auto simp: sla_evaluated_def Let_def lev)
qed

lemma sla_logged_on_time:
  assumes "sla_logged p due us s" and "0 \<le> ws_escalationLevel s" and "now < due"
  shows "sla_logged p due (us @ [now]) s"
  using assms by (simp add: sla_logged_def recorded_snoc level_seen_snoc sla_expected_def)

lemma sla_tracks_nonneg:
  assumes "sla_tracks p st due t s" and "sla_usable p"
  shows "0 \<le> ws_escalationLevel s"
proof -
  obtain t' where "ws_escalationLevel s = snd (sla_expected p due t')" using assms(1) by (auto simp: sla_tracks_def dest: arg_cong [of _ _ snd])
  moreover have "snd (sla_expected p due (due - 1)) \<le> snd (sla_expected p due t')" if "due \<le> t'"
    by (rule sla_expected_mono [OF assms(2)]) (use that in simp)
  ultimately show ?thesis by (cases "due \<le> t'") (simp_all add: sla_expected_def)
qed

text \<open>The workflow of the engine keeps to the clock, whatever is evaluated and when.\<close>

definition sla_running :: "sla_policy \<Rightarrow> string \<Rightarrow> int \<Rightarrow> string \<Rightarrow> int \<Rightarrow> int list \<Rightarrow> sla_engine \<Rightarrow> bool" where
  "sla_running p st due w t us e \<longleftrightarrow>
     registry_get st (en_registry e) = Some p \<and>
     (\<exists>s. mget (en_store e) w = Some s \<and> sla_tracks p st due t s \<and> sla_logged p due us s)"

lemma sla_running_entered:
  assumes "registry_get st (en_registry e) = Some p"
  shows "sla_running p st (t0 + sp_dueSecs p * 1000) w t [] (snd (sla_enter w st t0 e))"
proof -
  have "sla_tracks p st due t \<lparr>ws_workflowId = w, ws_state = st, ws_enteredAt = t0, ws_dueAt = due,
      ws_slaStatus = ON_TIME, ws_escalationLevel = 0, ws_resolvedAt = None, ws_escalationHistory = []\<rparr>" for due
    unfolding sla_tracks_def by (intro conjI exI [of _ "due - 1"]) (simp_all add: sla_expected_def)
  then show ?thesis using assms by (simp add: sla_running_def sla_enter_def registry_get_def Let_def sla_logged_def)
qed

lemma sla_running_evaluate:
  assumes run: "sla_running p st due w t us e" and p: "sla_usable p" and t: "t \<le> now" "now - due \<le> 10 ^ 12"
  shows "sla_running p st due w now (us @ [now]) (snd (sla_evaluate w now e))"
    and "\<exists>s. fst (sla_evaluate w now e) = Inr s \<and> sla_logged p due (us @ [now]) s \<and>
           (ws_slaStatus s, ws_escalationLevel s) = sla_expected p due now"
proof -
  obtain s where g: "registry_get st (en_registry e) = Some p" and s: "mget (en_store e) w = Some s" "sla_tracks p st due t s"
      "sla_logged p due us s"
    using run by (auto simp: sla_running_def)
  obtain t' where "(ws_slaStatus s, ws_escalationLevel s) = sla_expected p due t'" using s(2) by (auto simp: sla_tracks_def)
  then have nr: "ws_slaStatus s \<noteq> RESOLVED" by (auto simp: sla_expected_def Let_def split: if_splits)
  have ss: "ws_state s = st" "ws_dueAt s = due" using s(2) by (simp_all add: sla_tracks_def)
  have later: "sla_tracks p st due now s"
    by (rule sla_tracks_later [OF s(2) t(1)])
  have early: "now < due \<Longrightarrow> sla_logged p due (us @ [now]) s"
    by (rule sla_logged_on_time [OF s(3) sla_tracks_nonneg [OF s(2) p]])
  note tr = sla_tracks_evaluated [OF s(2) p t(1) _ t(2)]
  obtain s' ev where r: "sla_evaluated p now s = (s', ev)" by fastforce
  show "sla_running p st due w now (us @ [now]) (snd (sla_evaluate w now e))"
    using g s(1) nr later early tr(1) tr(3) [OF _ s(3)] unfolding sla_running_def by (auto simp: sla_evaluate_def ss r)
  show "\<exists>s. fst (sla_evaluate w now e) = Inr s \<and> sla_logged p due (us @ [now]) s \<and>
           (ws_slaStatus s, ws_escalationLevel s) = sla_expected p due now"
    using g s(1) nr early tr(2) tr(3) [OF _ s(3)] sla_tracks_expected [OF s(2) p t(1)] by (auto simp: sla_evaluate_def ss r)
qed

lemma sla_running_polls:
  assumes "sla_running p st due w t us e" and "sla_usable p" and "sorted (t # ts)" and "\<forall>u\<in>set ts. u - due \<le> 10 ^ 12"
  shows "sla_running p st due w (last (t # ts)) (us @ ts) (fold (\<lambda>u e. snd (sla_evaluate w u e)) ts e)"
  using assms
proof (induction ts arbitrary: t us e)
  case (Cons u ts)
  have "sla_running p st due w u (us @ [u]) (snd (sla_evaluate w u e))" by (rule sla_running_evaluate) (use Cons.prems in auto)
  then show ?case using Cons.IH [of u "us @ [u]" "snd (sla_evaluate w u e)"] Cons.prems by simp
qed simp

text \<open>
  C28: the status and the level of a workflow depend on the clock and not on the polling. After a
  workflow enters a state and is evaluated at any ascending moments, evaluating it now returns ON_TIME and
  level 0 before the deadline, and after it the exact number of whole escalation intervals past the
  deadline, capped by the policy, with ESCALATED exactly when that number is positive; the rounded
  divisions of the code never lose or gain a level. The history does depend on the polling: it holds one record,
  with the level and the moment, for each evaluation that found a level above all levels found before, and no
  other, so that a level between two evaluations is never recorded. The policy has an interval of 1 to a
  million seconds and a nonnegative cap, and the moments are at most \<open>10^12\<close> milliseconds (31 years)
  past the deadline.
\<close>

theorem sla_polling_independent:
  assumes "registry_get st (en_registry e) = Some p" and "sla_usable p"
    and "sorted (ts @ [now])" and "now - (t0 + sp_dueSecs p * 1000) \<le> 10 ^ 12"
  shows "\<exists>s. fst (sla_evaluate w now (fold (\<lambda>t e. snd (sla_evaluate w t e)) ts (snd (sla_enter w st t0 e)))) = Inr s \<and>
    (ws_slaStatus s, ws_escalationLevel s) = sla_expected p (t0 + sp_dueSecs p * 1000) now \<and>
    map (\<lambda>r. (er_level r, er_at r)) (ws_escalationHistory s) =
      recorded_levels (\<lambda>u. snd (sla_expected p (t0 + sp_dueSecs p * 1000) u)) 0 (ts @ [now])"
proof -
  define t where "t = hd (ts @ [now])"
  define due where "due = t0 + sp_dueSecs p * 1000"
  have ts: "sorted (t # ts)" "last (t # ts) \<le> now" "\<forall>u\<in>set ts. u \<le> now"
    using assms(3) by (cases ts; auto simp: t_def sorted_append)+
  have "sla_running p st due w (last (t # ts)) ([] @ ts) (fold (\<lambda>t e. snd (sla_evaluate w t e)) ts (snd (sla_enter w st t0 e)))"
    by (rule sla_running_polls [OF _ assms(2) ts(1)])
      (use sla_running_entered [OF assms(1)] ts(3) assms(4) in \<open>auto simp: due_def\<close>)
  from sla_running_evaluate(2) [OF this assms(2) ts(2)] show ?thesis
    using assms(4) by (auto simp: due_def sla_logged_def)
qed

text \<open>
  Witness of C1: a payment that is 5 hours late, polled once on time and once an hour late, is at
  level 2 of the escalation; level 1 is not in its history.
\<close>

definition late_payment :: sla_engine where
  "late_payment = WorkflowSLAEngine_new (SLAPolicyRegistry_new None)"

theorem sla_polling_independent_witness:
  "\<exists>s. fst (sla_evaluate ''inv'' 104400000 (fold (\<lambda>t e. snd (sla_evaluate ''inv'' t e)) [3600000, 90000000]
          (snd (sla_enter ''inv'' ''PENDING_PAYMENT'' 0 late_payment)))) = Inr s \<and>
     ws_slaStatus s = ESCALATED \<and> ws_escalationLevel s = 2 \<and>
     map (\<lambda>r. (er_level r, er_at r)) (ws_escalationHistory s) = [(2, 104400000)]"
proof -
  define p :: sla_policy where "p = \<lparr>sp_name = ''Payment due'', sp_dueSecs = 86400, sp_escalationAfterSecs = 7200, sp_maxEscalationLevel = 3\<rparr>"
  have g: "registry_get ''PENDING_PAYMENT'' (en_registry late_payment) = Some p"
    by (simp add: registry_get_def late_payment_def WorkflowSLAEngine_new_def SLAPolicyRegistry_new_def DEFAULT_SLA_POLICIES_def p_def)
  have u: "sla_usable p" by (simp add: sla_usable_def p_def)
  have x: "sla_expected p (0 + sp_dueSecs p * 1000) 104400000 = (ESCALATED, 2)" by (simp add: sla_expected_def p_def)
  have r: "recorded_levels (\<lambda>u. snd (sla_expected p (0 + sp_dueSecs p * 1000) u)) 0 ([3600000, 90000000] @ [104400000]) = [(2, 104400000)]"
    by (simp add: sla_expected_def p_def)
  have "now - (0 + sp_dueSecs p * 1000) \<le> 10 ^ 12" if "now = 104400000" for now using that by (simp add: p_def)
  then show ?thesis
    using sla_polling_independent [OF g u, of "[3600000, 90000000]" 104400000 0 "''inv''"] unfolding x r by simp
qed

text \<open>A workflow first evaluated after a whole interval is escalated with a single event; it was never reported overdue.\<close>

lemma late_evaluation_skips_overdue:
  assumes "ws_slaStatus s = ON_TIME" and "0 < sla_level p (now - ws_dueAt s)"
  shows "map (\<lambda>ev. (se_eventType ev, se_previousStatus ev, se_newStatus ev)) (snd (sla_evaluated p now s)) =
    [(SLA_ESCALATED, ON_TIME, ESCALATED)]"
  using assms by (simp add: sla_evaluated_def Let_def)

subsection \<open>Manual escalation\<close>

text \<open>
  A workflow escalated by hand before its deadline does not stay escalated: the first evaluation
  after the deadline reports it as merely overdue, with the escalation level of the manual escalation.
\<close>

lemma manual_escalation_downgraded:
  assumes "mget (en_store e) w = Some s" and "ws_slaStatus s = ON_TIME" and "ws_escalationLevel s = 0"
    and "registry_get (ws_state s) (en_registry e) = Some p" and "sla_usable p" and "0 < sp_maxEscalationLevel p"
    and "ws_dueAt s \<le> now" and "now < ws_dueAt s + 1000 * sp_escalationAfterSecs p"
  shows "\<exists>s'. fst (sla_evaluate w now (snd (sla_escalate w actor reason t e))) = Inr s' \<and>
    ws_slaStatus s' = OVERDUE \<and> ws_escalationLevel s' = 1"
proof -
  have m: "1 \<le> sp_escalationAfterSecs p" "sp_escalationAfterSecs p \<le> 10 ^ 6" using assms(5) by (simp_all add: sla_usable_def)
  have "(now - ws_dueAt s) div (1000 * sp_escalationAfterSecs p) = 0" using assms(7,8) by (intro div_pos_pos_trivial) auto
  then have l: "sla_level p (now - ws_dueAt s) = 0" using sla_level_exact [of "now - ws_dueAt s" p] assms(6-8) m by simp
  show ?thesis using assms(1-7) by (simp add: sla_evaluate_def sla_escalate_def sla_evaluated_def l Let_def)
qed

end
