(* ===== verification/Conflict_Resolver.thy ===== *)
theory Conflict_Resolver
  imports Stable_Cursor Js_Date
begin

text \<open>
  Merging concurrent edits of an invoice, \<open>backend/src/concurrency/conflict-resolver.ts\<close>. The code
  reads and writes the fields of invoices by name, so an invoice is here an object: a list of
  named values. Values are JSON data and dates, in which a member may also be \<open>undefined\<close>; the code
  never changes a value in place, so references do not matter. Names of members are not those
  of \<open>Object.prototype\<close>. \<open>localeCompare\<close>, whose order is that of the runtime's locale, is an
  argument. English summaries and reasons are left out.
\<close>

subsection \<open>Values\<close>

datatype js =
    JsUndef
  | JsNull
  | JsBool bool
  | JsNum jsnum
  | JsStr string
  | JsDate int
  | JsArr "js list"
  | JsObj "(string \<times> js) list"

type_synonym js_object = "(string, js) jsmap"

definition field_of :: "js_object \<Rightarrow> string \<Rightarrow> js" where
  "field_of obj key = (case mget obj key of Some v \<Rightarrow> v | None \<Rightarrow> JsUndef)"

fun is_object :: "js \<Rightarrow> bool" where
  "is_object (JsDate _) = True"
| "is_object (JsArr _) = True"
| "is_object (JsObj _) = True"
| "is_object _ = False"

fun is_record :: "js \<Rightarrow> bool" where
  "is_record (JsDate _) = True"
| "is_record (JsObj _) = True"
| "is_record _ = False"

text \<open>\<open>===\<close> of values that are not objects.\<close>

fun strict_eq :: "js \<Rightarrow> js \<Rightarrow> bool" where
  "strict_eq (JsNum n) (JsNum m) = (n = m \<and> n \<noteq> NaN)"
| "strict_eq a b = (a = b \<and> \<not> is_object a)"

fun is_truthy :: "js \<Rightarrow> bool" where
  "is_truthy JsUndef = False"
| "is_truthy JsNull = False"
| "is_truthy (JsBool b) = b"
| "is_truthy (JsNum n) = (n \<noteq> NaN \<and> n \<noteq> Num 0)"
| "is_truthy (JsStr s) = (s \<noteq> [])"
| "is_truthy _ = True"

text \<open>The own members that \<open>Object.keys\<close> lists, and those that \<open>hasOwnProperty\<close> finds: an array also has a length.\<close>

fun members :: "js \<Rightarrow> js_object" where
  "members (JsArr xs) = zip (map (\<lambda>i. nat_text i) [0..<length xs]) xs"
| "members (JsObj kvs) = kvs"
| "members _ = []"

fun own :: "js \<Rightarrow> string \<Rightarrow> js option" where
  "own (JsArr xs) key = (if key = ''length'' then Some (JsNum (Num (of_nat (length xs)))) else mget (members (JsArr xs)) key)"
| "own v key = mget (members v) key"

lemma members_smaller: "m \<in> set (members a) \<Longrightarrow> size (snd m) < size a"
proof (cases a)
  case (JsArr xs)
  assume "m \<in> set (members a)"
  then have "snd m \<in> set xs" unfolding JsArr members.simps by (metis prod.collapse set_zip_rightD)
  then show ?thesis using JsArr by (induction xs arbitrary: a) (auto simp: size_list_estimation)
next
  case (JsObj kvs)
  assume "m \<in> set (members a)"
  then have "m \<in> set kvs" by (simp add: JsObj)
  then show ?thesis unfolding JsObj by (induction kvs) (auto simp: size_prod_simp)
qed auto

lemma zip_smaller: "p \<in> set (zip xs ys) \<Longrightarrow> size (fst p) < size (JsArr xs)"
proof -
  assume "p \<in> set (zip xs ys)"
  then have "fst p \<in> set xs" by (metis prod.collapse set_zip_leftD)
  then show ?thesis by (induction xs) auto
qed

text \<open>
  Objects are values here, so that \<open>===\<close> on two references to one object is the comparison of its
  members; the two differ only for a shared object with a \<open>NaN\<close> inside.
\<close>

function isDeepEqual :: "js \<Rightarrow> js \<Rightarrow> bool" where
  "isDeepEqual a b =
     (if strict_eq a b then True
      else if \<not> is_object a \<or> \<not> is_object b then False
      else (case (a, b) of
          (JsDate s, JsDate t) \<Rightarrow> s = t
        | (JsArr xs, JsArr ys) \<Rightarrow> length xs = length ys \<and> list_all (\<lambda>p. isDeepEqual (fst p) (snd p)) (zip xs ys)
        | _ \<Rightarrow> length (members a) = length (members b) \<and>
            list_all (\<lambda>m. case own b (fst m) of None \<Rightarrow> False | Some w \<Rightarrow> isDeepEqual (snd m) w) (members a)))"
  by pat_completeness auto

termination isDeepEqual
  by (relation "measure (\<lambda>(a, b). size a)") (auto dest: members_smaller zip_smaller)

declare isDeepEqual.simps [simp del]

text \<open>\<open>JSON.parse(JSON.stringify(v))\<close>: dates become texts, members without a value go.\<close>

fun json_clone :: "js \<Rightarrow> js" where
  "json_clone (JsDate t) = JsStr (toISOString t)"
| "json_clone (JsNum n) = (if is_finite n then JsNum n else JsNull)"
| "json_clone (JsArr xs) = JsArr (map (\<lambda>x. if x = JsUndef then JsNull else json_clone x) xs)"
| "json_clone (JsObj kvs) = JsObj (map (\<lambda>m. (fst m, json_clone (snd m))) (filter (\<lambda>m. snd m \<noteq> JsUndef) kvs))"
| "json_clone v = v"

subsection \<open>Merging metadata\<close>

datatype strategy = AUTO_MERGE | SERVER_WINS | CLIENT_WINS | STRICT

definition defined_member :: "string \<Rightarrow> js \<Rightarrow> js_object" where
  "defined_member key v = (if v \<noteq> JsUndef then [(key, v)] else [])"

definition object_size :: "js_object \<Rightarrow> nat" where
  "object_size obj = size_list (size_prod (\<lambda>_. 0) size) obj"

lemma record_smaller:
  assumes "is_record (field_of obj key)"
  shows "object_size (members (field_of obj key)) < object_size obj"
proof -
  obtain v where v: "mget obj key = Some v" and r: "is_record v"
    using assms by (auto simp: field_of_def split: option.splits)
  have "(key, v) \<in> set obj" by (rule map_of_SomeD [OF v])
  then have "size v < object_size obj" unfolding object_size_def size_prod_simp by (induction obj) auto
  moreover have "object_size (members v) \<le> size v" using r by (cases v) (auto simp: object_size_def)
  ultimately show ?thesis using v by (simp add: field_of_def)
qed

text \<open>
  The result has the merged members and the paths of collisions. Both are put together from the
  contributions of the keys, in the order of the set of all keys. A date that collides with a
  record is merged as a record without members.
\<close>

function mergeMetadataObjects ::
  "js_object \<Rightarrow> js_object \<Rightarrow> js_object \<Rightarrow> strategy \<Rightarrow> int \<Rightarrow> int \<Rightarrow> string \<Rightarrow> js_object \<times> string list" where
  "mergeMetadataObjects base server client strategy clientTimestamp serverTimestamp actorId =
     (let allKeys = js_set (map fst base @ map fst server @ map fst client);
          parts = map (\<lambda>key.
            let valBase = field_of base key; valServer = field_of server key; valClient = field_of client key
            in if isDeepEqual valBase valClient then (defined_member key valServer, [])
               else if isDeepEqual valBase valServer then (defined_member key valClient, [])
               else if isDeepEqual valServer valClient then (defined_member key valClient, [])
               else if is_record valServer \<and> is_record valClient then
                 (let nestedBase = (if is_record valBase then members valBase else []);
                      sub = mergeMetadataObjects nestedBase (members valServer) (members valClient)
                        strategy clientTimestamp serverTimestamp actorId
                  in ([(key, JsObj (fst sub))], map (\<lambda>c. key @ ''.'' @ c) (snd sub)))
               else (case strategy of
                   SERVER_WINS \<Rightarrow> (defined_member key valServer, [])
                 | CLIENT_WINS \<Rightarrow> (defined_member key valClient, [])
                 | AUTO_MERGE \<Rightarrow>
                     let clientWins = clientTimestamp > serverTimestamp \<or>
                           (clientTimestamp = serverTimestamp \<and> str_lt ''server'' actorId)
                     in ([(key, if clientWins then valClient else valServer)], [])
                 | STRICT \<Rightarrow> ([], [key]))) allKeys
      in (concat (map fst parts), concat (map snd parts)))"
  by pat_completeness auto

termination mergeMetadataObjects
  by (relation "measure (\<lambda>(b, s, c, st, ct, t, a). object_size s)") (auto simp: record_smaller)

declare mergeMetadataObjects.simps [simp del]

subsection \<open>Merging invoices\<close>

datatype editor_role = R_OWNER | R_ADMIN | R_SELLER | R_COLLABORATOR | R_VIEWER

record resolver_options =
  ro_strategy :: "strategy option"
  ro_clientTimestamp :: "int option"
  ro_actorId :: "string option"
  ro_actorRole :: "editor_role option"

datatype resolution = CLEAN_MERGE | CONVERGENT | TIE_BREAK_CLIENT | TIE_BREAK_SERVER

record field_detail =
  fd_field :: string
  fd_base :: js
  fd_server :: js
  fd_client :: js
  fd_chosen :: js
  fd_resolution :: resolution

record unresolved_field =
  uf_field :: string
  uf_server :: js
  uf_client :: js

record merge_result =
  mr_resolved :: bool
  mr_hasConflicts :: bool
  mr_merged :: "js_object option"
  mr_resolvedFields :: "field_detail list"
  mr_unresolvedFields :: "unresolved_field list"
  mr_baseVersion :: jsnum
  mr_serverVersion :: jsnum
  mr_newVersion :: jsnum

text \<open>The last one stands for the \<open>TypeError\<close> on a server invoice without a creation date.\<close>

datatype resolver_error = TerminalStatusConflictError string | UnauthorizedEditError | ImmutableFieldConflictError string
  | NoCreationDate

definition IMMUTABLE_FIELDS :: "string list" where
  "IMMUTABLE_FIELDS = [''id'', ''sellerPublicKey'', ''amount'', ''assetCode'', ''assetIssuer'', ''memo'', ''createdAt'',
     ''paymentTxHash'', ''payerPublicKey'', ''paidAt'']"

definition EDITABLE_FIELDS :: "string list" where
  "EDITABLE_FIELDS = [''description'', ''customerName'', ''customerEmail'', ''sellerName'', ''sellerEmail'', ''metadata'', ''expiresAt'']"

text \<open>What stays fixed while the fields are inspected, and what is built up.\<close>

record merge_ctx =
  mx_base :: js_object
  mx_server :: js_object
  mx_strategy :: strategy
  mx_clientTimestamp :: int
  mx_serverTimestamp :: int
  mx_actorId :: string
  mx_localeCompare :: "string \<Rightarrow> string \<Rightarrow> int"

record merge_state =
  mg_merged :: js_object
  mg_resolved :: "field_detail list"
  mg_unresolved :: "unresolved_field list"
  mg_hasConflicts :: bool

definition take_value :: "string \<Rightarrow> js \<Rightarrow> js \<Rightarrow> js \<Rightarrow> js \<Rightarrow> resolution \<Rightarrow> merge_state \<Rightarrow> merge_state" where
  "take_value key baseVal serverVal clientVal chosen how st =
     st\<lparr>mg_merged := mset_kv key chosen (mg_merged st),
        mg_resolved := mg_resolved st @ [\<lparr>fd_field = key, fd_base = baseVal, fd_server = serverVal, fd_client = clientVal,
          fd_chosen = chosen, fd_resolution = how\<rparr>]\<rparr>"

definition leave_open :: "string \<Rightarrow> js \<Rightarrow> js \<Rightarrow> merge_state \<Rightarrow> merge_state" where
  "leave_open key serverVal clientVal st =
     st\<lparr>mg_unresolved := mg_unresolved st @ [\<lparr>uf_field = key, uf_server = serverVal, uf_client = clientVal\<rparr>]\<rparr>"

definition meta_value :: "js \<Rightarrow> js" where
  "meta_value v = (if is_truthy v \<and> is_object v then v else JsObj [])"

definition client_wins :: "merge_ctx \<Rightarrow> bool" where
  "client_wins x \<longleftrightarrow> mx_clientTimestamp x > mx_serverTimestamp x \<or>
     (mx_clientTimestamp x = mx_serverTimestamp x \<and> mx_localeCompare x (mx_actorId x) ''server'' > 0)"

definition merged_metadata :: "merge_ctx \<Rightarrow> js \<Rightarrow> js_object \<times> string list" where
  "merged_metadata x clientVal =
     mergeMetadataObjects (members (meta_value (field_of (mx_base x) ''metadata'')))
       (members (meta_value (field_of (mx_server x) ''metadata''))) (members (meta_value clientVal))
       (mx_strategy x) (mx_clientTimestamp x) (mx_serverTimestamp x) (mx_actorId x)"

definition merge_collision :: "merge_ctx \<Rightarrow> string \<Rightarrow> js \<Rightarrow> merge_state \<Rightarrow> merge_state" where
  "merge_collision x key clientVal st =
     (let baseVal = field_of (mx_base x) key; serverVal = field_of (mx_server x) key; st = st\<lparr>mg_hasConflicts := True\<rparr>
      in if key = ''metadata'' then
           (let baseMeta = meta_value baseVal; serverMeta = meta_value serverVal;
                clientMeta = meta_value clientVal; metaRes = merged_metadata x clientVal
            in if snd metaRes \<noteq> [] \<and> mx_strategy x = STRICT then leave_open key serverMeta clientMeta st
               else take_value key baseMeta serverMeta clientMeta (JsObj (fst metaRes))
                 (if mx_strategy x = SERVER_WINS then TIE_BREAK_SERVER else TIE_BREAK_CLIENT) st)
         else (case mx_strategy x of
             SERVER_WINS \<Rightarrow> take_value key baseVal serverVal clientVal serverVal TIE_BREAK_SERVER st
           | CLIENT_WINS \<Rightarrow> take_value key baseVal serverVal clientVal clientVal TIE_BREAK_CLIENT st
           | AUTO_MERGE \<Rightarrow>
               (let clientWins = client_wins x; chosen = (if clientWins then clientVal else serverVal)
                in take_value key baseVal serverVal clientVal chosen (if clientWins then TIE_BREAK_CLIENT else TIE_BREAK_SERVER) st)
           | STRICT \<Rightarrow> leave_open key serverVal clientVal st))"

definition merge_field :: "merge_ctx \<Rightarrow> string \<Rightarrow> js \<Rightarrow> merge_state \<Rightarrow> (resolver_error, merge_state) result" where
  "merge_field x key clientVal st =
     (if key = ''version'' \<or> key = ''_schemaVersion'' then Inr st
      else let baseVal = field_of (mx_base x) key; serverVal = field_of (mx_server x) key
        in if key \<in> set IMMUTABLE_FIELDS then
             (if \<not> isDeepEqual baseVal clientVal then Inl (ImmutableFieldConflictError key) else Inr st)
           else if key \<notin> set EDITABLE_FIELDS then Inr st
           else if isDeepEqual baseVal clientVal then Inr st
           else if isDeepEqual baseVal serverVal then Inr (take_value key baseVal serverVal clientVal clientVal CLEAN_MERGE st)
           else if isDeepEqual serverVal clientVal then Inr (take_value key baseVal serverVal clientVal clientVal CONVERGENT st)
           else Inr (merge_collision x key clientVal st))"

fun merge_fields :: "merge_ctx \<Rightarrow> js_object \<Rightarrow> merge_state \<Rightarrow> (resolver_error, merge_state) result" where
  "merge_fields x [] st = Inr st"
| "merge_fields x ((key, clientVal) # rest) st = rbind (merge_field x key clientVal st) (merge_fields x rest)"

definition server_time :: "js_object \<Rightarrow> int option" where
  "server_time server =
     (case field_of server ''paidAt'' of
        JsDate t \<Rightarrow> if t \<noteq> 0 then Some t else (case field_of server ''createdAt'' of JsDate c \<Rightarrow> Some c | _ \<Rightarrow> None)
      | _ \<Rightarrow> (case field_of server ''createdAt'' of JsDate c \<Rightarrow> Some c | _ \<Rightarrow> None))"

text \<open>A version is a number where there is one.\<close>

definition invoice_version :: "js_object \<Rightarrow> jsnum" where
  "invoice_version invoice = (case field_of invoice ''version'' of JsNum n \<Rightarrow> n | _ \<Rightarrow> Num 1)"

definition resolveMultiClientConflict ::
  "(string \<Rightarrow> string \<Rightarrow> int) \<Rightarrow> int \<Rightarrow> js_object \<Rightarrow> js_object \<Rightarrow> js_object \<Rightarrow> resolver_options \<Rightarrow> (resolver_error, merge_result) result" where
  "resolveMultiClientConflict localeCompare now base server client options =
     (case server_time server of
        None \<Rightarrow> Inl NoCreationDate
      | Some serverTimestamp \<Rightarrow>
          let strategy = (case ro_strategy options of Some s \<Rightarrow> s | None \<Rightarrow> AUTO_MERGE);
              clientTimestamp = (case ro_clientTimestamp options of Some t \<Rightarrow> if t \<noteq> 0 then t else now | None \<Rightarrow> now);
              actorId = (if truthy (ro_actorId options) then the (ro_actorId options) else ''client'');
              status = field_of server ''status''
          in if status \<in> {JsStr ''PAID'', JsStr ''CANCELLED'', JsStr ''EXPIRED''}
             then Inl (TerminalStatusConflictError (case status of JsStr s \<Rightarrow> s | _ \<Rightarrow> []))
             else if ro_actorRole options = Some R_VIEWER then Inl UnauthorizedEditError
             else
               let baseVersion = invoice_version base; serverVersion = invoice_version server;
                   metadata = field_of server ''metadata'';
                   merged = mset_kv ''metadata'' (if is_truthy metadata then json_clone metadata else JsObj []) server;
                   x = \<lparr>mx_base = base, mx_server = server, mx_strategy = strategy, mx_clientTimestamp = clientTimestamp,
                     mx_serverTimestamp = serverTimestamp, mx_actorId = actorId, mx_localeCompare = localeCompare\<rparr>
               in rbind (merge_fields x client \<lparr>mg_merged = merged, mg_resolved = [], mg_unresolved = [], mg_hasConflicts = False\<rparr>)
                    (\<lambda>st.
                      let isResolved = (mg_unresolved st = []);
                          newVersion = (if isResolved then js_add serverVersion (Num 1) else serverVersion)
                      in Inr \<lparr>mr_resolved = isResolved, mr_hasConflicts = mg_hasConflicts st,
                           mr_merged = (if isResolved then Some (mset_kv ''version'' (JsNum newVersion) (mg_merged st)) else None),
                           mr_resolvedFields = mg_resolved st, mr_unresolvedFields = mg_unresolved st,
                           mr_baseVersion = baseVersion, mr_serverVersion = serverVersion, mr_newVersion = newVersion\<rparr>))"

end
