(* ===== verification/Merge_Properties.thy ===== *)
theory Merge_Properties
  imports Conflict_Resolver
begin

text \<open>
  What merging guarantees: the merged invoice is the three-way merge of each field, edits of
  different fields are never lost, and what identifies a payment is never changed.
\<close>

subsection \<open>One field\<close>

text \<open>The field is left to the client: both sides changed it differently and the merge is strict.\<close>

definition merge_open :: "merge_ctx \<Rightarrow> string \<Rightarrow> js \<Rightarrow> bool" where
  "merge_open x key c \<longleftrightarrow> mx_strategy x = STRICT \<and> \<not> isDeepEqual (field_of (mx_base x) key) c \<and>
     \<not> isDeepEqual (field_of (mx_base x) key) (field_of (mx_server x) key) \<and> \<not> isDeepEqual (field_of (mx_server x) key) c \<and>
     (key = ''metadata'' \<longrightarrow> snd (merged_metadata x c) \<noteq> [])"

text \<open>The three-way merge of a field the client sent; \<open>kept\<close> is the value of the server.\<close>

definition three_way :: "merge_ctx \<Rightarrow> string \<Rightarrow> js \<Rightarrow> js \<Rightarrow> js" where
  "three_way x key kept c =
     (if isDeepEqual (field_of (mx_base x) key) c then kept
      else if isDeepEqual (field_of (mx_base x) key) (field_of (mx_server x) key) then c
      else if isDeepEqual (field_of (mx_server x) key) c then c
      else if key = ''metadata'' then JsObj (fst (merged_metadata x c))
      else if mx_strategy x = CLIENT_WINS \<or> mx_strategy x = AUTO_MERGE \<and> client_wins x then c
      else field_of (mx_server x) key)"

lemma fields_disjoint:
  "key \<in> set EDITABLE_FIELDS \<Longrightarrow> key \<notin> set IMMUTABLE_FIELDS \<and> key \<noteq> ''version'' \<and> key \<noteq> ''_schemaVersion''"
  by (auto simp: EDITABLE_FIELDS_def IMMUTABLE_FIELDS_def)

lemma field_of_mset_kv [simp]: "field_of (mset_kv k v obj) k' = (if k' = k then v else field_of obj k')"
  by (simp add: field_of_def)

lemma version_free: "key \<in> set IMMUTABLE_FIELDS \<Longrightarrow> key \<noteq> ''version'' \<and> key \<noteq> ''_schemaVersion''"
  by (auto simp: IMMUTABLE_FIELDS_def)

lemma merge_field_Inr:
  "(\<exists>st'. merge_field x key c st = Inr st') \<longleftrightarrow> (key \<in> set IMMUTABLE_FIELDS \<longrightarrow> isDeepEqual (field_of (mx_base x) key) c)"
  using version_free [of key] unfolding merge_field_def Let_def
  by (cases "key \<in> set IMMUTABLE_FIELDS") auto

lemma merge_field_other: "key \<notin> set EDITABLE_FIELDS \<Longrightarrow> merge_field x key c st = Inr st' \<Longrightarrow> st' = st"
  unfolding merge_field_def Let_def by (simp split: if_splits)

lemma merge_field_edited:
  assumes "key \<in> set EDITABLE_FIELDS" and "merge_field x key c st = Inr st'"
  shows "if merge_open x key c then mg_merged st' = mg_merged st \<and> mg_unresolved st' \<noteq> []
    else mg_unresolved st' = mg_unresolved st \<and>
      field_of (mg_merged st') = (field_of (mg_merged st)) (key := three_way x key (field_of (mg_merged st) key) c)"
proof -
  define b where "b = field_of (mx_base x) key"
  define s where "s = field_of (mx_server x) key"
  have mf: "st' = (if isDeepEqual b c then st else if isDeepEqual b s then take_value key b s c c CLEAN_MERGE st
      else if isDeepEqual s c then take_value key b s c c CONVERGENT st else merge_collision x key c st)"
    using assms fields_disjoint [of key] unfolding merge_field_def Let_def b_def [symmetric] s_def [symmetric]
    by (simp split: if_splits)
  have op: "merge_open x key c \<longleftrightarrow> mx_strategy x = STRICT \<and> \<not> isDeepEqual b c \<and> \<not> isDeepEqual b s \<and> \<not> isDeepEqual s c \<and>
      (key = ''metadata'' \<longrightarrow> snd (merged_metadata x c) \<noteq> [])" by (simp add: merge_open_def b_def s_def)
  have tv: "three_way x key kept c = (if isDeepEqual b c then kept else if isDeepEqual b s then c else if isDeepEqual s c then c
      else if key = ''metadata'' then JsObj (fst (merged_metadata x c))
      else if mx_strategy x = CLIENT_WINS \<or> mx_strategy x = AUTO_MERGE \<and> client_wins x then c else s)" for kept
    by (simp add: three_way_def b_def s_def)
  have tk: "mg_unresolved (take_value key b s c v how st) = mg_unresolved st"
    "field_of (mg_merged (take_value key b s c v how st)) = (field_of (mg_merged st)) (key := v)" for key b s c v how st
    by (auto simp: take_value_def)
  have lo: "mg_merged (leave_open key s c st) = mg_merged st" "mg_unresolved (leave_open key s c st) \<noteq> []" for key s c st
    by (simp_all add: leave_open_def)
  consider "isDeepEqual b c" | "\<not> isDeepEqual b c" "isDeepEqual b s \<or> isDeepEqual s c"
    | "\<not> isDeepEqual b c" "\<not> isDeepEqual b s" "\<not> isDeepEqual s c" by blast
  then show ?thesis
  proof cases
    case 1
    then show ?thesis by (simp add: mf op tv)
  next
    case 2
    then show ?thesis by (auto simp: mf op tv tk)
  next
    case 3
    then show ?thesis unfolding mf op tv merge_collision_def Let_def s_def [symmetric]
      by (cases "mx_strategy x"; cases "key = ''metadata''") (simp_all add: tk lo)
  qed
qed

lemma merge_field_effect:
  assumes "merge_field x key c st = Inr st'"
  shows "field_of (mg_merged st') = (field_of (mg_merged st))
      (key := (if key \<in> set EDITABLE_FIELDS \<and> \<not> merge_open x key c then three_way x key (field_of (mg_merged st) key) c
               else field_of (mg_merged st) key))"
    and "mg_unresolved st' = [] \<longleftrightarrow> mg_unresolved st = [] \<and> \<not> (key \<in> set EDITABLE_FIELDS \<and> merge_open x key c)"
  using merge_field_edited [OF _ assms] merge_field_other [OF _ assms]
  by (cases "key \<in> set EDITABLE_FIELDS"; cases "merge_open x key c"; auto)+

subsection \<open>All fields\<close>

definition sent :: "js_object \<Rightarrow> string \<Rightarrow> js option" where
  "sent client key = (if key \<in> set EDITABLE_FIELDS then mget client key else None)"

lemma merge_fields_Inr:
  "(\<exists>st'. merge_fields x client st = Inr st') \<longleftrightarrow>
     (\<forall>m\<in>set client. fst m \<in> set IMMUTABLE_FIELDS \<longrightarrow> isDeepEqual (field_of (mx_base x) (fst m)) (snd m))"
proof (induction client arbitrary: st)
  case (Cons m client)
  obtain key c where m: "m = (key, c)" by fastforce
  show ?case
  proof (cases "merge_field x key c st")
    case (Inl e)
    then show ?thesis using merge_field_Inr [of x key c st] by (auto simp: m)
  next
    case (Inr st1)
    then show ?thesis using merge_field_Inr [of x key c st] Cons [of st1] by (auto simp: m)
  qed
qed simp

lemma merge_fields_effect:
  assumes "merge_fields x client st = Inr st'" and "distinct (map fst client)"
  shows "field_of (mg_merged st') key =
      (case sent client key of
         None \<Rightarrow> field_of (mg_merged st) key
       | Some c \<Rightarrow> if merge_open x key c then field_of (mg_merged st) key else three_way x key (field_of (mg_merged st) key) c)"
    and "mg_unresolved st' = [] \<longleftrightarrow> mg_unresolved st = [] \<and> (\<forall>k c. sent client k = Some c \<longrightarrow> \<not> merge_open x k c)"
  using assms
proof (induction client arbitrary: st)
  case Nil
  { case 1 then show ?case by (simp add: sent_def) }
  { case 2 then show ?case by (simp add: sent_def) }
next
  case (Cons m client)
  obtain k0 c0 where m: "m = (k0, c0)" by fastforce
  have new: "sent client k0 = None" if "distinct (map fst (m # client))"
    using that by (auto simp: sent_def m map_of_eq_None_iff)
  have s: "sent (m # client) = (\<lambda>k. if k = k0 then (if k0 \<in> set EDITABLE_FIELDS then Some c0 else None) else sent client k)"
    by (auto simp: sent_def m fun_eq_iff)
  { case 1
    then obtain st1 where st1: "merge_field x k0 c0 st = Inr st1" "merge_fields x client st1 = Inr st'"
      by (auto simp: m rbind_def split: sum.splits)
    show ?case using Cons.IH(1) [OF st1(2)] 1(2) merge_field_effect(1) [OF st1(1)] new
      by (auto simp: s split: option.splits)
  }
  { case 2
    then obtain st1 where st1: "merge_field x k0 c0 st = Inr st1" "merge_fields x client st1 = Inr st'"
      by (auto simp: m rbind_def split: sum.splits)
    have "(\<forall>k c. sent (m # client) k = Some c \<longrightarrow> \<not> merge_open x k c) \<longleftrightarrow>
        \<not> (k0 \<in> set EDITABLE_FIELDS \<and> merge_open x k0 c0) \<and> (\<forall>k c. sent client k = Some c \<longrightarrow> \<not> merge_open x k c)"
      using new [OF 2(2)] unfolding s by (metis option.distinct(1) option.inject)
    then show ?case using Cons.IH(2) [OF st1(2)] 2(2) merge_field_effect(2) [OF st1(1)] by simp
  }
qed

subsection \<open>The merge\<close>

definition merge_context :: "(string \<Rightarrow> string \<Rightarrow> int) \<Rightarrow> int \<Rightarrow> js_object \<Rightarrow> js_object \<Rightarrow> resolver_options \<Rightarrow> merge_ctx" where
  "merge_context lc now base server opts =
     \<lparr>mx_base = base, mx_server = server, mx_strategy = (case ro_strategy opts of Some s \<Rightarrow> s | None \<Rightarrow> AUTO_MERGE),
      mx_clientTimestamp = (case ro_clientTimestamp opts of Some t \<Rightarrow> if t \<noteq> 0 then t else now | None \<Rightarrow> now),
      mx_serverTimestamp = the (server_time server),
      mx_actorId = (if truthy (ro_actorId opts) then the (ro_actorId opts) else ''client''), mx_localeCompare = lc\<rparr>"

definition merge_allowed :: "js_object \<Rightarrow> resolver_options \<Rightarrow> bool" where
  "merge_allowed server opts \<longleftrightarrow> server_time server \<noteq> None \<and>
     field_of server ''status'' \<notin> {JsStr ''PAID'', JsStr ''CANCELLED'', JsStr ''EXPIRED''} \<and> ro_actorRole opts \<noteq> Some R_VIEWER"

definition start_state :: "js_object \<Rightarrow> merge_state" where
  "start_state server = \<lparr>mg_merged = mset_kv ''metadata''
     (if is_truthy (field_of server ''metadata'') then json_clone (field_of server ''metadata'') else JsObj []) server,
     mg_resolved = [], mg_unresolved = [], mg_hasConflicts = False\<rparr>"

lemma resolve_Inr:
  "resolveMultiClientConflict lc now base server client opts = Inr r \<longleftrightarrow>
     merge_allowed server opts \<and>
     (\<exists>st. merge_fields (merge_context lc now base server opts) client (start_state server) = Inr st \<and>
       r = \<lparr>mr_resolved = (mg_unresolved st = []), mr_hasConflicts = mg_hasConflicts st,
         mr_merged = (if mg_unresolved st = [] then Some (mset_kv ''version'' (JsNum (js_add (invoice_version server) (Num 1))) (mg_merged st)) else None),
         mr_resolvedFields = mg_resolved st, mr_unresolvedFields = mg_unresolved st, mr_baseVersion = invoice_version base,
         mr_serverVersion = invoice_version server,
         mr_newVersion = (if mg_unresolved st = [] then js_add (invoice_version server) (Num 1) else invoice_version server)\<rparr>)"
proof (cases "server_time server")
  case (Some t)
  then show ?thesis
    unfolding resolveMultiClientConflict_def merge_allowed_def merge_context_def start_state_def Let_def
    by (auto simp: rbind_def split: sum.splits)
qed (simp add: resolveMultiClientConflict_def merge_allowed_def)

text \<open>
  C20: merging an edit. The edit is refused exactly when the invoice is settled, cancelled or expired
  (or has no creation date), the actor is a viewer, or the edit changes a field that identifies the
  invoice or its payment. Otherwise the merge is resolved unless it is strict and some field was
  changed differently on both sides; then nothing is merged. The merged invoice has the next
  version; every field the client may edit and sent is the three-way merge of that field, so that an edit
  of one side alone is kept whatever the strategy; and every other field, the
  status, the amount, the memo, the asset and the payment included, is the server's.
\<close>

theorem merge_spec:
  assumes "distinct (map fst client)"
  shows "((\<exists>r. resolveMultiClientConflict lc now base server client opts = Inr r) \<longleftrightarrow>
      merge_allowed server opts \<and> (\<forall>m\<in>set client. fst m \<in> set IMMUTABLE_FIELDS \<longrightarrow> isDeepEqual (field_of base (fst m)) (snd m))) \<and>
    (\<forall>r. resolveMultiClientConflict lc now base server client opts = Inr r \<longrightarrow>
      (mr_resolved r \<longleftrightarrow> (\<forall>k c. sent client k = Some c \<longrightarrow> \<not> merge_open (merge_context lc now base server opts) k c)) \<and>
      (mr_resolved r \<longleftrightarrow> mr_merged r \<noteq> None) \<and>
      (\<forall>m. mr_merged r = Some m \<longrightarrow>
        field_of m ''version'' = JsNum (js_add (invoice_version server) (Num 1)) \<and>
        (\<forall>k. k \<noteq> ''version'' \<and> k \<noteq> ''metadata'' \<longrightarrow> field_of m k =
          (case sent client k of None \<Rightarrow> field_of server k
           | Some c \<Rightarrow> three_way (merge_context lc now base server opts) k (field_of server k) c)) \<and>
        field_of m ''metadata'' =
          (let kept = (if is_truthy (field_of server ''metadata'') then json_clone (field_of server ''metadata'') else JsObj [])
           in case sent client ''metadata'' of None \<Rightarrow> kept
              | Some c \<Rightarrow> three_way (merge_context lc now base server opts) ''metadata'' kept c)))"
proof (intro conjI allI impI)
  let ?x = "merge_context lc now base server opts"
  show "(\<exists>r. resolveMultiClientConflict lc now base server client opts = Inr r) \<longleftrightarrow>
      merge_allowed server opts \<and> (\<forall>m\<in>set client. fst m \<in> set IMMUTABLE_FIELDS \<longrightarrow> isDeepEqual (field_of base (fst m)) (snd m))"
    unfolding resolve_Inr using merge_fields_Inr [of ?x client "start_state server"]
    by (auto simp: merge_context_def)
  fix r
  assume "resolveMultiClientConflict lc now base server client opts = Inr r"
  then obtain st where st: "merge_fields ?x client (start_state server) = Inr st"
    and r: "mr_resolved r \<longleftrightarrow> mg_unresolved st = []"
      "mr_merged r = (if mg_unresolved st = [] then Some (mset_kv ''version'' (JsNum (js_add (invoice_version server) (Num 1))) (mg_merged st)) else None)"
    unfolding resolve_Inr by auto
  note eff = merge_fields_effect [OF st assms]
  show res: "mr_resolved r \<longleftrightarrow> (\<forall>k c. sent client k = Some c \<longrightarrow> \<not> merge_open ?x k c)"
    using eff(2) by (simp add: r start_state_def)
  show "mr_resolved r \<longleftrightarrow> mr_merged r \<noteq> None" by (simp add: r)
  fix m
  assume m: "mr_merged r = Some m"
  then have "mr_resolved r" and mm: "m = mset_kv ''version'' (JsNum (js_add (invoice_version server) (Num 1))) (mg_merged st)"
    by (auto simp: r split: if_splits)
  then have no: "sent client k = Some c \<Longrightarrow> \<not> merge_open ?x k c" for k c using res by blast
  have kept: "field_of (mg_merged st) k = (case sent client k of None \<Rightarrow> field_of (mg_merged (start_state server)) k
      | Some c \<Rightarrow> three_way ?x k (field_of (mg_merged (start_state server)) k) c)" for k
    using eff(1) [of k] no [of k] by (auto split: option.splits)
  show "field_of m ''version'' = JsNum (js_add (invoice_version server) (Num 1))" by (simp add: mm)
  show "field_of m k = (case sent client k of None \<Rightarrow> field_of server k | Some c \<Rightarrow> three_way ?x k (field_of server k) c)"
    if "k \<noteq> ''version'' \<and> k \<noteq> ''metadata''" for k 
  proof -
    have "field_of (mg_merged (start_state server)) k = field_of server k" using that by (simp add: start_state_def)
    then have "field_of (mg_merged st) k = (case sent client k of None \<Rightarrow> field_of server k
        | Some c \<Rightarrow> three_way ?x k (field_of server k) c)" using kept [of k] by (simp only:)
    then show ?thesis using that by (simp add: mm)
  qed
  show "field_of m ''metadata'' =
      (let kept = (if is_truthy (field_of server ''metadata'') then json_clone (field_of server ''metadata'') else JsObj [])
       in case sent client ''metadata'' of None \<Rightarrow> kept | Some c \<Rightarrow> three_way ?x ''metadata'' kept c)"
    using kept [of "''metadata''"] by (auto simp: mm start_state_def Let_def split: option.split)
qed

text \<open>Witness of C1: the server changed the description, the client the name; both edits are kept.\<close>

definition doc_base :: js_object where
  "doc_base = [(''status'', JsStr ''PENDING''), (''createdAt'', JsDate 5), (''description'', JsStr ''a''), (''customerName'', JsStr ''n'')]"

definition doc_options :: resolver_options where
  "doc_options = \<lparr>ro_strategy = Some STRICT, ro_clientTimestamp = None, ro_actorId = None, ro_actorRole = None\<rparr>"

lemma deep_str [simp]: "isDeepEqual (JsStr a) (JsStr b) \<longleftrightarrow> a = b"
  by (simp add: isDeepEqual.simps)

theorem merge_spec_witness:
  "\<exists>r m. resolveMultiClientConflict (\<lambda>_ _. 0) 9 doc_base (mset_kv ''description'' (JsStr ''b'') doc_base) [(''customerName'', JsStr ''Ann'')] doc_options = Inr r \<and>
     mr_merged r = Some m \<and> field_of m ''description'' = JsStr ''b'' \<and> field_of m ''customerName'' = JsStr ''Ann''"
proof -
  let ?server = "mset_kv ''description'' (JsStr ''b'') doc_base" and ?client = "[(''customerName'', JsStr ''Ann'')]"
  note spec = merge_spec [of ?client "\<lambda>_ _. 0" 9 doc_base ?server doc_options]
  have d: "distinct (map fst ?client)" by simp
  have al: "merge_allowed ?server doc_options" by (simp add: merge_allowed_def server_time_def doc_options_def doc_base_def field_of_def)
  have im: "\<forall>m\<in>set ?client. fst m \<in> set IMMUTABLE_FIELDS \<longrightarrow> isDeepEqual (field_of doc_base (fst m)) (snd m)"
    by (simp add: IMMUTABLE_FIELDS_def)
  obtain r where r: "resolveMultiClientConflict (\<lambda>_ _. 0) 9 doc_base ?server ?client doc_options = Inr r"
    using iffD2 [OF conjunct1 [OF spec [OF d]] conjI [OF al im]] by blast
  note res = conjunct2 [OF spec [OF d], rule_format, OF r]
  have sn: "sent ?client k = (if k = ''customerName'' then Some (JsStr ''Ann'') else None)" for k
    by (simp add: sent_def EDITABLE_FIELDS_def)
  have "\<not> merge_open (merge_context (\<lambda>_ _. 0) 9 doc_base ?server doc_options) ''customerName'' (JsStr ''Ann'')"
    by (simp add: merge_open_def merge_context_def doc_base_def field_of_def)
  then have "\<forall>k c. sent ?client k = Some c \<longrightarrow> \<not> merge_open (merge_context (\<lambda>_ _. 0) 9 doc_base ?server doc_options) k c"
    by (simp add: sn)
  then have "mr_merged r \<noteq> None" using res by blast
  then obtain m where m: "mr_merged r = Some m" by blast
  have "field_of m ''description'' = field_of ?server ''description''"
    "field_of m ''customerName'' = three_way (merge_context (\<lambda>_ _. 0) 9 doc_base ?server doc_options) ''customerName''
       (field_of ?server ''customerName'') (JsStr ''Ann'')"
    using conjunct2 [OF conjunct2 [OF res], rule_format, OF m] by (simp_all add: sn)
  then show ?thesis using r m by (simp add: three_way_def merge_context_def doc_base_def field_of_def)
qed

subsection \<open>Tie breaks\<close>

text \<open>
  The time of the server is that of the creation of an unpaid invoice, not of the last edit: an
  automatic merge takes the client's value in every collision unless the client's clock is behind the creation.
\<close>

lemma auto_merge_ignores_edit_times:
  assumes "field_of server ''paidAt'' = JsNull" and "field_of server ''createdAt'' = JsDate t"
    and "ro_clientTimestamp opts = Some c" and "t < c" and "c \<noteq> 0"
  shows "client_wins (merge_context lc now base server opts)"
  using assms by (simp add: client_wins_def merge_context_def server_time_def)

text \<open>At equal times members of the metadata are compared by code units, other fields by locale: one edit is split.\<close>

lemma tie_breaks_differ:
  fixes lc :: "string \<Rightarrow> string \<Rightarrow> int"
  assumes "lc ''Zed'' ''server'' = 1" and "mx_clientTimestamp x = mx_serverTimestamp x" and "mx_actorId x = ''Zed''" and "mx_localeCompare x = lc"
  shows "client_wins x \<and> mergeMetadataObjects [] [(k, JsStr ''s'')] [(k, JsStr ''c'')] AUTO_MERGE
    (mx_clientTimestamp x) (mx_serverTimestamp x) (mx_actorId x) = ([(k, JsStr ''s'')], [])"
  using assms by (simp add: client_wins_def mergeMetadataObjects.simps [of "[]"] js_set_def Let_def field_of_def isDeepEqual.simps [of JsUndef])

text \<open>A member the client removed comes back as a member without a value when the merge is automatic, and is gone when the client wins.\<close>

lemma removed_member_undefined:
  "mergeMetadataObjects [(k, JsStr ''a'')] [(k, JsStr ''b'')] [] AUTO_MERGE 2 1 actor = ([(k, JsUndef)], []) \<and>
   mergeMetadataObjects [(k, JsStr ''a'')] [(k, JsStr ''b'')] [] CLIENT_WINS 2 1 actor = ([], [])"
  by (simp add: mergeMetadataObjects.simps [of "[(k, JsStr ''a'')]"] js_set_def Let_def field_of_def defined_member_def
      isDeepEqual.simps [of _ JsUndef])

end
