(* ===== verification/Redaction.thy ===== *)
theory Redaction
  imports Invoice_Model "HOL-Library.Sublist"
begin

text \<open>
  Scrubbing of secrets, \<open>backend/src/security/redaction.ts\<close>, and \<open>sanitizeForLogging\<close> of
  \<open>backend/src/observability/telemetry.ts\<close>. The regular expressions are values of a small type with
  the backtracking semantics of the language: a match is the first one in the order of
  preference, and a global replacement goes on after it. Data are JSON values and dates; cyclic
  ones, on which the code does not return, are not among them.
\<close>

subsection \<open>Regular expressions\<close>

datatype re =
    REps
  | RClass "char \<Rightarrow> bool"
  | RStar "char \<Rightarrow> bool"  \<comment> \<open>greedy repetition of a class\<close>
  | RSeq re re
  | RAlt re re
  | RBound  \<comment> \<open>a word boundary\<close>
  | RNot re  \<comment> \<open>negative lookahead\<close>
  | RGroup nat re

definition word_char :: "char \<Rightarrow> bool" where
  "word_char c \<longleftrightarrow> is_alnum c \<or> c = CHR ''_''"

definition upto_char :: "char option \<Rightarrow> string \<Rightarrow> char option" where
  "upto_char prev u = (if u = [] then prev else Some (last u))"

text \<open>
  All ways to match at a position, the preferred one first: the text that is consumed and the
  groups that are captured. The position is the character before it and the text after it.
\<close>

fun re_run :: "re \<Rightarrow> char option \<Rightarrow> string \<Rightarrow> (string \<times> (nat \<times> string) list) list" where
  "re_run REps prev s = [([], [])]"
| "re_run (RClass p) prev s = (case s of [] \<Rightarrow> [] | c # _ \<Rightarrow> if p c then [([c], [])] else [])"
| "re_run (RStar p) prev s = map (\<lambda>n. (take n s, [])) (rev [0..<Suc (length (takeWhile p s))])"
| "re_run (RSeq a b) prev s =
     concat (map (\<lambda>m. map (\<lambda>k. (fst m @ fst k, snd m @ snd k)) (re_run b (upto_char prev (fst m)) (drop (length (fst m)) s)))
       (re_run a prev s))"
| "re_run (RAlt a b) prev s = re_run a prev s @ re_run b prev s"
| "re_run RBound prev s =
     (let wb = (case prev of None \<Rightarrow> False | Some c \<Rightarrow> word_char c);
          wa = (case s of [] \<Rightarrow> False | c # _ \<Rightarrow> word_char c)
      in if wb \<noteq> wa then [([], [])] else [])"
| "re_run (RNot a) prev s = (if re_run a prev s = [] then [([], [])] else [])"
| "re_run (RGroup n a) prev s = map (\<lambda>m. (fst m, (n, fst m) # snd m)) (re_run a prev s)"

definition re_first :: "re \<Rightarrow> char option \<Rightarrow> string \<Rightarrow> (string \<times> (nat \<times> string) list) option" where
  "re_first r prev s = (case re_run r prev s of [] \<Rightarrow> None | m # _ \<Rightarrow> Some m)"

text \<open>\<open>text.replace(pattern, f)\<close> with the flag \<open>g\<close>. After an empty match one character is copied.\<close>

function re_replace :: "re \<Rightarrow> ((nat \<times> string) list \<Rightarrow> string) \<Rightarrow> char option \<Rightarrow> string \<Rightarrow> string" where
  "re_replace r f prev s =
     (case re_first r prev s of
        None \<Rightarrow> (case s of [] \<Rightarrow> [] | c # t \<Rightarrow> c # re_replace r f (Some c) t)
      | Some (u, g) \<Rightarrow>
          if u = [] then f g @ (case s of [] \<Rightarrow> [] | c # t \<Rightarrow> c # re_replace r f (Some c) t)
          else if s = [] then f g
          else f g @ re_replace r f (Some (last u)) (drop (length u) s))"
  by pat_completeness auto

termination re_replace
  by (relation "measure (\<lambda>(r, f, prev, s). length s)") auto

declare re_replace.simps [simp del]

definition re_lit :: "string \<Rightarrow> re" where
  "re_lit w = foldr (\<lambda>c r. RSeq (RClass (\<lambda>d. d = c)) r) w REps"

text \<open>With the flag \<open>i\<close>.\<close>

definition re_word :: "string \<Rightarrow> re" where
  "re_word w = foldr (\<lambda>c r. RSeq (RClass (\<lambda>d. lower_char d = lower_char c)) r) w REps"

definition re_plus :: "(char \<Rightarrow> bool) \<Rightarrow> re" where
  "re_plus p = RSeq (RClass p) (RStar p)"

fun re_times :: "nat \<Rightarrow> (char \<Rightarrow> bool) \<Rightarrow> re" where
  "re_times 0 p = REps"
| "re_times (Suc n) p = RSeq (RClass p) (re_times n p)"

fun re_any :: "re list \<Rightarrow> re" where
  "re_any [] = RNot REps"
| "re_any [r] = r"
| "re_any (r # rs) = RAlt r (re_any rs)"

fun re_all :: "re list \<Rightarrow> re" where
  "re_all [] = REps"
| "re_all (r # rs) = RSeq r (re_all rs)"

definition group_of :: "nat \<Rightarrow> (nat \<times> string) list \<Rightarrow> string" where
  "group_of n g = (case mget g n of Some t \<Rightarrow> t | None \<Rightarrow> [])"

subsection \<open>The patterns\<close>

definition upper_digit :: "char \<Rightarrow> bool" where
  "upper_digit c = (let n = of_char c :: nat in (65 \<le> n \<and> n \<le> 90) \<or> is_digit c)"

definition upper_space :: "char \<Rightarrow> bool" where
  "upper_space c = (let n = of_char c :: nat in (65 \<le> n \<and> n \<le> 90) \<or> c = CHR '' '')"

definition SECRET_KEY_PATTERN :: re where
  "SECRET_KEY_PATTERN = re_all [RBound, re_lit ''S'', re_times 55 upper_digit, RBound]"

definition token_char :: "char \<Rightarrow> bool" where
  "token_char c \<longleftrightarrow> is_alnum c \<or> c \<in> set ''-._~+/''"

definition BEARER_TOKEN_PATTERN :: re where
  "BEARER_TOKEN_PATTERN =
     re_all [re_word ''Bearer'', re_plus is_ws, RGroup 1 (re_all [re_plus token_char, RStar (\<lambda>c. c = CHR ''='')])]"

definition PRIVATE_KEY_BLOCK_PATTERN :: re where
  "PRIVATE_KEY_BLOCK_PATTERN =
     re_all [re_lit ''-----BEGIN '', RStar upper_space, re_lit ''PRIVATE KEY-----'', re_plus (\<lambda>c. c \<noteq> CHR ''-''),
       re_lit ''-----END '', RStar upper_space, re_lit ''PRIVATE KEY-----'']"

definition URL_CREDENTIAL_PATTERN :: re where
  "URL_CREDENTIAL_PATTERN =
     re_all [RGroup 1 (re_all [re_lit ''://'', re_plus (\<lambda>c. c \<notin> set '':/'' \<and> \<not> is_ws c), re_lit '':'']),
       re_plus (\<lambda>c. c \<noteq> CHR ''@'' \<and> \<not> is_ws c), RGroup 2 (re_lit ''@'')]"

definition secret_names :: re where
  "secret_names = re_any (map re_word
     [''password'', ''secret'', ''apiKey'', ''api_secret'', ''auth_token'', ''access_token'', ''private_key'', ''privatekey''])"

definition KEY_VALUE_SECRET_PATTERN :: re where
  "KEY_VALUE_SECRET_PATTERN =
     re_all [RGroup 1 (re_all [secret_names, RStar is_ws, RClass (\<lambda>c. c \<in> set ''=:''), RStar is_ws]),
       RNot (RAlt (re_word ''[REDACTED'') (re_word ''S[REDACTED'')),
       re_plus (\<lambda>c. \<not> is_ws c \<and> c \<notin> set '',;&'' \<and> c \<noteq> CHR 0x22 \<and> c \<noteq> CHR 0x27)]"

definition dquote :: string where
  "dquote = [CHR 0x22]"

definition PASSWORD_FIELD_PATTERN :: re where
  "PASSWORD_FIELD_PATTERN =
     re_all [RAlt (re_lit dquote) REps, RGroup 1 secret_names, RAlt (re_lit dquote) REps, RStar is_ws, re_lit '':'', RStar is_ws,
       re_lit dquote, re_plus (\<lambda>c. c \<noteq> CHR 0x22), re_lit dquote]"

definition SENSITIVE_KEY_SUBSTRINGS :: "string list" where
  "SENSITIVE_KEY_SUBSTRINGS = [''secret'', ''password'', ''authorization'', ''privatekey'', ''private_key'', ''token'', ''credential'', ''apikey'', ''api_key'']"

subsection \<open>Redaction\<close>

definition redactSensitiveText :: "string \<Rightarrow> string" where
  "redactSensitiveText text =
     (let t1 = re_replace URL_CREDENTIAL_PATTERN (\<lambda>g. group_of 1 g @ ''[REDACTED]'' @ group_of 2 g) None text;
          t2 = re_replace SECRET_KEY_PATTERN (\<lambda>_. ''S[REDACTED_SECRET_KEY]'') None t1;
          t3 = re_replace BEARER_TOKEN_PATTERN (\<lambda>_. ''Bearer [REDACTED_TOKEN]'') None t2;
          t4 = re_replace PRIVATE_KEY_BLOCK_PATTERN (\<lambda>_. ''[REDACTED_PRIVATE_KEY]'') None t3;
          t5 = re_replace PASSWORD_FIELD_PATTERN
            (\<lambda>g. dquote @ group_of 1 g @ dquote @ '':'' @ dquote @ ''[REDACTED]'' @ dquote) None t4
      in re_replace KEY_VALUE_SECRET_PATTERN (\<lambda>g. group_of 1 g @ ''[REDACTED]'') None t5)"

definition sensitive_key :: "string \<Rightarrow> bool" where
  "sensitive_key key = (\<exists>sub\<in>set SENSITIVE_KEY_SUBSTRINGS. sublist sub (js_lower key))"

fun sanitizeObject :: "json \<Rightarrow> json" where
  "sanitizeObject (JStr s) = JStr (redactSensitiveText s)"
| "sanitizeObject (JArr xs) = JArr (map sanitizeObject xs)"
| "sanitizeObject (JObj kvs) =
     JObj (map (\<lambda>m. (fst m, if sensitive_key (fst m) then JStr ''[REDACTED]'' else sanitizeObject (snd m))) kvs)"
| "sanitizeObject v = v"

definition sanitizeForLogging :: "json \<Rightarrow> json" where
  "sanitizeForLogging v = sanitizeObject v"

definition redactErrorMessage :: "string option \<Rightarrow> string" where
  "redactErrorMessage message =
     (case message of None \<Rightarrow> [] | Some t \<Rightarrow> redactSensitiveText (hd (split_on (CHR 0x0A) t)))"

end
