(* ===== verification/Redaction_Properties.thy ===== *)
theory Redaction_Properties
  imports Redaction
begin

text \<open>
  What redaction guarantees: values under sensitive names never survive, at any depth, and the
  pass over secret seeds leaves none. A later pass may bring one to light again, which is shown by
  an example.
\<close>

subsection \<open>Objects\<close>

text \<open>Data in which nothing stands under a sensitive name and every text went through redaction.\<close>

fun redacted :: "json \<Rightarrow> bool" where
  "redacted (JStr s) = (s \<in> range redactSensitiveText)"
| "redacted (JArr xs) = list_all redacted xs"
| "redacted (JObj kvs) = list_all (\<lambda>m. if sensitive_key (fst m) then snd m = JStr ''[REDACTED]'' else redacted (snd m)) kvs"
| "redacted _ = True"

lemma sanitizeObject_redacted: "redacted (sanitizeObject v)"
  by (induction v rule: sanitizeObject.induct) (auto simp: list_all_iff)

subsection \<open>Seeds\<close>

definition word_opt :: "char option \<Rightarrow> bool" where
  "word_opt p = (case p of None \<Rightarrow> False | Some c \<Rightarrow> word_char c)"

definition word_head :: "string \<Rightarrow> bool" where
  "word_head s = (case s of [] \<Rightarrow> False | c # _ \<Rightarrow> word_char c)"

text \<open>A secret seed stands at a position, as a word of its own.\<close>

definition seed_at :: "char option \<Rightarrow> string \<Rightarrow> bool" where
  "seed_at prev s \<longleftrightarrow> \<not> word_opt prev \<and>
     (\<exists>w rest. s = CHR ''S'' # w @ rest \<and> length w = 55 \<and> list_all upper_digit w \<and> \<not> word_head rest)"

definition has_seed :: "char option \<Rightarrow> string \<Rightarrow> bool" where
  "has_seed prev s \<longleftrightarrow> (\<exists>u v. s = u @ v \<and> seed_at (upto_char prev u) v)"

lemma re_run_times:
  "re_run (re_times n p) prev s = (if n \<le> length s \<and> list_all p (take n s) then [(take n s, [])] else [])"
proof (induction n arbitrary: prev s)
  case (Suc n)
  then show ?case by (cases s) auto
qed simp

lemma upper_word: "upper_digit c \<Longrightarrow> word_char c"
  by (auto simp: upper_digit_def word_char_def is_alnum_def is_alpha_def Let_def)

lemma upto_char_append: "upto_char (upto_char prev u) v = upto_char prev (u @ v)"
  by (auto simp: upto_char_def)

lemma re_run_seed:
  "re_run SECRET_KEY_PATTERN prev s = (if seed_at prev s then [(take 56 s, [])] else [])"
proof -
  have S: "word_char (CHR ''S'')" by (simp add: word_char_def is_alnum_def is_alpha_def)
  have b: "re_run RBound prev s = (if word_opt prev \<noteq> word_head s then [([], [])] else [])" for prev s
    by (simp add: word_opt_def word_head_def)
  show ?thesis
  proof (cases "\<exists>t. s = CHR ''S'' # t")
    case True
    then obtain t where t: "s = CHR ''S'' # t" by blast
    define w where "w = take 55 t"
    have sd: "seed_at prev (CHR ''S'' # t) \<longleftrightarrow> \<not> word_opt prev \<and> 55 \<le> length t \<and> list_all upper_digit w \<and> \<not> word_head (drop 55 t)"
      unfolding seed_at_def w_def by (auto simp: append_eq_conv_conj) (metis append_take_drop_id length_take min.absorb2)
    show ?thesis
    proof (cases "55 \<le> length t \<and> list_all upper_digit w")
      case True
      then have "length w = 55" "w \<noteq> []" by (auto simp: w_def)
      moreover from this have "word_opt (Some (last w))" using True upper_word by (auto simp: word_opt_def list_all_iff)
      ultimately show ?thesis using True
        by (simp add: sd SECRET_KEY_PATTERN_def re_lit_def b re_run_times t w_def [symmetric] word_head_def S upto_char_def
            del: re_run.simps(6))
    next
      case False
      then show ?thesis
        by (auto simp: sd SECRET_KEY_PATTERN_def re_lit_def b re_run_times t w_def [symmetric] simp del: re_run.simps(6))
    qed
  next
    case False
    then have "\<not> seed_at prev s" by (auto simp: seed_at_def)
    then show ?thesis using False by (auto simp: SECRET_KEY_PATTERN_def re_lit_def split: list.split)
  qed
qed

abbreviation seed_mark :: string where
  "seed_mark \<equiv> ''S[REDACTED_SECRET_KEY]''"

abbreviation seed_pass :: "char option \<Rightarrow> string \<Rightarrow> string" where
  "seed_pass prev s \<equiv> re_replace SECRET_KEY_PATTERN (\<lambda>_. seed_mark) prev s"

lemma seed_pass_step:
  "seed_pass prev s =
     (if seed_at prev s then seed_mark @ seed_pass (Some (last (take 56 s))) (drop 56 s)
      else case s of [] \<Rightarrow> [] | c # t \<Rightarrow> c # seed_pass (Some c) t)"
proof -
  have "s \<noteq> [] \<and> length (take 56 s) = 56" if "seed_at prev s" using that by (auto simp: seed_at_def)
  then show ?thesis
    by (subst re_replace.simps) (auto simp: re_first_def re_run_seed split: list.split)
qed

lemma seed_at_Cons: "seed_at q (c # x) \<Longrightarrow> c = CHR ''S'' \<and> \<not> word_opt q \<and> (\<exists>d y. x = d # y \<and> upper_digit d)"
proof -
  assume "seed_at q (c # x)"
  then obtain w rest where w: "c = CHR ''S''" "\<not> word_opt q" "x = w @ rest" "length w = 55" "list_all upper_digit w"
    by (auto simp: seed_at_def)
  then obtain d w' where "w = d # w'" by (cases w) auto
  then show ?thesis using w by auto
qed

lemma has_seed_Cons: "has_seed q (c # x) \<longleftrightarrow> seed_at q (c # x) \<or> has_seed (Some c) x"
proof
  assume "has_seed q (c # x)"
  then obtain u v where u: "c # x = u @ v" "seed_at (upto_char q u) v" by (auto simp: has_seed_def)
  show "seed_at q (c # x) \<or> has_seed (Some c) x"
  proof (cases u)
    case (Cons d u')
    then have "x = u' @ v" "upto_char q u = upto_char (Some c) u'" using u(1) by (auto simp: upto_char_def)
    then show ?thesis using u(2) unfolding has_seed_def by metis
  qed (use u in \<open>simp add: upto_char_def\<close>)
next
  assume "seed_at q (c # x) \<or> has_seed (Some c) x"
  then show "has_seed q (c # x)"
  proof
    assume "seed_at q (c # x)"
    then have "c # x = [] @ (c # x) \<and> seed_at (upto_char q []) (c # x)" by (simp add: upto_char_def)
    then show ?thesis unfolding has_seed_def by blast
  next
    assume "has_seed (Some c) x"
    then obtain u v where "x = u @ v" "seed_at (upto_char (Some c) u) v" by (auto simp: has_seed_def)
    then have "c # x = (c # u) @ v \<and> seed_at (upto_char q (c # u)) v" by (auto simp: upto_char_def)
    then show ?thesis unfolding has_seed_def by blast
  qed
qed

lemma has_seed_Nil [simp]: "\<not> has_seed q []"
  by (auto simp: has_seed_def seed_at_def)

lemma seed_mark_free: "has_seed q (seed_mark @ y) \<Longrightarrow> has_seed (Some (CHR '']'')) y"
proof -
  have not_upper: "\<not> upper_digit (CHR ''['')" by (simp add: upper_digit_def is_digit_def)
  have us: "word_opt (Some (CHR ''_''))" by (simp add: word_opt_def word_char_def)
  show "has_seed q (seed_mark @ y) \<Longrightarrow> has_seed (Some (CHR '']'')) y"
    using us not_upper by (auto simp: has_seed_Cons dest!: seed_at_Cons)
qed

lemma word_head_pass: "word_head (seed_pass prev s) \<longleftrightarrow> word_head s"
proof (cases "seed_at prev s")
  case True
  then have "word_head s" by (auto simp: seed_at_def word_head_def word_char_def is_alnum_def is_alpha_def)
  then show ?thesis using True
    by (simp add: seed_pass_step [of prev s]) (simp add: word_head_def word_char_def is_alnum_def is_alpha_def)
next
  case False
  then show ?thesis by (simp add: seed_pass_step [of prev s] word_head_def split: list.split)
qed

text \<open>Inside a word nothing is replaced.\<close>

lemma seed_pass_copies:
  "word_opt prev \<Longrightarrow> seed_pass prev t = w @ rest \<Longrightarrow> list_all word_char w \<Longrightarrow>
     \<exists>t'. t = w @ t' \<and> rest = seed_pass (upto_char prev w) t'"
proof (induction w arbitrary: prev t)
  case (Cons c w)
  have "\<not> seed_at prev t" using Cons.prems(1) by (simp add: seed_at_def)
  then obtain t1 where t1: "t = c # t1" "seed_pass (Some c) t1 = w @ rest"
    using Cons.prems(2) seed_pass_step [of prev t] by (cases t) auto
  have "word_opt (Some c)" "list_all word_char w" using Cons.prems(3) by (simp_all add: word_opt_def)
  from Cons.IH [OF this(1) t1(2) this(2)] show ?case using t1(1) upto_char_append [of prev "[c]" w] by (auto simp: upto_char_def)
qed (auto simp: upto_char_def)

lemma seed_pass_free: "q = prev \<or> \<not> word_head s \<Longrightarrow> \<not> has_seed q (seed_pass prev s)"
proof (induction "length s" arbitrary: q prev s rule: less_induct)
  case less
  show ?case
  proof (cases "seed_at prev s")
    case True
    then obtain w d where s: "s = CHR ''S'' # w @ d" "length w = 55" "\<not> word_head d" by (auto simp: seed_at_def)
    then have "drop 56 s = d" by simp
    then have "\<not> has_seed (Some (CHR '']'')) (seed_pass (Some (last (take 56 s))) (drop 56 s))"
      using less.hyps [of d] s by simp
    then show ?thesis using True seed_mark_free by (auto simp: seed_pass_step [of prev s])
  next
    case False
    show ?thesis
    proof (cases s)
      case (Cons c t)
      have out: "seed_pass prev (c # t) = c # seed_pass (Some c) t" using False seed_pass_step [of prev s] by (simp add: Cons)
      have "\<not> seed_at q (c # seed_pass (Some c) t)"
      proof
        assume sd: "seed_at q (c # seed_pass (Some c) t)"
        then obtain w rest where w: "c = CHR ''S''" "\<not> word_opt q" "seed_pass (Some c) t = w @ rest" "length w = 55"
          "list_all upper_digit w" "\<not> word_head rest" by (auto simp: seed_at_def)
        have c: "word_char c" using w(1) by (simp add: word_char_def is_alnum_def is_alpha_def)
        have "list_all word_char w" using w(5) upper_word by (auto simp: list_all_iff)
        then obtain t' where t': "t = w @ t'" "rest = seed_pass (upto_char (Some c) w) t'"
          using seed_pass_copies [OF _ w(3)] c by (auto simp: word_opt_def)
        have "\<not> word_head t'" using w(6) t'(2) word_head_pass by simp
        then have "seed_at q s" using w t' by (auto simp: seed_at_def Cons)
        moreover have "q = prev" using less.prems c by (auto simp: word_head_def Cons)
        ultimately show False using False by simp
      qed
      then show ?thesis using less.hyps [of t "Some c" "Some c"] by (simp add: out has_seed_Cons Cons)
    qed (use seed_pass_step [of prev "[]"] in \<open>simp add: seed_at_def\<close>)
  qed
qed

text \<open>
  The pass over secret seeds leaves none that is a word of its own, but the passes after it do not keep
  this: the one over quoted passwords puts a quotation mark
  between a seed and the name of a field that follows it, so that the seed, which was part of a longer
  word before, is a word of its own in the redacted text.
\<close>

definition exposed_seed :: string where
  "exposed_seed = CHR ''S'' # replicate 55 (CHR ''A'')"

text \<open>A pattern that matches nowhere in the first part of a text leaves it as it is.\<close>

fun no_match :: "re \<Rightarrow> string \<Rightarrow> string \<Rightarrow> bool" where
  "no_match r [] rest = True"
| "no_match r (c # x) rest = ((\<forall>q. re_run r q (c # x @ rest) = []) \<and> no_match r x rest)"

lemma re_replace_no_match: "no_match r x rest \<Longrightarrow> re_replace r f prev (x @ rest) = x @ re_replace r f (upto_char prev x) rest"
proof (induction x arbitrary: prev)
  case (Cons c x)
  then have "re_replace r f prev ((c # x) @ rest) = c # re_replace r f (Some c) (x @ rest)"
    by (subst re_replace.simps) (simp add: re_first_def)
  then show ?case using Cons upto_char_append [of prev "[c]" x] by (simp add: upto_char_def)
qed (simp add: upto_char_def)

lemma exposed_no_match:
  assumes "\<And>q z. re_run r q (CHR ''S'' # CHR ''A'' # z) = []" and "\<And>q z. re_run r q (CHR ''A'' # CHR ''A'' # z) = []"
    and "\<And>q. re_run r q (CHR ''A'' # y @ rest) = []" and "no_match r y rest"
  shows "no_match r (exposed_seed @ y) rest"
proof -
  have run: "no_match r (replicate k (CHR ''A'') @ y) rest" for k
  proof (induction k)
    case (Suc k)
    then show ?case using assms(2,3) by (cases k) auto
  qed (simp add: assms(4))
  have "exposed_seed = CHR ''S'' # CHR ''A'' # replicate 54 (CHR ''A'')"
    by (simp add: exposed_seed_def replicate_Suc [symmetric] del: replicate_Suc)
  then show ?thesis using run [of 55] assms(1) by (simp add: exposed_seed_def)
qed

lemma no_match_Nil: "no_match r s [] \<Longrightarrow> (\<And>q. re_run r q [] = []) \<Longrightarrow> re_replace r f prev s = s"
  using re_replace_no_match [of r s "[]" f prev] by (simp add: re_replace.simps [of r f _ "[]"] re_first_def)

text \<open>When a pattern does not match, decided from the left.\<close>

lemma fails_class: "re_run (RClass p) q s = [] \<longleftrightarrow> (case s of [] \<Rightarrow> True | c # _ \<Rightarrow> \<not> p c)"
  by (simp split: list.split)

lemma fails_seq_class:
  "re_run (RSeq (RClass p) b) q [] = []"
  "re_run (RSeq (RClass p) b) q (c # s) = [] \<longleftrightarrow> (if p c then re_run b (Some c) s = [] else True)"
  by (auto simp: upto_char_def)

lemma fails_seq_iff:
  "re_run (RSeq a b) q s = [] \<longleftrightarrow> (\<forall>m\<in>set (re_run a q s). re_run b (upto_char q (fst m)) (drop (length (fst m)) s) = [])"
  by auto

lemma fails_seq:
  "re_run (RSeq REps b) q s = [] \<longleftrightarrow> re_run b q s = []"
  "re_run (RSeq (RSeq a b) c) q s = [] \<longleftrightarrow> re_run (RSeq a (RSeq b c)) q s = []"
  "re_run (RSeq (RAlt a b) c) q s = [] \<longleftrightarrow> (if re_run (RSeq a c) q s = [] then re_run (RSeq b c) q s = [] else False)"
  "re_run (RSeq (RGroup n a) c) q s = [] \<longleftrightarrow> re_run (RSeq a c) q s = []"
  unfolding fails_seq_iff by (auto simp: upto_char_def [of q "[]"] upto_char_append add.commute)

lemma fails_seq_star:
  assumes "case s of [] \<Rightarrow> True | c # _ \<Rightarrow> \<not> p c"
  shows "re_run (RSeq (RStar p) b) q s = [] \<longleftrightarrow> re_run b q s = []"
proof -
  have "takeWhile p s = []" using assms by (cases s) auto
  then show ?thesis by (simp add: upto_char_def)
qed

lemmas re_fails = fails_class fails_seq_class fails_seq fails_seq_star

lemma lower_chars:
  "lower_char (CHR ''A'') = CHR ''a''"
  "lower_char (CHR ''S'') = CHR ''s''"
  "lower_char (CHR ''R'') = CHR ''r''"
  "lower_char (CHR ''E'') = CHR ''e''"
  "lower_char (CHR ''D'') = CHR ''d''"
  "lower_char (CHR ''C'') = CHR ''c''"
  "lower_char (CHR ''T'') = CHR ''t''"
  "lower_char (CHR ''K'') = CHR ''k''"
  "lower_char (CHR ''B'') = CHR ''b''"
  "lower_char (CHR ''Y'') = CHR ''y''"
  "lower_char (CHR ''p'') = CHR ''p''"
  "lower_char (CHR ''a'') = CHR ''a''"
  "lower_char (CHR ''s'') = CHR ''s''"
  "lower_char (CHR ''w'') = CHR ''w''"
  "lower_char (CHR ''o'') = CHR ''o''"
  "lower_char (CHR ''r'') = CHR ''r''"
  "lower_char (CHR ''e'') = CHR ''e''"
  "lower_char (CHR ''d'') = CHR ''d''"
  "lower_char (CHR ''c'') = CHR ''c''"
  "lower_char (CHR ''k'') = CHR ''k''"
  "lower_char (CHR ''t'') = CHR ''t''"
  "lower_char (CHR ''i'') = CHR ''i''"
  "lower_char (CHR ''y'') = CHR ''y''"
  "lower_char (CHR ''u'') = CHR ''u''"
  "lower_char (CHR ''h'') = CHR ''h''"
  "lower_char (CHR ''v'') = CHR ''v''"
  "lower_char (CHR ''b'') = CHR ''b''"
  "lower_char (CHR ''x'') = CHR ''x''"
  "lower_char (CHR ''n'') = CHR ''n''"
  "lower_char (CHR ''m'') = CHR ''m''"
  "lower_char (CHR ''_'') = CHR ''_''"
  "lower_char (CHR 0x22) = CHR 0x22"
  "lower_char (CHR '':'') = CHR '':''"
  "lower_char (CHR ''['') = CHR ''[''"
  "lower_char (CHR '']'') = CHR '']''"
  by (simp_all add: lower_char_def char_of_def bit_0)

lemmas re_eval = re_lit_def re_word_def re_plus_def secret_names_def dquote_def lower_chars is_ws_def token_char_def upper_space_def
  is_alnum_def is_alpha_def is_digit_def

definition field_text :: string where
  "field_text = ''password:'' @ dquote @ ''x'' @ dquote"

definition redacted_field :: string where
  "redacted_field = dquote @ ''password'' @ dquote @ '':'' @ dquote @ ''[REDACTED]'' @ dquote"

lemma url_pass: "re_replace URL_CREDENTIAL_PATTERN f None (exposed_seed @ field_text) = exposed_seed @ field_text"
  by (rule no_match_Nil [OF exposed_no_match])
    (simp_all add: URL_CREDENTIAL_PATTERN_def field_text_def re_eval re_fails del: re_run.simps)

lemma bearer_pass: "re_replace BEARER_TOKEN_PATTERN f None (exposed_seed @ field_text) = exposed_seed @ field_text"
  by (rule no_match_Nil [OF exposed_no_match])
    (simp_all add: BEARER_TOKEN_PATTERN_def field_text_def re_eval re_fails del: re_run.simps)

lemma block_pass: "re_replace PRIVATE_KEY_BLOCK_PATTERN f None (exposed_seed @ field_text) = exposed_seed @ field_text"
  by (rule no_match_Nil [OF exposed_no_match])
    (simp_all add: PRIVATE_KEY_BLOCK_PATTERN_def field_text_def re_eval re_fails del: re_run.simps)

lemma key_value_pass: "re_replace KEY_VALUE_SECRET_PATTERN f None (exposed_seed @ redacted_field) = exposed_seed @ redacted_field"
  by (rule no_match_Nil [OF exposed_no_match])
    (simp_all add: KEY_VALUE_SECRET_PATTERN_def redacted_field_def re_eval re_fails del: re_run.simps)

lemma exposed_password: "no_match PASSWORD_FIELD_PATTERN exposed_seed field_text"
proof -
  have "no_match PASSWORD_FIELD_PATTERN (exposed_seed @ []) field_text"
    by (rule exposed_no_match) (simp_all add: PASSWORD_FIELD_PATTERN_def field_text_def re_eval re_fails del: re_run.simps)
  then show ?thesis by simp
qed

lemma seed_pass_nothing: "seed_pass None (exposed_seed @ field_text) = exposed_seed @ field_text"
proof -
  have w: "word_head field_text" by (simp add: field_text_def word_head_def word_char_def is_alnum_def is_alpha_def)
  have "\<not> seed_at None (exposed_seed @ field_text)"
    using w by (auto simp: seed_at_def exposed_seed_def append_eq_append_conv)
  then have "seed_pass None (exposed_seed @ field_text) = CHR ''S'' # seed_pass (Some (CHR ''S'')) (replicate 55 (CHR ''A'') @ field_text)"
    by (subst seed_pass_step) (simp add: exposed_seed_def)
  moreover have "no_match SECRET_KEY_PATTERN (replicate k (CHR ''A'') @ field_text) []" for k
    by (induction k) (auto simp: re_run_seed field_text_def dquote_def dest: seed_at_Cons)
  moreover have "\<not> seed_at q []" for q by (simp add: seed_at_def)
  ultimately show ?thesis
    using no_match_Nil [of SECRET_KEY_PATTERN "replicate 55 (CHR ''A'') @ field_text"] by (simp add: re_run_seed exposed_seed_def)
qed

text \<open>Evaluation from the left: what follows is looked at only for the matches there are.\<close>

definition re_then :: "'a list \<Rightarrow> ('a \<Rightarrow> 'b list) \<Rightarrow> 'b list" where
  "re_then ms k = concat (map k ms)"

lemma re_then_cong: "ms = ms' \<Longrightarrow> re_then ms k = re_then ms' k"
  by simp

lemma re_then_simps [simp]: "re_then [] k = []" "re_then (m # ms) k = k m @ re_then ms k"
  by (simp_all add: re_then_def)

lemma re_run_seq:
  "re_run (RSeq a b) q s = re_then (re_run a q s)
     (\<lambda>m. map (\<lambda>k. (fst m @ fst k, snd m @ snd k)) (re_run b (upto_char q (fst m)) (drop (length (fst m)) s)))"
  by (simp add: re_then_def)

lemma password_match: "re_run PASSWORD_FIELD_PATTERN q field_text = [(field_text, [(1, ''password'')])]"
  by (simp add: PASSWORD_FIELD_PATTERN_def field_text_def re_eval re_run_seq upto_char_def del: re_run.simps(4) cong: re_then_cong)

lemma password_pass_exposes_seed:
  "has_seed None (redactSensitiveText (exposed_seed @ ''password:'' @ dquote @ ''x'' @ dquote))"
proof -
  have ne: "field_text \<noteq> []" by (simp add: field_text_def)
  have "re_run PASSWORD_FIELD_PATTERN q [] = []" for q
    by (simp add: PASSWORD_FIELD_PATTERN_def re_eval re_fails del: re_run.simps)
  then have "re_replace PASSWORD_FIELD_PATTERN f q [] = []" for f q by (simp add: re_replace.simps [of _ _ _ "[]"] re_first_def)
  then have "re_replace PASSWORD_FIELD_PATTERN f q field_text = f [(1, ''password'')]" for f q
    by (subst re_replace.simps) (simp add: re_first_def password_match ne)
  then have pw: "re_replace PASSWORD_FIELD_PATTERN (\<lambda>g. dquote @ group_of 1 g @ dquote @ '':'' @ dquote @ ''[REDACTED]'' @ dquote) None
      (exposed_seed @ field_text) = exposed_seed @ redacted_field"
    using re_replace_no_match [OF exposed_password] by (simp add: group_of_def redacted_field_def)
  have "redactSensitiveText (exposed_seed @ field_text) = exposed_seed @ redacted_field"
    unfolding redactSensitiveText_def Let_def url_pass seed_pass_nothing bearer_pass block_pass pw key_value_pass ..
  moreover have "seed_at None (exposed_seed @ redacted_field)"
    unfolding seed_at_def exposed_seed_def
    by (intro conjI exI [of _ "replicate 55 (CHR ''A'')"] exI [of _ redacted_field])
      (simp_all add: word_opt_def word_head_def redacted_field_def dquote_def word_char_def is_alnum_def is_alpha_def is_digit_def
        upper_digit_def list_all_iff)
  ultimately show ?thesis unfolding has_seed_def field_text_def [symmetric]
    by (intro exI [of _ "[]"] exI [of _ "exposed_seed @ redacted_field"]) (simp add: upto_char_def)
qed

end
