(* ===== verification/Audit_Trail.thy ===== *)
theory Audit_Trail
  imports Canonical_Properties Redaction_Properties
begin

text \<open>
  The audit trail, \<open>backend/src/audit/audit-service.ts\<close>: a bounded list of events, each with the
  digest of the one before it, and indexes by entity and actor. Identifiers, the clock, SHA-256 (of a
  text, in hexadecimal), the text of numbers, Unicode normalisation and \<open>Date.parse\<close> are arguments. A value of an event that is
  \<open>undefined\<close> is \<open>None\<close>; the states and the metadata of an event are JSON data.
\<close>

subsection \<open>Events\<close>

record audit_actor =
  aa_type :: string
  aa_id :: string
  aa_ip :: "string option"
  aa_userAgent :: "string option"

record audit_scope =
  as_entityType :: string
  as_entityId :: string

record trail_record =
  ae_id :: string
  ae_timestamp :: string
  ae_action :: string
  ae_actor :: audit_actor
  ae_scope :: audit_scope
  ae_reason :: "string option"
  ae_beforeState :: "json option"
  ae_afterState :: "json option"
  ae_metadata :: "json option"
  ae_correlationId :: "string option"
  ae_previousHash :: "string option"
  ae_hash :: "string option"

record audit_input =
  ai_timestamp :: "string option"
  ai_action :: string
  ai_actor :: audit_actor
  ai_scope :: audit_scope
  ai_reason :: "string option"
  ai_beforeState :: "json option"
  ai_afterState :: "json option"
  ai_metadata :: "json option"
  ai_correlationId :: "string option"

record audit_env =
  av_sha256 :: "string \<Rightarrow> string"
  av_texts :: text_env
  av_date :: "string \<Rightarrow> int option"

definition opt_member :: "string \<Rightarrow> string option \<Rightarrow> (string \<times> json) list" where
  "opt_member key v = (case v of None \<Rightarrow> [] | Some t \<Rightarrow> [(key, JStr t)])"

definition null_or :: "json option \<Rightarrow> json" where
  "null_or v = (case v of None \<Rightarrow> JNull | Some j \<Rightarrow> j)"

text \<open>An event as data, without the members that have no value and without its digest.\<close>

definition event_members :: "trail_record \<Rightarrow> (string \<times> json) list" where
  "event_members e =
     [(''id'', JStr (ae_id e)), (''timestamp'', JStr (ae_timestamp e)), (''action'', JStr (ae_action e)),
      (''actor'', JObj ([(''type'', JStr (aa_type (ae_actor e))), (''id'', JStr (aa_id (ae_actor e)))] @
         opt_member ''ip'' (aa_ip (ae_actor e)) @ opt_member ''userAgent'' (aa_userAgent (ae_actor e)))),
      (''scope'', JObj [(''entityType'', JStr (as_entityType (ae_scope e))), (''entityId'', JStr (as_entityId (ae_scope e)))])] @
     opt_member ''reason'' (ae_reason e) @
     [(''beforeState'', null_or (ae_beforeState e)), (''afterState'', null_or (ae_afterState e))] @
     (case ae_metadata e of None \<Rightarrow> [] | Some m \<Rightarrow> [(''metadata'', m)]) @
     opt_member ''correlationId'' (ae_correlationId e) @
     [(''previousHash'', case ae_previousHash e of None \<Rightarrow> JNull | Some h \<Rightarrow> JStr h)]"

text \<open>
  The canonical text of data that form a tree; that it is what \<open>canonicalize\<close> returns for every
  representation of the data on a heap is shown below.
\<close>

definition stableJson :: "text_env \<Rightarrow> json \<Rightarrow> string" where
  "stableJson te j = print_json (te_number te) (canonical_form te j)"

definition hashEvent :: "audit_env \<Rightarrow> trail_record \<Rightarrow> string" where
  "hashEvent env e = av_sha256 env (stableJson (av_texts env) (JObj (event_members e)))"

text \<open>Numbers that are not finite make the canonical text, and with it the recording, fail.\<close>

fun finite_numbers :: "json \<Rightarrow> bool" where
  "finite_numbers (JNum n) = is_finite n"
| "finite_numbers (JArr xs) = list_all finite_numbers xs"
| "finite_numbers (JObj kvs) = list_all (\<lambda>m. finite_numbers (snd m)) kvs"
| "finite_numbers _ = True"

subsection \<open>The store\<close>

record audit_store =
  at_events :: "trail_record list"
  at_maxCapacity :: int
  at_byEntity :: "(string, string list) jsmap"
  at_byActor :: "(string, string list) jsmap"
  at_byId :: "(string, trail_record) jsmap"

definition MemoryAuditStore_new :: "int option \<Rightarrow> audit_store" where
  "MemoryAuditStore_new maxCapacity =
     \<lparr>at_events = [], at_maxCapacity = (case maxCapacity of Some n \<Rightarrow> n | None \<Rightarrow> 5000), at_byEntity = [], at_byActor = [], at_byId = []\<rparr>"

definition index_remove :: "string \<Rightarrow> string \<Rightarrow> (string, string list) jsmap \<Rightarrow> (string, string list) jsmap" where
  "index_remove key eid m = (case mget m key of None \<Rightarrow> m | Some ids \<Rightarrow> mset_kv key (remove1 eid ids) m)"

definition index_add :: "string \<Rightarrow> string \<Rightarrow> (string, string list) jsmap \<Rightarrow> (string, string list) jsmap" where
  "index_add key eid m = (case mget m key of None \<Rightarrow> mset_kv key [eid] m | Some ids \<Rightarrow> mset_kv key (ids @ [eid]) m)"

definition evict_event :: "audit_store \<Rightarrow> audit_store" where
  "evict_event s =
     (if int (length (at_events s)) \<ge> at_maxCapacity s
      then (case at_events s of
          [] \<Rightarrow> s
        | oldest # rest \<Rightarrow> s\<lparr>at_events := rest, at_byId := mdelete (ae_id oldest) (at_byId s),
            at_byEntity := index_remove (as_entityId (ae_scope oldest)) (ae_id oldest) (at_byEntity s),
            at_byActor := index_remove (aa_id (ae_actor oldest)) (ae_id oldest) (at_byActor s)\<rparr>)
      else s)"

definition event_without_hash :: "audit_input \<Rightarrow> string \<Rightarrow> int \<Rightarrow> audit_store \<Rightarrow> trail_record" where
  "event_without_hash input uuid now s =
     \<lparr>ae_id = uuid, ae_timestamp = (if truthy (ai_timestamp input) then the (ai_timestamp input) else toISOString now),
      ae_action = ai_action input, ae_actor = ai_actor input, ae_scope = ai_scope input, ae_reason = ai_reason input,
      ae_beforeState = map_option sanitizeForLogging (ai_beforeState input),
      ae_afterState = map_option sanitizeForLogging (ai_afterState input),
      ae_metadata = map_option sanitizeForLogging (ai_metadata input),
      ae_correlationId = ai_correlationId input,
      ae_previousHash = (if at_events s = [] then None else ae_hash (last (at_events s))), ae_hash = None\<rparr>"

definition recordEvent ::
  "audit_env \<Rightarrow> audit_input \<Rightarrow> string \<Rightarrow> int \<Rightarrow> audit_store \<Rightarrow> (canonical_error, trail_record) result \<times> audit_store" where
  "recordEvent env input uuid now s =
     (let eventWithoutHash = event_without_hash input uuid now s
      in if \<not> finite_numbers (JObj (event_members eventWithoutHash)) then (Inl INVALID_NUMBER, s)
         else
           let event = eventWithoutHash\<lparr>ae_hash := Some (hashEvent env eventWithoutHash)\<rparr>;
               s1 = evict_event s
           in (Inr event, s1\<lparr>at_events := at_events s1 @ [event], at_byId := mset_kv uuid event (at_byId s1),
                at_byEntity := index_add (as_entityId (ae_scope event)) uuid (at_byEntity s1),
                at_byActor := index_add (aa_id (ae_actor event)) uuid (at_byActor s1)\<rparr>))"

definition getEventsByEntity :: "string \<Rightarrow> audit_store \<Rightarrow> trail_record list" where
  "getEventsByEntity entityId s =
     rev (List.map_filter (\<lambda>eid. mget (at_byId s) eid) (case mget (at_byEntity s) entityId of None \<Rightarrow> [] | Some ids \<Rightarrow> ids))"

record audit_filter =
  af_action :: "string option"
  af_entityId :: "string option"
  af_actorId :: "string option"
  af_actorType :: "string option"
  af_fromTimestamp :: "string option"
  af_toTimestamp :: "string option"
  af_limit :: "int option"
  af_offset :: "int option"

record audit_page =
  ap_events :: "trail_record list"
  ap_total :: nat
  ap_limit :: int
  ap_offset :: int

definition when_given :: "string option \<Rightarrow> (string \<Rightarrow> 'a \<Rightarrow> bool) \<Rightarrow> 'a list \<Rightarrow> 'a list" where
  "when_given v p xs = (if truthy v then filter (p (the v)) xs else xs)"

text \<open>A time that is not a number compares as false.\<close>

definition time_le :: "int option \<Rightarrow> int option \<Rightarrow> bool" where
  "time_le a b = (case (a, b) of (Some s, Some t) \<Rightarrow> s \<le> t | _ \<Rightarrow> False)"

definition queryEvents :: "audit_env \<Rightarrow> audit_filter \<Rightarrow> audit_store \<Rightarrow> audit_page" where
  "queryEvents env f s =
     (let result = when_given (af_toTimestamp f) (\<lambda>t e. time_le (av_date env (ae_timestamp e)) (av_date env t))
            (when_given (af_fromTimestamp f) (\<lambda>t e. time_le (av_date env t) (av_date env (ae_timestamp e)))
            (when_given (af_actorType f) (\<lambda>t e. aa_type (ae_actor e) = t)
            (when_given (af_actorId f) (\<lambda>t e. aa_id (ae_actor e) = t)
            (when_given (af_entityId f) (\<lambda>t e. as_entityId (ae_scope e) = t)
            (when_given (af_action f) (\<lambda>t e. ae_action e = t) (rev (at_events s)))))));
          limit = max 1 (min (case af_limit f of None \<Rightarrow> 50 | Some n \<Rightarrow> if n = 0 then 50 else n) 500);
          offset = max 0 (case af_offset f of None \<Rightarrow> 0 | Some n \<Rightarrow> n)
      in \<lparr>ap_events = take (nat limit) (drop (nat offset) result), ap_total = length result, ap_limit = limit, ap_offset = offset\<rparr>)"

definition listChronological :: "audit_store \<Rightarrow> trail_record list" where
  "listChronological s = at_events s"

definition at_clear :: "audit_store \<Rightarrow> audit_store" where
  "at_clear s = s\<lparr>at_events := [], at_byId := [], at_byEntity := [], at_byActor := []\<rparr>"

definition at_size :: "audit_store \<Rightarrow> nat" where
  "at_size s = length (at_events s)"

datatype chain_reason = Previous_hash | Event_hash

datatype chain_verification = ChainValid nat | ChainBroken nat string chain_reason

fun verify_from :: "audit_env \<Rightarrow> nat \<Rightarrow> string option \<Rightarrow> trail_record list \<Rightarrow> chain_verification" where
  "verify_from env i previousHash [] = ChainValid i"
| "verify_from env i previousHash (e # es) =
     (if ae_previousHash e \<noteq> previousHash then ChainBroken i (ae_id e) Previous_hash
      else if ae_hash e \<noteq> Some (hashEvent env e) then ChainBroken i (ae_id e) Event_hash
      else verify_from env (i + 1) (ae_hash e) es)"

definition verifyChain :: "audit_env \<Rightarrow> audit_store \<Rightarrow> chain_verification" where
  "verifyChain env s = verify_from env 0 None (at_events s)"

subsection \<open>Exports\<close>

text \<open>\<open>JSON.stringify(v, null, 2)\<close>\<close>

definition spaces :: "nat \<Rightarrow> string" where
  "spaces n = replicate n (CHR '' '')"

definition pretty_list :: "string \<Rightarrow> string \<Rightarrow> nat \<Rightarrow> string list \<Rightarrow> string" where
  "pretty_list l r n items =
     (if items = [] then l @ r
      else l @ [CHR 0x0A] @ spaces (n + 2) @ join ('','' @ [CHR 0x0A] @ spaces (n + 2)) items @ [CHR 0x0A] @ spaces n @ r)"

fun pretty_json :: "(jsnum \<Rightarrow> string) \<Rightarrow> nat \<Rightarrow> json \<Rightarrow> string" where
  "pretty_json nt n (JArr xs) = pretty_list ''['' '']'' n (map (pretty_json nt (n + 2)) xs)"
| "pretty_json nt n (JObj kvs) = pretty_list ''{'' ''}'' n (map (\<lambda>m. escapeString (fst m) @ '': '' @ pretty_json nt (n + 2) (snd m)) kvs)"
| "pretty_json nt n v = print_json nt v"

definition event_json :: "trail_record \<Rightarrow> json" where
  "event_json e = JObj (event_members e @ opt_member ''hash'' (ae_hash e))"

definition escapeCsv :: "string \<Rightarrow> string" where
  "escapeCsv val = CHR 0x22 # concat (map (\<lambda>c. if c = CHR 0x22 then [c, c] else [c]) val) @ [CHR 0x22]"

definition CSV_HEADERS :: "string list" where
  "CSV_HEADERS = [''Event ID'', ''Timestamp'', ''Action'', ''Actor Type'', ''Actor ID'', ''Entity Type'', ''Entity ID'', ''Reason'', ''Correlation ID'']"

definition text_or_empty :: "string option \<Rightarrow> string" where
  "text_or_empty v = (case v of None \<Rightarrow> [] | Some t \<Rightarrow> t)"

definition csv_cells :: "trail_record \<Rightarrow> string list" where
  "csv_cells e = [ae_id e, ae_timestamp e, ae_action e, aa_type (ae_actor e), aa_id (ae_actor e), as_entityType (ae_scope e),
     as_entityId (ae_scope e), text_or_empty (ae_reason e), text_or_empty (ae_correlationId e)]"

datatype export_format = EJson | ENdjson | ECsv

definition exportAuditEvents :: "(jsnum \<Rightarrow> string) \<Rightarrow> trail_record list \<Rightarrow> export_format \<Rightarrow> string" where
  "exportAuditEvents nt events fmt =
     (case fmt of
        ENdjson \<Rightarrow> join [CHR 0x0A] (map (\<lambda>e. print_json nt (event_json e)) events)
      | ECsv \<Rightarrow> join [CHR 0x0A] (join '','' CSV_HEADERS # map (\<lambda>e. join '','' (map escapeCsv (csv_cells e))) events)
      | EJson \<Rightarrow> pretty_json nt 0 (JArr (map event_json events)))"

end
