(* ===== verification/Audit_Properties.thy ===== *)
theory Audit_Properties
  imports Audit_Trail
begin

text \<open>
  What the audit trail guarantees: the indexes list exactly the retained events, the states and the
  metadata that are retained are redacted, and the digests tie the events together. The check of the chain holds until the first
  event is dropped, and never after.
\<close>

lemma stableJson_canonicalize: "stands_for h v j \<Longrightarrow> plain j \<Longrightarrow> canonicalize te h v = Inr (stableJson te j)"
  using serialize_denotes [of h v j "[]" te] by (simp add: canonicalize_def stableJson_def)

subsection \<open>Chains\<close>

definition tail_hash :: "string option \<Rightarrow> trail_record list \<Rightarrow> string option" where
  "tail_hash p es = (if es = [] then p else ae_hash (last es))"

lemma verify_append:
  "verify_from env i p (xs @ ys) = ChainValid n \<longleftrightarrow>
     verify_from env i p xs = ChainValid (i + length xs) \<and> verify_from env (i + length xs) (tail_hash p xs) ys = ChainValid n"
proof (induction xs arbitrary: i p)
  case (Cons e xs)
  have "tail_hash p (e # xs) = tail_hash (ae_hash e) xs" by (simp add: tail_hash_def)
  then show ?case using Cons [of "i + 1" "ae_hash e"] by auto
qed (simp add: tail_hash_def)

lemma verify_valid_count: "verify_from env i p es = ChainValid n \<Longrightarrow> n = i + length es"
  by (induction es arbitrary: i p) (fastforce split: if_splits)+

lemma valid_hash: "verify_from env i p es = ChainValid n \<Longrightarrow> es \<noteq> [] \<Longrightarrow> tail_hash p es = Some (hashEvent env (last es))"
proof (induction es arbitrary: i p)
  case (Cons e es)
  then have v: "verify_from env (i + 1) (ae_hash e) es = ChainValid n" "ae_hash e = Some (hashEvent env e)" by (auto split: if_splits)
  show ?case
  proof (cases "es = []")
    case False
    then show ?thesis using Cons.IH [OF v(1)] by (simp add: tail_hash_def)
  qed (simp add: tail_hash_def v(2))
qed simp

text \<open>A chain that goes on after a part of it was dropped is refused at its first event.\<close>

lemma dropped_chain_broken:
  assumes "verify_from env 0 None (xs @ e # ys) = ChainValid n" and "xs \<noteq> []"
  shows "verify_from env 0 None (e # ys) = ChainBroken 0 (ae_id e) Previous_hash"
proof -
  have "verify_from env 0 None xs = ChainValid (length xs)"
    and e: "verify_from env (length xs) (tail_hash None xs) (e # ys) = ChainValid n"
    using assms(1) verify_append [of env 0 None xs "e # ys" n] by simp_all
  then have "tail_hash None xs \<noteq> None" using valid_hash [OF _ assms(2)] by fastforce
  moreover have "ae_previousHash e = tail_hash None xs" using e by (auto split: if_splits)
  ultimately show ?thesis by simp
qed

subsection \<open>Runs\<close>

text \<open>All events ever recorded, oldest first, and the store. Identifiers are fresh.\<close>

inductive audit_run :: "audit_env \<Rightarrow> int \<Rightarrow> trail_record list \<Rightarrow> audit_store \<Rightarrow> bool" for env cap where
  start: "audit_run env cap [] (MemoryAuditStore_new (Some cap))"
| recorded: "audit_run env cap h s \<Longrightarrow> uuid \<notin> ae_id ` set (at_events s) \<Longrightarrow> recordEvent env input uuid now s = (Inr e, s') \<Longrightarrow>
    audit_run env cap (h @ [e]) s'"
| failed: "audit_run env cap h s \<Longrightarrow> recordEvent env input uuid now s = (Inl err, s') \<Longrightarrow> audit_run env cap h s'"

definition ids_under :: "(string, string list) jsmap \<Rightarrow> string \<Rightarrow> string list" where
  "ids_under m x = (case mget m x of None \<Rightarrow> [] | Some ids \<Rightarrow> ids)"

lemma ids_under_add: "ids_under (index_add k i m) x = ids_under m x @ (if x = k then [i] else [])"
  by (auto simp: ids_under_def index_add_def split: option.splits)

lemma ids_under_remove: "ids_under (index_remove k i m) x = (if x = k then remove1 i (ids_under m x) else ids_under m x)"
  by (auto simp: ids_under_def index_remove_def split: option.splits)

text \<open>The two states and the metadata are redacted; nothing else of an event is.\<close>

definition states_redacted :: "trail_record \<Rightarrow> bool" where
  "states_redacted e \<longleftrightarrow> (\<forall>j. ae_beforeState e = Some j \<or> ae_afterState e = Some j \<or> ae_metadata e = Some j \<longrightarrow> redacted j)"

definition indexes_ok :: "audit_store \<Rightarrow> bool" where
  "indexes_ok s \<longleftrightarrow> distinct (map ae_id (at_events s)) \<and>
     (\<forall>x. mget (at_byId s) x = map_of (map (\<lambda>e. (ae_id e, e)) (at_events s)) x) \<and>
     (\<forall>x. ids_under (at_byEntity s) x = map ae_id (filter (\<lambda>e. as_entityId (ae_scope e) = x) (at_events s))) \<and>
     (\<forall>x. ids_under (at_byActor s) x = map ae_id (filter (\<lambda>e. aa_id (ae_actor e) = x) (at_events s)))"

lemma evict_indexes: "indexes_ok s \<Longrightarrow> indexes_ok (evict_event s)"
proof (cases "at_events s")
  case (Cons o1 rest)
  assume ok: "indexes_ok s"
  then have "ae_id o1 \<notin> ae_id ` set rest" by (simp add: indexes_ok_def Cons)
  then have "map_of (map (\<lambda>e. (ae_id e, e)) rest) (ae_id o1) = None" by (auto simp: map_of_eq_None_iff)
  then show ?thesis using ok by (auto simp: indexes_ok_def evict_event_def Cons ids_under_remove)
qed (simp add: evict_event_def)

lemma evict_events: "at_maxCapacity (evict_event s) = at_maxCapacity s"
  "at_events (evict_event s) = (if int (length (at_events s)) \<ge> at_maxCapacity s then tl (at_events s) else at_events s)"
  by (auto simp: evict_event_def split: list.split)

lemma add_indexes:
  assumes "indexes_ok s" and "ae_id e \<notin> ae_id ` set (at_events s)"
  shows "indexes_ok (s\<lparr>at_events := at_events s @ [e], at_byId := mset_kv (ae_id e) e (at_byId s),
      at_byEntity := index_add (as_entityId (ae_scope e)) (ae_id e) (at_byEntity s),
      at_byActor := index_add (aa_id (ae_actor e)) (ae_id e) (at_byActor s)\<rparr>)"
proof -
  have "map_of (map (\<lambda>e. (ae_id e, e)) (at_events s)) (ae_id e) = None" using assms(2) by (auto simp: map_of_eq_None_iff)
  then show ?thesis using assms by (auto simp: indexes_ok_def ids_under_add map_add_def split: option.split)
qed

lemma recordEvent_cases:
  assumes "recordEvent env input uuid now s = (Inr e, s')"
  shows "e = (event_without_hash input uuid now s)\<lparr>ae_hash := Some (hashEvent env (event_without_hash input uuid now s))\<rparr>"
    and "s' = (let s1 = evict_event s in s1\<lparr>at_events := at_events s1 @ [e], at_byId := mset_kv (ae_id e) e (at_byId s1),
      at_byEntity := index_add (as_entityId (ae_scope e)) (ae_id e) (at_byEntity s1),
      at_byActor := index_add (aa_id (ae_actor e)) (ae_id e) (at_byActor s1)\<rparr>)"
  using assms by (auto simp: recordEvent_def Let_def event_without_hash_def split: if_splits)

lemma recordEvent_redacted: "recordEvent env input uuid now s = (Inr e, s') \<Longrightarrow> states_redacted e"
  by (drule recordEvent_cases(1)) (auto simp: states_redacted_def event_without_hash_def sanitizeForLogging_def sanitizeObject_redacted)

text \<open>The reason, the correlation and the actor's address and agent are stored as they are given.\<close>

lemma recordEvent_verbatim:
  "recordEvent env input uuid now s = (Inr e, s') \<Longrightarrow>
     ae_reason e = ai_reason input \<and> ae_correlationId e = ai_correlationId input \<and> ae_actor e = ai_actor input"
  by (drule recordEvent_cases(1)) (simp add: event_without_hash_def)

lemma hashEvent_hash [simp]: "hashEvent env (e\<lparr>ae_hash := h\<rparr>) = hashEvent env e"
  by (simp add: hashEvent_def event_members_def)

lemma recordEvent_failed: "recordEvent env input uuid now s = (Inl err, s') \<Longrightarrow> s' = s"
  by (auto simp: recordEvent_def Let_def split: if_splits)

lemma run_state:
  assumes "audit_run env cap h s" and "1 \<le> cap"
  shows "at_maxCapacity s = cap \<and> at_events s = drop (length h - nat cap) h \<and> indexes_ok s \<and>
    (\<forall>e\<in>set h. states_redacted e) \<and> verify_from env 0 None h = ChainValid (length h)"
  using assms
proof (induction rule: audit_run.induct)
  case start
  then show ?case by (simp add: MemoryAuditStore_new_def indexes_ok_def ids_under_def)
next
  case (recorded h s uuid input now e s')
  then have ih: "at_maxCapacity s = cap" "at_events s = drop (length h - nat cap) h" "indexes_ok s"
    "\<forall>e\<in>set h. states_redacted e" "verify_from env 0 None h = ChainValid (length h)" by simp_all
  note r = recordEvent_cases [OF recorded.hyps(3)]
  have uid: "ae_id e = uuid" by (simp add: r(1) event_without_hash_def)
  have sub: "set (at_events (evict_event s)) \<subseteq> set (at_events s)" by (cases "at_events s") (auto simp: evict_events)
  then have "ae_id e \<notin> ae_id ` set (at_events (evict_event s))" using recorded.hyps(2) uid by blast
  then have ix: "indexes_ok s'" using add_indexes [OF evict_indexes [OF ih(3)]] by (simp add: r(2) Let_def)
  have ev: "at_events s' = drop (length (h @ [e]) - nat cap) (h @ [e])"
  proof (cases "int (length (at_events s)) \<ge> cap")
    case True
    then have "cap \<le> int (length h)" using ih(2) recorded.prems by (simp add: le_diff_conv split: nat_diff_split)
    then show ?thesis using True recorded.prems
      by (simp add: r(2) Let_def evict_events ih(1,2) Suc_diff_le tl_drop drop_Suc)
  next
    case False
    then have "length h < nat cap" using ih(2) recorded.prems by (auto split: nat_diff_split)
    then show ?thesis using False by (simp add: r(2) Let_def evict_events ih(1,2))
  qed
  have "0 < nat cap" using recorded.prems by simp
  then have "h \<noteq> [] \<Longrightarrow> length h - nat cap < length h" by simp
  then have "at_events s = [] \<longleftrightarrow> h = []" "h \<noteq> [] \<Longrightarrow> last (at_events s) = last h" using ih(2) by (cases "h = []"; simp add: last_drop)+
  then have ph: "ae_previousHash e = tail_hash None h" by (simp add: r(1) event_without_hash_def tail_hash_def)
  have "ae_hash e = Some (hashEvent env e)" by (simp add: r(1))
  then have ch: "verify_from env 0 None (h @ [e]) = ChainValid (length (h @ [e]))"
    using ih(5) ph by (simp add: verify_append)
  show ?case using ih(1) ev ix ch ih(4) recordEvent_redacted [OF recorded.hyps(3)] by (simp add: r(2) Let_def evict_events)
next
  case (failed h s input uuid now err s')
  then show ?case using recordEvent_failed [OF failed.hyps(2)] by simp
qed

lemma map_filter_ids:
  "distinct (map ae_id es) \<Longrightarrow> set fs \<subseteq> set es \<Longrightarrow>
     List.map_filter (\<lambda>i. map_of (map (\<lambda>e. (ae_id e, e)) es) i) (map ae_id fs) = fs"
proof (induction fs)
  case (Cons e fs)
  have "map_of (map (\<lambda>e. (ae_id e, e)) es) (ae_id e) = Some e"
    using Cons.prems by (intro map_of_is_SomeI) (auto simp: comp_def)
  then show ?case using Cons by (simp add: List.map_filter_def)
qed (simp add: List.map_filter_def)

lemma byId_lookup:
  assumes "indexes_ok s"
  shows "mget (at_byId s) x = List.find (\<lambda>e. ae_id e = x) (at_events s)"
proof -
  have "map_of (map (\<lambda>e. (ae_id e, e)) es) x = List.find (\<lambda>e. ae_id e = x) es" for es
    by (induction es) auto
  then show ?thesis using assms unfolding indexes_ok_def by simp
qed

text \<open>
  C21: the audit trail retains exactly the last events, as many as its capacity, with different
  identifiers. Each of its three indexes lists exactly the retained events, whatever was dropped before:
  looking an entity up gives the retained events of the entity, newest first, the index by identifier
  gives the retained event of that identifier, and the index by actor the identifiers of the
  retained events of the actor, oldest first. In the two states and the metadata of everything that is
  retained secrets are redacted; the reason, the correlation and the actor's address and agent are
  stored as they were given.
\<close>

theorem audit_trail_exact:
  assumes "audit_run env cap h s" and "1 \<le> cap"
  shows "at_events s = drop (length h - nat cap) h \<and> distinct (map ae_id (at_events s)) \<and>
    (\<forall>x. getEventsByEntity x s = filter (\<lambda>e. as_entityId (ae_scope e) = x) (rev (at_events s))) \<and>
    (\<forall>x. mget (at_byId s) x = List.find (\<lambda>e. ae_id e = x) (at_events s)) \<and>
    (\<forall>x. ids_under (at_byActor s) x = map ae_id (filter (\<lambda>e. aa_id (ae_actor e) = x) (at_events s))) \<and>
    (\<forall>e\<in>set (at_events s). states_redacted e)"
proof -
  note r = run_state [OF assms]
  then have ok: "indexes_ok s" by simp
  have ix: "mget (at_byId s) = map_of (map (\<lambda>e. (ae_id e, e)) (at_events s))"
    "ids_under (at_byEntity s) x = map ae_id (filter (\<lambda>e. as_entityId (ae_scope e) = x) (at_events s))" for x
    using ok unfolding indexes_ok_def by blast+
  have "getEventsByEntity x s = filter (\<lambda>e. as_entityId (ae_scope e) = x) (rev (at_events s))" for x
  proof -
    have "getEventsByEntity x s = rev (List.map_filter (\<lambda>i. map_of (map (\<lambda>e. (ae_id e, e)) (at_events s)) i)
        (map ae_id (filter (\<lambda>e. as_entityId (ae_scope e) = x) (at_events s))))"
      unfolding getEventsByEntity_def ids_under_def [symmetric] ix ..
    also have "\<dots> = rev (filter (\<lambda>e. as_entityId (ae_scope e) = x) (at_events s))"
      using ok by (subst map_filter_ids) (auto simp: indexes_ok_def)
    finally show ?thesis by (simp add: rev_filter)
  qed
  moreover have "\<forall>e\<in>set (at_events s). states_redacted e" using r by (metis in_set_dropD)
  moreover have "distinct (map ae_id (at_events s))"
    "\<forall>x. ids_under (at_byActor s) x = map ae_id (filter (\<lambda>e. aa_id (ae_actor e) = x) (at_events s))"
    using ok unfolding indexes_ok_def by blast+
  ultimately show ?thesis using r byId_lookup [OF ok] by (intro conjI allI) simp_all
qed

text \<open>
  C40: the check of the chain succeeds exactly as long as no event was dropped. From the first
  event that is dropped on it reports a broken chain at the oldest retained event, although nothing was
  tampered with.
\<close>

theorem audit_chain_until_full:
  assumes "audit_run env cap h s" and "1 \<le> cap"
  shows "verifyChain env s = (if int (length h) \<le> cap then ChainValid (length h)
     else ChainBroken 0 (ae_id (h ! (length h - nat cap))) Previous_hash)"
proof (cases "int (length h) \<le> cap")
  case True
  then show ?thesis using run_state [OF assms] by (simp add: verifyChain_def)
next
  case False
  define k where "k = length h - nat cap"
  have k: "0 < k" "k < length h" using False assms(2) by (auto simp: k_def)
  have "drop k h = h ! k # drop (Suc k) h" using k by (simp add: Cons_nth_drop_Suc)
  moreover from this have "h = take k h @ h ! k # drop (Suc k) h" by (metis append_take_drop_id)
  moreover have "take k h \<noteq> []" using k by auto
  ultimately have "verify_from env 0 None (drop k h) = ChainBroken 0 (ae_id (h ! k)) Previous_hash"
    using dropped_chain_broken [of env "take k h" "h ! k" "drop (Suc k) h" "length h"] run_state [OF assms] by simp
  then show ?thesis using False run_state [OF assms] by (simp add: verifyChain_def k_def)
qed

subsection \<open>Tampering\<close>

abbreviation event_data :: "trail_record \<Rightarrow> json" where
  "event_data e \<equiv> JObj (event_members e)"

text \<open>Normalisation leaves ASCII texts as they are.\<close>

definition keeps_ascii :: "(string \<Rightarrow> string) \<Rightarrow> bool" where
  "keeps_ascii nfc \<longleftrightarrow> (\<forall>s. ascii s \<longrightarrow> nfc s = s)"

lemma event_keys: "m \<in> set (event_members e) \<Longrightarrow> ascii (fst m) \<and> (fst m = ''previousHash'' \<longrightarrow>
    snd m = (case ae_previousHash e of None \<Rightarrow> JNull | Some h \<Rightarrow> JStr h))"
  by (auto simp: event_members_def opt_member_def ascii_def split: option.splits)

lemma form_members:
  assumes "canonical_form te (JObj kvs) = JObj ms"
  shows "set ms = (\<lambda>m. (te_nfc te (fst m), canonical_form te (snd m))) ` set kvs"
proof -
  have "ms = map (\<lambda>m. (te_nfc te (fst m), normed (te_nfc te) (snd m))) (sort_by key_cmp (map (\<lambda>m. (fst m, sort_keys (snd m))) kvs))"
    using assms by (simp add: canonical_form_def)
  then show ?thesis by (simp only: set_map set_sort_by image_image canonical_form_def fst_conv snd_conv)
qed

lemma same_previous:
  assumes "keeps_ascii (te_nfc te)" and "canonical_form te (event_data a) = canonical_form te (event_data b)"
    and "pred_option ascii (ae_previousHash a)" and "pred_option ascii (ae_previousHash b)"
  shows "ae_previousHash a = ae_previousHash b"
proof -
  define f :: "string option \<Rightarrow> json" where "f = (\<lambda>h. case h of None \<Rightarrow> JNull | Some t \<Rightarrow> JStr t)"
  let ?n = "\<lambda>m. (te_nfc te (fst m), canonical_form te (snd m))"
  have key: "te_nfc te (fst m) = fst m" if "m \<in> set (event_members e)" for m e
    using event_keys [OF that] assms(1) by (simp add: keeps_ascii_def)
  have pa: "(''previousHash'', f (ae_previousHash a)) \<in> set (event_members a)" by (simp add: event_members_def f_def)
  have "canonical_form te (f p) = f p" if "pred_option ascii p" for p
    using that assms(1) by (cases p) (simp_all add: f_def keeps_ascii_def)
  note fp = this [OF assms(3)] this [OF assms(4)]
  obtain ms where ms: "canonical_form te (event_data a) = JObj ms" by (simp add: canonical_form_def)
  have "?n (''previousHash'', f (ae_previousHash a)) \<in> set ms"
    unfolding form_members [OF ms] by (rule imageI) (rule pa)
  then obtain m where m: "m \<in> set (event_members b)" "?n (''previousHash'', f (ae_previousHash a)) = ?n m"
    using form_members [OF ms [unfolded assms(2)]] by auto
  then have "fst m = ''previousHash''" using key [OF m(1)] key [OF pa] by simp
  then have "snd m = f (ae_previousHash b)" using event_keys [OF m(1)] by (simp add: f_def)
  then have "f (ae_previousHash a) = f (ae_previousHash b)" using m(2) fp by simp
  then show ?thesis by (auto simp: f_def split: option.splits)
qed

lemma snoc_valid:
  "verify_from env 0 None (es @ [e]) = ChainValid n \<Longrightarrow>
     verify_from env 0 None es = ChainValid (length es) \<and> ae_previousHash e = tail_hash None es \<and> ae_hash e = Some (hashEvent env e)"
  by (auto simp: verify_append split: if_splits)

lemma valid_tail_ascii:
  assumes "\<forall>t. ascii (av_sha256 env t)" and "verify_from env 0 None es = ChainValid n"
  shows "pred_option ascii (tail_hash None es)"
proof (cases "es = []")
  case False
  then show ?thesis using valid_hash [OF assms(2)] assms(1) by (simp add: hashEvent_def)
qed (simp add: tail_hash_def)

lemma trails_agree:
  assumes "number_text (te_number (av_texts env))" and "keeps_ascii (te_nfc (av_texts env))" and "\<forall>t. ascii (av_sha256 env t)"
    and "inj_on (av_sha256 env) ((\<lambda>e. stableJson (av_texts env) (event_data e)) ` (set es \<union> set es'))"
    and "\<forall>e\<in>set es \<union> set es'. plain (event_data e)"
    and "verify_from env 0 None es = ChainValid n" and "verify_from env 0 None es' = ChainValid n'"
    and "tail_hash None es = tail_hash None es'"
  shows "list_all2 (\<lambda>a b. canonical_form (av_texts env) (event_data a) = canonical_form (av_texts env) (event_data b)) es es'"
  using assms(4-8)
proof (induction es arbitrary: es' n n' rule: rev_induct)
  case Nil
  then have "es' = []" using valid_hash [of env 0 None es' n'] by (cases "es' = []") (auto simp: tail_hash_def [of None "[]"])
  then show ?case by simp
next
  case (snoc a es)
  have a: "verify_from env 0 None es = ChainValid (length es)" "ae_previousHash a = tail_hash None es" "ae_hash a = Some (hashEvent env a)"
    using snoc_valid [OF snoc.prems(3)] by simp_all
  have "es' \<noteq> []" using snoc.prems(5) a(3) by (auto simp: tail_hash_def)
  then obtain fs b where fs: "es' = fs @ [b]" by (metis rev_exhaust)
  have b: "verify_from env 0 None fs = ChainValid (length fs)" "ae_previousHash b = tail_hash None fs" "ae_hash b = Some (hashEvent env b)"
    using snoc_valid [OF snoc.prems(4) [unfolded fs]] by simp_all
  have "hashEvent env a = hashEvent env b" using snoc.prems(5) a(3) b(3) by (simp add: fs tail_hash_def)
  then have "stableJson (av_texts env) (event_data a) = stableJson (av_texts env) (event_data b)"
    unfolding hashEvent_def by (rule inj_onD [OF snoc.prems(1)]) (simp_all add: fs)
  moreover have "plain (event_data a)" "plain (event_data b)" using snoc.prems(2) unfolding fs by simp_all
  ultimately have same: "canonical_form (av_texts env) (event_data a) = canonical_form (av_texts env) (event_data b)"
    using canonical_text_unique [OF assms(1)] unfolding stableJson_def by blast
  have "list_all2 (\<lambda>a b. canonical_form (av_texts env) (event_data a) = canonical_form (av_texts env) (event_data b)) es fs"
  proof (rule snoc.IH)
    show "inj_on (av_sha256 env) ((\<lambda>e. stableJson (av_texts env) (event_data e)) ` (set es \<union> set fs))"
      using snoc.prems(1) by (rule inj_on_subset) (auto simp: fs)
    show "tail_hash None es = tail_hash None fs"
      using same_previous [OF assms(2) same] valid_tail_ascii [OF assms(3) a(1)] valid_tail_ascii [OF assms(3) b(1)] a(2) b(2) by simp
  qed (use snoc.prems(2) a(1) b(1) in \<open>auto simp: fs\<close>)
  then show ?case using same by (simp add: fs list_all2_appendI)
qed

text \<open>
  C22: the digest of the last event pins down the whole trail. Take two trails without dates in their
  states that both pass the check and end with the same digest. If SHA-256 does not collide on the
  texts of their events, they hold the same events, one by one, up to the order of keys in their
  states and the Unicode normal form of strings and keys; so no event can be changed beyond that, inserted
  or left out behind a digest that was written down. Where the keys are in normal form already, only the
  order of keys and the normal form of strings can differ.
\<close>

theorem audit_tamper_evident:
  assumes "number_text (te_number (av_texts env))" and "keeps_ascii (te_nfc (av_texts env))" and "\<forall>t. ascii (av_sha256 env t)"
    and "inj_on (av_sha256 env) ((\<lambda>e. stableJson (av_texts env) (event_data e)) ` (set es \<union> set es'))"
    and "\<forall>e\<in>set es \<union> set es'. plain (event_data e)"
    and "verify_from env 0 None es = ChainValid n" and "verify_from env 0 None es' = ChainValid n'"
    and "tail_hash None es = tail_hash None es'"
  shows "list_all2 (\<lambda>a b. canonical_form (av_texts env) (event_data a) = canonical_form (av_texts env) (event_data b) \<and>
    (keys_normal (te_nfc (av_texts env)) (event_data a) \<and> keys_normal (te_nfc (av_texts env)) (event_data b) \<longrightarrow>
     same_data (normed (te_nfc (av_texts env)) (event_data a)) (normed (te_nfc (av_texts env)) (event_data b)))) es es'"
proof (rule list.rel_mono_strong [OF trails_agree [OF assms]], intro conjI impI)
  fix a b
  assume ab: "a \<in> set es" "b \<in> set es'" "canonical_form (av_texts env) (event_data a) = canonical_form (av_texts env) (event_data b)"
    "keys_normal (te_nfc (av_texts env)) (event_data a) \<and> keys_normal (te_nfc (av_texts env)) (event_data b)"
  have pl: "plain (event_data a)" "plain (event_data b)" using assms(5) ab(1,2) by blast+
  show "same_data (normed (te_nfc (av_texts env)) (event_data a)) (normed (te_nfc (av_texts env)) (event_data b))"
    using canonical_form_same [OF pl] ab(3,4) by blast
qed

subsection \<open>Exports\<close>

text \<open>A reader of comma-separated values: whether it is inside quotes, the cell and the row so far, the text.\<close>

fun csv_read :: "bool \<Rightarrow> string \<Rightarrow> string list \<Rightarrow> string \<Rightarrow> string list list" where
  "csv_read q cell row [] = [row @ [cell]]"
| "csv_read True cell row (c # t) =
     (if c = CHR 0x22 then (case t of
          d # t' \<Rightarrow> if d = CHR 0x22 then csv_read True (cell @ [d]) row t' else csv_read False cell row t
        | [] \<Rightarrow> csv_read False cell row t)
      else csv_read True (cell @ [c]) row t)"
| "csv_read False cell row (c # t) =
     (if c = CHR 0x22 then csv_read True cell row t
      else if c = CHR '','' then csv_read False [] (row @ [cell]) t
      else if c = CHR 0x0A then (row @ [cell]) # csv_read False [] [] t
      else csv_read False (cell @ [c]) row t)"

definition no_quote :: "string \<Rightarrow> bool" where
  "no_quote t \<longleftrightarrow> (case t of [] \<Rightarrow> True | c # _ \<Rightarrow> c \<noteq> CHR 0x22)"

lemma csv_quoted:
  "no_quote t \<Longrightarrow> csv_read True cell row (concat (map (\<lambda>c. if c = CHR 0x22 then [c, c] else [c]) v) @ CHR 0x22 # t) =
     csv_read False (cell @ v) row t"
proof (induction v arbitrary: cell)
  case (Cons c v)
  then show ?case using Cons.IH [of "cell @ [c]"] by simp
qed (auto simp: no_quote_def split: list.split)

lemma csv_cell: "no_quote t \<Longrightarrow> csv_read False [] row (escapeCsv v @ t) = csv_read False v row t"
  using csv_quoted [of t "[]" row v] by (simp add: escapeCsv_def)

lemma csv_row:
  assumes "t = [] \<or> (\<exists>u. t = CHR 0x0A # u)"
  shows "cells \<noteq> [] \<Longrightarrow> csv_read False [] row (join '','' (map escapeCsv cells) @ t) =
     (row @ cells) # (case t of [] \<Rightarrow> [] | _ # u \<Rightarrow> csv_read False [] [] u)"
proof (induction cells arbitrary: row)
  case (Cons v cells)
  show ?case
  proof (cases cells)
    case Nil
    have "no_quote t" using assms by (auto simp: no_quote_def)
    then show ?thesis using assms csv_cell [of t row v] by (auto simp: Nil)
  next
    case (Cons w ws)
    have "no_quote ('','' @ s)" for s by (simp add: no_quote_def)
    then show ?thesis using Cons.IH [of "row @ [v]"] csv_cell [of "'','' @ s" row v for s] by (simp add: Cons)
  qed
qed simp

lemma csv_body:
  "csv_read False [] [] (join [CHR 0x0A] (map (\<lambda>e. join '','' (map escapeCsv (csv_cells e))) (e # es))) = map csv_cells (e # es)"
proof (induction es arbitrary: e)
  case Nil
  have "csv_cells e \<noteq> []" by (simp add: csv_cells_def)
  then show ?case using csv_row [of "[]" "csv_cells e" "[]"] by simp
next
  case (Cons f es)
  have "csv_cells e \<noteq> []" by (simp add: csv_cells_def)
  then show ?case using Cons [of f] csv_row [of "CHR 0x0A # u" "csv_cells e" "[]" for u] by simp
qed

text \<open>
  The export of events as comma-separated values can be read back: whatever quotation marks,
  commas and line breaks the texts contain, a reader finds the header and one row per event with
  exactly the cells of the event.
\<close>

lemma csv_round_trip: "csv_read False [] [] (exportAuditEvents nt events ECsv) = CSV_HEADERS # map csv_cells events"
proof -
  have h: "csv_read False [] [] (join '','' CSV_HEADERS @ t) =
      csv_read False (last CSV_HEADERS) (butlast CSV_HEADERS) t" for t
    by (simp add: CSV_HEADERS_def)
  show ?thesis
  proof (cases events)
    case Nil
    then show ?thesis using h [of "[]"] by (simp add: exportAuditEvents_def CSV_HEADERS_def)
  next
    case (Cons e es)
    have "csv_read False (last CSV_HEADERS) (butlast CSV_HEADERS) (CHR 0x0A # t) = CSV_HEADERS # csv_read False [] [] t" for t
      by (simp add: CSV_HEADERS_def)
    then show ?thesis using h csv_body [of e es] by (simp add: exportAuditEvents_def Cons)
  qed
qed

subsection \<open>A trail\<close>

text \<open>The digest of a text is its bytes in hexadecimal.\<close>

definition trail_env :: audit_env where
  "trail_env = \<lparr>av_sha256 = (\<lambda>t. hex_text (map of_char t)), av_texts = demo_texts, av_date = (\<lambda>_. None)\<rparr>"

lemma trail_sha_ascii: "ascii (av_sha256 trail_env t)"
proof -
  have "(of_char (hex_digit n) :: nat) < 128" if "n < 16" for n
  proof -
    have "\<forall>n < 16. (of_char (hex_digit n) :: nat) < 128" by (simp add: hex_digit_def All_less_Suc numeral_eq_Suc)
    then show ?thesis using that by blast
  qed
  moreover have "(of_char c :: nat) div 16 < 16" for c :: char
    using nat_of_char_less_256 [of c] by (simp add: less_mult_imp_div_less)
  ultimately show ?thesis by (auto simp: trail_env_def hex_text_def ascii_def list_all_iff)
qed

definition trail_input :: audit_input where
  "trail_input = \<lparr>ai_timestamp = None, ai_action = ''INVOICE_CREATED'',
     ai_actor = \<lparr>aa_type = ''seller'', aa_id = ''G'', aa_ip = None, aa_userAgent = None\<rparr>,
     ai_scope = \<lparr>as_entityType = ''invoice'', as_entityId = ''i''\<rparr>, ai_reason = None, ai_beforeState = None,
     ai_afterState = Some (JObj [(''secret'', JStr ''x'')]), ai_metadata = None, ai_correlationId = None\<rparr>"

lemma trail_records: "\<exists>e s'. recordEvent env trail_input uuid now s = (Inr e, s') \<and> ae_id e = uuid"
  by (simp add: recordEvent_def Let_def event_without_hash_def event_members_def trail_input_def opt_member_def null_or_def
      sanitizeForLogging_def split: option.split)

lemma trail_run:
  "\<exists>h s. audit_run trail_env 1 h s \<and> length h = 2 \<and> ae_id (h ! 1) = ''b'' \<and> as_entityId (ae_scope (h ! 1)) = ''i''"
proof -
  let ?s0 = "MemoryAuditStore_new (Some 1)"
  obtain e1 s1 where r1: "recordEvent trail_env trail_input ''a'' 0 ?s0 = (Inr e1, s1)" "ae_id e1 = ''a''" using trail_records by blast
  obtain e2 s2 where r2: "recordEvent trail_env trail_input ''b'' 0 s1 = (Inr e2, s2)" "ae_id e2 = ''b''" using trail_records by blast
  have a: "audit_run trail_env 1 ([] @ [e1]) s1"
    by (rule audit_run.recorded [OF audit_run.start _ r1(1)]) (simp add: MemoryAuditStore_new_def)
  have "at_events s1 = [e1]" using run_state [OF a] by simp
  then have "audit_run trail_env 1 (([] @ [e1]) @ [e2]) s2" using r1(2) by (intro audit_run.recorded [OF a _ r2(1)]) simp
  moreover have "as_entityId (ae_scope e2) = ''i''"
    using recordEvent_cases(1) [OF r2(1)] by (simp add: event_without_hash_def trail_input_def)
  ultimately show ?thesis using r2(2) by (intro exI [of _ "[e1, e2]"] exI [of _ s2]) simp
qed

text \<open>Witness of C21: a store of one event, after two events of an invoice.\<close>

theorem audit_trail_exact_witness:
  "\<exists>h s. audit_run trail_env 1 h s \<and> length h = 2 \<and> getEventsByEntity ''i'' s = [h ! 1] \<and> states_redacted (h ! 1)"
proof -
  obtain h s where h: "audit_run trail_env 1 h s" "length h = 2" "as_entityId (ae_scope (h ! 1)) = ''i''" using trail_run by blast
  have "drop 1 h = [h ! 1]" using h(2) Cons_nth_drop_Suc [of 1 h] by simp
  then show ?thesis using audit_trail_exact [OF h(1)] h by (intro exI [of _ h] exI [of _ s]) auto
qed

text \<open>Witness of C40: the check of that store fails.\<close>

theorem audit_chain_until_full_witness:
  "\<exists>h s. audit_run trail_env 1 h s \<and> verifyChain trail_env s = ChainBroken 0 ''b'' Previous_hash"
proof -
  obtain h s where h: "audit_run trail_env 1 h s" "length h = 2" "ae_id (h ! 1) = ''b''" using trail_run by blast
  then show ?thesis using audit_chain_until_full [OF h(1)] by (intro exI [of _ h] exI [of _ s]) simp
qed

definition trail_body :: "(string \<times> json) list \<Rightarrow> trail_record" where
  "trail_body state =
     \<lparr>ae_id = ''a'', ae_timestamp = ''t'', ae_action = ''INVOICE_CREATED'',
      ae_actor = \<lparr>aa_type = ''seller'', aa_id = ''G'', aa_ip = None, aa_userAgent = None\<rparr>,
      ae_scope = \<lparr>as_entityType = ''invoice'', as_entityId = ''i''\<rparr>, ae_reason = None, ae_beforeState = None,
      ae_afterState = Some (JObj state), ae_metadata = None, ae_correlationId = None, ae_previousHash = None, ae_hash = None\<rparr>"

definition trail_event :: "(string \<times> json) list \<Rightarrow> trail_record" where
  "trail_event state = (trail_body state)\<lparr>ae_hash := Some (hashEvent trail_env (trail_body state))\<rparr>"

text \<open>Witness of C22: two trails of one event with the same digest.\<close>

theorem audit_tamper_evident_witness:
  "same_data (normed compose_acute (event_data (trail_event [(''x'', JStr cafe_nfd), (''y'', JNull)])))
     (normed compose_acute (event_data (trail_event [(''y'', JNull), (''x'', JStr cafe_nfc)])))"
proof -
  let ?a = "trail_event [(''x'', JStr cafe_nfd), (''y'', JNull)]" and ?b = "trail_event [(''y'', JNull), (''x'', JStr cafe_nfc)]"
  let ?te = "av_texts trail_env"
  note ev = trail_event_def trail_body_def event_members_def opt_member_def null_or_def
  have pl: "plain (event_data ?a)" "plain (event_data ?b)" by (simp_all add: ev)
  have te: "te_nfc ?te = compose_acute" "te_number ?te = fraction_text" by (simp_all add: trail_env_def demo_texts_def)
  have kn: "keys_normal (te_nfc ?te) (event_data ?a)" "keys_normal (te_nfc ?te) (event_data ?b)" by (simp_all add: te ev)
  have "same_data (normed (te_nfc ?te) (event_data ?a)) (normed (te_nfc ?te) (event_data ?b))"
    by (auto simp: te ev same_data_simps cafe_nfd_def cafe_nfc_def)
  then have same: "canonical_form ?te (event_data ?a) = canonical_form ?te (event_data ?b)"
    using canonical_form_same [OF pl kn] by blast
  have hyps: "number_text (te_number ?te)" "keeps_ascii (te_nfc ?te)" "\<forall>t. ascii (av_sha256 trail_env t)"
    using fraction_number_text compose_acute_ascii trail_sha_ascii by (simp_all add: te keeps_ascii_def)
  have ph: "ae_previousHash (trail_event st) = None" for st by (simp add: trail_event_def trail_body_def)
  have hh: "ae_hash (trail_event st) = Some (hashEvent trail_env (trail_event st))" for st by (simp add: trail_event_def)
  have v: "verify_from trail_env 0 None [trail_event st] = ChainValid 1" for st by (simp add: ph hh)
  have sj: "stableJson ?te (event_data ?a) = stableJson ?te (event_data ?b)" unfolding stableJson_def same ..
  have lh: "tail_hash None [?a] = tail_hash None [?b]" unfolding tail_hash_def by (simp add: hh hashEvent_def sj)
  have inj: "inj_on (av_sha256 trail_env) ((\<lambda>e. stableJson ?te (event_data e)) ` (set [?a] \<union> set [?b]))"
    using sj by (simp add: inj_on_def)
  have "\<forall>e\<in>set [?a] \<union> set [?b]. plain (event_data e)" using pl by simp
  from audit_tamper_evident [OF hyps inj this v v lh] show ?thesis using kn unfolding list_all2_Cons te by blast
qed

end
