(* ===== verification/Impersonation.thy ===== *)
theory Impersonation
  imports Audit_Trail
begin

text \<open>
  Maintainers acting for a seller, \<open>backend/src/audit/impersonation.ts\<close>. Times are time values (the
  code keeps them as ISO texts, which compare as their times), durations are whole
  milliseconds, and identifiers of sessions and readings of the clock are arguments. The audit
  trail is the list of the inputs of \<open>recordEvent\<close>, newest first. Permissions are texts, as the code checks them. English
  reasons are left out where nothing depends on them, and the banner of the indicator.
\<close>

definition IMPERSONATION_PERMISSIONS :: "string list" where
  "IMPERSONATION_PERMISSIONS = [''read'', ''simulate'', ''export'', ''notify'', ''elevated'']"

definition DEFAULT_SESSION_DURATION_MS :: int where "DEFAULT_SESSION_DURATION_MS = 30 * 60 * 1000"
definition MAX_SESSION_DURATION_MS :: int where "MAX_SESSION_DURATION_MS = 60 * 60 * 1000"

definition ELEVATED_ONLY_ACTIONS :: "string list" where
  "ELEVATED_ONLY_ACTIONS = [''invoice.cancel'', ''invoice.settle'', ''invoice.delete'', ''payment.verify'', ''payment.refund'',
     ''jobs.purge'', ''maintenance.reset'']"

definition NEVER_ALLOWED_ACTIONS :: "string list" where
  "NEVER_ALLOWED_ACTIONS = [''impersonation.start'', ''impersonation.elevate'']"

datatype end_reason = Manual | Expired_session | Security_event

record imp_session =
  is_id :: string
  is_maintainerId :: string
  is_targetId :: string
  is_permissions :: "string list"
  is_reason :: string
  is_startedAt :: int
  is_expiresAt :: int
  is_endedAt :: "int option"
  is_endReason :: "end_reason option"

datatype auth_code = ALLOWED | NO_ACTIVE_SESSION | SESSION_EXPIRED | SESSION_ENDED | SESSION_REVOKED | MISSING_PERMISSION
  | ELEVATION_REQUIRED | NEVER_ALLOWED

record auth_decision =
  ad_allowed :: bool
  ad_code :: auth_code
  ad_sessionId :: "string option"

record start_input =
  st_maintainerId :: string
  st_targetId :: string
  st_permissions :: "string list option"
  st_reason :: string
  st_durationMs :: "int option"
  st_ip :: "string option"
  st_userAgent :: "string option"

record auth_input =
  au_maintainerId :: string
  au_action :: string
  au_elevatedConfirmation :: bool
  au_ip :: "string option"
  au_userAgent :: "string option"

datatype start_error = NoMaintainer | NoTarget | NoReason | SelfImpersonation | UnknownPermission string | BadDuration

record imp_service =
  im_sessions :: "(string, imp_session) jsmap"
  im_maxSessions :: int
  im_audit :: "audit_input list"

definition ImpersonationService_new :: "int option \<Rightarrow> imp_service" where
  "ImpersonationService_new maxSessions = \<lparr>im_sessions = [], im_maxSessions = (case maxSessions of Some n \<Rightarrow> n | None \<Rightarrow> 100), im_audit = []\<rparr>"

subsection \<open>Audit events\<close>

definition audit_of :: "string \<Rightarrow> audit_actor \<Rightarrow> string \<Rightarrow> string \<Rightarrow> json option \<Rightarrow> json option \<Rightarrow> audit_input" where
  "audit_of action actor entityId reason after metadata =
     \<lparr>ai_timestamp = None, ai_action = action, ai_actor = actor, ai_scope = \<lparr>as_entityType = ''system'', as_entityId = entityId\<rparr>,
      ai_reason = Some reason, ai_beforeState = None, ai_afterState = after, ai_metadata = metadata, ai_correlationId = None\<rparr>"

definition maintainer_actor :: "string \<Rightarrow> string option \<Rightarrow> string option \<Rightarrow> audit_actor" where
  "maintainer_actor mid ip ua = \<lparr>aa_type = ''maintainer'', aa_id = mid, aa_ip = ip, aa_userAgent = ua\<rparr>"

definition started_event :: "start_input \<Rightarrow> int \<Rightarrow> imp_session \<Rightarrow> audit_input" where
  "started_event input duration s =
     audit_of ''IMPERSONATION_STARTED'' (maintainer_actor (st_maintainerId input) (st_ip input) (st_userAgent input)) (is_id s) (is_reason s)
       (Some (JObj [(''id'', JStr (is_id s)), (''maintainerId'', JStr (is_maintainerId s)), (''targetId'', JStr (is_targetId s)),
          (''permissions'', JArr (map JStr (is_permissions s))), (''reason'', JStr (is_reason s)),
          (''startedAt'', JStr (toISOString (is_startedAt s))), (''expiresAt'', JStr (toISOString (is_expiresAt s)))]))
       (Some (JObj [(''impersonatedId'', JStr (is_targetId s)), (''permissions'', JStr (join '','' (is_permissions s))),
          (''durationMs'', JNum (Num (of_int duration))), (''expiresAt'', JStr (toISOString (is_expiresAt s)))]))"

definition ended_event :: "imp_session \<Rightarrow> int \<Rightarrow> audit_input" where
  "ended_event s now =
     audit_of ''IMPERSONATION_ENDED'' (maintainer_actor (is_maintainerId s) None None) (is_id s) (is_reason s)
       (Some (JObj [(''endedAt'', JStr (toISOString now)), (''endReason'', JStr ''manual'')]))
       (Some (JObj [(''impersonatedId'', JStr (is_targetId s))]))"

definition expired_event :: "imp_session \<Rightarrow> int \<Rightarrow> audit_input" where
  "expired_event s now =
     audit_of ''IMPERSONATION_EXPIRED'' (maintainer_actor (is_maintainerId s) None None) (is_id s) ''Session reached its time limit''
       (Some (JObj [(''endedAt'', JStr (toISOString now)), (''endReason'', JStr ''expired'')]))
       (Some (JObj [(''impersonatedId'', JStr (is_targetId s)), (''expiresAt'', JStr (toISOString (is_expiresAt s)))]))"

definition allowed_event :: "auth_input \<Rightarrow> imp_session \<Rightarrow> audit_input" where
  "allowed_event input s =
     audit_of ''IMPERSONATION_ACTION_ALLOWED'' (maintainer_actor (is_maintainerId s) (au_ip input) (au_userAgent input)) (is_id s) (is_reason s)
       (Some (JObj [(''action'', JStr (au_action input))]))
       (Some (JObj [(''impersonatedId'', JStr (is_targetId s)), (''action'', JStr (au_action input)),
          (''elevated'', JBool (au_action input \<in> set ELEVATED_ONLY_ACTIONS))]))"

fun code_name :: "auth_code \<Rightarrow> string" where
  "code_name ALLOWED = ''ALLOWED''"
| "code_name NO_ACTIVE_SESSION = ''NO_ACTIVE_SESSION''"
| "code_name SESSION_EXPIRED = ''SESSION_EXPIRED''"
| "code_name SESSION_ENDED = ''SESSION_ENDED''"
| "code_name SESSION_REVOKED = ''SESSION_REVOKED''"
| "code_name MISSING_PERMISSION = ''MISSING_PERMISSION''"
| "code_name ELEVATION_REQUIRED = ''ELEVATION_REQUIRED''"
| "code_name NEVER_ALLOWED = ''NEVER_ALLOWED''"

definition blocked_event :: "auth_input \<Rightarrow> auth_code \<Rightarrow> string \<Rightarrow> string option \<Rightarrow> audit_input" where
  "blocked_event input code reason sessionId =
     audit_of ''IMPERSONATION_ACTION_BLOCKED'' (maintainer_actor (au_maintainerId input) (au_ip input) (au_userAgent input))
       (case sessionId of Some i \<Rightarrow> i | None \<Rightarrow> ''none'') reason None
       (Some (JObj ([(''action'', JStr (au_action input)), (''code'', JStr (code_name code))] @ opt_member ''sessionId'' sessionId)))"

subsection \<open>Sessions\<close>

definition session_cmp :: "imp_session \<Rightarrow> imp_session \<Rightarrow> int" where
  "session_cmp a b = is_startedAt a - is_startedAt b"

definition evictOldestIfNeeded :: "imp_service \<Rightarrow> imp_service" where
  "evictOldestIfNeeded m =
     (if int (length (im_sessions m)) \<le> im_maxSessions m then m
      else (case sort_by session_cmp (map snd (im_sessions m)) of
          [] \<Rightarrow> m
        | oldest # _ \<Rightarrow> m\<lparr>im_sessions := mdelete (is_id oldest) (im_sessions m)\<rparr>))"

definition startSession ::
  "start_input \<Rightarrow> string \<Rightarrow> int \<Rightarrow> imp_service \<Rightarrow> (start_error, imp_session) result \<times> imp_service" where
  "startSession input sid now m =
     (let requested = (case st_permissions input of Some ps \<Rightarrow> ps | None \<Rightarrow> [''read'']);
          duration = min (case st_durationMs input of Some d \<Rightarrow> d | None \<Rightarrow> DEFAULT_SESSION_DURATION_MS) MAX_SESSION_DURATION_MS
      in if js_trim (st_maintainerId input) = [] then (Inl NoMaintainer, m)
         else if js_trim (st_targetId input) = [] then (Inl NoTarget, m)
         else if js_trim (st_reason input) = [] then (Inl NoReason, m)
         else if st_maintainerId input = st_targetId input then (Inl SelfImpersonation, m)
         else (case List.find (\<lambda>p. p \<notin> set IMPERSONATION_PERMISSIONS) requested of
             Some p \<Rightarrow> (Inl (UnknownPermission p), m)
           | None \<Rightarrow>
               if duration \<le> 0 then (Inl BadDuration, m)
               else
                 let session = \<lparr>is_id = sid, is_maintainerId = st_maintainerId input, is_targetId = st_targetId input,
                       is_permissions = js_set requested, is_reason = js_trim (st_reason input), is_startedAt = now,
                       is_expiresAt = now + duration, is_endedAt = None, is_endReason = None\<rparr>;
                     m1 = evictOldestIfNeeded (m\<lparr>im_sessions := mset_kv sid session (im_sessions m)\<rparr>)
                 in (Inr session, m1\<lparr>im_audit := started_event input duration session # im_audit m1\<rparr>)))"

text \<open>The session afterwards, whether it was closed, and the audit event.\<close>

definition expireIfDue :: "imp_session \<Rightarrow> int \<Rightarrow> imp_session \<times> bool \<times> audit_input list" where
  "expireIfDue s now =
     (if is_endedAt s \<noteq> None then (s, False, [])
      else if is_expiresAt s > now then (s, False, [])
      else (s\<lparr>is_endedAt := Some now, is_endReason := Some Expired_session\<rparr>, True, [expired_event s now]))"

fun find_active ::
  "string \<Rightarrow> int \<Rightarrow> (string, imp_session) jsmap \<Rightarrow> imp_session option \<times> (string, imp_session) jsmap \<times> audit_input list" where
  "find_active mid now [] = (None, [], [])"
| "find_active mid now ((k, s) # rest) =
     (if is_maintainerId s \<noteq> mid \<or> is_endedAt s \<noteq> None then
        (let (r, rest', ev) = find_active mid now rest in (r, (k, s) # rest', ev))
      else (case expireIfDue s now of
          (s', True, ev) \<Rightarrow> (let (r, rest', ev') = find_active mid now rest in (r, (k, s') # rest', ev' @ ev))
        | (s', False, ev) \<Rightarrow> (Some s', (k, s') # rest, ev)))"

definition getActiveSession :: "string \<Rightarrow> int \<Rightarrow> imp_service \<Rightarrow> imp_session option \<times> imp_service" where
  "getActiveSession mid now m =
     (let (r, ss, ev) = find_active mid now (im_sessions m) in (r, m\<lparr>im_sessions := ss, im_audit := ev @ im_audit m\<rparr>))"

definition endSession :: "string \<Rightarrow> string option \<Rightarrow> int \<Rightarrow> imp_service \<Rightarrow> bool \<times> imp_service" where
  "endSession sid mid now m =
     (case mget (im_sessions m) sid of
        None \<Rightarrow> (False, m)
      | Some s \<Rightarrow>
          if is_endedAt s \<noteq> None then (False, m)
          else if truthy mid \<and> is_maintainerId s \<noteq> the mid then (False, m)
          else (True, m\<lparr>im_sessions := mset_kv sid (s\<lparr>is_endedAt := Some now, is_endReason := Some Manual\<rparr>) (im_sessions m),
                 im_audit := ended_event s now # im_audit m\<rparr>))"

definition closed_cmp :: "imp_session \<Rightarrow> imp_session \<Rightarrow> int" where
  "closed_cmp a b = the (is_endedAt b) - the (is_endedAt a)"

definition findClosedSession :: "string \<Rightarrow> imp_service \<Rightarrow> imp_session option" where
  "findClosedSession mid m =
     (case sort_by closed_cmp (filter (\<lambda>s. is_maintainerId s = mid \<and> is_endedAt s \<noteq> None) (map snd (im_sessions m))) of
        [] \<Rightarrow> None | s # _ \<Rightarrow> Some s)"

definition deny :: "auth_input \<Rightarrow> auth_code \<Rightarrow> string \<Rightarrow> string option \<Rightarrow> imp_service \<Rightarrow> auth_decision \<times> imp_service" where
  "deny input code reason sessionId m =
     (\<lparr>ad_allowed = False, ad_code = code, ad_sessionId = sessionId\<rparr>,
      m\<lparr>im_audit := blocked_event input code reason sessionId # im_audit m\<rparr>)"

definition closed_code :: "imp_session option \<Rightarrow> auth_code" where
  "closed_code ended =
     (case ended of
        None \<Rightarrow> NO_ACTIVE_SESSION
      | Some s \<Rightarrow> if is_endReason s = Some Expired_session then SESSION_EXPIRED
                  else if is_endReason s = Some Security_event then SESSION_REVOKED else SESSION_ENDED)"

definition quoted_action :: "auth_input \<Rightarrow> string \<Rightarrow> string" where
  "quoted_action input rest = [CHR 0x22] @ au_action input @ [CHR 0x22] @ rest"

definition authorize :: "auth_input \<Rightarrow> int \<Rightarrow> imp_service \<Rightarrow> auth_decision \<times> imp_service" where
  "authorize input now m =
     (if au_action input \<in> set NEVER_ALLOWED_ACTIONS
      then deny input NEVER_ALLOWED (quoted_action input '' is never permitted via impersonation'') None m
      else
        (case getActiveSession (au_maintainerId input) now m of
           (None, m1) \<Rightarrow>
             let ended = findClosedSession (au_maintainerId input) m1
             in deny input (closed_code ended) ''No active impersonation session'' (map_option is_id ended) m1
         | (Some s, m1) \<Rightarrow>
             let needsElevation = au_action input \<in> set ELEVATED_ONLY_ACTIONS
             in if needsElevation \<and> ''elevated'' \<notin> set (is_permissions s)
                then deny input ELEVATION_REQUIRED (quoted_action input '' is irreversible and needs an elevated session'') (Some (is_id s)) m1
                else if needsElevation \<and> \<not> au_elevatedConfirmation input
                then deny input ELEVATION_REQUIRED (quoted_action input '' requires explicit elevated confirmation'') (Some (is_id s)) m1
                else (\<lparr>ad_allowed = True, ad_code = ALLOWED, ad_sessionId = Some (is_id s)\<rparr>,
                      m1\<lparr>im_audit := allowed_event input s # im_audit m1\<rparr>)))"

definition indicator :: "string \<Rightarrow> int \<Rightarrow> imp_service \<Rightarrow> imp_session option \<times> imp_service" where
  "indicator mid now m = getActiveSession mid now m"

definition expire_all :: "int \<Rightarrow> imp_service \<Rightarrow> imp_service" where
  "expire_all now m =
     m\<lparr>im_sessions := map (\<lambda>p. (fst p, fst (expireIfDue (snd p) now))) (im_sessions m),
       im_audit := concat (map (\<lambda>p. snd (snd (expireIfDue (snd p) now))) (rev (im_sessions m))) @ im_audit m\<rparr>"

definition listSessions :: "bool \<Rightarrow> int \<Rightarrow> imp_service \<Rightarrow> imp_session list \<times> imp_service" where
  "listSessions includeClosed now m =
     (let m1 = expire_all now m
      in (sort_by (\<lambda>a b. session_cmp b a) (filter (\<lambda>s. includeClosed \<or> is_endedAt s = None) (map snd (im_sessions m1))), m1))"

definition purgeExpired :: "int \<Rightarrow> imp_service \<Rightarrow> string list \<times> imp_service" where
  "purgeExpired now m =
     (map is_id (filter (\<lambda>s. fst (snd (expireIfDue s now))) (map snd (im_sessions m))), expire_all now m)"

definition imp_clear :: "imp_service \<Rightarrow> imp_service" where
  "imp_clear m = m\<lparr>im_sessions := []\<rparr>"

end
