(* ===== verification/Impersonation_Safety.thy ===== *)
theory Impersonation_Safety
  imports Impersonation
begin

text \<open>
  What impersonation guarantees: an action is allowed only within a live session that was opened
  properly, every decision is audited, and a session that ended is never used again. The permissions
  of a session other than \<open>elevated\<close> turn out to have no effect.
\<close>

subsection \<open>Sessions that run out\<close>

definition moved :: "int \<Rightarrow> imp_session \<Rightarrow> imp_session \<Rightarrow> bool" where
  "moved now p q \<longleftrightarrow> q = p \<or>
     (is_endedAt p = None \<and> is_expiresAt p \<le> now \<and> q = p\<lparr>is_endedAt := Some now, is_endReason := Some Expired_session\<rparr>)"

definition runs_out :: "int \<Rightarrow> (string, imp_session) jsmap \<Rightarrow> (string, imp_session) jsmap \<Rightarrow> bool" where
  "runs_out now ss ss' \<longleftrightarrow> list_all2 (\<lambda>a b. fst a = fst b \<and> moved now (snd a) (snd b)) ss ss'"

lemma runs_out_refl: "runs_out now ss ss"
  by (simp add: runs_out_def moved_def list_all2_same)

lemma runs_out_mget: "runs_out now ss ss' \<Longrightarrow> mget ss' k = Some q \<Longrightarrow> \<exists>p. mget ss k = Some p \<and> moved now p q"
  unfolding runs_out_def
proof (induction rule: list_all2_induct)
  case (Cons a ss b ss')
  then show ?case by (cases a; cases b) (auto split: if_splits)
qed simp

lemma runs_out_set: "runs_out now ss ss' \<Longrightarrow> (k, q) \<in> set ss' \<Longrightarrow> \<exists>p. (k, p) \<in> set ss \<and> moved now p q"
  unfolding runs_out_def by (induction rule: list_all2_induct) fastforce+

lemma expireIfDue_moved: "moved now s (fst (expireIfDue s now))"
  by (simp add: expireIfDue_def moved_def)

definition live :: "int \<Rightarrow> imp_session \<Rightarrow> bool" where
  "live now s \<longleftrightarrow> is_endedAt s = None \<and> now < is_expiresAt s"

lemma find_active_runs_out:
  "find_active mid now ss = (r, ss', ev) \<Longrightarrow> runs_out now ss ss' \<and>
     (\<forall>s. r = Some s \<longrightarrow> s \<in> snd ` set ss \<and> is_maintainerId s = mid \<and> live now s) \<and>
     list_all (\<lambda>e. ai_action e = ''IMPERSONATION_EXPIRED'') ev"
proof (induction mid now ss arbitrary: r ss' ev rule: find_active.induct)
  case (2 mid now k s rest)
  obtain r1 rest1 ev1 where f: "find_active mid now rest = (r1, rest1, ev1)" by (metis prod_cases3)
  have id: "moved now s s" "ai_action (expired_event s now) = ''IMPERSONATION_EXPIRED''"
    by (simp_all add: moved_def expired_event_def audit_of_def)
  consider "is_maintainerId s \<noteq> mid \<or> is_endedAt s \<noteq> None" | "is_maintainerId s = mid" "is_endedAt s = None" "is_expiresAt s \<le> now"
    | "is_maintainerId s = mid" "is_endedAt s = None" "now < is_expiresAt s" by linarith
  then show ?case
  proof cases
    case 1
    then show ?thesis using "2.IH"(1) [OF 1 f] "2.prems" f id by (auto simp: runs_out_def)
  next
    case 2
    define s' where "s' = s\<lparr>is_endedAt := Some now, is_endReason := Some Expired_session\<rparr>"
    have e: "expireIfDue s now = (s', True, [expired_event s now])" using 2 by (simp add: expireIfDue_def s'_def)
    have "moved now s s'" using 2 by (simp add: moved_def s'_def)
    moreover have "\<not> (is_maintainerId s \<noteq> mid \<or> is_endedAt s \<noteq> None)" using 2 by simp
    moreover from this have "runs_out now rest rest1 \<and> (\<forall>s. r1 = Some s \<longrightarrow> s \<in> snd ` set rest \<and> is_maintainerId s = mid \<and> live now s) \<and>
        list_all (\<lambda>e. ai_action e = ''IMPERSONATION_EXPIRED'') ev1"
      using "2.IH"(2) [OF _ e [symmetric] refl refl f] by blast
    ultimately show ?thesis using "2.prems" f id e by (auto simp: runs_out_def)
  next
    case 3
    then have "expireIfDue s now = (s, False, [])" by (simp add: expireIfDue_def)
    then show ?thesis using 3 "2.prems" runs_out_refl [of now "(k, s) # rest"] by (auto simp: live_def)
  qed
qed (simp add: runs_out_def)

lemma expire_all_runs_out: "runs_out now (im_sessions m) (im_sessions (expire_all now m))"
  by (simp add: expire_all_def runs_out_def list_all2_map2 list_all2_same expireIfDue_moved)

subsection \<open>Runs\<close>

definition session_ok :: "string \<Rightarrow> imp_session \<Rightarrow> bool" where
  "session_ok k s \<longleftrightarrow> is_id s = k \<and> js_trim (is_maintainerId s) \<noteq> [] \<and> is_maintainerId s \<noteq> is_targetId s \<and> is_reason s \<noteq> [] \<and>
     set (is_permissions s) \<subseteq> set IMPERSONATION_PERMISSIONS \<and>
     is_startedAt s < is_expiresAt s \<and> is_expiresAt s \<le> is_startedAt s + MAX_SESSION_DURATION_MS"

definition sessions_ok :: "imp_service \<Rightarrow> bool" where
  "sessions_ok m \<longleftrightarrow> mwf (im_sessions m) \<and> (\<forall>k s. mget (im_sessions m) k = Some s \<longrightarrow> session_ok k s)"

text \<open>The service and the clock, which does not go back. The set holds the identifiers of the sessions that were started.\<close>

inductive imp_step :: "string set \<Rightarrow> imp_service \<times> int \<Rightarrow> imp_service \<times> int \<Rightarrow> bool" for ids where
  start: "t \<le> now \<Longrightarrow> sid \<in> ids \<Longrightarrow> imp_step ids (m, t) (snd (startSession input sid now m), now)"
| finish: "t \<le> now \<Longrightarrow> imp_step ids (m, t) (snd (endSession sid mid now m), now)"
| auth: "t \<le> now \<Longrightarrow> imp_step ids (m, t) (snd (authorize ainput now m), now)"
| look: "t \<le> now \<Longrightarrow> imp_step ids (m, t) (snd (indicator mid now m), now)"
| list_all_sessions: "t \<le> now \<Longrightarrow> imp_step ids (m, t) (snd (listSessions c now m), now)"
| purge: "t \<le> now \<Longrightarrow> imp_step ids (m, t) (snd (purgeExpired now m), now)"
| clear: "t \<le> now \<Longrightarrow> imp_step ids (m, t) (imp_clear m, now)"

text \<open>What a step does to the sessions: sessions run out, one is closed, one is started, some are dropped.\<close>

definition session_change :: "string set \<Rightarrow> int \<Rightarrow> (string, imp_session) jsmap \<Rightarrow> (string, imp_session) jsmap \<Rightarrow> bool" where
  "session_change ids now ss ss' \<longleftrightarrow>
     (\<forall>k q. mget ss' k = Some q \<longrightarrow>
       (\<exists>p. mget ss k = Some p \<and> (moved now p q \<or> q = p\<lparr>is_endedAt := Some now, is_endReason := Some Manual\<rparr>)) \<or>
       (k \<in> ids \<and> session_ok k q \<and> is_startedAt q = now))"

lemma session_change_runs_out: "runs_out now ss ss' \<Longrightarrow> session_change ids now ss ss'"
  unfolding session_change_def using runs_out_mget by blast

lemma getActiveSession_state:
  assumes "getActiveSession mid now m = (r, m')"
  shows "runs_out now (im_sessions m) (im_sessions m')"
    and "r = Some s \<Longrightarrow> s \<in> snd ` set (im_sessions m) \<and> is_maintainerId s = mid \<and> live now s"
    and "\<exists>ev. im_audit m' = ev @ im_audit m \<and> list_all (\<lambda>e. ai_action e = ''IMPERSONATION_EXPIRED'') ev"
proof -
  obtain r' ss ev where f: "find_active mid now (im_sessions m) = (r', ss, ev)" by (metis prod_cases3)
  then have m': "r = r'" "m' = m\<lparr>im_sessions := ss, im_audit := ev @ im_audit m\<rparr>" using assms by (auto simp: getActiveSession_def)
  show "runs_out now (im_sessions m) (im_sessions m')" using find_active_runs_out [OF f] m' by simp
  show "r = Some s \<Longrightarrow> s \<in> snd ` set (im_sessions m) \<and> is_maintainerId s = mid \<and> live now s"
    using find_active_runs_out [OF f] m' by simp
  show "\<exists>ev. im_audit m' = ev @ im_audit m \<and> list_all (\<lambda>e. ai_action e = ''IMPERSONATION_EXPIRED'') ev"
    using find_active_runs_out [OF f] m' by auto
qed

lemma authorize_sessions: "runs_out now (im_sessions m) (im_sessions (snd (authorize input now m)))"
proof (cases "au_action input \<in> set NEVER_ALLOWED_ACTIONS")
  case True
  then show ?thesis by (simp add: authorize_def deny_def runs_out_refl)
next
  case False
  obtain r m1 where g: "getActiveSession (au_maintainerId input) now m = (r, m1)" by fastforce
  have "im_sessions (snd (authorize input now m)) = im_sessions m1"
    using False by (simp add: authorize_def g deny_def Let_def split: option.split)
  then show ?thesis using getActiveSession_state(1) [OF g] by simp
qed

lemma evict_sub: "mget (im_sessions (evictOldestIfNeeded m)) k = Some s \<Longrightarrow> mget (im_sessions m) k = Some s"
  by (auto simp: evictOldestIfNeeded_def split: if_splits list.splits)

lemma startSession_change: "session_change ids now (im_sessions m) (im_sessions (snd (startSession input sid now m)))" if "sid \<in> ids"
proof -
  have none: "session_change ids now ss ss" for ss by (auto simp: session_change_def moved_def)
  show ?thesis
  proof (cases "fst (startSession input sid now m)")
    case (Inl e)
    then have "snd (startSession input sid now m) = m" by (auto simp: startSession_def Let_def split: if_splits option.splits)
    then show ?thesis using none by simp
  next
    case (Inr q)
    then have q: "session_ok sid q" "is_startedAt q = now"
      by (auto simp: startSession_def Let_def session_ok_def find_None_iff DEFAULT_SESSION_DURATION_MS_def MAX_SESSION_DURATION_MS_def
          split: if_splits option.splits)
    have ss: "im_sessions (snd (startSession input sid now m)) =
        im_sessions (evictOldestIfNeeded (m\<lparr>im_sessions := mset_kv sid q (im_sessions m)\<rparr>))"
      using Inr by (auto simp: startSession_def Let_def split: if_splits option.splits)
    show ?thesis unfolding session_change_def ss
      using q that by (auto dest!: evict_sub simp: moved_def split: if_splits)
  qed
qed

lemma step_change:
  assumes "imp_step ids (m, t) (m', t')"
  shows "t \<le> t' \<and> session_change ids t' (im_sessions m) (im_sessions m')"
  using assms
proof cases
  case (start sid input)
  then show ?thesis using startSession_change by simp
next
  case (finish sid mid)
  then show ?thesis by (auto simp: session_change_def endSession_def moved_def split: option.splits if_splits)
next
  case (auth ainput)
  then show ?thesis using session_change_runs_out [OF authorize_sessions] by simp
next
  case (look mid)
  obtain r m1 where g: "getActiveSession mid t' m = (r, m1)" by fastforce
  then show ?thesis using look getActiveSession_state(1) [OF g] session_change_runs_out by (auto simp: indicator_def)
next
  case (list_all_sessions c)
  then show ?thesis using expire_all_runs_out [of t' m] session_change_runs_out by (auto simp: listSessions_def Let_def)
next
  case purge
  then show ?thesis using expire_all_runs_out [of t' m] session_change_runs_out by (auto simp: purgeExpired_def)
next
  case clear
  then show ?thesis by (simp add: session_change_def imp_clear_def)
qed

lemma runs_out_mwf: "runs_out now ss ss' \<Longrightarrow> mwf ss \<Longrightarrow> mwf ss'"
proof -
  assume "runs_out now ss ss'"
  then have "map fst ss' = map fst ss" unfolding runs_out_def by (induction rule: list_all2_induct) auto
  then show "mwf ss \<Longrightarrow> mwf ss'" by (simp add: mwf_def)
qed

lemma step_mwf:
  assumes "imp_step ids (m, t) (m', t')" and "mwf (im_sessions m)"
  shows "mwf (im_sessions m')"
  using assms(1)
proof cases
  case (start sid input)
  have "mwf (im_sessions n) \<Longrightarrow> mwf (im_sessions (evictOldestIfNeeded n))" for n
    by (auto simp: evictOldestIfNeeded_def split: list.split)
  then show ?thesis using start assms(2) by (auto simp: startSession_def Let_def split: option.split)
next
  case (finish sid mid)
  then show ?thesis using assms(2) by (auto simp: endSession_def split: option.split)
next
  case (auth ainput)
  then show ?thesis using runs_out_mwf [OF authorize_sessions assms(2)] by simp
next
  case (look mid)
  obtain r m1 where g: "getActiveSession mid t' m = (r, m1)" by fastforce
  then show ?thesis using look runs_out_mwf [OF getActiveSession_state(1) [OF g] assms(2)] by (simp add: indicator_def)
next
  case (list_all_sessions c)
  then show ?thesis using runs_out_mwf [OF expire_all_runs_out assms(2)] by (simp add: listSessions_def Let_def)
next
  case purge
  then show ?thesis using runs_out_mwf [OF expire_all_runs_out assms(2)] by (simp add: purgeExpired_def)
next
  case clear
  then show ?thesis by (simp add: imp_clear_def)
qed

lemma step_ok:
  assumes "imp_step ids (m, t) (m', t')" and "sessions_ok m"
  shows "sessions_ok m'"
proof -
  have "session_ok k q" if q: "mget (im_sessions m') k = Some q" for k q
  proof -
    consider p where "mget (im_sessions m) k = Some p" "moved t' p q \<or> q = p\<lparr>is_endedAt := Some t', is_endReason := Some Manual\<rparr>"
      | "session_ok k q" using step_change [OF assms(1)] q unfolding session_change_def by blast
    then show ?thesis
    proof cases
      case 1
      then have "session_ok k p" using assms(2) by (simp add: sessions_ok_def)
      then show ?thesis using 1(2) by (auto simp: session_ok_def moved_def)
    qed
  qed
  then show ?thesis using step_mwf [OF assms(1)] assms(2) by (simp add: sessions_ok_def)
qed

lemma run_ok:
  assumes "(imp_step ids)\<^sup>*\<^sup>* x y" and "sessions_ok (fst x)"
  shows "sessions_ok (fst y) \<and> snd x \<le> snd y"
  using assms
proof (induction rule: rtranclp_induct)
  case (step y z)
  then show ?case using step_ok [of ids "fst y" "snd y" "fst z" "snd z"] step_change [of ids "fst y" "snd y" "fst z" "snd z"] by force
qed simp

lemma new_ok: "sessions_ok (ImpersonationService_new n)"
  by (simp add: sessions_ok_def ImpersonationService_new_def)

lemma authorize_cases:
  assumes "authorize input now m = (d, m')"
  shows "\<exists>ev. list_all (\<lambda>e. ai_action e = ''IMPERSONATION_EXPIRED'') ev \<and>
    (if ad_allowed d then
       (\<exists>s. s \<in> snd ` set (im_sessions m) \<and> is_maintainerId s = au_maintainerId input \<and> live now s \<and> ad_sessionId d = Some (is_id s) \<and>
         au_action input \<notin> set NEVER_ALLOWED_ACTIONS \<and>
         (au_action input \<in> set ELEVATED_ONLY_ACTIONS \<longrightarrow> ''elevated'' \<in> set (is_permissions s) \<and> au_elevatedConfirmation input) \<and>
         im_audit m' = allowed_event input s # ev @ im_audit m)
     else \<exists>reason. im_audit m' = blocked_event input (ad_code d) reason (ad_sessionId d) # ev @ im_audit m)"
proof (cases "au_action input \<in> set NEVER_ALLOWED_ACTIONS")
  case True
  then show ?thesis using assms by (auto simp: authorize_def deny_def intro: exI [of _ "[]"])
next
  case False
  obtain r m1 where g: "getActiveSession (au_maintainerId input) now m = (r, m1)" by fastforce
  obtain ev where ev: "im_audit m1 = ev @ im_audit m" "list_all (\<lambda>e. ai_action e = ''IMPERSONATION_EXPIRED'') ev"
    using getActiveSession_state(3) [OF g] by blast
  show ?thesis
  proof (cases r)
    case None
    then show ?thesis using assms False g ev by (auto simp: authorize_def deny_def Let_def)
  next
    case (Some s)
    note s = getActiveSession_state(2) [OF g Some]
    show ?thesis
    proof (cases "au_action input \<in> set ELEVATED_ONLY_ACTIONS \<and> (''elevated'' \<notin> set (is_permissions s) \<or> \<not> au_elevatedConfirmation input)")
      case True
      then obtain reason where "deny input ELEVATION_REQUIRED reason (Some (is_id s)) m1 = (d, m')"
        using assms False g Some by (auto simp: authorize_def Let_def split: if_splits)
      then show ?thesis using ev by (auto simp: deny_def)
    next
      case no: False
      then have "d = \<lparr>ad_allowed = True, ad_code = ALLOWED, ad_sessionId = Some (is_id s)\<rparr>"
        "m' = m1\<lparr>im_audit := allowed_event input s # im_audit m1\<rparr>"
        using assms False g Some by (auto simp: authorize_def Let_def split: if_splits)
      then show ?thesis using s ev False no by auto
    qed
  qed
qed

text \<open>
  C7: whatever was done before, an action is allowed only within a session of the maintainer that is
  stored, was not ended and has not run out; that was opened with a reason, against somebody else, with known
  permissions and for at most an hour; never for an action that is never allowed; and for an irreversible
  action only when the session is elevated and the maintainer confirmed. The decision is audited, the
  allowed and the blocked ones alike, after the sessions that were found to have run out.
\<close>

theorem impersonation_authorized:
  assumes "(imp_step UNIV)\<^sup>*\<^sup>* (ImpersonationService_new mx, t0) (m, t)" and "authorize input now m = (d, m')"
  shows "\<exists>ev. list_all (\<lambda>e. ai_action e = ''IMPERSONATION_EXPIRED'') ev \<and>
    (if ad_allowed d then
       (\<exists>s. mget (im_sessions m) (is_id s) = Some s \<and> ad_sessionId d = Some (is_id s) \<and> is_maintainerId s = au_maintainerId input \<and>
         is_endedAt s = None \<and> now < is_expiresAt s \<and> is_expiresAt s \<le> is_startedAt s + 60 * 60 * 1000 \<and>
         is_reason s \<noteq> [] \<and> is_targetId s \<noteq> au_maintainerId input \<and> set (is_permissions s) \<subseteq> set IMPERSONATION_PERMISSIONS \<and>
         au_action input \<notin> set NEVER_ALLOWED_ACTIONS \<and>
         (au_action input \<in> set ELEVATED_ONLY_ACTIONS \<longrightarrow> ''elevated'' \<in> set (is_permissions s) \<and> au_elevatedConfirmation input) \<and>
         im_audit m' = allowed_event input s # ev @ im_audit m)
     else \<exists>reason. im_audit m' = blocked_event input (ad_code d) reason (ad_sessionId d) # ev @ im_audit m)"
proof -
  have ok: "sessions_ok m" using run_ok [OF assms(1)] new_ok by simp
  have stored: "mget (im_sessions m) (is_id s) = Some s \<and> session_ok (is_id s) s" if s: "s \<in> snd ` set (im_sessions m)" for s
  proof -
    obtain k where "(k, s) \<in> set (im_sessions m)" using s by auto
    moreover have "mwf (im_sessions m)" using ok by (simp add: sessions_ok_def)
    ultimately have "mget (im_sessions m) k = Some s" using mget_values by fast
    then show ?thesis using ok by (auto simp: sessions_ok_def session_ok_def)
  qed
  obtain ev where ev: "list_all (\<lambda>e. ai_action e = ''IMPERSONATION_EXPIRED'') ev"
    and c: "if ad_allowed d then
       (\<exists>s. s \<in> snd ` set (im_sessions m) \<and> is_maintainerId s = au_maintainerId input \<and> live now s \<and> ad_sessionId d = Some (is_id s) \<and>
         au_action input \<notin> set NEVER_ALLOWED_ACTIONS \<and>
         (au_action input \<in> set ELEVATED_ONLY_ACTIONS \<longrightarrow> ''elevated'' \<in> set (is_permissions s) \<and> au_elevatedConfirmation input) \<and>
         im_audit m' = allowed_event input s # ev @ im_audit m)
     else \<exists>reason. im_audit m' = blocked_event input (ad_code d) reason (ad_sessionId d) # ev @ im_audit m"
    using authorize_cases [OF assms(2)] by blast
  show ?thesis
  proof (cases "ad_allowed d")
    case True
    then obtain s where s: "s \<in> snd ` set (im_sessions m)" "is_maintainerId s = au_maintainerId input" "live now s" "ad_sessionId d = Some (is_id s)"
      "au_action input \<notin> set NEVER_ALLOWED_ACTIONS" "im_audit m' = allowed_event input s # ev @ im_audit m"
      "au_action input \<in> set ELEVATED_ONLY_ACTIONS \<longrightarrow> ''elevated'' \<in> set (is_permissions s) \<and> au_elevatedConfirmation input"
      using c by auto
    then show ?thesis using True ev stored [OF s(1)]
      by (intro exI [of _ ev]) (auto simp: session_ok_def live_def MAX_SESSION_DURATION_MS_def intro!: exI [of _ s])
  next
    case False
    then show ?thesis using c ev by auto
  qed
qed

subsection \<open>Ended sessions\<close>

definition gone :: "string \<Rightarrow> int \<Rightarrow> imp_service \<Rightarrow> bool" where
  "gone k t m \<longleftrightarrow> (\<forall>s. mget (im_sessions m) k = Some s \<longrightarrow> \<not> live t s)"

lemma step_gone:
  assumes "imp_step ids (m, t) (m', t')" and "k \<notin> ids" and "gone k t m"
  shows "gone k t' m'"
  unfolding gone_def
proof (intro allI impI)
  fix q
  assume "mget (im_sessions m') k = Some q"
  then obtain p where p: "mget (im_sessions m) k = Some p"
    "moved t' p q \<or> q = p\<lparr>is_endedAt := Some t', is_endReason := Some Manual\<rparr>"
    using step_change [OF assms(1)] assms(2) unfolding session_change_def by blast
  then have "\<not> live t p" "t \<le> t'" using assms(3) step_change [OF assms(1)] by (auto simp: gone_def)
  then show "\<not> live t' q" using p(2) by (auto simp: live_def moved_def)
qed

lemma run_gone:
  assumes "(imp_step ids)\<^sup>*\<^sup>* x y" and "k \<notin> ids" and "gone k (snd x) (fst x)"
  shows "gone k (snd y) (fst y)"
  using assms(1,3)
proof (induction rule: rtranclp_induct)
  case (step y z)
  then show ?case using step_gone [of ids "fst y" "snd y" "fst z" "snd z" k] assms(2) by simp
qed

text \<open>
  A session that was ended or ran out is never used again: as long as no new session is
  given its identifier, no action is allowed in its name, whatever is done in the meantime.
\<close>

lemma closed_session_unusable:
  assumes "(imp_step UNIV)\<^sup>*\<^sup>* (ImpersonationService_new mx, t0) (m, t)"
    and "mget (im_sessions m) k = Some s" and "is_endedAt s \<noteq> None \<or> is_expiresAt s \<le> t"
    and "(imp_step (- {k}))\<^sup>*\<^sup>* (m, t) (m', t')" and "t' \<le> now" and "authorize input now m' = (d, m2)"
  shows "ad_allowed d \<longrightarrow> ad_sessionId d \<noteq> Some k"
proof
  assume al: "ad_allowed d"
  have ok: "sessions_ok m" "sessions_ok m'" using run_ok [OF assms(1)] run_ok [OF assms(4)] new_ok by simp_all
  have "gone k t m" using assms(2,3) by (auto simp: gone_def live_def)
  then have "gone k t' m'" using run_gone [OF assms(4)] by simp
  then have g: "gone k now m'" using assms(5) by (auto simp: gone_def live_def)
  obtain s' where s': "s' \<in> snd ` set (im_sessions m')" "live now s'" "ad_sessionId d = Some (is_id s')"
    using authorize_cases [OF assms(6)] al by auto
  then obtain j where "(j, s') \<in> set (im_sessions m')" by auto
  moreover have "mwf (im_sessions m')" using ok(2) by (simp add: sessions_ok_def)
  ultimately have j: "mget (im_sessions m') j = Some s'" using mget_values by fast
  then have "is_id s' = j" using ok(2) by (simp add: sessions_ok_def session_ok_def)
  then show "ad_sessionId d \<noteq> Some k" using s' j g by (auto simp: gone_def)
qed

subsection \<open>A session\<close>

definition desk_input :: start_input where
  "desk_input = \<lparr>st_maintainerId = ''ann'', st_targetId = ''G'', st_permissions = None, st_reason = ''ticket 7'', st_durationMs = None,
     st_ip = None, st_userAgent = None\<rparr>"

definition desk_action :: "string \<Rightarrow> auth_input" where
  "desk_action action = \<lparr>au_maintainerId = ''ann'', au_action = action, au_elevatedConfirmation = True, au_ip = None, au_userAgent = None\<rparr>"

definition desk_session :: imp_session where
  "desk_session = \<lparr>is_id = ''s'', is_maintainerId = ''ann'', is_targetId = ''G'', is_permissions = [''read''], is_reason = ''ticket 7'',
     is_startedAt = 0, is_expiresAt = 1800000, is_endedAt = None, is_endReason = None\<rparr>"

definition desk :: imp_service where
  "desk = snd (startSession desk_input ''s'' 0 (ImpersonationService_new None))"

lemma desk_sessions: "im_sessions desk = [(''s'', desk_session)]"
  by (simp add: desk_def startSession_def desk_input_def desk_session_def ImpersonationService_new_def evictOldestIfNeeded_def Let_def
      js_trim_def is_ws_def IMPERSONATION_PERMISSIONS_def DEFAULT_SESSION_DURATION_MS_def MAX_SESSION_DURATION_MS_def js_set_def)

lemma desk_run: "(imp_step UNIV)\<^sup>*\<^sup>* (ImpersonationService_new None, 0) (desk, 0)"
  unfolding desk_def by (rule r_into_rtranclp, rule imp_step.start) simp_all

text \<open>
  The permissions of a session are looked at for irreversible actions only: a session that was
  opened to read may export, notify and do anything else that is not on the list.
\<close>

lemma permissions_not_checked:
  assumes "action \<notin> set NEVER_ALLOWED_ACTIONS" and "action \<notin> set ELEVATED_ONLY_ACTIONS" and "now < 1800000"
  shows "fst (authorize (desk_action action) now desk) = \<lparr>ad_allowed = True, ad_code = ALLOWED, ad_sessionId = Some ''s''\<rparr>"
  using assms by (simp add: authorize_def getActiveSession_def desk_sessions desk_action_def expireIfDue_def desk_session_def Let_def)

text \<open>Witness of C7: the session allows an export.\<close>

theorem impersonation_authorized_witness:
  "\<exists>s. mget (im_sessions desk) (is_id s) = Some s \<and> is_maintainerId s = ''ann'' \<and> 5 < is_expiresAt s \<and>
     ad_allowed (fst (authorize (desk_action ''export'') 5 desk))"
proof -
  have "fst (authorize (desk_action ''export'') 5 desk) = \<lparr>ad_allowed = True, ad_code = ALLOWED, ad_sessionId = Some ''s''\<rparr>"
    by (rule permissions_not_checked) (simp_all add: NEVER_ALLOWED_ACTIONS_def ELEVATED_ONLY_ACTIONS_def)
  then have al: "ad_allowed (fst (authorize (desk_action ''export'') 5 desk))" by simp
  then show ?thesis
    using impersonation_authorized [OF desk_run, of "desk_action ''export''" 5] by (cases "authorize (desk_action ''export'') 5 desk") (auto simp: desk_action_def)
qed

text \<open>Ended by its maintainer, the session is of no use at the next moment.\<close>

lemma closed_session_unusable_witness:
  "ad_sessionId (fst (authorize (desk_action ''export'') 2 (snd (endSession ''s'' None 1 desk)))) = Some ''s'' \<and>
   \<not> ad_allowed (fst (authorize (desk_action ''export'') 2 (snd (endSession ''s'' None 1 desk))))"
proof -
  let ?m = "snd (endSession ''s'' None 1 desk)"
  have r: "(imp_step UNIV)\<^sup>*\<^sup>* (ImpersonationService_new None, 0) (?m, 1)"
    using desk_run by (rule rtranclp.rtrancl_into_rtrancl) (rule imp_step.finish, simp)
  have m: "im_sessions ?m = [(''s'', desk_session\<lparr>is_endedAt := Some 1, is_endReason := Some Manual\<rparr>)]"
    by (simp add: endSession_def desk_sessions desk_session_def)
  then have g: "mget (im_sessions ?m) ''s'' = Some (desk_session\<lparr>is_endedAt := Some 1, is_endReason := Some Manual\<rparr>)" by simp
  obtain d m2 where a: "authorize (desk_action ''export'') 2 ?m = (d, m2)" by fastforce
  have i: "ad_sessionId (fst (authorize (desk_action ''export'') 2 ?m)) = Some ''s''"
    by (simp add: authorize_def getActiveSession_def m desk_action_def desk_session_def findClosedSession_def deny_def Let_def
        NEVER_ALLOWED_ACTIONS_def)
  show ?thesis using closed_session_unusable [OF r g _ rtranclp.rtrancl_refl _ a] a i by auto
qed

text \<open>
  When the service is full, the session that was started first is dropped whether or not it is
  live, and nothing is audited for it.
\<close>

lemma evicted_without_audit: "im_audit (evictOldestIfNeeded m) = im_audit m"
  by (simp add: evictOldestIfNeeded_def split: list.split)

lemma live_session_evicted:
  "mget (im_sessions (snd (startSession (desk_input\<lparr>st_maintainerId := ''bob''\<rparr>) ''t'' 1 (desk\<lparr>im_maxSessions := 1\<rparr>)))) ''s'' = None \<and>
   length (im_audit (snd (startSession (desk_input\<lparr>st_maintainerId := ''bob''\<rparr>) ''t'' 1 (desk\<lparr>im_maxSessions := 1\<rparr>)))) = Suc (length (im_audit desk))"
proof -
  have "evictOldestIfNeeded (desk\<lparr>im_maxSessions := 1, im_sessions := [(''s'', desk_session), (''t'', q)]\<rparr>) =
      desk\<lparr>im_maxSessions := 1, im_sessions := [(''t'', q)]\<rparr>" if "is_startedAt q = 1" "is_id q = ''t''" for q
    using that by (simp add: evictOldestIfNeeded_def session_cmp_def desk_session_def mdelete_def)
  then show ?thesis
    by (simp add: startSession_def desk_input_def desk_sessions Let_def js_trim_def is_ws_def IMPERSONATION_PERMISSIONS_def
      DEFAULT_SESSION_DURATION_MS_def MAX_SESSION_DURATION_MS_def)
qed

end
