(* ===== verification/Degraded_Mode.thy ===== *)
theory Degraded_Mode
  imports Redaction Stable_Cursor
begin

text \<open>
  Degraded operation when a dependency fails, \<open>backend/src/ops/dependency-degradation.ts\<close> and
  \<open>backend/src/ops/degraded-mode.service.ts\<close>. How a probe ends is an argument of the call that runs it; times
  are time values. \<open>getStatus\<close> waits for the probes, so it is two parts: one that answers from the cache or
  starts the probes, and one that runs when they ended. A response is its status, code and headers.
\<close>

subsection \<open>The matrix\<close>

datatype dependency_id = Stellar_horizon | Postgres | Redis_queue | Email_provider

datatype dependency_state = Healthy | Degraded | Down | Unknown_state

datatype capability = Invoice_create | Invoice_read | Payment_verify | Export_create | Notification_send | Job_enqueue

datatype fallback_mode = Defer | Serve_stale | Refuse

record capability_fallback =
  cf_capability :: capability
  cf_mode :: fallback_mode
  cf_httpStatus :: nat
  cf_code :: string
  cf_userMessage :: string

record dependency_spec =
  ds_id :: dependency_id
  ds_name :: string
  ds_failureModes :: "(string \<times> re) list"
  ds_fallbacks :: "capability_fallback list"
  ds_retryAfterSeconds :: nat
  ds_degradedLatencyMs :: int
  ds_runbook :: string

definition re_dot :: "char \<Rightarrow> bool" where
  "re_dot c \<longleftrightarrow> c \<noteq> CHR 0x0A \<and> c \<noteq> CHR 0x0D"

definition re_opt :: "re \<Rightarrow> re" where
  "re_opt r = RAlt r REps"

fun re_test :: "re \<Rightarrow> char option \<Rightarrow> string \<Rightarrow> bool" where
  "re_test r prev [] = (re_run r prev [] \<noteq> [])"
| "re_test r prev (c # s) = (re_run r prev (c # s) \<noteq> [] \<or> re_test r (Some c) s)"

definition re_number :: "string \<Rightarrow> re" where
  "re_number n = re_all [RBound, re_lit n, RBound]"

definition re_rate_limit :: re where
  "re_rate_limit = re_all [re_word ''rate'', re_opt (RClass re_dot), re_word ''limit'']"

definition RUNBOOK :: string where
  "RUNBOOK = ''docs/DEPENDENCY-DEGRADATION.md''"

definition horizon_spec :: dependency_spec where
  "horizon_spec =
     \<lparr>ds_id = Stellar_horizon, ds_name = ''Stellar Horizon API'',
      ds_failureModes =
        [(''HORIZON_TIMEOUT'', re_any (map re_word [''timeout'', ''ETIMEDOUT'', ''ESOCKETTIMEDOUT''])),
         (''HORIZON_UNREACHABLE'', re_any (map re_word [''ECONNREFUSED'', ''ENOTFOUND'', ''EAI_AGAIN'', ''ECONNRESET''])),
         (''HORIZON_RATE_LIMITED'', re_any [re_number ''429'', re_rate_limit]),
         (''HORIZON_5XX'', re_any [re_all [RBound, re_lit ''5'', re_times 2 is_digit, RBound], re_word ''bad gateway'', re_word ''service unavailable''])],
      ds_fallbacks =
        [\<lparr>cf_capability = Payment_verify, cf_mode = Defer, cf_httpStatus = 202, cf_code = ''VERIFICATION_DEFERRED'',
          cf_userMessage = ''We could not reach the Stellar network to confirm this payment yet. Your invoice is unchanged; we will retry automatically.''\<rparr>],
      ds_retryAfterSeconds = 30, ds_degradedLatencyMs = 3000, ds_runbook = RUNBOOK @ ''#stellar-horizon''\<rparr>"

definition storage_refused :: "capability \<Rightarrow> string \<Rightarrow> capability_fallback" where
  "storage_refused c message = \<lparr>cf_capability = c, cf_mode = Refuse, cf_httpStatus = 503, cf_code = ''STORAGE_UNAVAILABLE'', cf_userMessage = message\<rparr>"

definition postgres_spec :: dependency_spec where
  "postgres_spec =
     \<lparr>ds_id = Postgres, ds_name = ''PostgreSQL'',
      ds_failureModes =
        [(''DB_UNREACHABLE'', re_any [re_word ''ECONNREFUSED'', re_word ''too many clients'',
            re_all [re_word ''pool'', RStar re_dot, RAlt (re_word ''exhausted'') (re_word ''timeout'')]]),
         (''DB_READ_ONLY'', re_any [re_word ''read-only transaction'', re_all [re_word ''cannot execute '', RStar re_dot, re_word '' in a read-only'']]),
         (''DB_STATEMENT_TIMEOUT'', re_any [re_word ''statement timeout'', re_word ''canceling statement''])],
      ds_fallbacks =
        [storage_refused Invoice_create ''Invoices cannot be created right now. Nothing was saved; please try again shortly.'',
         storage_refused Invoice_read ''Invoice data is temporarily unavailable. Please try again shortly.'',
         storage_refused Payment_verify ''Payments cannot be confirmed right now. Your payment is safe on-chain; please retry shortly.'',
         storage_refused Export_create ''Exports are temporarily unavailable. Please try again shortly.''],
      ds_retryAfterSeconds = 15, ds_degradedLatencyMs = 1000, ds_runbook = RUNBOOK @ ''#postgres''\<rparr>"

definition redis_spec :: dependency_spec where
  "redis_spec =
     \<lparr>ds_id = Redis_queue, ds_name = ''Redis / job queue'',
      ds_failureModes =
        [(''QUEUE_UNREACHABLE'', re_any (map re_word [''ECONNREFUSED'', ''Connection is closed'', ''ENOTFOUND''])),
         (''QUEUE_READONLY'', re_lit ''READONLY''),
         (''QUEUE_OOM'', re_word ''OOM command not allowed'')],
      ds_fallbacks =
        [\<lparr>cf_capability = Job_enqueue, cf_mode = Defer, cf_httpStatus = 202, cf_code = ''JOB_DEFERRED'',
          cf_userMessage = ''Your request was accepted and will be processed when background processing recovers.''\<rparr>,
         \<lparr>cf_capability = Notification_send, cf_mode = Defer, cf_httpStatus = 202, cf_code = ''NOTIFICATION_DEFERRED'',
          cf_userMessage = ''Notifications are delayed. They will be delivered once processing recovers.''\<rparr>],
      ds_retryAfterSeconds = 10, ds_degradedLatencyMs = 500, ds_runbook = RUNBOOK @ ''#redis-queue''\<rparr>"

definition email_spec :: dependency_spec where
  "email_spec =
     \<lparr>ds_id = Email_provider, ds_name = ''Email provider (SMTP/API)'',
      ds_failureModes =
        [(''EMAIL_AUTH'', re_any [re_number ''535'', re_all [re_word ''auth'', re_opt (re_word ''entication''), re_word '' failed''], re_word ''invalid login'']),
         (''EMAIL_THROTTLED'', re_any [re_number ''421'', re_number ''429'', re_word ''throttl'', re_rate_limit]),
         (''EMAIL_UNREACHABLE'', re_any (map re_word [''ECONNREFUSED'', ''ETIMEDOUT'', ''ENOTFOUND'']))],
      ds_fallbacks =
        [\<lparr>cf_capability = Notification_send, cf_mode = Defer, cf_httpStatus = 202, cf_code = ''EMAIL_DEFERRED'',
          cf_userMessage = ''Email delivery is delayed. The invoice link still works and can be shared directly.''\<rparr>],
      ds_retryAfterSeconds = 60, ds_degradedLatencyMs = 5000, ds_runbook = RUNBOOK @ ''#email-provider''\<rparr>"

definition DEPENDENCY_MATRIX :: "dependency_spec list" where
  "DEPENDENCY_MATRIX = [horizon_spec, postgres_spec, redis_spec, email_spec]"

text \<open>Every dependency has an entry, so the error for an unknown one is never raised.\<close>

definition specFor :: "dependency_id \<Rightarrow> dependency_spec" where
  "specFor dep = the (List.find (\<lambda>d. ds_id d = dep) DEPENDENCY_MATRIX)"

subsection \<open>Evaluation\<close>

definition REDACT :: "re list" where
  "REDACT =
     [re_all [RBound, re_lit ''S'', re_times 55 (\<lambda>c. let n = of_char c :: nat in (65 \<le> n \<and> n \<le> 90) \<or> (50 \<le> n \<and> n \<le> 55)), RBound],
      re_all [RGroup 1 (re_all [re_lit ''://'', re_plus (\<lambda>c. c \<notin> set '':/'' \<and> \<not> is_ws c), re_lit '':'']),
        re_plus (\<lambda>c. c \<noteq> CHR ''@'' \<and> \<not> is_ws c), re_lit ''@''],
      re_all [RGroup 1 (re_all [re_any [re_word ''password'', re_word ''token'', re_word ''secret'',
            re_all [re_word ''api'', re_opt (RClass (\<lambda>c. c \<in> set ''_-'')), re_word ''key'']],
          RStar is_ws, RClass (\<lambda>c. c \<in> set ''=:''), RStar is_ws]),
        re_plus (\<lambda>c. \<not> is_ws c \<and> c \<notin> set '',;&'')]]"

definition redact_match :: "(nat \<times> string) list \<Rightarrow> string" where
  "redact_match g =
     (case mget g 1 of
        Some p \<Rightarrow> p @ ''[REDACTED]'' @ (if group_of 0 g \<noteq> [] \<and> last (group_of 0 g) = CHR ''@'' then ''@'' else [])
      | None \<Rightarrow> ''[REDACTED]'')"

definition redactError :: "string \<Rightarrow> string" where
  "redactError msg = take 300 (foldl (\<lambda>out r. re_replace (RGroup 0 r) redact_match None out) msg REDACT)"

definition classifyFailure :: "dependency_id \<Rightarrow> string \<Rightarrow> string" where
  "classifyFailure dep message =
     (case List.find (\<lambda>f. re_test (snd f) None message) (ds_failureModes (specFor dep)) of Some f \<Rightarrow> fst f | None \<Rightarrow> ''UNCLASSIFIED'')"

record probe_result =
  pr_ok :: bool
  pr_latencyMs :: "jsnum option"
  pr_error :: "string option"

record dependency_status =
  st_id :: dependency_id
  st_name :: string
  st_state :: dependency_state
  st_failureMode :: "string option"
  st_latencyMs :: "jsnum option"
  st_error :: "string option"
  st_affected :: "capability list"
  st_retryAfterSeconds :: nat
  st_runbook :: string

fun exceeds :: "jsnum \<Rightarrow> int \<Rightarrow> bool" where
  "exceeds (Num q) n = (q > of_int n)"
| "exceeds Infinity n = True"
| "exceeds _ n = False"

definition evaluateDependency :: "dependency_id \<Rightarrow> probe_result option \<Rightarrow> dependency_status" where
  "evaluateDependency dep probe =
     (let spec = specFor dep;
          base = \<lparr>st_id = dep, st_name = ds_name spec, st_state = Unknown_state, st_failureMode = None, st_latencyMs = None,
            st_error = None, st_affected = [], st_retryAfterSeconds = ds_retryAfterSeconds spec, st_runbook = ds_runbook spec\<rparr>
      in case probe of
           None \<Rightarrow> base
         | Some p \<Rightarrow>
             if \<not> pr_ok p then
               let msg = (case pr_error p of Some m \<Rightarrow> m | None \<Rightarrow> ''probe failed'')
               in base\<lparr>st_state := Down, st_failureMode := Some (classifyFailure dep msg), st_latencyMs := pr_latencyMs p,
                    st_error := Some (redactError msg), st_affected := map cf_capability (ds_fallbacks spec)\<rparr>
             else
               let slow = (case pr_latencyMs p of None \<Rightarrow> False | Some l \<Rightarrow> exceeds l (ds_degradedLatencyMs spec))
               in base\<lparr>st_state := (if slow then Degraded else Healthy), st_failureMode := (if slow then Some ''SLOW_RESPONSE'' else None),
                    st_latencyMs := pr_latencyMs p\<rparr>)"

fun RANK :: "dependency_state \<Rightarrow> nat" where
  "RANK Healthy = 0"
| "RANK Unknown_state = 1"
| "RANK Degraded = 2"
| "RANK Down = 3"

definition overall_state :: "dependency_status list \<Rightarrow> dependency_state" where
  "overall_state deps = foldl (\<lambda>worst d. if RANK (st_state d) > RANK worst then st_state d else worst) Healthy deps"

record degradation_report =
  dr_generatedAt :: int
  dr_overall :: dependency_state
  dr_dependencies :: "dependency_status list"

text \<open>How a probe ends, and the milliseconds it took: it returns nothing or a result, throws, or hangs.\<close>

datatype probe_outcome = Probe_void | Probe_returned probe_result | Probe_threw string | Probe_hung

definition run_probe :: "int \<Rightarrow> dependency_id \<Rightarrow> probe_outcome \<Rightarrow> int \<Rightarrow> dependency_status" where
  "run_probe timeoutMs dep outcome elapsed =
     (let took = Num (of_int elapsed)
      in evaluateDependency dep (Some (case outcome of
           Probe_void \<Rightarrow> \<lparr>pr_ok = True, pr_latencyMs = Some took, pr_error = None\<rparr>
         | Probe_returned r \<Rightarrow> r\<lparr>pr_latencyMs := Some (case pr_latencyMs r of Some l \<Rightarrow> l | None \<Rightarrow> took)\<rparr>
         | Probe_threw message \<Rightarrow> \<lparr>pr_ok = False, pr_latencyMs = Some took, pr_error = Some message\<rparr>
         | Probe_hung \<Rightarrow> \<lparr>pr_ok = False, pr_latencyMs = Some took, pr_error = Some (''probe timeout after '' @ int_text timeoutMs @ ''ms'')\<rparr>)))"

definition runDependencyChecks ::
  "dependency_id list \<Rightarrow> (dependency_id \<Rightarrow> probe_outcome \<times> int) \<Rightarrow> int \<Rightarrow> int \<Rightarrow> degradation_report" where
  "runDependencyChecks probes outcomes timeoutMs now =
     (let deps = map (\<lambda>spec. if ds_id spec \<notin> set probes then evaluateDependency (ds_id spec) None
            else run_probe timeoutMs (ds_id spec) (fst (outcomes (ds_id spec))) (snd (outcomes (ds_id spec)))) DEPENDENCY_MATRIX
      in \<lparr>dr_generatedAt = now, dr_overall = overall_state deps, dr_dependencies = deps\<rparr>)"

record chosen_fallback =
  ch_fallback :: capability_fallback
  ch_dependency :: dependency_id
  ch_retryAfterSeconds :: nat

record capability_decision =
  cd_capability :: capability
  cd_allowed :: bool
  cd_fallback :: "chosen_fallback option"

fun fallback_severity :: "fallback_mode \<Rightarrow> nat" where
  "fallback_severity Serve_stale = 0"
| "fallback_severity Defer = 1"
| "fallback_severity Refuse = 2"

definition fallback_for :: "dependency_id \<Rightarrow> capability \<Rightarrow> capability_fallback option" where
  "fallback_for dep c = List.find (\<lambda>f. cf_capability f = c) (ds_fallbacks (specFor dep))"

definition choose_fallback :: "capability \<Rightarrow> chosen_fallback option \<Rightarrow> dependency_status \<Rightarrow> chosen_fallback option" where
  "choose_fallback c chosen dep =
     (if st_state dep \<noteq> Down then chosen
      else (case fallback_for (st_id dep) c of
          None \<Rightarrow> chosen
        | Some fb \<Rightarrow>
            let this_one = Some \<lparr>ch_fallback = fb, ch_dependency = st_id dep, ch_retryAfterSeconds = st_retryAfterSeconds dep\<rparr>
            in (case chosen of
                None \<Rightarrow> this_one
              | Some old \<Rightarrow> if fallback_severity (cf_mode fb) > fallback_severity (cf_mode (ch_fallback old)) then this_one else chosen)))"

definition capabilityStatus :: "degradation_report \<Rightarrow> capability \<Rightarrow> capability_decision" where
  "capabilityStatus report c =
     (let chosen = foldl (choose_fallback c) None (dr_dependencies report)
      in \<lparr>cd_capability = c, cd_allowed = (chosen = None), cd_fallback = chosen\<rparr>)"

subsection \<open>The service\<close>

record manual_override =
  mo_dependency :: dependency_id
  mo_state :: dependency_state
  mo_reason :: string
  mo_setBy :: string
  mo_setAt :: int

record degraded_service =
  dm_probes :: "dependency_id list"
  dm_overrides :: "(dependency_id, manual_override) jsmap"
  dm_cachedReport :: "degradation_report option"
  dm_cacheTtlMs :: int
  dm_lastReportTime :: int

definition DegradedModeService_new :: "dependency_id list \<Rightarrow> int option \<Rightarrow> degraded_service" where
  "DegradedModeService_new probes ttl =
     \<lparr>dm_probes = probes, dm_overrides = [], dm_cachedReport = None, dm_cacheTtlMs = (case ttl of Some n \<Rightarrow> n | None \<Rightarrow> 5000), dm_lastReportTime = 0\<rparr>"

definition registerProbe :: "dependency_id \<Rightarrow> degraded_service \<Rightarrow> degraded_service" where
  "registerProbe dep s = s\<lparr>dm_probes := dep # dm_probes s, dm_cachedReport := None\<rparr>"

definition setOverride ::
  "dependency_id \<Rightarrow> dependency_state \<Rightarrow> string \<Rightarrow> string option \<Rightarrow> int \<Rightarrow> degraded_service \<Rightarrow> manual_override \<times> degraded_service" where
  "setOverride dep state reason setBy now s =
     (let ov = \<lparr>mo_dependency = dep, mo_state = state, mo_reason = reason,
            mo_setBy = (case setBy of Some b \<Rightarrow> b | None \<Rightarrow> ''operator''), mo_setAt = now\<rparr>
      in (ov, s\<lparr>dm_overrides := mset_kv dep ov (dm_overrides s), dm_cachedReport := None\<rparr>))"

definition clearOverride :: "dependency_id \<Rightarrow> degraded_service \<Rightarrow> bool \<times> degraded_service" where
  "clearOverride dep s =
     (let deleted = mhas (dm_overrides s) dep
      in (deleted, if deleted then s\<lparr>dm_overrides := mdelete dep (dm_overrides s), dm_cachedReport := None\<rparr> else s))"

definition clearAllOverrides :: "degraded_service \<Rightarrow> degraded_service" where
  "clearAllOverrides s = s\<lparr>dm_overrides := [], dm_cachedReport := None\<rparr>"

definition getOverrides :: "degraded_service \<Rightarrow> (dependency_id, manual_override) jsmap" where
  "getOverrides s = dm_overrides s"

definition degraded_recordFailure :: "dependency_id \<Rightarrow> string \<Rightarrow> degraded_service \<Rightarrow> string \<times> degraded_service" where
  "degraded_recordFailure dep message s = (classifyFailure dep message, s\<lparr>dm_cachedReport := None\<rparr>)"

definition override_status :: "(dependency_id, manual_override) jsmap \<Rightarrow> dependency_status \<Rightarrow> dependency_status" where
  "override_status overrides dep =
     (case mget overrides (st_id dep) of
        None \<Rightarrow> dep
      | Some ov \<Rightarrow>
          dep\<lparr>st_state := mo_state ov,
            st_failureMode := (if mo_state ov = Healthy then None else Some ''MANUAL_OVERRIDE''),
            st_error := (if mo_state ov = Healthy then None else Some (''Manual override: '' @ mo_reason ov)),
            st_affected := (if mo_state ov = Down then map cf_capability (ds_fallbacks (specFor (st_id dep))) else [])\<rparr>)"

definition applyOverridesToReport :: "(dependency_id, manual_override) jsmap \<Rightarrow> degradation_report \<Rightarrow> int \<Rightarrow> degradation_report" where
  "applyOverridesToReport overrides report now =
     (if overrides = [] then report
      else let deps = map (override_status overrides) (dr_dependencies report)
           in \<lparr>dr_generatedAt = now, dr_overall = overall_state deps, dr_dependencies = deps\<rparr>)"

record degraded_status =
  dg_generatedAt :: int
  dg_overall :: dependency_state
  dg_dependencies :: "dependency_status list"
  dg_overrides :: "(dependency_id, manual_override) jsmap"
  dg_capabilities :: "capability \<Rightarrow> capability_decision"

definition buildStatusFromReport :: "degradation_report \<Rightarrow> int \<Rightarrow> degraded_service \<Rightarrow> degraded_status" where
  "buildStatusFromReport report now s =
     \<lparr>dg_generatedAt = now, dg_overall = dr_overall report, dg_dependencies = dr_dependencies report, dg_overrides = getOverrides s,
      dg_capabilities = capabilityStatus report\<rparr>"

text \<open>The first part answers from the cache, or starts the probes; the second caches and answers.\<close>

definition getStatus_cached :: "bool \<Rightarrow> int \<Rightarrow> int \<Rightarrow> degraded_service \<Rightarrow> degraded_status option" where
  "getStatus_cached forceRefresh nowTime now s =
     (case dm_cachedReport s of
        None \<Rightarrow> None
      | Some r \<Rightarrow>
          if \<not> forceRefresh \<and> nowTime - dm_lastReportTime s < dm_cacheTtlMs s \<and> dm_overrides s = []
          then Some (buildStatusFromReport r now s) else None)"

definition getStatus_checked ::
  "int \<Rightarrow> degradation_report \<Rightarrow> int \<Rightarrow> int \<Rightarrow> degraded_service \<Rightarrow> degraded_status \<times> degraded_service" where
  "getStatus_checked nowTime baseReport now1 now2 s =
     (let merged = applyOverridesToReport (dm_overrides s) baseReport now1;
          s1 = s\<lparr>dm_cachedReport := Some merged, dm_lastReportTime := nowTime\<rparr>
      in (buildStatusFromReport merged now2 s1, s1))"

definition checkCapability :: "capability \<Rightarrow> degraded_status \<Rightarrow> capability_decision" where
  "checkCapability c status = dg_capabilities status c"

record degraded_response =
  rs_status :: nat
  rs_code :: string
  rs_error :: string
  rs_retryAfter :: "nat option"
  rs_dependency :: "dependency_id option"

definition sendDegradedResponse :: "capability_decision \<Rightarrow> degraded_response" where
  "sendDegradedResponse decision =
     (case cd_fallback decision of
        None \<Rightarrow> \<lparr>rs_status = 503, rs_code = ''SERVICE_DEGRADED'', rs_error = ''Service is temporarily degraded. Please try again shortly.'',
          rs_retryAfter = None, rs_dependency = None\<rparr>
      | Some fb \<Rightarrow> \<lparr>rs_status = cf_httpStatus (ch_fallback fb), rs_code = cf_code (ch_fallback fb), rs_error = cf_userMessage (ch_fallback fb),
          rs_retryAfter = Some (ch_retryAfterSeconds fb), rs_dependency = Some (ch_dependency fb)\<rparr>)"

text \<open>\<open>None\<close> is that the request goes on.\<close>

definition requireCapability :: "capability \<Rightarrow> degraded_status \<Rightarrow> degraded_response option" where
  "requireCapability c status =
     (let decision = checkCapability c status
      in if \<not> cd_allowed decision \<and> cd_fallback decision \<noteq> None then Some (sendDegradedResponse decision) else None)"

definition classifyUpstreamError :: "dependency_id \<Rightarrow> capability \<Rightarrow> string \<Rightarrow> chosen_fallback option" where
  "classifyUpstreamError dep c message =
     (if classifyFailure dep message = ''UNCLASSIFIED'' then None
      else (case fallback_for dep c of
          None \<Rightarrow> None
        | Some fb \<Rightarrow> Some \<lparr>ch_fallback = fb, ch_dependency = dep, ch_retryAfterSeconds = ds_retryAfterSeconds (specFor dep)\<rparr>))"

end
