(* ===== verification/Degraded_Properties.thy ===== *)
theory Degraded_Properties
  imports Degraded_Mode
begin

text \<open>
  What degraded operation guarantees: a capability is blocked exactly by the dependencies that are
  down and list it, with the most severe fallback, and the status that is served reflects the
  overrides in force and a check of the dependencies that is not older than the cache allows, however the
  calls interleave.
\<close>

subsection \<open>Decisions\<close>

definition blocks_capability :: "capability \<Rightarrow> dependency_status \<Rightarrow> bool" where
  "blocks_capability c d \<longleftrightarrow> st_state d = Down \<and> fallback_for (st_id d) c \<noteq> None"

lemma choose_skip: "\<not> blocks_capability c d \<Longrightarrow> choose_fallback c chosen d = chosen"
  by (auto simp: blocks_capability_def choose_fallback_def)

lemma choose_block:
  assumes "blocks_capability c d"
  obtains fb where "fallback_for (st_id d) c = Some fb"
    and "choose_fallback c chosen d =
      (if \<exists>old. chosen = Some old \<and> fallback_severity (cf_mode fb) \<le> fallback_severity (cf_mode (ch_fallback old)) then chosen
       else Some \<lparr>ch_fallback = fb, ch_dependency = st_id d, ch_retryAfterSeconds = st_retryAfterSeconds d\<rparr>)"
proof -
  obtain fb where "fallback_for (st_id d) c = Some fb" "st_state d = Down" using assms by (auto simp: blocks_capability_def)
  then show ?thesis using that by (cases chosen) (simp_all add: choose_fallback_def)
qed

definition chosen_from :: "capability \<Rightarrow> dependency_status list \<Rightarrow> chosen_fallback \<Rightarrow> bool" where
  "chosen_from c ds ch \<longleftrightarrow> (\<exists>d\<in>set ds. blocks_capability c d \<and> fallback_for (st_id d) c = Some (ch_fallback ch) \<and>
     ch_dependency ch = st_id d \<and> ch_retryAfterSeconds ch = st_retryAfterSeconds d)"

lemma chosen_snoc:
  "foldl (choose_fallback c) None ds = chosen \<Longrightarrow>
     (chosen = None \<longleftrightarrow> (\<forall>d\<in>set ds. \<not> blocks_capability c d)) \<and>
     (\<forall>ch. chosen = Some ch \<longrightarrow> chosen_from c ds ch \<and>
       (\<forall>d\<in>set ds. \<forall>fb. blocks_capability c d \<and> fallback_for (st_id d) c = Some fb \<longrightarrow> fallback_severity (cf_mode fb) \<le> fallback_severity (cf_mode (ch_fallback ch))))"
proof (induction ds arbitrary: chosen rule: rev_induct)
  case (snoc d ds)
  define old where "old = foldl (choose_fallback c) None ds"
  have new: "chosen = choose_fallback c old d" using snoc.prems by (simp add: old_def)
  note ih = snoc.IH [OF old_def [symmetric]]
  have more: "chosen_from c ds ch \<Longrightarrow> chosen_from c (ds @ [d]) ch" for ch by (auto simp: chosen_from_def)
  show ?case
  proof (cases "blocks_capability c d")
    case False
    then show ?thesis using ih more choose_skip [OF False, of old] new by auto
  next
    case True
    from choose_block [OF this, of old] obtain fb where fb: "fallback_for (st_id d) c = Some fb"
      and ch: "choose_fallback c old d =
        (if \<exists>o1. old = Some o1 \<and> fallback_severity (cf_mode fb) \<le> fallback_severity (cf_mode (ch_fallback o1)) then old
         else Some \<lparr>ch_fallback = fb, ch_dependency = st_id d, ch_retryAfterSeconds = st_retryAfterSeconds d\<rparr>)" by metis
    show ?thesis
    proof (cases "\<exists>o1. old = Some o1 \<and> fallback_severity (cf_mode fb) \<le> fallback_severity (cf_mode (ch_fallback o1))")
      case True
      then show ?thesis using ih more new ch fb \<open>blocks_capability c d\<close> by auto
    next
      case False
      have c: "chosen_from c (ds @ [d]) \<lparr>ch_fallback = fb, ch_dependency = st_id d, ch_retryAfterSeconds = st_retryAfterSeconds d\<rparr>"
        using True fb by (auto simp: chosen_from_def)
      have "fallback_severity (cf_mode f) \<le> fallback_severity (cf_mode fb)" if "d' \<in> set ds" "blocks_capability c d'" "fallback_for (st_id d') c = Some f" for d' f
      proof (cases old)
        case None
        then show ?thesis using ih that by auto
      next
        case (Some o1)
        then have "fallback_severity (cf_mode f) \<le> fallback_severity (cf_mode (ch_fallback o1))" using ih that by blast
        then show ?thesis using False Some by auto
      qed
      then show ?thesis using c new ch False fb True by auto
    qed
  qed
qed auto

lemma capabilityStatus_spec:
  "cd_allowed (capabilityStatus r c) \<longleftrightarrow> (\<forall>d\<in>set (dr_dependencies r). \<not> blocks_capability c d)"
  "cd_fallback (capabilityStatus r c) = Some ch \<Longrightarrow> chosen_from c (dr_dependencies r) ch \<and>
     (\<forall>d\<in>set (dr_dependencies r). \<forall>fb. blocks_capability c d \<and> fallback_for (st_id d) c = Some fb \<longrightarrow> fallback_severity (cf_mode fb) \<le> fallback_severity (cf_mode (ch_fallback ch)))"
  "cd_allowed (capabilityStatus r c) \<longleftrightarrow> cd_fallback (capabilityStatus r c) = None"
  using chosen_snoc [OF refl, of c "dr_dependencies r"] by (auto simp: capabilityStatus_def Let_def)

subsection \<open>Reports\<close>

text \<open>The state a report gives a dependency.\<close>

definition report_state :: "degradation_report \<Rightarrow> dependency_id \<Rightarrow> dependency_state" where
  "report_state r dep = (case List.find (\<lambda>d. st_id d = dep) (dr_dependencies r) of Some d \<Rightarrow> st_state d | None \<Rightarrow> Unknown_state)"

lemma evaluate_id [simp]: "st_id (evaluateDependency dep p) = dep"
  by (simp add: evaluateDependency_def Let_def split: option.split)

lemma run_probe_id [simp]: "st_id (run_probe t dep out e) = dep"
  by (simp add: run_probe_def Let_def)

lemma matrix_ids: "map ds_id DEPENDENCY_MATRIX = [Stellar_horizon, Postgres, Redis_queue, Email_provider]"
  by (simp add: DEPENDENCY_MATRIX_def horizon_spec_def postgres_spec_def redis_spec_def email_spec_def)

definition complete_report :: "degradation_report \<Rightarrow> bool" where
  "complete_report r \<longleftrightarrow> map st_id (dr_dependencies r) = [Stellar_horizon, Postgres, Redis_queue, Email_provider]"

lemma checks_complete: "complete_report (runDependencyChecks ps outs t n)"
proof -
  have "map st_id (dr_dependencies (runDependencyChecks ps outs t n)) = map ds_id DEPENDENCY_MATRIX"
    by (simp add: runDependencyChecks_def Let_def comp_def)
  then show ?thesis by (simp add: complete_report_def matrix_ids)
qed

lemma override_id [simp]: "st_id (override_status ov d) = st_id d"
  by (simp add: override_status_def split: option.split)

lemma override_complete: "complete_report r \<Longrightarrow> complete_report (applyOverridesToReport ov r n)"
  by (simp add: complete_report_def applyOverridesToReport_def Let_def comp_def)

lemma complete_find:
  assumes "complete_report r" shows "d \<in> set (dr_dependencies r) \<longleftrightarrow> List.find (\<lambda>e. st_id e = st_id d) (dr_dependencies r) = Some d"
    and "\<exists>d\<in>set (dr_dependencies r). st_id d = dep"
proof -
  obtain a b c e where "dr_dependencies r = [a, b, c, e]" "st_id a = Stellar_horizon" "st_id b = Postgres" "st_id c = Redis_queue" "st_id e = Email_provider"
    using assms by (auto simp: complete_report_def map_eq_Cons_conv)
  then show "d \<in> set (dr_dependencies r) \<longleftrightarrow> List.find (\<lambda>e. st_id e = st_id d) (dr_dependencies r) = Some d"
    "\<exists>d\<in>set (dr_dependencies r). st_id d = dep" by (auto) (cases dep; auto)+
qed

lemma report_state_iff: "complete_report r \<Longrightarrow> d \<in> set (dr_dependencies r) \<Longrightarrow> report_state r (st_id d) = st_state d"
  using complete_find(1) [of r d] by (simp add: report_state_def)

definition effective_state :: "(dependency_id, manual_override) jsmap \<Rightarrow> degradation_report \<Rightarrow> dependency_id \<Rightarrow> dependency_state" where
  "effective_state ov base dep = (case mget ov dep of Some o1 \<Rightarrow> mo_state o1 | None \<Rightarrow> report_state base dep)"

lemma override_state:
  assumes "complete_report base"
  shows "report_state (applyOverridesToReport ov base n) dep = effective_state ov base dep"
proof -
  obtain d where d: "d \<in> set (dr_dependencies base)" "st_id d = dep" using complete_find(2) [OF assms] by blast
  show ?thesis
  proof (cases "ov = []")
    case True
    then show ?thesis by (simp add: applyOverridesToReport_def effective_state_def)
  next
    case False
    then have "override_status ov d \<in> set (dr_dependencies (applyOverridesToReport ov base n))"
      using d by (simp add: applyOverridesToReport_def Let_def)
    from report_state_iff [OF override_complete [OF assms] this] have
      "report_state (applyOverridesToReport ov base n) dep = st_state (override_status ov d)" by (simp add: d(2))
    then show ?thesis using report_state_iff [OF assms d(1)] d(2) by (simp add: override_status_def effective_state_def split: option.split)
  qed
qed

lemma allowed_effective:
  assumes "complete_report base"
  shows "cd_allowed (capabilityStatus (applyOverridesToReport ov base n) c) \<longleftrightarrow>
    (\<forall>dep. effective_state ov base dep = Down \<longrightarrow> fallback_for dep c = None)"
proof -
  let ?r = "applyOverridesToReport ov base n"
  note cr = override_complete [OF assms, of ov n]
  have "(\<forall>d\<in>set (dr_dependencies ?r). \<not> blocks_capability c d) \<longleftrightarrow> (\<forall>dep. report_state ?r dep = Down \<longrightarrow> fallback_for dep c = None)"
    using complete_find(2) [OF cr] report_state_iff [OF cr] unfolding blocks_capability_def by metis
  then show ?thesis by (simp add: capabilityStatus_spec(1) override_state [OF assms])
qed

subsection \<open>Interleaved calls\<close>

text \<open>
  A check holds the probes registered when it began and the time at which it began; between its
  beginning and its end any other call may run. The finished checks are kept as a ghost.
\<close>

record dm_system =
  sys_service :: degraded_service
  sys_pending :: "(int \<times> dependency_id list) list"
  sys_checks :: "(int \<times> degradation_report) list"

definition finish_check :: "int \<Rightarrow> degradation_report \<Rightarrow> int \<Rightarrow> int \<Rightarrow> dm_system \<Rightarrow> dm_system" where
  "finish_check b base n1 n2 y =
     y\<lparr>sys_service := snd (getStatus_checked b base n1 n2 (sys_service y)), sys_checks := (b, base) # sys_checks y\<rparr>"

inductive dm_run :: "dm_system \<Rightarrow> bool" where
  start: "dm_run \<lparr>sys_service = DegradedModeService_new probes ttl, sys_pending = [], sys_checks = []\<rparr>"
| register: "dm_run y \<Longrightarrow> dm_run (y\<lparr>sys_service := registerProbe dep (sys_service y)\<rparr>)"
| set_override: "dm_run y \<Longrightarrow> dm_run (y\<lparr>sys_service := snd (setOverride dep state reason by_whom n (sys_service y))\<rparr>)"
| clear_override: "dm_run y \<Longrightarrow> dm_run (y\<lparr>sys_service := snd (clearOverride dep (sys_service y))\<rparr>)"
| clear_all: "dm_run y \<Longrightarrow> dm_run (y\<lparr>sys_service := clearAllOverrides (sys_service y)\<rparr>)"
| failure: "dm_run y \<Longrightarrow> dm_run (y\<lparr>sys_service := snd (degraded_recordFailure dep message (sys_service y))\<rparr>)"
| begin_check: "dm_run y \<Longrightarrow> getStatus_cached force b n (sys_service y) = None \<Longrightarrow>
    dm_run (y\<lparr>sys_pending := (b, dm_probes (sys_service y)) # sys_pending y\<rparr>)"
| end_check: "dm_run y \<Longrightarrow> (b, ps) \<in> set (sys_pending y) \<Longrightarrow> base = runDependencyChecks ps outs 5000 n \<Longrightarrow>
    dm_run (finish_check b base n1 n2 (y\<lparr>sys_pending := remove1 (b, ps) (sys_pending y)\<rparr>))"

definition cache_ok :: "dm_system \<Rightarrow> bool" where
  "cache_ok y \<longleftrightarrow> (\<forall>c\<in>set (sys_checks y). complete_report (snd c)) \<and>
     (\<forall>r. dm_cachedReport (sys_service y) = Some r \<longrightarrow>
        (\<exists>base n. (dm_lastReportTime (sys_service y), base) \<in> set (sys_checks y) \<and>
           r = applyOverridesToReport (dm_overrides (sys_service y)) base n))"

lemmas service_ops = registerProbe_def setOverride_def clearOverride_def clearAllOverrides_def degraded_recordFailure_def Let_def

lemma run_cache_ok: "dm_run y \<Longrightarrow> cache_ok y"
proof (induction rule: dm_run.induct)
  case (end_check y b ps base outs n n1 n2)
  then show ?case by (auto simp: cache_ok_def finish_check_def getStatus_checked_def Let_def checks_complete)
qed (auto simp: cache_ok_def service_ops DegradedModeService_new_def)

text \<open>What a status says when it reflects overrides and a check of the dependencies.\<close>

definition reflects :: "degraded_status \<Rightarrow> (dependency_id, manual_override) jsmap \<Rightarrow> degradation_report \<Rightarrow> bool" where
  "reflects status ov base \<longleftrightarrow>
     (\<forall>d\<in>set (dg_dependencies status). st_state d = effective_state ov base (st_id d)) \<and>
     (\<forall>c. (requireCapability c status = None) = (\<forall>dep. effective_state ov base dep = Down \<longrightarrow> fallback_for dep c = None))"

lemma build_reflects:
  assumes "complete_report base"
  shows "reflects (buildStatusFromReport (applyOverridesToReport ov base n) m s) ov base"
proof -
  let ?r = "applyOverridesToReport ov base n"
  have "st_state d = effective_state ov base (st_id d)" if "d \<in> set (dr_dependencies ?r)" for d
    using report_state_iff [OF override_complete [OF assms] that] override_state [OF assms] by simp
  moreover have "requireCapability c (buildStatusFromReport ?r m s) = None \<longleftrightarrow> cd_allowed (capabilityStatus ?r c)" for c
    using capabilityStatus_spec(3) [of ?r c] by (simp add: requireCapability_def checkCapability_def buildStatusFromReport_def Let_def)
  ultimately show ?thesis using allowed_effective [OF assms, of ov n] by (simp add: reflects_def buildStatusFromReport_def)
qed

text \<open>
  C15: However registrations, overrides, failures and checks of the dependencies interleave, an
  answer from the cache reflects the overrides in force (there are none then) and a check begun less than
  the cache's time to live ago; an answer of a finished check reflects the overrides in force when it finished, not those
  when it began. To reflect them is to give every dependency its overridden or checked state and
  to let a request through exactly when no dependency that is down has a fallback for its capability.
\<close>

theorem degraded_status_sound:
  assumes "dm_run y"
  shows "(\<forall>force now n status. getStatus_cached force now n (sys_service y) = Some status \<longrightarrow>
        (\<exists>b base. (b, base) \<in> set (sys_checks y) \<and> now - b < dm_cacheTtlMs (sys_service y) \<and> dm_overrides (sys_service y) = [] \<and> reflects status [] base)) \<and>
      (\<forall>b ps outs k n1 n2 status s1. getStatus_checked b (runDependencyChecks ps outs 5000 k) n1 n2 (sys_service y) = (status, s1) \<longrightarrow>
        reflects status (dm_overrides (sys_service y)) (runDependencyChecks ps outs 5000 k) \<and> dm_overrides s1 = dm_overrides (sys_service y))"
proof (intro conjI allI impI)
  let ?s = "sys_service y"
  fix force now n status assume hit: "getStatus_cached force now n ?s = Some status"
  then obtain r where r: "dm_cachedReport ?s = Some r" "now - dm_lastReportTime ?s < dm_cacheTtlMs ?s" "status = buildStatusFromReport r n ?s"
    "dm_overrides ?s = []" by (auto simp: getStatus_cached_def split: option.splits if_splits)
  with run_cache_ok [OF assms] obtain base m where b: "(dm_lastReportTime ?s, base) \<in> set (sys_checks y)"
    "r = applyOverridesToReport [] base m" "complete_report base" by (fastforce simp: cache_ok_def)
  then show "\<exists>b base. (b, base) \<in> set (sys_checks y) \<and> now - b < dm_cacheTtlMs ?s \<and> dm_overrides ?s = [] \<and> reflects status [] base"
    using build_reflects [OF b(3)] r by metis
qed (use build_reflects [OF checks_complete] in \<open>auto simp: getStatus_checked_def Let_def\<close>)

text \<open>Witness of C1: a database that refuses connections, served from the cache two seconds after the check.\<close>

definition outage_check :: degradation_report where
  "outage_check = runDependencyChecks [Postgres] (\<lambda>_. (Probe_threw ''connect ECONNREFUSED'', 12)) 5000 1000"

definition outage_system :: dm_system where
  "outage_system = finish_check 1000 outage_check 1012 1012
     \<lparr>sys_service = DegradedModeService_new [Postgres] None, sys_pending = [], sys_checks = []\<rparr>"

lemma outage_run: "dm_run outage_system"
proof -
  let ?y = "\<lparr>sys_service = DegradedModeService_new [Postgres] None, sys_pending = [], sys_checks = []\<rparr>"
  have "dm_run (?y\<lparr>sys_pending := (1000, dm_probes (sys_service ?y)) # sys_pending ?y\<rparr>)"
    by (rule begin_check [OF start, of False _ 0]) (simp add: getStatus_cached_def DegradedModeService_new_def)
  from end_check [OF this, of 1000 "[Postgres]" outage_check "\<lambda>_. (Probe_threw ''connect ECONNREFUSED'', 12)" 1000 1012 1012]
  show ?thesis by (simp add: outage_system_def outage_check_def DegradedModeService_new_def)
qed

lemma outage_state: "report_state outage_check Postgres = Down"
  by (simp add: outage_check_def report_state_def runDependencyChecks_def Let_def DEPENDENCY_MATRIX_def horizon_spec_def postgres_spec_def
      run_probe_def evaluateDependency_def)

theorem degraded_status_sound_witness:
  "\<exists>status b. getStatus_cached False 3000 3000 (sys_service outage_system) = Some status \<and>
     3000 - b < dm_cacheTtlMs (sys_service outage_system) \<and> reflects status [] outage_check \<and> requireCapability Invoice_read status \<noteq> None"
proof -
  obtain status where st: "getStatus_cached False 3000 3000 (sys_service outage_system) = Some status"
    by (simp add: outage_system_def finish_check_def getStatus_checked_def getStatus_cached_def DegradedModeService_new_def Let_def)
  from degraded_status_sound [OF outage_run] st obtain b base where b: "(b, base) \<in> set (sys_checks outage_system)"
    "3000 - b < dm_cacheTtlMs (sys_service outage_system)" "reflects status [] base" by blast
  have base: "base = outage_check" using b(1) by (simp add: outage_system_def finish_check_def)
  have "effective_state [] base Postgres = Down" by (simp add: base effective_state_def outage_state)
  moreover have "fallback_for Postgres Invoice_read \<noteq> None"
    by (simp add: fallback_for_def specFor_def DEPENDENCY_MATRIX_def horizon_spec_def postgres_spec_def storage_refused_def)
  ultimately have "requireCapability Invoice_read status \<noteq> None" using b(3) unfolding reflects_def by metis
  then show ?thesis using st b(2,3) base by blast
qed

text \<open>
  A recorded failure leaves the state of every dependency to the next check: whatever its message, the
  service only forgets its cached report.
\<close>

lemma recordFailure_marks_nothing:
  "let s1 = snd (degraded_recordFailure dep message s)
   in fst (getStatus_checked b base n1 n2 s1) = fst (getStatus_checked b base n1 n2 s) \<and> dm_overrides s1 = dm_overrides s"
  by (simp add: degraded_recordFailure_def getStatus_checked_def buildStatusFromReport_def getOverrides_def Let_def)

end
