(* ===== verification/Admin_Config.thy ===== *)
theory Admin_Config
  imports Audit_Properties Feature_Flags
begin

text \<open>
  Runtime configuration, \<open>backend/src/config/admin-config.ts\<close>: overrides of the feature flags, with
  evidence in the audit trail before a change is applied. The recorder of the evidence is a parameter
  (the code takes one, by default \<open>recordEvent\<close> of the audit trail), with what it draws on as
  its first argument. The descriptions of flags and the texts of errors are left out.
\<close>

subsection \<open>The service\<close>

datatype config_source = Override | Environment

record flag_state =
  fs_flag :: feature_flag
  fs_env :: string
  fs_effective :: bool
  fs_source :: config_source
  fs_override :: "bool option"

record config_snapshot =
  sn_version :: int
  sn_featureFlags :: "flag_state list"

text \<open>A field of unknown type is a JSON value, absent when \<open>None\<close>.\<close>

record flag_change_request =
  fr_flag :: string
  fr_enabled :: "json option"
  fr_reason :: "json option"
  fr_expectedVersion :: "json option"
  fr_actorId :: string
  fr_capabilityId :: string
  fr_correlationId :: "string option"
  fr_ip :: "string option"
  fr_userAgent :: "string option"

record config_change_result =
  cr_changed :: bool
  cr_version :: int
  cr_flag :: flag_state
  cr_auditEventId :: "string option"
  cr_auditEventHash :: "string option"

datatype config_error = UNKNOWN_FEATURE_FLAG | INVALID_CONFIG_CHANGE | CONFIG_VERSION_CONFLICT | CONFIG_AUDIT_UNAVAILABLE

fun config_http_status :: "config_error \<Rightarrow> nat" where
  "config_http_status UNKNOWN_FEATURE_FLAG = 404"
| "config_http_status INVALID_CONFIG_CHANGE = 400"
| "config_http_status CONFIG_VERSION_CONFLICT = 409"
| "config_http_status CONFIG_AUDIT_UNAVAILABLE = 503"

definition flag_name :: "feature_flag \<Rightarrow> string" where
  "flag_name flag = (case flag of PaymentAmountTolerance \<Rightarrow> ''paymentAmountTolerance'')"

definition isFlag :: "string \<Rightarrow> feature_flag option" where
  "isFlag name = (if name = flag_name PaymentAmountTolerance then Some PaymentAmountTolerance else None)"

text \<open>The version of the service, the process-wide overrides, and the state of the recorder.\<close>

record 's config_system =
  cs_version :: int
  cs_overrides :: overrides
  cs_audit :: 's

definition config_state :: "environment \<Rightarrow> overrides \<Rightarrow> feature_flag \<Rightarrow> flag_state" where
  "config_state env ov flag =
     \<lparr>fs_flag = flag, fs_env = flag_env (FEATURE_FLAGS flag),
      fs_effective = (case ov flag of Some b \<Rightarrow> b | None \<Rightarrow> environmentFeatureValue flag env),
      fs_source = (if ov flag = None then Environment else Override), fs_override = ov flag\<rparr>"

definition config_snapshot_of :: "environment \<Rightarrow> 's config_system \<Rightarrow> config_snapshot" where
  "config_snapshot_of env s =
     \<lparr>sn_version = cs_version s, sn_featureFlags = map (config_state env (cs_overrides s)) [PaymentAmountTolerance]\<rparr>"

definition MIN_REASON_LENGTH :: nat where
  "MIN_REASON_LENGTH = 10"

definition MAX_REASON_LENGTH :: nat where
  "MAX_REASON_LENGTH = 500"

definition json_bool :: "bool option \<Rightarrow> json" where
  "json_bool v = (case v of None \<Rightarrow> JNull | Some b \<Rightarrow> JBool b)"

definition source_name :: "config_source \<Rightarrow> string" where
  "source_name src = (case src of Override \<Rightarrow> ''override'' | Environment \<Rightarrow> ''environment'')"

definition state_json :: "bool \<Rightarrow> config_source \<Rightarrow> bool option \<Rightarrow> int \<Rightarrow> json" where
  "state_json enabled src ov version =
     JObj [(''enabled'', JBool enabled), (''source'', JStr (source_name src)), (''override'', json_bool ov), (''configVersion'', JNum (Num (of_int version)))]"

definition config_key :: "feature_flag \<Rightarrow> string" where
  "config_key flag = ''featureFlags.'' @ flag_name flag"

definition config_evidence :: "environment \<Rightarrow> flag_change_request \<Rightarrow> feature_flag \<Rightarrow> bool option \<Rightarrow> string \<Rightarrow> 's config_system \<Rightarrow> audit_input" where
  "config_evidence env req flag enabled reason s =
     (let bef = config_state env (cs_overrides s) flag
      in \<lparr>ai_timestamp = None, ai_action = ''CONFIG_CHANGED'',
          ai_actor = \<lparr>aa_type = ''maintainer'', aa_id = fr_actorId req, aa_ip = fr_ip req, aa_userAgent = fr_userAgent req\<rparr>,
          ai_scope = \<lparr>as_entityType = ''config'', as_entityId = config_key flag\<rparr>,
          ai_reason = Some reason,
          ai_beforeState = Some (state_json (fs_effective bef) (fs_source bef) (fs_override bef) (cs_version s)),
          ai_afterState = Some (state_json (case enabled of Some b \<Rightarrow> b | None \<Rightarrow> environmentFeatureValue flag env)
            (if enabled = None then Environment else Override) enabled (cs_version s + 1)),
          ai_metadata = Some (JObj [(''configKey'', JStr (config_key flag)), (''envVar'', JStr (fs_env bef)),
            (''change'', JStr (if enabled = None then ''override_cleared'' else ''override_set'')), (''capabilityId'', JStr (fr_capabilityId req))]),
          ai_correlationId = fr_correlationId req\<rparr>)"

text \<open>The checks of a request, in the order of the code: its flag, its value and its reason.\<close>

definition request_enabled :: "flag_change_request \<Rightarrow> (config_error, bool option) result" where
  "request_enabled req =
     (case fr_enabled req of Some JNull \<Rightarrow> Inr None | Some (JBool b) \<Rightarrow> Inr (Some b) | _ \<Rightarrow> Inl INVALID_CONFIG_CHANGE)"

definition request_reason :: "flag_change_request \<Rightarrow> (config_error, string) result" where
  "request_reason req =
     (let reason = (case fr_reason req of Some (JStr t) \<Rightarrow> js_trim t | _ \<Rightarrow> [])
      in if length reason < MIN_REASON_LENGTH \<or> length reason > MAX_REASON_LENGTH then Inl INVALID_CONFIG_CHANGE else Inr reason)"

definition request_version :: "int \<Rightarrow> flag_change_request \<Rightarrow> (config_error, unit) result" where
  "request_version version req =
     (case fr_expectedVersion req of
        Some (JNum n) \<Rightarrow>
          if \<not> is_safe_integer n \<or> (case n of Num q \<Rightarrow> q < 0 | _ \<Rightarrow> False) then Inl INVALID_CONFIG_CHANGE
          else if n \<noteq> Num (of_int version) then Inl CONFIG_VERSION_CONFLICT else Inr ()
      | _ \<Rightarrow> Inl INVALID_CONFIG_CHANGE)"

definition config_checks :: "int \<Rightarrow> flag_change_request \<Rightarrow> (config_error, feature_flag \<times> bool option \<times> string) result" where
  "config_checks version req =
     (case isFlag (fr_flag req) of
        None \<Rightarrow> Inl UNKNOWN_FEATURE_FLAG
      | Some flag \<Rightarrow>
          rbind (request_enabled req) (\<lambda>enabled.
          rbind (request_reason req) (\<lambda>reason.
          rbind (request_version version req) (\<lambda>_. Inr (flag, enabled, reason)))))"

definition setFeatureFlag ::
  "('x \<Rightarrow> audit_input \<Rightarrow> 's \<Rightarrow> (canonical_error, trail_record) result \<times> 's) \<Rightarrow> 'x \<Rightarrow> environment \<Rightarrow> flag_change_request \<Rightarrow> 's config_system \<Rightarrow>
    (config_error, config_change_result) result \<times> 's config_system" where
  "setFeatureFlag recordAudit x env req s =
     (case config_checks (cs_version s) req of
        Inl e \<Rightarrow> (Inl e, s)
      | Inr (flag, enabled, reason) \<Rightarrow>
          let bef = config_state env (cs_overrides s) flag
          in if fs_override bef = enabled
             then (Inr \<lparr>cr_changed = False, cr_version = cs_version s, cr_flag = bef, cr_auditEventId = None, cr_auditEventHash = None\<rparr>, s)
             else (case recordAudit x (config_evidence env req flag enabled reason s) (cs_audit s) of
                 (Inl _, a1) \<Rightarrow> (Inl CONFIG_AUDIT_UNAVAILABLE, s\<lparr>cs_audit := a1\<rparr>)
               | (Inr evidence, a1) \<Rightarrow>
                   let ov1 = featureFlagOverrides_set flag enabled (cs_overrides s);
                       s1 = \<lparr>cs_version = cs_version s + 1, cs_overrides = ov1, cs_audit = a1\<rparr>
                   in (Inr \<lparr>cr_changed = True, cr_version = cs_version s + 1, cr_flag = config_state env ov1 flag,
                         cr_auditEventId = Some (ae_id evidence), cr_auditEventHash = ae_hash evidence\<rparr>, s1)))"

subsection \<open>The evidence of a change\<close>

text \<open>
  What a reader of an event learns: the key that was set, to which override, at which version.
  These survive the redaction of the recorded states.
\<close>

definition state_member :: "string \<Rightarrow> json option \<Rightarrow> json option" where
  "state_member k j = (case j of Some (JObj kvs) \<Rightarrow> map_of kvs k | _ \<Rightarrow> None)"

record config_change =
  cc_key :: string
  cc_override :: "bool option"
  cc_fromVersion :: "json option"
  cc_toVersion :: "json option"

definition read_change :: "trail_record \<Rightarrow> config_change" where
  "read_change e =
     \<lparr>cc_key = as_entityId (ae_scope e),
      cc_override = (case state_member ''override'' (ae_afterState e) of Some (JBool b) \<Rightarrow> Some b | _ \<Rightarrow> None),
      cc_fromVersion = state_member ''configVersion'' (ae_beforeState e), cc_toVersion = state_member ''configVersion'' (ae_afterState e)\<rparr>"

lemma state_keys_plain: "\<not> sensitive_key ''enabled''" "\<not> sensitive_key ''source''" "\<not> sensitive_key ''override''" "\<not> sensitive_key ''configVersion''"
  by code_simp+

lemma sanitize_bool [simp]: "sanitizeObject (json_bool v) = json_bool v"
  by (simp add: json_bool_def split: option.split)

lemma sanitize_state:
  "state_member ''override'' (Some (sanitizeForLogging (state_json b src ov v))) = Some (json_bool ov)"
  "state_member ''configVersion'' (Some (sanitizeForLogging (state_json b src ov v))) = Some (JNum (Num (of_int v)))"
  by (simp_all add: state_member_def sanitizeForLogging_def state_json_def state_keys_plain)

text \<open>What the service asks of the recorder, whichever it is given.\<close>

locale evidence_recorder =
  fixes recordAudit :: "'x \<Rightarrow> audit_input \<Rightarrow> 's \<Rightarrow> (canonical_error, trail_record) result \<times> 's"
  assumes recorded: "recordAudit x input a = (Inr e, a') \<Longrightarrow>
      ae_action e = ai_action input \<and> ae_actor e = ai_actor input \<and> ae_scope e = ai_scope input \<and> ae_reason e = ai_reason input \<and>
      ae_beforeState e = map_option sanitizeForLogging (ai_beforeState input) \<and> ae_afterState e = map_option sanitizeForLogging (ai_afterState input)"
    and not_recorded: "recordAudit x input a = (Inl err, a') \<Longrightarrow> a' = a"
begin

lemma error_changes_nothing:
  assumes "setFeatureFlag recordAudit x env req s = (Inl err, s')"
  shows "s' = s"
  using assms not_recorded by (fastforce simp: setFeatureFlag_def Let_def split: sum.splits prod.splits if_splits)

lemma unchanged:
  assumes "setFeatureFlag recordAudit x env req s = (Inr r, s')" and "\<not> cr_changed r"
  shows "s' = s"
  using assms by (auto simp: setFeatureFlag_def Let_def split: sum.splits prod.splits if_splits)

lemma changed:
  assumes "setFeatureFlag recordAudit x env req s = (Inr r, s')" and "cr_changed r"
  obtains flag enabled reason e where "config_checks (cs_version s) req = Inr (flag, enabled, reason)"
    and "cs_overrides s flag \<noteq> enabled"
    and "recordAudit x (config_evidence env req flag enabled reason s) (cs_audit s) = (Inr e, cs_audit s')"
    and "cs_overrides s' = (cs_overrides s)(flag := enabled)" and "cs_version s' = cs_version s + 1"
    and "ae_action e = ''CONFIG_CHANGED''" and "ae_reason e = Some reason" and "aa_id (ae_actor e) = fr_actorId req"
    and "read_change e = \<lparr>cc_key = config_key flag, cc_override = enabled,
      cc_fromVersion = Some (JNum (Num (of_int (cs_version s)))), cc_toVersion = Some (JNum (Num (of_int (cs_version s + 1))))\<rparr>"
proof -
  from assms obtain flag enabled reason e a' where ck: "config_checks (cs_version s) req = Inr (flag, enabled, reason)"
    and ne: "cs_overrides s flag \<noteq> enabled"
    and rec: "recordAudit x (config_evidence env req flag enabled reason s) (cs_audit s) = (Inr e, a')"
    and s': "s' = \<lparr>cs_version = cs_version s + 1, cs_overrides = (cs_overrides s)(flag := enabled), cs_audit = a'\<rparr>"
    by (auto simp: setFeatureFlag_def Let_def config_state_def featureFlagOverrides_set_def split: sum.splits prod.splits if_splits)
  note e = recorded [OF rec]
  have "read_change e = \<lparr>cc_key = config_key flag, cc_override = enabled,
      cc_fromVersion = Some (JNum (Num (of_int (cs_version s)))), cc_toVersion = Some (JNum (Num (of_int (cs_version s + 1))))\<rparr>"
    using e by (simp add: read_change_def config_evidence_def Let_def sanitize_state json_bool_def split: option.split)
  then show ?thesis using that [OF ck ne _ _ _ _ _ _ ] rec s' e by (simp add: config_evidence_def Let_def)
qed

end

interpretation trail: evidence_recorder "\<lambda>x input a. recordEvent ev input (fst x) (snd x) a" for ev
proof
  show "recordEvent ev input (fst x) (snd x) a = (Inr e, a') \<Longrightarrow>
      ae_action e = ai_action input \<and> ae_actor e = ai_actor input \<and> ae_scope e = ai_scope input \<and> ae_reason e = ai_reason input \<and>
      ae_beforeState e = map_option sanitizeForLogging (ai_beforeState input) \<and> ae_afterState e = map_option sanitizeForLogging (ai_afterState input)"
    for x input a e a' by (drule recordEvent_cases(1)) (simp add: event_without_hash_def)
qed (rule recordEvent_failed)

subsection \<open>Runs\<close>

text \<open>
  Requests, and events that other parts of the program record in the same trail; the history has
  every event ever recorded. The environment may differ from call to call.
\<close>

abbreviation in_trail :: "audit_env \<Rightarrow> string \<times> int \<Rightarrow> audit_input \<Rightarrow> audit_store \<Rightarrow> (canonical_error, trail_record) result \<times> audit_store" where
  "in_trail ev x input a \<equiv> recordEvent ev input (fst x) (snd x) a"

definition new_events :: "(config_error, config_change_result) result \<Rightarrow> audit_store \<Rightarrow> trail_record list" where
  "new_events res a = (case res of Inr r \<Rightarrow> if cr_changed r then [last (at_events a)] else [] | Inl _ \<Rightarrow> [])"

inductive config_run :: "audit_env \<Rightarrow> int \<Rightarrow> trail_record list \<Rightarrow> audit_store config_system \<Rightarrow> bool" for ev cap where
  start: "config_run ev cap [] \<lparr>cs_version = 0, cs_overrides = (\<lambda>_. None), cs_audit = MemoryAuditStore_new (Some cap)\<rparr>"
| request: "config_run ev cap h s \<Longrightarrow> uuid \<notin> ae_id ` set (at_events (cs_audit s)) \<Longrightarrow>
    setFeatureFlag (in_trail ev) (uuid, now) env req s = (res, s') \<Longrightarrow> config_run ev cap (h @ new_events res (cs_audit s')) s'"
| other: "config_run ev cap h s \<Longrightarrow> uuid \<notin> ae_id ` set (at_events (cs_audit s)) \<Longrightarrow> ai_action input \<noteq> ''CONFIG_CHANGED'' \<Longrightarrow>
    recordEvent ev input uuid now (cs_audit s) = (Inr e, a') \<Longrightarrow> config_run ev cap (h @ [e]) (s\<lparr>cs_audit := a'\<rparr>)"

definition config_changes :: "trail_record list \<Rightarrow> config_change list" where
  "config_changes h = map read_change (filter (\<lambda>e. ae_action e = ''CONFIG_CHANGED'') h)"

definition apply_change :: "overrides \<Rightarrow> config_change \<Rightarrow> overrides" where
  "apply_change ov c = (\<lambda>flag. if config_key flag = cc_key c then cc_override c else ov flag)"

definition version_json :: "nat \<Rightarrow> json option" where
  "version_json n = Some (JNum (Num (of_nat n)))"

definition explained :: "trail_record \<Rightarrow> bool" where
  "explained e \<longleftrightarrow> (ae_action e = ''CONFIG_CHANGED'' \<longrightarrow>
     (\<exists>r. ae_reason e = Some r \<and> MIN_REASON_LENGTH \<le> length r \<and> length r \<le> MAX_REASON_LENGTH))"

definition config_evidenced :: "audit_env \<Rightarrow> int \<Rightarrow> trail_record list \<Rightarrow> audit_store config_system \<Rightarrow> bool" where
  "config_evidenced ev cap h s \<longleftrightarrow>
     audit_run ev cap h (cs_audit s) \<and> list_all explained h \<and>
     cs_version s = int (length (config_changes h)) \<and>
     cs_overrides s = foldl apply_change (\<lambda>_. None) (config_changes h) \<and>
     map cc_fromVersion (config_changes h) = map version_json [0..<length (config_changes h)] \<and>
     map cc_toVersion (config_changes h) = map version_json [1..<length (config_changes h) + 1]"

lemma checks_reason:
  "config_checks v req = Inr (flag, enabled, reason) \<Longrightarrow> MIN_REASON_LENGTH \<le> length reason \<and> length reason \<le> MAX_REASON_LENGTH"
  by (auto simp: config_checks_def rbind_Inr_iff request_reason_def Let_def split: option.splits if_splits)

lemma config_key_inj: "config_key f = config_key g \<longleftrightarrow> f = g"
  by (cases f; cases g) simp

lemma evidenced_snoc:
  assumes "config_evidenced ev cap h s" and "audit_run ev cap (h @ [e]) (cs_audit s')" and "explained e"
    and "ae_action e = ''CONFIG_CHANGED''" and "cs_version s' = cs_version s + 1" and "cs_overrides s' = (cs_overrides s)(flag := enabled)"
    and "read_change e = \<lparr>cc_key = config_key flag, cc_override = enabled,
      cc_fromVersion = Some (JNum (Num (of_int (cs_version s)))), cc_toVersion = Some (JNum (Num (of_int (cs_version s + 1))))\<rparr>"
  shows "config_evidenced ev cap (h @ [e]) s'"
  using assms by (auto simp: config_evidenced_def config_changes_def apply_change_def version_json_def config_key_inj fun_eq_iff)

lemma run_evidenced: "config_run ev cap h s \<Longrightarrow> config_evidenced ev cap h s"
proof (induction rule: config_run.induct)
  case start
  then show ?case by (auto simp: config_evidenced_def config_changes_def intro: audit_run.start)
next
  case (request h s uuid now env req res s')
  show ?case
  proof (cases "\<exists>r. res = Inr r \<and> cr_changed r")
    case False
    then have "s' = s" using trail.unchanged [OF request.hyps(3) [THEN trans]] trail.error_changes_nothing request.hyps(3) by (cases res) auto
    then show ?thesis using request.IH False by (auto simp: new_events_def split: sum.split)
  next
    case True
    then obtain r where r: "res = Inr r" "cr_changed r" by blast
    from trail.changed [OF request.hyps(3) [unfolded r(1)] r(2)] obtain flag enabled reason e where
      ck: "config_checks (cs_version s) req = Inr (flag, enabled, reason)"
      and rec: "recordEvent ev (config_evidence env req flag enabled reason s) uuid now (cs_audit s) = (Inr e, cs_audit s')"
      and ov: "cs_overrides s' = (cs_overrides s)(flag := enabled)" and v: "cs_version s' = cs_version s + 1"
      and e: "ae_action e = ''CONFIG_CHANGED''" "ae_reason e = Some reason"
      and rd: "read_change e = \<lparr>cc_key = config_key flag, cc_override = enabled,
      cc_fromVersion = Some (JNum (Num (of_int (cs_version s)))), cc_toVersion = Some (JNum (Num (of_int (cs_version s + 1))))\<rparr>"
      by (metis fst_conv snd_conv)
    have "new_events res (cs_audit s') = [e]" using recordEvent_cases(2) [OF rec] r by (simp add: new_events_def Let_def)
    moreover have "audit_run ev cap (h @ [e]) (cs_audit s')"
      using audit_run.recorded [OF _ request.hyps(2) rec] request.IH by (simp add: config_evidenced_def)
    moreover have "explained e" using checks_reason [OF ck] e by (simp add: explained_def)
    ultimately show ?thesis using evidenced_snoc [OF request.IH _ _ e(1) v ov rd] by simp
  qed
next
  case (other h s uuid input now e a')
  have "ae_action e \<noteq> ''CONFIG_CHANGED''" using recordEvent_cases(1) [OF other.hyps(4)] other.hyps(3) by (simp add: event_without_hash_def)
  then show ?case using other.IH audit_run.recorded [OF _ other.hyps(2,4)] by (simp add: config_evidenced_def config_changes_def explained_def)
qed

lemma applied_names_version:
  assumes "setFeatureFlag rec x env req s = (Inr r, s')"
  shows "fr_expectedVersion req = Some (JNum (Num (of_int (cs_version s))))"
  using assms by (fastforce simp: setFeatureFlag_def config_checks_def rbind_Inr_iff request_version_def split: sum.splits option.splits json.splits if_splits)

lemma foldl_change_source: "foldl apply_change ov cs f = Some b \<Longrightarrow> ov f = Some b \<or> (\<exists>c\<in>set cs. cc_key c = config_key f \<and> cc_override c = Some b)"
  by (induction cs rule: rev_induct) (auto simp: apply_change_def split: if_splits)

text \<open>
  C12: There is never a change of the configuration without evidence. In every run the overrides
  in force are what the \<open>CONFIG_CHANGED\<close> events of the trail say when they are applied in order, the
  version is their number, they carry consecutive versions and a reason of 10 to 500 characters, and the
  trail is one that the audit store can be in. So a flag that the environment leaves off is on only if an event
  set it. A request is applied or confirmed only if it names the current version, and one
  that fails changes nothing.
\<close>

theorem config_changes_evidenced:
  assumes "config_run ev cap h s"
  shows "config_evidenced ev cap h s \<and>
    (\<forall>env flag. isFeatureEnabled (cs_overrides s) env flag \<and> \<not> environmentFeatureValue flag env \<longrightarrow>
       (\<exists>c\<in>set (config_changes h). cc_key c = config_key flag \<and> cc_override c = Some True)) \<and>
    (\<forall>x env req r s'. setFeatureFlag (in_trail ev) x env req s = (Inr r, s') \<longrightarrow>
       fr_expectedVersion req = Some (JNum (Num (of_int (cs_version s))))) \<and>
    (\<forall>x env req err s'. setFeatureFlag (in_trail ev) x env req s = (Inl err, s') \<longrightarrow> s' = s)"
proof (intro conjI allI impI)
  show ev: "config_evidenced ev cap h s" by (rule run_evidenced [OF assms])
  fix env flag assume "isFeatureEnabled (cs_overrides s) env flag \<and> \<not> environmentFeatureValue flag env"
  then have "cs_overrides s flag = Some True" by (auto simp: isFeatureEnabled_def split: option.splits)
  then show "\<exists>c\<in>set (config_changes h). cc_key c = config_key flag \<and> cc_override c = Some True"
    using ev foldl_change_source [of "\<lambda>_. None"] by (auto simp: config_evidenced_def)
qed (fact applied_names_version trail.error_changes_nothing)+

text \<open>Witness of C1: tolerance is turned on during an incident.\<close>

definition incident_request :: flag_change_request where
  "incident_request = \<lparr>fr_flag = ''paymentAmountTolerance'', fr_enabled = Some (JBool True), fr_reason = Some (JStr ''Incident 42: rounding''),
     fr_expectedVersion = Some (JNum (Num 0)), fr_actorId = ''m'', fr_capabilityId = ''c'', fr_correlationId = None, fr_ip = None, fr_userAgent = None\<rparr>"

definition fresh_config :: "audit_store config_system" where
  "fresh_config = \<lparr>cs_version = 0, cs_overrides = (\<lambda>_. None), cs_audit = MemoryAuditStore_new (Some 10)\<rparr>"

lemma incident_checks: "config_checks 0 incident_request = Inr (PaymentAmountTolerance, Some True, ''Incident 42: rounding'')"
  by code_simp

lemma finite_sanitized: "finite_numbers j \<Longrightarrow> finite_numbers (sanitizeObject j)"
  by (induction j rule: sanitizeObject.induct) (auto simp: list_all_iff)

lemma finite_opt_member: "list_all (\<lambda>m. finite_numbers (snd m)) (opt_member k v)"
  by (simp add: opt_member_def split: option.split)

lemma finite_json_bool: "finite_numbers (json_bool v)"
  by (simp add: json_bool_def split: option.split)

lemma finite_members:
  assumes "\<And>j. ae_beforeState e = Some j \<or> ae_afterState e = Some j \<or> ae_metadata e = Some j \<Longrightarrow> finite_numbers j"
  shows "finite_numbers (JObj (event_members e))"
proof -
  have "finite_numbers (null_or (ae_beforeState e))" "finite_numbers (null_or (ae_afterState e))"
    "list_all (\<lambda>m. finite_numbers (snd m)) (case ae_metadata e of None \<Rightarrow> [] | Some m \<Rightarrow> [(''metadata'', m)])"
    using assms by (auto simp: null_or_def split: option.split)
  moreover have "finite_numbers (case ae_previousHash e of None \<Rightarrow> JNull | Some h \<Rightarrow> JStr h)" by (simp split: option.split)
  ultimately show ?thesis by (simp add: event_members_def finite_opt_member)
qed

lemma evidence_recorded: "\<exists>e a'. recordEvent ev (config_evidence env req flag enabled reason s) uuid now a = (Inr e, a')"
proof -
  let ?input = "config_evidence env req flag enabled reason s"
  have "finite_numbers j" if "ai_beforeState ?input = Some j \<or> ai_afterState ?input = Some j \<or> ai_metadata ?input = Some j" for j
    using that by (auto simp: config_evidence_def Let_def state_json_def finite_json_bool)
  then have "finite_numbers (JObj (event_members (event_without_hash ?input uuid now a)))"
    by (intro finite_members) (auto simp: event_without_hash_def sanitizeForLogging_def intro: finite_sanitized)
  then show ?thesis by (simp add: recordEvent_def Let_def)
qed

lemma incident_applied:
  obtains r s' where "setFeatureFlag (in_trail trail_env) (''e1'', 0) (\<lambda>_. None) incident_request fresh_config = (Inr r, s')"
    and "cs_overrides s' PaymentAmountTolerance = Some True"
proof -
  obtain e a' where "recordEvent trail_env (config_evidence (\<lambda>_. None) incident_request PaymentAmountTolerance (Some True) ''Incident 42: rounding'' fresh_config)
      ''e1'' 0 (cs_audit fresh_config) = (Inr e, a')" using evidence_recorded by blast
  then show ?thesis using that by (simp add: setFeatureFlag_def incident_checks fresh_config_def config_state_def featureFlagOverrides_set_def Let_def)
qed

theorem config_changes_evidenced_witness:
  "\<exists>h s c. config_run trail_env 10 h s \<and> isFeatureEnabled (cs_overrides s) (\<lambda>_. None) PaymentAmountTolerance \<and>
     config_evidenced trail_env 10 h s \<and> c \<in> set (config_changes h) \<and> cc_override c = Some True"
proof -
  obtain r s' where r: "setFeatureFlag (in_trail trail_env) (''e1'', 0) (\<lambda>_. None) incident_request fresh_config = (Inr r, s')"
    and ov: "cs_overrides s' PaymentAmountTolerance = Some True" by (rule incident_applied)
  let ?h = "[] @ new_events (Inr r) (cs_audit s')"
  have run: "config_run trail_env 10 ?h s'"
    by (rule request [OF start _ r [unfolded fresh_config_def]]) (simp add: MemoryAuditStore_new_def)
  have on: "isFeatureEnabled (cs_overrides s') (\<lambda>_. None) PaymentAmountTolerance" using ov by (simp add: isFeatureEnabled_def)
  moreover have "\<not> environmentFeatureValue PaymentAmountTolerance (\<lambda>_. None)" by (simp add: environmentFeatureValue_def)
  ultimately show ?thesis using config_changes_evidenced [OF run] run by blast
qed

end
