(* ===== verification/Invitations.thy ===== *)
theory Invitations
  imports Js_Prelude
begin

text \<open>
  Invitations to collaborate, \<open>backend/src/domain/invitation.ts\<close> and
  \<open>backend/src/services/invitation.service.ts\<close>. Identifiers, tokens and the readings of the clock are
  arguments. The invitation a method returns is the stored object; it is modelled as its value.
\<close>

subsection \<open>The service\<close>

datatype collaboration_role = C_OWNER | C_ADMIN | C_COLLABORATOR | C_VIEWER

fun collaboration_rank :: "collaboration_role \<Rightarrow> nat" where
  "collaboration_rank C_OWNER = 4"
| "collaboration_rank C_ADMIN = 3"
| "collaboration_rank C_COLLABORATOR = 2"
| "collaboration_rank C_VIEWER = 1"

datatype invitation_status = V_PENDING | V_ACCEPTED | V_EXPIRED | V_REVOKED

record collaboration_invitation =
  ci_id :: string
  ci_organizationId :: string
  ci_inviterId :: string
  ci_inviterRole :: collaboration_role
  ci_inviteeEmail :: string
  ci_assignedRole :: collaboration_role
  ci_token :: string
  ci_status :: invitation_status
  ci_createdAt :: int
  ci_expiresAt :: int
  ci_acceptedAt :: "int option"
  ci_acceptedBy :: "string option"
  ci_revokedAt :: "int option"
  ci_revokedBy :: "string option"

record create_invitation_request =
  cq_organizationId :: string
  cq_inviterId :: string
  cq_inviterRole :: collaboration_role
  cq_inviteeEmail :: string
  cq_assignedRole :: collaboration_role
  cq_expiresInMs :: "int option"

datatype invitation_error =
    RoleEscalationError | InvitationExpiredError | InvitationRevokedError | InviterThrottled | RecipientThrottled
  | InvitationNotFound | UnauthorizedRevoker | UnknownToken | AlreadyAccepted

record throttle_config =
  tc_maxInvitesPerWindow :: int
  tc_windowMs :: int
  tc_maxInvitesPerTargetEmail :: int

definition default_throttle :: throttle_config where
  "default_throttle = \<lparr>tc_maxInvitesPerWindow = 5, tc_windowMs = 600000, tc_maxInvitesPerTargetEmail = 3\<rparr>"

record invitation_service =
  iv_invitations :: "(string, collaboration_invitation) jsmap"
  iv_tokenIndex :: "(string, string) jsmap"
  iv_inviterHistory :: "(string, int list) jsmap"
  iv_targetHistory :: "(string, int list) jsmap"
  iv_throttle :: throttle_config

definition InvitationService_new :: "throttle_config option \<Rightarrow> invitation_service" where
  "InvitationService_new config =
     \<lparr>iv_invitations = [], iv_tokenIndex = [], iv_inviterHistory = [], iv_targetHistory = [],
      iv_throttle = (case config of Some c \<Rightarrow> c | None \<Rightarrow> default_throttle)\<rparr>"

definition email_key :: "string \<Rightarrow> string" where
  "email_key email = js_trim (js_lower email)"

definition recent_times :: "int \<Rightarrow> int \<Rightarrow> string \<Rightarrow> (string, int list) jsmap \<Rightarrow> int list" where
  "recent_times windowMs now key history =
     filter (\<lambda>t. now - t < windowMs) (case mget history key of Some ts \<Rightarrow> ts | None \<Rightarrow> [])"

definition checkRateLimit :: "string \<Rightarrow> string \<Rightarrow> int \<Rightarrow> invitation_service \<Rightarrow> (invitation_error, unit) result \<times> invitation_service" where
  "checkRateLimit inviterId targetEmail now s =
     (let cfg = iv_throttle s;
          inviterTimes = recent_times (tc_windowMs cfg) now inviterId (iv_inviterHistory s)
      in if int (length inviterTimes) \<ge> tc_maxInvitesPerWindow cfg then (Inl InviterThrottled, s)
         else
           let emailKey = email_key targetEmail;
               targetTimes = recent_times (tc_windowMs cfg) now emailKey (iv_targetHistory s)
           in if int (length targetTimes) \<ge> tc_maxInvitesPerTargetEmail cfg then (Inl RecipientThrottled, s)
              else (Inr (), s\<lparr>iv_inviterHistory := mset_kv inviterId (inviterTimes @ [now]) (iv_inviterHistory s),
                     iv_targetHistory := mset_kv emailKey (targetTimes @ [now]) (iv_targetHistory s)\<rparr>))"

definition createInvitation ::
  "create_invitation_request \<Rightarrow> int \<Rightarrow> string \<Rightarrow> string \<Rightarrow> invitation_service \<Rightarrow>
    (invitation_error, collaboration_invitation) result \<times> invitation_service" where
  "createInvitation req now uuid tok s =
     (if collaboration_rank (cq_assignedRole req) > collaboration_rank (cq_inviterRole req) then (Inl RoleEscalationError, s)
      else (case checkRateLimit (cq_inviterId req) (cq_inviteeEmail req) now s of
          (Inl e, s1) \<Rightarrow> (Inl e, s1)
        | (Inr _, s1) \<Rightarrow>
            let expiresInMs = (case cq_expiresInMs req of None \<Rightarrow> 7 * 24 * 60 * 60 * 1000 | Some n \<Rightarrow> if n = 0 then 7 * 24 * 60 * 60 * 1000 else n);
                invitation = \<lparr>ci_id = uuid, ci_organizationId = cq_organizationId req, ci_inviterId = cq_inviterId req, ci_inviterRole = cq_inviterRole req,
                  ci_inviteeEmail = email_key (cq_inviteeEmail req), ci_assignedRole = cq_assignedRole req, ci_token = tok, ci_status = V_PENDING,
                  ci_createdAt = now, ci_expiresAt = now + expiresInMs, ci_acceptedAt = None, ci_acceptedBy = None, ci_revokedAt = None, ci_revokedBy = None\<rparr>
            in (Inr invitation, s1\<lparr>iv_invitations := mset_kv uuid invitation (iv_invitations s1), iv_tokenIndex := mset_kv tok uuid (iv_tokenIndex s1)\<rparr>)))"

definition put_invitation :: "string \<Rightarrow> collaboration_invitation \<Rightarrow> invitation_service \<Rightarrow> invitation_service" where
  "put_invitation iid i1 s = s\<lparr>iv_invitations := mset_kv iid i1 (iv_invitations s)\<rparr>"

definition revokeInvitation ::
  "string \<Rightarrow> string \<Rightarrow> collaboration_role \<Rightarrow> int \<Rightarrow> invitation_service \<Rightarrow>
    (invitation_error, collaboration_invitation) result \<times> invitation_service" where
  "revokeInvitation iid revokerId revokerRole now s =
     (case mget (iv_invitations s) iid of
        None \<Rightarrow> (Inl InvitationNotFound, s)
      | Some invite \<Rightarrow>
          if \<not> collaboration_rank revokerRole \<ge> collaboration_rank C_ADMIN \<and> ci_inviterId invite \<noteq> revokerId then (Inl UnauthorizedRevoker, s)
          else let i1 = invite\<lparr>ci_status := V_REVOKED, ci_revokedAt := Some now, ci_revokedBy := Some revokerId\<rparr>
               in (Inr i1, put_invitation iid i1 s))"

definition acceptInvitation ::
  "string \<Rightarrow> string \<Rightarrow> int \<Rightarrow> int \<Rightarrow> invitation_service \<Rightarrow> (invitation_error, collaboration_invitation) result \<times> invitation_service" where
  "acceptInvitation tok userId now1 now2 s =
     (case mget (iv_tokenIndex s) tok of
        None \<Rightarrow> (Inl UnknownToken, s)
      | Some iid \<Rightarrow>
          if iid = [] then (Inl UnknownToken, s)
          else (case mget (iv_invitations s) iid of
              None \<Rightarrow> (Inl InvitationNotFound, s)
            | Some invite \<Rightarrow>
                if ci_status invite = V_REVOKED then (Inl InvitationRevokedError, s)
                else if ci_status invite = V_ACCEPTED then (Inl AlreadyAccepted, s)
                else if now1 > ci_expiresAt invite then (Inl InvitationExpiredError, put_invitation iid (invite\<lparr>ci_status := V_EXPIRED\<rparr>) s)
                else let i1 = invite\<lparr>ci_status := V_ACCEPTED, ci_acceptedAt := Some now2, ci_acceptedBy := Some userId\<rparr>
                     in (Inr i1, put_invitation iid i1 s)))"

definition getInvitation :: "string \<Rightarrow> invitation_service \<Rightarrow> collaboration_invitation option" where
  "getInvitation iid s = mget (iv_invitations s) iid"

end
