(* ===== verification/Invitation_Safety.thy ===== *)
theory Invitation_Safety
  imports Invitations
begin

text \<open>
  What the invitations guarantee over every run with a clock that does not go back: the limits of
  invitations per inviter and recipient hold in every window of time, although the service forgets old
  times, and an invitation is accepted at most once, in time, before any revocation, and never above the role of its inviter.
\<close>

subsection \<open>Sliding windows\<close>

text \<open>All times of a key, newest last, against the times that a history remembers.\<close>

definition times_in_window :: "int \<Rightarrow> int \<Rightarrow> int list \<Rightarrow> int list" where
  "times_in_window w now ts = filter (\<lambda>t. t \<le> now \<and> now - t < w) ts"

definition history_ok :: "int \<Rightarrow> int \<Rightarrow> int \<Rightarrow> (string, int list) jsmap \<Rightarrow> (string \<Rightarrow> int list) \<Rightarrow> bool" where
  "history_ok w m clock history ts \<longleftrightarrow>
     (\<forall>key. (\<forall>t\<in>set (ts key). t \<le> clock) \<and>
        (\<forall>now\<ge>clock. recent_times w now key history = filter (\<lambda>t. now - t < w) (ts key)) \<and>
        (\<forall>now. ts key \<noteq> [] \<longrightarrow> int (length (times_in_window w now (ts key))) \<le> m))"

lemma history_later: "history_ok w m t history ts \<Longrightarrow> t \<le> t' \<Longrightarrow> history_ok w m t' history ts"
proof -
  assume ok: "history_ok w m t history ts" and le: "t \<le> t'"
  have "t1 \<le> t'" if "t1 \<in> set (ts k)" for k t1 using ok le that by (fastforce simp: history_ok_def)
  moreover have "recent_times w n k history = filter (\<lambda>t. n - t < w) (ts k)" if "t' \<le> n" for k n
    using ok le that by (simp add: history_ok_def)
  ultimately show ?thesis using ok by (simp add: history_ok_def)
qed

lemma window_snoc:
  assumes "\<forall>t\<in>set ts. t \<le> now" and "int (length (filter (\<lambda>t. now - t < w) ts)) < m"
    and "ts \<noteq> [] \<longrightarrow> int (length (times_in_window w n ts)) \<le> m"
  shows "int (length (times_in_window w n (ts @ [now]))) \<le> m"
proof (cases "n < now")
  case True
  then show ?thesis using assms by (cases "ts = []") (auto simp: times_in_window_def)
next
  case False
  have "length (times_in_window w n ts) \<le> length (filter (\<lambda>t. now - t < w) ts)"
    unfolding times_in_window_def using False by (induction ts) auto
  then show ?thesis using assms(2) by (simp add: times_in_window_def)
qed

lemma recent_push:
  "recent_times w n k (mset_kv key l history) = (if k = key then filter (\<lambda>t. n - t < w) l else recent_times w n k history)"
  by (simp add: recent_times_def)

lemma history_push:
  assumes ok: "history_ok w m clock history ts" and "clock \<le> now" and room: "int (length (recent_times w now key history)) < m"
  shows "history_ok w m now (mset_kv key (recent_times w now key history @ [now]) history) (ts(key := ts key @ [now]))"
proof -
  have old: "recent_times w now key history = filter (\<lambda>t. now - t < w) (ts key)" "\<forall>t\<in>set (ts key). t \<le> now"
    using ok assms(2) unfolding history_ok_def by (blast, meson order_trans)
  have again: "filter (\<lambda>t. n - t < w) (filter (\<lambda>t. now - t < w) (ts key)) = filter (\<lambda>t. n - t < w) (ts key)" if "now \<le> n" for n
    using that by (auto simp: intro!: filter_cong)
  have "int (length (times_in_window w n (ts key @ [now]))) \<le> m" for n
    using window_snoc [OF old(2), of w m n] room ok by (simp add: old(1) history_ok_def)
  moreover note again
  ultimately show ?thesis
    using history_later [OF ok \<open>clock \<le> now\<close>] unfolding history_ok_def
    by (simp add: recent_push old(1) old(2))
qed

subsection \<open>Runs\<close>

text \<open>
  The service, the clock, the invitations made (inviter, address and time) and the acceptances
  (invitation, user and time). Identifiers and tokens are fresh, as random ones are taken to be.
\<close>

record invitation_history =
  ih_made :: "(string \<times> string \<times> int) list"
  ih_accepted :: "(string \<times> string \<times> int) list"

inductive invitation_run :: "throttle_config \<Rightarrow> invitation_service \<Rightarrow> int \<Rightarrow> invitation_history \<Rightarrow> bool" for cfg where
  start: "invitation_run cfg (InvitationService_new (Some cfg)) t \<lparr>ih_made = [], ih_accepted = []\<rparr>"
| create: "invitation_run cfg s t h \<Longrightarrow> t \<le> now \<Longrightarrow> uuid \<noteq> [] \<Longrightarrow> mget (iv_invitations s) uuid = None \<Longrightarrow> mget (iv_tokenIndex s) tok = None \<Longrightarrow>
    createInvitation req now uuid tok s = (Inr i, s') \<Longrightarrow>
    invitation_run cfg s' now (h\<lparr>ih_made := ih_made h @ [(cq_inviterId req, email_key (cq_inviteeEmail req), now)]\<rparr>)"
| create_failed: "invitation_run cfg s t h \<Longrightarrow> t \<le> now \<Longrightarrow> createInvitation req now uuid tok s = (Inl e, s') \<Longrightarrow> invitation_run cfg s' now h"
| revoke: "invitation_run cfg s t h \<Longrightarrow> t \<le> now \<Longrightarrow> revokeInvitation iid who role now s = (r, s') \<Longrightarrow> invitation_run cfg s' now h"
| accept: "invitation_run cfg s t h \<Longrightarrow> t \<le> now1 \<Longrightarrow> now1 \<le> now2 \<Longrightarrow> acceptInvitation tok user now1 now2 s = (Inr i, s') \<Longrightarrow>
    invitation_run cfg s' now2 (h\<lparr>ih_accepted := ih_accepted h @ [(ci_id i, user, now1)]\<rparr>)"
| accept_failed: "invitation_run cfg s t h \<Longrightarrow> t \<le> now1 \<Longrightarrow> acceptInvitation tok user now1 now2 s = (Inl e, s') \<Longrightarrow> invitation_run cfg s' now1 h"

definition times_of :: "(string \<times> string \<times> int \<Rightarrow> string) \<Rightarrow> (string \<times> string \<times> int) list \<Rightarrow> string \<Rightarrow> int list" where
  "times_of key made k = map (\<lambda>m. snd (snd m)) (filter (\<lambda>m. key m = k) made)"

lemma times_of_snoc: "times_of key (made @ [m]) = (times_of key made)(key m := times_of key made (key m) @ [snd (snd m)])"
  by (auto simp: times_of_def)

definition throttle_ok :: "throttle_config \<Rightarrow> invitation_service \<Rightarrow> int \<Rightarrow> (string \<times> string \<times> int) list \<Rightarrow> bool" where
  "throttle_ok cfg s t made \<longleftrightarrow> iv_throttle s = cfg \<and>
     history_ok (tc_windowMs cfg) (tc_maxInvitesPerWindow cfg) t (iv_inviterHistory s) (times_of fst made) \<and>
     history_ok (tc_windowMs cfg) (tc_maxInvitesPerTargetEmail cfg) t (iv_targetHistory s) (times_of (\<lambda>m. fst (snd m)) made)"

lemma throttle_later: "throttle_ok cfg s t made \<Longrightarrow> t \<le> t' \<Longrightarrow> throttle_ok cfg s t' made"
  using history_later by (auto simp: throttle_ok_def)

lemma throttle_same:
  "throttle_ok cfg s t made \<Longrightarrow> t \<le> t' \<Longrightarrow> iv_throttle s' = iv_throttle s \<Longrightarrow> iv_inviterHistory s' = iv_inviterHistory s \<Longrightarrow>
    iv_targetHistory s' = iv_targetHistory s \<Longrightarrow> throttle_ok cfg s' t' made"
  using throttle_later [of cfg s t made t'] by (simp add: throttle_ok_def)

lemma checkRateLimit_ok:
  assumes "checkRateLimit who email now s = (Inr u, s')" and "throttle_ok cfg s t made" and "t \<le> now"
  shows "throttle_ok cfg s' now (made @ [(who, email_key email, now)])"
proof -
  have s': "s' = s\<lparr>iv_inviterHistory := mset_kv who (recent_times (tc_windowMs cfg) now who (iv_inviterHistory s) @ [now]) (iv_inviterHistory s),
      iv_targetHistory := mset_kv (email_key email) (recent_times (tc_windowMs cfg) now (email_key email) (iv_targetHistory s) @ [now]) (iv_targetHistory s)\<rparr>"
    and room: "int (length (recent_times (tc_windowMs cfg) now who (iv_inviterHistory s))) < tc_maxInvitesPerWindow cfg"
      "int (length (recent_times (tc_windowMs cfg) now (email_key email) (iv_targetHistory s))) < tc_maxInvitesPerTargetEmail cfg"
    using assms(1,2) by (auto simp: checkRateLimit_def throttle_ok_def Let_def split: if_splits)
  show ?thesis using assms(2) history_push [OF _ assms(3) room(1)] history_push [OF _ assms(3) room(2)]
    by (simp add: s' throttle_ok_def times_of_snoc)
qed

lemma checkRateLimit_frame:
  "checkRateLimit who email now s = (r, s') \<Longrightarrow> iv_invitations s' = iv_invitations s \<and> iv_tokenIndex s' = iv_tokenIndex s"
  "checkRateLimit who email now s = (Inl e, s') \<Longrightarrow> s' = s"
  by (auto simp: checkRateLimit_def Let_def split: if_splits)

definition invite_ok :: "int \<Rightarrow> string set \<Rightarrow> (string, string) jsmap \<Rightarrow> string \<Rightarrow> collaboration_invitation \<Rightarrow> bool" where
  "invite_ok t acc tokens iid i \<longleftrightarrow> ci_id i = iid \<and> iid \<noteq> [] \<and> mget tokens (ci_token i) = Some iid \<and>
     collaboration_rank (ci_assignedRole i) \<le> collaboration_rank (ci_inviterRole i) \<and>
     (ci_acceptedBy i \<noteq> None \<longleftrightarrow> iid \<in> acc) \<and> (ci_status i = V_ACCEPTED \<longrightarrow> iid \<in> acc) \<and>
     (ci_status i \<in> {V_PENDING, V_EXPIRED} \<longrightarrow> iid \<notin> acc \<and> ci_revokedBy i = None) \<and> (ci_status i = V_EXPIRED \<longrightarrow> ci_expiresAt i < t)"

definition invitations_ok :: "invitation_service \<Rightarrow> int \<Rightarrow> (string \<times> string \<times> int) list \<Rightarrow> bool" where
  "invitations_ok s t acc \<longleftrightarrow> distinct (map fst acc) \<and>
     (\<forall>iid i. mget (iv_invitations s) iid = Some i \<longrightarrow> invite_ok t (fst ` set acc) (iv_tokenIndex s) iid i) \<and>
     (\<forall>tok iid. mget (iv_tokenIndex s) tok = Some iid \<longrightarrow> (\<exists>i. mget (iv_invitations s) iid = Some i \<and> ci_token i = tok)) \<and>
     (\<forall>a\<in>set acc. mget (iv_invitations s) (fst a) \<noteq> None)"

lemma invite_later: "invite_ok t acc tokens iid i \<Longrightarrow> t \<le> t' \<Longrightarrow> invite_ok t' acc tokens iid i"
  by (auto simp: invite_ok_def)

lemma invite_other: "invite_ok t acc tokens iid i \<Longrightarrow> iid \<noteq> x \<Longrightarrow> invite_ok t (insert x acc) tokens iid i"
  by (simp add: invite_ok_def)

lemma invitations_later: "invitations_ok s t acc \<Longrightarrow> t \<le> t' \<Longrightarrow> invitations_ok s t' acc"
  using invite_later by (fastforce simp: invitations_ok_def)

lemma invitations_okD:
  assumes "invitations_ok s t acc" and "t \<le> t'"
  shows "mget (iv_invitations s) x = Some j \<Longrightarrow> invite_ok t' (fst ` set acc) (iv_tokenIndex s) x j"
    and "x \<in> fst ` set acc \<Longrightarrow> \<exists>j. mget (iv_invitations s) x = Some j"
    and "mget (iv_tokenIndex s) k = Some x \<Longrightarrow> \<exists>j. mget (iv_invitations s) x = Some j \<and> ci_token j = k"
  using assms invite_later [OF _ assms(2)] by (auto simp: invitations_ok_def)

lemma invitations_put:
  assumes ok: "invitations_ok s t acc" and i: "mget (iv_invitations s) iid = Some i"
    and i1: "invite_ok t' (fst ` set acc') (iv_tokenIndex s) iid i1" "ci_token i1 = ci_token i"
    and "t \<le> t'" "distinct (map fst acc')" "fst ` set acc' = fst ` set acc \<or> fst ` set acc' = insert iid (fst ` set acc)"
  shows "invitations_ok (put_invitation iid i1 s) t' acc'"
proof -
  have others: "invite_ok t' (fst ` set acc') (iv_tokenIndex s) x j" if "mget (iv_invitations s) x = Some j" "x \<noteq> iid" for x j
    using invitations_okD(1) [OF ok assms(5) that(1)] assms(7) that(2) invite_other by metis
  have there: "x = iid \<or> mget (iv_invitations s) x \<noteq> None" if "x \<in> fst ` set acc'" for x
    using invitations_okD(2) [OF ok assms(5)] that assms(7) by blast
  show ?thesis unfolding invitations_ok_def
  proof (intro conjI allI impI ballI)
    fix x j assume "mget (iv_invitations (put_invitation iid i1 s)) x = Some j"
    then show "invite_ok t' (fst ` set acc') (iv_tokenIndex (put_invitation iid i1 s)) x j"
      using others i1 by (auto simp: put_invitation_def split: if_splits)
  next
    fix tok x assume "mget (iv_tokenIndex (put_invitation iid i1 s)) tok = Some x"
    then obtain j where "mget (iv_invitations s) x = Some j" "ci_token j = tok" using invitations_okD(3) [OF ok assms(5)] by (auto simp: put_invitation_def)
    then show "\<exists>j. mget (iv_invitations (put_invitation iid i1 s)) x = Some j \<and> ci_token j = tok"
      using i i1(2) by (cases "x = iid") (auto simp: put_invitation_def)
  next
    fix a assume "a \<in> set acc'"
    then show "mget (iv_invitations (put_invitation iid i1 s)) (fst a) \<noteq> None" using there [of "fst a"] by (auto simp: put_invitation_def)
  qed (fact assms(6))
qed

lemma accept_cases:
  assumes "acceptInvitation tok user now1 now2 s = (r, s')"
  obtains (same) e where "r = Inl e" "s' = s"
  | (expired) iid i where "r = Inl InvitationExpiredError" "mget (iv_tokenIndex s) tok = Some iid" "mget (iv_invitations s) iid = Some i"
      "ci_status i \<in> {V_PENDING, V_EXPIRED}" "ci_expiresAt i < now1" "s' = put_invitation iid (i\<lparr>ci_status := V_EXPIRED\<rparr>) s"
  | (accepted) iid i where "mget (iv_tokenIndex s) tok = Some iid" "mget (iv_invitations s) iid = Some i"
      "ci_status i \<in> {V_PENDING, V_EXPIRED}" "now1 \<le> ci_expiresAt i"
      "r = Inr (i\<lparr>ci_status := V_ACCEPTED, ci_acceptedAt := Some now2, ci_acceptedBy := Some user\<rparr>)"
      "s' = put_invitation iid (i\<lparr>ci_status := V_ACCEPTED, ci_acceptedAt := Some now2, ci_acceptedBy := Some user\<rparr>) s"
proof -
  have st: "ci_status i \<in> {V_PENDING, V_EXPIRED} \<longleftrightarrow> ci_status i \<noteq> V_REVOKED \<and> ci_status i \<noteq> V_ACCEPTED" for i
    by (cases "ci_status i") auto
  have "(\<exists>e. r = Inl e \<and> s' = s) \<or>
    (\<exists>iid i. r = Inl InvitationExpiredError \<and> mget (iv_tokenIndex s) tok = Some iid \<and> mget (iv_invitations s) iid = Some i \<and>
      ci_status i \<in> {V_PENDING, V_EXPIRED} \<and> ci_expiresAt i < now1 \<and> s' = put_invitation iid (i\<lparr>ci_status := V_EXPIRED\<rparr>) s) \<or>
    (\<exists>iid i. mget (iv_tokenIndex s) tok = Some iid \<and> mget (iv_invitations s) iid = Some i \<and>
      ci_status i \<in> {V_PENDING, V_EXPIRED} \<and> now1 \<le> ci_expiresAt i \<and>
      r = Inr (i\<lparr>ci_status := V_ACCEPTED, ci_acceptedAt := Some now2, ci_acceptedBy := Some user\<rparr>) \<and>
      s' = put_invitation iid (i\<lparr>ci_status := V_ACCEPTED, ci_acceptedAt := Some now2, ci_acceptedBy := Some user\<rparr>) s)"
    using assms unfolding st by (auto simp: acceptInvitation_def Let_def split: option.splits if_splits)
  then show ?thesis using same expired accepted by blast
qed

lemma revoke_cases:
  assumes "revokeInvitation iid who role now s = (r, s')"
  obtains (same) e where "r = Inl e" "s' = s"
  | (revoked) i where "mget (iv_invitations s) iid = Some i"
      "s' = put_invitation iid (i\<lparr>ci_status := V_REVOKED, ci_revokedAt := Some now, ci_revokedBy := Some who\<rparr>) s"
  using assms by (auto simp: revokeInvitation_def Let_def split: option.splits if_splits)

lemma create_cases:
  assumes "createInvitation req now uuid tok s = (Inr i, s')"
  obtains s1 u where "checkRateLimit (cq_inviterId req) (cq_inviteeEmail req) now s = (Inr u, s1)"
    and "s' = s1\<lparr>iv_invitations := mset_kv uuid i (iv_invitations s1), iv_tokenIndex := mset_kv tok uuid (iv_tokenIndex s1)\<rparr>"
    and "ci_id i = uuid" "ci_token i = tok" "ci_status i = V_PENDING" "ci_acceptedBy i = None" "ci_revokedBy i = None"
    and "collaboration_rank (ci_assignedRole i) \<le> collaboration_rank (ci_inviterRole i)"
  using assms by (auto simp: createInvitation_def Let_def split: sum.splits prod.splits if_splits)

lemma create_failed_same: "createInvitation req now uuid tok s = (Inl e, s') \<Longrightarrow> s' = s"
  using checkRateLimit_frame(2) by (auto simp: createInvitation_def Let_def split: sum.splits prod.splits if_splits)

lemma run_throttle: "invitation_run cfg s t h \<Longrightarrow> throttle_ok cfg s t (ih_made h)"
proof (induction rule: invitation_run.induct)
  case (start t)
  then show ?case by (simp add: throttle_ok_def InvitationService_new_def history_ok_def recent_times_def times_of_def)
next
  case (create s t h now uuid tok req i s')
  from create.hyps(6) obtain s1 u where c: "checkRateLimit (cq_inviterId req) (cq_inviteeEmail req) now s = (Inr u, s1)"
    and s': "s' = s1\<lparr>iv_invitations := mset_kv uuid i (iv_invitations s1), iv_tokenIndex := mset_kv tok uuid (iv_tokenIndex s1)\<rparr>" by (rule create_cases)
  show ?case using checkRateLimit_ok [OF c create.IH create.hyps(2)] by (simp add: s' throttle_ok_def)
next
  case (create_failed s t h now req uuid tok e s')
  then show ?case using create_failed_same throttle_later by blast
next
  case (revoke s t h now iid who role r s')
  from revoke.hyps(3) show ?case
    by (cases rule: revoke_cases) (auto intro!: throttle_same [OF revoke.IH revoke.hyps(2)] simp: put_invitation_def)
next
  case (accept s t h now1 now2 tok user i s')
  then have "t \<le> now2" by simp
  from accept.hyps(4) show ?case
    by (cases rule: accept_cases) (auto intro!: throttle_same [OF accept.IH \<open>t \<le> now2\<close>] simp: put_invitation_def)
next
  case (accept_failed s t h now1 tok user now2 e s')
  from accept_failed.hyps(3) show ?case
    by (cases rule: accept_cases) (auto intro!: throttle_same [OF accept_failed.IH accept_failed.hyps(2)] simp: put_invitation_def)
qed

lemma create_invitations:
  assumes ok: "invitations_ok s t acc" and "t \<le> now" "uuid \<noteq> []" and new: "mget (iv_invitations s) uuid = None" "mget (iv_tokenIndex s) tok = None"
    and "createInvitation req now uuid tok s = (Inr i, s')"
  shows "invitations_ok s' now acc"
proof -
  from assms(6) obtain s1 u where c: "checkRateLimit (cq_inviterId req) (cq_inviteeEmail req) now s = (Inr u, s1)"
    and s': "s' = s1\<lparr>iv_invitations := mset_kv uuid i (iv_invitations s1), iv_tokenIndex := mset_kv tok uuid (iv_tokenIndex s1)\<rparr>"
    and i: "ci_id i = uuid" "ci_token i = tok" "ci_status i = V_PENDING" "ci_acceptedBy i = None" "ci_revokedBy i = None"
      "collaboration_rank (ci_assignedRole i) \<le> collaboration_rank (ci_inviterRole i)" by (rule create_cases)
  note same = checkRateLimit_frame(1) [OF c]
  have fresh: "uuid \<notin> fst ` set acc" using ok new(1) by (auto simp: invitations_ok_def)
  have old: "invite_ok now (fst ` set acc) (mset_kv tok uuid (iv_tokenIndex s)) x j" if "mget (iv_invitations s) x = Some j" for x j
  proof -
    have "invite_ok now (fst ` set acc) (iv_tokenIndex s) x j" by (rule invitations_okD(1) [OF ok assms(2) that])
    then show ?thesis using new(2) by (auto simp: invite_ok_def)
  qed
  have this_one: "invite_ok now (fst ` set acc) (mset_kv tok uuid (iv_tokenIndex s)) uuid i"
    using i fresh assms(3) by (simp add: invite_ok_def)
  have index: "\<exists>j. mget (iv_invitations s) x = Some j \<and> ci_token j = k \<and> x \<noteq> uuid" if "mget (iv_tokenIndex s) k = Some x" for k x
    using ok that new(1) by (fastforce simp: invitations_ok_def)
  show ?thesis using ok old this_one index i(2) fresh by (auto simp: invitations_ok_def s' same)
qed

lemma put_accepted:
  assumes ok: "invitations_ok s t acc" and "t \<le> now1" "now1 \<le> now2" and i: "mget (iv_tokenIndex s) tok = Some iid" "mget (iv_invitations s) iid = Some i"
    "ci_status i \<in> {V_PENDING, V_EXPIRED}" "now1 \<le> ci_expiresAt i"
  shows "ci_status i = V_PENDING" "ci_token i = tok" "ci_id i = iid" "ci_revokedBy i = None" "iid \<notin> fst ` set acc"
    "collaboration_rank (ci_assignedRole i) \<le> collaboration_rank (ci_inviterRole i)"
    "invitations_ok (put_invitation iid (i\<lparr>ci_status := V_ACCEPTED, ci_acceptedAt := Some now2, ci_acceptedBy := Some user\<rparr>) s) now2 (acc @ [(iid, user, now1)])"
proof -
  have io: "invite_ok now1 (fst ` set acc) (iv_tokenIndex s) iid i" by (rule invitations_okD(1) [OF ok assms(2) i(2)])
  have "t \<le> now2" using assms(2,3) by simp
  show ps: "ci_status i = V_PENDING" "ci_id i = iid" "ci_revokedBy i = None" "iid \<notin> fst ` set acc"
    "collaboration_rank (ci_assignedRole i) \<le> collaboration_rank (ci_inviterRole i)" using io i(3,4) by (auto simp: invite_ok_def)
  show "ci_token i = tok" using invitations_okD(3) [OF ok order_refl i(1)] i(2) by simp
  have "distinct (map fst acc)" using ok by (simp add: invitations_ok_def)
  then have "distinct (map fst (acc @ [(iid, user, now1)]))" using ps(4) by simp
  moreover have "invite_ok now2 (fst ` set (acc @ [(iid, user, now1)])) (iv_tokenIndex s) iid
      (i\<lparr>ci_status := V_ACCEPTED, ci_acceptedAt := Some now2, ci_acceptedBy := Some user\<rparr>)" using io by (simp add: invite_ok_def)
  ultimately show "invitations_ok (put_invitation iid (i\<lparr>ci_status := V_ACCEPTED, ci_acceptedAt := Some now2, ci_acceptedBy := Some user\<rparr>) s) now2 (acc @ [(iid, user, now1)])"
    using invitations_put [OF ok i(2) _ _ \<open>t \<le> now2\<close>] by simp
qed

lemma run_invitations: "invitation_run cfg s t h \<Longrightarrow> invitations_ok s t (ih_accepted h)"
proof (induction rule: invitation_run.induct)
  case (start t)
  then show ?case by (simp add: invitations_ok_def InvitationService_new_def)
next
  case (create s t h now uuid tok req i s')
  then show ?case using create_invitations by simp
next
  case (create_failed s t h now req uuid tok e s')
  then show ?case using create_failed_same invitations_later by blast
next
  case (revoke s t h now iid who role r s')
  from revoke.hyps(3) show ?case
  proof (cases rule: revoke_cases)
    case (revoked i)
    have "invite_ok now (fst ` set (ih_accepted h)) (iv_tokenIndex s) iid i" by (rule invitations_okD(1) [OF revoke.IH revoke.hyps(2) revoked(1)])
    then have "invite_ok now (fst ` set (ih_accepted h)) (iv_tokenIndex s) iid (i\<lparr>ci_status := V_REVOKED, ci_revokedAt := Some now, ci_revokedBy := Some who\<rparr>)"
      by (simp add: invite_ok_def)
    then show ?thesis using invitations_put [OF revoke.IH revoked(1) _ _ revoke.hyps(2)] revoke.IH by (simp add: revoked(2) invitations_ok_def)
  qed (use invitations_later [OF revoke.IH revoke.hyps(2)] in simp)
next
  case (accept s t h now1 now2 tok user i s')
  from accept.hyps(4) show ?case
  proof (cases rule: accept_cases)
    case (accepted iid j)
    then show ?thesis using put_accepted(3,7) [OF accept.IH accept.hyps(2,3) accepted(1-4)] by simp
  qed auto
next
  case (accept_failed s t h now1 tok user now2 e s')
  from accept_failed.hyps(3) show ?case
  proof (cases rule: accept_cases)
    case (expired iid i)
    have "invite_ok now1 (fst ` set (ih_accepted h)) (iv_tokenIndex s) iid i" by (rule invitations_okD(1) [OF accept_failed.IH accept_failed.hyps(2) expired(3)])
    then have "invite_ok now1 (fst ` set (ih_accepted h)) (iv_tokenIndex s) iid (i\<lparr>ci_status := V_EXPIRED\<rparr>)"
      using expired(4,5) by (auto simp: invite_ok_def)
    then show ?thesis using invitations_put [OF accept_failed.IH expired(3) _ _ accept_failed.hyps(2)] accept_failed.IH by (simp add: expired(6) invitations_ok_def)
  qed (use invitations_later [OF accept_failed.IH accept_failed.hyps(2)] in auto)
qed

subsection \<open>The guarantees\<close>

text \<open>A colleague is invited as a viewer.\<close>

definition colleague :: create_invitation_request where
  "colleague = \<lparr>cq_organizationId = ''o'', cq_inviterId = ''ada'', cq_inviterRole = C_ADMIN, cq_inviteeEmail = '' Bob@x.io'',
     cq_assignedRole = C_VIEWER, cq_expiresInMs = None\<rparr>"

definition invited :: invitation_service where
  "invited = snd (createInvitation colleague 1000 ''i1'' ''tk'' (InvitationService_new (Some default_throttle)))"

definition invited_history :: invitation_history where
  "invited_history = \<lparr>ih_made = [(''ada'', ''bob@x.io'', 1000)], ih_accepted = []\<rparr>"

lemma invited_key: "email_key '' Bob@x.io'' = ''bob@x.io''"
  by code_simp

lemma invited_run: "invitation_run default_throttle invited 1000 invited_history"
proof -
  obtain i where c: "createInvitation colleague 1000 ''i1'' ''tk'' (InvitationService_new (Some default_throttle)) = (Inr i, invited)"
    by (simp add: invited_def createInvitation_def colleague_def checkRateLimit_def InvitationService_new_def default_throttle_def recent_times_def Let_def)
  from create [OF start _ _ _ _ c, of 0] show ?thesis
    by (simp add: invited_history_def InvitationService_new_def colleague_def invited_key)
qed

text \<open>
  C37: In every window of time of the configured length an inviter makes at most
  the configured number of invitations, and at most the other limit go to one address however it is
  spelled, although the service drops the times that left the window.
\<close>

theorem invitation_throttle:
  assumes "invitation_run cfg s t h" and "0 \<le> tc_maxInvitesPerWindow cfg" and "0 \<le> tc_maxInvitesPerTargetEmail cfg"
  shows "int (length (filter (\<lambda>m. fst m = who \<and> snd (snd m) \<le> now \<and> now - snd (snd m) < tc_windowMs cfg) (ih_made h))) \<le> tc_maxInvitesPerWindow cfg \<and>
    int (length (filter (\<lambda>m. fst (snd m) = email_key email \<and> snd (snd m) \<le> now \<and> now - snd (snd m) < tc_windowMs cfg) (ih_made h)))
      \<le> tc_maxInvitesPerTargetEmail cfg"
proof -
  have count: "length (filter (\<lambda>m. key m = k \<and> snd (snd m) \<le> now \<and> now - snd (snd m) < w) made) = length (times_in_window w now (times_of key made k))"
    for key :: "string \<times> string \<times> int \<Rightarrow> string" and k w made
    by (simp add: times_in_window_def times_of_def filter_map comp_def conj_commute)
  have bound: "int (length (times_in_window w now (ts k))) \<le> m" if "history_ok w m t hist ts" "0 \<le> m" for w m hist ts k
    using that by (cases "ts k = []") (auto simp: history_ok_def times_in_window_def)
  show ?thesis using run_throttle [OF assms(1)] assms(2,3) bound unfolding throttle_ok_def count by blast
qed

text \<open>Witness of C37: shortly after an invitation was made.\<close>

theorem invitation_throttle_witness:
  "int (length (filter (\<lambda>m. fst m = ''ada'' \<and> snd (snd m) \<le> 1500 \<and> 1500 - snd (snd m) < tc_windowMs default_throttle) (ih_made invited_history))) = 1 \<and>
   int (length (filter (\<lambda>m. fst m = ''ada'' \<and> snd (snd m) \<le> 1500 \<and> 1500 - snd (snd m) < tc_windowMs default_throttle) (ih_made invited_history)))
     \<le> tc_maxInvitesPerWindow default_throttle"
  using invitation_throttle [OF invited_run, of "''ada''" 1500] by (simp add: default_throttle_def invited_history_def)

text \<open>
  C13: An invitation is accepted at most once, whatever is created, revoked and tried in
  between. What is accepted then was pending, never revoked or accepted before, carries the token that was
  presented, has not expired and gives no more than the role of its inviter.
\<close>

theorem invitation_accepted_once:
  assumes "invitation_run cfg s t h"
  shows "distinct (map fst (ih_accepted h)) \<and>
    (\<forall>tok user now1 now2 i s'. t \<le> now1 \<and> now1 \<le> now2 \<and> acceptInvitation tok user now1 now2 s = (Inr i, s') \<longrightarrow>
       (\<exists>j. getInvitation (ci_id i) s = Some j \<and> ci_status j = V_PENDING \<and> ci_revokedBy j = None \<and> ci_id i \<notin> fst ` set (ih_accepted h) \<and>
          ci_token j = tok \<and> now1 \<le> ci_expiresAt j \<and> collaboration_rank (ci_assignedRole i) \<le> collaboration_rank (ci_inviterRole i)))"
proof (intro conjI allI impI)
  note ok = run_invitations [OF assms]
  show "distinct (map fst (ih_accepted h))" using ok by (simp add: invitations_ok_def)
  fix tok user now1 now2 i s' assume a: "t \<le> now1 \<and> now1 \<le> now2 \<and> acceptInvitation tok user now1 now2 s = (Inr i, s')"
  then have ac: "acceptInvitation tok user now1 now2 s = (Inr i, s')" and le: "t \<le> now1" "now1 \<le> now2" by simp_all
  from ac show "\<exists>j. getInvitation (ci_id i) s = Some j \<and> ci_status j = V_PENDING \<and> ci_revokedBy j = None \<and> ci_id i \<notin> fst ` set (ih_accepted h) \<and>
      ci_token j = tok \<and> now1 \<le> ci_expiresAt j \<and> collaboration_rank (ci_assignedRole i) \<le> collaboration_rank (ci_inviterRole i)"
  proof (cases rule: accept_cases)
    case (accepted iid j)
    note p = put_accepted(1-6) [OF ok le accepted(1-4)]
    from accepted(5) have "ci_id i = iid" "ci_assignedRole i = ci_assignedRole j" "ci_inviterRole i = ci_inviterRole j" using p(3) by simp_all
    then show ?thesis using p accepted(2,4) by (simp add: getInvitation_def)
  qed auto
qed

text \<open>Witness of C13: the colleague accepts.\<close>

theorem invitation_accepted_once_witness:
  "\<exists>i s' j. acceptInvitation ''tk'' ''bob'' 2000 2000 invited = (Inr i, s') \<and> getInvitation (ci_id i) invited = Some j \<and> ci_status j = V_PENDING \<and>
     ci_token j = ''tk'' \<and> collaboration_rank (ci_assignedRole i) \<le> collaboration_rank (ci_inviterRole i)"
proof -
  have "\<exists>i s'. acceptInvitation ''tk'' ''bob'' 2000 2000 invited = (Inr i, s')"
    by (simp add: acceptInvitation_def invited_def createInvitation_def colleague_def checkRateLimit_def InvitationService_new_def default_throttle_def
        recent_times_def Let_def)
  then obtain i s' where a: "acceptInvitation ''tk'' ''bob'' 2000 2000 invited = (Inr i, s')" by blast
  have "(1000::int) \<le> 2000 \<and> (2000::int) \<le> 2000" by simp
  with invitation_accepted_once [OF invited_run] a show ?thesis by blast
qed

text \<open>Revoking does not look at the status: an invitation that was accepted becomes revoked, and keeps its acceptance.\<close>

lemma revoke_accepted:
  assumes "getInvitation iid s = Some i" and "ci_status i = V_ACCEPTED" and "ci_inviterId i = who"
  shows "\<exists>j s'. revokeInvitation iid who role now s = (Inr j, s') \<and> ci_status j = V_REVOKED \<and> ci_acceptedBy j = ci_acceptedBy i"
  using assms by (simp add: revokeInvitation_def getInvitation_def Let_def)

end
