(* ===== verification/Business_Policy.thy ===== *)
theory Business_Policy
  imports Invoice_Model Feature_Flags
begin

text \<open>
  The business policy, \<open>backend/src/domain/policy.ts\<close>: limits on amounts, expiry and assets, read from
  the environment, and the ordered rules that a request for an invoice has to pass. Texts of denials
  are left out.
\<close>

subsection \<open>Numbers and texts\<close>

text \<open>\<open>a < b\<close> and \<open>a === b\<close> on numbers; both are false when one is not a number.\<close>

definition num_lt :: "jsnum \<Rightarrow> jsnum \<Rightarrow> bool" where
  "num_lt a b =
     (case a of
        Num x \<Rightarrow> (case b of Num y \<Rightarrow> x < y | Infinity \<Rightarrow> True | _ \<Rightarrow> False)
      | NegInfinity \<Rightarrow> (case b of Num y \<Rightarrow> True | Infinity \<Rightarrow> True | _ \<Rightarrow> False)
      | _ \<Rightarrow> False)"

definition num_same :: "jsnum \<Rightarrow> jsnum \<Rightarrow> bool" where
  "num_same a b \<longleftrightarrow> a = b \<and> a \<noteq> NaN"

lemma num_lt_Num [simp]: "num_lt (Num a) (Num b) = (a < b)"
  by (simp add: num_lt_def)

text \<open>
  \<open>toUpperCase\<close> on code units below 256: a sharp s becomes two letters. The micro sign and y with a
  diaeresis have capitals beyond that range and are left as they are.
\<close>

definition upper_char :: "char \<Rightarrow> string" where
  "upper_char c =
     (let n = of_char c :: nat
      in if 97 \<le> n \<and> n \<le> 122 \<or> 224 \<le> n \<and> n \<le> 254 \<and> n \<noteq> 247 then [char_of (n - 32)]
         else if n = 223 then ''SS'' else [c])"

definition js_upper :: "string \<Rightarrow> string" where
  "js_upper s = concat (map upper_char s)"

lemma upper_char_idem: "concat (map upper_char (upper_char c)) = upper_char c"
  by (auto simp: upper_char_def Let_def of_char_of)

lemma js_upper_idem [simp]: "js_upper (js_upper s) = js_upper s"
  by (induction s) (simp_all add: js_upper_def upper_char_idem)

subsection \<open>The policy\<close>

record business_policy =
  bp_minAmount :: jsnum
  bp_maxAmount :: jsnum
  bp_minExpiryDays :: jsnum
  bp_maxExpiryDays :: jsnum
  bp_defaultExpiryDays :: jsnum
  bp_allowedAssets :: "string list"

datatype policy_code = AMOUNT_TOO_LOW | AMOUNT_TOO_HIGH | EXPIRY_OUT_OF_RANGE | ASSET_NOT_ALLOWED

datatype policy_decision = Allowed | Denied policy_code

definition DEFAULT_POLICY :: business_policy where
  "DEFAULT_POLICY =
     \<lparr>bp_minAmount = to_double (1 / 10000000), bp_maxAmount = Num 1000000000, bp_minExpiryDays = Num (of_int MIN_INVOICE_EXPIRY_DAYS),
      bp_maxExpiryDays = Num (of_int MAX_INVOICE_EXPIRY_DAYS), bp_defaultExpiryDays = Num (of_int DEFAULT_INVOICE_EXPIRY_DAYS), bp_allowedAssets = []\<rparr>"

record policy_request =
  pq_amount :: jsnum
  pq_assetCode :: "string option"
  pq_expiresInDays :: "jsnum option"

definition request_asset :: "policy_request \<Rightarrow> string" where
  "request_asset req = js_upper (case pq_assetCode req of Some c \<Rightarrow> c | None \<Rightarrow> ''XLM'')"

definition evaluateInvoiceRequest :: "policy_request \<Rightarrow> business_policy \<Rightarrow> policy_decision" where
  "evaluateInvoiceRequest req policy =
     (if \<not> is_finite (pq_amount req) \<or> num_lt (pq_amount req) (bp_minAmount policy) then Denied AMOUNT_TOO_LOW
      else if num_lt (bp_maxAmount policy) (pq_amount req) then Denied AMOUNT_TOO_HIGH
      else
        let asset = request_asset req
        in if bp_allowedAssets policy \<noteq> [] \<and> asset \<notin> set (bp_allowedAssets policy) then Denied ASSET_NOT_ALLOWED
           else (case pq_expiresInDays req of
               None \<Rightarrow> Allowed
             | Some days \<Rightarrow>
                 if \<not> is_integer days \<or> num_lt days (bp_minExpiryDays policy) \<or> num_lt (bp_maxExpiryDays policy) days
                 then Denied EXPIRY_OUT_OF_RANGE else Allowed))"

definition positiveNumber :: "string option \<Rightarrow> jsnum option" where
  "positiveNumber raw =
     (case raw of
        None \<Rightarrow> None
      | Some r \<Rightarrow>
          if js_trim r = [] then None
          else let n = js_number r in if is_finite n \<and> num_lt (Num 0) n then Some n else None)"

definition loadPolicy :: "environment \<Rightarrow> business_policy" where
  "loadPolicy env =
     (let d = DEFAULT_POLICY;
          assets = filter (\<lambda>a. a \<noteq> []) (map (\<lambda>a. js_upper (js_trim a))
            (split_on CHR '','' (case env ''POLICY_ALLOWED_ASSETS'' of Some v \<Rightarrow> v | None \<Rightarrow> [])))
      in d\<lparr>bp_minAmount := (case positiveNumber (env ''POLICY_MIN_INVOICE_AMOUNT'') of Some n \<Rightarrow> n | None \<Rightarrow> bp_minAmount d),
           bp_maxAmount := (case positiveNumber (env ''POLICY_MAX_INVOICE_AMOUNT'') of Some n \<Rightarrow> n | None \<Rightarrow> bp_maxAmount d),
           bp_allowedAssets := (if length assets > 0 then assets else [])\<rparr>)"

subsection \<open>Properties\<close>

text \<open>A policy whose limits are positive numbers and whose assets are written as requests are compared.\<close>

definition positive_amount :: "jsnum \<Rightarrow> bool" where
  "positive_amount n = (case n of Num q \<Rightarrow> 0 < q | _ \<Rightarrow> False)"

definition policy_wf :: "business_policy \<Rightarrow> bool" where
  "policy_wf p \<longleftrightarrow> positive_amount (bp_minAmount p) \<and> positive_amount (bp_maxAmount p) \<and>
     is_integer (bp_minExpiryDays p) \<and> is_integer (bp_maxExpiryDays p) \<and> is_integer (bp_defaultExpiryDays p) \<and>
     list_all (\<lambda>a. a \<noteq> [] \<and> js_upper a = a) (bp_allowedAssets p)"

lemma positiveNumber_positive: "positiveNumber raw = Some n \<Longrightarrow> positive_amount n"
  by (cases n) (auto simp: positiveNumber_def positive_amount_def num_lt_def Let_def split: option.splits if_splits)

text \<open>What passes, as one condition.\<close>

definition between :: "jsnum \<Rightarrow> jsnum \<Rightarrow> jsnum \<Rightarrow> bool" where
  "between lo hi n \<longleftrightarrow> \<not> num_lt n lo \<and> \<not> num_lt hi n"

lemma evaluate_allowed:
  "evaluateInvoiceRequest req p = Allowed \<longleftrightarrow>
     is_finite (pq_amount req) \<and> between (bp_minAmount p) (bp_maxAmount p) (pq_amount req) \<and>
     (bp_allowedAssets p = [] \<or> request_asset req \<in> set (bp_allowedAssets p)) \<and>
     (\<forall>d. pq_expiresInDays req = Some d \<longrightarrow> is_integer d \<and> between (bp_minExpiryDays p) (bp_maxExpiryDays p) d)"
  by (auto simp: evaluateInvoiceRequest_def between_def Let_def split: option.splits)

lemma to_double_close:
  assumes "2 powi (-1022) \<le> x" and "x \<le> 2 ^ 1000"
  shows "\<exists>y. to_double x = Num y \<and> 0 < y \<and> y \<le> 2 * x"
proof -
  have "(0::rat) < 2 powi (-1022)" by simp
  then have x0: "0 < x" using assms(1) by linarith
  then have "\<bar>round_double x - x\<bar> \<le> x / 2 ^ 53" using round_double_error [of x] assms(1) by simp
  moreover have "x / 2 ^ 53 \<le> x / 2" using x0 by (intro divide_left_mono) auto
  ultimately have "x / 2 \<le> round_double x" "round_double x \<le> 2 * x" by linarith+
  moreover from this have "round_double x < 2 ^ 1024"
    using assms(2) power_strict_increasing [of 1001 1024 "2::rat"] by (simp add: power_add [of 2 1 1000, simplified])
  ultimately show ?thesis using x0 by (auto simp: to_double_def Let_def)
qed

lemma default_min: obtains q where "to_double (1 / 10000000) = Num q" "0 < q" "q \<le> 1"
proof -
  have "(2::rat) powi (-1022) \<le> 2 powi (-24)" by (rule power_int_increasing) auto
  also have "\<dots> \<le> 1 / 10000000" by (simp add: power_int_def field_simps)
  finally have lo: "(2::rat) powi (-1022) \<le> 1 / 10000000" .
  have "(1::rat) \<le> 2 ^ 1000" by (rule one_le_power) simp
  then have "(1 / 10000000 :: rat) \<le> 2 ^ 1000" by linarith
  from to_double_close [OF lo this] show ?thesis using that by fastforce
qed

lemma loaded_assets: "list_all (\<lambda>a. a \<noteq> [] \<and> js_upper a = a) (bp_allowedAssets (loadPolicy env))"
  by (auto simp: loadPolicy_def Let_def list_all_iff)

lemma allowed_amount:
  assumes "policy_wf p" and "evaluateInvoiceRequest req p = Allowed"
  shows "\<exists>q. pq_amount req = Num q \<and> 0 < q"
  using assms by (cases "pq_amount req"; cases "bp_minAmount p")
    (auto simp: evaluate_allowed between_def policy_wf_def positive_amount_def num_lt_def)

text \<open>
  C36: Whatever the environment holds, the policy that is loaded is well formed: both limits
  of the amount are finite and positive, the days are whole and the assets are not empty and written in
  upper case, as the asset of a request is compared. So no typo turns a limit into something that every
  amount passes, and an amount that is allowed is a positive number.
\<close>

theorem loadPolicy_wf:
  "policy_wf (loadPolicy env) \<and> (\<forall>req. evaluateInvoiceRequest req (loadPolicy env) = Allowed \<longrightarrow> (\<exists>q. pq_amount req = Num q \<and> 0 < q))"
proof -
  obtain q where q: "to_double (1 / 10000000) = Num q" "0 < q" by (rule default_min)
  have "positive_amount (bp_minAmount (loadPolicy env))" "positive_amount (bp_maxAmount (loadPolicy env))"
    by (auto simp: loadPolicy_def Let_def DEFAULT_POLICY_def q positive_amount_def [of "Num _"] dest: positiveNumber_positive split: option.split)
  moreover have "bp_minExpiryDays (loadPolicy env) = Num 1" "bp_maxExpiryDays (loadPolicy env) = Num 30" "bp_defaultExpiryDays (loadPolicy env) = Num 7"
    by (simp_all add: loadPolicy_def Let_def DEFAULT_POLICY_def expiry_consts)
  ultimately have "policy_wf (loadPolicy env)" using loaded_assets [of env] by (simp add: policy_wf_def)
  then show ?thesis using allowed_amount by blast
qed

text \<open>Witness of C36: a minimum that is no number is ignored, and five are allowed.\<close>

theorem loadPolicy_wf_witness:
  "let env = (\<lambda>v. if v = ''POLICY_MIN_INVOICE_AMOUNT'' then Some ''0,5'' else None);
       req = \<lparr>pq_amount = Num 5, pq_assetCode = None, pq_expiresInDays = Some (Num 7)\<rparr>
   in bp_minAmount (loadPolicy env) = bp_minAmount DEFAULT_POLICY \<and> evaluateInvoiceRequest req (loadPolicy env) = Allowed \<and>
     policy_wf (loadPolicy env) \<and> (\<exists>q. pq_amount req = Num q \<and> 0 < q)"
proof -
  let ?env = "\<lambda>v. if v = ''POLICY_MIN_INVOICE_AMOUNT'' then Some ''0,5'' else None"
  let ?req = "\<lparr>pq_amount = Num 5, pq_assetCode = None, pq_expiresInDays = Some (Num 7)\<rparr>"
  have none: "positiveNumber (Some ''0,5'') = None" by code_simp
  obtain q where q: "to_double (1 / 10000000) = Num q" "0 < q" "q \<le> 1" by (rule default_min)
  have p: "loadPolicy ?env = DEFAULT_POLICY"
    by (simp add: loadPolicy_def Let_def none positiveNumber_def [of None] js_upper_def DEFAULT_POLICY_def)
  have "evaluateInvoiceRequest ?req (loadPolicy ?env) = Allowed"
    unfolding p using q(3) by (simp add: evaluateInvoiceRequest_def DEFAULT_POLICY_def q(1) expiry_consts Let_def)
  then show ?thesis using loadPolicy_wf [of ?env] p by (simp add: Let_def)
qed

end
