(* ===== verification/Permission_Diff.thy ===== *)
theory Permission_Diff
  imports Business_Policy Invitations
begin

text \<open>
  Reports on changes of roles and policies before they are made, \<open>backend/src/domain/permission-diff.ts\<close> and
  \<open>backend/src/services/permission-diff.service.ts\<close>. The identifier and time of a report, its summary, the text of its
  reversal recipe and the impact texts are left out; the permissions to restore are kept.
\<close>

subsection \<open>Permissions\<close>

datatype system_permission =
    P_invoice_create | P_invoice_read | P_invoice_update | P_invoice_cancel | P_invoice_verify
  | P_collaboration_invite | P_collaboration_revoke
  | P_ownership_initiate | P_ownership_accept | P_ownership_cancel
  | P_policy_read | P_policy_simulate | P_policy_update
  | P_ops_health | P_job_view | P_job_requeue | P_job_cancel | P_audit_read | P_export_create

definition HIGH_PRIVILEGE_PERMISSIONS :: "system_permission list" where
  "HIGH_PRIVILEGE_PERMISSIONS =
     [P_ownership_initiate, P_ownership_accept, P_ownership_cancel, P_policy_update, P_invoice_cancel, P_job_cancel, P_job_requeue]"

fun DEFAULT_ROLE_PERMISSIONS :: "collaboration_role \<Rightarrow> system_permission list" where
  "DEFAULT_ROLE_PERMISSIONS C_OWNER =
     [P_invoice_create, P_invoice_read, P_invoice_update, P_invoice_cancel, P_invoice_verify, P_collaboration_invite, P_collaboration_revoke,
      P_ownership_initiate, P_ownership_accept, P_ownership_cancel, P_policy_read, P_policy_simulate, P_policy_update,
      P_ops_health, P_job_view, P_job_requeue, P_job_cancel, P_audit_read, P_export_create]"
| "DEFAULT_ROLE_PERMISSIONS C_ADMIN =
     [P_invoice_create, P_invoice_read, P_invoice_update, P_invoice_cancel, P_invoice_verify, P_collaboration_invite, P_collaboration_revoke,
      P_policy_read, P_policy_simulate, P_ops_health, P_job_view, P_job_requeue, P_audit_read, P_export_create]"
| "DEFAULT_ROLE_PERMISSIONS C_COLLABORATOR = [P_invoice_create, P_invoice_read, P_invoice_update, P_export_create]"
| "DEFAULT_ROLE_PERMISSIONS C_VIEWER = [P_invoice_read]"

datatype diff_risk = LOW | MEDIUM | HIGH | CRITICAL

datatype diff_subject = For_role collaboration_role | For_user string collaboration_role collaboration_role

record role_diff =
  rd_subject :: diff_subject
  rd_currentPermissions :: "system_permission list"
  rd_proposedPermissions :: "system_permission list"
  rd_addedPermissions :: "system_permission list"
  rd_revokedPermissions :: "system_permission list"
  rd_retainedPermissions :: "system_permission list"
  rd_isPrivilegeEscalation :: bool
  rd_isBreakingRevocation :: bool
  rd_riskLevel :: diff_risk
  rd_restorePermissions :: "system_permission list"

datatype change_type = EXPANDED | RESTRICTED

datatype policy_param = Min_amount | Max_amount | Allowed_assets

record policy_param_diff =
  pd_parameter :: policy_param
  pd_changeType :: change_type
  pd_riskLevel :: diff_risk

datatype diff_scope = ROLE_MODIFICATION | POLICY_CHANGE | USER_ROLE_ASSIGNMENT

record diff_report =
  pr_generatedBy :: string
  pr_scope :: diff_scope
  pr_overallRisk :: diff_risk
  pr_privilegeEscalationDetected :: bool
  pr_breakingChangesDetected :: bool
  pr_requiresMaintainerQuorum :: bool
  pr_roleDiffs :: "role_diff list"
  pr_policyDiffs :: "policy_param_diff list"

datatype diff_error = UNAUTHORIZED_PERMISSION_DIFF | ROLE_ESCALATION_FORBIDDEN

record diff_options =
  do_actorId :: "string option"
  do_actorRole :: "collaboration_role option"

subsection \<open>Reports\<close>

definition acting_role :: "diff_options \<Rightarrow> collaboration_role" where
  "acting_role opts = (case do_actorRole opts of Some r \<Rightarrow> r | None \<Rightarrow> C_ADMIN)"

definition assertAuthorized :: "diff_options \<Rightarrow> (diff_error, unit) result" where
  "assertAuthorized opts = throw_if (acting_role opts \<noteq> C_OWNER \<and> acting_role opts \<noteq> C_ADMIN) UNAUTHORIZED_PERMISSION_DIFF"

definition generated_by :: "diff_options \<Rightarrow> string" where
  "generated_by opts = (if truthy (do_actorId opts) then the (do_actorId opts) else ''operator'')"

definition needs_quorum :: "diff_risk \<Rightarrow> bool" where
  "needs_quorum r \<longleftrightarrow> r = HIGH \<or> r = CRITICAL"

definition generateRoleDiff :: "collaboration_role \<Rightarrow> system_permission list \<Rightarrow> diff_options \<Rightarrow> (diff_error, diff_report) result" where
  "generateRoleDiff role proposedPermissions opts =
     rbind (assertAuthorized opts) (\<lambda>_.
       let currentPerms = js_set (DEFAULT_ROLE_PERMISSIONS role);
           proposedPerms = js_set proposedPermissions;
           added = filter (\<lambda>p. p \<notin> set currentPerms) proposedPerms;
           retained = filter (\<lambda>p. p \<in> set currentPerms) proposedPerms;
           revoked = filter (\<lambda>p. p \<notin> set proposedPerms) currentPerms;
           isPrivilegeEscalation = (role \<noteq> C_OWNER \<and> list_ex (\<lambda>p. p \<in> set HIGH_PRIVILEGE_PERMISSIONS) added);
           isBreakingRevocation = list_ex (\<lambda>p. p = P_invoice_read \<or> p = P_invoice_create \<or> p = P_invoice_verify) revoked;
           riskLevel =
             (if isPrivilegeEscalation then CRITICAL
              else if isBreakingRevocation \<or> length added > 3 \<or> length revoked > 2 then HIGH
              else if length added > 0 \<or> length revoked > 0 then MEDIUM else LOW)
       in Inr \<lparr>pr_generatedBy = generated_by opts, pr_scope = ROLE_MODIFICATION, pr_overallRisk = riskLevel,
            pr_privilegeEscalationDetected = isPrivilegeEscalation, pr_breakingChangesDetected = isBreakingRevocation,
            pr_requiresMaintainerQuorum = needs_quorum riskLevel,
            pr_roleDiffs = [\<lparr>rd_subject = For_role role, rd_currentPermissions = currentPerms, rd_proposedPermissions = proposedPerms,
              rd_addedPermissions = added, rd_revokedPermissions = revoked, rd_retainedPermissions = retained,
              rd_isPrivilegeEscalation = isPrivilegeEscalation, rd_isBreakingRevocation = isBreakingRevocation, rd_riskLevel = riskLevel,
              rd_restorePermissions = currentPerms\<rparr>],
            pr_policyDiffs = []\<rparr>)"

definition generateUserAssignmentDiff ::
  "string \<Rightarrow> collaboration_role \<Rightarrow> collaboration_role \<Rightarrow> diff_options \<Rightarrow> (diff_error, diff_report) result" where
  "generateUserAssignmentDiff targetUserId currentRole proposedRole opts =
     rbind (assertAuthorized opts) (\<lambda>_.
       let assignerRole = acting_role opts;
           proposedRank = collaboration_rank proposedRole
       in if assignerRole \<noteq> C_OWNER \<and> proposedRank \<ge> collaboration_rank assignerRole then Inl ROLE_ESCALATION_FORBIDDEN
          else
            let currentPerms = js_set (DEFAULT_ROLE_PERMISSIONS currentRole);
                proposedPerms = js_set (DEFAULT_ROLE_PERMISSIONS proposedRole);
                added = filter (\<lambda>p. p \<notin> set currentPerms) proposedPerms;
                revoked = filter (\<lambda>p. p \<notin> set proposedPerms) currentPerms;
                retained = filter (\<lambda>p. p \<in> set proposedPerms) currentPerms;
                isPrivilegeEscalation = (proposedRank > collaboration_rank currentRole \<and> list_ex (\<lambda>p. p \<in> set HIGH_PRIVILEGE_PERMISSIONS) added);
                isBreakingRevocation = list_ex (\<lambda>p. p = P_invoice_read \<or> p = P_invoice_create) revoked;
                riskLevel =
                  (if proposedRole = C_OWNER then CRITICAL else if isPrivilegeEscalation then HIGH
                   else if length revoked > 0 then MEDIUM else LOW)
            in Inr \<lparr>pr_generatedBy = generated_by opts, pr_scope = USER_ROLE_ASSIGNMENT, pr_overallRisk = riskLevel,
                 pr_privilegeEscalationDetected = isPrivilegeEscalation, pr_breakingChangesDetected = isBreakingRevocation,
                 pr_requiresMaintainerQuorum = needs_quorum riskLevel,
                 pr_roleDiffs = [\<lparr>rd_subject = For_user targetUserId currentRole proposedRole, rd_currentPermissions = currentPerms,
                   rd_proposedPermissions = proposedPerms, rd_addedPermissions = added, rd_revokedPermissions = revoked,
                   rd_retainedPermissions = retained, rd_isPrivilegeEscalation = isPrivilegeEscalation,
                   rd_isBreakingRevocation = isBreakingRevocation, rd_riskLevel = riskLevel, rd_restorePermissions = currentPerms\<rparr>],
                 pr_policyDiffs = []\<rparr>)"

definition min_amount_diff :: "business_policy \<Rightarrow> business_policy \<Rightarrow> policy_param_diff list" where
  "min_amount_diff cur prp =
     (if num_same (bp_minAmount cur) (bp_minAmount prp) then []
      else let restricted = num_lt (bp_minAmount cur) (bp_minAmount prp)
           in [\<lparr>pd_parameter = Min_amount, pd_changeType = (if restricted then RESTRICTED else EXPANDED), pd_riskLevel = (if restricted then MEDIUM else LOW)\<rparr>])"

definition max_amount_diff :: "business_policy \<Rightarrow> business_policy \<Rightarrow> policy_param_diff list" where
  "max_amount_diff cur prp =
     (if num_same (bp_maxAmount cur) (bp_maxAmount prp) then []
      else let expanded = num_lt (bp_maxAmount cur) (bp_maxAmount prp)
           in [\<lparr>pd_parameter = Max_amount, pd_changeType = (if expanded then EXPANDED else RESTRICTED), pd_riskLevel = (if expanded then HIGH else LOW)\<rparr>])"

definition assets_diff :: "business_policy \<Rightarrow> business_policy \<Rightarrow> policy_param_diff list" where
  "assets_diff cur prp =
     (let curAssets = js_set (bp_allowedAssets cur);
          propAssets = js_set (bp_allowedAssets prp);
          addedAssets = filter (\<lambda>a. a \<notin> set curAssets) propAssets;
          removedAssets = filter (\<lambda>a. a \<notin> set propAssets) curAssets
      in if length addedAssets > 0 \<or> length removedAssets > 0
         then [\<lparr>pd_parameter = Allowed_assets, pd_changeType = (if length removedAssets > 0 then RESTRICTED else EXPANDED),
                pd_riskLevel = (if length removedAssets > 0 then HIGH else MEDIUM)\<rparr>]
         else [])"

definition generatePolicyDiff :: "business_policy \<Rightarrow> business_policy \<Rightarrow> diff_options \<Rightarrow> (diff_error, diff_report) result" where
  "generatePolicyDiff currentPolicy proposedPolicy opts =
     rbind (assertAuthorized opts) (\<lambda>_.
       let policyDiffs = min_amount_diff currentPolicy proposedPolicy @ max_amount_diff currentPolicy proposedPolicy @ assets_diff currentPolicy proposedPolicy;
           overallRisk =
             (if list_ex (\<lambda>d. pd_riskLevel d = HIGH) policyDiffs then HIGH
              else if list_ex (\<lambda>d. pd_riskLevel d = MEDIUM) policyDiffs then MEDIUM else LOW)
       in Inr \<lparr>pr_generatedBy = generated_by opts, pr_scope = POLICY_CHANGE, pr_overallRisk = overallRisk,
            pr_privilegeEscalationDetected = False, pr_breakingChangesDetected = list_ex (\<lambda>d. pd_changeType d = RESTRICTED) policyDiffs,
            pr_requiresMaintainerQuorum = (overallRisk = HIGH), pr_roleDiffs = [], pr_policyDiffs = policyDiffs\<rparr>)"

end
