(* ===== verification/Policy_Diff_Properties.thy ===== *)
theory Policy_Diff_Properties
  imports Permission_Diff
begin

text \<open>
  What the reports say: the permissions a role or user would gain and lose, exactly, with every gain of a
  high privilege flagged; and for policies, that a change not reported as breaking denies nothing that was allowed, with
  the case in which it does.
\<close>

subsection \<open>Roles\<close>

lemma authorized: "assertAuthorized opts = Inr u \<longleftrightarrow> acting_role opts \<in> {C_OWNER, C_ADMIN}"
  by (auto simp: assertAuthorized_def throw_if_def)

text \<open>How the lists of a diff relate to the permissions before and after.\<close>

definition diff_exact :: "system_permission set \<Rightarrow> system_permission set \<Rightarrow> role_diff \<Rightarrow> bool" where
  "diff_exact cur prp d \<longleftrightarrow>
     set (rd_addedPermissions d) = prp - cur \<and> set (rd_revokedPermissions d) = cur - prp \<and> set (rd_retainedPermissions d) = cur \<inter> prp \<and>
     distinct (rd_addedPermissions d @ rd_revokedPermissions d @ rd_retainedPermissions d) \<and>
     set (rd_restorePermissions d) = cur"

lemma diff_exactI:
  assumes "set (rd_addedPermissions d) = prp - cur" "set (rd_revokedPermissions d) = cur - prp" "set (rd_retainedPermissions d) = cur \<inter> prp"
    "distinct (rd_addedPermissions d)" "distinct (rd_revokedPermissions d)" "distinct (rd_retainedPermissions d)" "set (rd_restorePermissions d) = cur"
  shows "diff_exact cur prp d"
  using assms by (auto simp: diff_exact_def)

definition high_gain :: "system_permission set \<Rightarrow> system_permission set \<Rightarrow> bool" where
  "high_gain cur prp \<longleftrightarrow> (\<exists>p\<in>set HIGH_PRIVILEGE_PERMISSIONS. p \<in> prp \<and> p \<notin> cur)"

definition core_loss :: "system_permission set \<Rightarrow> system_permission set \<Rightarrow> bool" where
  "core_loss cur prp \<longleftrightarrow> (\<exists>p\<in>{P_invoice_read, P_invoice_create, P_invoice_verify}. p \<in> cur \<and> p \<notin> prp)"

lemma list_ex_filter: "list_ex P (filter Q xs) \<longleftrightarrow> (\<exists>x\<in>set xs. Q x \<and> P x)"
  by (auto simp: list_ex_iff)

text \<open>
  C35: A report on a change of a role is made for an owner or administrator only. It lists exactly
  the permissions gained, lost and kept, without repetition, and those to restore are the
  ones before the change. Risk is low exactly if nothing changes; when a role other than the owner's gains a high
  privilege it is critical, and that, or the loss of a core permission on invoices, asks for a quorum of maintainers.
\<close>

theorem role_diff_exact:
  assumes "generateRoleDiff role proposed opts = Inr r"
  defines "cur \<equiv> set (DEFAULT_ROLE_PERMISSIONS role)"
  shows "acting_role opts \<in> {C_OWNER, C_ADMIN} \<and>
    (\<exists>d. pr_roleDiffs r = [d] \<and> diff_exact cur (set proposed) d) \<and>
    (pr_overallRisk r = LOW \<longleftrightarrow> cur = set proposed) \<and>
    (pr_overallRisk r = CRITICAL \<longleftrightarrow> role \<noteq> C_OWNER \<and> high_gain cur (set proposed)) \<and>
    (role \<noteq> C_OWNER \<and> high_gain cur (set proposed) \<or> core_loss cur (set proposed) \<longrightarrow> pr_requiresMaintainerQuorum r)"
proof -
  from assms(1) have au: "acting_role opts \<in> {C_OWNER, C_ADMIN}"
    by (auto simp: generateRoleDiff_def rbind_Inr_iff authorized)
  define esc where "esc \<longleftrightarrow> role \<noteq> C_OWNER \<and> high_gain cur (set proposed)"
  define brk where "brk \<longleftrightarrow> core_loss cur (set proposed)"
  have ok: "assertAuthorized opts = Inr ()" using au by (simp add: authorized)
  define gain where "gain = filter (\<lambda>p. p \<notin> set (DEFAULT_ROLE_PERMISSIONS role)) (js_set proposed)"
  define lost where "lost = filter (\<lambda>p. p \<notin> set proposed) (js_set (DEFAULT_ROLE_PERMISSIONS role))"
  have e: "role \<noteq> C_OWNER \<and> list_ex (\<lambda>p. p \<in> set HIGH_PRIVILEGE_PERMISSIONS) gain \<longleftrightarrow> esc"
    by (auto simp: esc_def high_gain_def gain_def list_ex_filter cur_def)
  have b: "list_ex (\<lambda>p. p = P_invoice_read \<or> p = P_invoice_create \<or> p = P_invoice_verify) lost \<longleftrightarrow> brk"
    by (auto simp: brk_def core_loss_def lost_def list_ex_filter cur_def)
  have nochange: "gain = [] \<and> lost = [] \<longleftrightarrow> cur = set proposed" by (auto simp: gain_def lost_def filter_empty_conv cur_def)
  have quiet: "\<not> esc \<and> \<not> brk" if "gain = []" "lost = []" using that by (auto simp flip: e b)
  define risk where "risk = (if esc then CRITICAL else if brk \<or> length gain > 3 \<or> length lost > 2 then HIGH
      else if length gain > 0 \<or> length lost > 0 then MEDIUM else LOW)"
  have r: "pr_overallRisk r = risk" "pr_requiresMaintainerQuorum r = needs_quorum risk"
    using assms(1) [symmetric] by (simp_all add: generateRoleDiff_def ok Let_def risk_def e b flip: gain_def lost_def)
  obtain d where d: "pr_roleDiffs r = [d]" "rd_addedPermissions d = gain" "rd_revokedPermissions d = lost"
      "rd_retainedPermissions d = filter (\<lambda>p. p \<in> set (DEFAULT_ROLE_PERMISSIONS role)) (js_set proposed)"
      "rd_restorePermissions d = js_set (DEFAULT_ROLE_PERMISSIONS role)"
    using assms(1) [symmetric] by (simp add: generateRoleDiff_def ok Let_def flip: gain_def lost_def)
  have "set gain = set proposed - cur" "set lost = cur - set proposed" "distinct gain" "distinct lost"
    unfolding gain_def lost_def cur_def set_filter set_js_set by (blast, blast, simp_all)
  then have "diff_exact cur (set proposed) d"
    by (intro diff_exactI) (simp_all add: d cur_def Collect_conj_eq Int_commute)
  moreover have "risk = LOW \<longleftrightarrow> gain = [] \<and> lost = []" using quiet by (auto simp: risk_def)
  then have "risk = LOW \<longleftrightarrow> cur = set proposed" using nochange by argo
  moreover note this
  moreover have "risk = CRITICAL \<longleftrightarrow> esc" "esc \<or> brk \<Longrightarrow> needs_quorum risk" by (auto simp: risk_def needs_quorum_def)
  ultimately show ?thesis using au d(1) r unfolding esc_def brk_def by metis
qed

text \<open>Witness of C35: collaborators are given the cancellation of invoices.\<close>

theorem role_diff_exact_witness:
  "\<exists>r. generateRoleDiff C_COLLABORATOR [P_invoice_read, P_invoice_cancel] \<lparr>do_actorId = None, do_actorRole = Some C_OWNER\<rparr> = Inr r \<and>
     pr_overallRisk r = CRITICAL \<and> pr_requiresMaintainerQuorum r"
proof -
  let ?opts = "\<lparr>do_actorId = None, do_actorRole = Some C_OWNER\<rparr>"
  obtain r where r: "generateRoleDiff C_COLLABORATOR [P_invoice_read, P_invoice_cancel] ?opts = Inr r"
    by (simp add: generateRoleDiff_def assertAuthorized_def acting_role_def Let_def)
  have "high_gain (set (DEFAULT_ROLE_PERMISSIONS C_COLLABORATOR)) (set [P_invoice_read, P_invoice_cancel])"
    by (simp add: high_gain_def HIGH_PRIVILEGE_PERMISSIONS_def)
  then show ?thesis using role_diff_exact [OF r] r by auto
qed

text \<open>
  For an assignment, the default roles are nested, so the comparison of ranks hides no gain: exactly the
  gains of a high privilege are flagged, all of them ask for a quorum, and only an owner grants the own role or a higher one.
\<close>

lemma assignment_diff_flags:
  assumes "generateUserAssignmentDiff u cur prp opts = Inr r"
  shows "pr_privilegeEscalationDetected r \<longleftrightarrow> high_gain (set (DEFAULT_ROLE_PERMISSIONS cur)) (set (DEFAULT_ROLE_PERMISSIONS prp))"
    and "pr_privilegeEscalationDetected r \<Longrightarrow> pr_requiresMaintainerQuorum r"
    and "acting_role opts \<in> {C_OWNER, C_ADMIN} \<and> (acting_role opts = C_OWNER \<or> collaboration_rank prp < collaboration_rank (acting_role opts))"
proof -
  have nested: "collaboration_rank prp \<le> collaboration_rank cur \<Longrightarrow> set (DEFAULT_ROLE_PERMISSIONS prp) \<subseteq> set (DEFAULT_ROLE_PERMISSIONS cur)"
    by (cases prp; cases cur) auto
  from assms have au: "acting_role opts \<in> {C_OWNER, C_ADMIN}"
    by (auto simp: generateUserAssignmentDiff_def rbind_Inr_iff authorized)
  then have ok: "assertAuthorized opts = Inr ()" by (simp add: authorized)
  have rank: "\<not> (acting_role opts \<noteq> C_OWNER \<and> collaboration_rank prp \<ge> collaboration_rank (acting_role opts))"
    using assms by (auto simp: generateUserAssignmentDiff_def ok Let_def)
  define esc where "esc \<longleftrightarrow> collaboration_rank cur < collaboration_rank prp \<and>
    list_ex (\<lambda>p. p \<in> set HIGH_PRIVILEGE_PERMISSIONS) (filter (\<lambda>p. p \<notin> set (DEFAULT_ROLE_PERMISSIONS cur)) (js_set (DEFAULT_ROLE_PERMISSIONS prp)))"
  have r: "pr_privilegeEscalationDetected r = esc" "esc \<Longrightarrow> pr_requiresMaintainerQuorum r"
    using assms [symmetric] rank by (simp_all add: generateUserAssignmentDiff_def ok Let_def needs_quorum_def flip: esc_def)
  have "esc \<longleftrightarrow> high_gain (set (DEFAULT_ROLE_PERMISSIONS cur)) (set (DEFAULT_ROLE_PERMISSIONS prp))"
    using nested by (auto simp: esc_def high_gain_def list_ex_filter not_less [symmetric])
  then show "pr_privilegeEscalationDetected r \<longleftrightarrow> high_gain (set (DEFAULT_ROLE_PERMISSIONS cur)) (set (DEFAULT_ROLE_PERMISSIONS prp))"
    by (simp add: r(1))
  show "pr_privilegeEscalationDetected r \<Longrightarrow> pr_requiresMaintainerQuorum r" using r by simp
  show "acting_role opts \<in> {C_OWNER, C_ADMIN} \<and> (acting_role opts = C_OWNER \<or> collaboration_rank prp < collaboration_rank (acting_role opts))"
    using au rank by auto
qed

text \<open>An actor without a role counts as an administrator.\<close>

lemma no_role_authorized: "assertAuthorized \<lparr>do_actorId = a, do_actorRole = None\<rparr> = Inr ()"
  by (simp add: assertAuthorized_def acting_role_def)

subsection \<open>Policies\<close>

lemma not_breaking:
  assumes "generatePolicyDiff cur prp opts = Inr r" and "\<not> pr_breakingChangesDetected r"
  shows "\<not> list_ex (\<lambda>d. pd_changeType d = RESTRICTED) (min_amount_diff cur prp)" "\<not> list_ex (\<lambda>d. pd_changeType d = RESTRICTED) (max_amount_diff cur prp)"
    "\<not> list_ex (\<lambda>d. pd_changeType d = RESTRICTED) (assets_diff cur prp)"
  using assms by (auto simp: generatePolicyDiff_def rbind_Inr_iff Let_def)

lemma min_not_restricted:
  "\<not> list_ex (\<lambda>d. pd_changeType d = RESTRICTED) (min_amount_diff cur prp) \<Longrightarrow> bp_minAmount cur = Num a \<Longrightarrow> bp_minAmount prp = Num b \<Longrightarrow> b \<le> a"
  by (auto simp: min_amount_diff_def num_same_def Let_def split: if_splits)

lemma max_not_restricted:
  "\<not> list_ex (\<lambda>d. pd_changeType d = RESTRICTED) (max_amount_diff cur prp) \<Longrightarrow> bp_maxAmount cur = Num a \<Longrightarrow> bp_maxAmount prp = Num b \<Longrightarrow> a \<le> b"
  by (auto simp: max_amount_diff_def num_same_def Let_def split: if_splits)

lemma assets_not_restricted:
  assumes "\<not> list_ex (\<lambda>d. pd_changeType d = RESTRICTED) (assets_diff cur prp)"
  shows "set (bp_allowedAssets cur) \<subseteq> set (bp_allowedAssets prp)"
proof -
  have "filter (\<lambda>a. a \<notin> set (bp_allowedAssets prp)) (js_set (bp_allowedAssets cur)) = []"
    using assms by (auto simp: assets_diff_def Let_def split: if_splits)
  then show ?thesis by (auto simp: filter_empty_conv)
qed

lemma positive_num: "positive_amount n \<Longrightarrow> \<exists>q. n = Num q"
  by (auto simp: positive_amount_def split: jsnum.splits)

text \<open>
  C26: A change of policy that the report does not call breaking denies no request that was
  allowed, if the expiry limits (which the report does not compare) stay and the list of assets does not turn from empty, which
  allows every asset, into a list.
\<close>

theorem policy_diff_sound:
  assumes "policy_wf cur" and "policy_wf prp" and "generatePolicyDiff cur prp opts = Inr r" and "\<not> pr_breakingChangesDetected r"
    and "bp_minExpiryDays prp = bp_minExpiryDays cur" and "bp_maxExpiryDays prp = bp_maxExpiryDays cur"
    and "bp_allowedAssets cur = [] \<longrightarrow> bp_allowedAssets prp = []"
    and "evaluateInvoiceRequest req cur = Allowed"
  shows "evaluateInvoiceRequest req prp = Allowed"
proof -
  note nb = not_breaking [OF assms(3,4)]
  obtain a b c d where n: "bp_minAmount cur = Num a" "bp_minAmount prp = Num b" "bp_maxAmount cur = Num c" "bp_maxAmount prp = Num d"
    using assms(1,2) positive_num unfolding policy_wf_def by metis
  have le: "b \<le> a" "c \<le> d" using min_not_restricted [OF nb(1)] max_not_restricted [OF nb(2)] n by auto
  note sub = assets_not_restricted [OF nb(3)]
  obtain q where q: "pq_amount req = Num q" using allowed_amount [OF assms(1,8)] by blast
  have "bp_allowedAssets prp = [] \<or> request_asset req \<in> set (bp_allowedAssets prp)"
    using assms(7,8) sub by (auto simp: evaluate_allowed)
  moreover have "between (bp_minAmount prp) (bp_maxAmount prp) (pq_amount req)"
    using assms(8) le by (auto simp: evaluate_allowed between_def n q)
  ultimately show ?thesis using assms(5,6,8) by (simp add: evaluate_allowed q)
qed

definition small_policy :: "int \<Rightarrow> string list \<Rightarrow> business_policy" where
  "small_policy m assets = \<lparr>bp_minAmount = Num 1, bp_maxAmount = Num (of_int m), bp_minExpiryDays = Num 1, bp_maxExpiryDays = Num 30,
     bp_defaultExpiryDays = Num 7, bp_allowedAssets = assets\<rparr>"

text \<open>Witness of C26: a higher maximum and one more asset.\<close>

theorem policy_diff_sound_witness:
  "\<exists>r. generatePolicyDiff (small_policy 10 [''XLM'']) (small_policy 20 [''XLM'', ''USDC'']) \<lparr>do_actorId = None, do_actorRole = Some C_ADMIN\<rparr> = Inr r \<and>
     \<not> pr_breakingChangesDetected r \<and> pr_requiresMaintainerQuorum r \<and>
     evaluateInvoiceRequest \<lparr>pq_amount = Num 10, pq_assetCode = None, pq_expiresInDays = None\<rparr> (small_policy 20 [''XLM'', ''USDC'']) = Allowed"
proof -
  let ?cur = "small_policy 10 [''XLM'']" and ?prp = "small_policy 20 [''XLM'', ''USDC'']"
  let ?opts = "\<lparr>do_actorId = None, do_actorRole = Some C_ADMIN\<rparr>"
  let ?req = "\<lparr>pq_amount = Num 10, pq_assetCode = None, pq_expiresInDays = None\<rparr>"
  have up: "js_upper ''XLM'' = ''XLM''" "js_upper ''USDC'' = ''USDC''" by code_simp+
  have wf: "policy_wf ?cur" "policy_wf ?prp" by (simp_all add: policy_wf_def small_policy_def positive_amount_def up)
  obtain r where r: "generatePolicyDiff ?cur ?prp ?opts = Inr r" "\<not> pr_breakingChangesDetected r" "pr_requiresMaintainerQuorum r"
    by (simp add: generatePolicyDiff_def assertAuthorized_def acting_role_def Let_def min_amount_diff_def max_amount_diff_def assets_diff_def
        small_policy_def num_same_def js_set_def)
  have "evaluateInvoiceRequest ?req ?cur = Allowed" by (simp add: evaluateInvoiceRequest_def small_policy_def request_asset_def up Let_def)
  from policy_diff_sound [OF wf r(1,2) _ _ _ this] show ?thesis using r by (auto simp: small_policy_def)
qed

text \<open>
  From every asset to a single one: the report calls this an expansion of medium risk that breaks nothing, and
  invoices in other assets are denied.
\<close>

lemma policy_diff_misses_closing:
  "\<exists>r. generatePolicyDiff (small_policy 10 []) (small_policy 10 [''XLM'']) \<lparr>do_actorId = None, do_actorRole = Some C_ADMIN\<rparr> = Inr r \<and>
     pr_policyDiffs r = [\<lparr>pd_parameter = Allowed_assets, pd_changeType = EXPANDED, pd_riskLevel = MEDIUM\<rparr>] \<and>
     \<not> pr_breakingChangesDetected r \<and> \<not> pr_requiresMaintainerQuorum r"
  "evaluateInvoiceRequest \<lparr>pq_amount = Num 5, pq_assetCode = Some ''USDC'', pq_expiresInDays = None\<rparr> (small_policy 10 []) = Allowed"
  "evaluateInvoiceRequest \<lparr>pq_amount = Num 5, pq_assetCode = Some ''USDC'', pq_expiresInDays = None\<rparr> (small_policy 10 [''XLM'']) = Denied ASSET_NOT_ALLOWED"
proof -
  have up: "js_upper ''USDC'' = ''USDC''" by code_simp
  show "\<exists>r. generatePolicyDiff (small_policy 10 []) (small_policy 10 [''XLM'']) \<lparr>do_actorId = None, do_actorRole = Some C_ADMIN\<rparr> = Inr r \<and>
     pr_policyDiffs r = [\<lparr>pd_parameter = Allowed_assets, pd_changeType = EXPANDED, pd_riskLevel = MEDIUM\<rparr>] \<and>
     \<not> pr_breakingChangesDetected r \<and> \<not> pr_requiresMaintainerQuorum r"
    by (simp add: generatePolicyDiff_def assertAuthorized_def acting_role_def Let_def min_amount_diff_def max_amount_diff_def assets_diff_def
        small_policy_def num_same_def js_set_def)
qed (simp_all add: evaluateInvoiceRequest_def small_policy_def request_asset_def js_upper_def upper_char_def Let_def of_char_of)

end
