(* ===== verification/Policy_Dry_Run.thy ===== *)
theory Policy_Dry_Run
  imports Business_Policy Invoice_Cursor Stable_Cursor Assets
begin

text \<open>
  Dry runs of a policy, \<open>backend/src/domain/policy-dry-run.ts\<close> (and \<open>buildProposedPolicy\<close> of
  \<open>policy-simulation.ts\<close>): a proposal is validated, every invoice is evaluated under both policies, and the affected ones come in
  bounded pages. The body of a request is JSON data; \<open>Number\<close> has been applied to its limit. Texts of issues
  and denials are left out, and the times in the report are time values.
\<close>

subsection \<open>Proposals\<close>

definition STELLAR_MAX_AMOUNT :: jsnum where
  "STELLAR_MAX_AMOUNT = to_double (9223372036854775807 / 10000000)"

definition ASSET_CODE :: "string \<Rightarrow> bool" where
  "ASSET_CODE s \<longleftrightarrow> 1 \<le> length s \<and> length s \<le> 12 \<and>
     list_all (\<lambda>c. let n = of_char c :: nat in (65 \<le> n \<and> n \<le> 90) \<or> (97 \<le> n \<and> n \<le> 122) \<or> (48 \<le> n \<and> n \<le> 57)) s"

definition MAX_ALLOWED_ASSETS :: nat where "MAX_ALLOWED_ASSETS = 100"
definition DEFAULT_PREVIEW_LIMIT :: int where "DEFAULT_PREVIEW_LIMIT = 25"
definition MAX_PREVIEW_LIMIT :: int where "MAX_PREVIEW_LIMIT = 100"

record policy_proposal =
  pp_minAmount :: "jsnum option"
  pp_maxAmount :: "jsnum option"
  pp_minExpiryDays :: "jsnum option"
  pp_maxExpiryDays :: "jsnum option"
  pp_defaultExpiryDays :: "jsnum option"
  pp_allowedAssets :: "string list option"

definition value_or :: "'a option \<Rightarrow> 'a \<Rightarrow> 'a" where
  "value_or v d = (case v of Some x \<Rightarrow> x | None \<Rightarrow> d)"

definition buildProposedPolicy :: "business_policy \<Rightarrow> policy_proposal \<Rightarrow> business_policy" where
  "buildProposedPolicy current input =
     \<lparr>bp_minAmount = value_or (pp_minAmount input) (bp_minAmount current), bp_maxAmount = value_or (pp_maxAmount input) (bp_maxAmount current),
      bp_minExpiryDays = value_or (pp_minExpiryDays input) (bp_minExpiryDays current),
      bp_maxExpiryDays = value_or (pp_maxExpiryDays input) (bp_maxExpiryDays current),
      bp_defaultExpiryDays = value_or (pp_defaultExpiryDays input) (bp_defaultExpiryDays current),
      bp_allowedAssets = value_or (pp_allowedAssets input) (bp_allowedAssets current)\<rparr>"

text \<open>\<open>n.toFixed(7)\<close> without its point: the nearest multiple of a stroop, halves upwards.\<close>

definition fixed_stroops :: "rat \<Rightarrow> int" where
  "fixed_stroops q = \<lfloor>q * 10000000 + 1 / 2\<rfloor>"

definition hasAtMostStroopDecimals :: "rat \<Rightarrow> bool" where
  "hasAtMostStroopDecimals q \<longleftrightarrow> to_double (of_int (fixed_stroops q) / 10000000) = Num q"

definition amount_ok :: "json \<Rightarrow> bool" where
  "amount_ok v = (case v of JNum (Num q) \<Rightarrow> 0 < q \<and> \<not> num_lt STELLAR_MAX_AMOUNT (Num q) \<and> hasAtMostStroopDecimals q | _ \<Rightarrow> False)"

definition days_ok :: "json \<Rightarrow> bool" where
  "days_ok v = (case v of JNum n \<Rightarrow> is_safe_integer n \<and> \<not> num_lt n (Num 1) | _ \<Rightarrow> False)"

definition asset_item_ok :: "json \<Rightarrow> bool" where
  "asset_item_ok v = (case v of JStr s \<Rightarrow> ASSET_CODE s | _ \<Rightarrow> False)"

definition assets_ok :: "json \<Rightarrow> bool" where
  "assets_ok v = (case v of JArr xs \<Rightarrow> length xs \<le> MAX_ALLOWED_ASSETS \<and> list_all asset_item_ok xs | _ \<Rightarrow> False)"

definition json_num :: "json \<Rightarrow> jsnum" where
  "json_num v = (case v of JNum n \<Rightarrow> n | _ \<Rightarrow> NaN)"

definition json_text :: "json \<Rightarrow> string" where
  "json_text v = (case v of JStr s \<Rightarrow> s | _ \<Rightarrow> [])"

definition json_items :: "json \<Rightarrow> json list" where
  "json_items v = (case v of JArr xs \<Rightarrow> xs | _ \<Rightarrow> [])"

datatype proposal_issue =
    Unknown_field string | Bad_amount string | Bad_days string | Bad_assets | No_change | Min_exceeds_max | Days_out_of_order

definition AMOUNT_FIELDS :: "string list" where "AMOUNT_FIELDS = [''minAmount'', ''maxAmount'']"
definition DAY_FIELDS :: "string list" where "DAY_FIELDS = [''minExpiryDays'', ''maxExpiryDays'', ''defaultExpiryDays'']"
definition PROPOSAL_FIELDS :: "string list" where "PROPOSAL_FIELDS = AMOUNT_FIELDS @ DAY_FIELDS @ [''allowedAssets'']"

text \<open>A field that is absent gives nothing, a good one its value, a bad one an issue.\<close>

definition field_issue :: "(json \<Rightarrow> bool) \<Rightarrow> proposal_issue \<Rightarrow> json option \<Rightarrow> proposal_issue list" where
  "field_issue ok issue v = (case v of None \<Rightarrow> [] | Some j \<Rightarrow> if ok j then [] else [issue])"

definition field_value :: "(json \<Rightarrow> bool) \<Rightarrow> (json \<Rightarrow> 'a) \<Rightarrow> json option \<Rightarrow> 'a option" where
  "field_value ok f v = (case v of None \<Rightarrow> None | Some j \<Rightarrow> if ok j then Some (f j) else None)"

definition read_proposal :: "(string \<Rightarrow> json option) \<Rightarrow> policy_proposal" where
  "read_proposal input =
     \<lparr>pp_minAmount = field_value amount_ok json_num (input ''minAmount''), pp_maxAmount = field_value amount_ok json_num (input ''maxAmount''),
      pp_minExpiryDays = field_value days_ok json_num (input ''minExpiryDays''), pp_maxExpiryDays = field_value days_ok json_num (input ''maxExpiryDays''),
      pp_defaultExpiryDays = field_value days_ok json_num (input ''defaultExpiryDays''),
      pp_allowedAssets = field_value assets_ok (\<lambda>v. js_set (map (\<lambda>a. js_upper (json_text a)) (json_items v))) (input ''allowedAssets'')\<rparr>"

definition empty_proposal :: "policy_proposal \<Rightarrow> bool" where
  "empty_proposal p \<longleftrightarrow> pp_minAmount p = None \<and> pp_maxAmount p = None \<and> pp_minExpiryDays p = None \<and> pp_maxExpiryDays p = None \<and>
     pp_defaultExpiryDays p = None \<and> pp_allowedAssets p = None"

definition num_at_most :: "jsnum \<Rightarrow> jsnum \<Rightarrow> bool" where
  "num_at_most a b \<longleftrightarrow> num_lt a b \<or> num_same a b"

definition range_issues :: "business_policy \<Rightarrow> proposal_issue list" where
  "range_issues merged =
     (if num_lt (bp_maxAmount merged) (bp_minAmount merged) then [Min_exceeds_max] else []) @
     (if num_at_most (bp_minExpiryDays merged) (bp_defaultExpiryDays merged) \<and> num_at_most (bp_defaultExpiryDays merged) (bp_maxExpiryDays merged)
      then [] else [Days_out_of_order])"

datatype dry_run_error = INVALID_POLICY_PROPOSAL "proposal_issue list" | INVALID_CURSOR

definition validateProposal :: "json option \<Rightarrow> business_policy \<Rightarrow> (dry_run_error, policy_proposal) result" where
  "validateProposal raw current =
     (case raw of
        Some (JObj kvs) \<Rightarrow>
          (let input = map_of kvs;
               issues = map Unknown_field (filter (\<lambda>k. k \<notin> set PROPOSAL_FIELDS) (map fst kvs)) @
                 concat (map (\<lambda>f. field_issue amount_ok (Bad_amount f) (input f)) AMOUNT_FIELDS) @
                 concat (map (\<lambda>f. field_issue days_ok (Bad_days f) (input f)) DAY_FIELDS) @
                 field_issue assets_ok Bad_assets (input ''allowedAssets'');
               proposal = read_proposal input;
               issues1 = issues @ (if issues = [] \<and> empty_proposal proposal then [No_change] else []);
               issues2 = issues1 @ (if issues1 = [] then range_issues (buildProposedPolicy current proposal) else [])
           in if issues2 \<noteq> [] then Inl (INVALID_POLICY_PROPOSAL issues2) else Inr proposal)
      | _ \<Rightarrow> Inl (INVALID_POLICY_PROPOSAL []))"

subsection \<open>Requests\<close>

definition policy_json :: "business_policy \<Rightarrow> json" where
  "policy_json p =
     JObj [(''invoice'', JObj [(''minAmount'', JNum (bp_minAmount p)), (''maxAmount'', JNum (bp_maxAmount p)), (''minExpiryDays'', JNum (bp_minExpiryDays p)),
       (''maxExpiryDays'', JNum (bp_maxExpiryDays p)), (''defaultExpiryDays'', JNum (bp_defaultExpiryDays p)),
       (''allowedAssets'', JArr (map JStr (bp_allowedAssets p)))])]"

record dry_run_body =
  db_proposedPolicy :: "json option"
  db_previewLimit :: jsnum
  db_cursor :: "json option"

record dry_run_request =
  dq_currentPolicy :: business_policy
  dq_proposedPolicy :: business_policy
  dq_proposalHash :: string
  dq_previewLimit :: int
  dq_after :: "invoice_cursor option"

definition preview_limit :: "jsnum \<Rightarrow> int" where
  "preview_limit requested =
     (case requested of
        Num q \<Rightarrow> min (max (if 0 \<le> q then \<lfloor>q\<rfloor> else \<lceil>q\<rceil>) 1) MAX_PREVIEW_LIMIT
      | _ \<Rightarrow> DEFAULT_PREVIEW_LIMIT)"

definition read_cursor :: "string \<Rightarrow> json \<Rightarrow> invoice_cursor option" where
  "read_cursor proposalHash cursor =
     (case cursor of
        JStr c \<Rightarrow>
          (case split_on CHR ''.'' c of
             [h] \<Rightarrow> if h = proposalHash then decodeInvoiceCursor UUndef else None
           | [h, position] \<Rightarrow> if h = proposalHash then decodeInvoiceCursor (UStr position) else None
           | _ \<Rightarrow> None)
      | _ \<Rightarrow> None)"

definition parsePolicyDryRunRequest :: "crypto \<Rightarrow> dry_run_body \<Rightarrow> business_policy \<Rightarrow> (dry_run_error, dry_run_request) result" where
  "parsePolicyDryRunRequest cr body currentPolicy =
     rbind (validateProposal (db_proposedPolicy body) currentPolicy) (\<lambda>proposal.
       let proposedPolicy = buildProposedPolicy currentPolicy proposal;
           proposalHash = scopeHash cr (JObj [(''currentPolicy'', policy_json currentPolicy), (''proposedPolicy'', policy_json proposedPolicy)]);
           req = \<lparr>dq_currentPolicy = currentPolicy, dq_proposedPolicy = proposedPolicy, dq_proposalHash = proposalHash,
             dq_previewLimit = preview_limit (db_previewLimit body), dq_after = None\<rparr>
       in case db_cursor body of
            None \<Rightarrow> Inr req
          | Some JNull \<Rightarrow> Inr req
          | Some c \<Rightarrow>
              (case read_cursor proposalHash c of
                 None \<Rightarrow> Inl INVALID_CURSOR
               | Some a \<Rightarrow> Inr (req\<lparr>dq_after := Some a\<rparr>)))"

text \<open>The fields that differ; their values are those of the two policies.\<close>

definition diffPolicies :: "business_policy \<Rightarrow> business_policy \<Rightarrow> string list" where
  "diffPolicies current proposed =
     (let num = (\<lambda>name f. if num_same (f current) (f proposed) then [] else [name])
      in num ''minAmount'' bp_minAmount @ num ''maxAmount'' bp_maxAmount @ num ''minExpiryDays'' bp_minExpiryDays @
         num ''maxExpiryDays'' bp_maxExpiryDays @ num ''defaultExpiryDays'' bp_defaultExpiryDays @
         (if join '','' (bp_allowedAssets current) = join '','' (bp_allowedAssets proposed) then [] else [''allowedAssets'']))"

subsection \<open>Evaluation\<close>

definition windowDays :: "stored_invoice \<Rightarrow> jsnum option" where
  "windowDays invoice =
     (let days = (case to_double (of_int (si_expiresAt invoice - si_createdAt invoice)) of
            Num d \<Rightarrow> js_round (to_double (d / of_int DAY_IN_MS)) | x \<Rightarrow> x)
      in if is_finite days \<and> \<not> num_lt days (Num 1) then Some days else None)"

definition toStroops :: "jsnum \<Rightarrow> int option" where
  "toStroops amount = (case amount of Num q \<Rightarrow> if 0 < q \<and> \<not> num_lt STELLAR_MAX_AMOUNT (Num q) then Some (fixed_stroops q) else None | _ \<Rightarrow> None)"

definition formatStroops :: "int \<Rightarrow> string" where
  "formatStroops stroops =
     (let t = int_text stroops; digits = replicate (8 - length t) CHR ''0'' @ t
      in take (length digits - 7) digits @ ''.'' @ drop (length digits - 7) digits)"

type_synonym dry_candidate = "stored_invoice \<times> policy_code"

definition dry_row :: "stored_invoice \<Rightarrow> row" where
  "dry_row i = (Some (si_createdAt i), si_id i)"

definition candidate_cmp :: "dry_candidate \<Rightarrow> dry_candidate \<Rightarrow> int" where
  "candidate_cmp a b = compareNewestFirst (dry_row (fst a)) (dry_row (fst b))"

function find_slot :: "dry_candidate list \<Rightarrow> dry_candidate \<Rightarrow> nat \<Rightarrow> nat \<Rightarrow> nat" where
  "find_slot page item lo hi =
     (if lo < hi
      then let mid = (lo + hi) div 2
           in if candidate_cmp (page ! mid) item \<le> 0 then find_slot page item (mid + 1) hi else find_slot page item lo mid
      else lo)"
  by pat_completeness auto
termination find_slot by (relation "measure (\<lambda>(page, item, lo, hi). hi - lo)") auto

definition insertBounded :: "dry_candidate list \<Rightarrow> dry_candidate \<Rightarrow> nat \<Rightarrow> dry_candidate list" where
  "insertBounded page item bound =
     (let lo = find_slot page item 0 (length page)
      in if lo \<ge> bound then page
         else let page1 = take lo page @ item # drop lo page in if length page1 > bound then butlast page1 else page1)"

record dry_totals =
  dt_totalAffected :: nat
  dt_affectedByStatus :: "invoice_status \<Rightarrow> nat"
  dt_affectedByRule :: "(policy_code, nat) jsmap"
  dt_volume :: "(string, int) jsmap"
  dt_sellers :: "string list"
  dt_page :: "dry_candidate list"

definition policy_request_of :: "stored_invoice \<Rightarrow> policy_request" where
  "policy_request_of invoice = \<lparr>pq_amount = si_amount invoice, pq_assetCode = Some (si_assetCode invoice), pq_expiresInDays = windowDays invoice\<rparr>"

definition asset_of :: "stored_invoice \<Rightarrow> string" where
  "asset_of invoice = formatAssetIdentity (resolveInvoiceAsset (Some (si_assetCode invoice)) (si_assetIssuer invoice))"

definition add_pending :: "stored_invoice \<Rightarrow> dry_totals \<Rightarrow> dry_totals" where
  "add_pending invoice t =
     (let t1 = t\<lparr>dt_sellers := (if si_sellerPublicKey invoice \<in> set (dt_sellers t) then dt_sellers t else dt_sellers t @ [si_sellerPublicKey invoice])\<rparr>
      in case toStroops (si_amount invoice) of
           None \<Rightarrow> t1
         | Some stroops \<Rightarrow> t1\<lparr>dt_volume := mset_kv (asset_of invoice) (value_or (mget (dt_volume t) (asset_of invoice)) 0 + stroops) (dt_volume t)\<rparr>)"

definition dry_run_step :: "dry_run_request \<Rightarrow> dry_totals \<Rightarrow> stored_invoice \<Rightarrow> dry_totals" where
  "dry_run_step req t invoice =
     (let evaluated = policy_request_of invoice
      in if evaluateInvoiceRequest evaluated (dq_currentPolicy req) \<noteq> Allowed then t
         else (case evaluateInvoiceRequest evaluated (dq_proposedPolicy req) of
             Allowed \<Rightarrow> t
           | Denied code \<Rightarrow>
               let t1 = t\<lparr>dt_totalAffected := dt_totalAffected t + 1,
                     dt_affectedByStatus := (dt_affectedByStatus t)(si_status invoice := dt_affectedByStatus t (si_status invoice) + 1),
                     dt_affectedByRule := mset_kv code (value_or (mget (dt_affectedByRule t) code) 0 + 1) (dt_affectedByRule t)\<rparr>;
                   t2 = (if si_status invoice = PENDING then add_pending invoice t1 else t1)
               in if dq_after req = None \<or> isAfterCursor (Some (dry_row invoice)) (dq_after req)
                  then t2\<lparr>dt_page := insertBounded (dt_page t2) (invoice, code) (nat (dq_previewLimit req) + 1)\<rparr> else t2))"

definition no_totals :: dry_totals where
  "no_totals = \<lparr>dt_totalAffected = 0, dt_affectedByStatus = (\<lambda>_. 0), dt_affectedByRule = [], dt_volume = [], dt_sellers = [], dt_page = []\<rparr>"

record dry_run_report =
  dp_evaluatedAt :: int
  dp_proposalHash :: string
  dp_changes :: "string list"
  dp_totalEvaluated :: nat
  dp_totalAffected :: nat
  dp_affectedByStatus :: "invoice_status \<Rightarrow> nat"
  dp_affectedByRule :: "(policy_code, nat) jsmap"
  dp_pendingAtRisk :: nat
  dp_pendingVolumeAtRisk :: "(string \<times> string) list"
  dp_sellersWithPendingAtRisk :: nat
  dp_records :: "dry_candidate list"
  dp_limit :: int
  dp_hasMore :: bool
  dp_nextCursor :: "string option"

definition evaluatePolicyDryRun :: "stored_invoice list \<Rightarrow> dry_run_request \<Rightarrow> int \<Rightarrow> (cursor_error, dry_run_report) result" where
  "evaluatePolicyDryRun invoices req now =
     (let t = foldl (dry_run_step req) no_totals invoices;
          limit = nat (dq_previewLimit req);
          hasMore = length (dt_page t) > limit;
          records = take limit (dt_page t);
          report = \<lparr>dp_evaluatedAt = now, dp_proposalHash = dq_proposalHash req,
            dp_changes = diffPolicies (dq_currentPolicy req) (dq_proposedPolicy req), dp_totalEvaluated = length invoices,
            dp_totalAffected = dt_totalAffected t, dp_affectedByStatus = dt_affectedByStatus t, dp_affectedByRule = dt_affectedByRule t,
            dp_pendingAtRisk = dt_affectedByStatus t PENDING,
            dp_pendingVolumeAtRisk = map (\<lambda>(asset, stroops). (asset, formatStroops stroops)) (dt_volume t),
            dp_sellersWithPendingAtRisk = length (dt_sellers t), dp_records = records, dp_limit = dq_previewLimit req, dp_hasMore = hasMore, dp_nextCursor = None\<rparr>
      in if hasMore \<and> records \<noteq> []
         then rbind (encodeInvoiceCursor (Some (si_createdAt (fst (last records)))) (si_id (fst (last records))))
           (\<lambda>c. Inr (report\<lparr>dp_nextCursor := Some (dq_proposalHash req @ ''.'' @ c)\<rparr>))
         else Inr report)"

end
