(* ===== verification/Dry_Run_Properties.thy ===== *)
theory Dry_Run_Properties
  imports Policy_Dry_Run
begin

text \<open>
  What a dry run reports: a page kept by binary search and bounded insertion is the beginning of the sorted list of affected
  invoices, the totals are those of all of them, and a client that follows the cursors is given
  each of them once.
\<close>

subsection \<open>Bounded insertion\<close>

text \<open>Insertion behind equal elements, which builds the stable sort from left to right.\<close>

definition ins_last :: "('a \<Rightarrow> 'a \<Rightarrow> int) \<Rightarrow> 'a \<Rightarrow> 'a list \<Rightarrow> 'a list" where
  "ins_last cmp x ys = takeWhile (\<lambda>y. cmp y x \<le> 0) ys @ x # dropWhile (\<lambda>y. cmp y x \<le> 0) ys"

lemma ins_last_simps [simp]:
  "ins_last cmp x [] = [x]" "ins_last cmp x (y # ys) = (if cmp y x \<le> 0 then y # ins_last cmp x ys else x # y # ys)"
  by (simp_all add: ins_last_def)

lemma length_ins_last [simp]: "length (ins_last cmp x ys) = Suc (length ys)"
  by (induction ys) simp_all

lemma take_ins_last: "take k (ins_last cmp x (take k ys)) = take k (ins_last cmp x ys)"
  by (induction ys arbitrary: k) (auto simp: take_Cons split: nat.split)

context comparator
begin

lemma insert_ins_last: "insert_by cmp a (ins_last cmp x ys) = ins_last cmp x (insert_by cmp a ys)"
proof (induction ys)
  case Nil
  then show ?case using cmp_antisym [of a x] by auto
next
  case (Cons y ys)
  show ?case
  proof (cases "cmp y x \<le> 0")
    case True
    then show ?thesis using Cons cmp_trans [of a y x] by auto
  next
    case False
    then have "cmp x y \<le> 0" using cmp_antisym by blast
    then show ?thesis using False cmp_trans [of a x y] cmp_trans [of y a x] cmp_antisym [of a y] cmp_antisym [of a x] by auto
  qed
qed

lemma sort_by_snoc: "sort_by cmp (xs @ [x]) = ins_last cmp x (sort_by cmp xs)"
  by (induction xs) (simp_all add: insert_ins_last)

lemma takeWhile_sorted:
  assumes "sorted_wrt (\<lambda>a b. cmp a b \<le> 0) ys" and "i < length ys"
  shows "i < length (takeWhile (\<lambda>y. cmp y x \<le> 0) ys) \<longleftrightarrow> cmp (ys ! i) x \<le> 0"
proof
  let ?n = "length (takeWhile (\<lambda>y. cmp y x \<le> 0) ys)"
  show "i < ?n \<Longrightarrow> cmp (ys ! i) x \<le> 0" using takeWhile_nth set_takeWhileD nth_mem by metis
  assume le: "cmp (ys ! i) x \<le> 0"
  show "i < ?n"
  proof (rule ccontr)
    assume "\<not> i < ?n"
    then have n: "?n \<le> i" "?n < length ys" using assms(2) by simp_all
    then have "\<not> cmp (ys ! ?n) x \<le> 0" by (metis nth_length_takeWhile)
    moreover have "cmp (ys ! ?n) (ys ! i) \<le> 0"
      using assms n cmp_antisym [of "ys ! i" "ys ! i"] by (cases "?n = i") (auto simp: sorted_wrt_iff_nth_less)
    ultimately show False using cmp_trans le by blast
  qed
qed

end

interpretation cand: strict_comparator candidate_cmp
proof
  fix a b c :: dry_candidate
  show "candidate_cmp a b \<le> 0 \<or> candidate_cmp b a \<le> 0" unfolding candidate_cmp_def by (rule newest.cmp_antisym)
  show "candidate_cmp a b \<le> 0 \<Longrightarrow> candidate_cmp b c \<le> 0 \<Longrightarrow> candidate_cmp a c \<le> 0" unfolding candidate_cmp_def by (rule newest.cmp_trans)
  show "candidate_cmp a b < 0 \<longleftrightarrow> \<not> candidate_cmp b a \<le> 0" unfolding candidate_cmp_def by (rule newest.cmp_strict)
qed

abbreviation candidates_sorted :: "dry_candidate list \<Rightarrow> bool" where
  "candidates_sorted \<equiv> sorted_wrt (\<lambda>a b. candidate_cmp a b \<le> 0)"

declare find_slot.simps [simp del]

lemma find_slot_correct:
  "candidates_sorted page \<Longrightarrow> lo \<le> n \<Longrightarrow> n \<le> hi \<Longrightarrow> hi \<le> length page \<Longrightarrow> n = length (takeWhile (\<lambda>y. candidate_cmp y item \<le> 0) page) \<Longrightarrow>
    find_slot page item lo hi = n"
proof (induction page item lo hi rule: find_slot.induct)
  case (1 page item lo hi)
  show ?case
  proof (cases "lo < hi")
    case True
    define mid where "mid = (lo + hi) div 2"
    have mid: "lo \<le> mid" "mid < hi" using True by (auto simp: mid_def)
    then have "mid < length page" using 1(6) by simp
    from cand.takeWhile_sorted [OF \<open>candidates_sorted page\<close> this, of item]
    have "mid < n \<longleftrightarrow> candidate_cmp (page ! mid) item \<le> 0" using 1(7) by simp
    then show ?thesis using 1 mid True by (subst find_slot.simps) (auto simp: Let_def simp flip: mid_def)
  next
    case False
    then show ?thesis using 1 by (subst find_slot.simps) simp
  qed
qed

lemma insertBounded_spec:
  assumes "candidates_sorted page" and "length page \<le> bound"
  shows "insertBounded page item bound = take bound (ins_last candidate_cmp item page)"
proof -
  define n where "n = length (takeWhile (\<lambda>y. candidate_cmp y item \<le> 0) page)"
  have n: "n \<le> length page" by (simp add: n_def length_takeWhile_le)
  have lo: "find_slot page item 0 (length page) = n" by (rule find_slot_correct [OF assms(1)]) (use n in \<open>simp_all add: n_def\<close>)
  have ins: "ins_last candidate_cmp item page = take n page @ item # drop n page"
    unfolding ins_last_def n_def using takeWhile_eq_take dropWhile_eq_drop by metis
  have def: "insertBounded page item bound = (if bound \<le> n then page
      else if bound < length (ins_last candidate_cmp item page) then butlast (ins_last candidate_cmp item page) else ins_last candidate_cmp item page)"
    using n by (simp add: insertBounded_def lo ins Let_def)
  show ?thesis
  proof (cases "bound \<le> n")
    case True
    then have "n = length page" "bound = n" using n assms(2) by simp_all
    then show ?thesis using True unfolding def by (simp add: ins)
  next
    case False
    then show ?thesis using assms(2) by (cases "length page < bound") (simp_all add: def butlast_conv_take)
  qed
qed

lemma candidates_sorted_take: "candidates_sorted ys \<Longrightarrow> candidates_sorted (take k ys)"
  by (metis append_take_drop_id sorted_wrt_append)

lemma insert_all: "foldl (\<lambda>page c. insertBounded page c bound) [] cs = take bound (sort_by candidate_cmp cs)"
proof (induction cs rule: rev_induct)
  case (snoc c cs)
  have "candidates_sorted (take bound (sort_by candidate_cmp cs))" by (rule candidates_sorted_take [OF cand.sorted_sort_by])
  then show ?case using snoc by (simp add: insertBounded_spec take_ins_last cand.sort_by_snoc)
qed simp

subsection \<open>The totals\<close>

text \<open>The affected invoices with the rule that denies them, in the order of the store, and those behind the cursor.\<close>

definition denial :: "dry_run_request \<Rightarrow> stored_invoice \<Rightarrow> policy_code option" where
  "denial req i =
     (if evaluateInvoiceRequest (policy_request_of i) (dq_currentPolicy req) = Allowed
      then (case evaluateInvoiceRequest (policy_request_of i) (dq_proposedPolicy req) of Denied c \<Rightarrow> Some c | Allowed \<Rightarrow> None)
      else None)"

definition affected :: "dry_run_request \<Rightarrow> stored_invoice list \<Rightarrow> dry_candidate list" where
  "affected req invoices = List.map_filter (\<lambda>i. map_option (\<lambda>c. (i, c)) (denial req i)) invoices"

definition on_page :: "dry_run_request \<Rightarrow> dry_candidate \<Rightarrow> bool" where
  "on_page req c \<longleftrightarrow> dq_after req = None \<or> isAfterCursor (Some (dry_row (fst c))) (dq_after req)"

definition remaining :: "dry_run_request \<Rightarrow> stored_invoice list \<Rightarrow> dry_candidate list" where
  "remaining req invoices = sort_by candidate_cmp (filter (on_page req) (affected req invoices))"

lemma affected_snoc:
  "affected req (is @ [i]) = affected req is @ (case denial req i of Some c \<Rightarrow> [(i, c)] | None \<Rightarrow> [])"
  by (simp add: affected_def List.map_filter_def split: option.split)

text \<open>The step that an affected invoice takes.\<close>

definition count_affected :: "dry_run_request \<Rightarrow> dry_totals \<Rightarrow> dry_candidate \<Rightarrow> dry_totals" where
  "count_affected req t c =
     (let invoice = fst c;
          t1 = t\<lparr>dt_totalAffected := dt_totalAffected t + 1,
            dt_affectedByStatus := (dt_affectedByStatus t)(si_status invoice := dt_affectedByStatus t (si_status invoice) + 1),
            dt_affectedByRule := mset_kv (snd c) (value_or (mget (dt_affectedByRule t) (snd c)) 0 + 1) (dt_affectedByRule t)\<rparr>;
          t2 = (if si_status invoice = PENDING then add_pending invoice t1 else t1)
      in if on_page req c then t2\<lparr>dt_page := insertBounded (dt_page t2) c (nat (dq_previewLimit req) + 1)\<rparr> else t2)"

lemma step_denial: "dry_run_step req t i = (case denial req i of None \<Rightarrow> t | Some c \<Rightarrow> count_affected req t (i, c))"
  by (cases "evaluateInvoiceRequest (policy_request_of i) (dq_proposedPolicy req)")
    (simp_all add: dry_run_step_def denial_def count_affected_def on_page_def Let_def)

lemma fold_affected: "foldl (dry_run_step req) t invoices = foldl (count_affected req) t (affected req invoices)"
  by (induction invoices rule: rev_induct) (auto simp: affected_snoc step_denial affected_def [of req "[]"] List.map_filter_def split: option.split)

text \<open>The pending invoices of an asset whose amount counts, and their sum.\<close>

definition at_risk :: "string \<Rightarrow> dry_candidate list \<Rightarrow> int list" where
  "at_risk asset cs = map (\<lambda>c. the (toStroops (si_amount (fst c))))
     (filter (\<lambda>c. si_status (fst c) = PENDING \<and> asset_of (fst c) = asset \<and> toStroops (si_amount (fst c)) \<noteq> None) cs)"

definition pending_sellers :: "dry_candidate list \<Rightarrow> string set" where
  "pending_sellers cs = (\<lambda>c. si_sellerPublicKey (fst c)) ` {c \<in> set cs. si_status (fst c) = PENDING}"

definition totals_of :: "dry_run_request \<Rightarrow> dry_candidate list \<Rightarrow> dry_totals \<Rightarrow> bool" where
  "totals_of req cs t \<longleftrightarrow> dt_totalAffected t = length cs \<and>
     (\<forall>st. dt_affectedByStatus t st = length (filter (\<lambda>c. si_status (fst c) = st) cs)) \<and>
     (\<forall>k. value_or (mget (dt_affectedByRule t) k) 0 = length (filter (\<lambda>c. snd c = k) cs)) \<and>
     (\<forall>a. mget (dt_volume t) a = (if at_risk a cs = [] then None else Some (sum_list (at_risk a cs)))) \<and>
     distinct (dt_sellers t) \<and> set (dt_sellers t) = pending_sellers cs"

lemma value_or_simps [simp]: "value_or None d = d" "value_or (Some x) d = x"
  by (simp_all add: value_or_def)

lemma at_risk_snoc: "at_risk a (cs @ [c]) = at_risk a cs @
    (if si_status (fst c) = PENDING \<and> asset_of (fst c) = a then (case toStroops (si_amount (fst c)) of None \<Rightarrow> [] | Some n \<Rightarrow> [n]) else [])"
  by (auto simp: at_risk_def split: option.split)

lemma pending_sellers_snoc: "pending_sellers (cs @ [c]) =
    (if si_status (fst c) = PENDING then insert (si_sellerPublicKey (fst c)) (pending_sellers cs) else pending_sellers cs)"
  by (auto simp: pending_sellers_def)

lemma add_pending_fields [simp]:
  "dt_totalAffected (add_pending i t) = dt_totalAffected t" "dt_affectedByStatus (add_pending i t) = dt_affectedByStatus t"
  "dt_affectedByRule (add_pending i t) = dt_affectedByRule t" "dt_page (add_pending i t) = dt_page t"
  "dt_sellers (add_pending i t) = (if si_sellerPublicKey i \<in> set (dt_sellers t) then dt_sellers t else dt_sellers t @ [si_sellerPublicKey i])"
  "dt_volume (add_pending i t) = (case toStroops (si_amount i) of None \<Rightarrow> dt_volume t
     | Some n \<Rightarrow> mset_kv (asset_of i) (value_or (mget (dt_volume t) (asset_of i)) 0 + n) (dt_volume t))"
  by (simp_all add: add_pending_def Let_def split: option.split)

lemma count_fields:
  "dt_totalAffected (count_affected req t c) = dt_totalAffected t + 1"
  "dt_affectedByStatus (count_affected req t c) = (dt_affectedByStatus t)(si_status (fst c) := dt_affectedByStatus t (si_status (fst c)) + 1)"
  "dt_affectedByRule (count_affected req t c) = mset_kv (snd c) (value_or (mget (dt_affectedByRule t) (snd c)) 0 + 1) (dt_affectedByRule t)"
  "dt_volume (count_affected req t c) = (if si_status (fst c) = PENDING then dt_volume (add_pending (fst c) t) else dt_volume t)"
  "dt_sellers (count_affected req t c) = (if si_status (fst c) = PENDING then dt_sellers (add_pending (fst c) t) else dt_sellers t)"
  "dt_page (count_affected req t c) = (if on_page req c then insertBounded (dt_page t) c (nat (dq_previewLimit req) + 1) else dt_page t)"
  by (simp_all add: count_affected_def Let_def split: option.split)

lemma fold_totals: "totals_of req cs (foldl (count_affected req) no_totals cs)"
proof (induction cs rule: rev_induct)
  case Nil
  then show ?case by (simp add: totals_of_def no_totals_def at_risk_def pending_sellers_def)
next
  case (snoc c cs)
  let ?t = "foldl (count_affected req) no_totals cs"
  have vol: "mget (dt_volume (count_affected req ?t c)) a = (if at_risk a (cs @ [c]) = [] then None else Some (sum_list (at_risk a (cs @ [c]))))" for a
    using snoc by (cases "toStroops (si_amount (fst c))") (auto simp: totals_of_def count_fields at_risk_snoc)
  show ?case using snoc vol by (auto simp: totals_of_def count_fields pending_sellers_snoc)
qed

lemma fold_page:
  "dt_page (foldl (count_affected req) no_totals cs) = take (nat (dq_previewLimit req) + 1) (sort_by candidate_cmp (filter (on_page req) cs))"
proof -
  have "dt_page (foldl (count_affected req) no_totals cs) = foldl (\<lambda>page c. insertBounded page c (nat (dq_previewLimit req) + 1)) [] (filter (on_page req) cs)"
    by (induction cs rule: rev_induct) (auto simp: no_totals_def count_fields)
  then show ?thesis by (simp add: insert_all)
qed

text \<open>
  C23: A report of a dry run is exact. Its totals are those of all invoices that the current policy allows and
  the proposed one denies: their number, by status and by the rule that denies them, the sum in stroops
  of the pending ones for every asset identity and the number of their sellers. Its page, kept
  by binary search in a bounded list, is the beginning of those behind the cursor sorted newest first, and it says
  whether more follow.
\<close>

theorem dry_run_exact:
  assumes "evaluatePolicyDryRun invoices req now = Inr rep"
  defines "aff \<equiv> affected req invoices" and "limit \<equiv> nat (dq_previewLimit req)"
  shows "dp_records rep = take limit (remaining req invoices) \<and> (dp_hasMore rep \<longleftrightarrow> limit < length (remaining req invoices)) \<and>
    dp_totalAffected rep = length aff \<and> (\<forall>st. dp_affectedByStatus rep st = length (filter (\<lambda>c. si_status (fst c) = st) aff)) \<and>
    (\<forall>k. value_or (mget (dp_affectedByRule rep) k) 0 = length (filter (\<lambda>c. snd c = k) aff)) \<and>
    (\<forall>a. mget (dp_pendingVolumeAtRisk rep) a = (if at_risk a aff = [] then None else Some (formatStroops (sum_list (at_risk a aff))))) \<and>
    dp_sellersWithPendingAtRisk rep = card (pending_sellers aff)"
proof -
  define t where "t = foldl (dry_run_step req) no_totals invoices"
  have rep: "dp_records rep = take limit (dt_page t)" "dp_hasMore rep = (limit < length (dt_page t))" "dp_totalAffected rep = dt_totalAffected t"
    "dp_affectedByStatus rep = dt_affectedByStatus t" "dp_affectedByRule rep = dt_affectedByRule t"
    "dp_pendingVolumeAtRisk rep = map (\<lambda>(a, n). (a, formatStroops n)) (dt_volume t)" "dp_sellersWithPendingAtRisk rep = length (dt_sellers t)"
    using assms(1) by (auto simp: evaluatePolicyDryRun_def Let_def t_def limit_def rbind_Inr_iff split: if_splits)
  have tot: "totals_of req aff t" unfolding t_def aff_def fold_affected by (rule fold_totals)
  have page: "dt_page t = take (limit + 1) (remaining req invoices)" by (simp add: t_def fold_affected fold_page remaining_def limit_def)
  have vol: "mget (map (\<lambda>(a, n). (a, formatStroops n)) (dt_volume t)) a = map_option formatStroops (mget (dt_volume t) a)" for a
    by (simp add: map_of_map)
  have "length (dt_sellers t) = card (pending_sellers aff)" using tot distinct_card [of "dt_sellers t"] by (simp add: totals_of_def)
  then show ?thesis using tot by (auto simp: rep page vol totals_of_def)
qed

subsection \<open>Following the cursors\<close>

lemma UUID_trim: "UUID s \<Longrightarrow> js_trim s = s"
proof -
  assume u: "UUID s"
  have hex: "\<not> is_ws c" if "is_hex c \<or> c = CHR ''-''" for c using that by (auto simp: is_hex_def is_ws_def)
  have "list_all (\<lambda>c. \<not> is_ws c) s" unfolding list_all_length
  proof (intro allI impI)
    fix i assume "i < length s"
    then have "i < 36" using u by (simp add: UUID_def)
    then have "if i \<in> {8, 13, 18, 23} then s ! i = CHR ''-'' else is_hex (s ! i)"
      using u unfolding UUID_def set_upt by (meson atLeastLessThan_iff le0)
    then have "is_hex (s ! i) \<or> s ! i = CHR ''-''" by metis
    then show "\<not> is_ws (s ! i)" by (rule hex)
  qed
  then show ?thesis by (rule js_trim_no_ws)
qed

lemma parse_shape:
  assumes "parsePolicyDryRunRequest cr body cur = Inr req"
  obtains p x where "validateProposal (db_proposedPolicy body) cur = Inr p" and "req = \<lparr>dq_currentPolicy = cur,
    dq_proposedPolicy = buildProposedPolicy cur p,
    dq_proposalHash = scopeHash cr (JObj [(''currentPolicy'', policy_json cur), (''proposedPolicy'', policy_json (buildProposedPolicy cur p))]),
    dq_previewLimit = preview_limit (db_previewLimit body), dq_after = x\<rparr>"
proof -
  from assms obtain p where p: "validateProposal (db_proposedPolicy body) cur = Inr p"
    by (auto simp: parsePolicyDryRunRequest_def rbind_Inr_iff)
  show ?thesis using that [OF p] assms
    by (simp add: parsePolicyDryRunRequest_def p Let_def split: option.splits json.splits) blast+
qed

lemma parse_with_cursor:
  assumes "parsePolicyDryRunRequest cr body cur = Inr req" and "read_cursor (dq_proposalHash req) (JStr c) = Some a"
  shows "parsePolicyDryRunRequest cr (body\<lparr>db_cursor := Some (JStr c)\<rparr>) cur = Inr (req\<lparr>dq_after := Some a\<rparr>)"
proof -
  obtain p x where v: "validateProposal (db_proposedPolicy body) cur = Inr p" and r: "req = \<lparr>dq_currentPolicy = cur,
    dq_proposedPolicy = buildProposedPolicy cur p,
    dq_proposalHash = scopeHash cr (JObj [(''currentPolicy'', policy_json cur), (''proposedPolicy'', policy_json (buildProposedPolicy cur p))]),
    dq_previewLimit = preview_limit (db_previewLimit body), dq_after = x\<rparr>" by (rule parse_shape [OF assms(1)])
  show ?thesis using assms(2) by (simp add: parsePolicyDryRunRequest_def Let_def v r)
qed

lemma parse_hash:
  assumes "parsePolicyDryRunRequest cr body cur = Inr req" and "\<And>t. CHR ''.'' \<notin> set (cr_sha256 cr t)"
  shows "CHR ''.'' \<notin> set (dq_proposalHash req)"
proof -
  obtain j where "dq_proposalHash req = scopeHash cr j" using parse_shape [OF assms(1)] by (metis dry_run_request.select_convs(3))
  then show ?thesis using assms(2) by (auto simp: scopeHash_def dest: in_set_takeD)
qed

lemma token_no_dot: "encodeInvoiceCursor t iid = Inr tok \<Longrightarrow> CHR ''.'' \<notin> set tok"
proof -
  assume "encodeInvoiceCursor t iid = Inr tok"
  then obtain r where r: "tok = base64url_encode r" "r \<noteq> []"
    by (auto simp: encodeInvoiceCursor_def Let_def split: if_splits option.splits)
  have "BASE64URL_PATTERN tok" unfolding r(1) by (rule base64url_encode_pattern [OF r(2)])
  then show ?thesis by (auto simp: BASE64URL_PATTERN_def list_all_iff is_alnum_def is_digit_def is_alpha_def)
qed

lemma read_own_cursor:
  assumes "CHR ''.'' \<notin> set h" and "encodeInvoiceCursor (Some (si_createdAt i)) (si_id i) = Inr tok"
    and "UUID (si_id i)" and "four_digit_year (si_createdAt i)"
  shows "read_cursor h (JStr (h @ ''.'' @ tok)) = Some (cursor_of (dry_row i))"
proof -
  have trim: "js_trim (si_id i) = si_id i" by (rule UUID_trim [OF assms(3)])
  then obtain tok' where "encodeInvoiceCursor (Some (si_createdAt i)) (si_id i) = Inr tok'"
    "decodeInvoiceCursor (UStr tok') = Some \<lparr>ic_createdAt = si_createdAt i, ic_id = js_lower (si_id i)\<rparr>"
    using decode_encode [OF assms(4), of "si_id i"] assms(3) by auto
  then have "decodeInvoiceCursor (UStr tok) = Some (cursor_of (dry_row i))"
    using assms(2) by (simp add: cursor_of_def dry_row_def row_time_def)
  moreover have "split_on CHR ''.'' (h @ ''.'' @ tok) = [h, tok]"
    using split_on_append [OF assms(1)] split_on_none [OF token_no_dot [OF assms(2)]] by simp
  ultimately show ?thesis by (simp add: read_cursor_def)
qed

lemma after_trans:
  assumes "isAfterCursor (Some a) c" and "compareNewestFirst a b < 0"
  shows "isAfterCursor (Some b) c"
  using assms newest.cmp_trans [of "cursor_row (the c)" a b] newest.cmp_strict newest.cmp_antisym newest.cmp_trans
  by (cases c) (simp_all add: isAfterCursor_def, metis newest.cmp_strict newest.cmp_trans)

lemma affected_sub: "c \<in> set (affected req invoices) \<Longrightarrow> fst c \<in> set invoices \<and> denial req (fst c) = Some (snd c)"
  by (auto simp: affected_def List.map_filter_def)

lemma distinct_affected:
  assumes "distinct (map (\<lambda>i. row_key (dry_row i)) invoices)"
  shows "distinct (map (\<lambda>c. row_key (dry_row (fst c))) (affected req invoices))"
  using assms
proof (induction invoices rule: rev_induct)
  case (snoc i inv0)
  have "row_key (dry_row (fst c)) \<noteq> row_key (dry_row i)" if "c \<in> set (affected req inv0)" for c
  proof
    assume eq: "row_key (dry_row (fst c)) = row_key (dry_row i)"
    have "row_key (dry_row (fst c)) \<in> (\<lambda>i. row_key (dry_row i)) ` set inv0" using affected_sub [OF that] by blast
    then show False using snoc.prems by (simp add: eq)
  qed
  then have "row_key (dry_row i) \<notin> (\<lambda>c. row_key (dry_row (fst c))) ` set (affected req inv0)" by force
  then show ?case using snoc by (simp add: affected_snoc split: option.split)
qed (simp add: affected_def List.map_filter_def)

lemma remaining_sorted:
  assumes "distinct (map (\<lambda>i. row_key (dry_row i)) invoices)"
  shows "sorted_wrt (\<lambda>a b. candidate_cmp a b < 0) (sort_by candidate_cmp (affected req invoices))"
proof (rule cand.sorted_strict)
  have d: "distinct (map (\<lambda>c. row_key (dry_row (fst c))) (affected req invoices))" by (rule distinct_affected [OF assms])
  then show "distinct (affected req invoices)" by (simp add: distinct_map)
  fix a b assume "a \<in> set (affected req invoices)" "b \<in> set (affected req invoices)" "candidate_cmp a b = 0"
  then show "a = b" using d by (auto simp: candidate_cmp_def compareNewestFirst_eq distinct_map dest: inj_onD)
qed

lemma remaining_next:
  assumes d: "distinct (map (\<lambda>i. row_key (dry_row i)) invoices)" and n: "n < length (remaining req invoices)"
  shows "remaining (req\<lparr>dq_after := Some (cursor_of (dry_row (fst (remaining req invoices ! n))))\<rparr>) invoices = drop (Suc n) (remaining req invoices)"
proof -
  let ?r = "remaining req invoices" and ?all = "sort_by candidate_cmp (affected req invoices)"
  let ?l = "?r ! n" let ?req = "req\<lparr>dq_after := Some (cursor_of (dry_row (fst ?l)))\<rparr>"
  have r: "?r = filter (on_page req) ?all" by (simp add: remaining_def cand.sort_by_filter)
  have "denial ?req = denial req" by (simp add: fun_eq_iff denial_def split: policy_decision.split)
  then have same: "affected ?req invoices = affected req invoices" by (simp add: affected_def)
  have next_page: "on_page ?req c \<longleftrightarrow> candidate_cmp ?l c < 0" for c
    by (simp add: on_page_def isAfterCursor_row candidate_cmp_def)
  have l: "on_page req ?l" using n nth_mem [OF n] by (simp add: r)
  have "on_page req c" if "candidate_cmp ?l c < 0" for c
    using l that after_trans [of "dry_row (fst ?l)" "dq_after req" "dry_row (fst c)"] unfolding on_page_def candidate_cmp_def by blast
  then have "on_page ?req c \<longleftrightarrow> on_page req c \<and> candidate_cmp ?l c < 0" for c using next_page by blast
  then have "filter (on_page ?req) ?all = filter (\<lambda>c. on_page req c \<and> candidate_cmp ?l c < 0) ?all"
    by (intro filter_cong refl)
  also have "\<dots> = filter (\<lambda>c. candidate_cmp ?l c < 0) ?r" unfolding r by (simp only: filter_filter)
  finally have "filter (on_page ?req) ?all = filter (\<lambda>c. candidate_cmp ?l c < 0) ?r" .
  moreover have srt: "sorted_wrt (\<lambda>a b. candidate_cmp a b < 0) ?r" unfolding r by (rule sorted_wrt_filter [OF remaining_sorted [OF d]])
  moreover have "remaining ?req invoices = filter (on_page ?req) ?all" by (simp only: remaining_def [of ?req] same cand.sort_by_filter)
  ultimately show ?thesis using cand.filter_after [OF srt n] by metis
qed

text \<open>
  C24: The cursor of a page continues where the page ended. If a report has a next cursor, the same
  request with that cursor is accepted, and what remains for it is what remained for the first
  without the records that were shown; these are never none. So a client that follows the
  cursors is given every affected invoice once, newest first, and comes to an end. Invoices have
  UUIDs and creation dates with four-digit years, and no two the same of both; the text of the digest has no full stop.
\<close>

theorem dry_run_next_page:
  assumes "parsePolicyDryRunRequest cr body cur = Inr req" and "evaluatePolicyDryRun invoices req now = Inr rep" and "dp_nextCursor rep = Some c"
    and "\<forall>i\<in>set invoices. UUID (si_id i) \<and> four_digit_year (si_createdAt i)" and "distinct (map (\<lambda>i. row_key (dry_row i)) invoices)"
    and "\<And>t. CHR ''.'' \<notin> set (cr_sha256 cr t)"
  shows "\<exists>req'. parsePolicyDryRunRequest cr (body\<lparr>db_cursor := Some (JStr c)\<rparr>) cur = Inr req' \<and> dp_records rep \<noteq> [] \<and>
    remaining req invoices = dp_records rep @ remaining req' invoices"
proof -
  define limit where "limit = nat (dq_previewLimit req)"
  define rest where "rest = remaining req invoices"
  define recs where "recs = take limit rest"
  have page: "dt_page (foldl (dry_run_step req) no_totals invoices) = take (limit + 1) rest"
    by (simp add: fold_affected fold_page remaining_def rest_def limit_def)
  have more: "limit < length rest" "recs \<noteq> []" and rec: "dp_records rep = recs"
    and enc: "\<exists>tok. encodeInvoiceCursor (Some (si_createdAt (fst (last recs)))) (si_id (fst (last recs))) = Inr tok \<and> c = dq_proposalHash req @ ''.'' @ tok"
    using assms(2,3) by (auto simp: evaluatePolicyDryRun_def Let_def page recs_def rbind_Inr_iff simp flip: limit_def split: if_splits)
  then obtain n where n: "limit = Suc n" by (cases limit) (auto simp: recs_def)
  have last_rec: "last recs = rest ! n" using more(1) n by (simp add: recs_def take_Suc_conv_app_nth)
  have "rest ! n \<in> set rest" using more(1) n by simp
  then have "rest ! n \<in> set (affected req invoices)" by (simp add: rest_def remaining_def)
  then have "fst (rest ! n) \<in> set invoices" using affected_sub by blast
  then have ids: "UUID (si_id (fst (rest ! n)))" "four_digit_year (si_createdAt (fst (rest ! n)))" using assms(4) by auto
  obtain tok where tok: "encodeInvoiceCursor (Some (si_createdAt (fst (rest ! n)))) (si_id (fst (rest ! n))) = Inr tok" "c = dq_proposalHash req @ ''.'' @ tok"
    using enc last_rec by auto
  have "read_cursor (dq_proposalHash req) (JStr c) = Some (cursor_of (dry_row (fst (rest ! n))))"
    unfolding tok(2) by (rule read_own_cursor [OF parse_hash [OF assms(1,6)] tok(1) ids])
  note parsed = parse_with_cursor [OF assms(1) this]
  have "remaining (req\<lparr>dq_after := Some (cursor_of (dry_row (fst (rest ! n))))\<rparr>) invoices = drop limit rest"
    using remaining_next [OF assms(5), of n req] more(1) n by (simp add: rest_def)
  then have "remaining req invoices = dp_records rep @ remaining (req\<lparr>dq_after := Some (cursor_of (dry_row (fst (rest ! n))))\<rparr>) invoices"
    by (simp add: rec recs_def flip: rest_def)
  then show ?thesis using parsed more(2) rec by blast
qed

subsection \<open>An example\<close>

text \<open>Two invoices in XLM, and a proposal to accept another asset only; one record to a page.\<close>

definition dry_invoice :: "int \<Rightarrow> string \<Rightarrow> stored_invoice" where
  "dry_invoice t iid = \<lparr>si_id = iid, si_userId = None, si_sellerPublicKey = ''G'', si_sellerName = None, si_sellerEmail = None, si_amount = Num 5,
     si_assetCode = ''XLM'', si_assetIssuer = None, si_memo = ''m'', si_description = None, si_customerName = None, si_customerEmail = None,
     si_status = PAID, si_paymentTxHash = None, si_payerPublicKey = None, si_payerName = None, si_payerEmail = None, si_createdAt = t,
     si_paidAt = None, si_expiresAt = t, si_metadata = None, si_schemaVersion = None, si_version = None\<rparr>"

definition dry_ids :: "string \<times> string" where
  "dry_ids = (''0a1b2c3d-0000-4000-8000-00000000abcd'', ''0a1b2c3d-0000-4000-8000-00000000abce'')"

definition dry_store :: "stored_invoice list" where
  "dry_store = [dry_invoice 0 (fst dry_ids), dry_invoice 1000 (snd dry_ids)]"

definition dry_current :: business_policy where
  "dry_current = \<lparr>bp_minAmount = Num 1, bp_maxAmount = Num 10, bp_minExpiryDays = Num 1, bp_maxExpiryDays = Num 30, bp_defaultExpiryDays = Num 7,
     bp_allowedAssets = []\<rparr>"

definition dry_body :: dry_run_body where
  "dry_body = \<lparr>db_proposedPolicy = Some (JObj [(''allowedAssets'', JArr [JStr ''usdc''])]), db_previewLimit = Num 1, db_cursor = None\<rparr>"

definition dry_crypto :: crypto where
  "dry_crypto = \<lparr>cr_sha256 = (\<lambda>_. ''h''), cr_hmac = (\<lambda>_ _. []), cr_num_text = (\<lambda>_. [])\<rparr>"

definition dry_request :: dry_run_request where
  "dry_request = \<lparr>dq_currentPolicy = dry_current, dq_proposedPolicy = dry_current\<lparr>bp_allowedAssets := [''USDC'']\<rparr>, dq_proposalHash = ''h'',
     dq_previewLimit = 1, dq_after = None\<rparr>"

lemma dry_proposal: "validateProposal (db_proposedPolicy dry_body) dry_current =
    Inr \<lparr>pp_minAmount = None, pp_maxAmount = None, pp_minExpiryDays = None, pp_maxExpiryDays = None, pp_defaultExpiryDays = None, pp_allowedAssets = Some [''USDC'']\<rparr>"
  by code_simp

lemma dry_parsed: "parsePolicyDryRunRequest dry_crypto dry_body dry_current = Inr dry_request"
  unfolding parsePolicyDryRunRequest_def dry_proposal
  by (simp add: Let_def dry_request_def buildProposedPolicy_def dry_current_def scopeHash_def dry_crypto_def preview_limit_def
      MAX_PREVIEW_LIMIT_def dry_body_def)

lemma dry_denial: "denial dry_request (dry_invoice t iid) = Some ASSET_NOT_ALLOWED"
proof -
  have up: "js_upper ''XLM'' = ''XLM''" by code_simp
  have "windowDays (dry_invoice t iid) = None" by (simp add: windowDays_def dry_invoice_def to_double_def round_double_def Let_def)
  then show ?thesis by (simp add: denial_def dry_request_def dry_current_def evaluateInvoiceRequest_def policy_request_of_def request_asset_def dry_invoice_def up Let_def)
qed

lemma dry_affected: "affected dry_request dry_store = map (\<lambda>i. (i, ASSET_NOT_ALLOWED)) dry_store"
  by (simp add: affected_def List.map_filter_def dry_store_def dry_denial)

lemma dry_remaining: "remaining dry_request dry_store = rev (map (\<lambda>i. (i, ASSET_NOT_ALLOWED)) dry_store)"
  unfolding remaining_def dry_affected
  by (simp add: dry_store_def on_page_def dry_request_def candidate_cmp_def compareNewestFirst_def dry_row_def row_time_def dry_invoice_def Let_def)

lemma dry_uuids: "UUID (fst dry_ids)" "UUID (snd dry_ids)" "four_digit_year 0" "four_digit_year 1000"
  by code_simp+

lemma dry_report: obtains rep c where "evaluatePolicyDryRun dry_store dry_request 0 = Inr rep" "dp_nextCursor rep = Some c"
proof -
  obtain tok where tok: "encodeInvoiceCursor (Some 1000) (snd dry_ids) = Inr tok"
    using decode_encode [OF dry_uuids(4), of "snd dry_ids"] dry_uuids(2) UUID_trim by auto
  have lim: "dq_previewLimit dry_request = 1" by (simp add: dry_request_def)
  have "dt_page (foldl (dry_run_step dry_request) no_totals dry_store) = take (nat (dq_previewLimit dry_request) + 1) (remaining dry_request dry_store)"
    by (simp only: fold_affected fold_page remaining_def)
  moreover have two: "length dry_store = 2" by (simp add: dry_store_def)
  ultimately have page: "dt_page (foldl (dry_run_step dry_request) no_totals dry_store) = rev (map (\<lambda>i. (i, ASSET_NOT_ALLOWED)) dry_store)"
    unfolding dry_remaining lim using two by simp
  have ends: "si_createdAt (dry_invoice 1000 j) = 1000" "si_id (dry_invoice 1000 j) = j" for j by (simp_all add: dry_invoice_def)
  have st: "rev (map (\<lambda>i. (i, ASSET_NOT_ALLOWED)) dry_store) = [(dry_invoice 1000 (snd dry_ids), ASSET_NOT_ALLOWED), (dry_invoice 0 (fst dry_ids), ASSET_NOT_ALLOWED)]"
    by (simp add: dry_store_def)
  show ?thesis using that unfolding evaluatePolicyDryRun_def Let_def page st lim by (simp add: ends tok)
qed

text \<open>Witness of C23: the first page, with one record and another to follow.\<close>

theorem dry_run_exact_witness:
  "\<exists>rep. evaluatePolicyDryRun dry_store dry_request 0 = Inr rep \<and> dp_records rep = [(dry_invoice 1000 (snd dry_ids), ASSET_NOT_ALLOWED)] \<and>
     dp_hasMore rep \<and> dp_totalAffected rep = 2"
proof -
  obtain rep c where r: "evaluatePolicyDryRun dry_store dry_request 0 = Inr rep" by (rule dry_report)
  have lim: "dq_previewLimit dry_request = 1" by (simp add: dry_request_def)
  show ?thesis using dry_run_exact [OF r] r by (simp add: dry_remaining dry_affected lim) (simp add: dry_store_def)
qed

text \<open>Witness of C24: the second page.\<close>

theorem dry_run_next_page_witness:
  "\<exists>rep c req'. evaluatePolicyDryRun dry_store dry_request 0 = Inr rep \<and> dp_nextCursor rep = Some c \<and>
     parsePolicyDryRunRequest dry_crypto (dry_body\<lparr>db_cursor := Some (JStr c)\<rparr>) dry_current = Inr req' \<and>
     remaining dry_request dry_store = dp_records rep @ remaining req' dry_store"
proof -
  obtain rep c where r: "evaluatePolicyDryRun dry_store dry_request 0 = Inr rep" "dp_nextCursor rep = Some c" by (rule dry_report)
  have ids: "\<forall>i\<in>set dry_store. UUID (si_id i) \<and> four_digit_year (si_createdAt i)"
    using dry_uuids by (simp add: dry_store_def dry_invoice_def)
  have keys: "distinct (map (\<lambda>i. row_key (dry_row i)) dry_store)"
    by (simp add: dry_store_def dry_invoice_def dry_row_def row_key_def row_time_def)
  have "CHR ''.'' \<notin> set (cr_sha256 dry_crypto t)" for t by (simp add: dry_crypto_def)
  from dry_run_next_page [OF dry_parsed r ids keys this] show ?thesis using r by blast
qed

end
