(* ===== verification/Resumable_Repair.thy ===== *)
theory Resumable_Repair
  imports Js_Prelude
begin

text \<open>
  The resumable repair job, \<open>backend/src/ops/resumable-repair.service.ts\<close>. The database is a parameter: a query
  for the rows of a phase behind a cursor, and the statements that change a row, either of which may fail. The reading of the clock that decides
  whether a lease is stale is an argument per record. Times in checkpoints and logs are left out, and a checkpoint is modelled as
  its value, since the store keeps copies.
\<close>

subsection \<open>Phases, rows and statements\<close>

datatype repair_phase = Detached_transactions | Orphaned_transactions | Orphaned_payment_events | Inconsistent_invoices | Inconsistent_jobs

definition REPAIR_PHASE_ORDER :: "repair_phase list" where
  "REPAIR_PHASE_ORDER = [Detached_transactions, Orphaned_transactions, Orphaned_payment_events, Inconsistent_invoices, Inconsistent_jobs]"

datatype repair_status = Repair_pending | Repair_running | Repair_paused | Repair_completed | Repair_failed

record invoice_row_fields =
  iw_status :: string
  iw_paid_at :: "int option"
  iw_payment_tx_hash :: "string option"
  iw_version :: "int option"
  iw_created_at :: "int option"
  iw_tx_processed_at :: "int option"
  iw_tx_hash :: "string option"

record job_row_fields =
  jw_status :: string
  jw_locked_until :: "int option"
  jw_completed_at :: "int option"
  jw_updated_at :: "int option"
  jw_created_at :: "int option"

text \<open>The row of a query: its identifier and what the phase selects.\<close>

datatype row_data =
    Detached_row "string option" "string option" string  \<comment> \<open>hash, memo, matching invoice\<close>
  | Orphan_tx_row string "string option"  \<comment> \<open>invoice, hash\<close>
  | Orphan_event_row string "string option"  \<comment> \<open>invoice, type of the event\<close>
  | Invoice_row invoice_row_fields
  | Job_row job_row_fields

type_synonym repair_row = "string \<times> row_data"

datatype repair_statement =
    Relink_transaction string string | Isolate_transaction string string | Isolate_payment_event string string
  | Set_paid_at "int option" string | Clear_paid_at string | Set_payment_tx_hash string string | Reset_version string
  | Requeue_job string | Set_completed_at "int option" string | Clear_completed_at string

record 'd repair_db =
  rq_rows :: "repair_phase \<Rightarrow> string option \<Rightarrow> int \<Rightarrow> 'd \<Rightarrow> (string, repair_row list) result"
  rq_execute :: "repair_statement \<Rightarrow> 'd \<Rightarrow> (string, unit) result \<times> 'd"

record repair_action =
  ra_phase :: repair_phase
  ra_recordId :: string
  ra_action :: string

record repair_error =
  rx_phase :: repair_phase
  rx_recordId :: "string option"
  rx_error :: string

record repair_checkpoint =
  rc_id :: string
  rc_status :: repair_status
  rc_phase :: repair_phase
  rc_cursor :: "string option"
  rc_dryRun :: bool
  rc_batchSize :: int
  rc_phases :: "repair_phase list"
  rc_scanned :: nat
  rc_repaired :: nat
  rc_skipped :: nat
  rc_failed :: nat
  rc_errors :: "repair_error list"
  rc_actionLog :: "repair_action list"

subsection \<open>A batch\<close>

text \<open>A value that the code reads as a time that is absent: the reading of the clock is taken then (\<open>None\<close>).\<close>

definition first_time :: "int option \<Rightarrow> int option \<Rightarrow> int option" where
  "first_time a b = (case a of Some t \<Rightarrow> Some t | None \<Rightarrow> b)"

definition invoice_actions :: "string \<Rightarrow> invoice_row_fields \<Rightarrow> (string \<times> repair_statement) list" where
  "invoice_actions rid r =
     (if iw_status r = ''PAID'' \<and> iw_paid_at r = None
      then [(''backfill_paid_at'', Set_paid_at (first_time (iw_tx_processed_at r) (iw_created_at r)) rid)] else []) @
     (if iw_status r \<noteq> ''PAID'' \<and> iw_paid_at r \<noteq> None then [(''clear_paid_at'', Clear_paid_at rid)] else []) @
     (if iw_status r = ''PAID'' \<and> \<not> truthy (iw_payment_tx_hash r) \<and> truthy (iw_tx_hash r)
      then [(''backfill_payment_tx_hash'', Set_payment_tx_hash (the (iw_tx_hash r)) rid)] else []) @
     (if iw_version r = None \<or> the (iw_version r) < 1 then [(''reset_version'', Reset_version rid)] else [])"

definition job_actions :: "int \<Rightarrow> string \<Rightarrow> job_row_fields \<Rightarrow> (string \<times> repair_statement) list" where
  "job_actions now rid r =
     (if jw_status r = ''running'' \<and> (jw_locked_until r = None \<or> the (jw_locked_until r) < now)
      then [(''requeue_stale_lease'', Requeue_job rid)] else []) @
     (if jw_status r \<in> {''succeeded'', ''dead''} \<and> jw_completed_at r = None
      then [(''backfill_completed_at'', Set_completed_at (first_time (jw_updated_at r) (jw_created_at r)) rid)] else []) @
     (if jw_status r \<in> {''queued'', ''running''} \<and> jw_completed_at r \<noteq> None then [(''clear_completed_at'', Clear_completed_at rid)] else [])"

text \<open>The statements for a row, each with the name under which it is logged.\<close>

definition row_actions :: "(string \<Rightarrow> int) \<Rightarrow> repair_row \<Rightarrow> (string \<times> repair_statement) list" where
  "row_actions clock row =
     (let rid = fst row
      in case snd row of
           Detached_row hash memo inv1 \<Rightarrow> [(''relink_transaction_to_invoice'', Relink_transaction inv1 rid)]
         | Orphan_tx_row inv1 hash \<Rightarrow> [(''isolate_orphaned_transaction'', Isolate_transaction inv1 rid)]
         | Orphan_event_row inv1 type \<Rightarrow> [(''isolate_orphaned_payment_event'', Isolate_payment_event inv1 rid)]
         | Invoice_row r \<Rightarrow> invoice_actions rid r
         | Job_row r \<Rightarrow> job_actions (clock rid) rid r)"

fun run_statements :: "'d repair_db \<Rightarrow> repair_statement list \<Rightarrow> 'd \<Rightarrow> (string, unit) result \<times> 'd" where
  "run_statements db [] d = (Inr (), d)"
| "run_statements db (s # ss) d =
     (case rq_execute db s d of
        (Inl e, d1) \<Rightarrow> (Inl e, d1)
      | (Inr _, d1) \<Rightarrow> run_statements db ss d1)"

record batch_counts =
  bc_repaired :: nat
  bc_skipped :: nat
  bc_failed :: nat
  bc_actions :: "repair_action list"
  bc_errors :: "repair_error list"

definition repair_row_step ::
  "'d repair_db \<Rightarrow> (string \<Rightarrow> int) \<Rightarrow> bool \<Rightarrow> repair_phase \<Rightarrow> batch_counts \<times> 'd \<Rightarrow> repair_row \<Rightarrow> batch_counts \<times> 'd" where
  "repair_row_step db clock dryRun phase bd row =
     (let (b, d) = bd; acts = row_actions clock row
      in case (if dryRun then (Inr (), d) else run_statements db (map snd acts) d) of
           (Inl e, d1) \<Rightarrow> (b\<lparr>bc_failed := bc_failed b + 1,
               bc_errors := bc_errors b @ [\<lparr>rx_phase = phase, rx_recordId = Some (fst row), rx_error = e\<rparr>]\<rparr>, d1)
         | (Inr _, d1) \<Rightarrow>
             if acts \<noteq> []
             then (b\<lparr>bc_repaired := bc_repaired b + 1,
               bc_actions := bc_actions b @ [\<lparr>ra_phase = phase, ra_recordId = fst row, ra_action = join ''+'' (map fst acts)\<rparr>]\<rparr>, d1)
             else (b\<lparr>bc_skipped := bc_skipped b + 1\<rparr>, d1))"

record repair_batch =
  rb_scanned :: nat
  rb_counts :: batch_counts
  rb_nextCursor :: "string option"
  rb_hasMore :: bool

definition processBatch ::
  "'d repair_db \<Rightarrow> (string \<Rightarrow> int) \<Rightarrow> repair_phase \<Rightarrow> string option \<Rightarrow> int \<Rightarrow> bool \<Rightarrow> 'd \<Rightarrow> (string, repair_batch) result \<times> 'd" where
  "processBatch db clock phase cursor batchSize dryRun d =
     (case rq_rows db phase cursor batchSize d of
        Inl e \<Rightarrow> (Inl e, d)
      | Inr rows \<Rightarrow>
          let (b, d1) = foldl (repair_row_step db clock dryRun phase)
                (\<lparr>bc_repaired = 0, bc_skipped = 0, bc_failed = 0, bc_actions = [], bc_errors = []\<rparr>, d) rows
          in (Inr \<lparr>rb_scanned = length rows, rb_counts = b, rb_nextCursor = (if rows = [] then None else Some (fst (last rows))),
                rb_hasMore = (int (length rows) = batchSize)\<rparr>, d1))"

subsection \<open>The job\<close>

fun index_of :: "'a \<Rightarrow> 'a list \<Rightarrow> nat option" where
  "index_of x [] = None"
| "index_of x (y # ys) = (if x = y then Some 0 else map_option Suc (index_of x ys))"

definition add_batch :: "repair_batch \<Rightarrow> repair_checkpoint \<Rightarrow> repair_checkpoint" where
  "add_batch r cp =
     (let b = rb_counts r
      in cp\<lparr>rc_scanned := rc_scanned cp + rb_scanned r, rc_repaired := rc_repaired cp + bc_repaired b, rc_skipped := rc_skipped cp + bc_skipped b,
           rc_failed := rc_failed cp + bc_failed b, rc_errors := rc_errors cp @ bc_errors b, rc_actionLog := rc_actionLog cp @ bc_actions b\<rparr>)"

datatype job_step = Go_on | Stopped | Job_thrown string

definition pause_check :: "int option \<Rightarrow> nat \<Rightarrow> repair_checkpoint \<Rightarrow> job_step \<times> repair_checkpoint" where
  "pause_check maxBatches batches cp =
     (case maxBatches of
        Some m \<Rightarrow> if m > 0 \<and> int batches \<ge> m then (Stopped, cp\<lparr>rc_status := Repair_paused\<rparr>) else (Go_on, cp)
      | None \<Rightarrow> (Go_on, cp))"

text \<open>One turn of the loop; \<open>batches\<close> counts the batches before it.\<close>

definition repair_turn ::
  "'d repair_db \<Rightarrow> (string \<Rightarrow> int) \<Rightarrow> int option \<Rightarrow> nat \<Rightarrow> repair_checkpoint \<Rightarrow> 'd \<Rightarrow> (job_step \<times> repair_checkpoint) \<times> 'd" where
  "repair_turn db clock maxBatches batches cp d =
     (case index_of (rc_phase cp) (rc_phases cp) of
        None \<Rightarrow> ((Stopped, cp\<lparr>rc_status := Repair_completed\<rparr>), d)
      | Some i \<Rightarrow>
          (case processBatch db clock (rc_phase cp) (rc_cursor cp) (rc_batchSize cp) (rc_dryRun cp) d of
             (Inl e, d1) \<Rightarrow> ((Job_thrown e, cp\<lparr>rc_status := Repair_failed,
                 rc_errors := rc_errors cp @ [\<lparr>rx_phase = rc_phase cp, rx_recordId = None, rx_error = e\<rparr>]\<rparr>), d1)
           | (Inr r, d1) \<Rightarrow>
               let cp1 = add_batch r cp
               in if rb_hasMore r \<and> rb_nextCursor r \<noteq> None
                  then (pause_check maxBatches (batches + 1) (cp1\<lparr>rc_cursor := rb_nextCursor r\<rparr>), d1)
                  else if i + 1 < length (rc_phases cp)
                  then (pause_check maxBatches (batches + 1) (cp1\<lparr>rc_phase := rc_phases cp ! (i + 1), rc_cursor := None\<rparr>), d1)
                  else ((Stopped, cp1\<lparr>rc_status := Repair_completed\<rparr>), d1)))"

text \<open>The loop, with a bound on its turns; \<open>None\<close> is that the bound was reached.\<close>

fun repair_loop ::
  "nat \<Rightarrow> 'd repair_db \<Rightarrow> (string \<Rightarrow> int) \<Rightarrow> int option \<Rightarrow> nat \<Rightarrow> repair_checkpoint \<Rightarrow> 'd \<Rightarrow> ((job_step \<times> repair_checkpoint) \<times> 'd) option" where
  "repair_loop 0 db clock maxBatches batches cp d = None"
| "repair_loop (Suc n) db clock maxBatches batches cp d =
     (case repair_turn db clock maxBatches batches cp d of
        ((Go_on, cp1), d1) \<Rightarrow> repair_loop n db clock maxBatches (batches + 1) cp1 d1
      | res \<Rightarrow> Some res)"

text \<open>The service: the checkpoints of the memory store and the database.\<close>

record 'd repair_service =
  rv_checkpoints :: "(string, repair_checkpoint) jsmap"
  rv_db :: 'd

datatype repair_failure = RepairJobNotFoundError | Rethrown string

record repair_report =
  rp_jobId :: string
  rp_status :: repair_status
  rp_dryRun :: bool
  rp_currentPhase :: repair_phase
  rp_cursor :: "string option"
  rp_scanned :: nat
  rp_repaired :: nat
  rp_skipped :: nat
  rp_failed :: nat
  rp_errors :: "repair_error list"
  rp_actionLogSample :: "repair_action list"

definition buildReport :: "repair_checkpoint \<Rightarrow> repair_report" where
  "buildReport cp =
     \<lparr>rp_jobId = rc_id cp, rp_status = rc_status cp, rp_dryRun = rc_dryRun cp, rp_currentPhase = rc_phase cp, rp_cursor = rc_cursor cp,
      rp_scanned = rc_scanned cp, rp_repaired = rc_repaired cp, rp_skipped = rc_skipped cp, rp_failed = rc_failed cp, rp_errors = rc_errors cp,
      rp_actionLogSample = drop (length (rc_actionLog cp) - 50) (rc_actionLog cp)\<rparr>"

definition save_checkpoint :: "repair_checkpoint \<Rightarrow> 'd repair_service \<Rightarrow> 'd repair_service" where
  "save_checkpoint cp s = s\<lparr>rv_checkpoints := mset_kv (rc_id cp) cp (rv_checkpoints s)\<rparr>"

text \<open>
  The code saves the checkpoint after every batch; the model keeps the last save of a run only, so that a
  reader in the middle of a run is not modelled.
\<close>

definition executeJob ::
  "nat \<Rightarrow> 'd repair_db \<Rightarrow> (string \<Rightarrow> int) \<Rightarrow> string \<Rightarrow> int option \<Rightarrow> 'd repair_service \<Rightarrow> ((repair_failure, repair_report) result \<times> 'd repair_service) option" where
  "executeJob fuel db clock jobId maxBatches s =
     (case mget (rv_checkpoints s) jobId of
        None \<Rightarrow> Some (Inl RepairJobNotFoundError, s)
      | Some cp0 \<Rightarrow>
          (case repair_loop fuel db clock maxBatches 0 (cp0\<lparr>rc_status := Repair_running\<rparr>) (rv_db s) of
             None \<Rightarrow> None
           | Some ((st, cp), d) \<Rightarrow>
               let s1 = (save_checkpoint cp s)\<lparr>rv_db := d\<rparr>
               in Some (case st of Job_thrown e \<Rightarrow> Inl (Rethrown e) | _ \<Rightarrow> Inr (buildReport cp), s1)))"

record repair_options =
  ro_batchSize :: "int option"
  ro_dryRun :: "bool option"
  ro_phases :: "repair_phase list option"
  ro_maxBatches :: "int option"

definition new_checkpoint :: "int \<Rightarrow> repair_options \<Rightarrow> string \<Rightarrow> repair_checkpoint" where
  "new_checkpoint defaultBatchSize opts uuid =
     (let phases = (case ro_phases opts of Some ps \<Rightarrow> if ps \<noteq> [] then ps else REPAIR_PHASE_ORDER | None \<Rightarrow> REPAIR_PHASE_ORDER)
      in \<lparr>rc_id = ''repair_'' @ uuid, rc_status = Repair_pending, rc_phase = hd phases, rc_cursor = None,
          rc_dryRun = (case ro_dryRun opts of Some b \<Rightarrow> b | None \<Rightarrow> False),
          rc_batchSize = (case ro_batchSize opts of Some n \<Rightarrow> if n > 0 then n else defaultBatchSize | None \<Rightarrow> defaultBatchSize),
          rc_phases = phases, rc_scanned = 0, rc_repaired = 0, rc_skipped = 0, rc_failed = 0, rc_errors = [], rc_actionLog = []\<rparr>)"

definition startRepairJob ::
  "nat \<Rightarrow> 'd repair_db \<Rightarrow> (string \<Rightarrow> int) \<Rightarrow> int \<Rightarrow> repair_options \<Rightarrow> string \<Rightarrow> 'd repair_service \<Rightarrow>
    ((repair_failure, repair_report) result \<times> 'd repair_service) option" where
  "startRepairJob fuel db clock defaultBatchSize opts uuid s =
     (let cp = new_checkpoint defaultBatchSize opts uuid
      in executeJob fuel db clock (rc_id cp) (ro_maxBatches opts) (save_checkpoint cp s))"

definition resumeRepairJob ::
  "nat \<Rightarrow> 'd repair_db \<Rightarrow> (string \<Rightarrow> int) \<Rightarrow> string \<Rightarrow> int option \<Rightarrow> int option \<Rightarrow> 'd repair_service \<Rightarrow>
    ((repair_failure, repair_report) result \<times> 'd repair_service) option" where
  "resumeRepairJob fuel db clock jobId maxBatches batchSize s =
     (case mget (rv_checkpoints s) jobId of
        None \<Rightarrow> Some (Inl RepairJobNotFoundError, s)
      | Some cp \<Rightarrow>
          if rc_status cp = Repair_completed then Some (Inr (buildReport cp), s)
          else
            let cp1 = cp\<lparr>rc_batchSize := (case batchSize of Some n \<Rightarrow> if n > 0 then n else rc_batchSize cp | None \<Rightarrow> rc_batchSize cp),
                  rc_status := Repair_running\<rparr>
            in executeJob fuel db clock jobId maxBatches (save_checkpoint cp1 s))"

definition getJob :: "string \<Rightarrow> 'd repair_service \<Rightarrow> repair_report option" where
  "getJob jobId s = map_option buildReport (mget (rv_checkpoints s) jobId)"

end
