(* ===== verification/Repair_Properties.thy ===== *)
theory Repair_Properties
  imports Resumable_Repair
begin

text \<open>
  What the repair job guarantees: a dry run writes nothing, every scanned row is counted once, a job
  that is paused and resumed any number of times ends as one that was never stopped, a preview over a keyset query ends and
  shows every row once; and the phases for which a job never ends.
\<close>

subsection \<open>Batches\<close>

lemma dry_row_step: "snd (repair_row_step db clock True phase bd row) = snd bd"
  by (cases bd) (simp add: repair_row_step_def Let_def)

lemma dry_rows: "snd (foldl (repair_row_step db clock True phase) bd rows) = snd bd"
  by (induction rows arbitrary: bd) (simp_all add: dry_row_step)

lemma dry_batch: "snd (processBatch db clock phase cursor n True d) = d"
proof (cases "rq_rows db phase cursor n d")
  case (Inr rows)
  then show ?thesis
    using dry_rows [of db clock phase "(\<lparr>bc_repaired = 0, bc_skipped = 0, bc_failed = 0, bc_actions = [], bc_errors = []\<rparr>, d)" rows]
    by (simp add: processBatch_def split_beta)
qed (simp add: processBatch_def)

definition counts_total :: "batch_counts \<Rightarrow> nat" where
  "counts_total b = bc_repaired b + bc_skipped b + bc_failed b"

lemma step_total: "counts_total (fst (repair_row_step db clock dry phase bd row)) = counts_total (fst bd) + 1"
  by (cases bd) (simp add: repair_row_step_def Let_def counts_total_def split: sum.split prod.split)

lemma rows_total: "counts_total (fst (foldl (repair_row_step db clock dry phase) bd rows)) = counts_total (fst bd) + length rows"
  by (induction rows arbitrary: bd) (simp_all add: step_total)

lemma batch_total: "processBatch db clock phase cursor n dry d = (Inr r, d') \<Longrightarrow> counts_total (rb_counts r) = rb_scanned r"
  by (auto simp: processBatch_def split_beta rows_total counts_total_def [of "batch_counts.make _ _ _ _ _"] split: sum.splits)
    (simp add: rows_total counts_total_def)

subsection \<open>Pausing and resuming\<close>

definition counts_ok :: "repair_checkpoint \<Rightarrow> bool" where
  "counts_ok cp \<longleftrightarrow> rc_scanned cp = rc_repaired cp + rc_skipped cp + rc_failed cp"

lemma pause_check_cases:
  "pause_check mb n cp = (Go_on, cp) \<or> (pause_check mb n cp = (Stopped, cp\<lparr>rc_status := Repair_paused\<rparr>) \<and> mb \<noteq> None)"
  by (auto simp: pause_check_def split: option.split)

lemma pause_check_None [simp]: "pause_check None n cp = (Go_on, cp)"
  by (simp add: pause_check_def)

text \<open>A turn under a limit is the unlimited turn, which may be followed by a pause.\<close>

lemma turn_limited:
  assumes "repair_turn db clock None 0 cp d = ((st, cp1), d1)"
  shows "repair_turn db clock mb n cp d = ((st, cp1), d1) \<or>
    (st = Go_on \<and> repair_turn db clock mb n cp d = ((Stopped, cp1\<lparr>rc_status := Repair_paused\<rparr>), d1))"
  using assms pause_check_cases [of mb "Suc n"]
  by (fastforce simp: repair_turn_def Let_def split: option.splits sum.splits prod.splits if_splits)

lemma turn_None: "repair_turn db clock None n cp d = repair_turn db clock None 0 cp d"
  unfolding repair_turn_def pause_check_def option.case by (rule refl)

lemma turn_status:
  assumes "repair_turn db clock None 0 cp d = ((Go_on, cp1), d1)"
  shows "rc_status cp1 = rc_status cp" "rc_id cp1 = rc_id cp" "rc_batchSize cp1 = rc_batchSize cp" "rc_dryRun cp1 = rc_dryRun cp"
  using assms by (auto simp: repair_turn_def add_batch_def Let_def split: option.splits sum.splits prod.splits if_splits)

lemma loop_None: "repair_loop n db clock None k cp d = repair_loop n db clock None 0 cp d"
proof (induction n arbitrary: k cp d)
  case (Suc n)
  have "repair_loop n db clock None (k + 1) c e = repair_loop n db clock None (0 + 1) c e" for c e using Suc by metis
  then show ?case using turn_None [of db clock k cp d] by (simp split: prod.split job_step.split)
qed simp

lemma loop_more: "repair_loop n db clock mb k cp d = Some r \<Longrightarrow> n \<le> m \<Longrightarrow> repair_loop m db clock mb k cp d = Some r"
proof (induction n arbitrary: k cp d m)
  case (Suc n)
  then obtain m' where "m = Suc m'" "n \<le> m'" by (cases m) auto
  then show ?case using Suc by (auto split: prod.splits job_step.splits)
qed simp

lemma loop_limited:
  assumes "repair_loop n db clock None 0 cp d = Some ((st, cpe), de)" and "rc_status cp = Repair_running"
  shows "repair_loop n db clock mb k cp d = Some ((st, cpe), de) \<or>
    (\<exists>cp1 d1. repair_loop n db clock mb k cp d = Some ((Stopped, cp1\<lparr>rc_status := Repair_paused\<rparr>), d1) \<and> rc_status cp1 = Repair_running \<and>
       rc_id cp1 = rc_id cp \<and> repair_loop n db clock None 0 cp1 d1 = Some ((st, cpe), de))"
  using assms
proof (induction n arbitrary: k cp d)
  case (Suc n)
  obtain st1 cp1 d1 where t: "repair_turn db clock None 0 cp d = ((st1, cp1), d1)" by (metis surj_pair)
  show ?case
  proof (cases "st1 = Go_on")
    case False
    then have "repair_turn db clock mb k cp d = ((st1, cp1), d1)" using turn_limited [OF t] by blast
    then show ?thesis using False Suc.prems t by (cases st1) auto
  next
    case True
    note keep = turn_status [OF t [unfolded True]]
    have rest: "repair_loop n db clock None 0 cp1 d1 = Some ((st, cpe), de)"
      using Suc.prems t True loop_None [of n db clock 1 cp1 d1] by simp
    from turn_limited [OF t, of mb k] show ?thesis
    proof
      assume "repair_turn db clock mb k cp d = ((st1, cp1), d1)"
      then have go: "repair_loop (Suc n) db clock mb k cp d = repair_loop n db clock mb (k + 1) cp1 d1" using True by simp
      from Suc.IH [OF rest, of "k + 1"] keep Suc.prems(2)
      consider "repair_loop n db clock mb (k + 1) cp1 d1 = Some ((st, cpe), de)"
        | cp2 d2 where "repair_loop n db clock mb (k + 1) cp1 d1 = Some ((Stopped, cp2\<lparr>rc_status := Repair_paused\<rparr>), d2)"
          "rc_status cp2 = Repair_running" "rc_id cp2 = rc_id cp1" "repair_loop n db clock None 0 cp2 d2 = Some ((st, cpe), de)" by auto
      then show ?thesis
      proof cases
        case 2
        have "repair_loop (Suc n) db clock None 0 cp2 d2 = Some ((st, cpe), de)" by (rule loop_more [OF 2(4)]) simp
        moreover have "repair_loop (Suc n) db clock mb k cp d = Some ((Stopped, cp2\<lparr>rc_status := Repair_paused\<rparr>), d2)"
          using go 2(1) by simp
        ultimately show ?thesis using 2(2,3) keep(2) by metis
      qed (use go in argo)
    next
      assume "st1 = Go_on \<and> repair_turn db clock mb k cp d = ((Stopped, cp1\<lparr>rc_status := Repair_paused\<rparr>), d1)"
      then have "repair_loop (Suc n) db clock mb k cp d = Some ((Stopped, cp1\<lparr>rc_status := Repair_paused\<rparr>), d1)" by simp
      then show ?thesis using keep Suc.prems(2) loop_more [OF rest, of "Suc n"] by auto
    qed
  qed
qed simp

lemma save_twice: "rc_id a = rc_id b \<Longrightarrow> save_checkpoint a (save_checkpoint b s) = save_checkpoint a s"
  by (simp add: save_checkpoint_def mset_kv_twice)

text \<open>A job under a sequence of limits: started or resumed with each of them, at last without.\<close>

fun resume_all ::
  "nat \<Rightarrow> 'd repair_db \<Rightarrow> (string \<Rightarrow> int) \<Rightarrow> string \<Rightarrow> int option list \<Rightarrow> 'd repair_service \<Rightarrow>
    ((repair_failure, repair_report) result \<times> 'd repair_service) option" where
  "resume_all fuel db clock jid [] s = resumeRepairJob fuel db clock jid None None s"
| "resume_all fuel db clock jid (m # ms) s =
     (case resumeRepairJob fuel db clock jid m None s of
        Some (Inr r, s1) \<Rightarrow> resume_all fuel db clock jid ms s1
      | res \<Rightarrow> res)"

lemma loop_id: "repair_loop n db clock mb k cp d = Some ((st, cpe), de) \<Longrightarrow> rc_id cpe = rc_id cp"
proof (induction n arbitrary: k cp d)
  case (Suc n)
  have one: "rc_id c1 = rc_id c" if "repair_turn db clock mb k c d = ((st1, c1), d1)" for st1 c c1 d d1
    using that by (auto simp: repair_turn_def add_batch_def pause_check_def Let_def split: option.splits sum.splits prod.splits if_splits)
  obtain st1 cp1 d1 where t: "repair_turn db clock mb k cp d = ((st1, cp1), d1)" by (metis surj_pair)
  show ?case using Suc t one [OF t] by (cases st1) auto
qed simp

text \<open>What a job in state \<open>s\<close> comes to without a limit.\<close>

definition comes_to :: "nat \<Rightarrow> 'd repair_db \<Rightarrow> (string \<Rightarrow> int) \<Rightarrow> string \<Rightarrow> 'd repair_service \<Rightarrow> repair_checkpoint \<Rightarrow> 'd repair_service \<Rightarrow> bool" where
  "comes_to fuel db clock jid s cpe s' \<longleftrightarrow> rc_id cpe = jid \<and> s' = (save_checkpoint cpe s)\<lparr>rv_db := rv_db s'\<rparr> \<and>
     (\<exists>cp. mget (rv_checkpoints s) jid = Some cp \<and> rc_id cp = jid \<and>
       (if rc_status cp = Repair_completed then cp = cpe \<and> s' = s
        else repair_loop fuel db clock None 0 (cp\<lparr>rc_status := Repair_running\<rparr>) (rv_db s) = Some ((Stopped, cpe), rv_db s')))"

lemma same_size: "cp\<lparr>rc_batchSize := rc_batchSize cp, rc_status := st\<rparr> = cp\<lparr>rc_status := st\<rparr>" for cp :: repair_checkpoint
  by simp

lemma execute_limited:
  assumes "repair_loop fuel db clock None 0 (cp\<lparr>rc_status := Repair_running\<rparr>) (rv_db s) = Some ((Stopped, cpe), de)"
    and "mget (rv_checkpoints s) jid = Some cp" and "rc_id cp = jid" and "rc_status cpe = Repair_completed"
  obtains r s1 where "executeJob fuel db clock jid mb s = Some (Inr r, s1)" and "comes_to fuel db clock jid s1 cpe ((save_checkpoint cpe s)\<lparr>rv_db := de\<rparr>)"
proof -
  have ide: "rc_id cpe = jid" using loop_id [OF assms(1)] assms(3) by simp
  from loop_limited [OF assms(1), of mb 0] consider
      "repair_loop fuel db clock mb 0 (cp\<lparr>rc_status := Repair_running\<rparr>) (rv_db s) = Some ((Stopped, cpe), de)"
    | cp1 d1 where "repair_loop fuel db clock mb 0 (cp\<lparr>rc_status := Repair_running\<rparr>) (rv_db s) = Some ((Stopped, cp1\<lparr>rc_status := Repair_paused\<rparr>), d1)"
      "rc_status cp1 = Repair_running" "rc_id cp1 = jid" "repair_loop fuel db clock None 0 cp1 d1 = Some ((Stopped, cpe), de)"
    using assms(3) by auto
  then show ?thesis
  proof cases
    case 1
    then show ?thesis
      using assms(2,4) ide by (intro that [of "buildReport cpe" "(save_checkpoint cpe s)\<lparr>rv_db := de\<rparr>"])
        (simp_all add: executeJob_def Let_def comes_to_def save_checkpoint_def mset_kv_twice)
  next
    case 2
    have run: "cp1\<lparr>rc_status := Repair_running\<rparr> = cp1" using 2(2) by simp
    show ?thesis
      using assms(2) ide 2 by (intro that [of "buildReport (cp1\<lparr>rc_status := Repair_paused\<rparr>)" "(save_checkpoint (cp1\<lparr>rc_status := Repair_paused\<rparr>) s)\<lparr>rv_db := d1\<rparr>"])
        (simp_all add: run executeJob_def Let_def comes_to_def save_checkpoint_def mset_kv_twice)
  qed
qed

lemma resume_limited:
  assumes "comes_to fuel db clock jid s cpe s'" and "rc_status cpe = Repair_completed"
  obtains r s1 where "resumeRepairJob fuel db clock jid mb None s = Some (Inr r, s1)" and "comes_to fuel db clock jid s1 cpe s'"
proof -
  from assms(1) obtain cp where cp: "mget (rv_checkpoints s) jid = Some cp" "rc_id cp = jid"
    and run: "if rc_status cp = Repair_completed then cp = cpe \<and> s' = s
      else repair_loop fuel db clock None 0 (cp\<lparr>rc_status := Repair_running\<rparr>) (rv_db s) = Some ((Stopped, cpe), rv_db s')"
    and s': "s' = (save_checkpoint cpe s)\<lparr>rv_db := rv_db s'\<rparr>" and ide: "rc_id cpe = jid" by (auto simp: comes_to_def)
  show ?thesis
  proof (cases "rc_status cp = Repair_completed")
    case True
    then show ?thesis using that [of "buildReport cp" s] cp run assms(1) by (simp add: resumeRepairJob_def)
  next
    case False
    let ?s = "save_checkpoint (cp\<lparr>rc_status := Repair_running\<rparr>) s"
    have got: "mget (rv_checkpoints ?s) jid = Some (cp\<lparr>rc_status := Repair_running\<rparr>)" "rv_db ?s = rv_db s"
      using cp(2) by (simp_all add: save_checkpoint_def)
    have end1: "(save_checkpoint cpe ?s)\<lparr>rv_db := rv_db s'\<rparr> = s'" using s' cp(2) ide by (simp add: save_twice)
    obtain r s1 where "executeJob fuel db clock jid mb ?s = Some (Inr r, s1)"
      "comes_to fuel db clock jid s1 cpe ((save_checkpoint cpe ?s)\<lparr>rv_db := rv_db s'\<rparr>)"
      using execute_limited [of fuel db clock "cp\<lparr>rc_status := Repair_running\<rparr>" ?s cpe "rv_db s'" jid mb] run False got cp(2) assms(2) by auto
    then show ?thesis using that cp False end1 by (simp add: resumeRepairJob_def)
  qed
qed

lemma resume_unlimited:
  assumes "comes_to fuel db clock jid s cpe s'" and "rc_status cpe = Repair_completed"
  shows "resumeRepairJob fuel db clock jid None None s = Some (Inr (buildReport cpe), s')"
proof -
  from assms(1) obtain cp where cp: "mget (rv_checkpoints s) jid = Some cp" "rc_id cp = jid"
    and run: "if rc_status cp = Repair_completed then cp = cpe \<and> s' = s
      else repair_loop fuel db clock None 0 (cp\<lparr>rc_status := Repair_running\<rparr>) (rv_db s) = Some ((Stopped, cpe), rv_db s')"
    and s': "s' = (save_checkpoint cpe s)\<lparr>rv_db := rv_db s'\<rparr>" and ide: "rc_id cpe = jid" by (auto simp: comes_to_def)
  let ?s = "save_checkpoint (cp\<lparr>rc_status := Repair_running\<rparr>) s"
  have "(save_checkpoint cpe ?s)\<lparr>rv_db := rv_db s'\<rparr> = s'" using s' cp(2) ide by (simp add: save_twice)
  moreover have "mget (rv_checkpoints ?s) jid = Some (cp\<lparr>rc_status := Repair_running\<rparr>)" "rv_db ?s = rv_db s"
    using cp(2) by (simp_all add: save_checkpoint_def)
  ultimately show ?thesis using cp(1) run by (auto simp: resumeRepairJob_def executeJob_def Let_def)
qed

lemma resume_all_same:
  "comes_to fuel db clock jid s cpe s' \<Longrightarrow> rc_status cpe = Repair_completed \<Longrightarrow>
    resume_all fuel db clock jid ms s = Some (Inr (buildReport cpe), s')"
proof (induction ms arbitrary: s)
  case (Cons m ms)
  from resume_limited [OF Cons.prems, of m] obtain r s1 where
    "resumeRepairJob fuel db clock jid m None s = Some (Inr r, s1)" "comes_to fuel db clock jid s1 cpe s'" by blast
  then show ?case using Cons by simp
qed (simp add: resume_unlimited)

lemma turn_invariant:
  assumes "repair_turn db clock mb k cp d = ((st, cp1), d1)" and "counts_ok cp"
  shows "counts_ok cp1" and "rc_dryRun cp1 = rc_dryRun cp" and "rc_dryRun cp \<Longrightarrow> d1 = d" and "mb = None \<Longrightarrow> st = Stopped \<Longrightarrow> rc_status cp1 = Repair_completed"
proof -
  have pc: "counts_ok (snd (pause_check mb n c)) = counts_ok c" "rc_dryRun (snd (pause_check mb n c)) = rc_dryRun c" for n c
    by (auto simp: pause_check_def counts_ok_def split: option.split)
  have add: "counts_ok (add_batch r cp)" if "processBatch db clock ph c n dr d = (Inr r, d')" for ph c n dr r d'
    using batch_total [OF that] assms(2) by (simp add: counts_ok_def add_batch_def counts_total_def Let_def)
  have addf: "counts_ok (c\<lparr>rc_cursor := x\<rparr>) = counts_ok c" "counts_ok (c\<lparr>rc_phase := y\<rparr>) = counts_ok c" "counts_ok (c\<lparr>rc_status := z\<rparr>) = counts_ok c"
    "counts_ok (c\<lparr>rc_errors := w\<rparr>) = counts_ok c" for c x y z w by (simp_all add: counts_ok_def)
  show "counts_ok cp1"
    using assms add pc by (auto simp: repair_turn_def Let_def addf dest: arg_cong [of _ _ snd] split: option.splits sum.splits prod.splits if_splits) (metis addf pc(1) snd_conv)+
  show "rc_dryRun cp1 = rc_dryRun cp"
    using assms(1) by (auto simp: repair_turn_def add_batch_def pause_check_def Let_def split: option.splits sum.splits prod.splits if_splits)
  show "rc_dryRun cp \<Longrightarrow> d1 = d"
    using assms(1) dry_batch [of db clock "rc_phase cp" "rc_cursor cp" "rc_batchSize cp" d]
    by (auto simp: repair_turn_def Let_def split: option.splits sum.splits prod.splits if_splits)
  show "mb = None \<Longrightarrow> st = Stopped \<Longrightarrow> rc_status cp1 = Repair_completed"
    using assms(1) by (auto simp: repair_turn_def Let_def split: option.splits sum.splits prod.splits if_splits)
qed

lemma loop_invariant:
  "repair_loop n db clock mb k cp d = Some ((st, cpe), de) \<Longrightarrow> counts_ok cp \<Longrightarrow>
    counts_ok cpe \<and> rc_dryRun cpe = rc_dryRun cp \<and> (rc_dryRun cp \<longrightarrow> de = d) \<and> st \<noteq> Go_on \<and> (mb = None \<and> st = Stopped \<longrightarrow> rc_status cpe = Repair_completed)"
proof (induction n arbitrary: k cp d)
  case (Suc n)
  obtain st1 cp1 d1 where t: "repair_turn db clock mb k cp d = ((st1, cp1), d1)" by (metis surj_pair)
  note i = turn_invariant [OF t Suc.prems(2)]
  show ?case
  proof (cases st1)
    case Go_on
    then have "repair_loop n db clock mb (k + 1) cp1 d1 = Some ((st, cpe), de)" using Suc.prems(1) t by simp
    from Suc.IH [OF this i(1)] show ?thesis using i(2,3) by auto
  qed (use Suc.prems(1) t i in auto)
qed simp

lemma new_counts: "counts_ok (new_checkpoint n opts uuid)" "rc_id (new_checkpoint n opts uuid) = ''repair_'' @ uuid"
  "new_checkpoint n (opts\<lparr>ro_maxBatches := m\<rparr>) uuid = new_checkpoint n opts uuid"
  by (simp_all add: new_checkpoint_def counts_ok_def Let_def)

text \<open>
  C25: If a repair job that runs without a limit on its batches ends with a report, then the same job, started
  with any limit and resumed any number of times under any limits, ends with the same report, the
  same checkpoint and the same database. The report is of a completed job, every scanned row is counted as
  repaired, skipped or failed, and a dry run leaves the database as it was.
\<close>

theorem repair_resumable:
  assumes "startRepairJob fuel db clock bs (opts\<lparr>ro_maxBatches := None\<rparr>) uuid s = Some (Inr rep, s')"
  shows "(\<exists>r s1. startRepairJob fuel db clock bs (opts\<lparr>ro_maxBatches := m\<rparr>) uuid s = Some (Inr r, s1) \<and>
      resume_all fuel db clock (''repair_'' @ uuid) ms s1 = Some (Inr rep, s')) \<and>
    rp_status rep = Repair_completed \<and> rp_scanned rep = rp_repaired rep + rp_skipped rep + rp_failed rep \<and>
    (rp_dryRun rep \<longrightarrow> rv_db s' = rv_db s)"
proof -
  define cp where "cp = new_checkpoint bs opts uuid"
  define s0 where "s0 = save_checkpoint cp s"
  have cp: "rc_id cp = ''repair_'' @ uuid" "counts_ok (cp\<lparr>rc_status := Repair_running\<rparr>)" using new_counts(1,2) [of bs opts uuid] by (simp_all add: cp_def counts_ok_def)
  have start: "startRepairJob fuel db clock bs (opts\<lparr>ro_maxBatches := mb\<rparr>) uuid s = executeJob fuel db clock (''repair_'' @ uuid) mb s0" for mb
    by (simp add: startRepairJob_def Let_def new_counts s0_def cp_def)
  have got: "mget (rv_checkpoints s0) (''repair_'' @ uuid) = Some cp" using cp(1) by (simp add: s0_def save_checkpoint_def)
  obtain st cpe de where loop: "repair_loop fuel db clock None 0 (cp\<lparr>rc_status := Repair_running\<rparr>) (rv_db s0) = Some ((st, cpe), de)"
    using assms got by (auto simp: start executeJob_def split: option.splits)
  note i = loop_invariant [OF loop cp(2)]
  have st: "st = Stopped" and rep: "rep = buildReport cpe" and s': "s' = (save_checkpoint cpe s0)\<lparr>rv_db := de\<rparr>"
    using assms got loop i by (cases st; simp add: start executeJob_def Let_def)+
  have comp: "rc_status cpe = Repair_completed" using i st by simp
  obtain r s1 where "executeJob fuel db clock (''repair_'' @ uuid) m s0 = Some (Inr r, s1)" "comes_to fuel db clock (''repair_'' @ uuid) s1 cpe s'"
    using execute_limited [OF loop [unfolded st] got cp(1) comp] s' by metis
  moreover from this have "resume_all fuel db clock (''repair_'' @ uuid) ms s1 = Some (Inr rep, s')"
    using resume_all_same comp rep by metis
  moreover have "rv_db s0 = rv_db s" by (simp add: s0_def save_checkpoint_def)
  ultimately show ?thesis using i comp by (auto simp: start rep s' buildReport_def counts_ok_def)
qed

text \<open>The rows behind a cursor.\<close>

definition after_cursor :: "string option \<Rightarrow> repair_row \<Rightarrow> bool" where
  "after_cursor c r = (case c of None \<Rightarrow> True | Some x \<Rightarrow> str_lt x (fst r))"

text \<open>A database of two stale jobs and an invoice that is paid without a time, which records its statements.\<close>

definition example_rows :: "repair_phase \<Rightarrow> repair_row list" where
  "example_rows ph =
     (case ph of
        Inconsistent_invoices \<Rightarrow> [(''i1'', Invoice_row \<lparr>iw_status = ''PAID'', iw_paid_at = None, iw_payment_tx_hash = None, iw_version = Some 0,
          iw_created_at = Some 5, iw_tx_processed_at = Some 7, iw_tx_hash = Some ''h''\<rparr>)]
      | Inconsistent_jobs \<Rightarrow> map (\<lambda>j. (j, Job_row \<lparr>jw_status = ''running'', jw_locked_until = Some 3, jw_completed_at = None, jw_updated_at = None,
          jw_created_at = None\<rparr>)) [''j1'', ''j2'']
      | _ \<Rightarrow> [])"

definition example_db :: "repair_statement list repair_db" where
  "example_db = \<lparr>rq_rows = \<lambda>ph c n d. Inr (take (nat n) (filter (after_cursor c) (example_rows ph))), rq_execute = \<lambda>st d. (Inr (), d @ [st])\<rparr>"

text \<open>Witness of C25: the job of three rows in batches of one, paused after every batch or two.\<close>

theorem repair_resumable_witness:
  "\<exists>rep s' r s1. startRepairJob 20 example_db (\<lambda>_. 9) 1 \<lparr>ro_batchSize = None, ro_dryRun = None, ro_phases = None, ro_maxBatches = None\<rparr> ''u''
      \<lparr>rv_checkpoints = [], rv_db = []\<rparr> = Some (Inr rep, s') \<and>
    startRepairJob 20 example_db (\<lambda>_. 9) 1 \<lparr>ro_batchSize = None, ro_dryRun = None, ro_phases = None, ro_maxBatches = Some 1\<rparr> ''u''
      \<lparr>rv_checkpoints = [], rv_db = []\<rparr> = Some (Inr r, s1) \<and>
    resume_all 20 example_db (\<lambda>_. 9) ''repair_u'' [Some 1, Some 2] s1 = Some (Inr rep, s') \<and> rp_status rep = Repair_completed"
proof -
  let ?o = "\<lparr>ro_batchSize = None, ro_dryRun = None, ro_phases = None, ro_maxBatches = None\<rparr>"
  let ?s = "\<lparr>rv_checkpoints = [], rv_db = []\<rparr>"
  have "case startRepairJob 20 example_db (\<lambda>_. 9) 1 ?o ''u'' ?s of Some (Inr _, _) \<Rightarrow> True | _ \<Rightarrow> False" by code_simp
  then obtain rep s' where run: "startRepairJob 20 example_db (\<lambda>_. 9) 1 (?o\<lparr>ro_maxBatches := None\<rparr>) ''u'' ?s = Some (Inr rep, s')"
    by (auto split: option.splits prod.splits sum.splits)
  show ?thesis using repair_resumable [OF run, of "Some 1" "[Some 1, Some 2]"] run by auto
qed

subsection \<open>A preview over a keyset query\<close>

text \<open>
  The query the service documents: the rows of a phase behind the cursor, in the order of their identifiers, at most as
  many as the batch size.
\<close>

definition keyset_query :: "'d repair_db \<Rightarrow> 'd \<Rightarrow> (repair_phase \<Rightarrow> repair_row list) \<Rightarrow> bool" where
  "keyset_query db d bad \<longleftrightarrow> (\<forall>ph. sorted_wrt (\<lambda>a b. str_lt (fst a) (fst b)) (bad ph)) \<and>
     (\<forall>ph c n. rq_rows db ph c n d = Inr (take (nat n) (filter (after_cursor c) (bad ph))))"

definition shown :: "(string \<Rightarrow> int) \<Rightarrow> repair_phase \<Rightarrow> repair_row list \<Rightarrow> repair_action list" where
  "shown clock ph rows = map (\<lambda>r. \<lparr>ra_phase = ph, ra_recordId = fst r, ra_action = join ''+'' (map fst (row_actions clock r))\<rparr>)
     (filter (\<lambda>r. row_actions clock r \<noteq> []) rows)"

definition add_rows :: "(string \<Rightarrow> int) \<Rightarrow> repair_phase \<Rightarrow> repair_row list \<Rightarrow> repair_checkpoint \<Rightarrow> repair_checkpoint" where
  "add_rows clock ph rows cp = cp\<lparr>rc_scanned := rc_scanned cp + length rows, rc_repaired := rc_repaired cp + length (shown clock ph rows),
     rc_skipped := rc_skipped cp + (length rows - length (shown clock ph rows)), rc_actionLog := rc_actionLog cp @ shown clock ph rows\<rparr>"

lemma length_shown: "length (shown clock ph rows) \<le> length rows"
  by (simp add: shown_def)

lemma shown_append: "shown clock ph (xs @ ys) = shown clock ph xs @ shown clock ph ys"
  by (simp add: shown_def)

lemma add_rows_append: "add_rows clock ph ys (add_rows clock ph xs cp) = add_rows clock ph (xs @ ys) cp"
  using length_shown [of clock ph xs] length_shown [of clock ph ys] by (simp add: add_rows_def shown_append)

lemma add_rows_cursor: "add_rows clock ph ys (cp\<lparr>rc_cursor := c\<rparr>) = (add_rows clock ph ys cp)\<lparr>rc_cursor := c\<rparr>"
  by (simp add: add_rows_def)

lemma dry_fold:
  "foldl (repair_row_step db clock True ph) (b, d) rows =
    (b\<lparr>bc_repaired := bc_repaired b + length (shown clock ph rows), bc_skipped := bc_skipped b + (length rows - length (shown clock ph rows)),
       bc_actions := bc_actions b @ shown clock ph rows\<rparr>, d)"
proof (induction rows arbitrary: b)
  case (Cons r rows)
  have sc: "shown clock ph (r # rows) = (if row_actions clock r = [] then shown clock ph rows
      else \<lparr>ra_phase = ph, ra_recordId = fst r, ra_action = join ''+'' (map fst (row_actions clock r))\<rparr> # shown clock ph rows)"
    by (simp add: shown_def)
  have le: "length (shown clock ph rows) \<le> x + length rows" for x using length_shown [of clock ph rows] by simp
  show ?case using Cons length_shown [of clock ph rows] by (simp add: repair_row_step_def Let_def sc Suc_diff_le [OF le])
qed (simp add: shown_def)

lemma dry_process:
  assumes "keyset_query db d bad" and "rows = take (nat n) (filter (after_cursor c) (bad ph))"
  obtains r where "processBatch db clock ph c n True d = (Inr r, d)" and "add_batch r cp = add_rows clock ph rows cp"
    and "rb_nextCursor r = (if rows = [] then None else Some (fst (last rows)))" and "rb_hasMore r \<longleftrightarrow> int (length rows) = n"
proof -
  have "rq_rows db ph c n d = Inr rows" using assms by (simp add: keyset_query_def)
  then show ?thesis using that by (simp add: processBatch_def dry_fold Let_def add_batch_def add_rows_def)
qed

lemma keyset_rest:
  assumes "sorted_wrt (\<lambda>a b. str_lt (fst a) (fst b)) rows" and "i < length (filter (after_cursor c) rows)"
  shows "filter (after_cursor (Some (fst (filter (after_cursor c) rows ! i)))) rows = drop (Suc i) (filter (after_cursor c) rows)"
proof -
  let ?R = "filter (after_cursor c) rows" let ?l = "?R ! i"
  have srt: "sorted_wrt (\<lambda>a b. str_lt (fst a) (fst b)) ?R" by (rule sorted_wrt_filter [OF assms(1)])
  have "after_cursor c ?l" using assms(2) nth_mem [OF assms(2)] by simp
  then have "after_cursor c r" if "after_cursor (Some (fst ?l)) r" for r
    using that str_lt_trans [of _ "fst ?l" "fst r"] by (cases c) (simp_all add: after_cursor_def)
  then have "filter (after_cursor (Some (fst ?l))) rows = filter (\<lambda>r. after_cursor c r \<and> after_cursor (Some (fst ?l)) r) rows"
    by (intro filter_cong refl) blast
  also have "\<dots> = filter (after_cursor (Some (fst ?l))) ?R" by (simp only: filter_filter)
  also have "\<dots> = drop (Suc i) ?R"
  proof -
    have split: "?R = take i ?R @ ?l # drop (Suc i) ?R" by (rule id_take_nth_drop [OF assms(2)])
    have low: "\<not> str_lt (fst ?l) (fst r)" if "r \<in> set (take i ?R)" for r
      using srt that str_lt_asym unfolding split [symmetric] by (subst (asm) split) (auto simp: sorted_wrt_append)
    have high: "str_lt (fst ?l) (fst r)" if "r \<in> set (drop (Suc i) ?R)" for r
      using srt that by (subst (asm) split) (auto simp: sorted_wrt_append)
    have "filter (after_cursor (Some (fst ?l))) (take i ?R @ ?l # drop (Suc i) ?R) = drop (Suc i) ?R"
      using low high by (simp add: after_cursor_def filter_empty_conv filter_id_conv)
    then show ?thesis using split by metis
  qed
  finally show ?thesis .
qed

text \<open>The turns of one phase.\<close>

lemma phase_done:
  assumes q: "keyset_query db d bad"
  shows "0 < rc_batchSize cp \<Longrightarrow> rc_dryRun cp \<Longrightarrow> index_of ph (rc_phases cp) = Some i \<Longrightarrow> rc_phase cp = ph \<Longrightarrow>
   \<exists>j c. j \<le> length (filter (after_cursor (rc_cursor cp)) (bad ph)) + 1 \<and>
    (\<forall>m. repair_loop (j + m) db clock None 0 cp d =
      (let cp1 = add_rows clock ph (filter (after_cursor (rc_cursor cp)) (bad ph)) cp
       in if i + 1 < length (rc_phases cp) then repair_loop m db clock None 0 (cp1\<lparr>rc_phase := rc_phases cp ! (i + 1), rc_cursor := None\<rparr>) d
          else Some ((Stopped, cp1\<lparr>rc_cursor := c, rc_status := Repair_completed\<rparr>), d)))"
proof (induction "length (filter (after_cursor (rc_cursor cp)) (bad ph))" arbitrary: cp rule: less_induct)
  case less
  define R where "R = filter (after_cursor (rc_cursor cp)) (bad ph)"
  define rows where "rows = take (nat (rc_batchSize cp)) R"
  note prems = less.prems
  obtain r where r: "processBatch db clock (rc_phase cp) (rc_cursor cp) (rc_batchSize cp) True d = (Inr r, d)" "add_batch r cp = add_rows clock ph rows cp"
    "rb_nextCursor r = (if rows = [] then None else Some (fst (last rows)))" "rb_hasMore r \<longleftrightarrow> int (length rows) = rc_batchSize cp"
    by (rule dry_process [OF q, of rows "rc_batchSize cp" "rc_cursor cp" "rc_phase cp" clock cp]) (auto simp: rows_def R_def prems(4))
  show ?case
  proof (cases "int (length R) < rc_batchSize cp")
    case True
    then have rows: "rows = R" by (simp add: rows_def)
    then have no: "\<not> rb_hasMore r" using True r(4) by simp
    have "repair_loop (1 + m) db clock None 0 cp d =
      (if i + 1 < length (rc_phases cp) then repair_loop m db clock None 0 ((add_rows clock ph R cp)\<lparr>rc_phase := rc_phases cp ! (i + 1), rc_cursor := None\<rparr>) d
       else Some ((Stopped, (add_rows clock ph R cp)\<lparr>rc_status := Repair_completed\<rparr>), d))" for m
      using r(1,2) no prems(2,3,4) rows loop_None [of m db clock 1] by (simp add: repair_turn_def Let_def)
    moreover have "(add_rows clock ph R cp)\<lparr>rc_status := Repair_completed\<rparr> = (add_rows clock ph R cp)\<lparr>rc_cursor := rc_cursor cp, rc_status := Repair_completed\<rparr>"
      by (simp add: add_rows_def)
    ultimately show ?thesis unfolding R_def [symmetric] Let_def by (intro exI [of _ 1] exI [of _ "rc_cursor cp"]) auto
  next
    case False
    define b where "b = nat (rc_batchSize cp) - 1"
    have b: "nat (rc_batchSize cp) = Suc b" "Suc b \<le> length R" using False prems(1) by (simp_all add: b_def)
    then have rows: "rows = take (Suc b) R" "length rows = Suc b" "last rows = R ! b" "rows \<noteq> []"
      by (auto simp: rows_def take_Suc_conv_app_nth)
    define cp1 where "cp1 = (add_rows clock ph rows cp)\<lparr>rc_cursor := Some (fst (R ! b))\<rparr>"
    have R1: "filter (after_cursor (rc_cursor cp1)) (bad ph) = drop (Suc b) R"
      using keyset_rest [of "bad ph" b "rc_cursor cp"] q b(2) by (simp add: keyset_query_def cp1_def R_def)
    have keep: "rc_batchSize cp1 = rc_batchSize cp" "rc_dryRun cp1 = rc_dryRun cp" "rc_phases cp1 = rc_phases cp" "rc_phase cp1 = rc_phase cp"
      by (simp_all add: cp1_def add_rows_def)
    have pr: "0 < rc_batchSize cp1" "rc_dryRun cp1" "index_of ph (rc_phases cp1) = Some i" "rc_phase cp1 = ph" using keep prems by simp_all
    have less1: "length (filter (after_cursor (rc_cursor cp1)) (bad ph)) < length (filter (after_cursor (rc_cursor cp)) (bad ph))"
      unfolding R1 R_def [symmetric] using b(2) by simp
    from less.hyps [OF less1 pr, unfolded R1 keep(3)] obtain j c where j: "j \<le> length (drop (Suc b) R) + 1"
      and run: "\<And>m. repair_loop (j + m) db clock None 0 cp1 d =
        (let cp2 = add_rows clock ph (drop (Suc b) R) cp1
         in if i + 1 < length (rc_phases cp) then repair_loop m db clock None 0 (cp2\<lparr>rc_phase := rc_phases cp ! (i + 1), rc_cursor := None\<rparr>) d
            else Some ((Stopped, cp2\<lparr>rc_cursor := c, rc_status := Repair_completed\<rparr>), d))"
      by blast
    have "rb_hasMore r" using r(4) rows(2) b(1) prems(1) by simp
    then have turn: "repair_loop (Suc (j + m)) db clock None 0 cp d = repair_loop (j + m) db clock None 0 cp1 d" for m
      using r rows prems(2,3,4) loop_None [of "j + m" db clock 1] by (simp add: repair_turn_def Let_def cp1_def)
    have sum: "add_rows clock ph (drop (Suc b) R) cp1 = (add_rows clock ph R cp)\<lparr>rc_cursor := Some (fst (R ! b))\<rparr>"
      by (simp add: cp1_def add_rows_cursor add_rows_append rows(1))
    show ?thesis
      unfolding R_def [symmetric] using j b(2) run turn sum
      by (intro exI [of _ "Suc j"] exI [of _ c]) (auto simp: Let_def)
  qed
qed

lemma index_of_append: "ph \<notin> set pre \<Longrightarrow> index_of ph (pre @ ph # post) = Some (length pre)"
  by (induction pre) auto

lemma phases_run:
  assumes q: "keyset_query db d bad"
  shows "rc_phases cp = pre @ ph # post \<Longrightarrow> distinct (rc_phases cp) \<Longrightarrow> rc_phase cp = ph \<Longrightarrow> rc_cursor cp = None \<Longrightarrow> 0 < rc_batchSize cp \<Longrightarrow> rc_dryRun cp \<Longrightarrow>
    (\<Sum>p\<leftarrow>ph # post. length (bad p) + 1) \<le> fuel \<Longrightarrow>
    \<exists>cpe. repair_loop fuel db clock None 0 cp d = Some ((Stopped, cpe), d) \<and> rc_scanned cpe = rc_scanned cp + (\<Sum>p\<leftarrow>ph # post. length (bad p)) \<and>
      rc_actionLog cpe = rc_actionLog cp @ concat (map (\<lambda>p. shown clock p (bad p)) (ph # post)) \<and> rc_failed cpe = rc_failed cp \<and> rc_errors cpe = rc_errors cp"
proof (induction post arbitrary: pre ph cp fuel)
  case Nil
  have ix: "index_of ph (rc_phases cp) = Some (length pre)" using Nil.prems(1,2) by (simp add: index_of_append)
  have all_rows: "filter (after_cursor (rc_cursor cp)) (bad ph) = bad ph" by (simp add: Nil.prems(4) after_cursor_def)
  from phase_done [OF q Nil.prems(5,6) ix Nil.prems(3), of clock, unfolded all_rows] obtain j c where j: "j \<le> length (bad ph) + 1"
    and run: "\<And>m. repair_loop (j + m) db clock None 0 cp d = Some ((Stopped, (add_rows clock ph (bad ph) cp)\<lparr>rc_cursor := c, rc_status := Repair_completed\<rparr>), d)"
    using Nil.prems(1) by auto
  have "j + (fuel - j) = fuel" using j Nil.prems(7) by simp
  then have "repair_loop fuel db clock None 0 cp d = Some ((Stopped, (add_rows clock ph (bad ph) cp)\<lparr>rc_cursor := c, rc_status := Repair_completed\<rparr>), d)"
    using run [of "fuel - j"] by simp
  then show ?case by (simp add: add_rows_def)
next
  case (Cons p2 post)
  have ix: "index_of ph (rc_phases cp) = Some (length pre)" using Cons.prems(1,2) by (simp add: index_of_append)
  have all_rows: "filter (after_cursor (rc_cursor cp)) (bad ph) = bad ph" by (simp add: Cons.prems(4) after_cursor_def)
  define cp1 where "cp1 = (add_rows clock ph (bad ph) cp)\<lparr>rc_phase := p2, rc_cursor := None\<rparr>"
  have nxt: "rc_phases cp ! (length pre + 1) = p2" "length pre + 1 < length (rc_phases cp)" using Cons.prems(1) by (simp_all add: nth_append)
  from phase_done [OF q Cons.prems(5,6) ix Cons.prems(3), of clock, unfolded all_rows nxt(1)] nxt(2) obtain j where j: "j \<le> length (bad ph) + 1"
    and run: "\<And>m. repair_loop (j + m) db clock None 0 cp d = repair_loop m db clock None 0 cp1 d"
    unfolding Let_def cp1_def by auto
  have "(\<Sum>p\<leftarrow>p2 # post. length (bad p) + 1) \<le> fuel - j" using Cons.prems(7) j by simp
  moreover have "rc_phases cp1 = (pre @ [ph]) @ p2 # post" "distinct (rc_phases cp1)" "rc_phase cp1 = p2" "rc_cursor cp1 = None"
    "0 < rc_batchSize cp1" "rc_dryRun cp1" using Cons.prems by (simp_all add: cp1_def add_rows_def)
  ultimately obtain cpe where e: "repair_loop (fuel - j) db clock None 0 cp1 d = Some ((Stopped, cpe), d)"
    "rc_scanned cpe = rc_scanned cp1 + (\<Sum>p\<leftarrow>p2 # post. length (bad p))"
    "rc_actionLog cpe = rc_actionLog cp1 @ concat (map (\<lambda>p. shown clock p (bad p)) (p2 # post))" "rc_failed cpe = rc_failed cp1" "rc_errors cpe = rc_errors cp1"
    using Cons.IH [of cp1 "pre @ [ph]" p2 "fuel - j"] by blast
  have "repair_loop fuel db clock None 0 cp d = Some ((Stopped, cpe), d)" using run [of "fuel - j"] e(1) Cons.prems(7) j by simp
  then show ?case using e(2-) by (simp add: cp1_def add_rows_def)
qed

text \<open>
  C30: A dry run over distinct phases ends when its queries are keyset queries, after at most one
  turn for every row and one for every phase. It scans every row of every phase exactly once, whatever the size of
  its batches, and its log shows, phase by phase and in the order of the identifiers, what would be done.
\<close>

theorem repair_preview_ends:
  assumes "keyset_query db (rv_db s) bad" and "ro_dryRun opts = Some True" and "0 < bs"
    and phases_def: "phases = rc_phases (new_checkpoint bs opts uuid)" and "distinct phases" and "(\<Sum>p\<leftarrow>phases. length (bad p) + 1) \<le> fuel"
  shows "\<exists>rep s' cp. startRepairJob fuel db clock bs (opts\<lparr>ro_maxBatches := None\<rparr>) uuid s = Some (Inr rep, s') \<and>
    mget (rv_checkpoints s') (''repair_'' @ uuid) = Some cp \<and> rep = buildReport cp \<and> rc_scanned cp = (\<Sum>p\<leftarrow>phases. length (bad p)) \<and>
    rc_actionLog cp = concat (map (\<lambda>p. shown clock p (bad p)) phases) \<and> rc_failed cp = 0"
proof -
  define cp where "cp = new_checkpoint bs opts uuid"
  let ?run = "cp\<lparr>rc_status := Repair_running\<rparr>"
  obtain ph post where ps: "phases = ph # post" "rc_phase cp = ph"
    by (cases phases) (auto simp: phases_def cp_def new_checkpoint_def Let_def REPAIR_PHASE_ORDER_def split: if_splits option.splits)
  have phs: "rc_phases cp = [] @ ph # post" using ps(1) by (simp add: phases_def cp_def)
  have cp: "rc_cursor cp = None" "rc_dryRun cp" "0 < rc_batchSize cp" "rc_scanned cp = 0" "rc_actionLog cp = []" "rc_failed cp = 0"
    using assms(2,3) by (auto simp: cp_def new_checkpoint_def Let_def split: option.split)
  obtain cpe where e: "repair_loop fuel db clock None 0 ?run (rv_db s) = Some ((Stopped, cpe), rv_db s)"
    "rc_scanned cpe = (\<Sum>p\<leftarrow>phases. length (bad p))" "rc_actionLog cpe = concat (map (\<lambda>p. shown clock p (bad p)) phases)" "rc_failed cpe = 0"
    using phases_run [OF assms(1), of ?run "[]" ph post fuel clock] cp phs ps assms(5,6) by auto
  have ide: "rc_id cpe = ''repair_'' @ uuid" using loop_id [OF e(1)] new_counts(2) [of bs opts uuid] by (simp add: cp_def)
  have "startRepairJob fuel db clock bs (opts\<lparr>ro_maxBatches := None\<rparr>) uuid s =
      Some (Inr (buildReport cpe), (save_checkpoint cpe (save_checkpoint cp s))\<lparr>rv_db := rv_db s\<rparr>)"
    using e(1) new_counts(2) [of bs opts uuid] by (simp add: startRepairJob_def Let_def new_counts(3) executeJob_def save_checkpoint_def flip: cp_def)
  moreover have "mget (rv_checkpoints ((save_checkpoint cpe (save_checkpoint cp s))\<lparr>rv_db := rv_db s\<rparr>)) (''repair_'' @ uuid) = Some cpe"
    using ide by (simp add: save_checkpoint_def)
  ultimately show ?thesis using e(2-) by blast
qed

text \<open>Witness of C30: the preview of the three rows, in batches of two.\<close>

theorem repair_preview_ends_witness:
  "\<exists>rep s' cp. startRepairJob 10 example_db (\<lambda>_. 9) 2 \<lparr>ro_batchSize = None, ro_dryRun = Some True, ro_phases = None, ro_maxBatches = None\<rparr> ''u''
      \<lparr>rv_checkpoints = [], rv_db = []\<rparr> = Some (Inr rep, s') \<and>
    mget (rv_checkpoints s') ''repair_u'' = Some cp \<and> rep = buildReport cp \<and> rc_scanned cp = 3"
proof -
  let ?o = "\<lparr>ro_batchSize = None, ro_dryRun = Some True, ro_phases = None, ro_maxBatches = None\<rparr>"
  have q: "keyset_query example_db (rv_db \<lparr>rv_checkpoints = [], rv_db = []\<rparr>) example_rows"
    by (auto simp: keyset_query_def example_db_def example_rows_def split: repair_phase.split)
  have ps: "REPAIR_PHASE_ORDER = rc_phases (new_checkpoint 2 ?o ''u'')" by (simp add: new_checkpoint_def Let_def)
  show ?thesis using repair_preview_ends [OF q _ _ ps, of 10 "\<lambda>_. 9"]
    by (auto simp: REPAIR_PHASE_ORDER_def example_rows_def)
qed

subsection \<open>Phases listed twice\<close>

text \<open>The position of a phase is looked up by its name, so after a phase that is listed twice the job goes back: it never ends.\<close>

lemma duplicate_phase_never_ends:
  assumes "\<And>ph c n d. rq_rows db ph c n d = Inr []"
  shows "rc_phases cp = [ph, ph] \<Longrightarrow> rc_phase cp = ph \<Longrightarrow> 0 < rc_batchSize cp \<Longrightarrow> repair_loop fuel db clock None k cp d = None"
proof (induction fuel arbitrary: k cp d)
  case (Suc fuel)
  obtain r where r: "processBatch db clock ph (rc_cursor cp) (rc_batchSize cp) (rc_dryRun cp) d = (Inr r, d)" "\<not> rb_hasMore r"
    using Suc.prems(3) by (simp add: processBatch_def assms)
  then have "repair_turn db clock None k cp d = ((Go_on, (add_batch r cp)\<lparr>rc_phase := ph, rc_cursor := None\<rparr>), d)"
    using Suc.prems by (simp add: repair_turn_def Let_def)
  then show ?case using Suc.IH [of "(add_batch r cp)\<lparr>rc_phase := ph, rc_cursor := None\<rparr>"] Suc.prems by (simp add: add_batch_def Let_def)
qed simp

end
