(* ===== verification/Notifications.thy ===== *)
theory Notifications
  imports Payment_Verification Invoice_Model Stable_Cursor Js_Date
begin

text \<open>
  Notifications and their preferences, \<open>backend/src/notifications/notification-service.ts\<close> and
  \<open>notification-preference.ts\<close>. The identifiers a call generates and the times it reads are its arguments, the
  text of a number is a parameter. The objects of the store are shared with its callers, which only
  mark them as read through the service: the store keeps their values. The times at which preferences
  were updated are left out.
\<close>

subsection \<open>Preferences\<close>

datatype notification_channel = In_app | Email_channel

datatype notification_category = Invoice_lifecycle | Payment_recovery | Security_category | Payment_reminder | Marketing_category

datatype notification_urgency = Mandatory | Optional

record channel_prefs =
  ch_in_app :: bool
  ch_email :: bool

record category_prefs =
  ct_invoice_lifecycle :: bool
  ct_payment_recovery :: bool
  ct_security_alert :: bool
  ct_payment_reminder :: bool
  ct_marketing_digest :: bool

record recipient_prefs =
  np_recipient :: string
  np_channels :: channel_prefs
  np_categories :: category_prefs

fun category_pref :: "category_prefs \<Rightarrow> notification_category \<Rightarrow> bool" where
  "category_pref p Invoice_lifecycle = ct_invoice_lifecycle p"
| "category_pref p Payment_recovery = ct_payment_recovery p"
| "category_pref p Security_category = ct_security_alert p"
| "category_pref p Payment_reminder = ct_payment_reminder p"
| "category_pref p Marketing_category = ct_marketing_digest p"

definition MANDATORY_NOTIFICATION_TYPES :: "string list" where
  "MANDATORY_NOTIFICATION_TYPES =
     [''invoice.paid'', ''invoice.expired'', ''invoice.cancelled'', ''payment.rejected'', ''security.alert'', ''recovery.failure'']"

definition getNotificationUrgency :: "string \<Rightarrow> notification_urgency" where
  "getNotificationUrgency type = (if type \<in> set MANDATORY_NOTIFICATION_TYPES then Mandatory else Optional)"

definition getNotificationCategory :: "string \<Rightarrow> notification_category" where
  "getNotificationCategory type =
     (if type \<in> {''invoice.paid'', ''invoice.expired'', ''invoice.cancelled''} then Invoice_lifecycle
      else if type \<in> {''payment.rejected'', ''recovery.failure''} then Payment_recovery
      else if type = ''security.alert'' then Security_category
      else if type = ''invoice.reminder'' then Payment_reminder
      else Marketing_category)"

text \<open>The pattern of a Stellar public key, of 56 characters.\<close>

definition stellar_key_char :: "char \<Rightarrow> bool" where
  "stellar_key_char c = (let n = of_char c :: nat in (65 \<le> n \<and> n \<le> 90) \<or> (50 \<le> n \<and> n \<le> 55))"

definition stellarPublicKeySchema :: "string \<Rightarrow> bool" where
  "stellarPublicKeySchema s = (length s = 56 \<and> hd s = CHR ''G'' \<and> list_all stellar_key_char (tl s))"

datatype notification_error = InvalidRecipient | Blank_field string

definition createDefaultPreferences :: "string \<Rightarrow> (notification_error, recipient_prefs) result" where
  "createDefaultPreferences recipient =
     (if \<not> stellarPublicKeySchema recipient then Inl InvalidRecipient
      else Inr \<lparr>np_recipient = recipient, np_channels = \<lparr>ch_in_app = True, ch_email = True\<rparr>,
        np_categories = \<lparr>ct_invoice_lifecycle = True, ct_payment_recovery = True, ct_security_alert = True, ct_payment_reminder = True,
          ct_marketing_digest = False\<rparr>\<rparr>)"

datatype routing_decision = Delivered | Suppressed

datatype routing_reason = Mandatory_override | Preference_accepted | Suppressed_by_preference

datatype fact_value = Fact_text string | Fact_number jsnum

record routing_audit =
  au_id :: string
  au_notificationId :: string
  au_recipient :: string
  au_type :: string
  au_urgency :: notification_urgency
  au_decision :: routing_decision
  au_reason :: routing_reason
  au_activeChannels :: "notification_channel list"
  au_evaluatedAt :: int
  au_metadata :: "(string, fact_value) jsmap"

text \<open>A patch: for every channel and category the value it sets, if any.\<close>

record prefs_patch =
  pp_in_app :: "bool option"
  pp_email :: "bool option"
  pp_invoice_lifecycle :: "bool option"
  pp_payment_recovery :: "bool option"
  pp_security_alert :: "bool option"
  pp_payment_reminder :: "bool option"
  pp_marketing_digest :: "bool option"

record preference_store =
  mp_preferences :: "(string, recipient_prefs) jsmap"
  mp_auditLog :: "(string, routing_audit list) jsmap"

definition mp_getPreferences :: "string \<Rightarrow> preference_store \<Rightarrow> (notification_error, recipient_prefs) result \<times> preference_store" where
  "mp_getPreferences recipient s =
     (case mget (mp_preferences s) recipient of
        Some p \<Rightarrow> (Inr p, s)
      | None \<Rightarrow>
          (case createDefaultPreferences recipient of
             Inl e \<Rightarrow> (Inl e, s)
           | Inr d \<Rightarrow> (Inr d, s\<lparr>mp_preferences := mset_kv recipient d (mp_preferences s)\<rparr>)))"

definition patched :: "bool option \<Rightarrow> bool \<Rightarrow> bool" where
  "patched p b = (case p of Some v \<Rightarrow> v | None \<Rightarrow> b)"

definition mp_savePreferences ::
  "string \<Rightarrow> prefs_patch \<Rightarrow> preference_store \<Rightarrow> (notification_error, recipient_prefs) result \<times> preference_store" where
  "mp_savePreferences recipient patch s =
     (case mp_getPreferences recipient s of
        (Inl e, s1) \<Rightarrow> (Inl e, s1)
      | (Inr current, s1) \<Rightarrow>
          let ch = np_channels current; ct = np_categories current;
              updated = \<lparr>np_recipient = recipient,
                np_channels = \<lparr>ch_in_app = patched (pp_in_app patch) (ch_in_app ch), ch_email = patched (pp_email patch) (ch_email ch)\<rparr>,
                np_categories = \<lparr>ct_invoice_lifecycle = patched (pp_invoice_lifecycle patch) (ct_invoice_lifecycle ct),
                  ct_payment_recovery = patched (pp_payment_recovery patch) (ct_payment_recovery ct),
                  ct_security_alert = patched (pp_security_alert patch) (ct_security_alert ct),
                  ct_payment_reminder = patched (pp_payment_reminder patch) (ct_payment_reminder ct),
                  ct_marketing_digest = patched (pp_marketing_digest patch) (ct_marketing_digest ct)\<rparr>\<rparr>
          in (Inr updated, s1\<lparr>mp_preferences := mset_kv recipient updated (mp_preferences s1)\<rparr>))"

definition mp_getAuditRecords :: "string \<Rightarrow> preference_store \<Rightarrow> routing_audit list" where
  "mp_getAuditRecords recipient s = (case mget (mp_auditLog s) recipient of Some l \<Rightarrow> l | None \<Rightarrow> [])"

definition mp_recordAudit :: "routing_audit \<Rightarrow> preference_store \<Rightarrow> preference_store" where
  "mp_recordAudit r s = s\<lparr>mp_auditLog := mset_kv (au_recipient r) (mp_getAuditRecords (au_recipient r) s @ [r]) (mp_auditLog s)\<rparr>"

definition mp_clear :: "preference_store \<Rightarrow> preference_store" where
  "mp_clear s = s\<lparr>mp_preferences := [], mp_auditLog := []\<rparr>"

subsection \<open>Routing\<close>

record routing_result =
  re_deliver :: bool
  re_urgency :: notification_urgency
  re_decision :: routing_decision
  re_reason :: routing_reason
  re_activeChannels :: "notification_channel list"

definition evaluateNotificationRouting :: "string \<Rightarrow> recipient_prefs \<Rightarrow> routing_result" where
  "evaluateNotificationRouting type prefs =
     (let urgency = getNotificationUrgency type; category = getNotificationCategory type;
          ch = np_channels prefs; allowed = category_pref (np_categories prefs) category
      in if urgency = Mandatory
         then \<lparr>re_deliver = True, re_urgency = urgency, re_decision = Delivered,
           re_reason = (if \<not> allowed \<or> \<not> ch_in_app ch then Mandatory_override else Preference_accepted),
           re_activeChannels = In_app # (if ch_email ch then [Email_channel] else [])\<rparr>
         else if \<not> allowed
         then \<lparr>re_deliver = False, re_urgency = urgency, re_decision = Suppressed, re_reason = Suppressed_by_preference, re_activeChannels = []\<rparr>
         else
           let active = (if ch_in_app ch then [In_app] else []) @ (if ch_email ch then [Email_channel] else [])
           in if active = []
              then \<lparr>re_deliver = False, re_urgency = urgency, re_decision = Suppressed, re_reason = Suppressed_by_preference, re_activeChannels = []\<rparr>
              else \<lparr>re_deliver = True, re_urgency = urgency, re_decision = Delivered, re_reason = Preference_accepted, re_activeChannels = active\<rparr>)"

subsection \<open>The store\<close>

datatype notification_type =
  Invoice_paid | Invoice_expired | Invoice_cancelled | Payment_rejected | Security_alert | Invoice_reminder | Marketing_digest

fun type_text :: "notification_type \<Rightarrow> string" where
  "type_text Invoice_paid = ''invoice.paid''"
| "type_text Invoice_expired = ''invoice.expired''"
| "type_text Invoice_cancelled = ''invoice.cancelled''"
| "type_text Payment_rejected = ''payment.rejected''"
| "type_text Security_alert = ''security.alert''"
| "type_text Invoice_reminder = ''invoice.reminder''"
| "type_text Marketing_digest = ''marketing.digest''"

datatype notification_severity = Sev_info | Sev_success | Sev_warning | Sev_critical

record notification =
  nt_id :: string
  nt_recipient :: string
  nt_type :: notification_type
  nt_severity :: notification_severity
  nt_title :: string
  nt_message :: string
  nt_deepLink :: string
  nt_dedupKey :: string
  nt_entityId :: string
  nt_data :: "(string, fact_value) jsmap"
  nt_createdAt :: int
  nt_readAt :: "int option"

text \<open>
  The fields that must not be blank, in order. Types, severities, data and times are of their types here, as the compiler
  checks for the only caller.
\<close>

definition required_fields :: "notification \<Rightarrow> (string \<times> string) list" where
  "required_fields n = [(''id'', nt_id n), (''recipient'', nt_recipient n), (''title'', nt_title n), (''message'', nt_message n),
     (''deepLink'', nt_deepLink n), (''dedupKey'', nt_dedupKey n), (''entityId'', nt_entityId n)]"

definition validateNotification :: "notification \<Rightarrow> notification_error option" where
  "validateNotification n = map_option (\<lambda>f. Blank_field (fst f)) (List.find (\<lambda>f. js_trim (snd f) = []) (required_fields n))"

record notification_store =
  ns_byId :: "(string, notification) jsmap"
  ns_byDedup :: "(string, string) jsmap"
  ns_byRecipient :: "(string, string list) jsmap"

definition recipient_ids :: "string \<Rightarrow> notification_store \<Rightarrow> string list" where
  "recipient_ids r s = (case mget (ns_byRecipient s) r of Some l \<Rightarrow> l | None \<Rightarrow> [])"

definition ns_insert :: "notification \<Rightarrow> notification_store \<Rightarrow> (notification_error, notification \<times> bool) result \<times> notification_store" where
  "ns_insert n s =
     (case validateNotification n of
        Some e \<Rightarrow> (Inl e, s)
      | None \<Rightarrow>
          if truthy (mget (ns_byDedup s) (nt_dedupKey n))
          then (Inr (the (mget (ns_byId s) (the (mget (ns_byDedup s) (nt_dedupKey n)))), False), s)
          else (Inr (n, True),
            s\<lparr>ns_byId := mset_kv (nt_id n) n (ns_byId s), ns_byDedup := mset_kv (nt_dedupKey n) (nt_id n) (ns_byDedup s),
              ns_byRecipient := mset_kv (nt_recipient n) (recipient_ids (nt_recipient n) s @ [nt_id n]) (ns_byRecipient s)\<rparr>))"

definition listForRecipient :: "string \<Rightarrow> notification_store \<Rightarrow> notification list" where
  "listForRecipient r s = rev (map (\<lambda>i. the (mget (ns_byId s) i)) (recipient_ids r s))"

definition getForRecipient :: "string \<Rightarrow> string \<Rightarrow> notification_store \<Rightarrow> notification option" where
  "getForRecipient r i s = (case mget (ns_byId s) i of Some n \<Rightarrow> if nt_recipient n = r then Some n else None | None \<Rightarrow> None)"

definition ns_clear :: "notification_store \<Rightarrow> notification_store" where
  "ns_clear s = s\<lparr>ns_byId := [], ns_byDedup := [], ns_byRecipient := []\<rparr>"

subsection \<open>Emitting\<close>

record notification_service =
  nf_store :: notification_store
  nf_prefs :: preference_store

record emit_input =
  em_recipient :: string
  em_type :: notification_type
  em_severity :: notification_severity
  em_title :: string
  em_message :: string
  em_entityId :: string
  em_data :: "(string, fact_value) jsmap"
  em_dedupKey :: string

text \<open>What a call reads: two identifiers and the clock, for the audit record and for the notification.\<close>

record emit_reads =
  er_id :: string
  er_auditId :: string
  er_evaluatedAt :: int
  er_createdAt :: int

record emit_result =
  es_notification :: "notification option"
  es_created :: bool
  es_suppressed :: bool
  es_routingReason :: routing_reason

definition upper_hex :: "nat \<Rightarrow> char" where
  "upper_hex n = ''0123456789ABCDEF'' ! n"

definition percent :: "nat \<Rightarrow> string" where
  "percent n = [CHR ''%'', upper_hex (n div 16), upper_hex (n mod 16)]"

definition uri_char :: "char \<Rightarrow> string" where
  "uri_char c =
     (let n = of_char c :: nat
      in if is_alnum c \<or> c \<in> set ''-_.!~*()'' \<or> c = CHR 0x27 then [c]
         else if n < 128 then percent n
         else percent (192 + n div 64) @ percent (128 + n mod 64))"

definition encodeURIComponent :: "string \<Rightarrow> string" where
  "encodeURIComponent s = concat (map uri_char s)"

definition emitted :: "emit_reads \<Rightarrow> emit_input \<Rightarrow> routing_reason \<Rightarrow> notification" where
  "emitted io inp reason =
     \<lparr>nt_id = er_id io, nt_recipient = em_recipient inp, nt_type = em_type inp, nt_severity = em_severity inp, nt_title = em_title inp,
      nt_message = em_message inp, nt_deepLink = ''/invoice/'' @ encodeURIComponent (em_entityId inp), nt_dedupKey = em_dedupKey inp,
      nt_entityId = em_entityId inp,
      nt_data = (if reason = Mandatory_override then mset_kv ''mandatoryOverride'' (Fact_text ''true'') (em_data inp) else em_data inp),
      nt_createdAt = er_createdAt io, nt_readAt = None\<rparr>"

definition emit :: "emit_reads \<Rightarrow> emit_input \<Rightarrow> notification_service \<Rightarrow> (notification_error, emit_result) result \<times> notification_service" where
  "emit io inp s =
     (case mp_getPreferences (em_recipient inp) (nf_prefs s) of
        (Inl e, ps) \<Rightarrow> (Inl e, s\<lparr>nf_prefs := ps\<rparr>)
      | (Inr prefs, ps) \<Rightarrow>
          let ev = evaluateNotificationRouting (type_text (em_type inp)) prefs;
              s1 = s\<lparr>nf_prefs := mp_recordAudit
                \<lparr>au_id = er_auditId io, au_notificationId = er_id io, au_recipient = em_recipient inp, au_type = type_text (em_type inp),
                 au_urgency = re_urgency ev, au_decision = re_decision ev, au_reason = re_reason ev, au_activeChannels = re_activeChannels ev,
                 au_evaluatedAt = er_evaluatedAt io, au_metadata = em_data inp\<rparr> ps\<rparr>
          in if \<not> re_deliver ev
             then (Inr \<lparr>es_notification = None, es_created = False, es_suppressed = True, es_routingReason = re_reason ev\<rparr>, s1)
             else
               (case ns_insert (emitted io inp (re_reason ev)) (nf_store s1) of
                  (Inl e, st) \<Rightarrow> (Inl e, s1\<lparr>nf_store := st\<rparr>)
                | (Inr (n, created), st) \<Rightarrow>
                    (Inr \<lparr>es_notification = Some n, es_created = created, es_suppressed = False, es_routingReason = re_reason ev\<rparr>, s1\<lparr>nf_store := st\<rparr>)))"

text \<open>The \<open>notification\<close> of what \<open>emit\<close> returns.\<close>

definition emit_notification ::
  "emit_reads \<Rightarrow> emit_input \<Rightarrow> notification_service \<Rightarrow> (notification_error, notification option) result \<times> notification_service" where
  "emit_notification io inp s = (case emit io inp s of (Inl e, s1) \<Rightarrow> (Inl e, s1) | (Inr r, s1) \<Rightarrow> (Inr (es_notification r), s1))"

subsection \<open>The events\<close>

definition invoice_facts :: "stored_invoice \<Rightarrow> (string, fact_value) jsmap" where
  "invoice_facts inv1 = [(''invoiceId'', Fact_text (si_id inv1)), (''amount'', Fact_number (si_amount inv1)),
     (''assetCode'', Fact_text (si_assetCode inv1)), (''memo'', Fact_text (si_memo inv1))]"

definition invoice_label :: "(jsnum \<Rightarrow> string) \<Rightarrow> stored_invoice \<Rightarrow> string" where
  "invoice_label nt inv1 = nt (si_amount inv1) @ '' '' @ si_assetCode inv1"

definition status_event :: "(jsnum \<Rightarrow> string) \<Rightarrow> stored_invoice \<Rightarrow> emit_input option" where
  "status_event nt inv1 =
     (let base = \<lparr>em_recipient = si_sellerPublicKey inv1, em_type = Invoice_paid, em_severity = Sev_success, em_title = ''Invoice paid'',
            em_message = ''Payment of '' @ invoice_label nt inv1 @ '' was verified for invoice '' @ si_memo inv1 @ ''.'',
            em_entityId = si_id inv1, em_data = invoice_facts inv1, em_dedupKey = si_id inv1 @ '':invoice.paid''\<rparr>
      in case si_status inv1 of
           PAID \<Rightarrow> Some base
         | EXPIRED \<Rightarrow> Some (base\<lparr>em_type := Invoice_expired, em_severity := Sev_warning, em_title := ''Invoice expired'',
             em_message := ''Invoice '' @ si_memo inv1 @ '' ('' @ invoice_label nt inv1 @ '') expired unpaid. Create a new invoice to collect payment.'',
             em_dedupKey := si_id inv1 @ '':invoice.expired''\<rparr>)
         | CANCELLED \<Rightarrow> Some (base\<lparr>em_type := Invoice_cancelled, em_severity := Sev_info, em_title := ''Invoice cancelled'',
             em_message := ''Invoice '' @ si_memo inv1 @ '' ('' @ invoice_label nt inv1 @ '') was cancelled.'',
             em_dedupKey := si_id inv1 @ '':invoice.cancelled''\<rparr>)
         | _ \<Rightarrow> None)"

definition syncInvoiceNotifications ::
  "(jsnum \<Rightarrow> string) \<Rightarrow> emit_reads \<Rightarrow> stored_invoice \<Rightarrow> notification_service \<Rightarrow> (notification_error, notification option) result \<times> notification_service" where
  "syncInvoiceNotifications nt io inv1 s =
     (case status_event nt inv1 of Some inp \<Rightarrow> emit_notification io inp s | None \<Rightarrow> (Inr None, s))"

definition RECOVERABLE_REJECTIONS :: "verification_code list" where
  "RECOVERABLE_REJECTIONS = [AMOUNT_MISMATCH, ASSET_MISMATCH, MEMO_MISMATCH, DESTINATION_MISMATCH, NETWORK_MISMATCH, NO_PAYMENT_OPERATION]"

fun code_text :: "verification_code \<Rightarrow> string" where
  "code_text MISSING_TX_HASH = ''MISSING_TX_HASH''"
| "code_text INVALID_TX_HASH = ''INVALID_TX_HASH''"
| "code_text INVALID_PAYER_NAME = ''INVALID_PAYER_NAME''"
| "code_text INVALID_PAYER_EMAIL = ''INVALID_PAYER_EMAIL''"
| "code_text PAYER_INFO_TOO_LONG = ''PAYER_INFO_TOO_LONG''"
| "code_text INVOICE_ALREADY_PAID = ''INVOICE_ALREADY_PAID''"
| "code_text INVOICE_EXPIRED = ''INVOICE_EXPIRED''"
| "code_text INVOICE_NOT_PENDING = ''INVOICE_NOT_PENDING''"
| "code_text TRANSACTION_NOT_FOUND = ''TRANSACTION_NOT_FOUND''"
| "code_text NO_PAYMENT_OPERATION = ''NO_PAYMENT_OPERATION''"
| "code_text MEMO_MISMATCH = ''MEMO_MISMATCH''"
| "code_text DESTINATION_MISMATCH = ''DESTINATION_MISMATCH''"
| "code_text AMOUNT_MISMATCH = ''AMOUNT_MISMATCH''"
| "code_text ASSET_MISMATCH = ''ASSET_MISMATCH''"
| "code_text NETWORK_MISMATCH = ''NETWORK_MISMATCH''"

definition REJECTION_ADVICE :: "verification_code \<Rightarrow> string option" where
  "REJECTION_ADVICE c =
     (case c of
        AMOUNT_MISMATCH \<Rightarrow> Some ''A payment was submitted with the wrong amount. Ask the payer to send the remaining or corrected amount, or cancel and reissue the invoice.''
      | ASSET_MISMATCH \<Rightarrow> Some ''A payment was submitted in a different asset than invoiced. Ask the payer to pay in the invoiced asset.''
      | MEMO_MISMATCH \<Rightarrow> Some ''A payment referenced this invoice but the memo did not match. Ask the payer to resend with the invoice memo.''
      | DESTINATION_MISMATCH \<Rightarrow> Some ''A payment referenced this invoice but was sent to a different account.''
      | NETWORK_MISMATCH \<Rightarrow> Some ''A payment was submitted on a different Stellar network than this invoice uses.''
      | NO_PAYMENT_OPERATION \<Rightarrow> Some ''A transaction referenced this invoice but contained no payment operation.''
      | _ \<Rightarrow> None)"

definition rejection_event :: "stored_invoice \<Rightarrow> verification_code \<Rightarrow> string \<Rightarrow> emit_input" where
  "rejection_event inv1 code txHash =
     \<lparr>em_recipient = si_sellerPublicKey inv1, em_type = Payment_rejected, em_severity = Sev_critical, em_title = ''Payment needs attention'',
      em_message = (case REJECTION_ADVICE code of Some t \<Rightarrow> t | None \<Rightarrow> ''A payment attempt for this invoice was rejected.''),
      em_entityId = si_id inv1,
      em_data = [(''invoiceId'', Fact_text (si_id inv1)), (''memo'', Fact_text (si_memo inv1)), (''code'', Fact_text (code_text code)), (''txHash'', Fact_text txHash)],
      em_dedupKey = si_id inv1 @ '':payment.rejected:'' @ txHash @ '':'' @ code_text code\<rparr>"

definition notifyPaymentRejected ::
  "emit_reads \<Rightarrow> stored_invoice \<Rightarrow> verification_code \<Rightarrow> string \<Rightarrow> notification_service \<Rightarrow>
    (notification_error, notification option) result \<times> notification_service" where
  "notifyPaymentRejected io inv1 code txHash s =
     (if code \<notin> set RECOVERABLE_REJECTIONS then (Inr None, s) else emit_notification io (rejection_event inv1 code txHash) s)"

text \<open>The reminder reads the clock of the system for its day.\<close>

definition reminder_event :: "(jsnum \<Rightarrow> string) \<Rightarrow> int \<Rightarrow> stored_invoice \<Rightarrow> emit_input" where
  "reminder_event nt now inv1 =
     \<lparr>em_recipient = si_sellerPublicKey inv1, em_type = Invoice_reminder, em_severity = Sev_info, em_title = ''Invoice payment reminder'',
      em_message = ''Friendly reminder: Invoice '' @ si_memo inv1 @ '' for '' @ nt (si_amount inv1) @ '' '' @ si_assetCode inv1 @ '' is pending payment.'',
      em_entityId = si_id inv1, em_data = invoice_facts inv1, em_dedupKey = si_id inv1 @ '':invoice.reminder:'' @ take 10 (toISOString now)\<rparr>"

definition notifyInvoiceReminder ::
  "(jsnum \<Rightarrow> string) \<Rightarrow> int \<Rightarrow> emit_reads \<Rightarrow> stored_invoice \<Rightarrow> notification_service \<Rightarrow>
    (notification_error, notification option) result \<times> notification_service" where
  "notifyInvoiceReminder nt now io inv1 s = emit_notification io (reminder_event nt now inv1) s"

definition alert_event :: "int \<Rightarrow> string \<Rightarrow> string \<Rightarrow> string \<Rightarrow> (string, fact_value) jsmap \<Rightarrow> emit_input" where
  "alert_event now recipient title message dat =
     \<lparr>em_recipient = recipient, em_type = Security_alert, em_severity = Sev_critical, em_title = title, em_message = message,
      em_entityId = recipient, em_data = dat, em_dedupKey = recipient @ '':security.alert:'' @ int_text now\<rparr>"

definition notifySecurityAlert ::
  "int \<Rightarrow> emit_reads \<Rightarrow> string \<Rightarrow> string \<Rightarrow> string \<Rightarrow> (string, fact_value) jsmap \<Rightarrow> notification_service \<Rightarrow>
    (notification_error, notification option) result \<times> notification_service" where
  "notifySecurityAlert now io recipient title message dat s = emit_notification io (alert_event now recipient title message dat) s"

subsection \<open>Reading\<close>

definition nf_getPreferences :: "string \<Rightarrow> notification_service \<Rightarrow> (notification_error, recipient_prefs) result \<times> notification_service" where
  "nf_getPreferences r s = (case mp_getPreferences r (nf_prefs s) of (res, ps) \<Rightarrow> (res, s\<lparr>nf_prefs := ps\<rparr>))"

definition nf_savePreferences ::
  "string \<Rightarrow> prefs_patch \<Rightarrow> notification_service \<Rightarrow> (notification_error, recipient_prefs) result \<times> notification_service" where
  "nf_savePreferences r patch s = (case mp_savePreferences r patch (nf_prefs s) of (res, ps) \<Rightarrow> (res, s\<lparr>nf_prefs := ps\<rparr>))"

definition getRoutingAudit :: "string \<Rightarrow> notification_service \<Rightarrow> routing_audit list" where
  "getRoutingAudit r s = mp_getAuditRecords r (nf_prefs s)"

record notification_query =
  nq_unreadOnly :: bool
  nq_limit :: "int option"
  nq_offset :: "int option"

record notification_page =
  pg_notifications :: "notification list"
  pg_total :: nat
  pg_unread :: nat
  pg_limit :: int
  pg_offset :: int

definition MAX_PAGE :: int where
  "MAX_PAGE = 100"

definition unread :: "notification \<Rightarrow> bool" where
  "unread n = (nt_readAt n = None)"

definition nf_list :: "string \<Rightarrow> notification_query \<Rightarrow> notification_service \<Rightarrow> notification_page" where
  "nf_list r q s =
     (let everything = listForRecipient r (nf_store s);
          filtered = (if nq_unreadOnly q then filter unread everything else everything);
          limit = min (max (case nq_limit q of Some l \<Rightarrow> l | None \<Rightarrow> 50) 1) MAX_PAGE;
          offset = max (case nq_offset q of Some x \<Rightarrow> x | None \<Rightarrow> 0) 0
      in \<lparr>pg_notifications = take (nat limit) (drop (nat offset) filtered), pg_total = length filtered,
          pg_unread = length (filter unread everything), pg_limit = limit, pg_offset = offset\<rparr>)"

definition unreadCount :: "string \<Rightarrow> notification_service \<Rightarrow> nat" where
  "unreadCount r s = length (filter unread (listForRecipient r (nf_store s)))"

definition mark_stored :: "int \<Rightarrow> string \<Rightarrow> notification_store \<Rightarrow> notification_store" where
  "mark_stored now i s =
     (case mget (ns_byId s) i of
        Some n \<Rightarrow> if unread n then s\<lparr>ns_byId := mset_kv i (n\<lparr>nt_readAt := Some now\<rparr>) (ns_byId s)\<rparr> else s
      | None \<Rightarrow> s)"

definition markRead :: "int \<Rightarrow> string \<Rightarrow> string \<Rightarrow> notification_service \<Rightarrow> notification option \<times> notification_service" where
  "markRead now r i s =
     (case getForRecipient r i (nf_store s) of
        None \<Rightarrow> (None, s)
      | Some n \<Rightarrow> let st = mark_stored now i (nf_store s) in (mget (ns_byId st) i, s\<lparr>nf_store := st\<rparr>))"

text \<open>The loop reads the clock for every notification it marks; its reading may depend on the notification.\<close>

definition mark_step :: "(string \<Rightarrow> int) \<Rightarrow> nat \<times> notification_store \<Rightarrow> string \<Rightarrow> nat \<times> notification_store" where
  "mark_step now c i =
     (let (changed, st) = c
      in if unread (the (mget (ns_byId st) i)) then (changed + 1, mark_stored (now i) i st) else (changed, st))"

definition markAllRead :: "(string \<Rightarrow> int) \<Rightarrow> string \<Rightarrow> notification_service \<Rightarrow> nat \<times> notification_service" where
  "markAllRead now r s =
     (case foldl (mark_step now) (0, nf_store s) (rev (recipient_ids r (nf_store s))) of (changed, st) \<Rightarrow> (changed, s\<lparr>nf_store := st\<rparr>))"

definition nf_clear :: "notification_service \<Rightarrow> notification_service" where
  "nf_clear s = s\<lparr>nf_store := ns_clear (nf_store s), nf_prefs := mp_clear (nf_prefs s)\<rparr>"

end
