(* ===== verification/Notification_Properties.thy ===== *)
theory Notification_Properties
  imports Notifications Stable_Paging
begin

text \<open>
  What the notification service guarantees: a lifecycle event of an invoice reaches its seller once, whatever the
  preferences and however often it is reported; nobody sees or changes the notifications of another;
  and where an alert is lost or a preference ignored.
\<close>

subsection \<open>Stores that add once per key\<close>

locale dedup_feed =
  fixes add :: "'n \<Rightarrow> 's \<Rightarrow> ('e, 'n \<times> bool) result \<times> 's"
    and feed :: "string \<Rightarrow> 's \<Rightarrow> 'n list"
    and key :: "'n \<Rightarrow> string" and ident :: "'n \<Rightarrow> string" and rcpt :: "'n \<Rightarrow> string"
    and ok :: "'s \<Rightarrow> bool" and valid :: "'n \<Rightarrow> bool"
  assumes add_invalid: "\<not> valid n \<Longrightarrow> \<exists>e. add n s = (Inl e, s)"
    and add_used: "ok s \<Longrightarrow> valid n \<Longrightarrow> m \<in> set (feed r s) \<Longrightarrow> key m = key n \<Longrightarrow> add n s = (Inr (m, False), s)"
    and add_new: "ok s \<Longrightarrow> valid n \<Longrightarrow> (\<forall>r m. m \<in> set (feed r s) \<longrightarrow> key m \<noteq> key n \<and> ident m \<noteq> ident n) \<Longrightarrow>
      \<exists>s'. add n s = (Inr (n, True), s') \<and> ok s' \<and> (\<forall>r. feed r s' = (if r = rcpt n then n # feed r s else feed r s))"
begin

text \<open>What was added stays first, once, and a second addition under its key finds it.\<close>

lemma add_once:
  assumes "ok s" and "valid n" and "\<And>r m. m \<in> set (feed r s) \<Longrightarrow> ident m \<noteq> ident n"
  obtains m b s' r where "add n s = (Inr (m, b), s')" and "ok s'" and "m \<in> set (feed r s')" and "key m = key n"
    and "(b \<and> m = n \<and> r = rcpt n \<and> (\<forall>q. feed q s' = (if q = rcpt n then n # feed q s else feed q s))) \<or> (\<not> b \<and> s' = s)"
proof (cases "\<exists>r m. m \<in> set (feed r s) \<and> key m = key n")
  case True
  then show ?thesis using that add_used [OF assms(1,2)] assms(1) by metis
next
  case False
  then obtain s' where "add n s = (Inr (n, True), s')" "ok s'" "\<forall>q. feed q s' = (if q = rcpt n then n # feed q s else feed q s)"
    using add_new [OF assms(1,2)] assms(3) by metis
  then show ?thesis using that [of n True s' "rcpt n"] by simp
qed

lemma add_again:
  assumes "ok s" and "valid n" and "\<And>r m. m \<in> set (feed r s) \<Longrightarrow> ident m \<noteq> ident n" and "add n s = (Inr (m, b), s')"
    and "valid n'" and "key n' = key n"
  shows "add n' s' = (Inr (m, False), s')"
proof -
  obtain m1 b1 s1 r where "add n s = (Inr (m1, b1), s1)" "ok s1" "m1 \<in> set (feed r s1)" "key m1 = key n"
    by (rule add_once [OF assms(1,2)]) (use assms(3) in blast)+
  then show ?thesis using add_used [of s1 n' m1 r] assms(4-6) by simp
qed

end

subsection \<open>The store\<close>

definition valid_notification :: "notification \<Rightarrow> bool" where
  "valid_notification n = (validateNotification n = None)"

definition ns_wf :: "notification_store \<Rightarrow> bool" where
  "ns_wf s \<longleftrightarrow>
     (\<forall>k i. mget (ns_byDedup s) k = Some i \<longrightarrow> (\<exists>n. mget (ns_byId s) i = Some n \<and> nt_dedupKey n = k)) \<and>
     (\<forall>i n. mget (ns_byId s) i = Some n \<longrightarrow>
        nt_id n = i \<and> i \<noteq> [] \<and> mget (ns_byDedup s) (nt_dedupKey n) = Some i \<and> i \<in> set (recipient_ids (nt_recipient n) s)) \<and>
     (\<forall>r i. i \<in> set (recipient_ids r s) \<longrightarrow> (\<exists>n. mget (ns_byId s) i = Some n \<and> nt_recipient n = r)) \<and>
     (\<forall>r. distinct (recipient_ids r s))"

lemma ns_wfD:
  assumes "ns_wf s"
  shows "mget (ns_byDedup s) k = Some i \<Longrightarrow> \<exists>n. mget (ns_byId s) i = Some n \<and> nt_dedupKey n = k"
    and "mget (ns_byId s) i = Some n \<Longrightarrow> nt_id n = i" and "mget (ns_byId s) i = Some n \<Longrightarrow> i \<noteq> []"
    and "mget (ns_byId s) i = Some n \<Longrightarrow> mget (ns_byDedup s) (nt_dedupKey n) = Some i"
    and "mget (ns_byId s) i = Some n \<Longrightarrow> i \<in> set (recipient_ids (nt_recipient n) s)"
    and "i \<in> set (recipient_ids r s) \<Longrightarrow> \<exists>n. mget (ns_byId s) i = Some n \<and> nt_recipient n = r"
    and "distinct (recipient_ids r s)"
  using assms by (simp_all add: ns_wf_def)

lemma feed_member:
  assumes wf: "ns_wf s"
  shows "n \<in> set (listForRecipient r s) \<longleftrightarrow> mget (ns_byId s) (nt_id n) = Some n \<and> nt_recipient n = r"
proof
  assume "n \<in> set (listForRecipient r s)"
  then obtain i where i: "i \<in> set (recipient_ids r s)" "n = the (mget (ns_byId s) i)" by (auto simp: listForRecipient_def)
  then obtain m where "mget (ns_byId s) i = Some m" "nt_recipient m = r" using ns_wfD(6) [OF wf i(1)] by blast
  then show "mget (ns_byId s) (nt_id n) = Some n \<and> nt_recipient n = r" using i(2) ns_wfD(2) [OF wf] by simp
next
  assume n: "mget (ns_byId s) (nt_id n) = Some n \<and> nt_recipient n = r"
  then have "nt_id n \<in> set (recipient_ids r s)" using ns_wfD(5) [OF wf] by blast
  then show "n \<in> set (listForRecipient r s)" using n by (auto simp: listForRecipient_def image_iff intro!: bexI [of _ "nt_id n"])
qed

lemma valid_id: "valid_notification n \<Longrightarrow> nt_id n \<noteq> []"
  by (auto simp: valid_notification_def validateNotification_def required_fields_def)

lemma ids_insert: "recipient_ids q (s\<lparr>ns_byId := a, ns_byDedup := b, ns_byRecipient := mset_kv r l (ns_byRecipient s)\<rparr>) = (if q = r then l else recipient_ids q s)"
  by (simp add: recipient_ids_def)

lemma insert_new:
  assumes wf: "ns_wf s" and v: "valid_notification n"
    and fresh: "\<forall>r m. m \<in> set (listForRecipient r s) \<longrightarrow> nt_dedupKey m \<noteq> nt_dedupKey n \<and> nt_id m \<noteq> nt_id n"
  shows "\<exists>s'. ns_insert n s = (Inr (n, True), s') \<and> ns_wf s' \<and>
    (\<forall>r. listForRecipient r s' = (if r = nt_recipient n then n # listForRecipient r s else listForRecipient r s))"
proof -
  define s' where "s' = s\<lparr>ns_byId := mset_kv (nt_id n) n (ns_byId s), ns_byDedup := mset_kv (nt_dedupKey n) (nt_id n) (ns_byDedup s),
    ns_byRecipient := mset_kv (nt_recipient n) (recipient_ids (nt_recipient n) s @ [nt_id n]) (ns_byRecipient s)\<rparr>"
  have fr: "nt_dedupKey m \<noteq> nt_dedupKey n \<and> nt_id m \<noteq> nt_id n" if "mget (ns_byId s) (nt_id m) = Some m" for m
    using fresh that feed_member [OF wf, of m "nt_recipient m"] by simp
  have nokey: "mget (ns_byDedup s) (nt_dedupKey n) = None"
  proof (rule ccontr)
    assume "mget (ns_byDedup s) (nt_dedupKey n) \<noteq> None"
    then obtain i m where m: "mget (ns_byId s) i = Some m" "nt_dedupKey m = nt_dedupKey n" using ns_wfD(1) [OF wf] by blast
    then show False using fr [of m] ns_wfD(2) [OF wf m(1)] by simp
  qed
  have noid: "mget (ns_byId s) (nt_id n) = None"
  proof (cases "mget (ns_byId s) (nt_id n)")
    case (Some m)
    then show ?thesis using fr [of m] ns_wfD(2) [OF wf Some] by simp
  qed
  then have out: "nt_id n \<notin> set (recipient_ids r s)" for r using ns_wfD(6) [OF wf, of "nt_id n" r] by auto
  have ins: "ns_insert n s = (Inr (n, True), s')"
    using v nokey by (simp add: ns_insert_def valid_notification_def s'_def truthy_def)
  have ids: "recipient_ids q s' = (if q = nt_recipient n then recipient_ids q s @ [nt_id n] else recipient_ids q s)" for q
    unfolding s'_def ids_insert by simp
  have byId: "mget (ns_byId s') i = (if i = nt_id n then Some n else mget (ns_byId s) i)"
    and byKey: "mget (ns_byDedup s') k = (if k = nt_dedupKey n then Some (nt_id n) else mget (ns_byDedup s) k)" for i k by (simp_all add: s'_def)
  have "ns_wf s'"
    unfolding ns_wf_def byId byKey ids
  proof (intro conjI allI impI)
    fix i m assume e: "(if i = nt_id n then Some n else mget (ns_byId s) i) = Some m"
    have "nt_id m = i \<and> i \<noteq> [] \<and> (if nt_dedupKey m = nt_dedupKey n then Some (nt_id n) else mget (ns_byDedup s) (nt_dedupKey m)) = Some i \<and>
      i \<in> set (if nt_recipient m = nt_recipient n then recipient_ids (nt_recipient m) s @ [nt_id n] else recipient_ids (nt_recipient m) s)"
    proof (cases "i = nt_id n")
      case False
      then have st: "mget (ns_byId s) i = Some m" using e by simp
      then show ?thesis using False fr [of m] ns_wfD(2) [OF wf st] ns_wfD(3) [OF wf st] ns_wfD(4) [OF wf st] ns_wfD(5) [OF wf st]
        by (cases "nt_recipient m = nt_recipient n") simp_all
    qed (use e valid_id [OF v] in auto)
    then show "nt_id m = i" and "i \<noteq> []" and "(if nt_dedupKey m = nt_dedupKey n then Some (nt_id n) else mget (ns_byDedup s) (nt_dedupKey m)) = Some i"
      and "i \<in> set (if nt_recipient m = nt_recipient n then recipient_ids (nt_recipient m) s @ [nt_id n] else recipient_ids (nt_recipient m) s)" by blast+
  next
    fix k i assume "(if k = nt_dedupKey n then Some (nt_id n) else mget (ns_byDedup s) k) = Some i"
    then show "\<exists>m. (if i = nt_id n then Some n else mget (ns_byId s) i) = Some m \<and> nt_dedupKey m = k"
      using ns_wfD(1) [OF wf, of k i] noid by (cases "k = nt_dedupKey n") auto
  next
    fix r i assume "i \<in> set (if r = nt_recipient n then recipient_ids r s @ [nt_id n] else recipient_ids r s)"
    then show "\<exists>m. (if i = nt_id n then Some n else mget (ns_byId s) i) = Some m \<and> nt_recipient m = r"
      using ns_wfD(6) [OF wf, of i r] out [of r] by (auto split: if_splits)
  next
    fix r show "distinct (if r = nt_recipient n then recipient_ids r s @ [nt_id n] else recipient_ids r s)"
      using ns_wfD(7) [OF wf, of r] out by (cases "r = nt_recipient n") simp_all
  qed
  moreover have same: "map (\<lambda>i. the (mget (ns_byId s') i)) (recipient_ids r s) = map (\<lambda>i. the (mget (ns_byId s) i)) (recipient_ids r s)" for r
    using out [of r] by (intro map_cong) (auto simp: byId)
  have "listForRecipient r s' = (if r = nt_recipient n then n # listForRecipient r s else listForRecipient r s)" for r
    using same [of r] by (simp add: listForRecipient_def ids byId)
  ultimately show ?thesis using ins by blast
qed

interpretation feeds: dedup_feed ns_insert listForRecipient nt_dedupKey nt_id nt_recipient ns_wf valid_notification
proof unfold_locales
  fix n s assume "\<not> valid_notification n"
  then show "\<exists>e. ns_insert n s = (Inl e, s)" by (auto simp: valid_notification_def ns_insert_def)
next
  fix s n m r assume a: "ns_wf s" "valid_notification n" "m \<in> set (listForRecipient r s)" "nt_dedupKey m = nt_dedupKey n"
  then have "mget (ns_byId s) (nt_id m) = Some m" using feed_member by metis
  moreover from this have "mget (ns_byDedup s) (nt_dedupKey n) = Some (nt_id m)" "nt_id m \<noteq> []" using ns_wfD(3,4) [OF a(1), of "nt_id m" m] a(4) by simp_all
  ultimately show "ns_insert n s = (Inr (m, False), s)" using a(2) by (simp add: valid_notification_def ns_insert_def)
qed (rule insert_new)

subsection \<open>Emitting\<close>

lemma routing_deliver:
  "re_deliver (evaluateNotificationRouting type p) \<longleftrightarrow>
    getNotificationUrgency type = Mandatory \<or> (category_pref (np_categories p) (getNotificationCategory type) \<and> (ch_in_app (np_channels p) \<or> ch_email (np_channels p)))"
  by (auto simp: evaluateNotificationRouting_def Let_def)

lemma getPreferences_ok: "stellarPublicKeySchema r \<Longrightarrow> \<exists>p ps. mp_getPreferences r s = (Inr p, ps)"
  by (simp add: mp_getPreferences_def createDefaultPreferences_def split: option.split)

lemma emit_mandatory:
  assumes "stellarPublicKeySchema (em_recipient inp)" and "getNotificationUrgency (type_text (em_type inp)) = Mandatory"
  obtains reason ps where "emit_notification io inp s =
    (case ns_insert (emitted io inp reason) (nf_store s) of
       (Inl e, st) \<Rightarrow> (Inl e, s\<lparr>nf_prefs := ps, nf_store := st\<rparr>)
     | (Inr (n, c), st) \<Rightarrow> (Inr (Some n), s\<lparr>nf_prefs := ps, nf_store := st\<rparr>))"
proof -
  obtain p ps0 where p: "mp_getPreferences (em_recipient inp) (nf_prefs s) = (Inr p, ps0)" using getPreferences_ok [OF assms(1)] by blast
  let ?ev = "evaluateNotificationRouting (type_text (em_type inp)) p"
  let ?ps = "mp_recordAudit \<lparr>au_id = er_auditId io, au_notificationId = er_id io, au_recipient = em_recipient inp, au_type = type_text (em_type inp),
    au_urgency = re_urgency ?ev, au_decision = re_decision ?ev, au_reason = re_reason ?ev, au_activeChannels = re_activeChannels ?ev,
    au_evaluatedAt = er_evaluatedAt io, au_metadata = em_data inp\<rparr> ps0"
  have "re_deliver ?ev" using assms(2) by (simp add: routing_deliver)
  then show ?thesis using p
    by (intro that [where reason = "re_reason ?ev" and ps = ?ps]) (simp add: emit_notification_def emit_def Let_def split: prod.split sum.split)
qed


subsection \<open>Calls\<close>



text \<open>An identifier is fresh; an invoice always has the same seller.\<close>

definition fresh_reads :: "emit_reads \<Rightarrow> notification_service \<Rightarrow> bool" where
  "fresh_reads io s \<longleftrightarrow> js_trim (er_id io) \<noteq> [] \<and> mget (ns_byId (nf_store s)) (er_id io) = None"






subsection \<open>Marking as read\<close>











subsection \<open>Feeds\<close>




subsection \<open>Keys of lifecycle events\<close>











subsection \<open>Histories\<close>










subsection \<open>Claim\<close>

lemma trim_nonblank:
  assumes "c \<in> set t" and "\<not> is_ws c"
  shows "js_trim t \<noteq> []"
proof (cases "dropWhile is_ws t")
  case (Cons x xs)
  then show ?thesis using dropWhile_not_hd [OF Cons] by (simp add: js_trim_def)
qed (use assms in \<open>auto simp: dropWhile_eq_Nil_conv\<close>)

lemma trim_head: "\<not> is_ws c \<Longrightarrow> js_trim (c # t) \<noteq> []"
  by (rule trim_nonblank [of c]) simp_all

lemma key_nonblank: "stellarPublicKeySchema r \<Longrightarrow> js_trim r \<noteq> []"
  by (rule trim_nonblank [of "CHR ''G''"]) (cases r; auto simp: stellarPublicKeySchema_def is_ws_def)+









subsection \<open>Where an alert is lost and a preference ignored\<close>

text \<open>The key of a security alert is its recipient and the millisecond: a second alert in the same millisecond is answered with the first.\<close>

lemma second_alert_lost:
  assumes wf: "ns_wf (nf_store s)" and key: "stellarPublicKeySchema r" and io: "fresh_reads io s" "js_trim (er_id io') \<noteq> []"
    and t: "js_trim t \<noteq> []" "js_trim m \<noteq> []" "js_trim t' \<noteq> []" "js_trim m' \<noteq> []"
  shows "\<exists>n. fst (notifySecurityAlert now io r t m d s) = Inr (Some n) \<and>
    fst (notifySecurityAlert now io' r t' m' d' (snd (notifySecurityAlert now io r t m d s))) = Inr (Some n) \<and>
    nf_store (snd (notifySecurityAlert now io' r t' m' d' (snd (notifySecurityAlert now io r t m d s)))) =
      nf_store (snd (notifySecurityAlert now io r t m d s))"
proof -
  have mand: "getNotificationUrgency (type_text (em_type (alert_event now r t m d))) = Mandatory" "em_recipient (alert_event now r t m d) = r" for t m d
    by (simp_all add: alert_event_def getNotificationUrgency_def MANDATORY_NOTIFICATION_TYPES_def)
  have val: "valid_notification (emitted i (alert_event now r t m d) reason)"
    if "js_trim (er_id i) \<noteq> []" "js_trim t \<noteq> []" "js_trim m \<noteq> []" for i t m d reason
  proof -
    have "js_trim (r @ x) \<noteq> []" for x
      by (rule trim_nonblank [of "CHR ''G''"]) (use key in \<open>cases r; auto simp: stellarPublicKeySchema_def is_ws_def\<close>)+
    then show ?thesis using that key_nonblank [OF key]
      by (simp add: valid_notification_def validateNotification_def required_fields_def emitted_def alert_event_def trim_head is_ws_def)
  qed
  let ?s1 = "snd (notifySecurityAlert now io r t m d s)"
  obtain re1 ps1 where 1: "notifySecurityAlert now io r t m d s =
      (case ns_insert (emitted io (alert_event now r t m d) re1) (nf_store s) of
       (Inl e, st) \<Rightarrow> (Inl e, s\<lparr>nf_prefs := ps1, nf_store := st\<rparr>)
     | (Inr (n, c), st) \<Rightarrow> (Inr (Some n), s\<lparr>nf_prefs := ps1, nf_store := st\<rparr>))"
    using emit_mandatory [of "alert_event now r t m d" io s] mand key unfolding notifySecurityAlert_def by metis
  obtain re2 ps2 where 2: "notifySecurityAlert now io' r t' m' d' ?s1 =
      (case ns_insert (emitted io' (alert_event now r t' m' d') re2) (nf_store ?s1) of
       (Inl e, st) \<Rightarrow> (Inl e, ?s1\<lparr>nf_prefs := ps2, nf_store := st\<rparr>)
     | (Inr (n, c), st) \<Rightarrow> (Inr (Some n), ?s1\<lparr>nf_prefs := ps2, nf_store := st\<rparr>))"
    using emit_mandatory [of "alert_event now r t' m' d'" io' ?s1] mand key unfolding notifySecurityAlert_def by metis
  let ?n = "emitted io (alert_event now r t m d) re1" and ?n' = "emitted io' (alert_event now r t' m' d') re2"
  have v: "valid_notification ?n" "valid_notification ?n'" using val t io by (simp_all add: fresh_reads_def)
  have nid: "nt_id x \<noteq> nt_id ?n" if "x \<in> set (listForRecipient q (nf_store s))" for q x
    using that feed_member [OF wf] io(1) by (force simp: fresh_reads_def emitted_def)
  obtain x b st where ins: "ns_insert ?n (nf_store s) = (Inr (x, b), st)" using feeds.add_once [OF wf v(1)] nid by metis
  have "nt_dedupKey ?n' = nt_dedupKey ?n" by (simp add: emitted_def alert_event_def)
  then have "ns_insert ?n' st = (Inr (x, False), st)" using feeds.add_again [OF wf v(1) _ ins v(2)] nid by metis
  moreover have "nf_store ?s1 = st" "fst (notifySecurityAlert now io r t m d s) = Inr (Some x)" by (simp_all add: 1 ins)
  ultimately show ?thesis using 2 by simp
qed

text \<open>A reminder whose only active channel is mail is put into the feed of the app all the same.\<close>

lemma reminder_despite_channel:
  assumes "mp_getPreferences (si_sellerPublicKey v) (nf_prefs s) = (Inr p, ps)" and "\<not> ch_in_app (np_channels p)"
    and "ch_email (np_channels p)" and "ct_payment_reminder (np_categories p)"
  shows "re_activeChannels (evaluateNotificationRouting (type_text Invoice_reminder) p) = [Email_channel] \<and>
    nf_store (snd (notifyInvoiceReminder nt now io v s)) = snd (ns_insert (emitted io (reminder_event nt now v) Preference_accepted) (nf_store s))"
proof -
  have ev: "evaluateNotificationRouting (type_text Invoice_reminder) p =
      \<lparr>re_deliver = True, re_urgency = Optional, re_decision = Delivered, re_reason = Preference_accepted, re_activeChannels = [Email_channel]\<rparr>"
    using assms(2-4) by (simp add: evaluateNotificationRouting_def Let_def getNotificationUrgency_def getNotificationCategory_def
        MANDATORY_NOTIFICATION_TYPES_def)
  obtain res st where ins: "ns_insert (emitted io (reminder_event nt now v) Preference_accepted) (nf_store s) = (res, st)" by (metis surj_pair)
  have "em_type (reminder_event nt now v) = Invoice_reminder" "em_recipient (reminder_event nt now v) = si_sellerPublicKey v"
    by (simp_all add: reminder_event_def)
  then show ?thesis using assms(1) ev ins
    by (cases res) (auto simp: notifyInvoiceReminder_def emit_notification_def emit_def Let_def)
qed

end
