(* ===== verification/Spec2Isabelle.thy ===== *)
theory Spec2Isabelle
  imports Payment_Verification Service_Invariants Feature_Flags Lock_Manager Backpressure Ownership_Properties Replay_Engine
    Stable_Paging Capability_Safety Approval_Safety Canonical_Properties Webhook_Properties Checkpoint_Safety Sla_Properties
    Merge_Properties Audit_Properties Impersonation_Safety Degraded_Properties Admin_Config Invitation_Safety
    Policy_Diff_Properties Dry_Run_Properties Repair_Properties Notification_Properties
begin

text \<open>
  \<^bold>\<open>Quittance: a verification library for the backend.\<close>

  Quittance issues invoices that are paid on the Stellar network. A seller creates an invoice
  with a memo, a payer sends a payment that carries it, and the backend confirms the payment
  against what Horizon reports and marks the invoice paid. Around this core the backend keeps a
  queue of jobs, hands out signed cursors and capabilities, transfers the ownership of resources
  and asks maintainers to approve one another's high-impact actions. The files named below are
  under \<open>src/backend/src\<close>.

  \<^bold>\<open>Reading the model.\<close> A function of the code is a HOL function of the same name; a class is a
  record of its fields with one function per method, prefixed where names collide, that takes
  the record and returns it updated. A thrown error is the \<open>Inl\<close> of a \<open>result\<close>. A \<open>Map\<close> is an
  association list in insertion order (\<open>jsmap\<close>). What the code reads from outside, the clock,
  random ids, HMAC and SHA-256, canonical texts, the Stellar SDK, is an argument or a field of an
  environment record; a call that reads the clock several times takes each reading. An \<open>async\<close>
  method is the list of its synchronous parts, and the step relations interleave the parts of
  different calls, since between two \<open>await\<close> points JavaScript runs one of them only.

  \<^bold>\<open>The language.\<close>
  \<^item> \<open>Js_Prelude\<close>: strings (code units below 256), \<open>trim\<close>, \<open>split\<close>, comparison, \<open>Map\<close>, the
    stable \<open>sort\<close> with the locales \<open>comparator\<close> and \<open>strict_comparator\<close>, results.
  \<^item> \<open>Js_Number\<close>: binary64 numbers as rationals with the rounding of each operation, \<open>Number(s)\<close>.
  \<^item> \<open>Js_Date\<close>, \<open>Base64url\<close>: ISO dates in both directions, base64url in both directions.

  \<^bold>\<open>Invoices and payments.\<close>
  \<^item> \<open>Assets\<close> (utils/asset-helpers.ts), \<open>Amounts\<close> (utils/verify-amount-tolerance.ts),
    \<open>Feature_Flags\<close> (config/feature-flags.ts), \<open>Content_Safety\<close> (security/content-safety.ts) and
    \<open>Payment_Verification\<close> (services/payment-verification.ts): the checks of a payment. They are
    shown to be the documented ordered list of checks, and a verified payment to be one that
    satisfies all of them, with the one stroop of tolerance when the flag for it is on.
  \<^item> \<open>Invoice_Model\<close>, \<open>Optimistic_Lock\<close>, \<open>Invoice_Stats\<close>, \<open>Memory_Storage\<close> (storage/*,
    domain/invoice-expiry.ts, concurrency/optimistic-lock.ts): the invoice table, with invoices as
    heap objects since the code hands out references. \<open>Storage_Lemmas\<close> relates it to a map from
    ids to invoices, \<open>Invoice_Lifecycle\<close> states what may happen to an invoice on that map and
    that marking it paid refines the abstract settlement.
  \<^item> \<open>Bounded_Cache\<close>, \<open>Invoice_Cursor\<close>, \<open>Memory_Service\<close> (services/invoice-memory.service.ts,
    storage/invoice-cursor.ts, utils/memo.ts): the service over table and caches. Both caches are
    interpretations of the locale \<open>ttl_cache\<close>. \<open>Service_Invariants\<close> runs the service and shows its
    invariant, the life cycle of an invoice, and that reads are current.

  \<^bold>\<open>Jobs and concurrency.\<close>
  \<^item> \<open>Lock_Manager\<close> (concurrency/lock-manager.ts): mutual exclusion, and no waiter is forgotten.
  \<^item> \<open>Job_Store\<close>, \<open>Job_Worker\<close> (jobs/job-types.ts, jobs/memory-job-store.ts, jobs/worker.ts) with
    \<open>Job_Properties\<close>: leases, order, idempotency; the worker over the locale \<open>job_store\<close>, which the
    memory store interprets. \<open>Backpressure\<close> (jobs/backpressure.ts): admission bounds.
  \<^item> \<open>Conflict_Resolver\<close> (concurrency/conflict-resolver.ts) with \<open>Merge_Properties\<close>: three-way merges of
    invoices as objects with named fields, deep equality with its coercions included.
  \<^item> \<open>Replay_Engine\<close> (concurrency/deterministic-replay-engine.ts): the 32-bit generator, the
    shuffle, the batch.

  \<^bold>\<open>Ownership, access and operations.\<close>
  \<^item> \<open>State_Invariants\<close> (domain/state-invariants.ts): the four transition guards.
    \<open>Ownership_Transfer\<close> (domain and services/ownership-transfer) with \<open>Ownership_Properties\<close>: the
    two-step handover; the property below compares the service with the generic guard, which differ in
    two cases only.
  \<^item> \<open>Stable_Cursor\<close> (domain/stable-cursor.ts) with \<open>Stable_Paging\<close>: signed pages; following
    the cursors lists every visible id once, as long as positions fit into a cursor and an id has one time.
  \<^item> \<open>Capability_Tokens\<close> (security/capability-tokens.ts) with \<open>Capability_Safety\<close>: issue, verify,
    single use.
  \<^item> \<open>Risk_Scoring\<close> (ops/risk-scoring.ts) and \<open>Maintainer_Approval\<close> (ops/maintainer-approval.ts) with
    \<open>Approval_Safety\<close>: the scores are those of the whole history when at least nine events are kept per
    key, and those of the counts cut off below that; the two-person rule, single use and the chain of receipts hold
    in every run.
  \<^item> \<open>Workflow_Sla\<close> (domain/workflow-sla.ts) with \<open>Sla_Properties\<close>: deadlines and escalation; status
    and level depend on the clock alone, rounding included, and the history on what evaluations saw.

  \<^bold>\<open>Signed texts and the outside world.\<close>
  \<^item> \<open>Canonical_Json\<close> (security/canonical-serialization.ts) with \<open>Canonical_Properties\<close>: canonical
    texts of values on a heap; they identify the data up to the order of keys and Unicode normalisation, which is a
    parameter, and cycles are found.
  \<^item> \<open>Webhooks\<close> (webhooks/*.ts, routes/webhook.routes.ts) with \<open>Webhook_Properties\<close>: signatures,
    freshness, the replay store as a sliding window, and where replays still pass.
  \<^item> \<open>Checkpoints\<close> (recovery/side-effect-checkpoint.ts) with \<open>Checkpoint_Safety\<close>: interleaved calls
    that retry, die and take over, as a step relation over the locale \<open>checkpoint_store\<close>, which the
    memory store interprets. The relation logs three accidents: a live run is taken over, the provider
    denies an effect that landed, an effect throws after it landed. Without them an effect lands at most once;
    an example shows that the third makes it land twice.
  \<^item> \<open>Redaction\<close> (security/redaction.ts) with \<open>Redaction_Properties\<close>: the regular expressions as
    values of a backtracking matcher; what stands under sensitive names is scrubbed, and a later pass brings a
    seed back.
  \<^item> \<open>Audit_Trail\<close> (audit/audit-service.ts) with \<open>Audit_Properties\<close>: the bounded trail, its indexes and
    its hash chain, over \<open>Canonical_Json\<close> and \<open>Redaction\<close>; states and metadata are
    redacted, other texts are not; the last digest pins down the trail up to canonical form, and the
    check of the chain fails once events were dropped.
  \<^item> \<open>Impersonation\<close> (audit/impersonation.ts) with \<open>Impersonation_Safety\<close>: sessions of maintainers as a
    step relation; what an allowed action implies, and which permissions have no effect.
  \<^item> \<open>Degraded_Mode\<close> (ops/dependency-degradation.ts, ops/degraded-mode.service.ts) with
    \<open>Degraded_Properties\<close>: the matrix of dependencies, overrides and the cached status; what a
    status reflects, however calls and checks interleave.
  \<^item> \<open>Admin_Config\<close> (config/admin-config.ts): runtime overrides of the feature flags, with the locale
    \<open>evidence_recorder\<close> for what it asks of its recorder, interpreted on the audit trail; the overrides in
    force are exactly what the trail says.
  \<^item> \<open>Invitations\<close> (domain/invitation.ts, services/invitation.service.ts) with \<open>Invitation_Safety\<close>: rate
    limits in every window of time, single acceptance.
  \<^item> \<open>Notifications\<close> (notifications/notification-service.ts, notification-preference.ts) with
    \<open>Notification_Properties\<close>: a lifecycle event of an invoice is in its seller's feed once, whatever the
    preferences, over the locale \<open>dedup_feed\<close> of stores that add once per key.
  \<^item> \<open>Business_Policy\<close> (domain/policy.ts), \<open>Permission_Diff\<close> (domain and services/permission-diff) with
    \<open>Policy_Diff_Properties\<close>, and \<open>Policy_Dry_Run\<close> (domain/policy-dry-run.ts) with \<open>Dry_Run_Properties\<close>: policies
    that are always well formed, reports on changes, what they miss, and dry runs whose totals and pages are exact.
  \<^item> \<open>Resumable_Repair\<close> (ops/resumable-repair.service.ts) with \<open>Repair_Properties\<close>: repair jobs over a
    database that is a parameter; pausing and resuming changes nothing, previews end and show every row once, a
    phase that is listed twice never ends. The loop takes a bound on its turns: one per row and one per phase
    is enough for a preview.

  \<^bold>\<open>Bounds and fuel.\<close> All loops of the code that are modelled end by structural recursion or have
  a termination proof; the drain of the worker has the limit the code gives it, and for the client
  that follows cursors in \<open>Stable_Paging\<close> a theorem says how many pages suffice.
  Time values are integers and sums of them are not clipped unless said; versions and counters
  are integers below 2 to the 53.

  \<^bold>\<open>Not modelled.\<close> The Express routes, servers and timers, the Postgres backends and database
  scripts (their SQL is the behaviour), the mail provider and templates, imports, exports and
  reports, environment checks, the tables of English error texts, the frontend. Strings with code
  units above 255 are outside the string type; \<open>toLowerCase\<close> is exact below that, \<open>toUpperCase\<close> but for
  two letters whose capitals lie above. Messages of errors are left out where no decision
  depends on them.
\<close>

section \<open>Properties that span components\<close>

text \<open>
  A transfer record as the generic state guards see it. The code itself never passes a record of the
  service to the guard; the definition serves to compare the two.
\<close>

definition guard_input :: "transfer_record \<Rightarrow> string \<Rightarrow> user_role \<Rightarrow> ownership_action \<Rightarrow> int \<Rightarrow> ownership_input" where
  "guard_input t actor actor_rank act clock =
     \<lparr>oi_currentOwnerId = ot_currentOwnerId t, oi_targetOwnerId = ot_targetOwnerId t, oi_actorId = actor,
      oi_actorRole = actor_rank, oi_action = act, oi_transferStatus = Some (ot_status t),
      oi_expiresAt = ot_expiresAt t, oi_now = Some clock\<rparr>"

text \<open>
  C33: the transfer service against the generic guard of ownership transitions, for any record of any
  run. There are exactly two differences. The service accepts a transfer exactly when the guard does,
  or at the very instant of the expiry, which the guard counts as expired and the service does not, or when the
  current owner is the empty string, which the guard refuses and the service does not look at. A
  withdrawal or a refusal the service performs is one the guard allows, unless the current owner is empty.
\<close>
theorem transfer_service_meets_guard:
  assumes "transfer_run ok s" and "mget (ts_transfers s) k = Some t"
  shows "((\<exists>t'. fst (acceptTransfer k a clock now s) = Inr t') \<longleftrightarrow>
            validateOwnershipTransition (guard_input t a rank ACCEPT clock) c = Inr () \<or>
            ot_targetOwnerId t = a \<and> pending t \<and>
              (ot_expiresAt t = Some clock \<or> ot_currentOwnerId t = [] \<and> \<not> transfer_expired clock t)) \<and>
         (fst (cancelTransfer k a now s) = Inr t' \<longrightarrow>
            validateOwnershipTransition (guard_input t a rank CANCEL clock) c = Inr () \<or> ot_currentOwnerId t = []) \<and>
         (fst (rejectTransfer k a now s) = Inr t' \<longrightarrow>
            validateOwnershipTransition (guard_input t a rank REJECT clock) c = Inr () \<or> ot_currentOwnerId t = [])"
proof -
  have p: "ot_currentOwnerId t \<noteq> ot_targetOwnerId t" "ot_targetOwnerId t \<noteq> []"
    using records_okD [OF conjunct2 [OF run_inv [OF assms(1)]] assms(2)] by (auto simp: valid_parties_def)
  have "findTransferByIdOrToken k s = Some t" using assms(2) by (simp add: findTransferByIdOrToken_def)
  then have acc: "(\<exists>t'. fst (acceptTransfer k a clock now s) = Inr t') \<longleftrightarrow>
      ot_targetOwnerId t = a \<and> pending t \<and> \<not> transfer_expired clock t"
    by (simp add: acceptTransfer_def Let_def)
  have grd: "validateOwnershipTransition (guard_input t a rank ACCEPT clock) c = Inr () \<longleftrightarrow>
      ot_currentOwnerId t \<noteq> [] \<and> ot_targetOwnerId t = a \<and> pending t \<and> \<not> (case ot_expiresAt t of Some e \<Rightarrow> e \<le> clock | None \<Rightarrow> False)"
  proof (cases "ot_currentOwnerId t = []")
    case True
    then show ?thesis by (simp add: validateOwnershipTransition_def guard_input_def rbind_def throw_if_def)
  next
    case False
    then show ?thesis using p by (auto simp: validateOwnershipTransition_def guard_input_def rbind_Inr_iff)
  qed
  have expd: "\<not> transfer_expired clock t \<longleftrightarrow>
      \<not> (case ot_expiresAt t of Some e \<Rightarrow> e \<le> clock | None \<Rightarrow> False) \<or> ot_expiresAt t = Some clock"
    by (auto simp: transfer_expired_def split: option.split)
  have can: "validateOwnershipTransition (guard_input t a rank CANCEL clock) c = Inr () \<or> ot_currentOwnerId t = []"
    if "fst (cancelTransfer k a now s) = Inr t'"
  proof -
    have "ot_currentOwnerId t = a" using that assms(2) by (auto simp: cancelTransfer_def split: if_splits)
    then show ?thesis using p by (cases "ot_currentOwnerId t = []") (simp_all add: validateOwnershipTransition_def guard_input_def Let_def)
  qed
  have rej: "validateOwnershipTransition (guard_input t a rank REJECT clock) c = Inr () \<or> ot_currentOwnerId t = []"
    if "fst (rejectTransfer k a now s) = Inr t'"
  proof -
    have "ot_targetOwnerId t = a" using that assms(2) by (auto simp: rejectTransfer_def split: if_splits)
    then show ?thesis using p by (cases "ot_currentOwnerId t = []") (simp_all add: validateOwnershipTransition_def guard_input_def Let_def)
  qed
  show ?thesis unfolding acc grd using expd can rej by blast
qed

text \<open>Witness of C33: the nominee accepts at the instant of the expiry; the guard would refuse.\<close>
theorem transfer_service_meets_guard_witness:
  "(\<exists>t'. fst (acceptTransfer ''u'' ''b'' 1000 1000 demo_started) = Inr t') \<and>
   validateOwnershipTransition (guard_input demo_transfer ''b'' OWNER ACCEPT 1000) 0 \<noteq> Inr ()"
proof -
  have m: "mget (ts_transfers demo_started) ''u'' = Some demo_transfer" by (simp add: demo_started_simps)
  have "validateOwnershipTransition (guard_input demo_transfer ''b'' OWNER ACCEPT 1000) 0 \<noteq> Inr ()"
    by (simp add: validateOwnershipTransition_def guard_input_def demo_transfer_simps)
  then show ?thesis
    using transfer_service_meets_guard [OF demo_run(1) m, where a = "''b''" and clock = 1000 and now = 1000 and rank = OWNER and c = 0]
    by (simp add: demo_transfer_simps)
qed

end
